(* ===== verification/Prelude.thy ===== *)
theory Prelude
  imports Complex_Main
begin

text \<open>
  What every component of the model shares: the errors a handler can throw, the shape of an
  asynchronous handler (\<open>act\<close>: it reads and changes the state and either returns or throws), its
  combinators, the way state properties travel through the combinators (the locale
  \<open>step_order\<close>), the JavaScript number conversions the code relies on, and the decimal rendering
  of identifiers inside idempotency keys.
\<close>

named_theorems act_defs "unfolding equations of the combinators of act"

section \<open>Errors and handlers\<close>

text \<open>
  The exceptions of the code: NestJS's HTTP exceptions with their message, a
  \<open>BusinessException\<close> with its error code (src/common/exceptions), Prisma's unique-constraint
  error P2002, the casino's own \<open>CasinoError\<close>, and any other thrown \<open>Error\<close>.
\<close>

datatype err =
    Forbidden string
  | BadRequest string
  | NotFound string
  | Business string
  | P2002
  | CasinoError string
  | OtherError string

type_synonym ('s, 'a) act = "'s \<Rightarrow> (err + 'a) \<times> 's"

definition returnA :: "'a \<Rightarrow> ('s, 'a) act" where
  "returnA a s = (Inr a, s)"

definition throwA :: "err \<Rightarrow> ('s, 'a) act" where
  "throwA e s = (Inl e, s)"

definition bindA :: "('s, 'a) act \<Rightarrow> ('a \<Rightarrow> ('s, 'b) act) \<Rightarrow> ('s, 'b) act" where
  "bindA m k s = (case m s of (Inl e, s') \<Rightarrow> (Inl e, s') | (Inr a, s') \<Rightarrow> k a s')"

definition guardA :: "bool \<Rightarrow> err \<Rightarrow> ('s, unit) act" where
  "guardA b e s = (if b then (Inr (), s) else (Inl e, s))"

definition getsA :: "('s \<Rightarrow> 'a) \<Rightarrow> ('s, 'a) act" where
  "getsA f s = (Inr (f s), s)"

definition modifyA :: "('s \<Rightarrow> 's) \<Rightarrow> ('s, unit) act" where
  "modifyA f s = (Inr (), f s)"

text \<open>\<open>catchA m h\<close> is \<open>try { m } catch (e) { h(e) }\<close>: the effects of \<open>m\<close> up to the throw stay.\<close>

definition catchA :: "('s, 'a) act \<Rightarrow> (err \<Rightarrow> ('s, 'a) act) \<Rightarrow> ('s, 'a) act" where
  "catchA m h s = (case m s of (Inl e, s') \<Rightarrow> h e s' | (Inr a, s') \<Rightarrow> (Inr a, s'))"

text \<open>\<open>forA f xs\<close> is \<open>for (const x of xs) await f(x)\<close>: it stops at the first throw.\<close>

fun forA :: "('a \<Rightarrow> ('s, unit) act) \<Rightarrow> 'a list \<Rightarrow> ('s, unit) act" where
  "forA f [] = returnA ()"
| "forA f (x # xs) = bindA (f x) (\<lambda>_. forA f xs)"

lemmas [act_defs] = returnA_def throwA_def bindA_def guardA_def getsA_def modifyA_def catchA_def

lemma bindA_returnA [simp]: "bindA (returnA a) k = k a"
  by (simp add: fun_eq_iff act_defs)

lemma bindA_throwA [simp]: "bindA (throwA e) k = throwA e"
  by (simp add: fun_eq_iff act_defs)

lemma bindA_assoc: "bindA (bindA m k) l = bindA m (\<lambda>a. bindA (k a) l)"
  by (auto simp: fun_eq_iff act_defs split: prod.splits sum.splits)

lemma bindA_Inr:
  "bindA m k s = (Inr b, s') \<longleftrightarrow> (\<exists>a s1. m s = (Inr a, s1) \<and> k a s1 = (Inr b, s'))"
  by (auto simp: act_defs split: prod.splits sum.splits)

lemma bindA_Inl:
  "bindA m k s = (Inl e, s') \<longleftrightarrow>
     m s = (Inl e, s') \<or> (\<exists>a s1. m s = (Inr a, s1) \<and> k a s1 = (Inl e, s'))"
  by (auto simp: act_defs split: prod.splits sum.splits)

lemma guardA_Inr [simp]: "guardA b e s = (Inr u, s') \<longleftrightarrow> b \<and> s' = s"
  by (auto simp: act_defs)

lemma guardA_Inl [simp]: "guardA b e s = (Inl e', s') \<longleftrightarrow> \<not> b \<and> e' = e \<and> s' = s"
  by (auto simp: act_defs)

lemma getsA_Inr [simp]: "getsA f s = (Inr a, s') \<longleftrightarrow> a = f s \<and> s' = s"
  by (auto simp: act_defs)

lemma modifyA_Inr [simp]: "modifyA f s = (Inr u, s') \<longleftrightarrow> s' = f s"
  by (auto simp: act_defs)

lemma returnA_Inr [simp]: "returnA a s = (Inr b, s') \<longleftrightarrow> b = a \<and> s' = s"
  by (auto simp: act_defs)

lemma throwA_Inr [simp]: "throwA e s \<noteq> (Inr b, s')" "throwA e s = (Inl e', s') \<longleftrightarrow> e' = e \<and> s' = s"
  by (auto simp: act_defs)

lemma no_throw [simp]:
  "getsA f s \<noteq> (Inl e, s')" "modifyA g s \<noteq> (Inl e, s')" "returnA a s \<noteq> (Inl e, s')"
  by (auto simp: act_defs)

section \<open>State properties that travel through the combinators\<close>

text \<open>
  A property of what one handler does to the state that is reflexive and transitive (the ledger
  only grows, an invariant once true stays true) holds of every handler built from steps that
  have it. \<open>step_order\<close> is that interface: its client lemmas are the rules for the combinators.
\<close>

locale step_order =
  fixes R :: "'s \<Rightarrow> 's \<Rightarrow> bool"
  assumes refl_step: "R s s"
    and trans_step: "R s t \<Longrightarrow> R t u \<Longrightarrow> R s u"
begin

definition ok :: "('s, 'a) act \<Rightarrow> bool" where
  "ok m \<longleftrightarrow> (\<forall>s. R s (snd (m s)))"

lemma okD: "ok m \<Longrightarrow> m s = (r, s') \<Longrightarrow> R s s'"
  by (metis ok_def snd_conv)

lemma okI: "(\<And>s r s'. m s = (r, s') \<Longrightarrow> R s s') \<Longrightarrow> ok m"
  by (metis ok_def prod.collapse)

lemma ok_pure [intro!]: "ok (returnA a)" "ok (throwA e)" "ok (guardA b e)" "ok (getsA f)"
  by (auto simp: ok_def act_defs refl_step)

lemma ok_modify: "(\<And>s. R s (f s)) \<Longrightarrow> ok (modifyA f)"
  by (simp add: ok_def act_defs)

lemma ok_bind [intro]:
  assumes m: "ok m" and k: "\<And>a. ok (k a)"
  shows "ok (bindA m k)"
proof (rule okI)
  fix s r s' assume run: "bindA m k s = (r, s')"
  obtain x s1 where ms: "m s = (x, s1)" by fastforce
  then have R1: "R s s1" using m okD by blast
  show "R s s'"
  proof (cases x)
    case (Inl e)
    then show ?thesis using run ms R1 by (simp add: bindA_def)
  next
    case (Inr a)
    then have "k a s1 = (r, s')" using run ms by (simp add: bindA_def)
    then show ?thesis using R1 k okD trans_step by blast
  qed
qed

lemma ok_catch [intro]:
  assumes m: "ok m" and h: "\<And>e. ok (h e)"
  shows "ok (catchA m h)"
proof (rule okI)
  fix s r s' assume run: "catchA m h s = (r, s')"
  obtain x s1 where ms: "m s = (x, s1)" by fastforce
  then have R1: "R s s1" using m okD by blast
  show "R s s'"
  proof (cases x)
    case (Inl e)
    then have "h e s1 = (r, s')" using run ms by (simp add: catchA_def)
    then show ?thesis using R1 h okD trans_step by blast
  next
    case (Inr a)
    then show ?thesis using run ms R1 by (simp add: catchA_def)
  qed
qed

lemma ok_for [intro]: "(\<And>x. ok (f x)) \<Longrightarrow> ok (forA f xs)"
  by (induction xs) auto

lemma ok_option [intro]: "ok m \<Longrightarrow> (\<And>a. ok (k a)) \<Longrightarrow> ok (case x of None \<Rightarrow> m | Some a \<Rightarrow> k a)"
  by (cases x) auto

lemma ok_for_mem: "(\<And>x. x \<in> set xs \<Longrightarrow> ok (f x)) \<Longrightarrow> ok (forA f xs)"
  by (induction xs) (auto intro: ok_bind)

lemma ok_guard: "(b \<Longrightarrow> ok (k ())) \<Longrightarrow> ok (bindA (guardA b e) k)"
  by (cases b) (auto simp: ok_def act_defs refl_step)

lemma ok_if [intro]: "ok m \<Longrightarrow> ok n \<Longrightarrow> ok (if b then m else n)"
  by auto

lemma ok_let [intro]: "(\<And>x. ok (f x)) \<Longrightarrow> ok (let x = v in f x)"
  by (simp add: Let_def)

end

text \<open>Every state predicate gives such an order: once it holds, it goes on holding.\<close>

definition stable :: "('s \<Rightarrow> bool) \<Rightarrow> 's \<Rightarrow> 's \<Rightarrow> bool" where
  "stable P s s' \<longleftrightarrow> (P s \<longrightarrow> P s')"

lemma stable_order: "step_order (stable P)"
  by unfold_locales (auto simp: stable_def)

section \<open>JavaScript numbers\<close>

text \<open>
  \<open>Number(b)\<close> of a BigInt is the nearest double, ties to even. Every integer up to \<open>2 ^ 53\<close> in
  absolute value is a double; above that the low bits are rounded away.
\<close>

fun bit_len :: "nat \<Rightarrow> nat" where
  "bit_len n = (if n = 0 then 0 else Suc (bit_len (n div 2)))"

declare bit_len.simps [simp del]

lemma bit_len_power: "2 ^ k \<le> n \<Longrightarrow> n < 2 ^ Suc k \<Longrightarrow> bit_len n = Suc k"
proof (induction k arbitrary: n)
  case 0
  then have "n = 1" by simp
  then show ?case using bit_len.simps [of 1] bit_len.simps [of 0] by simp
next
  case (Suc k)
  then have "2 ^ k \<le> n div 2" "n div 2 < 2 ^ Suc k" "n \<noteq> 0" by auto
  then show ?case using Suc.IH [of "n div 2"] by (simp add: bit_len.simps [of n])
qed

definition round_even :: "nat \<Rightarrow> nat \<Rightarrow> nat" where
  "round_even m k =
     (let q = m div 2 ^ k; r = m mod 2 ^ k; half = 2 ^ (k - 1)
      in (if half < r \<or> (r = half \<and> odd q) then q + 1 else q) * 2 ^ k)"

definition toNumber :: "int \<Rightarrow> int" where
  "toNumber n =
     (if \<bar>n\<bar> \<le> 9007199254740992 then n
      else let m = nat \<bar>n\<bar> in sgn n * int (round_even m (bit_len m - 53)))"

lemma toNumber_exact [simp]: "\<bar>n\<bar> \<le> 2 ^ 53 \<Longrightarrow> toNumber n = n"
  by (simp add: toNumber_def)

text \<open>\<open>Number.isInteger\<close> on a finite number, and \<open>BigInt(x)\<close> of an integral one.\<close>

definition isInteger :: "rat \<Rightarrow> bool" where
  "isInteger x \<longleftrightarrow> x = of_int \<lfloor>x\<rfloor>"

lemma isInteger_of_int [simp]: "isInteger (of_int n)"
  by (simp add: isInteger_def)

lemma isInteger_numeral [simp]: "isInteger (numeral k)"
  using isInteger_of_int [of "numeral k"] by simp

section \<open>Identifiers inside idempotency keys\<close>

text \<open>
  Row identifiers are UUIDs generated by the database; the model numbers them. What the keys
  need of an identifier's text is that it determines the identifier and holds no colon, which
  the decimal rendering below gives.
\<close>

definition digit_char :: "nat \<Rightarrow> char" where
  "digit_char d = char_of (48 + d)"

fun show_nat :: "nat \<Rightarrow> string" where
  "show_nat n = (if n < 10 then [digit_char n] else show_nat (n div 10) @ [digit_char (n mod 10)])"

declare show_nat.simps [simp del]

definition digit_val :: "char \<Rightarrow> nat" where
  "digit_val c = of_char c - 48"

definition read_nat :: "string \<Rightarrow> nat" where
  "read_nat cs = foldl (\<lambda>a c. 10 * a + digit_val c) 0 cs"

lemma digit_val_char [simp]: "d < 10 \<Longrightarrow> digit_val (digit_char d) = d"
  by (simp add: digit_val_def digit_char_def)

lemma read_show [simp]: "read_nat (show_nat n) = n"
proof (induction n rule: show_nat.induct)
  case (1 n)
  show ?case
  proof (cases "n < 10")
    case True
    then show ?thesis by (simp add: show_nat.simps [of n] read_nat_def)
  next
    case False
    with 1 show ?thesis by (simp add: show_nat.simps [of n] read_nat_def)
  qed
qed

lemma show_nat_inject [simp]: "show_nat m = show_nat n \<longleftrightarrow> m = n"
  by (metis read_show)

lemma digit_char_not_colon: "d < 10 \<Longrightarrow> digit_char d \<noteq> CHR '':''"
proof
  assume d: "d < 10" and eq: "digit_char d = CHR '':''"
  have "digit_val (CHR '':'') = 10" by (simp add: digit_val_def)
  then show False using d eq digit_val_char by fastforce
qed

lemma show_nat_no_colon: "CHR '':'' \<notin> set (show_nat n)"
proof (induction n rule: show_nat.induct)
  case (1 n)
  then show ?case
    using digit_char_not_colon [of n] digit_char_not_colon [of "n mod 10"]
    by (cases "n < 10") (auto simp: show_nat.simps [of n])
qed

lemma colon_split:
  assumes "CHR '':'' \<notin> set a" "CHR '':'' \<notin> set b" "a @ CHR '':'' # x = b @ CHR '':'' # y"
  shows "a = b \<and> x = y"
  using assms
proof (induction a arbitrary: b)
  case Nil
  then show ?case by (cases b) auto
next
  case (Cons c a)
  then show ?case by (cases b) auto
qed

lemma show_nat_colon [simp]:
  "show_nat a @ CHR '':'' # x = show_nat b @ CHR '':'' # y \<longleftrightarrow> a = b \<and> x = y"
  using colon_split show_nat_no_colon by fastforce

section \<open>Strings\<close>

text \<open>The white space \<open>String.trim\<close> removes, in the range of a character.\<close>

definition white :: "char \<Rightarrow> bool" where
  "white c \<longleftrightarrow> c \<in> {CHR '' '', CHR 0x09, CHR 0x0A, CHR 0x0B, CHR 0x0C, CHR 0x0D, CHR 0xA0}"

definition trim :: "string \<Rightarrow> string" where
  "trim s = rev (dropWhile white (rev (dropWhile white s)))"

text \<open>\<open>String.toUpperCase\<close> on ASCII, and the decimal text of an integer.\<close>

definition upper :: "char \<Rightarrow> char" where
  "upper c = (let n = of_char c :: nat in if 97 \<le> n \<and> n \<le> 122 then char_of (n - 32) else c)"

definition show_int :: "int \<Rightarrow> string" where
  "show_int n = (if n < 0 then CHR ''-'' # show_nat (nat (- n)) else show_nat (nat n))"

lemma digit_char_not_minus: "d < 10 \<Longrightarrow> digit_char d \<noteq> CHR ''-''"
proof
  assume d: "d < 10" and eq: "digit_char d = CHR ''-''"
  have "(of_char (digit_char d) :: nat) = of_char (CHR ''-'')" using eq by simp
  then show False using d by (simp add: digit_char_def)
qed

lemma show_nat_no_minus: "show_nat n \<noteq> CHR ''-'' # cs"
proof (induction n arbitrary: cs rule: show_nat.induct)
  case (1 n)
  then show ?case
    using digit_char_not_minus [of n] digit_char_not_minus [of "n mod 10"]
    by (cases "n < 10"; cases "show_nat (n div 10)") (auto simp: show_nat.simps [of n])
qed

lemma show_int_inject [simp]: "show_int m = show_int n \<longleftrightarrow> m = n"
  using show_nat_no_minus by (auto simp: show_int_def) metis+

lemma show_int_no_colon: "CHR '':'' \<notin> set (show_int n)"
  using show_nat_no_colon by (auto simp: show_int_def)

lemma show_int_colon [simp]: "show_int a @ CHR '':'' # x = show_int b @ CHR '':'' # y \<longleftrightarrow> a = b \<and> x = y"
  using colon_split show_int_no_colon by fastforce

end
