(* ===== verification/WalletModel.thy ===== *)
theory WalletModel
  imports Prelude
begin

text \<open>
  The wallet's data (prisma/schema/wallet.prisma) and the table operations the wallet services
  use. A wallet row is found by its primary key and by the unique column \<open>userId\<close>; a transaction
  header by its unique \<open>idempotencyKey\<close>; the ledger is append-only. The book-keeping invariant
  \<open>books\<close> says that every balance column equals the signed sum of the wallet's ledger entries in
  that currency: it is what src/modules/wallet/services/wallet-reconciliation.service.ts checks.
\<close>

section \<open>Rows\<close>

type_synonym uid = nat

datatype currency = GOLD | FREE | EARNINGS | DIAMOND | GAME

datatype wallet_status = ACTIVE | LOCKED | FROZEN | SUSPENDED

datatype wallet_type =
    USER_WALLET | HOST_WALLET | AGENCY_WALLET | COIN_SELLER_WALLET | TREASURY_WALLET
  | SYSTEM_WALLET | ESCROW_WALLET | GAME_ESCROW_WALLET

datatype entry_type = CREDIT | DEBIT

datatype reservation_status = HELD | RELEASED | CONSUMED | RES_EXPIRED

datatype transaction_status = TX_PENDING | TX_COMPLETED | TX_FAILED | TX_CANCELLED | TX_REVERSED

datatype transaction_type =
    PURCHASE | GIFT | REWARD | BONUS | TREASURE | TT_WITHDRAWAL | DEPOSIT | REFUND | SETTLEMENT
  | PENALTY | ADJUSTMENT | TRANSFER | GAME_ENTRY | GAME_REWARD

datatype (plugins only: code) reason =
    RECHARGE | GIFT_SEND | GIFT_RECEIVE | GIFT_REFUND | ADMIN_CREDIT | ADMIN_DEBIT | TREASURE_BOX
  | GAME_STAKE | GAME_PAYOUT | VIP_PURCHASE | EVENT_REWARD | COSMETIC_PURCHASE | PREMIUM_SEAT
  | GAME_REFUND | LUCKY_PACKET_CREATE | LUCKY_PACKET_CLAIM | LUCKY_PACKET_REFUND
  | SPIN_WHEEL_REWARD | CASINO_BET | CASINO_WIN | CASINO_REFUND | PK_REWARD | HOST_EARNING
  | AGENCY_COMMISSION | COIN_SELLER_COMMISSION | WITHDRAWAL | VIP_RENEWAL | SYSTEM_TRANSFER
  | RESERVATION_HOLD | RESERVATION_RELEASE | RESERVATION_CONSUME | ATTENDANCE_REWARD
  | PK_BATTLE_RECEIVER_BONUS | PURCHASE_REVERSAL | COIN_SELLER_CREDIT | GIFT_CASHBACK
  | DIAMOND_GIFT_EARNING | DIAMOND_WITHDRAWAL_RESERVE | DIAMOND_WITHDRAWAL_COMPLETED
  | DIAMOND_WITHDRAWAL_REVERSED | DIAMOND_ADJUSTMENT | GAME_DAILY_LOGIN | GAME_TASK_REWARD
  | GAME_EVENT_REWARD | GAME_SPIN_REWARD | GAME_ACHIEVEMENT_REWARD | GAME_PROMOTIONAL_REWARD
  | GAME_COIN_STAKE | GAME_COIN_WIN | GAME_COIN_REFUND

record wallet =
  w_id :: nat
  w_userId :: uid
  goldBalance :: int
  freeBalance :: int
  earningsBalance :: int
  diamondBalance :: int
  gameBalance :: int
  totalRecharged :: int
  totalGiftsSentValue :: int
  totalGiftsReceivedValue :: int
  totalSpent :: int
  version :: int
  availableBalance :: int
  lockedBalance :: int
  pendingBalance :: int
  reservedBalance :: int
  w_status :: wallet_status
  w_type :: wallet_type

record txn =
  t_id :: nat
  t_currency :: currency
  t_amount :: int
  t_referenceType :: "string option"
  t_referenceId :: "string option"
  t_idempotencyKey :: string
  t_createdBy :: "uid option"
  t_source :: "nat option"
  t_destination :: "nat option"
  t_status :: transaction_status
  t_type :: transaction_type

record entry =
  e_transactionId :: nat
  e_walletId :: nat
  e_type :: entry_type
  e_currency :: currency
  e_reason :: reason
  e_amount :: int
  e_balanceBefore :: int
  e_balanceAfter :: int
  e_referenceType :: "string option"
  e_referenceId :: "string option"
  e_description :: "string option"
  e_actorId :: "uid option"

record reservation =
  r_id :: nat
  r_walletId :: nat
  r_currency :: currency
  r_amount :: int
  r_purpose :: string
  r_status :: reservation_status
  r_referenceType :: "string option"
  r_referenceId :: "string option"
  r_expiresAt :: "int option"

record audit =
  au_walletId :: nat
  au_action :: string
  au_actorId :: "uid option"

text \<open>The payload of \<open>wallet.credited\<close> and \<open>wallet.debited\<close> (events/wallet.events.ts).\<close>

record movement_event =
  ev_type :: entry_type
  ev_userId :: "uid option"
  ev_transactionId :: nat
  ev_currency :: currency
  ev_amount :: int
  ev_balanceAfter :: int
  ev_reason :: reason
  ev_referenceType :: "string option"
  ev_referenceId :: "string option"

text \<open>
  The database and the services the wallet reads: \<open>economyFrozen\<close> and \<open>walletEnabled\<close> are the
  answers of the treasury's freeze flag and of the feature flag, \<open>next_id\<close> the database's supply
  of fresh row identifiers. Components that use the wallet extend this record with their tables.
\<close>

record wdb =
  wallets :: "nat \<rightharpoonup> wallet"
  wallet_of :: "uid \<rightharpoonup> nat"
  txns :: "string \<rightharpoonup> txn"
  ledger :: "entry list"
  reservations :: "nat \<rightharpoonup> reservation"
  audits :: "audit list"
  bus :: "movement_event list"
  next_id :: nat
  economyFrozen :: bool
  walletEnabled :: bool

definition empty_wallet :: "nat \<Rightarrow> uid \<Rightarrow> wallet_type \<Rightarrow> wallet" where
  "empty_wallet i u ty =
     \<lparr>w_id = i, w_userId = u, goldBalance = 0, freeBalance = 0, earningsBalance = 0,
      diamondBalance = 0, gameBalance = 0, totalRecharged = 0, totalGiftsSentValue = 0,
      totalGiftsReceivedValue = 0, totalSpent = 0, version = 0, availableBalance = 0,
      lockedBalance = 0, pendingBalance = 0, reservedBalance = 0, w_status = ACTIVE, w_type = ty\<rparr>"

definition init_db :: wdb where
  "init_db = \<lparr>wallets = Map.empty, wallet_of = Map.empty, txns = Map.empty, ledger = [],
     reservations = Map.empty, audits = [], bus = [], next_id = 1,
     economyFrozen = False, walletEnabled = True\<rparr>"

section \<open>Table operations\<close>

fun balance_of :: "currency \<Rightarrow> wallet \<Rightarrow> int" where
  "balance_of GOLD w = goldBalance w"
| "balance_of DIAMOND w = diamondBalance w"
| "balance_of GAME w = gameBalance w"
| "balance_of FREE w = freeBalance w"
| "balance_of EARNINGS w = earningsBalance w"

fun set_balance :: "currency \<Rightarrow> int \<Rightarrow> wallet \<Rightarrow> wallet" where
  "set_balance GOLD b w = w\<lparr>goldBalance := b\<rparr>"
| "set_balance DIAMOND b w = w\<lparr>diamondBalance := b\<rparr>"
| "set_balance GAME b w = w\<lparr>gameBalance := b\<rparr>"
| "set_balance FREE b w = w\<lparr>freeBalance := b\<rparr>"
| "set_balance EARNINGS b w = w\<lparr>earningsBalance := b\<rparr>"

definition walletByUser :: "('z wdb_scheme) \<Rightarrow> uid \<Rightarrow> wallet option" where
  "walletByUser s u = Option.bind (wallet_of s u) (wallets s)"

text \<open>\<open>wallet.create\<close>: throws P2002 when the user already has a wallet.\<close>

definition createWallet :: "uid \<Rightarrow> wallet_type \<Rightarrow> ('z wdb_scheme, wallet) act" where
  "createWallet u ty s =
     (case wallet_of s u of
        Some _ \<Rightarrow> (Inl P2002, s)
      | None \<Rightarrow>
          (let w = empty_wallet (next_id s) u ty
           in (Inr w, s\<lparr>wallets := (wallets s)(next_id s \<mapsto> w),
                         wallet_of := (wallet_of s)(u \<mapsto> next_id s),
                         next_id := Suc (next_id s)\<rparr>)))"

text \<open>\<open>wallet.upsert({ where: { userId }, create: { userId }, update: {} })\<close>.\<close>

definition ensureWallet :: "uid \<Rightarrow> ('z wdb_scheme, unit) act" where
  "ensureWallet u s =
     (case wallet_of s u of
        Some _ \<Rightarrow> (Inr (), s)
      | None \<Rightarrow> bindA (createWallet u USER_WALLET) (\<lambda>_. returnA ()) s)"

definition putWallet :: "nat \<Rightarrow> (wallet \<Rightarrow> wallet) \<Rightarrow> ('z wdb_scheme, wallet) act" where
  "putWallet i f s =
     (case wallets s i of
        None \<Rightarrow> (Inl (OtherError ''P2025''), s)
      | Some w \<Rightarrow> (Inr (f w), s\<lparr>wallets := (wallets s)(i \<mapsto> f w)\<rparr>))"

text \<open>\<open>walletTransaction.create\<close>: the unique \<open>idempotencyKey\<close> decides a race.\<close>

definition createTxn :: "(nat \<Rightarrow> txn) \<Rightarrow> ('z wdb_scheme, txn) act" where
  "createTxn mk s =
     (let t = mk (next_id s)
      in if txns s (t_idempotencyKey t) \<noteq> None then (Inl P2002, s)
         else (Inr t, s\<lparr>txns := (txns s)(t_idempotencyKey t \<mapsto> t), next_id := Suc (next_id s)\<rparr>))"

definition appendLedgerEntry :: "entry \<Rightarrow> ('z wdb_scheme, entry) act" where
  "appendLedgerEntry e s = (Inr e, s\<lparr>ledger := ledger s @ [e]\<rparr>)"

definition logAudit :: "nat \<Rightarrow> string \<Rightarrow> uid option \<Rightarrow> ('z wdb_scheme, unit) act" where
  "logAudit i action actor s =
     (Inr (), s\<lparr>audits := audits s @ [\<lparr>au_walletId = i, au_action = action, au_actorId = actor\<rparr>]\<rparr>)"

definition publishMovement :: "movement_event \<Rightarrow> ('z wdb_scheme, unit) act" where
  "publishMovement ev s = (Inr (), s\<lparr>bus := bus s @ [ev]\<rparr>)"

text \<open>
  \<open>prisma.$transaction\<close>: a throw undoes every write made through the transaction client. The
  audit rows (written through \<open>this.prisma\<close>, not the transaction client), the events already
  published and the identifiers already drawn are not undone.
\<close>

definition rollback :: "('z wdb_scheme) \<Rightarrow> ('z wdb_scheme) \<Rightarrow> ('z wdb_scheme)" where
  "rollback s s' = s\<lparr>audits := audits s', bus := bus s', next_id := next_id s'\<rparr>"

definition transaction :: "('z wdb_scheme, 'a) act \<Rightarrow> ('z wdb_scheme, 'a) act" where
  "transaction m s = (case m s of (Inl e, s') \<Rightarrow> (Inl e, rollback s s') | (Inr a, s') \<Rightarrow> (Inr a, s'))"

lemma transaction_Inr [simp]: "transaction m s = (Inr a, s') \<longleftrightarrow> m s = (Inr a, s')"
  by (auto simp: transaction_def split: prod.splits sum.splits)

lemma transaction_Inl:
  "transaction m s = (Inl e, s') \<longleftrightarrow> (\<exists>s1. m s = (Inl e, s1) \<and> s' = rollback s s1)"
  by (auto simp: transaction_def split: prod.splits sum.splits)

section \<open>Books\<close>

definition signed :: "entry \<Rightarrow> int" where
  "signed e = (case e_type e of CREDIT \<Rightarrow> e_amount e | DEBIT \<Rightarrow> - e_amount e)"

definition ledger_net :: "entry list \<Rightarrow> nat \<Rightarrow> currency \<Rightarrow> int" where
  "ledger_net es i c = sum_list (map signed (filter (\<lambda>e. e_walletId e = i \<and> e_currency e = c) es))"

lemma ledger_net_Nil [simp]: "ledger_net [] i c = 0"
  by (simp add: ledger_net_def)

lemma ledger_net_snoc [simp]:
  "ledger_net (es @ [e]) i c =
     ledger_net es i c + (if e_walletId e = i \<and> e_currency e = c then signed e else 0)"
  by (simp add: ledger_net_def)

lemma ledger_net_none: "(\<And>e. e \<in> set es \<Longrightarrow> e_walletId e \<noteq> i) \<Longrightarrow> ledger_net es i c = 0"
  by (induction es) (auto simp: ledger_net_def)

text \<open>The unique indexes agree with the tables, and identifiers are fresh.\<close>

definition wf_db :: "('z wdb_scheme) \<Rightarrow> bool" where
  "wf_db s \<longleftrightarrow>
     (\<forall>u i. wallet_of s u = Some i \<longrightarrow> (\<exists>w. wallets s i = Some w \<and> w_userId w = u)) \<and>
     (\<forall>i w. wallets s i = Some w \<longrightarrow> wallet_of s (w_userId w) = Some i \<and> w_id w = i \<and> i < next_id s) \<and>
     (\<forall>e \<in> set (ledger s). e_walletId e < next_id s) \<and>
     (\<forall>k t. txns s k = Some t \<longrightarrow> t_idempotencyKey t = k \<and> t_id t < next_id s)"

definition books :: "('z wdb_scheme) \<Rightarrow> bool" where
  "books s \<longleftrightarrow> (\<forall>i w c. wallets s i = Some w \<longrightarrow> balance_of c w = ledger_net (ledger s) i c)"

definition solvent :: "('z wdb_scheme) \<Rightarrow> bool" where
  "solvent s \<longleftrightarrow> (\<forall>i w c. wallets s i = Some w \<longrightarrow> 0 \<le> balance_of c w)"

text \<open>
  The documented meaning of the GOLD aggregate (prisma/schema/wallet.prisma): what is available
  is the gold balance less what reservations hold.
\<close>

definition gold_split :: "('z wdb_scheme) \<Rightarrow> bool" where
  "gold_split s \<longleftrightarrow>
     (\<forall>i w. wallets s i = Some w \<longrightarrow> goldBalance w = availableBalance w + reservedBalance w)"

definition user_balance :: "('z wdb_scheme) \<Rightarrow> uid \<Rightarrow> currency \<Rightarrow> int" where
  "user_balance s u c = (case walletByUser s u of None \<Rightarrow> 0 | Some w \<Rightarrow> balance_of c w)"

lemma wf_dbI:
  assumes "\<And>u i. wallet_of s u = Some i \<Longrightarrow> \<exists>w. wallets s i = Some w \<and> w_userId w = u"
    and "\<And>i w. wallets s i = Some w \<Longrightarrow> wallet_of s (w_userId w) = Some i"
    and "\<And>i w. wallets s i = Some w \<Longrightarrow> w_id w = i"
    and "\<And>i w. wallets s i = Some w \<Longrightarrow> i < next_id s"
    and "\<And>e. e \<in> set (ledger s) \<Longrightarrow> e_walletId e < next_id s"
    and "\<And>k t. txns s k = Some t \<Longrightarrow> t_idempotencyKey t = k"
    and "\<And>k t. txns s k = Some t \<Longrightarrow> t_id t < next_id s"
  shows "wf_db s"
  unfolding wf_db_def using assms by blast

lemma wf_dbD:
  assumes "wf_db s"
  shows wf_index: "wallet_of s u = Some i \<Longrightarrow> \<exists>w. wallets s i = Some w \<and> w_userId w = u"
    and wf_wallet_of: "wallets s i = Some w \<Longrightarrow> wallet_of s (w_userId w) = Some i"
    and wf_w_id: "wallets s i = Some w \<Longrightarrow> w_id w = i"
    and wf_w_fresh: "wallets s i = Some w \<Longrightarrow> i < next_id s"
    and wf_entry: "e \<in> set (ledger s) \<Longrightarrow> e_walletId e < next_id s"
    and wf_txn_key: "txns s k = Some t \<Longrightarrow> t_idempotencyKey t = k"
    and wf_txn_fresh: "txns s k = Some t \<Longrightarrow> t_id t < next_id s"
  using assms unfolding wf_db_def by blast+

lemma wf_init: "wf_db init_db"
  by (simp add: wf_db_def init_db_def)

lemma books_init: "books init_db"
  by (simp add: books_def init_db_def)

lemma solvent_init: "solvent init_db"
  by (simp add: solvent_def init_db_def)

lemma balance_set_balance [simp]:
  "balance_of c (set_balance d b w) = (if c = d then b else balance_of c w)"
  by (cases c; cases d) auto

lemma set_balance_frame [simp]:
  "w_id (set_balance c b w) = w_id w" "w_userId (set_balance c b w) = w_userId w"
  "w_status (set_balance c b w) = w_status w" "reservedBalance (set_balance c b w) = reservedBalance w"
  "availableBalance (set_balance c b w) = availableBalance w"
  "version (set_balance c b w) = version w" "totalSpent (set_balance c b w) = totalSpent w"
  by (cases c; simp)+

lemma balance_empty [simp]: "balance_of c (empty_wallet i u ty) = 0"
  by (cases c) (simp_all add: empty_wallet_def)

lemma empty_wallet_sel [simp]:
  "w_id (empty_wallet i u ty) = i" "w_userId (empty_wallet i u ty) = u"
  "w_status (empty_wallet i u ty) = ACTIVE" "reservedBalance (empty_wallet i u ty) = 0"
  "availableBalance (empty_wallet i u ty) = 0" "goldBalance (empty_wallet i u ty) = 0"
  by (simp_all add: empty_wallet_def)

end
