(* ===== verification/WalletMovement.thy ===== *)
theory WalletMovement
  imports WalletModel
begin

text \<open>
  Path A of the wallet: the balance movement that every domain module (casino, gifts, lucky
  packets, withdrawals) uses through \<open>WALLET_SERVICE\<close>. It models wallet-validation.service.ts,
  \<open>WalletRepository.applyMovement\<close> (wallet.repository.ts) and \<open>WalletService\<close> (wallet.service.ts)
  under src/modules/wallet. The interface its clients rely on is the locale \<open>wallet_service\<close>,
  interpreted on the model at the end of the theory.
\<close>

section \<open>Validation\<close>

definition validateEconomyStatus :: "('z wdb_scheme, unit) act" where
  "validateEconomyStatus =
     bindA (getsA economyFrozen) (\<lambda>isFrozen.
     bindA (guardA (\<not> isFrozen) (Forbidden ''Emergency Economy Freeze'')) (\<lambda>_.
     bindA (getsA walletEnabled) (\<lambda>enabled.
     guardA enabled (Forbidden ''Wallet feature is currently disabled''))))"

definition validateWalletActive :: "wallet \<Rightarrow> ('z wdb_scheme, unit) act" where
  "validateWalletActive w = guardA (w_status w = ACTIVE) (Forbidden ''Wallet cannot process operations'')"

text \<open>The balance a debit of an optional currency is checked against.\<close>

definition checked_balance :: "wallet \<Rightarrow> currency option \<Rightarrow> int" where
  "checked_balance w c =
     (if c = Some GOLD then goldBalance w
      else if c = Some GAME then gameBalance w
      else if c = Some DIAMOND then diamondBalance w
      else availableBalance w)"

definition validateSufficientBalance :: "wallet \<Rightarrow> int \<Rightarrow> currency option \<Rightarrow> ('z wdb_scheme, unit) act" where
  "validateSufficientBalance w required c =
     guardA (\<not> checked_balance w c < required) (BadRequest ''Insufficient balance'')"

definition validatePositiveAmount :: "int \<Rightarrow> ('z wdb_scheme, unit) act" where
  "validatePositiveAmount amt =
     guardA (\<not> amt \<le> 0) (BadRequest ''Transaction amount must be strictly greater than 0'')"

section \<open>Movements\<close>

record movement =
  m_userId :: uid
  m_currency :: currency
  m_amount :: rat
  m_reason :: reason
  m_key :: string
  m_referenceType :: "string option"
  m_referenceId :: "string option"
  m_actorId :: "uid option"

record movement_result =
  mr_transactionId :: nat
  mr_currency :: currency
  mr_balanceAfter :: int
  mr_duplicate :: bool

text \<open>\<open>delta\<close> of the code, and the row update of \<open>applyMovement\<close>.\<close>

definition delta :: "entry_type \<Rightarrow> int \<Rightarrow> int" where
  "delta ty amt = (if ty = DEBIT then - amt else amt)"

definition movement_update ::
  "entry_type \<Rightarrow> currency \<Rightarrow> reason \<Rightarrow> int \<Rightarrow> int \<Rightarrow> wallet \<Rightarrow> wallet" where
  "movement_update ty c rsn amt after w =
     (let w1 = set_balance c after w;
          w2 = w1\<lparr>version := version w + 1\<rparr>;
          w3 = (if c = GOLD
                then let available = after - reservedBalance w
                     in w2\<lparr>availableBalance := (if available > 0 then available else 0)\<rparr>
                else w2);
          w4 = (if rsn = RECHARGE then w3\<lparr>totalRecharged := totalRecharged w + amt\<rparr> else w3);
          w5 = (if rsn = GIFT_SEND then w4\<lparr>totalGiftsSentValue := totalGiftsSentValue w + amt\<rparr> else w4);
          w6 = (if rsn = GIFT_RECEIVE \<and> c = DIAMOND
                then w5\<lparr>totalGiftsReceivedValue := totalGiftsReceivedValue w + amt\<rparr> else w5)
      in if ty = DEBIT \<and> c = GOLD then w6\<lparr>totalSpent := totalSpent w + amt\<rparr> else w6)"

definition movement_txn :: "movement \<Rightarrow> int \<Rightarrow> nat \<Rightarrow> txn" where
  "movement_txn m amt i =
     \<lparr>t_id = i, t_currency = m_currency m, t_amount = amt, t_referenceType = m_referenceType m,
      t_referenceId = m_referenceId m, t_idempotencyKey = m_key m, t_createdBy = m_actorId m,
      t_source = None, t_destination = None, t_status = TX_COMPLETED, t_type = TRANSFER\<rparr>"

definition movement_entry :: "entry_type \<Rightarrow> movement \<Rightarrow> int \<Rightarrow> nat \<Rightarrow> nat \<Rightarrow> int \<Rightarrow> int \<Rightarrow> entry" where
  "movement_entry ty m amt tid wid before after =
     \<lparr>e_transactionId = tid, e_walletId = wid, e_type = ty, e_currency = m_currency m,
      e_reason = m_reason m, e_amount = amt, e_balanceBefore = before, e_balanceAfter = after,
      e_referenceType = m_referenceType m, e_referenceId = m_referenceId m, e_description = None,
      e_actorId = m_actorId m\<rparr>"

definition findUniqueOrThrow :: "uid \<Rightarrow> ('z wdb_scheme, wallet) act" where
  "findUniqueOrThrow u s =
     (case walletByUser s u of None \<Rightarrow> (Inl (OtherError ''P2025''), s) | Some w \<Rightarrow> (Inr w, s))"

text \<open>The body \<open>run\<close> of \<open>applyMovement\<close>, in the caller's transaction.\<close>

definition applyMovement :: "entry_type \<Rightarrow> movement \<Rightarrow> int \<Rightarrow> ('z wdb_scheme, entry) act" where
  "applyMovement ty m amt =
     bindA (ensureWallet (m_userId m)) (\<lambda>_.
     bindA (findUniqueOrThrow (m_userId m)) (\<lambda>locked.
     bindA (guardA (w_status locked = ACTIVE) (Business ''WALLET_NOT_ACTIVE'')) (\<lambda>_.
     (let before = balance_of (m_currency m) locked;
          after = before + delta ty amt
      in bindA (guardA (\<not> after < 0) (Business ''INSUFFICIENT_BALANCE'')) (\<lambda>_.
         bindA (putWallet (w_id locked) (movement_update ty (m_currency m) (m_reason m) amt after)) (\<lambda>_.
         bindA (createTxn (movement_txn m amt)) (\<lambda>t.
         appendLedgerEntry (movement_entry ty m amt (t_id t) (w_id locked) before after))))))))"

text \<open>\<open>WalletService.move\<close>; \<open>joined\<close> says that the caller passed its own transaction \<open>tx\<close>.\<close>

definition replay :: "movement \<Rightarrow> txn \<Rightarrow> ('z wdb_scheme, movement_result) act" where
  "replay m existing =
     getsA (\<lambda>s. \<lparr>mr_transactionId = t_id existing, mr_currency = t_currency existing,
                  mr_balanceAfter = toNumber (user_balance s (m_userId m) (m_currency m)),
                  mr_duplicate = True\<rparr>)"

definition publish :: "entry_type \<Rightarrow> entry \<Rightarrow> ('z wdb_scheme, unit) act" where
  "publish ty e =
     bindA (getsA (\<lambda>s. map_option w_userId (wallets s (e_walletId e)))) (\<lambda>u.
     publishMovement \<lparr>ev_type = ty, ev_userId = u, ev_transactionId = e_transactionId e,
       ev_currency = e_currency e, ev_amount = toNumber (e_amount e),
       ev_balanceAfter = toNumber (e_balanceAfter e), ev_reason = e_reason e,
       ev_referenceType = e_referenceType e, ev_referenceId = e_referenceId e\<rparr>)"

definition move_run :: "entry_type \<Rightarrow> movement \<Rightarrow> bool \<Rightarrow> ('z wdb_scheme, movement_result) act" where
  "move_run ty m joined =
     bindA (getsA (\<lambda>s. txns s (m_key m))) (\<lambda>existing.
     (case existing of
        Some t \<Rightarrow> replay m t
      | None \<Rightarrow>
          (let m' = m\<lparr>m_actorId := Some (case m_actorId m of Some a \<Rightarrow> a | None \<Rightarrow> m_userId m)\<rparr>;
               body = applyMovement ty m' \<lfloor>m_amount m\<rfloor>
           in bindA (if joined then body else transaction body) (\<lambda>e.
              bindA (publish ty e) (\<lambda>_.
              returnA \<lparr>mr_transactionId = e_transactionId e, mr_currency = e_currency e,
                       mr_balanceAfter = toNumber (e_balanceAfter e), mr_duplicate = False\<rparr>)))))"

definition move :: "entry_type \<Rightarrow> movement \<Rightarrow> bool \<Rightarrow> ('z wdb_scheme, movement_result) act" where
  "move ty m joined =
     bindA (guardA (isInteger (m_amount m) \<and> \<not> m_amount m \<le> 0) (Business ''INVALID_AMOUNT'')) (\<lambda>_.
     bindA (if ty = DEBIT then validateEconomyStatus else returnA ()) (\<lambda>_.
     move_run ty m joined))"

definition debit :: "movement \<Rightarrow> bool \<Rightarrow> ('z wdb_scheme, movement_result) act" where
  "debit m joined = move DEBIT m joined"

definition credit :: "movement \<Rightarrow> bool \<Rightarrow> ('z wdb_scheme, movement_result) act" where
  "credit m joined = move CREDIT m joined"

definition getBalance :: "('z wdb_scheme) \<Rightarrow> uid \<Rightarrow> int \<times> int \<times> int" where
  "getBalance s u = (toNumber (user_balance s u GOLD), toNumber (user_balance s u DIAMOND), toNumber (user_balance s u GAME))"

text \<open>\<open>getOrCreateWallet\<close>, \<open>getWalletById\<close> and \<open>updateWalletStatus\<close>.\<close>

definition getOrCreateWallet :: "uid \<Rightarrow> wallet_type \<Rightarrow> ('z wdb_scheme, wallet) act" where
  "getOrCreateWallet u ty =
     bindA (getsA (\<lambda>s. walletByUser s u)) (\<lambda>found.
     (case found of
        Some w \<Rightarrow> returnA w
      | None \<Rightarrow>
          bindA (createWallet u ty) (\<lambda>w.
          bindA (logAudit (w_id w) ''WALLET_CREATED'' None) (\<lambda>_.
          returnA w))))"

definition getWalletById :: "nat \<Rightarrow> ('z wdb_scheme, wallet) act" where
  "getWalletById i =
     bindA (getsA (\<lambda>s. wallets s i)) (\<lambda>found.
     (case found of None \<Rightarrow> throwA (NotFound ''Wallet not found'') | Some w \<Rightarrow> returnA w))"

definition updateWalletStatus :: "nat \<Rightarrow> wallet_status \<Rightarrow> uid option \<Rightarrow> ('z wdb_scheme, wallet) act" where
  "updateWalletStatus i st actor =
     bindA (getWalletById i) (\<lambda>w.
     bindA (putWallet i (\<lambda>w. w\<lparr>w_status := st\<rparr>)) (\<lambda>updated.
     bindA (logAudit (w_id w) (if st = LOCKED then ''WALLET_LOCKED'' else ''STATUS_UPDATED'') actor) (\<lambda>_.
     returnA updated)))"

section \<open>What one movement does\<close>

text \<open>The state after the wallet upsert that opens every movement.\<close>

definition ensured :: "('z wdb_scheme) \<Rightarrow> uid \<Rightarrow> ('z wdb_scheme)" where
  "ensured s u =
     (if wallet_of s u = None
      then s\<lparr>wallets := (wallets s)(next_id s \<mapsto> empty_wallet (next_id s) u USER_WALLET),
             wallet_of := (wallet_of s)(u \<mapsto> next_id s), next_id := Suc (next_id s)\<rparr>
      else s)"

lemma ensureWallet_eq: "ensureWallet u s = (Inr (), ensured s u)"
  by (simp add: ensureWallet_def ensured_def createWallet_def bindA_def returnA_def Let_def
      split: option.split)

lemma ensured_frame [simp]:
  "txns (ensured s u) = txns s" "ledger (ensured s u) = ledger s" "bus (ensured s u) = bus s"
  "reservations (ensured s u) = reservations s" "audits (ensured s u) = audits s"
  "economyFrozen (ensured s u) = economyFrozen s" "walletEnabled (ensured s u) = walletEnabled s"
  "wdb.more (ensured s u) = wdb.more s"
  by (simp_all add: ensured_def)

lemma wf_fresh_id: "wf_db s \<Longrightarrow> wallets s (next_id s) = None"
  using wf_w_fresh by (cases "wallets s (next_id s)") fastforce+

lemma wf_user_index:
  assumes "wf_db s" "wallet_of s u = Some i"
  obtains w where "wallets s i = Some w" "w_userId w = u" "w_id w = i"
  using wf_index [OF assms] wf_w_id [OF assms(1)] by blast

lemma walletByUser_Some:
  assumes "wf_db s"
  shows "walletByUser s u = Some w \<longleftrightarrow> wallets s (w_id w) = Some w \<and> w_userId w = u"
proof
  assume "walletByUser s u = Some w"
  then obtain i where i: "wallet_of s u = Some i" "wallets s i = Some w"
    by (auto simp: walletByUser_def bind_eq_Some_conv)
  from wf_user_index [OF assms i(1)] i(2) show "wallets s (w_id w) = Some w \<and> w_userId w = u" by auto
next
  assume "wallets s (w_id w) = Some w \<and> w_userId w = u"
  then show "walletByUser s u = Some w"
    using wf_wallet_of [OF assms, of "w_id w" w] by (auto simp: walletByUser_def)
qed

lemma wf_ensured:
  assumes wf: "wf_db s"
  shows "wf_db (ensured s u)"
proof (cases "wallet_of s u")
  case None
  note fresh = wf_fresh_id [OF wf]
  show ?thesis
  proof (rule wf_dbI)
    fix v i assume "wallet_of (ensured s u) v = Some i"
    then show "\<exists>w. wallets (ensured s u) i = Some w \<and> w_userId w = v"
      using None fresh wf_index [OF wf, of v i] by (auto simp: ensured_def split: if_splits)
  next
    fix i w assume "wallets (ensured s u) i = Some w"
    then show "wallet_of (ensured s u) (w_userId w) = Some i"
      using None wf_wallet_of [OF wf, of i w] by (auto simp: ensured_def split: if_splits)
  qed (use None wf_w_id [OF wf] wf_w_fresh [OF wf] wf_entry [OF wf] wf_txn_key [OF wf]
        wf_txn_fresh [OF wf] in \<open>auto simp: ensured_def less_Suc_eq split: if_splits\<close>)
qed (use wf in \<open>simp add: ensured_def\<close>)

lemma ensured_user:
  assumes "wf_db s"
  obtains w where "walletByUser (ensured s u) u = Some w" "wallets (ensured s u) (w_id w) = Some w"
    "w_userId w = u"
proof -
  have "\<exists>w. walletByUser (ensured s u) u = Some w"
  proof (cases "wallet_of s u")
    case None
    then show ?thesis by (simp add: ensured_def walletByUser_def)
  next
    case (Some i)
    then show ?thesis using wf_index [OF assms Some] by (auto simp: ensured_def walletByUser_def)
  qed
  then show thesis using that walletByUser_Some [OF wf_ensured [OF assms]] by blast
qed

lemma ensured_balance [simp]:
  assumes "wf_db s"
  shows "user_balance (ensured s u) v c = user_balance s v c"
proof (cases "wallet_of s u")
  case None
  have "wallet_of s v \<noteq> Some (next_id s)" using wf_index [OF assms] wf_fresh_id [OF assms] by fastforce
  with None show ?thesis
    by (cases "wallet_of s v") (auto simp: user_balance_def walletByUser_def ensured_def)
qed (simp add: ensured_def)

lemma books_ensured:
  assumes "wf_db s" "books s"
  shows "books (ensured s u)"
proof -
  have "ledger_net (ledger s) (next_id s) c = 0" for c
    using wf_entry [OF assms(1)] by (intro ledger_net_none) fastforce
  then show ?thesis using assms(2) by (simp add: books_def ensured_def)
qed

lemma solvent_ensured: "solvent s \<Longrightarrow> solvent (ensured s u)"
  by (simp add: solvent_def ensured_def)

text \<open>Everything a successful movement writes.\<close>

definition moved ::
  "entry_type \<Rightarrow> movement \<Rightarrow> int \<Rightarrow> wallet \<Rightarrow> ('z wdb_scheme) \<Rightarrow> ('z wdb_scheme)" where
  "moved ty m amt w s =
     (let after = balance_of (m_currency m) w + delta ty amt;
          t = movement_txn m amt (next_id s)
      in s\<lparr>wallets := (wallets s)(w_id w \<mapsto> movement_update ty (m_currency m) (m_reason m) amt after w),
           txns := (txns s)(m_key m \<mapsto> t), next_id := Suc (next_id s),
           ledger := ledger s @ [movement_entry ty m amt (t_id t) (w_id w)
                                   (balance_of (m_currency m) w) after]\<rparr>)"

lemma movement_update_frame [simp]:
  "w_id (movement_update ty c r a b w) = w_id w"
  "w_userId (movement_update ty c r a b w) = w_userId w"
  "w_status (movement_update ty c r a b w) = w_status w"
  "reservedBalance (movement_update ty c r a b w) = reservedBalance w"
  "version (movement_update ty c r a b w) = version w + 1"
  by (simp_all add: movement_update_def Let_def)

lemma balance_movement_update [simp]:
  "balance_of d (movement_update ty c r a b w) = (if d = c then b else balance_of d w)"
  by (cases d; cases c) (simp_all add: movement_update_def Let_def)

lemma available_movement_update:
  "availableBalance (movement_update ty c r a b w) =
     (if c = GOLD then max 0 (b - reservedBalance w) else availableBalance w)"
  by (auto simp: movement_update_def Let_def)

lemmas applyMovement_steps =
  applyMovement_def bindA_def ensureWallet_eq findUniqueOrThrow_def guardA_def putWallet_def
  createTxn_def appendLedgerEntry_def Let_def

lemma applyMovement_eq:
  assumes w: "walletByUser (ensured s (m_userId m)) (m_userId m) = Some w"
    and wi: "wallets (ensured s (m_userId m)) (w_id w) = Some w"
    and fresh: "txns s (m_key m) = None"
  shows "applyMovement ty m amt s =
     (if w_status w \<noteq> ACTIVE then (Inl (Business ''WALLET_NOT_ACTIVE''), ensured s (m_userId m))
      else if balance_of (m_currency m) w + delta ty amt < 0
      then (Inl (Business ''INSUFFICIENT_BALANCE''), ensured s (m_userId m))
      else (Inr (movement_entry ty m amt (next_id (ensured s (m_userId m))) (w_id w)
                   (balance_of (m_currency m) w) (balance_of (m_currency m) w + delta ty amt)),
            moved ty m amt w (ensured s (m_userId m))))"
  using assms by (simp add: applyMovement_steps moved_def movement_txn_def)

lemma moved_frame [simp]:
  "wallet_of (moved ty m amt w s) = wallet_of s"
  "txns (moved ty m amt w s) = (txns s)(m_key m \<mapsto> movement_txn m amt (next_id s))"
  "bus (moved ty m amt w s) = bus s" "audits (moved ty m amt w s) = audits s"
  "reservations (moved ty m amt w s) = reservations s"
  "economyFrozen (moved ty m amt w s) = economyFrozen s"
  "walletEnabled (moved ty m amt w s) = walletEnabled s"
  "wdb.more (moved ty m amt w s) = wdb.more s" "next_id (moved ty m amt w s) = Suc (next_id s)"
  by (simp_all add: moved_def Let_def)

lemma moved_wallets:
  "wallets (moved ty m amt w s) =
     (wallets s)(w_id w \<mapsto> movement_update ty (m_currency m) (m_reason m) amt
                             (balance_of (m_currency m) w + delta ty amt) w)"
  by (simp add: moved_def Let_def)

lemma moved_ledger:
  "ledger (moved ty m amt w s) =
     ledger s @ [movement_entry ty m amt (next_id s) (w_id w) (balance_of (m_currency m) w)
                   (balance_of (m_currency m) w + delta ty amt)]"
  by (simp add: moved_def Let_def movement_txn_def)

lemma movement_entry_sel [simp]:
  "e_walletId (movement_entry ty m amt i j b a) = j"
  "e_currency (movement_entry ty m amt i j b a) = m_currency m"
  "e_transactionId (movement_entry ty m amt i j b a) = i"
  "e_amount (movement_entry ty m amt i j b a) = amt"
  "e_balanceBefore (movement_entry ty m amt i j b a) = b"
  "e_balanceAfter (movement_entry ty m amt i j b a) = a"
  by (simp_all add: movement_entry_def)

lemma movement_txn_sel [simp]:
  "t_id (movement_txn m amt i) = i" "t_idempotencyKey (movement_txn m amt i) = m_key m"
  "t_currency (movement_txn m amt i) = m_currency m" "t_amount (movement_txn m amt i) = amt"
  by (simp_all add: movement_txn_def)

lemma wf_moved:
  assumes wf: "wf_db s" and w: "wallets s (w_id w) = Some w"
  shows "wf_db (moved ty m amt w s)"
proof (rule wf_dbI)
  fix v i assume "wallet_of (moved ty m amt w s) v = Some i"
  then have "wallet_of s v = Some i" by simp
  then show "\<exists>w'. wallets (moved ty m amt w s) i = Some w' \<and> w_userId w' = v"
    using wf_index [OF wf, of v i] w by (auto simp: moved_wallets)
next
  fix i w' assume "wallets (moved ty m amt w s) i = Some w'"
  then have "\<exists>w0. wallets s i = Some w0 \<and> w_userId w0 = w_userId w' \<and> w_id w0 = w_id w'"
    using w by (auto simp: moved_wallets split: if_splits)
  then obtain w0 where w0: "wallets s i = Some w0" "w_userId w0 = w_userId w'" "w_id w0 = w_id w'"
    by blast
  show "wallet_of (moved ty m amt w s) (w_userId w') = Some i" "w_id w' = i"
    "i < next_id (moved ty m amt w s)"
    using wf_wallet_of [OF wf w0(1)] wf_w_id [OF wf w0(1)] wf_w_fresh [OF wf w0(1)] w0 by simp_all
next
  fix e assume "e \<in> set (ledger (moved ty m amt w s))"
  then have "e \<in> set (ledger s) \<or> e_walletId e = w_id w" by (auto simp: moved_ledger)
  then show "e_walletId e < next_id (moved ty m amt w s)"
    using wf_entry [OF wf, of e] wf_w_fresh [OF wf w] by auto
next
  fix k t assume "txns (moved ty m amt w s) k = Some t"
  then have "txns s k = Some t \<or> k = m_key m \<and> t = movement_txn m amt (next_id s)"
    by (auto split: if_splits)
  then show "t_idempotencyKey t = k" "t_id t < next_id (moved ty m amt w s)"
    using wf_txn_key [OF wf, of k t] wf_txn_fresh [OF wf, of k t] by auto
qed

lemma moved_balance:
  assumes wf: "wf_db s" and w: "wallets s (w_id w) = Some w" "w_userId w = m_userId m"
  shows "user_balance (moved ty m amt w s) v c =
     user_balance s v c + (if v = m_userId m \<and> c = m_currency m then delta ty amt else 0)"
proof -
  have i: "wallet_of s (m_userId m) = Some (w_id w)" using wf_wallet_of [OF wf w(1)] w(2) by simp
  show ?thesis
  proof (cases "v = m_userId m")
    case True
    then show ?thesis using i w by (simp add: user_balance_def walletByUser_def moved_wallets)
  next
    case False
    then have "wallet_of s v \<noteq> Some (w_id w)" using wf_index [OF wf, of v "w_id w"] w by auto
    with False show ?thesis
      by (cases "wallet_of s v") (auto simp: user_balance_def walletByUser_def moved_wallets)
  qed
qed

lemma signed_movement_entry [simp]: "signed (movement_entry ty m amt i j b a) = delta ty amt"
  by (cases ty) (simp_all add: signed_def movement_entry_def delta_def)

lemma books_moved:
  assumes "books s" "wallets s (w_id w) = Some w"
  shows "books (moved ty m amt w s)"
  using assms by (auto simp: books_def moved_wallets moved_ledger)

lemma solvent_moved:
  assumes "solvent s" "0 \<le> balance_of (m_currency m) w + delta ty amt" "wallets s (w_id w) = Some w"
  shows "solvent (moved ty m amt w s)"
  using assms by (auto simp: solvent_def moved_wallets)

end
