(* ===== verification/WalletLaws.thy ===== *)
theory WalletLaws
  imports WalletMovement
begin

text \<open>
  What \<open>WALLET_SERVICE\<close> promises its clients, as the locale \<open>wallet_service\<close>: a movement under a
  fresh idempotency key changes exactly one balance by exactly its amount, a movement under a
  used key changes none, a movement that throws changes none, and no movement touches the
  client's own tables. The client lemmas proved inside the locale (retries, lists of payouts, a
  stake refunded) are what the casino, the lucky packets and the withdrawals rest on. The
  locale is interpreted on \<open>credit\<close> and \<open>debit\<close> of WalletMovement.
\<close>

section \<open>The laws of the model\<close>

text \<open>The status a movement will find: a user without a wallet gets an active one.\<close>

definition user_status :: "('z wdb_scheme) \<Rightarrow> uid \<Rightarrow> wallet_status" where
  "user_status s u = (case walletByUser s u of None \<Rightarrow> ACTIVE | Some w \<Rightarrow> w_status w)"

lemma user_status_ensured [simp]:
  assumes wf: "wf_db s"
  shows "user_status (ensured s v) u = user_status s u"
proof (cases "wallet_of s v")
  case None
  have "wallet_of s u \<noteq> Some (next_id s)" using wf_index [OF wf] wf_fresh_id [OF wf] by fastforce
  with None show ?thesis
    by (cases "wallet_of s u") (auto simp: user_status_def walletByUser_def ensured_def)
qed (simp add: ensured_def)

text \<open>The same wallets for every client of the books: balances, keys, ledger and client tables.\<close>

definition same_money :: "('z wdb_scheme) \<Rightarrow> ('z wdb_scheme) \<Rightarrow> bool" where
  "same_money s s' \<longleftrightarrow>
     user_balance s' = user_balance s \<and> user_status s' = user_status s \<and> txns s' = txns s \<and>
     ledger s' = ledger s \<and> wdb.more s' = wdb.more s \<and> (wf_db s \<longrightarrow> wf_db s') \<and> (books s \<longrightarrow> books s') \<and>
     (solvent s \<longrightarrow> solvent s')"

lemma same_money_refl [simp, intro]: "same_money s s"
  by (simp add: same_money_def)

lemma wf_later: "wf_db s \<Longrightarrow> next_id s \<le> n \<Longrightarrow> wf_db (s\<lparr>audits := a, bus := b, next_id := n\<rparr>)"
  by (auto simp: wf_db_def) (meson less_le_trans)+

lemma same_money_ensured: "wf_db s \<Longrightarrow> same_money s (ensured s u)"
  by (auto simp: same_money_def fun_eq_iff intro: wf_ensured books_ensured solvent_ensured)

lemma next_id_ensured: "next_id s \<le> next_id (ensured s u)"
  by (simp add: ensured_def)

lemma same_money_rollback:
  assumes "next_id s \<le> next_id s'"
  shows "same_money s (rollback s s')"
  using assms
  by (auto simp: same_money_def rollback_def user_balance_def user_status_def walletByUser_def
      fun_eq_iff books_def solvent_def intro: wf_later)

definition with_actor :: "movement \<Rightarrow> movement" where
  "with_actor m = m\<lparr>m_actorId := Some (case m_actorId m of Some a \<Rightarrow> a | None \<Rightarrow> m_userId m)\<rparr>"

lemma with_actor_sel [simp]:
  "m_userId (with_actor m) = m_userId m" "m_key (with_actor m) = m_key m"
  "m_currency (with_actor m) = m_currency m" "m_reason (with_actor m) = m_reason m"
  "m_amount (with_actor m) = m_amount m"
  by (simp_all add: with_actor_def)

text \<open>The state a successful fresh movement leaves: the moved books and one published event.\<close>

definition after_move ::
  "entry_type \<Rightarrow> movement \<Rightarrow> wallet \<Rightarrow> ('z wdb_scheme) \<Rightarrow> ('z wdb_scheme)" where
  "after_move ty m w s =
     snd (publish ty (movement_entry ty (with_actor m) \<lfloor>m_amount m\<rfloor> (next_id s) (w_id w)
                        (balance_of (m_currency m) w)
                        (balance_of (m_currency m) w + delta ty \<lfloor>m_amount m\<rfloor>))
            (moved ty (with_actor m) \<lfloor>m_amount m\<rfloor> w s))"

lemma publish_eq:
  "publish ty e s = (Inr (), s\<lparr>bus := bus s @ [\<lparr>ev_type = ty,
     ev_userId = map_option w_userId (wallets s (e_walletId e)), ev_transactionId = e_transactionId e,
     ev_currency = e_currency e, ev_amount = toNumber (e_amount e),
     ev_balanceAfter = toNumber (e_balanceAfter e), ev_reason = e_reason e,
     ev_referenceType = e_referenceType e, ev_referenceId = e_referenceId e\<rparr>]\<rparr>)"
  by (simp add: publish_def bindA_def getsA_def publishMovement_def)

lemma move_used:
  assumes "txns s (m_key m) = Some t" "move ty m j s = (r, s')"
  shows "s' = s \<and> (\<forall>x. r = Inr x \<longrightarrow> mr_duplicate x \<and> mr_transactionId x = t_id t)"
  using assms
  by (auto simp: move_def move_run_def replay_def bindA_def guardA_def getsA_def returnA_def
      validateEconomyStatus_def split: if_splits)

lemma move_fresh:
  assumes wf: "wf_db s" and fresh: "txns s (m_key m) = None" and run: "move ty m j s = (r, s')"
  obtains (thrown) e w where "r = Inl e" "same_money s s'" "next_id s \<le> next_id s'"
      "wallets (ensured s (m_userId m)) (w_id w) = Some w" "w_userId w = m_userId m"
      "\<not> (isInteger (m_amount m) \<and> 0 < m_amount m \<and>
         (ty = DEBIT \<longrightarrow> \<not> economyFrozen s \<and> walletEnabled s) \<and> w_status w = ACTIVE \<and>
         0 \<le> balance_of (m_currency m) w + delta ty \<lfloor>m_amount m\<rfloor>)"
  | (effect) w x where "r = Inr x" "isInteger (m_amount m)" "0 < m_amount m"
      "ty = DEBIT \<longrightarrow> \<not> economyFrozen s \<and> walletEnabled s"
      "wallets (ensured s (m_userId m)) (w_id w) = Some w" "w_userId w = m_userId m"
      "w_status w = ACTIVE" "0 \<le> balance_of (m_currency m) w + delta ty \<lfloor>m_amount m\<rfloor>"
      "s' = after_move ty m w (ensured s (m_userId m))"
      "\<not> mr_duplicate x" "mr_transactionId x = next_id (ensured s (m_userId m))"
      "mr_balanceAfter x = toNumber (balance_of (m_currency m) w + delta ty \<lfloor>m_amount m\<rfloor>)"
proof -
  let ?s = "ensured s (m_userId m)"
  obtain w where w: "walletByUser ?s (m_userId m) = Some w" "wallets ?s (w_id w) = Some w"
      "w_userId w = m_userId m"
    using ensured_user [OF wf] by blast
  have body: "applyMovement ty (with_actor m) \<lfloor>m_amount m\<rfloor> s =
     (if w_status w \<noteq> ACTIVE then (Inl (Business ''WALLET_NOT_ACTIVE''), ?s)
      else if balance_of (m_currency m) w + delta ty \<lfloor>m_amount m\<rfloor> < 0
      then (Inl (Business ''INSUFFICIENT_BALANCE''), ?s)
      else (Inr (movement_entry ty (with_actor m) \<lfloor>m_amount m\<rfloor> (next_id ?s) (w_id w)
                   (balance_of (m_currency m) w) (balance_of (m_currency m) w + delta ty \<lfloor>m_amount m\<rfloor>)),
            moved ty (with_actor m) \<lfloor>m_amount m\<rfloor> w ?s))"
    using applyMovement_eq [of s "with_actor m" w ty "\<lfloor>m_amount m\<rfloor>"] w fresh by simp
  note money = same_money_ensured [OF wf, of "m_userId m"] next_id_ensured [of s "m_userId m"]
  show thesis
  proof (cases "isInteger (m_amount m) \<and> \<not> m_amount m \<le> 0 \<and>
      (ty = DEBIT \<longrightarrow> \<not> economyFrozen s \<and> walletEnabled s) \<and> w_status w = ACTIVE \<and>
      0 \<le> balance_of (m_currency m) w + delta ty \<lfloor>m_amount m\<rfloor>")
    case True
    then have "move ty m j s = (Inr \<lparr>mr_transactionId = next_id ?s, mr_currency = m_currency m,
        mr_balanceAfter = toNumber (balance_of (m_currency m) w + delta ty \<lfloor>m_amount m\<rfloor>),
        mr_duplicate = False\<rparr>, after_move ty m w ?s)"
      using body fresh
      by (cases ty; cases j)
        (simp_all add: move_def move_run_def with_actor_def [symmetric] bindA_def guardA_def
          getsA_def returnA_def validateEconomyStatus_def Let_def transaction_def publish_eq
          after_move_def)
    with run True w that(2) show thesis by auto
  next
    case False
    then have "\<exists>e. r = Inl e \<and> (s' = s \<or> s' = ?s \<or> s' = rollback s ?s)"
      using body fresh run
      by (cases ty; cases j)
        (auto simp: move_def move_run_def with_actor_def [symmetric] bindA_def guardA_def getsA_def
          returnA_def validateEconomyStatus_def Let_def transaction_def split: if_splits)
    then have "\<exists>e. r = Inl e \<and> same_money s s' \<and> next_id s \<le> next_id s'"
      using money same_money_rollback [of s ?s] by (auto simp: rollback_def)
    then show thesis using that(1) w False by (auto simp: not_le)
  qed
qed

lemma after_move_frame [simp]:
  "txns (after_move ty m w s) = (txns s)(m_key m \<mapsto> movement_txn (with_actor m) \<lfloor>m_amount m\<rfloor> (next_id s))"
  "wallet_of (after_move ty m w s) = wallet_of s" "wdb.more (after_move ty m w s) = wdb.more s"
  "reservations (after_move ty m w s) = reservations s" "audits (after_move ty m w s) = audits s"
  "economyFrozen (after_move ty m w s) = economyFrozen s"
  "walletEnabled (after_move ty m w s) = walletEnabled s"
  "next_id (after_move ty m w s) = Suc (next_id s)"
  by (simp_all add: after_move_def publish_eq)

lemma after_move_ledger:
  "ledger (after_move ty m w s) = ledger s @
     [movement_entry ty (with_actor m) \<lfloor>m_amount m\<rfloor> (next_id s) (w_id w) (balance_of (m_currency m) w)
        (balance_of (m_currency m) w + delta ty \<lfloor>m_amount m\<rfloor>)]"
  by (simp add: after_move_def publish_eq moved_ledger)

lemma bus_irrelevant [simp]:
  "user_balance (s\<lparr>bus := b\<rparr>) = user_balance s" "wf_db (s\<lparr>bus := b\<rparr>) = wf_db s"
  "books (s\<lparr>bus := b\<rparr>) = books s" "solvent (s\<lparr>bus := b\<rparr>) = solvent s"
  by (simp_all add: user_balance_def walletByUser_def wf_db_def books_def solvent_def fun_eq_iff)

lemma wf_after_move:
  "wf_db s \<Longrightarrow> wallets s (w_id w) = Some w \<Longrightarrow> wf_db (after_move ty m w s)"
  by (simp add: after_move_def publish_eq wf_moved)

lemma books_after_move:
  "books s \<Longrightarrow> wallets s (w_id w) = Some w \<Longrightarrow> books (after_move ty m w s)"
  by (simp add: after_move_def publish_eq books_moved)

lemma solvent_after_move:
  assumes "solvent s" "0 \<le> balance_of (m_currency m) w + delta ty \<lfloor>m_amount m\<rfloor>"
    "wallets s (w_id w) = Some w"
  shows "solvent (after_move ty m w s)"
  using assms solvent_moved [of s "with_actor m" w ty "\<lfloor>m_amount m\<rfloor>"]
  by (simp add: after_move_def publish_eq)

lemma balance_after_move:
  assumes "wf_db s" "wallets s (w_id w) = Some w" "w_userId w = m_userId m"
  shows "user_balance (after_move ty m w s) v c =
     user_balance s v c + (if v = m_userId m \<and> c = m_currency m then delta ty \<lfloor>m_amount m\<rfloor> else 0)"
  using assms moved_balance [of s w "with_actor m" ty "\<lfloor>m_amount m\<rfloor>" v c]
  by (simp add: after_move_def publish_eq)

lemma wallet_user_balance:
  assumes "wf_db s" "wallets s (w_id w) = Some w"
  shows "user_balance s (w_userId w) c = balance_of c w"
  using walletByUser_Some [OF assms(1), of "w_userId w" w] assms(2) by (simp add: user_balance_def)

text \<open>One law for both directions.\<close>

lemma move_effect:
  assumes wf: "wf_db s" and fresh: "txns s (m_key m) = None" and run: "move ty m j s = (Inr x, s')"
  shows "user_balance s' v c =
      user_balance s v c + (if v = m_userId m \<and> c = m_currency m then delta ty \<lfloor>m_amount m\<rfloor> else 0)"
    and "m_amount m = of_int \<lfloor>m_amount m\<rfloor> \<and> 0 < \<lfloor>m_amount m\<rfloor>"
    and "0 \<le> user_balance s (m_userId m) (m_currency m) + delta ty \<lfloor>m_amount m\<rfloor>"
    and "mr_balanceAfter x = toNumber (user_balance s' (m_userId m) (m_currency m))"
    and "\<not> mr_duplicate x"
    and "dom (txns s') = insert (m_key m) (dom (txns s))"
    and "wdb.more s' = wdb.more s"
    and "\<exists>e. ledger s' = ledger s @ [e] \<and> signed e = delta ty \<lfloor>m_amount m\<rfloor> \<and>
           e_transactionId e = mr_transactionId x \<and> e_currency e = m_currency m \<and>
           e_balanceBefore e = user_balance s (m_userId m) (m_currency m) \<and>
           e_balanceAfter e = user_balance s' (m_userId m) (m_currency m)"
proof -
  let ?s = "ensured s (m_userId m)"
  obtain w where int: "isInteger (m_amount m)" "0 < m_amount m"
    and w: "wallets ?s (w_id w) = Some w" "w_userId w = m_userId m"
    and nonneg: "0 \<le> balance_of (m_currency m) w + delta ty \<lfloor>m_amount m\<rfloor>"
    and s': "s' = after_move ty m w ?s"
    and x: "\<not> mr_duplicate x" "mr_transactionId x = next_id ?s"
      "mr_balanceAfter x = toNumber (balance_of (m_currency m) w + delta ty \<lfloor>m_amount m\<rfloor>)"
    using wf fresh run
  proof (cases rule: move_fresh)
    case (effect w y)
    then show thesis using that [of w] by simp
  qed simp
  have b: "balance_of (m_currency m) w = user_balance s (m_userId m) (m_currency m)"
    using wallet_user_balance [OF wf_ensured [OF wf] w(1)] w(2) wf by simp
  have bal: "user_balance s' v c =
      user_balance s v c + (if v = m_userId m \<and> c = m_currency m then delta ty \<lfloor>m_amount m\<rfloor> else 0)"
    for v c
    using balance_after_move [OF wf_ensured [OF wf] w] wf by (simp add: s')
  show "user_balance s' v c =
      user_balance s v c + (if v = m_userId m \<and> c = m_currency m then delta ty \<lfloor>m_amount m\<rfloor> else 0)"
    by (rule bal)
  show "m_amount m = of_int \<lfloor>m_amount m\<rfloor> \<and> 0 < \<lfloor>m_amount m\<rfloor>"
    using int by (metis isInteger_def of_int_0_less_iff)
  show "0 \<le> user_balance s (m_userId m) (m_currency m) + delta ty \<lfloor>m_amount m\<rfloor>"
    using nonneg b by simp
  show "mr_balanceAfter x = toNumber (user_balance s' (m_userId m) (m_currency m))"
    using x b bal by simp
  show "\<not> mr_duplicate x" by (rule x)
  show "dom (txns s') = insert (m_key m) (dom (txns s))" by (simp add: s')
  show "wdb.more s' = wdb.more s" by (simp add: s')
  show "\<exists>e. ledger s' = ledger s @ [e] \<and> signed e = delta ty \<lfloor>m_amount m\<rfloor> \<and>
           e_transactionId e = mr_transactionId x \<and> e_currency e = m_currency m \<and>
           e_balanceBefore e = user_balance s (m_userId m) (m_currency m) \<and>
           e_balanceAfter e = user_balance s' (m_userId m) (m_currency m)"
    by (simp add: s' after_move_ledger x b bal [unfolded s'])
qed

lemma move_thrown:
  assumes wf: "wf_db s" and run: "move ty m j s = (Inl e, s')"
  shows "same_money s s'"
proof (cases "txns s (m_key m)")
  case None
  from wf None run show ?thesis by (cases rule: move_fresh) auto
next
  case (Some t)
  then show ?thesis using move_used [OF Some run] by simp
qed

lemma move_keeps:
  assumes wf: "wf_db s" and run: "move ty m j s = (r, s')"
  shows "wf_db s'" "books s \<Longrightarrow> books s'" "solvent s \<Longrightarrow> solvent s'" "next_id s \<le> next_id s'"
proof -
  have "wf_db s' \<and> (books s \<longrightarrow> books s') \<and> (solvent s \<longrightarrow> solvent s') \<and> next_id s \<le> next_id s'"
  proof (cases "txns s (m_key m)")
    case None
    from wf None run show ?thesis
    proof (cases rule: move_fresh)
      case (thrown e w)
      then show ?thesis using wf by (auto simp: same_money_def)
    next
      case (effect w x)
      then show ?thesis
        using wf_after_move [OF wf_ensured [OF wf]] books_after_move [OF books_ensured [OF wf]]
          solvent_after_move [OF solvent_ensured] next_id_ensured [of s "m_userId m"]
        by auto
    qed
  next
    case (Some t)
    then show ?thesis using move_used [OF Some run] wf by simp
  qed
  then show "wf_db s'" "books s \<Longrightarrow> books s'" "solvent s \<Longrightarrow> solvent s'" "next_id s \<le> next_id s'"
    by auto
qed

lemma move_tables:
  assumes wf: "wf_db s" and run: "move ty m j s = (r, s')"
  shows "wdb.more s' = wdb.more s"
proof (cases "txns s (m_key m)")
  case None
  from wf None run show ?thesis by (cases rule: move_fresh) (auto simp: same_money_def)
next
  case (Some t)
  then show ?thesis using move_used [OF Some run] by simp
qed

lemma move_keys:
  assumes wf: "wf_db s" and run: "move ty m j s = (Inr x, s')"
  shows "dom (txns s') = insert (m_key m) (dom (txns s))"
proof (cases "txns s (m_key m)")
  case None
  from move_effect(6) [OF wf None run] show ?thesis .
next
  case (Some t)
  then show ?thesis using move_used [OF Some run] by auto
qed

section \<open>The interface\<close>

text \<open>
  \<open>movement_port\<close> is one direction of the service: \<open>mv\<close> the operation, \<open>dir\<close> its sign. \<open>bal\<close>
  reads a user's balance in a currency, \<open>used\<close> is the set of idempotency keys with a committed
  transaction, \<open>tables\<close> everything the client itself stores.
\<close>

locale movement_port =
  fixes mv :: "movement \<Rightarrow> bool \<Rightarrow> ('s, movement_result) act"
    and dir :: int
    and bal :: "'s \<Rightarrow> uid \<Rightarrow> currency \<Rightarrow> int"
    and used :: "'s \<Rightarrow> string set"
    and inv :: "'s \<Rightarrow> bool"
    and tables :: "'s \<Rightarrow> 'r"
  assumes fresh: "inv s \<Longrightarrow> m_key m \<notin> used s \<Longrightarrow> mv m j s = (Inr x, s') \<Longrightarrow>
      bal s' u c = bal s u c + (if u = m_userId m \<and> c = m_currency m then dir * \<lfloor>m_amount m\<rfloor> else 0)"
    and replayed: "m_key m \<in> used s \<Longrightarrow> mv m j s = (r, s') \<Longrightarrow> s' = s"
    and thrown: "inv s \<Longrightarrow> mv m j s = (Inl e, s') \<Longrightarrow> bal s' = bal s \<and> used s' = used s"
    and recorded: "inv s \<Longrightarrow> mv m j s = (Inr x, s') \<Longrightarrow> used s' = insert (m_key m) (used s)"
    and inv_mv: "inv s \<Longrightarrow> mv m j s = (r, s') \<Longrightarrow> inv s'"
    and tables_mv: "inv s \<Longrightarrow> mv m j s = (r, s') \<Longrightarrow> tables s' = tables s"
begin

lemma retry_once:
  assumes "inv s" "mv m j s = (Inr x, s1)" "mv m k s1 = (r, s2)"
  shows "s2 = s1"
  using assms recorded replayed by blast

lemma used_grows: "inv s \<Longrightarrow> mv m j s = (r, s') \<Longrightarrow> used s \<subseteq> used s'"
  by (cases r) (use thrown recorded in blast)+

lemma effect_once:
  assumes "inv s" "mv m j s = (Inr x, s')"
  shows "bal s' u c = bal s u c +
     (if m_key m \<notin> used s \<and> u = m_userId m \<and> c = m_currency m then dir * \<lfloor>m_amount m\<rfloor> else 0)"
  using assms fresh [OF assms(1) _ assms(2), of u c] replayed [OF _ assms(2)]
  by (cases "m_key m \<in> used s") simp_all

end

text \<open>Both directions over the same books; a debit under a fresh key is covered by the balance.\<close>

locale wallet_service =
  cr: movement_port cred 1 bal used inv tables + de: movement_port deb "-1" bal used inv tables
  for cred deb :: "movement \<Rightarrow> bool \<Rightarrow> ('s, movement_result) act"
    and bal :: "'s \<Rightarrow> uid \<Rightarrow> currency \<Rightarrow> int"
    and used :: "'s \<Rightarrow> string set"
    and inv :: "'s \<Rightarrow> bool"
    and tables :: "'s \<Rightarrow> 'r" +
  assumes covered: "inv s \<Longrightarrow> m_key m \<notin> used s \<Longrightarrow> deb m j s = (Inr x, s') \<Longrightarrow>
      \<lfloor>m_amount m\<rfloor> \<le> bal s (m_userId m) (m_currency m)"
begin

lemma stake_refunded:
  assumes "inv s" "m_key m \<notin> used s" "m_key m' \<notin> used s" "m_key m' \<noteq> m_key m"
    and "m_userId m' = m_userId m" "m_currency m' = m_currency m" "m_amount m' = m_amount m"
    and "deb m j s = (Inr x, s1)" "cred m' k s1 = (Inr y, s2)"
  shows "bal s2 = bal s"
proof (intro ext)
  fix u c
  have "inv s1" using assms de.inv_mv by blast
  moreover have "m_key m' \<notin> used s1" using assms de.recorded by blast
  ultimately show "bal s2 u c = bal s u c"
    using assms de.fresh [of s m j x s1 u c] cr.fresh [of s1 m' k y s2 u c] by auto
qed

end

text \<open>
  A run of payouts: each item pays nothing or orders one movement, and the client records the
  outcome in its own tables. All of them together pay every order exactly once.
\<close>

locale payout = movement_port mv dir bal used inv tables
  for mv :: "movement \<Rightarrow> bool \<Rightarrow> ('s, movement_result) act"
    and dir :: int
    and bal :: "'s \<Rightarrow> uid \<Rightarrow> currency \<Rightarrow> int"
    and used :: "'s \<Rightarrow> string set"
    and inv :: "'s \<Rightarrow> bool"
    and tables :: "'s \<Rightarrow> 'r" +
  fixes order :: "'i \<Rightarrow> movement option"
    and note_paid :: "'i \<Rightarrow> movement_result option \<Rightarrow> ('s, unit) act"
  assumes note_frame: "note_paid i x s = (r, s') \<Longrightarrow>
      bal s' = bal s \<and> used s' = used s \<and> (inv s \<longrightarrow> inv s')"
begin

definition pay :: "'i \<Rightarrow> ('s, unit) act" where
  "pay i = (case order i of
      None \<Rightarrow> note_paid i None
    | Some m \<Rightarrow> bindA (mv m True) (\<lambda>x. note_paid i (Some x)))"

definition owed :: "'i list \<Rightarrow> uid \<Rightarrow> currency \<Rightarrow> int" where
  "owed is u c = sum_list (map (\<lambda>i. case order i of None \<Rightarrow> 0
      | Some m \<Rightarrow> if u = m_userId m \<and> c = m_currency m then dir * \<lfloor>m_amount m\<rfloor> else 0) is)"

definition keys :: "'i list \<Rightarrow> string list" where
  "keys is = map m_key (List.map_filter order is)"

lemma keys_simps [simp]:
  "keys [] = []"
  "keys (i # is) = (case order i of None \<Rightarrow> keys is | Some m \<Rightarrow> m_key m # keys is)"
  by (auto simp: keys_def List.map_filter_simps split: option.split)

lemma pay_one:
  assumes "inv s" "set (keys [i]) \<inter> used s = {}" "pay i s = (Inr (), s')"
  shows "inv s'" "used s' = used s \<union> set (keys [i])" "bal s' u c = bal s u c + owed [i] u c"
proof -
  have "inv s' \<and> used s' = used s \<union> set (keys [i]) \<and> bal s' u c = bal s u c + owed [i] u c"
  proof (cases "order i")
    case None
    then show ?thesis using assms note_frame [of i None s "Inr ()" s'] by (simp add: pay_def owed_def)
  next
    case (Some m)
    then obtain x s1 where mv: "mv m True s = (Inr x, s1)" and n: "note_paid i (Some x) s1 = (Inr (), s')"
      using assms(3) by (auto simp: pay_def bindA_Inr)
    then show ?thesis
      using Some assms fresh [OF assms(1) _ mv, of u c] recorded [OF assms(1) mv] inv_mv [OF assms(1) mv]
        note_frame [OF n] by (auto simp: owed_def)
  qed
  then show "inv s'" "used s' = used s \<union> set (keys [i])" "bal s' u c = bal s u c + owed [i] u c"
    by auto
qed

lemma pay_all:
  assumes "inv s" "distinct (keys is)" "set (keys is) \<inter> used s = {}" "forA pay is s = (Inr (), s')"
  shows "inv s' \<and> used s' = used s \<union> set (keys is) \<and> bal s' u c = bal s u c + owed is u c"
  using assms
proof (induction "is" arbitrary: s)
  case Nil
  then show ?case by (simp add: owed_def)
next
  case (Cons i "is")
  from Cons.prems(4) obtain s1 where p: "pay i s = (Inr (), s1)" and rest: "forA pay is s1 = (Inr (), s')"
    by (auto simp: bindA_Inr)
  have k: "set (keys [i]) \<inter> used s = {}" "set (keys [i]) \<inter> set (keys is) = {}" "distinct (keys is)"
    "set (keys is) \<inter> used s = {}" "set (keys (i # is)) = set (keys [i]) \<union> set (keys is)"
    using Cons.prems(2,3) by (auto split: option.splits)
  note one = pay_one [OF Cons.prems(1) k(1) p]
  have "set (keys is) \<inter> used s1 = {}" using one(2) k by auto
  from Cons.IH [OF one(1) k(3) this rest] one k(5)
  show ?case by (simp only: owed_def list.map sum_list.Cons sum_list.Nil Un_assoc) simp
qed

end

section \<open>The model provides the interface\<close>

lemma move_port: "movement_port (move ty) (if ty = DEBIT then -1 else 1) user_balance (\<lambda>s. dom (txns s)) wf_db wdb.more"
proof unfold_locales
  fix s s' :: "'a wdb_scheme" and m j x u c
  assume "wf_db s" "m_key m \<notin> dom (txns s)" "move ty m j s = (Inr x, s')"
  then show "user_balance s' u c = user_balance s u c +
      (if u = m_userId m \<and> c = m_currency m then (if ty = DEBIT then -1 else 1) * \<lfloor>m_amount m\<rfloor> else 0)"
    using move_effect(1) [of s m ty j x s' u c] by (auto simp: delta_def dom_def)
next
  fix s s' :: "'a wdb_scheme" and m j and x :: movement_result
  assume "wf_db s" "move ty m j s = (Inr x, s')"
  then show "dom (txns s') = insert (m_key m) (dom (txns s))" by (rule move_keys)
qed (auto simp: same_money_def move_tables dest: move_used move_thrown move_keeps(1))

interpretation crp: movement_port credit 1 user_balance "\<lambda>s. dom (txns s)" wf_db wdb.more
  using move_port [of CREDIT] by (simp add: credit_def [abs_def])

interpretation dep: movement_port debit "-1" user_balance "\<lambda>s. dom (txns s)" wf_db wdb.more
  using move_port [of DEBIT] by (simp add: debit_def [abs_def])

interpretation ws: wallet_service credit debit user_balance "\<lambda>s. dom (txns s)" wf_db wdb.more
proof unfold_locales
  fix s s' :: "'a wdb_scheme" and m j x
  assume "wf_db s" "m_key m \<notin> dom (txns s)" "debit m j s = (Inr x, s')"
  then show "\<lfloor>m_amount m\<rfloor> \<le> user_balance s (m_userId m) (m_currency m)"
    using move_effect(3) [of s m DEBIT j x s'] by (auto simp: debit_def delta_def dom_def)
qed

section \<open>Properties\<close>

definition accepts :: "('z wdb_scheme) \<Rightarrow> entry_type \<Rightarrow> movement \<Rightarrow> bool" where
  "accepts s ty m \<longleftrightarrow> isInteger (m_amount m) \<and> 0 < m_amount m \<and>
     (ty = DEBIT \<longrightarrow> \<not> economyFrozen s \<and> walletEnabled s) \<and> user_status s (m_userId m) = ACTIVE \<and>
     0 \<le> user_balance s (m_userId m) (m_currency m) + delta ty \<lfloor>m_amount m\<rfloor>"

lemma ensured_status:
  assumes wf: "wf_db s" and w: "wallets (ensured s u) (w_id w) = Some w" "w_userId w = u"
  shows "w_status w = user_status s u"
proof -
  have "walletByUser (ensured s u) u = Some w" using walletByUser_Some [OF wf_ensured [OF wf]] w by simp
  then show ?thesis
    by (cases "wallet_of s u")
      (auto simp: user_status_def walletByUser_def ensured_def split: option.splits)
qed

text \<open>When a credit goes through, and when the wallet refuses it.\<close>

lemma move_status:
  assumes wf: "wf_db s" and run: "move ty m j s = (r, s')"
  shows "user_status s' u = user_status s u"
proof (cases "txns s (m_key m)")
  case (Some t)
  then show ?thesis using move_used [OF Some run] by simp
next
  case None
  from wf None run show ?thesis
  proof (cases rule: move_fresh)
    case (thrown e w)
    then show ?thesis by (simp add: same_money_def)
  next
    case (effect w x)
    let ?s = "ensured s (m_userId m)"
    have "wallet_of ?s u = Some i \<Longrightarrow> wallets ?s i \<noteq> None" for i
      using wf_index [OF wf_ensured [OF wf]] by fastforce
    then have "user_status (after_move ty m w ?s) u = user_status ?s u"
      using effect(5)
      by (cases "wallet_of ?s u")
        (auto simp: user_status_def walletByUser_def after_move_def publish_eq moved_wallets
          split: option.splits)
    then show ?thesis using effect(9) wf by simp
  qed
qed

lemma credit_ok:
  assumes wf: "wf_db s" and sol: "solvent s" and st: "user_status s (m_userId m) = ACTIVE"
    and amt: "isInteger (m_amount m)" "0 < m_amount m"
  obtains x s' where "credit m j s = (Inr x, s')"
proof -
  obtain r s' where run: "move CREDIT m j s = (r, s')" by fastforce
  show thesis
  proof (cases "txns s (m_key m)")
    case None
    have "0 \<le> user_balance s (m_userId m) (m_currency m)"
      using sol by (auto simp: user_balance_def walletByUser_def solvent_def split: option.splits bind_splits)
    moreover have "0 < \<lfloor>m_amount m\<rfloor>" using amt by (metis isInteger_def of_int_0_less_iff)
    ultimately have "0 \<le> user_balance s (m_userId m) (m_currency m) + delta CREDIT \<lfloor>m_amount m\<rfloor>"
      by (simp add: delta_def)
    from wf None run show thesis
    proof (cases rule: move_fresh)
      case (thrown e w)
      have "balance_of (m_currency m) w = user_balance s (m_userId m) (m_currency m)"
        using wallet_user_balance [OF wf_ensured [OF wf] thrown(4)] thrown(5) wf by simp
      then show thesis
        using thrown(6) amt st \<open>0 \<le> user_balance s _ _ + _\<close> ensured_status [OF wf thrown(4,5)] by simp
    next
      case (effect w x)
      then show thesis using that run by (simp add: credit_def)
    qed
  next
    case (Some t)
    have "0 < m_amount m \<and> isInteger (m_amount m)" using amt by simp
    then show thesis
      using that Some by (auto simp: credit_def move_def move_run_def replay_def bindA_def guardA_def
          getsA_def returnA_def)
  qed
qed

lemma credit_refused:
  assumes wf: "wf_db s" and fresh: "txns s (m_key m) = None" and st: "user_status s (m_userId m) \<noteq> ACTIVE"
  obtains e s' where "credit m j s = (Inl e, s')" "same_money s s'" "next_id s \<le> next_id s'" "wdb.more s' = wdb.more s"
proof -
  obtain r s' where run: "move CREDIT m j s = (r, s')" by fastforce
  from wf fresh run show thesis
  proof (cases rule: move_fresh)
    case (thrown e w)
    then show thesis using that run move_tables [OF wf run] by (simp add: credit_def)
  next
    case (effect w x)
    then show thesis using ensured_status [OF wf effect(5,6)] st by simp
  qed
qed

lemma wf_next: "wf_db s \<Longrightarrow> wf_db (s\<lparr>next_id := Suc (next_id s)\<rparr>)"
  by (auto simp: wf_db_def less_Suc_eq)

lemma next_irrelevant [simp]:
  "user_balance (s\<lparr>next_id := n\<rparr>) = user_balance s" "solvent (s\<lparr>next_id := n\<rparr>) = solvent s"
  "books (s\<lparr>next_id := n\<rparr>) = books s"
  by (simp_all add: user_balance_def walletByUser_def solvent_def books_def fun_eq_iff)

text \<open>
  C26: A movement under a fresh idempotency key returns exactly when its amount is a positive
  integer, its wallet is active, the balance covers a debit and, for a debit, the economy is open;
  then exactly one balance changes by exactly the amount, one ledger entry records it, and the
  key is stored. Otherwise it throws and no balance, key or ledger entry changes.
\<close>

theorem movement_spec:
  assumes wf: "wf_db s" and fresh: "txns s (m_key m) = None" and run: "move ty m j s = (r, s')"
  shows "(if accepts s ty m
    then \<exists>x e. r = Inr x \<and> \<not> mr_duplicate x \<and> ledger s' = ledger s @ [e] \<and>
      e_transactionId e = mr_transactionId x \<and> signed e = delta ty \<lfloor>m_amount m\<rfloor> \<and>
      e_currency e = m_currency m \<and>
      e_balanceBefore e = user_balance s (m_userId m) (m_currency m) \<and>
      e_balanceAfter e = user_balance s' (m_userId m) (m_currency m) \<and>
      dom (txns s') = insert (m_key m) (dom (txns s)) \<and>
      (\<forall>u c. user_balance s' u c = user_balance s u c +
         (if u = m_userId m \<and> c = m_currency m then delta ty \<lfloor>m_amount m\<rfloor> else 0))
    else \<exists>e. r = Inl e \<and> user_balance s' = user_balance s \<and> txns s' = txns s \<and> ledger s' = ledger s)"
  using wf fresh run
proof (cases rule: move_fresh)
  case (thrown e w)
  have "balance_of (m_currency m) w = user_balance s (m_userId m) (m_currency m)"
    using wallet_user_balance [OF wf_ensured [OF wf] thrown(4)] thrown(5) wf by simp
  then have "\<not> accepts s ty m"
    using thrown(6) ensured_status [OF wf thrown(4,5)] by (simp add: accepts_def)
  then show ?thesis using thrown(1,2) by (simp add: same_money_def)
next
  case (effect w x)
  have "balance_of (m_currency m) w = user_balance s (m_userId m) (m_currency m)"
    using wallet_user_balance [OF wf_ensured [OF wf] effect(5)] effect(6) wf by simp
  then have "accepts s ty m"
    using effect(2,3,4,7,8) ensured_status [OF wf effect(5,6)] by (simp add: accepts_def)
  moreover have r: "move ty m j s = (Inr x, s')" using run effect(1) by simp
  obtain e where "ledger s' = ledger s @ [e]" "signed e = delta ty \<lfloor>m_amount m\<rfloor>"
    "e_transactionId e = mr_transactionId x" "e_currency e = m_currency m"
    "e_balanceBefore e = user_balance s (m_userId m) (m_currency m)"
    "e_balanceAfter e = user_balance s' (m_userId m) (m_currency m)"
    using move_effect(8) [OF wf fresh r] by blast
  ultimately show ?thesis
    using effect(1) move_effect(1,5,6) [OF wf fresh r] by auto
qed

definition sample_stake :: "entry_type \<Rightarrow> int \<Rightarrow> string \<Rightarrow> movement" where
  "sample_stake ty amt key = \<lparr>m_userId = 7, m_currency = GOLD, m_amount = of_int amt,
     m_reason = (if ty = DEBIT then CASINO_BET else CASINO_REFUND), m_key = key,
     m_referenceType = None, m_referenceId = None, m_actorId = None\<rparr>"

theorem movement_spec_witness:
  "\<exists>x. fst (move CREDIT (sample_stake CREDIT 100 ''k'') False init_db) = Inr x \<and>
     user_balance (snd (move CREDIT (sample_stake CREDIT 100 ''k'') False init_db)) 7 GOLD = 100"
proof -
  have "accepts init_db CREDIT (sample_stake CREDIT 100 ''k'')"
    "txns init_db (m_key (sample_stake CREDIT 100 ''k'')) = None" "user_balance init_db 7 GOLD = 0"
    by (simp_all add: accepts_def sample_stake_def init_db_def user_status_def walletByUser_def
        user_balance_def delta_def)
  with movement_spec [OF wf_init this(2) surjective_pairing, of CREDIT False]
  show ?thesis by (auto simp: sample_stake_def delta_def)
qed

text \<open>
  A movement that returned once is exactly-once: calling it again with the same idempotency
  key, inside or outside a caller's transaction, changes nothing at all.
\<close>

theorem retried_movement_is_noop:
  assumes "wf_db s" "move ty m j s = (Inr x, s1)" "move ty m k s1 = (r, s2)"
  shows "s2 = s1 \<and> (\<forall>y. r = Inr y \<longrightarrow> mr_duplicate y)"
proof (cases ty)
  case CREDIT
  then show ?thesis
    using crp.retry_once [of s m j x s1 k r s2] crp.recorded [of s m j x s1] assms
      move_used [of s1 m _ ty k r s2] by (auto simp: credit_def)
next
  case DEBIT
  then show ?thesis
    using dep.retry_once [of s m j x s1 k r s2] dep.recorded [of s m j x s1] assms
      move_used [of s1 m _ ty k r s2] by (auto simp: debit_def)
qed

theorem retried_movement_is_noop_witness:
  "snd (move CREDIT (sample_stake CREDIT 100 ''k'') True
     (snd (move CREDIT (sample_stake CREDIT 100 ''k'') False init_db))) =
   snd (move CREDIT (sample_stake CREDIT 100 ''k'') False init_db)"
proof -
  have "case fst (move CREDIT (sample_stake CREDIT 100 ''k'') False init_db) of
      Inl _ \<Rightarrow> False | Inr _ \<Rightarrow> True" by code_simp
  then obtain x where "move CREDIT (sample_stake CREDIT 100 ''k'') False init_db =
      (Inr x, snd (move CREDIT (sample_stake CREDIT 100 ''k'') False init_db))"
    by (metis (no_types, lifting) prod.collapse sum.case_eq_if sum.collapse(2))
  from retried_movement_is_noop [OF wf_init this surjective_pairing] show ?thesis by blast
qed

text \<open>
  A stake taken and then refunded under another key leaves every balance of every user
  exactly as it was.
\<close>

theorem stake_and_refund_cancel:
  assumes "wf_db s" "m_key m \<notin> dom (txns s)" "m_key m' \<notin> dom (txns s)" "m_key m' \<noteq> m_key m"
    and "m_userId m' = m_userId m" "m_currency m' = m_currency m" "m_amount m' = m_amount m"
    and "debit m j s = (Inr x, s1)" "credit m' k s1 = (Inr y, s2)"
  shows "user_balance s2 = user_balance s"
  by (rule ws.stake_refunded [OF assms])

theorem stake_and_refund_cancel_witness:
  "let s = snd (credit (sample_stake CREDIT 100 ''k'') False init_db);
       s1 = snd (debit (sample_stake DEBIT 40 ''b'') False s);
       s2 = snd (credit (sample_stake CREDIT 40 ''r'') False s1)
   in user_balance s2 = user_balance s"
proof -
  define s where "s = snd (credit (sample_stake CREDIT 100 ''k'') False init_db)"
  define s1 where "s1 = snd (debit (sample_stake DEBIT 40 ''b'') False s)"
  define s2 where "s2 = snd (credit (sample_stake CREDIT 40 ''r'') False s1)"
  have wf: "wf_db s"
    using move_keeps(1) [OF wf_init surjective_pairing] by (simp add: s_def credit_def)
  have "(case fst (debit (sample_stake DEBIT 40 ''b'') False s) of Inl _ \<Rightarrow> False | Inr _ \<Rightarrow> True)"
    "(case fst (credit (sample_stake CREDIT 40 ''r'') False s1) of Inl _ \<Rightarrow> False | Inr _ \<Rightarrow> True)"
    "txns s ''b'' = None" "txns s ''r'' = None"
    unfolding s1_def s_def by code_simp+
  moreover from this obtain x y where "debit (sample_stake DEBIT 40 ''b'') False s = (Inr x, s1)"
    "credit (sample_stake CREDIT 40 ''r'') False s1 = (Inr y, s2)"
    unfolding s1_def s2_def
    by (metis (no_types, lifting) prod.collapse sum.case_eq_if sum.collapse(2))
  ultimately have "user_balance s2 = user_balance s"
    by (intro stake_and_refund_cancel [OF wf, where m = "sample_stake DEBIT 40 ''b''"
          and m' = "sample_stake CREDIT 40 ''r''"]) (auto simp: sample_stake_def)
  then show ?thesis by (simp add: s_def s1_def s2_def Let_def)
qed

end
