(* ===== verification/WalletTransactions.thy ===== *)
theory WalletTransactions
  imports WalletLaws
begin

text \<open>
  Path B of the wallet: the administrative and purchase mutations of
  src/modules/wallet/services/wallet-transaction.service.ts (\<open>creditWallet\<close>, \<open>debitWallet\<close>,
  \<open>reverseWallet\<close>, \<open>transferCoins\<close>). Each method is a check phase that reads outside the database
  transaction and a commit phase that locks the row, re-validates and writes; they are separate
  definitions so that requests can interleave between the two.
\<close>

section \<open>Requests and responses\<close>

record wallet_dto =
  d_userId :: uid
  d_amount :: int
  d_currency :: "currency option"
  d_reason :: "reason option"
  d_key :: string
  d_referenceType :: "string option"
  d_referenceId :: "string option"
  d_description :: "string option"

record transfer_dto =
  td_senderUserId :: uid
  td_recipientUserId :: uid
  td_amount :: int
  td_currency :: "currency option"
  td_key :: string
  td_referenceType :: "string option"
  td_referenceId :: "string option"
  td_description :: "string option"

datatype response_type = R_CREDIT | R_DEBIT | R_TRANSFER | R_stored transaction_type

record tx_response =
  x_transactionId :: nat
  x_idempotencyKey :: string
  x_type :: response_type
  x_amount :: int
  x_balances :: "int list"
  x_status :: transaction_status
  x_isDuplicateReplay :: bool

definition or_gold :: "currency option \<Rightarrow> currency" where
  "or_gold c = (case c of Some d \<Rightarrow> d | None \<Rightarrow> GOLD)"

definition or_else :: "'a option \<Rightarrow> 'a \<Rightarrow> 'a" where
  "or_else x d = (case x of Some a \<Rightarrow> a | None \<Rightarrow> d)"

definition formatTransactionResponse :: "txn \<Rightarrow> tx_response" where
  "formatTransactionResponse t =
     \<lparr>x_transactionId = t_id t, x_idempotencyKey = t_idempotencyKey t, x_type = R_stored (t_type t),
      x_amount = t_amount t, x_balances = [], x_status = t_status t, x_isDuplicateReplay = True\<rparr>"

text \<open>
  \<open>recoverDuplicate\<close> as the handler of the try block: on P2002 the winner's transaction is
  answered as a replay, every other error is thrown again.
\<close>

definition recoverDuplicate :: "string \<Rightarrow> err \<Rightarrow> ('z wdb_scheme, tx_response) act" where
  "recoverDuplicate key e s =
     (if e = P2002
      then (case txns s key of Some t \<Rightarrow> (Inr (formatTransactionResponse t), s) | None \<Rightarrow> (Inl e, s))
      else (Inl e, s))"

definition dto_txn :: "wallet_dto \<Rightarrow> transaction_type \<Rightarrow> nat option \<Rightarrow> nat option \<Rightarrow> uid option \<Rightarrow> nat \<Rightarrow> txn" where
  "dto_txn dto ty src dst actor i =
     \<lparr>t_id = i, t_currency = or_gold (d_currency dto), t_amount = d_amount dto,
      t_referenceType = d_referenceType dto, t_referenceId = d_referenceId dto,
      t_idempotencyKey = d_key dto, t_createdBy = actor, t_source = src, t_destination = dst,
      t_status = TX_COMPLETED, t_type = ty\<rparr>"

definition dto_entry ::
  "wallet_dto \<Rightarrow> entry_type \<Rightarrow> reason \<Rightarrow> string \<Rightarrow> uid option \<Rightarrow> nat \<Rightarrow> nat \<Rightarrow> int \<Rightarrow> int \<Rightarrow> entry" where
  "dto_entry dto ty rsn descr actor tid wid before after =
     \<lparr>e_transactionId = tid, e_walletId = wid, e_type = ty, e_currency = or_gold (d_currency dto),
      e_reason = rsn, e_amount = d_amount dto, e_balanceBefore = before, e_balanceAfter = after,
      e_referenceType = d_referenceType dto, e_referenceId = d_referenceId dto,
      e_description = Some (or_else (d_description dto) descr), e_actorId = actor\<rparr>"

definition dto_event :: "wallet_dto \<Rightarrow> entry_type \<Rightarrow> reason \<Rightarrow> nat \<Rightarrow> int \<Rightarrow> movement_event" where
  "dto_event dto ty rsn tid after =
     \<lparr>ev_type = ty, ev_userId = Some (d_userId dto), ev_transactionId = tid,
      ev_currency = or_gold (d_currency dto), ev_amount = toNumber (d_amount dto),
      ev_balanceAfter = toNumber after, ev_reason = rsn,
      ev_referenceType = d_referenceType dto, ev_referenceId = d_referenceId dto\<rparr>"

text \<open>
  The balance update of a credit and of a debit: only an explicit GOLD, GAME or DIAMOND names a
  column (\<open>dto.currency === ... ? ... : undefined\<close>).
\<close>

definition credit_update :: "currency option \<Rightarrow> int \<Rightarrow> wallet \<Rightarrow> wallet" where
  "credit_update c amt w = w\<lparr>
     availableBalance := (if c = Some GOLD then availableBalance w + amt else availableBalance w),
     goldBalance := (if c = Some GOLD then goldBalance w + amt else goldBalance w),
     gameBalance := (if c = Some GAME then gameBalance w + amt else gameBalance w),
     diamondBalance := (if c = Some DIAMOND then diamondBalance w + amt else diamondBalance w),
     version := version w + 1\<rparr>"

definition debit_update :: "currency option \<Rightarrow> int \<Rightarrow> wallet \<Rightarrow> wallet" where
  "debit_update c amt w = w\<lparr>
     availableBalance := (if c = Some GOLD then availableBalance w - amt else availableBalance w),
     totalSpent := totalSpent w + amt,
     goldBalance := (if c = Some GOLD then goldBalance w - amt else goldBalance w),
     gameBalance := (if c = Some GAME then gameBalance w - amt else gameBalance w),
     diamondBalance := (if c = Some DIAMOND then diamondBalance w - amt else diamondBalance w),
     version := version w + 1\<rparr>"

definition findWallet :: "nat \<Rightarrow> string \<Rightarrow> ('z wdb_scheme, wallet) act" where
  "findWallet i msg s = (case wallets s i of None \<Rightarrow> (Inl (NotFound msg), s) | Some w \<Rightarrow> (Inr w, s))"

section \<open>creditWallet\<close>

definition credit_check :: "wallet_dto \<Rightarrow> ('z wdb_scheme, tx_response + wallet) act" where
  "credit_check dto =
     bindA validateEconomyStatus (\<lambda>_.
     bindA (validatePositiveAmount (d_amount dto)) (\<lambda>_.
     bindA (getsA (\<lambda>s. txns s (d_key dto))) (\<lambda>existingTx.
     (case existingTx of
        Some t \<Rightarrow> returnA (Inl (formatTransactionResponse t))
      | None \<Rightarrow>
          bindA (getOrCreateWallet (d_userId dto) USER_WALLET) (\<lambda>w.
          bindA (validateWalletActive w) (\<lambda>_.
          returnA (Inr w)))))))"

definition credit_body :: "wallet_dto \<Rightarrow> uid option \<Rightarrow> wallet \<Rightarrow> ('z wdb_scheme, tx_response) act" where
  "credit_body dto actor w =
     bindA (findWallet (w_id w) ''Wallet not found'') (\<lambda>freshWallet.
     bindA (validateWalletActive freshWallet) (\<lambda>_.
     (let before = availableBalance freshWallet; after = before + d_amount dto
      in bindA (createTxn (dto_txn dto DEPOSIT None (Some (w_id w)) actor)) (\<lambda>t.
         bindA (putWallet (w_id w) (credit_update (d_currency dto) (d_amount dto))) (\<lambda>updated.
         bindA (appendLedgerEntry (dto_entry dto CREDIT (or_else (d_reason dto) ADMIN_CREDIT)
                  ''Wallet Credited'' actor (t_id t) (w_id w) before after)) (\<lambda>_.
         bindA (logAudit (w_id w) ''TRANSACTION_CREATED'' actor) (\<lambda>_.
         returnA \<lparr>x_transactionId = t_id t, x_idempotencyKey = t_idempotencyKey t, x_type = R_CREDIT,
                  x_amount = d_amount dto, x_balances = [before, after, availableBalance updated],
                  x_status = t_status t, x_isDuplicateReplay = False\<rparr>)))))))"

definition credit_commit :: "wallet_dto \<Rightarrow> uid option \<Rightarrow> wallet \<Rightarrow> ('z wdb_scheme, tx_response) act" where
  "credit_commit dto actor w =
     catchA
       (bindA (transaction (credit_body dto actor w)) (\<lambda>r.
        bindA (publishMovement (dto_event dto CREDIT (or_else (d_reason dto) ADMIN_CREDIT)
                 (x_transactionId r) (x_balances r ! 1))) (\<lambda>_.
        returnA r)))
       (recoverDuplicate (d_key dto))"

definition creditWallet :: "wallet_dto \<Rightarrow> uid option \<Rightarrow> ('z wdb_scheme, tx_response) act" where
  "creditWallet dto actor =
     bindA (credit_check dto) (\<lambda>x.
     (case x of Inl r \<Rightarrow> returnA r | Inr w \<Rightarrow> credit_commit dto actor w))"

section \<open>debitWallet\<close>

definition debit_check :: "wallet_dto \<Rightarrow> ('z wdb_scheme, tx_response + wallet) act" where
  "debit_check dto =
     bindA validateEconomyStatus (\<lambda>_.
     bindA (validatePositiveAmount (d_amount dto)) (\<lambda>_.
     bindA (getsA (\<lambda>s. txns s (d_key dto))) (\<lambda>existingTx.
     (case existingTx of
        Some t \<Rightarrow> returnA (Inl (formatTransactionResponse t))
      | None \<Rightarrow>
          bindA (getOrCreateWallet (d_userId dto) USER_WALLET) (\<lambda>w.
          bindA (validateWalletActive w) (\<lambda>_.
          bindA (validateSufficientBalance w (d_amount dto) (d_currency dto)) (\<lambda>_.
          returnA (Inr w))))))))"

text \<open>What \<open>debitWallet\<close> and \<open>reverseWallet\<close> write once the row is locked and checked.\<close>

definition debit_writes ::
  "wallet_dto \<Rightarrow> uid option \<Rightarrow> reason \<Rightarrow> string \<Rightarrow> wallet \<Rightarrow> wallet \<Rightarrow> ('z wdb_scheme, tx_response) act" where
  "debit_writes dto actor rsn descr w freshWallet =
     (let before = availableBalance freshWallet; after = before - d_amount dto
      in bindA (createTxn (dto_txn dto TT_WITHDRAWAL (Some (w_id w)) None actor)) (\<lambda>t.
         bindA (putWallet (w_id w) (debit_update (d_currency dto) (d_amount dto))) (\<lambda>updated.
         bindA (appendLedgerEntry (dto_entry dto DEBIT rsn descr actor (t_id t) (w_id w) before after)) (\<lambda>_.
         bindA (logAudit (w_id w) ''TRANSACTION_CREATED'' actor) (\<lambda>_.
         returnA \<lparr>x_transactionId = t_id t, x_idempotencyKey = t_idempotencyKey t, x_type = R_DEBIT,
                  x_amount = d_amount dto, x_balances = [before, after, availableBalance updated],
                  x_status = t_status t, x_isDuplicateReplay = False\<rparr>)))))"

definition debit_body :: "wallet_dto \<Rightarrow> uid option \<Rightarrow> wallet \<Rightarrow> ('z wdb_scheme, tx_response) act" where
  "debit_body dto actor w =
     bindA (findWallet (w_id w) ''Wallet not found'') (\<lambda>freshWallet.
     bindA (validateWalletActive freshWallet) (\<lambda>_.
     bindA (validateSufficientBalance freshWallet (d_amount dto) (d_currency dto)) (\<lambda>_.
     debit_writes dto actor (or_else (d_reason dto) ADMIN_DEBIT) ''Wallet Debited'' w freshWallet)))"

definition debit_commit :: "wallet_dto \<Rightarrow> uid option \<Rightarrow> wallet \<Rightarrow> ('z wdb_scheme, tx_response) act" where
  "debit_commit dto actor w =
     catchA
       (bindA (transaction (debit_body dto actor w)) (\<lambda>r.
        bindA (publishMovement (dto_event dto DEBIT (or_else (d_reason dto) ADMIN_DEBIT)
                 (x_transactionId r) (x_balances r ! 1))) (\<lambda>_.
        returnA r)))
       (recoverDuplicate (d_key dto))"

definition debitWallet :: "wallet_dto \<Rightarrow> uid option \<Rightarrow> ('z wdb_scheme, tx_response) act" where
  "debitWallet dto actor =
     bindA (debit_check dto) (\<lambda>x.
     (case x of Inl r \<Rightarrow> returnA r | Inr w \<Rightarrow> debit_commit dto actor w))"

section \<open>reverseWallet\<close>

definition reverse_check :: "wallet_dto \<Rightarrow> ('z wdb_scheme, tx_response + wallet) act" where
  "reverse_check dto =
     bindA (guardA (d_reason dto = Some PURCHASE_REVERSAL)
              (BadRequest ''reverseWallet is restricted to PURCHASE_REVERSAL'')) (\<lambda>_.
     bindA validateEconomyStatus (\<lambda>_.
     bindA (validatePositiveAmount (d_amount dto)) (\<lambda>_.
     bindA (getsA (\<lambda>s. txns s (d_key dto))) (\<lambda>existingTx.
     (case existingTx of
        Some t \<Rightarrow> returnA (Inl (formatTransactionResponse t))
      | None \<Rightarrow> bindA (getOrCreateWallet (d_userId dto) USER_WALLET) (\<lambda>w. returnA (Inr w)))))))"

definition reverse_commit :: "wallet_dto \<Rightarrow> uid option \<Rightarrow> wallet \<Rightarrow> ('z wdb_scheme, tx_response) act" where
  "reverse_commit dto actor w =
     catchA
       (bindA (transaction
          (bindA (findWallet (w_id w) ''Wallet not found'') (\<lambda>freshWallet.
           debit_writes dto actor PURCHASE_REVERSAL ''Purchase reversed'' w freshWallet))) (\<lambda>r.
        bindA (publishMovement (dto_event dto DEBIT PURCHASE_REVERSAL
                 (x_transactionId r) (x_balances r ! 1))) (\<lambda>_.
        returnA r)))
       (recoverDuplicate (d_key dto))"

definition reverseWallet :: "wallet_dto \<Rightarrow> uid option \<Rightarrow> ('z wdb_scheme, tx_response) act" where
  "reverseWallet dto actor =
     bindA (reverse_check dto) (\<lambda>x.
     (case x of Inl r \<Rightarrow> returnA r | Inr w \<Rightarrow> reverse_commit dto actor w))"

section \<open>transferCoins\<close>

definition isSelfTransfer :: "transfer_dto \<Rightarrow> bool" where
  "isSelfTransfer dto \<longleftrightarrow> td_senderUserId dto = td_recipientUserId dto"

definition unlessA :: "bool \<Rightarrow> ('s, unit) act \<Rightarrow> ('s, unit) act" where
  "unlessA b m = (if b then returnA () else m)"

definition transfer_check :: "transfer_dto \<Rightarrow> ('z wdb_scheme, tx_response + wallet \<times> wallet) act" where
  "transfer_check dto =
     bindA validateEconomyStatus (\<lambda>_.
     bindA (validatePositiveAmount (td_amount dto)) (\<lambda>_.
     bindA (getsA (\<lambda>s. txns s (td_key dto))) (\<lambda>existingTx.
     (case existingTx of
        Some t \<Rightarrow> returnA (Inl (formatTransactionResponse t))
      | None \<Rightarrow>
          bindA (getOrCreateWallet (td_senderUserId dto) USER_WALLET) (\<lambda>sender.
          bindA (if isSelfTransfer dto then returnA sender
                 else getOrCreateWallet (td_recipientUserId dto) USER_WALLET) (\<lambda>recipient.
          bindA (validateWalletActive sender) (\<lambda>_.
          bindA (unlessA (isSelfTransfer dto) (validateWalletActive recipient)) (\<lambda>_.
          bindA (validateSufficientBalance sender (td_amount dto) None) (\<lambda>_.
          returnA (Inr (sender, recipient)))))))))))"

definition transfer_txn :: "transfer_dto \<Rightarrow> nat \<Rightarrow> nat \<Rightarrow> uid option \<Rightarrow> nat \<Rightarrow> txn" where
  "transfer_txn dto src dst actor i =
     \<lparr>t_id = i, t_currency = or_gold (td_currency dto), t_amount = td_amount dto,
      t_referenceType = td_referenceType dto, t_referenceId = td_referenceId dto,
      t_idempotencyKey = td_key dto, t_createdBy = actor, t_source = Some src,
      t_destination = Some dst, t_status = TX_COMPLETED, t_type = TRANSFER\<rparr>"

definition transfer_entry ::
  "transfer_dto \<Rightarrow> entry_type \<Rightarrow> string \<Rightarrow> uid option \<Rightarrow> nat \<Rightarrow> nat \<Rightarrow> int \<Rightarrow> int \<Rightarrow> entry" where
  "transfer_entry dto ty descr actor tid wid before after =
     \<lparr>e_transactionId = tid, e_walletId = wid, e_type = ty, e_currency = or_gold (td_currency dto),
      e_reason = SYSTEM_TRANSFER, e_amount = td_amount dto, e_balanceBefore = before,
      e_balanceAfter = after, e_referenceType = td_referenceType dto,
      e_referenceId = td_referenceId dto, e_description = Some (or_else (td_description dto) descr),
      e_actorId = actor\<rparr>"

definition send_update :: "int \<Rightarrow> wallet \<Rightarrow> wallet" where
  "send_update amt w = w\<lparr>availableBalance := availableBalance w - amt,
     totalSpent := totalSpent w + amt, version := version w + 1\<rparr>"

definition receive_update :: "int \<Rightarrow> wallet \<Rightarrow> wallet" where
  "receive_update amt w = w\<lparr>availableBalance := availableBalance w + amt, version := version w + 1\<rparr>"

definition transfer_body ::
  "transfer_dto \<Rightarrow> uid option \<Rightarrow> wallet \<Rightarrow> wallet \<Rightarrow> ('z wdb_scheme, tx_response) act" where
  "transfer_body dto actor sender recipient =
     bindA (findWallet (w_id sender) ''One or both transfer wallets not found'') (\<lambda>freshSender.
     bindA (if isSelfTransfer dto then returnA freshSender
            else findWallet (w_id recipient) ''One or both transfer wallets not found'') (\<lambda>freshRecipient.
     bindA (validateWalletActive freshSender) (\<lambda>_.
     bindA (unlessA (isSelfTransfer dto) (validateWalletActive freshRecipient)) (\<lambda>_.
     bindA (validateSufficientBalance freshSender (td_amount dto) None) (\<lambda>_.
     (let amt = td_amount dto;
          senderBefore = availableBalance freshSender;
          senderAfter = senderBefore - amt;
          recipientBefore = availableBalance freshRecipient;
          recipientAfter = (if isSelfTransfer dto then senderAfter else recipientBefore + amt)
      in bindA (createTxn (transfer_txn dto (w_id sender) (w_id recipient) actor)) (\<lambda>t.
         bindA (putWallet (w_id sender) (send_update amt)) (\<lambda>updatedSender.
         bindA (if isSelfTransfer dto then returnA updatedSender
                else putWallet (w_id recipient) (receive_update amt)) (\<lambda>updatedRecipient.
         bindA (appendLedgerEntry (transfer_entry dto DEBIT
                  (''Transfer to '' @ show_nat (w_userId recipient)) actor (t_id t) (w_id sender)
                  senderBefore senderAfter)) (\<lambda>_.
         bindA (appendLedgerEntry (transfer_entry dto CREDIT
                  (''Transfer from '' @ show_nat (w_userId sender)) actor (t_id t) (w_id recipient)
                  recipientBefore recipientAfter)) (\<lambda>_.
         bindA (logAudit (w_id sender) ''TRANSACTION_CREATED'' actor) (\<lambda>_.
         bindA (logAudit (w_id recipient) ''TRANSACTION_CREATED'' actor) (\<lambda>_.
         returnA \<lparr>x_transactionId = t_id t, x_idempotencyKey = t_idempotencyKey t, x_type = R_TRANSFER,
                  x_amount = amt,
                  x_balances = [availableBalance updatedSender, availableBalance updatedRecipient],
                  x_status = t_status t, x_isDuplicateReplay = False\<rparr>)))))))))))))"

definition transfer_event :: "transfer_dto \<Rightarrow> entry_type \<Rightarrow> uid \<Rightarrow> nat \<Rightarrow> int \<Rightarrow> movement_event" where
  "transfer_event dto ty u tid after =
     \<lparr>ev_type = ty, ev_userId = Some u, ev_transactionId = tid,
      ev_currency = or_gold (td_currency dto), ev_amount = toNumber (td_amount dto),
      ev_balanceAfter = toNumber after, ev_reason = SYSTEM_TRANSFER,
      ev_referenceType = td_referenceType dto, ev_referenceId = td_referenceId dto\<rparr>"

definition transfer_commit ::
  "transfer_dto \<Rightarrow> uid option \<Rightarrow> wallet \<Rightarrow> wallet \<Rightarrow> ('z wdb_scheme, tx_response) act" where
  "transfer_commit dto actor sender recipient =
     catchA
       (bindA (transaction (transfer_body dto actor sender recipient)) (\<lambda>r.
        bindA (publishMovement (transfer_event dto DEBIT (td_senderUserId dto)
                 (x_transactionId r) (x_balances r ! 0))) (\<lambda>_.
        bindA (publishMovement (transfer_event dto CREDIT (td_recipientUserId dto)
                 (x_transactionId r) (x_balances r ! 1))) (\<lambda>_.
        returnA r))))
       (recoverDuplicate (td_key dto))"

definition transferCoins :: "transfer_dto \<Rightarrow> uid option \<Rightarrow> ('z wdb_scheme, tx_response) act" where
  "transferCoins dto actor =
     bindA (transfer_check dto) (\<lambda>x.
     (case x of Inl r \<Rightarrow> returnA r
      | Inr (sender, recipient) \<Rightarrow> transfer_commit dto actor sender recipient))"

end
