(* ===== verification/WalletTransactionLaws.thy ===== *)
theory WalletTransactionLaws
  imports WalletTransactions
begin

text \<open>
  What Path B does to the books. Every successful commit is a \<open>book_step\<close>: it rewrites wallet
  rows, stores one transaction header under a fresh key and appends ledger entries. From that
  one shape follow well-formedness, the new balances and, where the row updates agree with the
  entries, the books. The theorems say which requests keep the books, which do not, and that
  racing duplicates of one request apply once.
\<close>

section \<open>The shape of a commit\<close>

definition at_row :: "nat \<Rightarrow> (wallet \<Rightarrow> wallet) \<Rightarrow> nat \<Rightarrow> wallet \<Rightarrow> wallet" where
  "at_row i f = (\<lambda>k w. if k = i then f w else w)"

definition keeps_ids :: "(nat \<Rightarrow> wallet \<Rightarrow> wallet) \<Rightarrow> bool" where
  "keeps_ids F \<longleftrightarrow> (\<forall>i w. w_id (F i w) = w_id w \<and> w_userId (F i w) = w_userId w)"

definition book_step ::
  "(nat \<Rightarrow> wallet \<Rightarrow> wallet) \<Rightarrow> txn \<Rightarrow> entry list \<Rightarrow> ('z wdb_scheme) \<Rightarrow> ('z wdb_scheme) \<Rightarrow> bool" where
  "book_step F t es s s' \<longleftrightarrow>
     keeps_ids F \<and> wallets s' = (\<lambda>i. map_option (F i) (wallets s i)) \<and> wallet_of s' = wallet_of s \<and>
     txns s' = (txns s)(t_idempotencyKey t \<mapsto> t) \<and> t_id t = next_id s \<and>
     next_id s' = Suc (next_id s) \<and> ledger s' = ledger s @ es \<and>
     (\<forall>e \<in> set es. \<exists>w. wallets s (e_walletId e) = Some w) \<and> wdb.more s' = wdb.more s"

lemma keeps_ids_at [intro]:
  "(\<And>w. w_id (f w) = w_id w \<and> w_userId (f w) = w_userId w) \<Longrightarrow> keeps_ids (at_row i f)"
  by (simp add: keeps_ids_def at_row_def)

lemma fun_upd_at: "m i = Some w \<Longrightarrow> m(i \<mapsto> f w) = (\<lambda>k. map_option (at_row i f k) (m k))"
  by (auto simp: fun_eq_iff at_row_def option.map_ident)

lemma book_step_wf:
  assumes wf: "wf_db s" and b: "book_step F t es s s'"
  shows "wf_db s'"
proof (rule wf_dbI)
  note B = b [unfolded book_step_def keeps_ids_def]
  fix u i assume "wallet_of s' u = Some i"
  then have "wallet_of s u = Some i" using B by simp
  then obtain w where "wallets s i = Some w" "w_userId w = u" using wf_index [OF wf] by blast
  then show "\<exists>w. wallets s' i = Some w \<and> w_userId w = u" using B by simp
next
  note B = b [unfolded book_step_def keeps_ids_def]
  fix i w assume "wallets s' i = Some w"
  then obtain w0 where w0: "wallets s i = Some w0" "w = F i w0" using B by auto
  show "wallet_of s' (w_userId w) = Some i" "w_id w = i" "i < next_id s'"
    using B w0 wf_wallet_of [OF wf w0(1)] wf_w_id [OF wf w0(1)] wf_w_fresh [OF wf w0(1)] by auto
next
  note B = b [unfolded book_step_def keeps_ids_def]
  fix e assume "e \<in> set (ledger s')"
  then show "e_walletId e < next_id s'"
    using B wf_entry [OF wf, of e] wf_w_fresh [OF wf, of "e_walletId e"] by (auto simp: less_Suc_eq)
next
  note B = b [unfolded book_step_def keeps_ids_def]
  fix k t' assume "txns s' k = Some t'"
  then show "t_idempotencyKey t' = k" "t_id t' < next_id s'"
    using B wf_txn_key [OF wf, of k t'] wf_txn_fresh [OF wf, of k t'] by (auto split: if_splits)
qed

lemma book_step_balance:
  assumes "book_step F t es s s'" "wf_db s" "wallets s i = Some w"
  shows "user_balance s' (w_userId w) c = balance_of c (F i w)"
  using assms wf_wallet_of [OF assms(2,3)]
  by (simp add: book_step_def user_balance_def walletByUser_def)

lemma book_step_at_balance:
  assumes b: "book_step (at_row i f) t es s s'" and wf: "wf_db s" and w: "wallets s i = Some w"
    and f: "\<And>c. balance_of c (f w) = balance_of c w + amt c"
  shows "user_balance s' u c = user_balance s u c + (if u = w_userId w then amt c else 0)"
proof (cases "wallet_of s u")
  case None
  moreover have "u \<noteq> w_userId w" using wf_wallet_of [OF wf w] None by auto
  ultimately show ?thesis using b by (simp add: book_step_def user_balance_def walletByUser_def)
next
  case (Some k)
  then obtain v where v: "wallets s k = Some v" "w_userId v = u" by (rule wf_user_index [OF wf])
  have old: "user_balance s u c = balance_of c v" using Some v by (simp add: user_balance_def walletByUser_def)
  have new: "user_balance s' u c = balance_of c (at_row i f k v)"
    using book_step_balance [OF b wf v(1), of c] v(2) by simp
  show ?thesis
  proof (cases "u = w_userId w")
    case True
    then have "k = i" "v = w" using wf_wallet_of [OF wf w] Some v(1) w by auto
    then show ?thesis using True old new f by (simp add: at_row_def)
  next
    case False
    then have "k \<noteq> i" using v w by auto
    then show ?thesis using False old new by (simp add: at_row_def)
  qed
qed

lemma book_step_books:
  assumes "book_step F t es s s'" "books s"
    and "\<And>i w c. wallets s i = Some w \<Longrightarrow> balance_of c (F i w) = balance_of c w + ledger_net es i c"
  shows "books s'"
proof -
  have "ledger_net (xs @ es) i c = ledger_net xs i c + ledger_net es i c" for xs i c
    by (simp add: ledger_net_def)
  with assms show ?thesis by (auto simp: books_def book_step_def)
qed

section \<open>Looking the wallet up\<close>

lemma getOrCreateWallet_eq:
  assumes wf: "wf_db s"
  obtains w a where "getOrCreateWallet u USER_WALLET s = (Inr w, (ensured s u)\<lparr>audits := a\<rparr>)"
    "wallets (ensured s u) (w_id w) = Some w" "w_userId w = u"
proof (cases "wallet_of s u")
  case None
  then show thesis
    using that [of "empty_wallet (next_id s) u USER_WALLET"]
    by (simp add: getOrCreateWallet_def bindA_def getsA_def walletByUser_def createWallet_def
        logAudit_def returnA_def ensured_def Let_def)
next
  case (Some i)
  then obtain w where w: "wallets s i = Some w" "w_userId w = u" "w_id w = i"
    by (rule wf_user_index [OF wf])
  then have "getOrCreateWallet u USER_WALLET s = (Inr w, (ensured s u)\<lparr>audits := audits s\<rparr>)"
    using Some by (simp add: getOrCreateWallet_def bindA_def getsA_def walletByUser_def returnA_def ensured_def)
  then show thesis using that [of w "audits s"] w Some by (simp add: ensured_def)
qed

lemma audits_irrelevant [simp]:
  "user_balance (s\<lparr>audits := a\<rparr>) = user_balance s" "wf_db (s\<lparr>audits := a\<rparr>) = wf_db s"
  "books (s\<lparr>audits := a\<rparr>) = books s" "solvent (s\<lparr>audits := a\<rparr>) = solvent s"
  "same_money s0 (s\<lparr>audits := a\<rparr>) = same_money s0 s"
  by (simp_all add: user_status_def user_balance_def walletByUser_def wf_db_def books_def solvent_def fun_eq_iff
      same_money_def)

lemma rollback_self [simp]: "rollback s s = s"
  by (simp add: rollback_def)

lemma validateEconomyStatus_state: "validateEconomyStatus s = (r, s') \<Longrightarrow> s' = s"
  by (auto simp: validateEconomyStatus_def bindA_def guardA_def getsA_def split: if_splits)

text \<open>The two phases of a request for one wallet.\<close>

definition proceeds :: "wallet_dto \<Rightarrow> ('z wdb_scheme) \<Rightarrow> wallet \<Rightarrow> ('z wdb_scheme) \<Rightarrow> bool" where
  "proceeds dto s w s1 \<longleftrightarrow> 0 < d_amount dto \<and> txns s (d_key dto) = None \<and>
     (\<exists>a. s1 = (ensured s (d_userId dto))\<lparr>audits := a\<rparr>) \<and>
     wallets s1 (w_id w) = Some w \<and> w_userId w = d_userId dto"

lemmas check_defs =
  validatePositiveAmount_def validateWalletActive_def validateSufficientBalance_def
  bindA_def guardA_def getsA_def returnA_def

lemma ensured_index: "wallet_of s \<subseteq>\<^sub>m wallet_of (ensured s u)"
  by (auto simp: ensured_def map_le_def)

lemma check_cases:
  assumes wf: "wf_db s" and m: "m \<in> {credit_check dto, debit_check dto, reverse_check dto}"
    and run: "m s = (r, s1)"
  obtains (fail) e where "r = Inl e" "same_money s s1" "next_id s \<le> next_id s1"
      "wallet_of s \<subseteq>\<^sub>m wallet_of s1"
  | (old) t where "r = Inr (Inl (formatTransactionResponse t))" "txns s (d_key dto) = Some t" "s1 = s"
  | (go) w where "r = Inr (Inr w)" "proceeds dto s w s1" "same_money s s1" "next_id s \<le> next_id s1"
      "wallet_of s \<subseteq>\<^sub>m wallet_of s1"
proof -
  obtain w a where g: "getOrCreateWallet (d_userId dto) USER_WALLET s =
      (Inr w, (ensured s (d_userId dto))\<lparr>audits := a\<rparr>)"
    "wallets (ensured s (d_userId dto)) (w_id w) = Some w" "w_userId w = d_userId dto"
    using getOrCreateWallet_eq [OF wf] by blast
  note money = same_money_ensured [OF wf, of "d_userId dto"] next_id_ensured [of s "d_userId dto"]
    ensured_index [of s "d_userId dto"]
  obtain v where v: "validateEconomyStatus s = (v, s)"
    using validateEconomyStatus_state [of s] by (metis prod.collapse)
  have "(\<exists>e. r = Inl e \<and> (s1 = s \<or> s1 = (ensured s (d_userId dto))\<lparr>audits := a\<rparr>)) \<or>
    (\<exists>t. r = Inr (Inl (formatTransactionResponse t)) \<and> txns s (d_key dto) = Some t \<and> s1 = s) \<or>
    (r = Inr (Inr w) \<and> 0 < d_amount dto \<and> txns s (d_key dto) = None \<and>
     s1 = (ensured s (d_userId dto))\<lparr>audits := a\<rparr>)"
    using m run v g(1)
    by (cases v; cases "txns s (d_key dto)")
      (auto simp: credit_check_def debit_check_def reverse_check_def check_defs split: if_splits)
  then show thesis
    using that money g by (fastforce simp: proceeds_def)
qed

section \<open>Commits\<close>

lemmas body_defs =
  findWallet_def validateWalletActive_def validateSufficientBalance_def bindA_def guardA_def
  createTxn_def putWallet_def appendLedgerEntry_def logAudit_def returnA_def Let_def

lemma update_ids [simp]:
  "w_id (credit_update c a w) = w_id w" "w_userId (credit_update c a w) = w_userId w"
  "w_id (debit_update c a w) = w_id w" "w_userId (debit_update c a w) = w_userId w"
  by (simp_all add: credit_update_def debit_update_def)

text \<open>The currencies whose column a request can name.\<close>

definition column :: "currency option \<Rightarrow> currency \<Rightarrow> bool" where
  "column co c \<longleftrightarrow> co = Some c \<and> c \<in> {GOLD, GAME, DIAMOND}"

lemma update_balance [simp]:
  "balance_of c (credit_update co a w) = balance_of c w + (if column co c then a else 0)"
  "balance_of c (debit_update co a w) = balance_of c w + (if column co c then - a else 0)"
  by (cases c; simp add: credit_update_def debit_update_def column_def)+

definition dto_step ::
  "wallet_dto \<Rightarrow> entry_type \<Rightarrow> (wallet \<Rightarrow> wallet) \<Rightarrow> nat \<Rightarrow> ('z wdb_scheme) \<Rightarrow> ('z wdb_scheme) \<Rightarrow> bool" where
  "dto_step dto ty f i s s' \<longleftrightarrow> txns s (d_key dto) = None \<and> (\<exists>w. wallets s i = Some w) \<and>
     (\<exists>t e. book_step (at_row i f) t [e] s s' \<and> t_idempotencyKey t = d_key dto \<and>
        e_walletId e = i \<and> e_type e = ty \<and> e_amount e = d_amount dto \<and>
        e_currency e = or_gold (d_currency dto) \<and> e_transactionId e = t_id t)"

lemma dto_sels [simp]:
  "t_idempotencyKey (dto_txn dto ty x y ac i) = d_key dto" "t_id (dto_txn dto ty x y ac i) = i"
  "e_walletId (dto_entry dto et r d ac j k b a) = k" "e_type (dto_entry dto et r d ac j k b a) = et"
  "e_amount (dto_entry dto et r d ac j k b a) = d_amount dto"
  "e_currency (dto_entry dto et r d ac j k b a) = or_gold (d_currency dto)"
  "e_transactionId (dto_entry dto et r d ac j k b a) = j"
  by (simp_all add: dto_txn_def dto_entry_def)

lemma dto_stepI:
  assumes "txns s (d_key dto) = None" "wallets s i = Some w"
    and "\<And>v. w_id (f v) = w_id v \<and> w_userId (f v) = w_userId v"
  shows "dto_step dto et f i s (s\<lparr>
      txns := (txns s)(d_key dto \<mapsto> dto_txn dto ty x y ac (next_id s)), next_id := Suc (next_id s),
      wallets := (wallets s)(i \<mapsto> f w),
      ledger := ledger s @ [dto_entry dto et r d ac (next_id s) i b a], audits := au\<rparr>)"
  unfolding dto_step_def book_step_def
  using assms
  by (intro conjI exI [of _ "dto_txn dto ty x y ac (next_id s)"]
      exI [of _ "dto_entry dto et r d ac (next_id s) i b a"]) (auto simp: fun_upd_at)

lemma body_cases:
  assumes w: "wallets s (w_id w) = Some fw"
  shows "credit_body dto actor w s = (r, s1) \<Longrightarrow>
      (\<exists>e. r = Inl e \<and> s1 = s \<and> (e = P2002 \<longleftrightarrow> w_status fw = ACTIVE \<and> txns s (d_key dto) \<noteq> None)) \<or>
      (\<exists>x. r = Inr x \<and> \<not> x_isDuplicateReplay x \<and> w_status fw = ACTIVE \<and>
         dto_step dto CREDIT (credit_update (d_currency dto) (d_amount dto)) (w_id w) s s1)"
    and "debit_body dto actor w s = (r, s1) \<Longrightarrow>
      (\<exists>e. r = Inl e \<and> s1 = s \<and> (e = P2002 \<longrightarrow> txns s (d_key dto) \<noteq> None)) \<or>
      (\<exists>x. r = Inr x \<and> \<not> x_isDuplicateReplay x \<and> w_status fw = ACTIVE \<and>
         d_amount dto \<le> checked_balance fw (d_currency dto) \<and>
         dto_step dto DEBIT (debit_update (d_currency dto) (d_amount dto)) (w_id w) s s1)"
    and "debit_writes dto actor rsn descr w fw s = (r, s1) \<Longrightarrow>
      (\<exists>e. r = Inl e \<and> s1 = s \<and> (e = P2002 \<longrightarrow> txns s (d_key dto) \<noteq> None)) \<or>
      (\<exists>x. r = Inr x \<and> \<not> x_isDuplicateReplay x \<and>
         dto_step dto DEBIT (debit_update (d_currency dto) (d_amount dto)) (w_id w) s s1)"
  using w
  by (auto simp: credit_body_def debit_body_def debit_writes_def body_defs
      split: if_splits intro!: dto_stepI)

text \<open>The three commits share one shape: a transaction, its event, and the recovery from P2002.\<close>

definition commit_shape ::
  "string \<Rightarrow> (tx_response \<Rightarrow> movement_event) \<Rightarrow> ('z wdb_scheme, tx_response) act \<Rightarrow> ('z wdb_scheme, tx_response) act" where
  "commit_shape key mk m = catchA
     (bindA (transaction m) (\<lambda>r. bindA (publishMovement (mk r)) (\<lambda>_. returnA r)))
     (recoverDuplicate key)"

lemma commits_shape:
  "\<exists>mk. credit_commit dto actor w = commit_shape (d_key dto) mk (credit_body dto actor w)"
  "\<exists>mk. debit_commit dto actor w = commit_shape (d_key dto) mk (debit_body dto actor w)"
  "\<exists>mk. reverse_commit dto actor w = commit_shape (d_key dto) mk
     (bindA (findWallet (w_id w) ''Wallet not found'')
        (\<lambda>f. debit_writes dto actor PURCHASE_REVERSAL ''Purchase reversed'' w f))"
  by (rule exI, simp add: commit_shape_def credit_commit_def debit_commit_def reverse_commit_def)+

lemma commit_shape_cases:
  assumes run: "commit_shape key mk m s = (r, s')" and m: "m s = (r0, s1)"
    and keep: "\<And>e. r0 = Inl e \<Longrightarrow> s1 = s"
  obtains (failed) e where "r = Inl e" "r0 = Inl e" "s' = s"
  | (replayed) t where "r = Inr (formatTransactionResponse t)" "txns s key = Some t"
      "s' = s" "r0 = Inl P2002"
  | (effective) x where "r = Inr x" "r0 = Inr x" "s' = s1\<lparr>bus := bus s1 @ [mk x]\<rparr>"
proof (cases r0)
  case (Inl e)
  then have "s1 = s" by (rule keep)
  then have "commit_shape key mk m s = recoverDuplicate key e s"
    using m Inl by (simp add: commit_shape_def catchA_def bindA_def transaction_def)
  then show thesis
    using that(1,2) run Inl by (auto simp: recoverDuplicate_def split: if_splits option.splits)
next
  case (Inr x)
  then have "commit_shape key mk m s = (Inr x, s1\<lparr>bus := bus s1 @ [mk x]\<rparr>)"
    using m by (simp add: commit_shape_def catchA_def bindA_def transaction_def publishMovement_def returnA_def)
  then show thesis using that(3) run Inr by auto
qed

text \<open>The kinds of single-wallet request, their two phases, and the sign of their effect.\<close>

datatype kind = Crediting | Debiting | Reversing

fun check_of :: "kind \<Rightarrow> wallet_dto \<Rightarrow> ('z wdb_scheme, tx_response + wallet) act" where
  "check_of Crediting dto = credit_check dto"
| "check_of Debiting dto = debit_check dto"
| "check_of Reversing dto = reverse_check dto"

fun commit_of :: "kind \<Rightarrow> wallet_dto \<Rightarrow> uid option \<Rightarrow> wallet \<Rightarrow> ('z wdb_scheme, tx_response) act" where
  "commit_of Crediting dto actor w = credit_commit dto actor w"
| "commit_of Debiting dto actor w = debit_commit dto actor w"
| "commit_of Reversing dto actor w = reverse_commit dto actor w"

fun request_of :: "kind \<Rightarrow> wallet_dto \<Rightarrow> uid option \<Rightarrow> ('z wdb_scheme, tx_response) act" where
  "request_of Crediting dto actor = creditWallet dto actor"
| "request_of Debiting dto actor = debitWallet dto actor"
| "request_of Reversing dto actor = reverseWallet dto actor"

definition direction :: "kind \<Rightarrow> entry_type" where
  "direction k = (if k = Crediting then CREDIT else DEBIT)"

definition update_of :: "kind \<Rightarrow> wallet_dto \<Rightarrow> wallet \<Rightarrow> wallet" where
  "update_of k dto = (if k = Crediting then credit_update (d_currency dto) (d_amount dto)
                      else debit_update (d_currency dto) (d_amount dto))"

lemma request_phases:
  "request_of k dto actor = bindA (check_of k dto)
     (\<lambda>x. case x of Inl r \<Rightarrow> returnA r | Inr w \<Rightarrow> commit_of k dto actor w)"
  by (induction k) (simp_all add: creditWallet_def debitWallet_def reverseWallet_def cong: sum.case_cong)

lemma update_of_sel [simp]:
  "w_id (update_of k dto w) = w_id w" "w_userId (update_of k dto w) = w_userId w"
  "balance_of c (update_of k dto w) =
     balance_of c w + (if column (d_currency dto) c then delta (direction k) (d_amount dto) else 0)"
  by (simp_all add: update_of_def direction_def delta_def)

lemma findWallet_eq: "wallets s i = Some w \<Longrightarrow> findWallet i msg s = (Inr w, s)"
  by (simp add: findWallet_def)

text \<open>What the commit phase of a request does to the database, in every case.\<close>

lemma commit_cases:
  assumes w: "wallets s (w_id w) = Some fw" and run: "commit_of k dto actor w s = (r, s')"
  obtains (failed) e where "r = Inl e" "s' = s"
  | (replayed) t where "r = Inr (formatTransactionResponse t)" "txns s (d_key dto) = Some t" "s' = s"
  | (effective) x s1 ev where "r = Inr x" "\<not> x_isDuplicateReplay x" "s' = s1\<lparr>bus := bus s1 @ [ev]\<rparr>"
      "dto_step dto (direction k) (update_of k dto) (w_id w) s s1"
      "k = Debiting \<longrightarrow> d_amount dto \<le> checked_balance fw (d_currency dto)"
      "k \<noteq> Reversing \<longrightarrow> w_status fw = ACTIVE"
proof (cases k)
  case Crediting
  obtain mk where mk: "credit_commit dto actor w s = commit_shape (d_key dto) mk (credit_body dto actor w) s"
    using commits_shape(1) [of dto actor w] by metis
  obtain r0 s1 where m: "credit_body dto actor w s = (r0, s1)" by fastforce
  note body = body_cases(1) [OF w m]
  have "commit_shape (d_key dto) mk (credit_body dto actor w) s = (r, s')" using run Crediting mk by simp
  from this m show thesis
    by (cases rule: commit_shape_cases)
      (use body that Crediting in \<open>auto simp: direction_def update_of_def\<close>)
next
  case Debiting
  obtain mk where mk: "debit_commit dto actor w s = commit_shape (d_key dto) mk (debit_body dto actor w) s"
    using commits_shape(2) [of dto actor w] by metis
  obtain r0 s1 where m: "debit_body dto actor w s = (r0, s1)" by fastforce
  note body = body_cases(2) [OF w m]
  have "commit_shape (d_key dto) mk (debit_body dto actor w) s = (r, s')" using run Debiting mk by simp
  from this m show thesis
    by (cases rule: commit_shape_cases)
      (use body that Debiting in \<open>auto simp: direction_def update_of_def\<close>)
next
  case Reversing
  let ?m = "debit_writes dto actor PURCHASE_REVERSAL ''Purchase reversed'' w fw"
  obtain mk where mk: "reverse_commit dto actor w s = commit_shape (d_key dto) mk
     (bindA (findWallet (w_id w) ''Wallet not found'')
        (\<lambda>f. debit_writes dto actor PURCHASE_REVERSAL ''Purchase reversed'' w f)) s"
    using commits_shape(3) [of dto actor w] by metis
  obtain r0 s1 where m: "?m s = (r0, s1)" by fastforce
  have m': "bindA (findWallet (w_id w) ''Wallet not found'')
        (\<lambda>f. debit_writes dto actor PURCHASE_REVERSAL ''Purchase reversed'' w f) s = (r0, s1)"
    using m w by (simp add: bindA_def findWallet_eq)
  note body = body_cases(3) [OF w m]
  have "commit_shape (d_key dto) mk (bindA (findWallet (w_id w) ''Wallet not found'')
        (\<lambda>f. debit_writes dto actor PURCHASE_REVERSAL ''Purchase reversed'' w f)) s = (r, s')"
    using run Reversing mk by simp
  from this m' show thesis
    by (cases rule: commit_shape_cases)
      (use body that Reversing in \<open>auto simp: direction_def update_of_def\<close>)
qed

text \<open>What an effective commit means for balances, keys, ledger and books.\<close>

lemma dto_step_effect:
  assumes wf: "wf_db s" and d: "dto_step dto (direction k) (update_of k dto) i s s1"
    and fw: "wallets s i = Some fw"
  shows "wf_db s1"
    and "user_balance s1 u c = user_balance s u c +
      (if u = w_userId fw \<and> column (d_currency dto) c then delta (direction k) (d_amount dto) else 0)"
    and "txns s (d_key dto) = None" "dom (txns s1) = insert (d_key dto) (dom (txns s))"
    and "length (ledger s1) = Suc (length (ledger s))" "wallet_of s1 = wallet_of s"
    and "books s \<Longrightarrow> column (d_currency dto) c' \<Longrightarrow> books s1"
    and "wdb.more s1 = wdb.more s"
proof -
  let ?amt = "\<lambda>c. if column (d_currency dto) c then delta (direction k) (d_amount dto) else 0"
  obtain t e where t: "txns s (d_key dto) = None" "t_idempotencyKey t = d_key dto"
    and b: "book_step (at_row i (update_of k dto)) t [e] s s1"
    and e: "e_walletId e = i" "e_type e = direction k" "e_amount e = d_amount dto"
      "e_currency e = or_gold (d_currency dto)"
    using d by (auto simp: dto_step_def)
  show "wf_db s1" by (rule book_step_wf [OF wf b])
  show "user_balance s1 u c = user_balance s u c +
      (if u = w_userId fw \<and> column (d_currency dto) c then delta (direction k) (d_amount dto) else 0)"
    using book_step_at_balance [OF b wf fw, of ?amt u c] by simp
  show "txns s (d_key dto) = None" "dom (txns s1) = insert (d_key dto) (dom (txns s))"
    "length (ledger s1) = Suc (length (ledger s))" "wallet_of s1 = wallet_of s"
    "wdb.more s1 = wdb.more s"
    using t b by (auto simp: book_step_def)
  have sg: "signed e = delta (direction k) (d_amount dto)"
    using e by (cases k) (simp_all add: signed_def direction_def delta_def)
  assume "books s" and col: "column (d_currency dto) c'"
  then have "column (d_currency dto) c = (or_gold (d_currency dto) = c)" for c
    by (auto simp: column_def or_gold_def)
  then show "books s1"
    using e sg by (intro book_step_books [OF b \<open>books s\<close>]) (simp add: at_row_def ledger_net_def)
qed

lemma dto_step_solvent:
  assumes wf: "wf_db s" and d: "dto_step dto (direction k) (update_of k dto) i s s1"
    and fw: "wallets s i = Some fw" and sol: "solvent s" and pos: "0 < d_amount dto"
    and cov: "k \<noteq> Crediting \<Longrightarrow> d_amount dto \<le> checked_balance fw (d_currency dto)"
  shows "solvent s1"
proof -
  obtain t e where b: "book_step (at_row i (update_of k dto)) t [e] s s1"
    using d by (auto simp: dto_step_def)
  have "0 \<le> balance_of c (update_of k dto fw)" for c
  proof (cases "k = Crediting")
    case True
    then show ?thesis using sol fw pos by (auto simp: solvent_def delta_def direction_def)
  next
    case False
    have "column (d_currency dto) c \<Longrightarrow> checked_balance fw (d_currency dto) = balance_of c fw"
      by (cases c) (auto simp: column_def checked_balance_def)
    then show ?thesis using False sol fw cov by (auto simp: solvent_def delta_def direction_def)
  qed
  then show ?thesis
    using b sol fw by (auto simp: solvent_def book_step_def at_row_def)
qed

end
