(* ===== verification/WalletRace.thy ===== *)
theory WalletRace
  imports WalletTransactionLaws "HOL-Library.Multiset"
begin

text \<open>
  Requests that run at the same time. Each \<open>creditWallet\<close>, \<open>debitWallet\<close> or \<open>reverseWallet\<close> call is
  two database round trips, its check phase and its commit phase; a schedule says whose phase
  runs next. The theorems hold for every schedule: which requests take effect is decided under
  the row lock and by the unique idempotency key, not by the check phase.
\<close>

section \<open>Schedules\<close>

record request =
  q_kind :: kind
  q_dto :: wallet_dto
  q_actor :: "uid option"

datatype phase = Start | Checked wallet | Finished "err + tx_response"

fun phase_step :: "request \<Rightarrow> phase \<Rightarrow> ('z wdb_scheme) \<Rightarrow> phase \<times> ('z wdb_scheme)" where
  "phase_step q Start s =
     (case check_of (q_kind q) (q_dto q) s of
        (Inl e, s') \<Rightarrow> (Finished (Inl e), s')
      | (Inr (Inl r), s') \<Rightarrow> (Finished (Inr r), s')
      | (Inr (Inr w), s') \<Rightarrow> (Checked w, s'))"
| "phase_step q (Checked w) s =
     (case commit_of (q_kind q) (q_dto q) (q_actor q) w s of (r, s') \<Rightarrow> (Finished r, s'))"
| "phase_step q (Finished r) s = (Finished r, s)"

type_synonym 's race = "(request \<times> phase) list \<times> 's"

definition race_step :: "nat \<Rightarrow> ('z wdb_scheme) race \<Rightarrow> ('z wdb_scheme) race" where
  "race_step i c =
     (if i < length (fst c)
      then (case fst c ! i of (q, p) \<Rightarrow>
             (case phase_step q p (snd c) of (p', s') \<Rightarrow> ((fst c)[i := (q, p')], s')))
      else c)"

fun run_race :: "nat list \<Rightarrow> ('z wdb_scheme) race \<Rightarrow> ('z wdb_scheme) race" where
  "run_race [] c = c"
| "run_race (i # is) c = run_race is (race_step i c)"

definition race_start :: "request list \<Rightarrow> ('z wdb_scheme) \<Rightarrow> ('z wdb_scheme) race" where
  "race_start qs s = (map (\<lambda>q. (q, Start)) qs, s)"

text \<open>A request alone is the sequential operation.\<close>

lemma run_alone:
  "run_race [0, 0] (race_start [q] s) =
     (case request_of (q_kind q) (q_dto q) (q_actor q) s of (r, s') \<Rightarrow> ([(q, Finished r)], s'))"
  by (auto simp: race_start_def race_step_def request_phases bindA_def returnA_def
      split: prod.split sum.split)

section \<open>What took effect\<close>

fun effective :: "phase \<Rightarrow> bool" where
  "effective (Finished (Inr r)) = (\<not> x_isDuplicateReplay r)"
| "effective _ = False"

definition effects :: "(request \<times> phase) list \<Rightarrow> request list" where
  "effects ps = map fst (filter (\<lambda>(q, p). effective p) ps)"

definition effect_on :: "uid \<Rightarrow> currency \<Rightarrow> request \<Rightarrow> int" where
  "effect_on u c q =
     (if d_userId (q_dto q) = u \<and> column (d_currency (q_dto q)) c
      then delta (direction (q_kind q)) (d_amount (q_dto q)) else 0)"

definition keys_of :: "request list \<Rightarrow> string list" where
  "keys_of qs = map (\<lambda>q. d_key (q_dto q)) qs"

lemma effects_Cons [simp]:
  "effects [] = []"
  "effects ((q, p) # ps) = (if effective p then [q] else []) @ effects ps"
  by (simp_all add: effects_def)

lemma effects_append: "effects (xs @ ys) = effects xs @ effects ys"
  by (simp add: effects_def)

lemma effects_update:
  assumes "i < length ps" "ps ! i = (q, p)" "\<not> effective p"
  shows "mset (effects (ps[i := (q, p')])) =
    mset (effects ps) + (if effective p' then {#q#} else {#})"
proof -
  obtain xs ys where ps: "ps = xs @ (q, p) # ys" and i: "length xs = i"
    using id_take_nth_drop [OF assms(1)] assms(1,2) by (metis length_take min.absorb4)
  have "ps[i := (q, p')] = xs @ (q, p') # ys" unfolding ps i [symmetric] by simp
  then show ?thesis using assms(3) by (simp add: ps effects_append)
qed

lemma perm_facts:
  assumes "mset xs = mset ys"
  shows "distinct (keys_of xs) = distinct (keys_of ys)" "set (keys_of xs) = set (keys_of ys)"
    "sum_list (map f xs) = (sum_list (map f ys) :: int)" "length xs = length ys"
proof -
  have m: "mset (keys_of xs) = mset (keys_of ys)" using assms by (simp add: keys_of_def)
  show "distinct (keys_of xs) = distinct (keys_of ys)" by (rule mset_eq_imp_distinct_iff [OF m])
  show "set (keys_of xs) = set (keys_of ys)" by (rule mset_eq_setD [OF m])
  have "mset (map f xs) = mset (map f ys)" using assms by simp
  then show "sum_list (map f xs) = sum_list (map f ys)" by (metis sum_mset_sum_list)
  show "length xs = length ys" by (rule mset_eq_length [OF assms])
qed

section \<open>The invariant of every schedule\<close>

text \<open>
  \<open>s0\<close> is the state the schedule started in. The effective requests have pairwise different
  fresh keys, the balances moved by exactly their sum, and the ledger grew by one entry each.
\<close>

definition checked_row :: "('z wdb_scheme) \<Rightarrow> request \<Rightarrow> phase \<Rightarrow> bool" where
  "checked_row s q p \<longleftrightarrow> (\<forall>w. p = Checked w \<longrightarrow>
     (\<exists>fw. wallets s (w_id w) = Some fw \<and> w_userId fw = d_userId (q_dto q)) \<and> 0 < d_amount (q_dto q))"

lemma checked_row_simps [simp]:
  "checked_row s q Start" "checked_row s q (Finished r)"
  "checked_row s q (Checked w) \<longleftrightarrow>
     (\<exists>fw. wallets s (w_id w) = Some fw \<and> w_userId fw = d_userId (q_dto q)) \<and> 0 < d_amount (q_dto q)"
  by (auto simp: checked_row_def)

definition checked_rows :: "('z wdb_scheme) \<Rightarrow> (request \<times> phase) list \<Rightarrow> bool" where
  "checked_rows s ps \<longleftrightarrow> (\<forall>x \<in> set ps. checked_row s (fst x) (snd x))"

definition race_inv :: "('z wdb_scheme) \<Rightarrow> ('z wdb_scheme) race \<Rightarrow> bool" where
  "race_inv s0 c \<longleftrightarrow>
     (let ps = fst c; s = snd c in
      wf_db s \<and>
      checked_rows s ps \<and>
      distinct (keys_of (effects ps)) \<and> set (keys_of (effects ps)) \<inter> dom (txns s0) = {} \<and>
      dom (txns s) = dom (txns s0) \<union> set (keys_of (effects ps)) \<and>
      (\<forall>u c. user_balance s u c = user_balance s0 u c + sum_list (map (effect_on u c) (effects ps))) \<and>
      length (ledger s) = length (ledger s0) + length (effects ps))"

definition rows_stay :: "('z wdb_scheme) \<Rightarrow> ('z wdb_scheme) \<Rightarrow> bool" where
  "rows_stay s s' \<longleftrightarrow> (\<forall>i w. wallets s i = Some w \<longrightarrow>
     (\<exists>w'. wallets s' i = Some w' \<and> w_userId w' = w_userId w))"

lemma checked_rows_update:
  assumes rows: "checked_rows s ps" and st: "rows_stay s s'" and new: "checked_row s' q p'"
  shows "checked_rows s' (ps[i := (q, p')])"
  unfolding checked_rows_def
proof
  fix x assume "x \<in> set (ps[i := (q, p')])"
  then have "x = (q, p') \<or> x \<in> set ps" using set_update_subset_insert by fastforce
  moreover have "checked_row s' (fst x) (snd x)" if mem: "x \<in> set ps"
    unfolding checked_row_def
  proof (intro allI impI)
    fix w assume "snd x = Checked w"
    then obtain fw where "wallets s (w_id w) = Some fw" "w_userId fw = d_userId (q_dto (fst x))"
      "0 < d_amount (q_dto (fst x))" using rows mem unfolding checked_rows_def checked_row_def by blast
    then show "(\<exists>fw. wallets s' (w_id w) = Some fw \<and> w_userId fw = d_userId (q_dto (fst x))) \<and>
        0 < d_amount (q_dto (fst x))"
      using st by (metis rows_stay_def)
  qed
  ultimately show "checked_row s' (fst x) (snd x)" using new by auto
qed

lemma rows_stay_index: "wf_db s \<Longrightarrow> wf_db s' \<Longrightarrow> wallet_of s \<subseteq>\<^sub>m wallet_of s' \<Longrightarrow> rows_stay s s'"
  unfolding rows_stay_def map_le_def
  by (metis domI wf_index wf_wallet_of)

text \<open>Rows keep their columns, and a new row is empty.\<close>

definition rows_kept :: "('z wdb_scheme) \<Rightarrow> ('z wdb_scheme) \<Rightarrow> bool" where
  "rows_kept s s' \<longleftrightarrow> ledger s' = ledger s \<and> wallets s \<subseteq>\<^sub>m wallets s' \<and>
     (\<forall>i w. wallets s' i = Some w \<longrightarrow> wallets s i = Some w \<or> next_id s \<le> i \<and> (\<exists>u ty. w = empty_wallet i u ty))"

lemma rows_kept_refl [simp, intro]: "rows_kept s s"
  by (simp add: rows_kept_def)

lemma rows_kept_ensured: "wf_db s \<Longrightarrow> rows_kept s ((ensured s u)\<lparr>audits := a\<rparr>)"
  using wf_fresh_id [of s] by (auto simp: rows_kept_def ensured_def map_le_def)

lemma check_rows:
  assumes wf: "wf_db s" and run: "check_of k dto s = (r, s')"
  shows "rows_kept s s'"
proof -
  obtain w a where g: "getOrCreateWallet (d_userId dto) USER_WALLET s =
      (Inr w, (ensured s (d_userId dto))\<lparr>audits := a\<rparr>)"
    using getOrCreateWallet_eq [OF wf] by blast
  obtain v where v: "validateEconomyStatus s = (v, s)"
    using validateEconomyStatus_state [of s] by (metis prod.collapse)
  have "s' = s \<or> s' = (ensured s (d_userId dto))\<lparr>audits := a\<rparr>"
    using run v g
    by (cases k; cases v; cases "txns s (d_key dto)")
      (auto simp: credit_check_def debit_check_def reverse_check_def check_defs split: if_splits)
  then show ?thesis using rows_kept_ensured [OF wf] by auto
qed

text \<open>One phase either changes no money or is the effect of its request under a fresh key.\<close>

lemma phase_step_cases:
  assumes wf: "wf_db s" and run: "phase_step q p s = (p', s')" and ne: "\<not> effective p"
    and cw: "checked_row s q p"
  obtains (quiet) "same_money s s'" "rows_stay s s'" "\<not> effective p'" "checked_row s' q p'" "rows_kept s s'"
  | (effect) w fw s1 ev where "p = Checked w" "effective p'" "\<And>w. p' \<noteq> Checked w" "s' = s1\<lparr>bus := ev\<rparr>"
      "dto_step (q_dto q) (direction (q_kind q)) (update_of (q_kind q) (q_dto q)) (w_id w) s s1"
      "wallets s (w_id w) = Some fw" "w_userId fw = d_userId (q_dto q)" "0 < d_amount (q_dto q)"
      "q_kind q = Debiting \<longrightarrow> d_amount (q_dto q) \<le> checked_balance fw (d_currency (q_dto q))"
proof (cases p)
  case Start
  obtain r s1 where c: "check_of (q_kind q) (q_dto q) s = (r, s1)" by fastforce
  then have "\<exists>m \<in> {credit_check (q_dto q), debit_check (q_dto q), reverse_check (q_dto q)}. m s = (r, s1)"
    by (cases "q_kind q") auto
  then obtain m where m: "m \<in> {credit_check (q_dto q), debit_check (q_dto q), reverse_check (q_dto q)}"
    "m s = (r, s1)" by blast
  have kept: "rows_kept s s'" using check_rows [OF wf c] run c Start by (auto split: sum.splits)
  from wf m show thesis
  proof (cases rule: check_cases)
    case (fail e)
    then show thesis using quiet kept run c Start rows_stay_index [OF wf, of s1] wf
      by (auto simp: same_money_def)
  next
    case (old t)
    then show thesis using quiet kept run c Start rows_stay_index [OF wf wf]
      by (auto simp: formatTransactionResponse_def)
  next
    case (go w)
    then show thesis using quiet kept run c Start rows_stay_index [OF wf, of s1] wf
      by (auto simp: same_money_def proceeds_def)
  qed
next
  case (Checked w)
  obtain fw where fw: "wallets s (w_id w) = Some fw" "w_userId fw = d_userId (q_dto q)"
    "0 < d_amount (q_dto q)" using cw Checked by (auto simp: checked_row_def)
  obtain r s1 where c: "commit_of (q_kind q) (q_dto q) (q_actor q) w s = (r, s1)" by fastforce
  have p': "p' = Finished r" "s' = s1" using run Checked c by auto
  from fw(1) c show thesis
  proof (cases rule: commit_cases)
    case (failed e)
    then show thesis using quiet p' rows_stay_index [OF wf wf] by auto
  next
    case (replayed t)
    then show thesis using quiet p' rows_stay_index [OF wf wf]
      by (auto simp: formatTransactionResponse_def)
  next
    case (effective x s2 ev)
    then show thesis using that(2) [of w _ _ fw] p' fw Checked by auto
  qed
next
  case (Finished r)
  then show thesis using quiet run ne rows_stay_index [OF wf wf] by auto
qed

lemma race_inv_start: "wf_db s \<Longrightarrow> race_inv s (race_start qs s)"
proof -
  assume "wf_db s"
  moreover have "effects (map (\<lambda>q. (q, Start)) qs) = []" by (induction qs) simp_all
  ultimately show ?thesis by (auto simp: race_inv_def race_start_def keys_of_def checked_rows_def)
qed

lemma race_step_parts:
  assumes inv: "race_inv s0 c" and i: "i < length (fst c)"
  obtains ps s q p p' s' where "c = (ps, s)" "ps ! i = (q, p)" "phase_step q p s = (p', s')"
    "race_step i c = (ps[i := (q, p')], s')" "(q, p) \<in> set ps" "checked_row s q p"
proof -
  obtain ps s where c: "c = (ps, s)" by fastforce
  obtain q p where q: "ps ! i = (q, p)" by fastforce
  obtain p' s' where step: "phase_step q p s = (p', s')" by fastforce
  have mem: "(q, p) \<in> set ps" using i c q by (metis fst_conv nth_mem)
  then have "checked_row s q p"
    using inv c by (auto simp: race_inv_def checked_rows_def Let_def)
  with c q step mem i show thesis using that by (simp add: race_step_def)
qed

lemma race_inv_step:
  assumes inv: "race_inv s0 c"
  shows "race_inv s0 (race_step i c)"
proof (cases "i < length (fst c)")
  case True
  with inv obtain ps s q p p' s' where c: "c = (ps, s)" and q: "ps ! i = (q, p)"
    and step: "phase_step q p s = (p', s')" and next_state: "race_step i c = (ps[i := (q, p')], s')"
    and mem: "(q, p) \<in> set ps" and cw: "checked_row s q p" by (rule race_step_parts)
  note I = inv [unfolded race_inv_def c Let_def fst_conv snd_conv]
  show ?thesis
  proof (cases "effective p")
    case True
    then have "p' = p" "s' = s" using step by (cases p; auto)+
    then show ?thesis using inv next_state q c by (metis list_update_id)
  next
    case False
    have wf: "wf_db s" using I by blast
    from wf step False cw show ?thesis
    proof (cases rule: phase_step_cases)
      case quiet
      then have m: "mset (effects (ps[i := (q, p')])) = mset (effects ps)"
        using effects_update [of i ps q p p'] True c q False quiet(3) by simp
      note P = perm_facts [OF m]
      have "checked_rows s' (ps[i := (q, p')])" using checked_rows_update I quiet(2,4) by blast
      then show ?thesis
        using quiet(1) I P unfolding race_inv_def next_state Let_def fst_conv snd_conv
        by (simp add: same_money_def)
    next
      case (effect w fw s1 ev)
      have m: "mset (effects (ps[i := (q, p')])) = mset (q # effects ps)"
        using effects_update [of i ps q p p'] True c q False effect by simp
      note P = perm_facts [OF m]
      note E = dto_step_effect [OF wf effect(5,6)]
      have stay: "rows_stay s s'"
        using rows_stay_index [OF wf E(1)] E(6) effect(4) by (simp add: rows_stay_def)
      have "checked_rows s' (ps[i := (q, p')])"
        using checked_rows_update [OF _ stay] I effect(3) by (auto simp: checked_row_def)
      moreover have "d_key (q_dto q) \<notin> dom (txns s)" using E(3) by auto
      moreover have "user_balance s1 u d = user_balance s u d + effect_on u d q" for u d
        using E(2) [of u d] effect(7) by (auto simp: effect_on_def)
      ultimately show ?thesis
        using I P E(1,4,5) effect(4) unfolding race_inv_def next_state Let_def fst_conv snd_conv
        by (simp add: keys_of_def insert_Diff_if)
    qed
  qed
next
  case False
  then show ?thesis using inv by (simp add: race_step_def)
qed

lemma race_inv_run: "race_inv s0 c \<Longrightarrow> race_inv s0 (run_race is c)"
  by (induction "is" arbitrary: c) (simp_all add: race_inv_step)

text \<open>The same step, seen by the books.\<close>

lemma race_step_money:
  assumes inv: "race_inv s0 c"
  obtains (quiet) "same_money (snd c) (snd (race_step i c))" "rows_kept (snd c) (snd (race_step i c))"
      "mset (effects (fst (race_step i c))) = mset (effects (fst c))"
  | (effect) q p s1 ev j fw where "mset (effects (fst (race_step i c))) = add_mset q (mset (effects (fst c)))"
      "w_userId fw = d_userId (q_dto q)" "(q, p) \<in> set (fst c)" "snd (race_step i c) = s1\<lparr>bus := ev\<rparr>"
      "dto_step (q_dto q) (direction (q_kind q)) (update_of (q_kind q) (q_dto q)) j (snd c) s1"
      "wallets (snd c) j = Some fw" "0 < d_amount (q_dto q)"
      "q_kind q = Debiting \<longrightarrow> d_amount (q_dto q) \<le> checked_balance fw (d_currency (q_dto q))"
proof (cases "i < length (fst c)")
  case True
  with inv obtain ps s q p p' s' where c: "c = (ps, s)" and q: "ps ! i = (q, p)"
    and step: "phase_step q p s = (p', s')" and next_state: "race_step i c = (ps[i := (q, p')], s')"
    and mem: "(q, p) \<in> set ps" and cw: "checked_row s q p" by (rule race_step_parts)
  note I = inv [unfolded race_inv_def c Let_def fst_conv snd_conv]
  have wf: "wf_db s" using I by blast
  show thesis
  proof (cases "effective p")
    case True
    then have "p' = p" "s' = s" using step by (cases p; auto)+
    then have "race_step i c = c" using next_state c q by (metis list_update_id)
    then show thesis using that(1) by simp
  next
    case False
    from wf step False cw show thesis
    proof (cases rule: phase_step_cases)
      case quiet
      then have "mset (effects (ps[i := (q, p')])) = mset (effects ps)"
        using effects_update [of i ps q p p'] True c q False quiet(3) by simp
      then show thesis using that(1) next_state c quiet by simp
    next
      case (effect w fw s1 ev)
      then have "mset (effects (ps[i := (q, p')])) = add_mset q (mset (effects ps))"
        using effects_update [of i ps q p p'] \<open>i < length (fst c)\<close> c q False by simp
      then show thesis using effect that(2) [of q fw p ev s1 "w_id w"] mem next_state c by auto
    qed
  qed
next
  case False
  then show thesis using that(1) by (simp add: race_step_def)
qed

lemma race_requests: "map fst (fst (run_race is c)) = map fst (fst c)"
proof (induction "is" arbitrary: c)
  case (Cons i "is")
  have "map fst (fst (race_step i c)) = map fst (fst c)"
    by (auto simp: race_step_def map_update split: prod.splits) (metis fst_conv list_update_id nth_map)
  with Cons show ?case by simp
qed simp

lemma race_requests_start: "run_race is (race_start qs s) = (ps, s') \<Longrightarrow> map fst ps = qs"
  using race_requests [of "is" "race_start qs s"] by (simp add: race_start_def o_def)

lemma race_money:
  assumes "race_inv s0 c" "run_race is c = (ps, s')"
  shows "solvent (snd c) \<Longrightarrow> (\<And>q. q \<in> set (map fst (fst c)) \<Longrightarrow> q_kind q \<noteq> Reversing) \<Longrightarrow> solvent s'"
    and "books (snd c) \<Longrightarrow> (\<And>q. q \<in> set (map fst (fst c)) \<Longrightarrow> \<exists>d. column (d_currency (q_dto q)) d) \<Longrightarrow> books s'"
proof -
  have "(solvent (snd c) \<longrightarrow> (\<forall>q \<in> set (map fst (fst c)). q_kind q \<noteq> Reversing) \<longrightarrow> solvent s') \<and>
    (books (snd c) \<longrightarrow> (\<forall>q \<in> set (map fst (fst c)). \<exists>d. column (d_currency (q_dto q)) d) \<longrightarrow> books s')"
    using assms
  proof (induction "is" arbitrary: c)
    case (Cons i "is")
    have fsts: "map fst (fst (race_step i c)) = map fst (fst c)"
      using race_requests [of "[i]" c] by simp
    have wf: "wf_db (snd c)" using Cons.prems(1) by (simp add: race_inv_def Let_def)
    have "(solvent (snd c) \<longrightarrow> (\<forall>q \<in> set (map fst (fst c)). q_kind q \<noteq> Reversing) \<longrightarrow>
        solvent (snd (race_step i c))) \<and>
      (books (snd c) \<longrightarrow> (\<forall>q \<in> set (map fst (fst c)). \<exists>d. column (d_currency (q_dto q)) d) \<longrightarrow>
        books (snd (race_step i c)))"
      using Cons.prems(1)
    proof (cases rule: race_step_money [of s0 c i])
      case quiet
      then show ?thesis by (simp add: same_money_def)
    next
      case (effect q fw p s1 ev j)
      have mem: "q \<in> set (map fst (fst c))" using effect(3) by force
      show ?thesis
        using dto_step_effect(7) [OF wf effect(5,6)] dto_step_solvent [OF wf effect(5,6) _ effect(7)]
          effect(4,8) mem by (cases "q_kind q") (auto simp del: set_map)
    qed
    moreover have "run_race is (race_step i c) = (ps, s')" using Cons.prems(2) by simp
    note Cons.IH [OF race_inv_step [OF Cons.prems(1)] this, unfolded fsts]
    ultimately show ?case by argo
  qed simp
  then show "solvent (snd c) \<Longrightarrow> (\<And>q. q \<in> set (map fst (fst c)) \<Longrightarrow> q_kind q \<noteq> Reversing) \<Longrightarrow> solvent s'"
    "books (snd c) \<Longrightarrow> (\<And>q. q \<in> set (map fst (fst c)) \<Longrightarrow> \<exists>d. column (d_currency (q_dto q)) d) \<Longrightarrow> books s'"
    by blast+
qed

section \<open>Books with a correction, and the split of the gold\<close>

text \<open>
  A request in FREE, in EARNINGS or in no currency writes a ledger entry and changes no column: \<open>unbooked\<close>
  is what it puts in the ledger alone. \<open>books_but D\<close>: the ledger is ahead of the columns by exactly \<open>D\<close>.
\<close>

definition unbooked :: "uid \<Rightarrow> currency \<Rightarrow> request \<Rightarrow> int" where
  "unbooked u c q =
     (if d_userId (q_dto q) = u \<and> or_gold (d_currency (q_dto q)) = c \<and> \<not> column (d_currency (q_dto q)) c
      then delta (direction (q_kind q)) (d_amount (q_dto q)) else 0)"

definition books_but :: "(uid \<Rightarrow> currency \<Rightarrow> int) \<Rightarrow> ('z wdb_scheme) \<Rightarrow> bool" where
  "books_but D s \<longleftrightarrow>
     (\<forall>i w c. wallets s i = Some w \<longrightarrow> ledger_net (ledger s) i c = balance_of c w + D (w_userId w) c) \<and>
     (\<forall>u c. wallet_of s u = None \<longrightarrow> D u c = 0)"

lemma books_but_0: "books s \<Longrightarrow> books_but (\<lambda>u c. 0) s"
  by (simp add: books_def books_but_def)

lemma books_but_kept:
  assumes wf: "wf_db s" "wf_db s'" and kept: "rows_kept s s'" and b: "books_but D s"
  shows "books_but D s'"
proof -
  have no: "wallet_of s u = None" if "wallets s' i = Some w" "wallets s i = None" "w_userId w = u" for i w u
  proof (rule ccontr)
    assume "wallet_of s u \<noteq> None"
    then obtain k v where k: "wallets s k = Some v" "w_userId v = u" using wf_index [OF wf(1), of u] by auto
    then have "wallets s' k = Some v" using kept by (auto simp: rows_kept_def map_le_def dom_def)
    then have "k = i" using wf_wallet_of [OF wf(2)] that(1,3) k(2) by (metis option.inject)
    then show False using k that(2) by simp
  qed
  have "ledger_net (ledger s') i c = balance_of c w + D (w_userId w) c" if w: "wallets s' i = Some w" for i w c
  proof (cases "wallets s i = None")
    case False
    then have "wallets s i = Some w" using kept w by (auto simp: rows_kept_def map_le_def dom_def)
    then show ?thesis using b kept by (simp add: books_but_def rows_kept_def)
  next
    case True
    have new: "next_id s \<le> i" "\<exists>u ty. w = empty_wallet i u ty"
      using kept w True unfolding rows_kept_def by (metis option.distinct(1))+
    have "ledger_net (ledger s) i c = 0" using wf_entry [OF wf(1)] new(1) by (intro ledger_net_none) fastforce
    moreover have "D (w_userId w) c = 0" using no [OF w True refl] b by (simp add: books_but_def)
    moreover have "balance_of c w = 0" using new(2) by auto
    ultimately show ?thesis using kept by (simp add: rows_kept_def)
  qed
  moreover have "wallet_of s u = None" if none: "wallet_of s' u = None" for u
  proof (rule ccontr)
    assume "wallet_of s u \<noteq> None"
    then obtain k v where "wallets s k = Some v" "w_userId v = u" using wf_index [OF wf(1), of u] by auto
    then have "wallets s' k = Some v" using kept by (auto simp: rows_kept_def map_le_def dom_def)
    then show False using wf_wallet_of [OF wf(2)] none \<open>w_userId v = u\<close> by fastforce
  qed
  ultimately show ?thesis using b by (simp add: books_but_def)
qed

lemma books_but_effect:
  assumes wf: "wf_db s" and d: "dto_step (q_dto q) (direction (q_kind q)) (update_of (q_kind q) (q_dto q)) i s s1"
    and fw: "wallets s i = Some fw" "w_userId fw = d_userId (q_dto q)" and b: "books_but D s"
  shows "books_but (\<lambda>u c. D u c + unbooked u c q) s1"
proof -
  obtain t e where st: "book_step (at_row i (update_of (q_kind q) (q_dto q))) t [e] s s1"
    and e: "e_walletId e = i" "e_type e = direction (q_kind q)" "e_amount e = d_amount (q_dto q)"
      "e_currency e = or_gold (d_currency (q_dto q))"
    using d by (auto simp: dto_step_def)
  have sg: "signed e = delta (direction (q_kind q)) (d_amount (q_dto q))"
    using e by (cases "q_kind q") (simp_all add: signed_def direction_def delta_def)
  have t: "wallets s1 = (\<lambda>k. map_option (at_row i (update_of (q_kind q) (q_dto q)) k) (wallets s k))"
    "ledger s1 = ledger s @ [e]" "wallet_of s1 = wallet_of s" using st by (simp_all add: book_step_def)
  have idx: "wallet_of s (d_userId (q_dto q)) = Some i" using wf_wallet_of [OF wf fw(1)] fw(2) by simp
  have "ledger_net (ledger s1) k c = balance_of c w + (D (w_userId w) c + unbooked (w_userId w) c q)"
    if w: "wallets s1 k = Some w" for k w c
  proof -
    obtain v where v: "wallets s k = Some v" "w = at_row i (update_of (q_kind q) (q_dto q)) k v" using w t(1) by auto
    have n: "ledger_net (ledger s) k c = balance_of c v + D (w_userId v) c" using b v(1) by (simp add: books_but_def)
    show ?thesis
    proof (cases "k = i")
      case True
      then have "v = fw" "w_userId w = d_userId (q_dto q)" "w_userId v = w_userId w"
        using v fw by (auto simp: at_row_def)
      then show ?thesis using n True v e sg t(2) fw
        by (auto simp: at_row_def unbooked_def column_def or_gold_def split: option.splits)
    next
      case False
      then have "w = v" "w_userId v \<noteq> d_userId (q_dto q)" using v wf_wallet_of [OF wf v(1)] idx by (auto simp: at_row_def)
      then show ?thesis using n False e t(2) by (auto simp: unbooked_def)
    qed
  qed
  moreover have "D u c + unbooked u c q = 0" if "wallet_of s1 u = None" for u c
    using b that idx t(3) by (auto simp: books_but_def unbooked_def)
  ultimately show ?thesis by (simp add: books_but_def)
qed

lemma split_kept:
  assumes "rows_kept s s'" "gold_split s"
  shows "gold_split s'"
  unfolding gold_split_def
proof (intro allI impI)
  fix i w assume "wallets s' i = Some w"
  then have "wallets s i = Some w \<or> (\<exists>u ty. w = empty_wallet i u ty)" using assms(1) by (auto simp: rows_kept_def)
  then show "goldBalance w = availableBalance w + reservedBalance w" using assms(2) by (auto simp: gold_split_def)
qed

lemma split_effect:
  assumes "dto_step dto ty (update_of k dto) i s s1" "gold_split s"
  shows "gold_split s1"
proof -
  have "goldBalance (update_of k dto w) = availableBalance (update_of k dto w) + reservedBalance (update_of k dto w)"
    if "goldBalance w = availableBalance w + reservedBalance w" for w
    using that by (cases k) (auto simp: update_of_def credit_update_def debit_update_def)
  then show ?thesis using assms by (auto simp: dto_step_def book_step_def gold_split_def at_row_def)
qed

lemma race_books:
  assumes "race_inv s0 c" "run_race is c = (ps, s')"
    "books_but (\<lambda>u k. sum_list (map (unbooked u k) (effects (fst c)))) (snd c)"
  shows "books_but (\<lambda>u k. sum_list (map (unbooked u k) (effects ps))) s'"
  using assms
proof (induction "is" arbitrary: c)
  case (Cons i "is")
  have inv: "race_inv s0 (race_step i c)" by (rule race_inv_step [OF Cons.prems(1)])
  have wf: "wf_db (snd c)" "wf_db (snd (race_step i c))" using Cons.prems(1) inv by (simp_all add: race_inv_def Let_def)
  have "books_but (\<lambda>u k. sum_list (map (unbooked u k) (effects (fst (race_step i c))))) (snd (race_step i c))"
    using Cons.prems(1)
  proof (cases rule: race_step_money [of s0 c i])
    case quiet
    then show ?thesis using books_but_kept [OF wf quiet(2) Cons.prems(3)] by (simp only: perm_facts(3) [OF quiet(3)])
  next
    case (effect q fw p s1 ev j)
    have "mset (effects (fst (race_step i c))) = mset (q # effects (fst c))" using effect(1) by simp
    note P = perm_facts(3) [OF this]
    show ?thesis
      using books_but_effect [OF wf(1) effect(5,6,2) Cons.prems(3)] effect(4)
      by (simp add: P books_but_def add.commute)
  qed
  moreover have "run_race is (race_step i c) = (ps, s')" using Cons.prems(2) by simp
  ultimately show ?case using Cons.IH [OF inv] by blast
qed simp

lemma race_split:
  assumes "race_inv s0 c" "gold_split (snd c)"
  shows "gold_split (snd (run_race is c))"
  using assms
proof (induction "is" arbitrary: c)
  case (Cons i "is")
  have "gold_split (snd (race_step i c))"
    using Cons.prems(1)
  proof (cases rule: race_step_money [of s0 c i])
    case quiet
    then show ?thesis using split_kept Cons.prems(2) by blast
  next
    case (effect q fw p s1 ev j)
    then show ?thesis using split_effect [OF effect(5) Cons.prems(2)] by (simp add: gold_split_def)
  qed
  then show ?case using Cons.IH [OF race_inv_step [OF Cons.prems(1)]] by simp
qed simp

section \<open>Every schedule of every set of requests\<close>

text \<open>
  C1: However the check and commit phases of any set of creditWallet, debitWallet and reverseWallet
  requests interleave, each idempotency key takes effect at most once, only keys without a stored
  transaction take effect, the stored keys grow by exactly the effective ones, every balance has
  moved by exactly the sum of the effective requests, and the ledger has one new entry for each.
\<close>

theorem race_exactly_once:
  assumes "wf_db s" "run_race is (race_start qs s) = (ps, s')"
  shows "distinct (keys_of (effects ps)) \<and> set (keys_of (effects ps)) \<inter> dom (txns s) = {} \<and>
    dom (txns s') = dom (txns s) \<union> set (keys_of (effects ps)) \<and>
    (\<forall>u c. user_balance s' u c = user_balance s u c + sum_list (map (effect_on u c) (effects ps))) \<and>
    length (ledger s') = length (ledger s) + length (effects ps) \<and> wf_db s'"
  using race_inv_run [OF race_inv_start [OF assms(1)], of "is" qs] assms(2)
  by (simp add: race_inv_def)

text \<open>A request of 50 gold, sent twice, and a debit of 30: the data of the examples below.\<close>

definition sample_dto :: "int \<Rightarrow> string \<Rightarrow> wallet_dto" where
  "sample_dto amt key = \<lparr>d_userId = 7, d_amount = amt, d_currency = Some GOLD, d_reason = None,
     d_key = key, d_referenceType = None, d_referenceId = None, d_description = None\<rparr>"

definition sample_race :: "request list" where
  "sample_race =
     [\<lparr>q_kind = Crediting, q_dto = sample_dto 50 ''c'', q_actor = None\<rparr>,
      \<lparr>q_kind = Crediting, q_dto = sample_dto 50 ''c'', q_actor = None\<rparr>,
      \<lparr>q_kind = Debiting, q_dto = sample_dto 30 ''d'', q_actor = None\<rparr>,
      \<lparr>q_kind = Debiting, q_dto = sample_dto 30 ''e'', q_actor = None\<rparr>]"

definition sample_schedule :: "nat list" where
  "sample_schedule = [0, 1, 1, 0, 2, 3, 3, 2]"

lemma sample_run:
  "keys_of (effects (fst (run_race sample_schedule (race_start sample_race init_db)))) = [''c'', ''e'']"
  "map (\<lambda>q. effect_on 7 GOLD q) (effects (fst (run_race sample_schedule (race_start sample_race init_db)))) = [50, -30]"
  by code_simp+

theorem race_exactly_once_witness:
  "user_balance (snd (run_race sample_schedule (race_start sample_race init_db))) 7 GOLD = 20 \<and>
   dom (txns (snd (run_race sample_schedule (race_start sample_race init_db)))) = {''c'', ''e''}"
proof -
  obtain ps s' where r: "run_race sample_schedule (race_start sample_race init_db) = (ps, s')"
    by fastforce
  note T = race_exactly_once [OF wf_init r]
  have "user_balance init_db 7 GOLD = 0" "dom (txns init_db) = {}"
    by (simp_all add: init_db_def user_balance_def walletByUser_def)
  then show ?thesis using T sample_run by (simp add: r)
qed

text \<open>A database with one funded wallet, for the examples of other theories.\<close>

definition funded_db :: wdb where
  "funded_db = snd (run_race [0, 0] (race_start (take 1 sample_race) init_db))"

lemma funded_ok: "wf_db funded_db" "books funded_db" "solvent funded_db"
proof -
  obtain ps s' where r: "run_race [0, 0] (race_start (take 1 sample_race) init_db) = (ps, s')"
    by fastforce
  note I = race_inv_start [OF wf_init, of "take 1 sample_race"]
  show "wf_db funded_db"
    using race_inv_run [OF I, of "[0, 0]"] by (simp add: race_inv_def funded_db_def Let_def)
  have m: "q \<in> set (map fst (fst (race_start (take 1 sample_race) init_db))) \<Longrightarrow>
    q_kind q \<noteq> Reversing \<and> column (d_currency (q_dto q)) GOLD" for q
    by (auto simp: race_start_def sample_race_def sample_dto_def column_def)
  have F: "funded_db = s'" by (simp only: funded_db_def r snd_conv)
  have "snd (race_start (take 1 sample_race) init_db) = init_db" by (simp add: race_start_def)
  then show "books funded_db" "solvent funded_db"
    unfolding F using race_money [OF I r] m books_init solvent_init by metis+
qed

lemma start_books: "books s \<Longrightarrow>
  books_but (\<lambda>u k. sum_list (map (unbooked u k) (effects (fst (race_start qs s))))) (snd (race_start qs s))"
proof -
  assume "books s"
  moreover have "effects (map (\<lambda>q. (q, Start)) qs) = []" by (induction qs) simp_all
  ultimately show ?thesis using books_but_0 by (simp add: race_start_def)
qed

text \<open>
  C2: In a database whose gold is what is available plus what reservations hold, no schedule of credits and debits
  drives any of the five currency columns below zero, although each debit was checked before the others
  committed; the split of the gold stays exact, so what is available falls at most as far below zero
  as coins are reserved. (It does fall below zero: \<open>debit_spends_reserved\<close>.)
\<close>

theorem race_never_overdraws:
  assumes "wf_db s" "solvent s" "gold_split s" "run_race is (race_start qs s) = (ps, s')"
    and "\<And>q. q \<in> set qs \<Longrightarrow> q_kind q \<noteq> Reversing"
  shows "solvent s' \<and> (\<forall>i w. wallets s' i = Some w \<longrightarrow>
    goldBalance w = availableBalance w + reservedBalance w \<and> - reservedBalance w \<le> availableBalance w)"
proof -
  note inv = race_inv_start [OF assms(1), of qs]
  have "solvent s'" using race_money(1) [OF inv assms(4)] assms by (simp add: race_start_def o_def)
  moreover have "gold_split s'" using race_split [OF inv, of "is"] assms(3,4) by (simp add: race_start_def)
  moreover have "0 \<le> goldBalance w" if "wallets s' i = Some w" for i w
    using \<open>solvent s'\<close> that unfolding solvent_def by (metis balance_of.simps(1))
  ultimately show ?thesis by (fastforce simp: gold_split_def)
qed

theorem race_never_overdraws_witness:
  "solvent (snd (run_race sample_schedule (race_start sample_race init_db)))"
proof -
  have "gold_split init_db" by (simp add: gold_split_def init_db_def)
  moreover have "q_kind q \<noteq> Reversing" if "q \<in> set sample_race" for q using that by (auto simp: sample_race_def)
  ultimately show ?thesis
    using race_never_overdraws [OF wf_init solvent_init _ surjective_pairing, of sample_race sample_schedule] by blast
qed

text \<open>A wallet of 100 gold with 80 of them reserved.\<close>

definition reserved_db :: wdb where
  "reserved_db =
     (let w = (empty_wallet 1 7 USER_WALLET)\<lparr>goldBalance := 100, availableBalance := 20, reservedBalance := 80\<rparr>
      in init_db\<lparr>wallets := [1 \<mapsto> w], wallet_of := [7 \<mapsto> 1], next_id := 2\<rparr>)"

text \<open>
  A debit is checked against the gold balance, reserved coins included: 50 of the 100 coins can be spent
  although only 20 are available, and what is available becomes negative.
\<close>

theorem debit_spends_reserved:
  "gold_split reserved_db \<and>
   (case debitWallet (sample_dto 50 ''x'') None reserved_db of
      (Inr x, s') \<Rightarrow> x_balances x = [20, - 30, - 30] \<and> user_balance s' 7 GOLD = 50
    | _ \<Rightarrow> False)"
proof -
  have "gold_split reserved_db" by (simp add: gold_split_def reserved_db_def Let_def)
  moreover have "case debitWallet (sample_dto 50 ''x'') None reserved_db of
      (Inr x, s') \<Rightarrow> x_balances x = [20, - 30, - 30] \<and> user_balance s' 7 GOLD = 50 | _ \<Rightarrow> False" by code_simp
  ultimately show ?thesis by simp
qed

text \<open>
  C3: Along every schedule of credits, debits and reversals, in any currency or none, the ledger is ahead
  of the columns by exactly what effective requests in FREE, in EARNINGS or in no currency put into it; with
  requests in GOLD, GAME and DIAMOND only, each balance column stays the signed sum of the wallet's entries.
\<close>

theorem race_keeps_books:
  assumes "wf_db s" "books s" "run_race is (race_start qs s) = (ps, s')"
  shows "(\<forall>i w c. wallets s' i = Some w \<longrightarrow>
      ledger_net (ledger s') i c = balance_of c w + sum_list (map (unbooked (w_userId w) c) (effects ps))) \<and>
    ((\<forall>q \<in> set qs. d_currency (q_dto q) \<in> {Some GOLD, Some GAME, Some DIAMOND}) \<longrightarrow> books s')"
proof -
  note inv = race_inv_start [OF assms(1), of qs]
  have "books s'" if "\<forall>q \<in> set qs. d_currency (q_dto q) \<in> {Some GOLD, Some GAME, Some DIAMOND}"
  proof -
    have "\<exists>d. column (d_currency (q_dto q)) d" if "q \<in> set qs" for q
      using \<open>\<forall>q \<in> set qs. _\<close> that by (auto simp: column_def)
    then show ?thesis using race_money(2) [OF inv assms(3)] assms(2) by (simp add: race_start_def o_def)
  qed
  then show ?thesis using race_books [OF inv assms(3) start_books [OF assms(2)]] by (auto simp: books_but_def)
qed

text \<open>A credit that names no currency is in the ledger as gold and in no column.\<close>

definition unnamed_race :: "request list" where
  "unnamed_race = [\<lparr>q_kind = Crediting, q_dto = (sample_dto 50 ''c'')\<lparr>d_currency := None\<rparr>, q_actor = None\<rparr>]"

theorem race_keeps_books_witness:
  "books (snd (run_race sample_schedule (race_start sample_race init_db))) \<and>
   ledger_net (ledger (snd (run_race [0, 0] (race_start unnamed_race init_db)))) 1 GOLD =
     user_balance (snd (run_race [0, 0] (race_start unnamed_race init_db))) 7 GOLD + 50"
proof
  show "books (snd (run_race sample_schedule (race_start sample_race init_db)))"
  proof (rule race_keeps_books [OF wf_init books_init surjective_pairing, THEN conjunct2, rule_format])
    show "d_currency (q_dto q) \<in> {Some GOLD, Some GAME, Some DIAMOND}" if "q \<in> set sample_race" for q
      using that by (auto simp: sample_race_def sample_dto_def)
  qed
  let ?r = "run_race [0, 0] (race_start unnamed_race init_db)"
  have c: "map_option (\<lambda>w. (w_userId w, goldBalance w)) (wallets (snd ?r) 1) = Some (7, 0)"
    "map (unbooked 7 GOLD) (effects (fst ?r)) = [50]" "user_balance (snd ?r) 7 GOLD = 0" by code_simp+
  then obtain w where "wallets (snd ?r) 1 = Some w" "w_userId w = 7" "balance_of GOLD w = 0" by auto
  with race_keeps_books [OF wf_init books_init surjective_pairing, of "[0, 0]" unnamed_race] c(2,3)
  show "ledger_net (ledger (snd ?r)) 1 GOLD = user_balance (snd ?r) 7 GOLD + 50" by fastforce
qed

end
