(* ===== verification/TransferLaws.thy ===== *)
theory TransferLaws
  imports WalletRace
begin

text \<open>
  \<open>transferCoins\<close> (wallet-transaction.service.ts): what it guarantees, and what it leaves out. It
  writes one debit and one credit ledger entry but moves only the column \<open>availableBalance\<close>, so
  the balance columns the ledger is reconciled against stay as they were.
\<close>

definition available :: "('z wdb_scheme) \<Rightarrow> uid \<Rightarrow> int" where
  "available s u = (case walletByUser s u of None \<Rightarrow> 0 | Some w \<Rightarrow> availableBalance w)"

lemma available_ensured:
  assumes wf: "wf_db s"
  shows "available ((ensured s u)\<lparr>audits := a\<rparr>) v = available s v"
proof (cases "wallet_of s u")
  case None
  have "wallet_of s v \<noteq> Some (next_id s)" using wf_index [OF wf] wf_fresh_id [OF wf] by fastforce
  with None show ?thesis
    by (cases "wallet_of s v") (auto simp: available_def walletByUser_def ensured_def)
qed (simp add: available_def walletByUser_def ensured_def)

lemma wallet_available:
  assumes "wf_db s" "wallets s (w_id w) = Some w"
  shows "available s (w_userId w) = availableBalance w"
  using walletByUser_Some [OF assms(1), of "w_userId w" w] assms(2) by (simp add: available_def)

lemma getOrCreateWallet_props:
  assumes wf: "wf_db s" and run: "getOrCreateWallet u USER_WALLET s = (Inr w, s1)"
  shows "same_money s s1" "wf_db s1" "wallets s1 (w_id w) = Some w" "w_userId w = u"
    "available s1 z = available s z" "\<And>i v. wallets s i = Some v \<Longrightarrow> wallets s1 i = Some v"
proof -
  obtain v a where e: "getOrCreateWallet u USER_WALLET s = (Inr v, (ensured s u)\<lparr>audits := a\<rparr>)"
    "wallets (ensured s u) (w_id v) = Some v" "w_userId v = u"
    by (rule getOrCreateWallet_eq [OF wf])
  then have w: "w = v" "s1 = (ensured s u)\<lparr>audits := a\<rparr>" using run by auto
  show "same_money s s1" using same_money_ensured [OF wf, of u] by (simp add: w)
  show "wf_db s1" using wf_ensured [OF wf] by (simp add: w)
  show "wallets s1 (w_id w) = Some w" "w_userId w = u" using e w by simp_all
  show "available s1 z = available s z" using available_ensured [OF wf] by (simp add: w)
  show "wallets s1 i = Some v" if "wallets s i = Some v" for i v
    using that wf_fresh_id [OF wf] by (auto simp: w ensured_def)
qed

definition transfer_rows :: "nat \<Rightarrow> nat \<Rightarrow> int \<Rightarrow> nat \<Rightarrow> wallet \<Rightarrow> wallet" where
  "transfer_rows a b amt i w =
     (if i = a then send_update amt w else if i = b then receive_update amt w else w)"

lemma transfer_rows_sel [simp]:
  "w_id (transfer_rows a b amt i w) = w_id w" "w_userId (transfer_rows a b amt i w) = w_userId w"
  "balance_of c (transfer_rows a b amt i w) = balance_of c w"
  by (simp_all add: transfer_rows_def send_update_def receive_update_def) (cases c; simp)

lemma transfer_body_effect:
  assumes a: "wallets s (w_id a) = Some fa" and b: "wallets s (w_id b) = Some fb"
    and ne: "w_id a \<noteq> w_id b" "\<not> isSelfTransfer dto"
    and run: "transfer_body dto actor a b s = (Inr x, s1)"
  obtains t e1 e2 where
    "book_step (transfer_rows (w_id a) (w_id b) (td_amount dto)) t [e1, e2] s s1"
    "e_walletId e1 = w_id a" "signed e1 = - td_amount dto" "e_currency e1 = or_gold (td_currency dto)"
    "e_walletId e2 = w_id b" "signed e2 = td_amount dto" "e_currency e2 = or_gold (td_currency dto)"
    "td_amount dto \<le> availableBalance fa" "w_status fa = ACTIVE" "w_status fb = ACTIVE"
    "t_idempotencyKey t = td_key dto" "txns s (td_key dto) = None" "\<not> x_isDuplicateReplay x"
proof -
  define t where "t = transfer_txn dto (w_id a) (w_id b) actor (next_id s)"
  define e1 where "e1 = transfer_entry dto DEBIT (''Transfer to '' @ show_nat (w_userId b)) actor
    (next_id s) (w_id a) (availableBalance fa) (availableBalance fa - td_amount dto)"
  define e2 where "e2 = transfer_entry dto CREDIT (''Transfer from '' @ show_nat (w_userId a)) actor
    (next_id s) (w_id b) (availableBalance fb) (availableBalance fb + td_amount dto)"
  have "w_status fa = ACTIVE" "w_status fb = ACTIVE" "td_amount dto \<le> availableBalance fa"
    "txns s (td_key dto) = None" "\<not> x_isDuplicateReplay x" and
    s1: "\<exists>au. s1 = s\<lparr>txns := (txns s)(td_key dto \<mapsto> t), next_id := Suc (next_id s),
        wallets := (wallets s)(w_id a \<mapsto> send_update (td_amount dto) fa,
                               w_id b \<mapsto> receive_update (td_amount dto) fb),
        ledger := ledger s @ [e1, e2], audits := au\<rparr>"
    using run a b ne
    by (auto simp: transfer_body_def body_defs unlessA_def checked_balance_def transfer_txn_def
        t_def e1_def e2_def split: if_splits)
  moreover have "book_step (transfer_rows (w_id a) (w_id b) (td_amount dto)) t [e1, e2] s s1"
  proof -
    have "(wallets s)(w_id a \<mapsto> send_update (td_amount dto) fa, w_id b \<mapsto> receive_update (td_amount dto) fb) =
      (\<lambda>i. map_option (transfer_rows (w_id a) (w_id b) (td_amount dto) i) (wallets s i))"
      using a b ne(1) by (auto simp: fun_eq_iff transfer_rows_def option.map_ident
          split: option.split cong: option.map_cong intro!: sym [OF option.map_ident_strong])
    moreover have "e_walletId e1 = w_id a" "e_walletId e2 = w_id b" "t_idempotencyKey t = td_key dto"
      "t_id t = next_id s" by (simp_all add: t_def e1_def e2_def transfer_txn_def transfer_entry_def)
    ultimately show ?thesis using s1 a b by (auto simp: book_step_def keeps_ids_def)
  qed
  ultimately show thesis
    using that [of t e1 e2]
    by (simp add: e1_def e2_def t_def transfer_txn_def transfer_entry_def signed_def)
qed

lemma transfer_check_go:
  assumes wf: "wf_db s" and ne: "\<not> isSelfTransfer dto"
    and run: "transfer_check dto s = (Inr (Inr (a, b)), s1)"
  shows "same_money s s1" "wf_db s1" "wallets s1 (w_id a) = Some a" "wallets s1 (w_id b) = Some b"
    "w_userId a = td_senderUserId dto" "w_userId b = td_recipientUserId dto" "0 < td_amount dto"
    "available s1 z = available s z"
proof -
  obtain v where v: "validateEconomyStatus s = (v, s)"
    using validateEconomyStatus_state [of s] by (metis prod.collapse)
  obtain sa where g1: "getOrCreateWallet (td_senderUserId dto) USER_WALLET s = (Inr a, sa)"
    and g2: "getOrCreateWallet (td_recipientUserId dto) USER_WALLET sa = (Inr b, s1)"
    and pos: "0 < td_amount dto"
    using run v ne
    by (auto simp: transfer_check_def bindA_Inr validatePositiveAmount_def unlessA_def
        validateWalletActive_def validateSufficientBalance_def split: option.splits)
  note A = getOrCreateWallet_props [OF wf g1]
  note B = getOrCreateWallet_props [OF A(2) g2]
  show "same_money s s1" using A(1) B(1) by (auto simp: same_money_def)
  show "wf_db s1" "wallets s1 (w_id a) = Some a" "wallets s1 (w_id b) = Some b"
    "w_userId a = td_senderUserId dto" "w_userId b = td_recipientUserId dto" "0 < td_amount dto"
    "available s1 z = available s z"
    using A B pos by auto
qed

lemma transfer_commit_effect:
  assumes run: "transfer_commit dto actor a b s = (Inr x, s')" and nd: "\<not> x_isDuplicateReplay x"
  obtains s1 ev where "transfer_body dto actor a b s = (Inr x, s1)" "s' = s1\<lparr>bus := ev\<rparr>"
proof -
  obtain r0 s1 where m: "transfer_body dto actor a b s = (r0, s1)" by fastforce
  show thesis
  proof (cases r0)
    case (Inl e)
    then have "transfer_commit dto actor a b s = recoverDuplicate (td_key dto) e (rollback s s1)"
      using m by (simp add: transfer_commit_def catchA_def bindA_def transaction_def)
    then show thesis
      using run nd by (auto simp: recoverDuplicate_def formatTransactionResponse_def split: if_splits option.splits)
  next
    case (Inr y)
    then show thesis
      using m run that
      by (auto simp: transfer_commit_def catchA_def bindA_def transaction_def publishMovement_def returnA_def)
  qed
qed

text \<open>
  A transfer between two users that succeeds moves the sender's and the recipient's
  available balance by the amount and appends a debit and a credit entry, but no balance column
  moves: books that balanced before the transfer no longer balance after it.
\<close>

theorem transfer_unbalances_books:
  assumes wf: "wf_db s" and bk: "books s" and ne: "td_senderUserId dto \<noteq> td_recipientUserId dto"
    and run: "transferCoins dto actor s = (Inr x, s')" and nd: "\<not> x_isDuplicateReplay x"
  shows "user_balance s' = user_balance s \<and> wf_db s' \<and> \<not> books s' \<and>
    td_amount dto \<le> available s (td_senderUserId dto) \<and>
    available s' (td_senderUserId dto) = available s (td_senderUserId dto) - td_amount dto \<and>
    available s' (td_recipientUserId dto) = available s (td_recipientUserId dto) + td_amount dto"
proof -
  have ns: "\<not> isSelfTransfer dto" using ne by (simp add: isSelfTransfer_def)
  obtain a b s1 where chk: "transfer_check dto s = (Inr (Inr (a, b)), s1)"
    and com: "transfer_commit dto actor a b s1 = (Inr x, s')"
  proof -
    obtain y s1 where c: "transfer_check dto s = (Inr y, s1)"
      and k: "(case y of Inl r \<Rightarrow> returnA r
        | Inr (sender, recipient) \<Rightarrow> transfer_commit dto actor sender recipient) s1 = (Inr x, s')"
      using run by (auto simp: transferCoins_def bindA_Inr)
    show thesis
    proof (cases y)
      case (Inl r)
      then have "x_isDuplicateReplay r"
        using c by (auto simp: transfer_check_def bindA_Inr formatTransactionResponse_def
            split: option.splits)
      then show thesis using Inl k nd by simp
    next
      case (Inr ab)
      then show thesis using that c k by (cases ab) auto
    qed
  qed
  note C = transfer_check_go [OF wf ns chk]
  obtain s2 ev where body: "transfer_body dto actor a b s1 = (Inr x, s2)" and s': "s' = s2\<lparr>bus := ev\<rparr>"
    by (rule transfer_commit_effect [OF com nd])
  have ids: "w_id a \<noteq> w_id b"
  proof
    assume "w_id a = w_id b"
    then have "a = b" using C(3,4) by (metis option.inject)
    then show False using C(5,6) ne by metis
  qed
  obtain t e1 e2 where B: "book_step (transfer_rows (w_id a) (w_id b) (td_amount dto)) t [e1, e2] s1 s2"
    and E: "e_walletId e1 = w_id a" "signed e1 = - td_amount dto" "e_currency e1 = or_gold (td_currency dto)"
      "e_walletId e2 = w_id b" "td_amount dto \<le> availableBalance a"
    by (rule transfer_body_effect [OF C(3,4) ids ns body]) blast
  have wf2: "wf_db s2" by (rule book_step_wf [OF C(2) B])
  have "user_balance s2 u c = user_balance s1 u c" for u c
  proof (cases "wallet_of s1 u")
    case None
    then show ?thesis using B by (simp add: user_balance_def walletByUser_def book_step_def)
  next
    case (Some k)
    then obtain v where v: "wallets s1 k = Some v" "w_userId v = u" by (rule wf_user_index [OF C(2)])
    then show ?thesis
      using book_step_balance [OF B C(2) v(1), of c] Some by (simp add: user_balance_def walletByUser_def)
  qed
  then have bal: "user_balance s' = user_balance s" using C(1) by (simp add: s' same_money_def fun_eq_iff)
  have rows: "wallets s2 (w_id a) = Some (send_update (td_amount dto) a)"
    "wallets s2 (w_id b) = Some (receive_update (td_amount dto) b)"
    using B C(3,4) ids by (simp_all add: book_step_def transfer_rows_def)
  have "books s1" using C(1) bk by (simp add: same_money_def)
  then have old: "balance_of c a = ledger_net (ledger s1) (w_id a) c" for c using C(3) by (simp add: books_def)
  have "\<not> books s2"
  proof
    assume "books s2"
    then have "balance_of (e_currency e1) (send_update (td_amount dto) a) =
        ledger_net (ledger s2) (w_id a) (e_currency e1)" using rows by (simp add: books_def)
    moreover have "balance_of (e_currency e1) (send_update (td_amount dto) a) = balance_of (e_currency e1) a"
      using transfer_rows_sel(3) [of "e_currency e1" "w_id a" "w_id b" "td_amount dto" "w_id a" a]
      by (simp add: transfer_rows_def)
    moreover have "ledger_net (ledger s2) (w_id a) (e_currency e1) =
        ledger_net (ledger s1) (w_id a) (e_currency e1) - td_amount dto"
      using B E ids by (simp add: book_step_def ledger_net_def)
    ultimately show False using old [of "e_currency e1"] C(7) by simp
  qed
  moreover have "available s2 (td_senderUserId dto) = available s (td_senderUserId dto) - td_amount dto"
    "available s2 (td_recipientUserId dto) = available s (td_recipientUserId dto) + td_amount dto"
    using wallet_available [OF wf2, of "send_update (td_amount dto) a"] rows
      wallet_available [OF wf2, of "receive_update (td_amount dto) b"] C(5,6)
      wallet_available [OF C(2,3)] wallet_available [OF C(2,4)] C(8)
    by (simp_all add: send_update_def receive_update_def)
  moreover have "td_amount dto \<le> available s (td_senderUserId dto)"
    using E(5) wallet_available [OF C(2,3)] C(5,8) by simp
  ultimately show ?thesis using bal wf2 by (simp add: s' available_def walletByUser_def)
qed

definition sample_transfer :: transfer_dto where
  "sample_transfer = \<lparr>td_senderUserId = 7, td_recipientUserId = 8, td_amount = 20, td_currency = None,
     td_key = ''t'', td_referenceType = None, td_referenceId = None, td_description = None\<rparr>"

theorem transfer_unbalances_books_witness:
  "\<not> books (snd (transferCoins sample_transfer None funded_db)) \<and>
   available (snd (transferCoins sample_transfer None funded_db)) 8 = 20 \<and>
   user_balance (snd (transferCoins sample_transfer None funded_db)) 8 GOLD = 0"
proof -
  have "(case fst (transferCoins sample_transfer None funded_db) of Inl _ \<Rightarrow> False
      | Inr x \<Rightarrow> \<not> x_isDuplicateReplay x)" by code_simp
  then obtain x s' where r: "transferCoins sample_transfer None funded_db = (Inr x, s')"
    "\<not> x_isDuplicateReplay x"
    by (cases "transferCoins sample_transfer None funded_db") (auto split: sum.splits)
  have "available funded_db 8 = 0" "user_balance funded_db 8 GOLD = 0" by code_simp+
  then show ?thesis
    using transfer_unbalances_books [OF funded_ok(1,2) _ r] r(1) by (simp add: sample_transfer_def)
qed

end
