(* ===== verification/Locks.thy ===== *)
theory Locks
  imports Prelude
begin

text \<open>
  The distributed locks of src/infra/redis: lock.service.ts (SET NX PX with a random token, and Lua
  scripts that release or extend a lock only for the token that owns it) and
  distributed-lock.service.ts (the same with growing delays). The state is what the scripts read
  and write: a key's value with the time it expires, the clock in milliseconds, and a counter
  that stands for \<open>randomUUID()\<close>, so that no token is handed out twice.
\<close>

section \<open>Keys with a time to live\<close>

record redis =
  store :: "string \<rightharpoonup> nat \<times> nat"
  clock :: nat
  tokens :: nat

definition live :: "string \<Rightarrow> redis \<Rightarrow> nat option" where
  "live k r = (case store r k of None \<Rightarrow> None | Some (tok, e) \<Rightarrow> if clock r < e then Some tok else None)"

definition set_nx :: "string \<Rightarrow> nat \<Rightarrow> nat \<Rightarrow> redis \<Rightarrow> bool \<times> redis" where
  "set_nx k tok ttl r =
     (if live k r = None then (True, r\<lparr>store := (store r)(k \<mapsto> (tok, clock r + ttl))\<rparr>) else (False, r))"

definition randomUUID :: "redis \<Rightarrow> nat \<times> redis" where
  "randomUUID r = (tokens r, r\<lparr>tokens := Suc (tokens r)\<rparr>)"

text \<open>The compare-and-delete and compare-and-extend scripts.\<close>

definition release_script :: "string \<Rightarrow> nat \<Rightarrow> redis \<Rightarrow> bool \<times> redis" where
  "release_script k tok r =
     (if live k r = Some tok then (True, r\<lparr>store := (store r)(k := None)\<rparr>) else (False, r))"

definition extend_script :: "string \<Rightarrow> nat \<Rightarrow> nat \<Rightarrow> redis \<Rightarrow> bool \<times> redis" where
  "extend_script k tok ttl r =
     (if live k r = Some tok then (True, r\<lparr>store := (store r)(k \<mapsto> (tok, clock r + ttl))\<rparr>) else (False, r))"

section \<open>lock.service.ts\<close>

text \<open>
  \<open>acquire\<close> and \<open>acquireLockObject\<close> answer the token; the release function they return is
  \<open>release_script\<close> on it.
\<close>

definition acquireLockObject :: "string \<Rightarrow> nat \<Rightarrow> redis \<Rightarrow> nat option \<times> redis" where
  "acquireLockObject k ttl r =
     (case randomUUID r of (tok, r1) \<Rightarrow>
        (case set_nx k tok ttl r1 of (ok, r2) \<Rightarrow> (if ok then Some tok else None, r2)))"

definition acquire :: "string \<Rightarrow> nat \<Rightarrow> redis \<Rightarrow> nat option \<times> redis" where
  "acquire k ttl r =
     (case randomUUID r of (tok, r1) \<Rightarrow>
        (case set_nx k tok ttl r1 of (ok, r2) \<Rightarrow> (if ok then Some tok else None, r2)))"

definition extend_lock :: "string \<Rightarrow> nat \<Rightarrow> nat \<Rightarrow> redis \<Rightarrow> bool \<times> redis" where
  "extend_lock k tok ttl r = extend_script k tok ttl r"

text \<open>
  The retry loop of \<open>withLock\<close>: the number counts the attempts left after this one, and \<open>wait\<close>
  is what happens during the delay after a failed attempt (also after the last one).
\<close>

fun acquire_loop :: "(redis \<Rightarrow> redis) \<Rightarrow> string \<Rightarrow> nat \<Rightarrow> nat \<Rightarrow> redis \<Rightarrow> nat option \<times> redis" where
  "acquire_loop wait k ttl left r =
     (case acquire k ttl r of
        (Some tok, r1) \<Rightarrow> (Some tok, r1)
      | (None, r1) \<Rightarrow>
          (case left of 0 \<Rightarrow> (None, wait r1) | Suc n \<Rightarrow> acquire_loop wait k ttl n (wait r1)))"

declare acquire_loop.simps [simp del]

definition withLock ::
  "(redis \<Rightarrow> redis) \<Rightarrow> string \<Rightarrow> nat \<Rightarrow> nat \<Rightarrow> (redis, 'a) act \<Rightarrow> (redis, 'a) act" where
  "withLock wait k ttl retries fn r =
     (case acquire_loop wait k ttl retries r of
        (None, r1) \<Rightarrow> (Inl (OtherError (''Could not acquire lock '' @ k)), r1)
      | (Some tok, r1) \<Rightarrow> (case fn r1 of (res, r2) \<Rightarrow> (res, snd (release_script k tok r2))))"

text \<open>A delay in which only time passes.\<close>

definition sleep :: "nat \<Rightarrow> redis \<Rightarrow> redis" where
  "sleep ms r = r\<lparr>clock := clock r + ms\<rparr>"

section \<open>distributed-lock.service.ts\<close>

text \<open>One token for all attempts; the delay after attempt \<open>i\<close> is \<open>(i + 1)\<close> times the base.\<close>

fun acquireLock_loop ::
  "(nat \<Rightarrow> redis \<Rightarrow> redis) \<Rightarrow> string \<Rightarrow> nat \<Rightarrow> nat \<Rightarrow> nat \<Rightarrow> nat \<Rightarrow> redis \<Rightarrow> bool \<times> redis" where
  "acquireLock_loop wait k tok ttl i left r =
     (case set_nx k tok ttl r of
        (True, r1) \<Rightarrow> (True, r1)
      | (False, r1) \<Rightarrow>
          (case left of 0 \<Rightarrow> (False, r1)
           | Suc n \<Rightarrow> acquireLock_loop wait k tok ttl (Suc i) n (wait (Suc i) r1)))"

declare acquireLock_loop.simps [simp del]

definition lock_key :: "string \<Rightarrow> string" where
  "lock_key resource = ''lock:'' @ resource"

record lock_token =
  lt_resource :: string
  lt_value :: nat
  lt_expiresAt :: nat

definition acquireLock ::
  "(nat \<Rightarrow> redis \<Rightarrow> redis) \<Rightarrow> string \<Rightarrow> nat \<Rightarrow> nat \<Rightarrow> redis \<Rightarrow> lock_token option \<times> redis" where
  "acquireLock wait resource ttl maxRetries r =
     (case randomUUID r of (tok, r1) \<Rightarrow>
        (case acquireLock_loop wait (lock_key resource) tok ttl 0 maxRetries r1 of
           (True, r2) \<Rightarrow>
             (Some \<lparr>lt_resource = resource, lt_value = tok, lt_expiresAt = clock r2 + ttl\<rparr>, r2)
         | (False, r2) \<Rightarrow> (None, r2)))"

definition releaseLock :: "lock_token \<Rightarrow> redis \<Rightarrow> bool \<times> redis" where
  "releaseLock t r = release_script (lock_key (lt_resource t)) (lt_value t) r"

definition runWithLock ::
  "(nat \<Rightarrow> redis \<Rightarrow> redis) \<Rightarrow> string \<Rightarrow> nat \<Rightarrow> nat \<Rightarrow> (redis, 'a) act \<Rightarrow> (redis, 'a) act" where
  "runWithLock wait resource ttl maxRetries fn r =
     (case acquireLock wait resource ttl maxRetries r of
        (None, r1) \<Rightarrow> (Inl (OtherError (''Could not acquire distributed lock for resource '' @ resource)), r1)
      | (Some t, r1) \<Rightarrow> (case fn r1 of (res, r2) \<Rightarrow> (res, snd (releaseLock t r2))))"

section \<open>Clients of one store\<close>

text \<open>
  A client is a call of \<open>withLock\<close> or the leader election of a loop: it tries, it is inside since a
  time, it renews, it left, or it gave up. Key, time to live and retries are per client.
\<close>

datatype client = Trying nat | Inside nat nat | Left | GaveUp

record lock_system =
  redis_of :: redis
  client_of :: "nat \<Rightarrow> client"

record lock_config =
  key_of :: "nat \<Rightarrow> string"
  ttl_of :: "nat \<Rightarrow> nat"
  retries_of :: "nat \<Rightarrow> nat"

definition try_client :: "lock_config \<Rightarrow> nat \<Rightarrow> nat \<Rightarrow> lock_system \<Rightarrow> lock_system" where
  "try_client cfg c n s =
     (case acquire (key_of cfg c) (ttl_of cfg c) (redis_of s) of
        (Some tok, r) \<Rightarrow> \<lparr>redis_of = r, client_of = (client_of s)(c := Inside tok (clock r))\<rparr>
      | (None, r) \<Rightarrow> \<lparr>redis_of = r, client_of = (client_of s)(c :=
             if n < retries_of cfg c then Trying (Suc n) else GaveUp)\<rparr>)"

definition leave_client :: "lock_config \<Rightarrow> nat \<Rightarrow> nat \<Rightarrow> lock_system \<Rightarrow> lock_system" where
  "leave_client cfg c tok s =
     \<lparr>redis_of = snd (release_script (key_of cfg c) tok (redis_of s)), client_of = (client_of s)(c := Left)\<rparr>"

definition renew_client :: "lock_config \<Rightarrow> nat \<Rightarrow> nat \<Rightarrow> lock_system \<Rightarrow> lock_system" where
  "renew_client cfg c tok s =
     (case extend_lock (key_of cfg c) tok (ttl_of cfg c) (redis_of s) of
        (True, r) \<Rightarrow> \<lparr>redis_of = r, client_of = (client_of s)(c := Inside tok (clock r))\<rparr>
      | (False, r) \<Rightarrow> \<lparr>redis_of = r, client_of = (client_of s)(c := Trying 0)\<rparr>)"

inductive lock_step :: "lock_config \<Rightarrow> lock_system \<Rightarrow> lock_system \<Rightarrow> bool" for cfg where
  attempt: "client_of s c = Trying n \<Longrightarrow> lock_step cfg s (try_client cfg c n s)"
| leave: "client_of s c = Inside tok t \<Longrightarrow> lock_step cfg s (leave_client cfg c tok s)"
| renew: "client_of s c = Inside tok t \<Longrightarrow> lock_step cfg s (renew_client cfg c tok s)"
| pass: "lock_step cfg s (s\<lparr>redis_of := sleep ms (redis_of s)\<rparr>)"

inductive_cases lock_stepE: "lock_step cfg s s'"

inductive reachable :: "lock_config \<Rightarrow> lock_system \<Rightarrow> bool" for cfg where
  start: "(\<And>c. client_of s c = Trying 0) \<Longrightarrow> store (redis_of s) = Map.empty \<Longrightarrow> reachable cfg s"
| further: "reachable cfg s \<Longrightarrow> lock_step cfg s s' \<Longrightarrow> reachable cfg s'"

section \<open>Laws of the scripts\<close>

lemmas redis_defs = live_def set_nx_def randomUUID_def release_script_def extend_script_def
  acquire_def acquireLockObject_def extend_lock_def

lemma live_tokens [simp]: "live k (r\<lparr>tokens := n\<rparr>) = live k r"
  by (simp add: live_def split: option.split)

lemma live_Some: "live k r = Some tok \<longleftrightarrow> (\<exists>e. store r k = Some (tok, e) \<and> clock r < e)"
  by (auto simp: live_def split: option.splits)

lemma live_None: "live k r = None \<longleftrightarrow> (\<forall>tok e. store r k = Some (tok, e) \<longrightarrow> e \<le> clock r)"
  by (auto simp: live_def not_less split: option.splits)

lemma live_store: "live k (r\<lparr>store := (store r)(k' := v)\<rparr>) =
   (if k = k' then (case v of None \<Rightarrow> None | Some (tok, e) \<Rightarrow> if clock r < e then Some tok else None) else live k r)"
  by (auto simp: live_def split: option.split)

lemma acquire_cases:
  assumes "acquire k ttl r = (x, r')"
  obtains (got) "x = Some (tokens r)" "live k r = None"
      "r' = r\<lparr>tokens := Suc (tokens r), store := (store r)(k \<mapsto> (tokens r, clock r + ttl))\<rparr>"
  | (missed) "x = None" "live k r \<noteq> None" "r' = r\<lparr>tokens := Suc (tokens r)\<rparr>"
  using assms that by (auto simp: acquire_def randomUUID_def set_nx_def split: if_splits)

lemma acquire_is_object: "acquire = acquireLockObject"
  by (simp add: fun_eq_iff acquire_def acquireLockObject_def)

lemma live_release: "live k (snd (release_script k tok r)) \<noteq> Some tok"
  by (simp add: release_script_def live_store)

lemma live_release_other:
  "live k r \<noteq> Some tok \<or> k' \<noteq> k \<Longrightarrow> live k' (snd (release_script k tok r)) = live k' r"
  by (auto simp: release_script_def live_store)

section \<open>The invariant\<close>

definition client_ok :: "lock_config \<Rightarrow> redis \<Rightarrow> nat \<Rightarrow> client \<Rightarrow> bool" where
  "client_ok cfg r c x \<longleftrightarrow> (\<forall>tok t. x = Inside tok t \<longrightarrow> tok < tokens r \<and>
     (clock r < t + ttl_of cfg c \<longrightarrow> store r (key_of cfg c) = Some (tok, t + ttl_of cfg c)))"

lemma client_ok_simps [simp]:
  "client_ok cfg r c (Trying n)" "client_ok cfg r c Left" "client_ok cfg r c GaveUp"
  "client_ok cfg r c (Inside tok t) \<longleftrightarrow> tok < tokens r \<and>
     (clock r < t + ttl_of cfg c \<longrightarrow> store r (key_of cfg c) = Some (tok, t + ttl_of cfg c))"
  by (auto simp: client_ok_def)

definition lock_inv :: "lock_config \<Rightarrow> lock_system \<Rightarrow> bool" where
  "lock_inv cfg s \<longleftrightarrow>
     (\<forall>c. client_ok cfg (redis_of s) c (client_of s c)) \<and>
     (\<forall>c d tok t u. client_of s c = Inside tok t \<longrightarrow> client_of s d = Inside tok u \<longrightarrow> c = d)"

text \<open>A change of one key that no unexpired client of another token relies on.\<close>

lemma client_ok_store:
  assumes "client_ok cfg r d x" "tokens r \<le> n"
    and "\<And>tok t. x = Inside tok t \<Longrightarrow> live k r \<noteq> Some tok"
  shows "client_ok cfg (r\<lparr>tokens := n, store := (store r)(k := v)\<rparr>) d x"
  using assms by (cases x) (auto simp: live_Some)

lemma client_ok_later: "client_ok cfg r d x \<Longrightarrow> client_ok cfg (r\<lparr>tokens := Suc (tokens r)\<rparr>) d x"
  by (cases x) auto

lemma lock_inv_attempt:
  assumes inv: "lock_inv cfg s"
  shows "lock_inv cfg (try_client cfg c n s)"
proof -
  let ?r = "redis_of s"
  obtain x r where a: "acquire (key_of cfg c) (ttl_of cfg c) ?r = (x, r)" by fastforce
  have ok: "client_ok cfg ?r d (client_of s d)" for d using inv by (simp add: lock_inv_def)
  from a show ?thesis
  proof (cases rule: acquire_cases)
    case got
    have others: "client_ok cfg r d (client_of s d)" for d
      unfolding got(3) by (rule client_ok_store [OF ok]) (use got(2) in auto)
    have "client_ok cfg r c (Inside (tokens ?r) (clock r))" by (simp add: got(3))
    moreover have "client_of s d \<noteq> Inside (tokens ?r) t" for d t using ok [of d] by auto
    ultimately show ?thesis
      using inv others by (auto simp: lock_inv_def try_client_def a got(1))
  next
    case missed
    then show ?thesis
      using inv client_ok_later [OF ok] by (auto simp: lock_inv_def try_client_def a)
  qed
qed

lemma lock_inv_leave:
  assumes inv: "lock_inv cfg s" and c: "client_of s c = Inside tok t"
  shows "lock_inv cfg (leave_client cfg c tok s)"
proof -
  let ?r = "redis_of s"
  have ok: "client_ok cfg ?r d (client_of s d)" for d using inv by (simp add: lock_inv_def)
  have "client_ok cfg (snd (release_script (key_of cfg c) tok ?r)) d (client_of s d)" if "d \<noteq> c" for d
  proof (cases "live (key_of cfg c) ?r = Some tok")
    case True
    moreover have "client_ok cfg (?r\<lparr>tokens := tokens ?r, store := (store ?r)(key_of cfg c := None)\<rparr>) d (client_of s d)"
      by (rule client_ok_store [OF ok]) (use inv c that True in \<open>auto simp: lock_inv_def\<close>)
    ultimately show ?thesis by (simp add: release_script_def)
  next
    case False
    then show ?thesis using ok by (simp add: release_script_def)
  qed
  then show ?thesis using inv by (auto simp: lock_inv_def leave_client_def)
qed

lemma lock_inv_renew:
  assumes inv: "lock_inv cfg s" and c: "client_of s c = Inside tok t"
  shows "lock_inv cfg (renew_client cfg c tok s)"
proof (cases "live (key_of cfg c) (redis_of s) = Some tok")
  case True
  let ?r = "redis_of s" and ?k = "key_of cfg c"
  let ?r' = "?r\<lparr>store := (store ?r)(?k \<mapsto> (tok, clock ?r + ttl_of cfg c))\<rparr>"
  have ok: "client_ok cfg ?r d (client_of s d)" for d using inv by (simp add: lock_inv_def)
  have "client_ok cfg (?r\<lparr>tokens := tokens ?r, store := (store ?r)(?k \<mapsto> (tok, clock ?r + ttl_of cfg c))\<rparr>) d (client_of s d)"
    if "d \<noteq> c" for d
    by (rule client_ok_store [OF ok]) (use inv c that True in \<open>auto simp: lock_inv_def\<close>)
  then have "client_ok cfg ?r' d (client_of s d)" if "d \<noteq> c" for d using that by simp
  moreover have "client_ok cfg ?r' c (Inside tok (clock ?r))" using ok [of c] c by simp
  ultimately show ?thesis
    using inv c True by (auto simp: lock_inv_def renew_client_def extend_lock_def extend_script_def)
next
  case False
  then show ?thesis
    using inv by (auto simp: lock_inv_def renew_client_def extend_lock_def extend_script_def)
qed

lemma lock_inv_pass: "lock_inv cfg s \<Longrightarrow> lock_inv cfg (s\<lparr>redis_of := sleep ms (redis_of s)\<rparr>)"
  unfolding lock_inv_def sleep_def client_ok_def by auto

lemma lock_inv_step: "lock_step cfg s s' \<Longrightarrow> lock_inv cfg s \<Longrightarrow> lock_inv cfg s'"
  by (induction rule: lock_step.induct)
    (auto intro: lock_inv_attempt lock_inv_leave lock_inv_renew lock_inv_pass)

lemma reachable_inv: "reachable cfg s \<Longrightarrow> lock_inv cfg s"
proof (induction rule: reachable.induct)
  case (start s)
  then show ?case by (simp add: lock_inv_def)
next
  case (further s s')
  then show ?case using lock_inv_step by blast
qed

text \<open>
  C27: Mutual exclusion: in every reachable state, two clients of the same key that are both inside
  and both within their time to live are the same client, whatever attempts, releases, renewals
  and delays happened before. A client that overstayed its time may share the critical section.
\<close>

theorem locks_exclude:
  assumes "reachable cfg s" "key_of cfg c = key_of cfg d"
    and "client_of s c = Inside tok t" "clock (redis_of s) < t + ttl_of cfg c"
    and "client_of s d = Inside tok' t'" "clock (redis_of s) < t' + ttl_of cfg d"
  shows "c = d"
proof -
  have inv: "lock_inv cfg s" by (rule reachable_inv [OF assms(1)])
  then have "client_ok cfg (redis_of s) c (client_of s c)" "client_ok cfg (redis_of s) d (client_of s d)"
    by (simp_all add: lock_inv_def)
  then have "tok = tok'" using assms by auto
  then show ?thesis using inv assms(3,5) unfolding lock_inv_def by blast
qed

section \<open>Waiting\<close>

text \<open>Behind a lock that nobody releases and that expires at \<open>e\<close>.\<close>

lemma acquire_free:
  "live k r = None \<Longrightarrow> \<exists>tok r'. acquire k ttl r = (Some tok, r') \<and> (0 < ttl \<longrightarrow> live k r' = Some tok)"
  by (auto simp: acquire_def randomUUID_def set_nx_def live_Some)

lemma acquire_busy: "live k r = Some tok \<Longrightarrow> acquire k ttl r = (None, r\<lparr>tokens := Suc (tokens r)\<rparr>)"
  by (simp add: acquire_def randomUUID_def set_nx_def)

lemma acquire_loop_waits:
  assumes "store r k = Some (tok, e)"
  shows "case acquire_loop (sleep delay) k ttl left r of
      (Some tok', r1) \<Rightarrow> e \<le> clock r + left * delay \<and> (0 < ttl \<longrightarrow> live k r1 = Some tok')
    | (None, r1) \<Rightarrow> clock r + left * delay < e"
  using assms
proof (induction left arbitrary: r)
  case 0
  show ?case
  proof (cases "live k r")
    case None
    then obtain t1 r1 where "acquire k ttl r = (Some t1, r1)" "0 < ttl \<longrightarrow> live k r1 = Some t1"
      using acquire_free by blast
    moreover have "e \<le> clock r" using None 0 by (auto simp: live_None)
    ultimately show ?thesis by (simp add: acquire_loop.simps [of _ _ _ 0])
  next
    case (Some x)
    then show ?thesis using 0 by (auto simp: acquire_loop.simps [of _ _ _ 0] acquire_busy live_Some)
  qed
next
  case (Suc n)
  show ?case
  proof (cases "live k r")
    case None
    then obtain t1 r1 where "acquire k ttl r = (Some t1, r1)" "0 < ttl \<longrightarrow> live k r1 = Some t1"
      using acquire_free by blast
    moreover have "e \<le> clock r" using None Suc.prems by (auto simp: live_None)
    ultimately show ?thesis by (simp add: acquire_loop.simps [of _ _ _ "Suc n"])
  next
    case (Some x)
    let ?r = "sleep delay (r\<lparr>tokens := Suc (tokens r)\<rparr>)"
    have "store ?r k = Some (tok, e)" "clock ?r = clock r + delay" using Suc.prems by (simp_all add: sleep_def)
    moreover have "acquire_loop (sleep delay) k ttl (Suc n) r = acquire_loop (sleep delay) k ttl n ?r"
      using Some by (simp add: acquire_loop.simps [of _ _ _ "Suc n"] acquire_busy)
    ultimately show ?thesis
      using Suc.IH [of ?r] by (simp add: add.assoc split: prod.splits option.splits)
  qed
qed


text \<open>The same for \<open>acquireLock\<close>, whose delays grow: \<open>n\<close> retries wait \<open>n (n + 1) / 2\<close> base delays.\<close>

fun delays :: "nat \<Rightarrow> nat \<Rightarrow> nat" where
  "delays i 0 = 0"
| "delays i (Suc n) = Suc i + delays (Suc i) n"

lemma delays_sum: "2 * delays i n = n * (2 * i + n + 1)"
proof (induction n arbitrary: i)
  case (Suc n)
  show ?case using Suc [of "Suc i"] by (simp add: distrib_left)
qed simp

lemma acquireLock_loop_waits:
  assumes "store r k = Some (tok, e)"
  shows "fst (acquireLock_loop (\<lambda>j. sleep (base * j)) k new ttl i left r) \<longleftrightarrow>
    e \<le> clock r + base * delays i left"
  using assms
proof (induction left arbitrary: r i)
  case 0
  then show ?case
    by (auto simp: acquireLock_loop.simps [of _ _ _ _ _ 0] set_nx_def live_None split: prod.splits)
next
  case (Suc n)
  show ?case
  proof (cases "live k r")
    case None
    then show ?thesis using Suc.prems
      by (auto simp: acquireLock_loop.simps [of _ _ _ _ _ "Suc n"] set_nx_def live_None)
  next
    case (Some x)
    let ?r = "sleep (base * Suc i) r"
    have "store ?r k = Some (tok, e)" "clock ?r = clock r + base * Suc i"
      using Suc.prems by (simp_all add: sleep_def)
    moreover have "acquireLock_loop (\<lambda>j. sleep (base * j)) k new ttl i (Suc n) r =
        acquireLock_loop (\<lambda>j. sleep (base * j)) k new ttl (Suc i) n ?r"
      using Some by (simp add: acquireLock_loop.simps [of _ _ _ _ _ "Suc n"] set_nx_def)
    ultimately show ?thesis using Suc.IH [of ?r "Suc i"] by (simp add: distrib_left add.assoc)
  qed
qed

text \<open>An abandoned lock with 10 s to live, met after one second and after eight.\<close>

definition abandoned :: "nat \<Rightarrow> redis" where
  "abandoned now = \<lparr>store = [''k'' \<mapsto> (0, 10000)], clock = now, tokens = 1\<rparr>"


text \<open>Two clients of one key: the first enters, the second misses, the first leaves, the second enters.\<close>

definition two_clients :: lock_config where
  "two_clients = \<lparr>key_of = (\<lambda>_. ''k''), ttl_of = (\<lambda>_. 10), retries_of = (\<lambda>_. 3)\<rparr>"

definition idle_system :: lock_system where
  "idle_system = \<lparr>redis_of = \<lparr>store = Map.empty, clock = 0, tokens = 0\<rparr>, client_of = (\<lambda>_. Trying 0)\<rparr>"

theorem locks_exclude_witness:
  "client_of (try_client two_clients 1 0 idle_system) 1 = Inside 0 0 \<and>
   (\<forall>d. client_of (try_client two_clients 1 0 idle_system) d = Inside 0 0 \<longleftrightarrow> d = 1)"
proof -
  let ?s = "try_client two_clients 1 0 idle_system"
  have "reachable two_clients idle_system" by (rule reachable.start) (simp_all add: idle_system_def)
  moreover have "lock_step two_clients idle_system ?s" by (rule attempt) (simp add: idle_system_def)
  ultimately have r: "reachable two_clients ?s" by (rule further)
  have c: "client_of ?s 1 = Inside 0 0" "clock (redis_of ?s) = 0"
    by (simp_all add: try_client_def two_clients_def idle_system_def redis_defs)
  then show ?thesis
    using locks_exclude [OF r _ c(1), of _ 0 0] by (auto simp: two_clients_def)
qed

end
