(* ===== verification/WalletReconciliation.thy ===== *)
theory WalletReconciliation
  imports TransferLaws Locks
begin

text \<open>
  The two read-only audits of the books: \<open>reconcileUser\<close> and the paginated sweep over all wallets
  (services/wallet-reconciliation.service.ts, with the aggregate queries of wallet.repository.ts),
  and \<open>getBalanceProjection\<close> and \<open>reconcileBalanceWithLedger\<close> (services/balance.service.ts). The
  theorems say what a clean report means.
\<close>

section \<open>Aggregates\<close>

definition all_currencies :: "currency list" where
  "all_currencies = [GOLD, FREE, EARNINGS, DIAMOND, GAME]"

definition entries_of :: "('z wdb_scheme) \<Rightarrow> nat \<Rightarrow> entry list" where
  "entries_of s i = filter (\<lambda>e. e_walletId e = i) (ledger s)"

definition sum_of :: "entry_type \<Rightarrow> entry list \<Rightarrow> int" where
  "sum_of ty es = sum_list (map e_amount (filter (\<lambda>e. e_type e = ty) es))"

text \<open>
  \<open>groupBy currency, type\<close>: one group per currency that occurs in the ledger of the wallet. The
  order in which the database returns the groups is not specified; the model fixes one.
\<close>

definition aggregateSignedByCurrency :: "('z wdb_scheme) \<Rightarrow> uid \<Rightarrow> (currency \<times> int \<times> int) list" where
  "aggregateSignedByCurrency s u =
     (case walletByUser s u of
        None \<Rightarrow> []
      | Some w \<Rightarrow>
          (let es = entries_of s (w_id w)
           in map (\<lambda>c. let cs = filter (\<lambda>e. e_currency e = c) es
                       in (c, sum_of CREDIT cs, sum_of DEBIT cs))
                (filter (\<lambda>c. c \<in> set (map e_currency es)) all_currencies)))"

record currency_drift =
  cd_currency :: currency
  cd_ledgerComputed :: int
  cd_balanceColumn :: int
  cd_drift :: int

definition reconcileUser :: "('z wdb_scheme) \<Rightarrow> uid \<Rightarrow> currency_drift list" where
  "reconcileUser s u =
     map (\<lambda>(c, credited, debited).
        let ledgerComputed = toNumber (credited - debited);
            balanceColumn = toNumber (case walletByUser s u of Some w \<Rightarrow> balance_of c w | None \<Rightarrow> 0)
        in \<lparr>cd_currency = c, cd_ledgerComputed = ledgerComputed, cd_balanceColumn = balanceColumn,
            cd_drift = ledgerComputed - balanceColumn\<rparr>)
       (aggregateSignedByCurrency s u)"

definition drifted :: "currency_drift list \<Rightarrow> bool" where
  "drifted ds = list_ex (\<lambda>d. cd_drift d \<noteq> 0) ds"

section \<open>The sweep\<close>

text \<open>The \<open>wallets\<close> table ordered by \<open>userId\<close>; the cursor row itself is skipped.\<close>

definition wallet_rows :: "('z wdb_scheme) \<Rightarrow> wallet list" where
  "wallet_rows s = List.map_filter (wallets s) [0..<next_id s]"

definition walletUsers :: "('z wdb_scheme) \<Rightarrow> uid list" where
  "walletUsers s = sort (map w_userId (wallet_rows s))"

definition listUserIdsAfter :: "uid list \<Rightarrow> uid option \<Rightarrow> nat \<Rightarrow> uid list" where
  "listUserIdsAfter users cursor n =
     (case cursor of
        None \<Rightarrow> take n users
      | Some c \<Rightarrow> take n (drop 1 (dropWhile (\<lambda>u. u \<noteq> c) users)))"

text \<open>
  The \<open>for (;;)\<close> of the sweep, over the users of the table and what reports them as drifted; it answers
  (scanned, drifted). It may run forever on a batch size of 0 or a table with repeated ids, and is then \<open>None\<close>.
\<close>

partial_function (option) sweep_loop ::
  "nat \<Rightarrow> uid list \<Rightarrow> (uid \<Rightarrow> bool) \<Rightarrow> uid option \<Rightarrow> nat \<Rightarrow> nat \<Rightarrow> (nat \<times> nat) option" where
  "sweep_loop batch users bad cursor scanned dr =
     (let ids = listUserIdsAfter users cursor batch
      in if ids = [] then Some (scanned, dr)
         else if length ids < batch then Some (scanned + length ids, dr + length (filter bad ids))
         else sweep_loop batch users bad (Some (last ids)) (scanned + length ids) (dr + length (filter bad ids)))"

definition WALLET_RECONCILE_BATCH_SIZE :: nat where
  "WALLET_RECONCILE_BATCH_SIZE = 500"

definition WALLET_RECONCILE_LOCK_KEY :: string where
  "WALLET_RECONCILE_LOCK_KEY = ''wallet:reconcile:sweep''"

datatype sweep_answer = UserReport "currency_drift list" | FleetReport nat nat | Endless

text \<open>
  What runs under the lock only reads the wallet's tables \<open>s\<close>: one user when the job names one, the fleet
  otherwise. The lock is taken with the defaults of \<open>withLock\<close>.
\<close>

definition sweep_job :: "uid option \<Rightarrow> ('z wdb_scheme) \<Rightarrow> sweep_answer" where
  "sweep_job data s =
     (case data of
        Some u \<Rightarrow> UserReport (reconcileUser s u)
      | None \<Rightarrow>
          (case sweep_loop WALLET_RECONCILE_BATCH_SIZE (walletUsers s) (\<lambda>u. drifted (reconcileUser s u)) None 0 0 of
             Some (scanned, dr) \<Rightarrow> FleetReport scanned dr
           | None \<Rightarrow> Endless))"

definition handleSweep ::
  "(redis \<Rightarrow> redis) \<Rightarrow> uid option \<Rightarrow> ('z wdb_scheme) \<Rightarrow> (redis, sweep_answer) act" where
  "handleSweep wait data s =
     withLock wait WALLET_RECONCILE_LOCK_KEY 10000 20 (returnA (sweep_job data s))"

section \<open>BalanceService\<close>

record projection =
  p_walletId :: nat
  p_userId :: uid
  p_availableBalance :: int
  p_reservedBalance :: int
  p_pendingBalance :: int
  p_lockedBalance :: int
  p_totalBalance :: int
  p_gold :: int
  p_game :: int
  p_diamond :: int
  p_version :: int

definition getBalanceProjection :: "nat \<Rightarrow> ('z wdb_scheme, projection) act" where
  "getBalanceProjection i =
     bindA (getWalletById i) (\<lambda>w.
     (let avail = goldBalance w - reservedBalance w;
          total = avail + reservedBalance w + pendingBalance w + lockedBalance w
      in returnA \<lparr>p_walletId = w_id w, p_userId = w_userId w, p_availableBalance = avail,
                  p_reservedBalance = reservedBalance w, p_pendingBalance = pendingBalance w,
                  p_lockedBalance = lockedBalance w,
                  p_totalBalance = total, p_gold = toNumber (goldBalance w),
                  p_game = toNumber (gameBalance w), p_diamond = toNumber (diamondBalance w),
                  p_version = version w\<rparr>))"

fun credit_debit_sums :: "entry list \<Rightarrow> int \<times> int \<Rightarrow> int \<times> int" where
  "credit_debit_sums [] acc = acc"
| "credit_debit_sums (e # es) (cr, de) =
     credit_debit_sums es
       (case e_type e of CREDIT \<Rightarrow> (cr + e_amount e, de) | DEBIT \<Rightarrow> (cr, de + e_amount e))"

record ledger_check =
  lc_cachedAvailable :: int
  lc_derivedNet :: int
  lc_isReconciled :: bool
  lc_totalEntries :: nat

definition reconcileBalanceWithLedger :: "nat \<Rightarrow> ('z wdb_scheme, ledger_check) act" where
  "reconcileBalanceWithLedger i =
     bindA (getWalletById i) (\<lambda>w.
     bindA (getsA (\<lambda>s. entries_of s i)) (\<lambda>es.
     (let cd = credit_debit_sums es (0, 0);
          net = fst cd - snd cd
      in returnA \<lparr>lc_cachedAvailable = availableBalance w, lc_derivedNet = net,
                  lc_isReconciled = (net = availableBalance w), lc_totalEntries = length es\<rparr>)))"

section \<open>What a report means\<close>

lemma sum_of_net:
  "sum_of CREDIT (filter (\<lambda>e. e_currency e = c) (entries_of s i)) -
   sum_of DEBIT (filter (\<lambda>e. e_currency e = c) (entries_of s i)) = ledger_net (ledger s) i c"
proof -
  have "sum_list (map e_amount (filter (\<lambda>e. e_type e = CREDIT)
          (filter (\<lambda>e. e_currency e = c) (filter (\<lambda>e. e_walletId e = i) es)))) -
        sum_list (map e_amount (filter (\<lambda>e. e_type e = DEBIT)
          (filter (\<lambda>e. e_currency e = c) (filter (\<lambda>e. e_walletId e = i) es)))) = ledger_net es i c" for es
    by (induction es) (auto simp: ledger_net_def signed_def split: entry_type.splits)
  then show ?thesis by (simp add: sum_of_def entries_of_def)
qed

definition occurs :: "('z wdb_scheme) \<Rightarrow> nat \<Rightarrow> currency \<Rightarrow> bool" where
  "occurs s i c \<longleftrightarrow> (\<exists>e \<in> set (ledger s). e_walletId e = i \<and> e_currency e = c)"

lemma all_currencies_all: "c \<in> set all_currencies"
  by (cases c) (simp_all add: all_currencies_def)

lemma occurs_entries: "c \<in> set (map e_currency (entries_of s i)) \<longleftrightarrow> occurs s i c"
  by (auto simp: entries_of_def occurs_def)

lemma aggregate_eq:
  assumes "walletByUser s u = Some w"
  shows "aggregateSignedByCurrency s u =
    map (\<lambda>c. (c, sum_of CREDIT (filter (\<lambda>e. e_currency e = c) (entries_of s (w_id w))),
                sum_of DEBIT (filter (\<lambda>e. e_currency e = c) (entries_of s (w_id w)))))
      (filter (occurs s (w_id w)) all_currencies)"
  using assms by (simp add: aggregateSignedByCurrency_def Let_def occurs_entries [abs_def] del: set_map)

lemma reconcileUser_eq:
  assumes w: "walletByUser s u = Some w"
  shows "reconcileUser s u =
    map (\<lambda>c. let l = toNumber (ledger_net (ledger s) (w_id w) c); b = toNumber (balance_of c w)
             in \<lparr>cd_currency = c, cd_ledgerComputed = l, cd_balanceColumn = b, cd_drift = l - b\<rparr>)
      (filter (occurs s (w_id w)) all_currencies)"
  by (simp add: reconcileUser_def aggregate_eq [OF w] w sum_of_net o_def)

lemma drifted_iff:
  assumes w: "walletByUser s u = Some w"
  shows "drifted (reconcileUser s u) \<longleftrightarrow>
    (\<exists>c. occurs s (w_id w) c \<and> toNumber (ledger_net (ledger s) (w_id w) c) \<noteq> toNumber (balance_of c w))"
  using all_currencies_all by (auto simp: drifted_def reconcileUser_eq [OF w] list_ex_iff Let_def)

lemma no_entries_net: "\<not> occurs s i c \<Longrightarrow> ledger_net (ledger s) i c = 0"
proof -
  assume "\<not> occurs s i c"
  then have "filter (\<lambda>e. e_walletId e = i \<and> e_currency e = c) (ledger s) = []"
    by (auto simp: occurs_def filter_empty_conv)
  then show ?thesis by (simp add: ledger_net_def)
qed

text \<open>
  C23: The report of a user with a wallet has one line for each currency in which the wallet has ledger
  entries, with the drift between the ledger's sum and the column, both rounded to a double; when they are
  doubles exactly, the currencies it reports as drifted are those of its lines whose column differs from the
  ledger. A column without any entry has no line.
\<close>

theorem reconcile_reports_books:
  assumes w: "walletByUser s u = Some w"
  shows "map cd_currency (reconcileUser s u) =
      filter (\<lambda>c. \<exists>e \<in> set (ledger s). e_walletId e = w_id w \<and> e_currency e = c) all_currencies \<and>
    (\<forall>d \<in> set (reconcileUser s u). cd_drift d =
       toNumber (ledger_net (ledger s) (w_id w) (cd_currency d)) - toNumber (balance_of (cd_currency d) w)) \<and>
    ((\<forall>c. \<bar>balance_of c w\<bar> \<le> 2 ^ 53 \<and> \<bar>ledger_net (ledger s) (w_id w) c\<bar> \<le> 2 ^ 53) \<longrightarrow>
       (\<forall>d \<in> set (reconcileUser s u). cd_drift d \<noteq> 0 \<longleftrightarrow>
          ledger_net (ledger s) (w_id w) (cd_currency d) \<noteq> balance_of (cd_currency d) w))"
proof -
  have "map cd_currency (reconcileUser s u) = filter (occurs s (w_id w)) all_currencies"
    by (simp add: reconcileUser_eq [OF w] Let_def comp_def)
  moreover have drift: "cd_drift d =
      toNumber (ledger_net (ledger s) (w_id w) (cd_currency d)) - toNumber (balance_of (cd_currency d) w)"
    if "d \<in> set (reconcileUser s u)" for d
    using that by (auto simp: reconcileUser_eq [OF w] Let_def)
  ultimately show ?thesis by (auto simp: occurs_def [abs_def])
qed

text \<open>A wallet with 30 diamonds that no entry accounts for: the report of its owner is clean.\<close>

definition unaccounted_db :: wdb where
  "unaccounted_db = funded_db\<lparr>wallets := (\<lambda>i. map_option (diamondBalance_update (\<lambda>_. 30)) (wallets funded_db i))\<rparr>"

theorem reconcile_reports_books_witness:
  "map cd_currency (reconcileUser funded_db 7) = [GOLD] \<and> \<not> drifted (reconcileUser funded_db 7) \<and>
   \<not> books unaccounted_db \<and> map cd_currency (reconcileUser unaccounted_db 7) = [GOLD]"
proof -
  have c: "map_option (\<lambda>w. (w_id w, goldBalance w)) (walletByUser funded_db 7) = Some (1, 50)"
    "map_option (\<lambda>w. (w_id w, diamondBalance w)) (walletByUser unaccounted_db 7) = Some (1, 30)"
    "map_option diamondBalance (wallets unaccounted_db 1) = Some 30" "ledger_net (ledger unaccounted_db) 1 DIAMOND = 0"
    "map (\<lambda>e. (e_walletId e, e_currency e)) (ledger funded_db) = [(1, GOLD)]"
    "map (\<lambda>e. (e_walletId e, e_currency e)) (ledger unaccounted_db) = [(1, GOLD)]"
    "ledger_net (ledger funded_db) 1 GOLD = 50" "toNumber 50 = 50" by code_simp+
  obtain w v where w: "walletByUser funded_db 7 = Some w" "w_id w = 1" "goldBalance w = 50"
    and v: "walletByUser unaccounted_db 7 = Some v" "w_id v = 1" using c(1,2) by auto
  have one: "(\<exists>e \<in> set es. e_walletId e = 1 \<and> e_currency e = d) \<longleftrightarrow> d = GOLD"
    if "map (\<lambda>e. (e_walletId e, e_currency e)) es = [(1, GOLD)]" for es d using that by auto
  note F = reconcile_reports_books [OF w(1), unfolded w(2) one [OF c(5)]]
    and U = reconcile_reports_books [OF v(1), unfolded v(2) one [OF c(6)]]
  have lines: "map cd_currency (reconcileUser funded_db 7) = [GOLD]" "map cd_currency (reconcileUser unaccounted_db 7) = [GOLD]"
    using F U by (simp_all add: all_currencies_def)
  have "cd_drift d = 0" if "d \<in> set (reconcileUser funded_db 7)" for d
  proof -
    have "cd_currency d = GOLD" using that lines(1) by auto
    then show ?thesis using F that w(3) c(7,8) by simp
  qed
  then have "\<not> drifted (reconcileUser funded_db 7)" by (auto simp: drifted_def list_ex_iff)
  moreover obtain x where x: "wallets unaccounted_db 1 = Some x" "diamondBalance x = 30" using c(3) by auto
  have "\<not> books unaccounted_db"
  proof
    assume "books unaccounted_db"
    then have "balance_of DIAMOND x = ledger_net (ledger unaccounted_db) 1 DIAMOND" using x(1) by (simp only: books_def)
    then show False using x(2) c(4) by simp
  qed
  ultimately show ?thesis using lines by simp
qed

text \<open>A wallet of 2 to the 53 plus one coins whose ledger accounts for 2 to the 53.\<close>

definition rounding_db :: wdb where
  "rounding_db =
     (let w = (empty_wallet 1 7 USER_WALLET)\<lparr>goldBalance := 2 ^ 53 + 1\<rparr>;
          e = \<lparr>e_transactionId = 2, e_walletId = 1, e_type = CREDIT, e_currency = GOLD, e_reason = RECHARGE,
               e_amount = 2 ^ 53, e_balanceBefore = 0, e_balanceAfter = 2 ^ 53, e_referenceType = None,
               e_referenceId = None, e_description = None, e_actorId = None\<rparr>
      in init_db\<lparr>wallets := [1 \<mapsto> w], wallet_of := [7 \<mapsto> 1], ledger := [e], next_id := 3\<rparr>)"

lemma rounding_wf: "wf_db rounding_db"
  by (auto simp: wf_db_def rounding_db_def init_db_def Let_def)

lemma toNumber_rounds: "toNumber 9007199254740993 = 9007199254740992"
proof -
  have "bit_len 9007199254740993 = Suc 53" by (rule bit_len_power) simp_all
  then show ?thesis by (simp add: toNumber_def round_even_def)
qed

text \<open>
  Above 2 to the 53 the report compares rounded numbers: the ledger and the gold column of
  this database differ by one coin, and the report shows no drift.
\<close>

theorem rounding_hides_drift:
  "\<not> books rounding_db \<and> \<not> drifted (reconcileUser rounding_db 7) \<and>
   user_balance rounding_db 7 GOLD = ledger_net (ledger rounding_db) 1 GOLD + 1"
proof -
  have u: "\<not> drifted (reconcileUser rounding_db 7)"
    "user_balance rounding_db 7 GOLD = ledger_net (ledger rounding_db) 1 GOLD + 1"
    by (simp_all add: rounding_db_def init_db_def Let_def drifted_def reconcileUser_def
        aggregateSignedByCurrency_def walletByUser_def entries_of_def all_currencies_def sum_of_def
        user_balance_def ledger_net_def signed_def toNumber_rounds)
  have "\<not> books rounding_db"
  proof
    assume "books rounding_db"
    moreover obtain w where "wallets rounding_db 1 = Some w" "goldBalance w = 2 ^ 53 + 1"
      by (simp add: rounding_db_def Let_def)
    ultimately have "2 ^ 53 + 1 = ledger_net (ledger rounding_db) 1 GOLD"
      unfolding books_def by (metis balance_of.simps(1))
    then show False by (simp add: rounding_db_def Let_def ledger_net_def signed_def)
  qed
  with u show ?thesis by simp
qed

section \<open>The sweep visits every wallet once\<close>

lemma page_after:
  assumes "distinct (pre @ rest)"
  shows "listUserIdsAfter (pre @ rest) (if pre = [] then None else Some (last pre)) n = take n rest"
proof (cases pre rule: rev_cases)
  case (snoc ys y)
  then have "dropWhile (\<lambda>u. u \<noteq> y) (ys @ y # rest) = y # rest"
    using assms by (subst dropWhile_append2) auto
  then show ?thesis by (simp add: listUserIdsAfter_def snoc)
qed (simp add: listUserIdsAfter_def)

lemma sweep_loop_eq:
  assumes "distinct (pre @ rest)" "0 < batch"
  shows "sweep_loop batch (pre @ rest) bad (if pre = [] then None else Some (last pre)) n d =
    Some (n + length rest, d + length (filter bad rest))"
  using assms
proof (induction "length rest" arbitrary: pre rest n d rule: less_induct)
  case less
  note page = page_after [OF less.prems(1), of batch]
  show ?case
  proof (cases "length rest < batch")
    case True
    then show ?thesis using less.prems(2) by (subst sweep_loop.simps) (auto simp: page Let_def)
  next
    case False
    let ?ids = "take batch rest"
    have ne: "?ids \<noteq> []" "length ?ids = batch" "rest \<noteq> []" using False less.prems(2) by auto
    have "sweep_loop batch ((pre @ ?ids) @ drop batch rest) bad
        (if pre @ ?ids = [] then None else Some (last (pre @ ?ids)))
        (n + length ?ids) (d + length (filter bad ?ids)) =
      Some (n + length ?ids + length (drop batch rest),
            d + length (filter bad ?ids) + length (filter bad (drop batch rest)))"
      using less.prems ne False by (intro less.hyps) auto
    moreover have "filter bad rest = filter bad ?ids @ filter bad (drop batch rest)"
      by (metis append_take_drop_id filter_append)
    ultimately show ?thesis using ne False by (subst sweep_loop.simps) (simp add: page Let_def)
  qed
qed

lemma wallet_rows_ids:
  assumes wf: "wf_db s"
  shows "map w_id (wallet_rows s) = filter (\<lambda>i. wallets s i \<noteq> None) [0..<next_id s]"
proof -
  have "map w_id (List.map_filter (wallets s) is) = filter (\<lambda>i. wallets s i \<noteq> None) is" for "is"
    using wf_w_id [OF wf] by (induction "is") (auto simp: List.map_filter_simps split: option.splits)
  then show ?thesis by (simp add: wallet_rows_def)
qed

lemma walletUsers_set:
  assumes wf: "wf_db s"
  shows "set (walletUsers s) = dom (wallet_of s)" "distinct (walletUsers s)"
proof -
  have rows: "w \<in> set (wallet_rows s) \<longleftrightarrow> (\<exists>i. wallets s i = Some w)" for w
    using wf_w_fresh [OF wf] by (force simp: wallet_rows_def List.map_filter_def image_iff)
  have "u \<in> dom (wallet_of s) \<longleftrightarrow> u \<in> w_userId ` set (wallet_rows s)" for u
    unfolding image_iff Bex_def rows using wf_index [OF wf, of u] wf_wallet_of [OF wf] by (metis domD domI)
  then show "set (walletUsers s) = dom (wallet_of s)" by (auto simp: walletUsers_def)
  have "distinct (map w_id (wallet_rows s))" by (simp add: wallet_rows_ids [OF wf])
  then have d: "distinct (wallet_rows s)" by (simp add: distinct_map)
  have "inj_on w_userId (set (wallet_rows s))"
  proof (rule inj_onI)
    fix v w assume "v \<in> set (wallet_rows s)" "w \<in> set (wallet_rows s)" "w_userId v = w_userId w"
    then obtain i j where "wallets s i = Some v" "wallets s j = Some w" by (auto simp: rows)
    moreover have "i = j" using calculation wf_wallet_of [OF wf] \<open>w_userId v = w_userId w\<close>
      by (metis option.inject)
    ultimately show "v = w" by simp
  qed
  with d show "distinct (walletUsers s)" by (simp add: walletUsers_def distinct_map)
qed

lemma sweep_job_all:
  assumes wf: "wf_db s"
  shows "sweep_job None s = FleetReport (card (dom (wallet_of s))) (card {u \<in> dom (wallet_of s). drifted (reconcileUser s u)})"
proof -
  note U = walletUsers_set [OF wf]
  have len: "length (walletUsers s) = card (dom (wallet_of s))" using U distinct_card by metis
  have bad: "length (filter (\<lambda>u. drifted (reconcileUser s u)) (walletUsers s)) =
      card {u \<in> dom (wallet_of s). drifted (reconcileUser s u)}"
    using distinct_card [OF distinct_filter [OF U(2)]] U(1) by (simp add: set_filter)
  show ?thesis
    using sweep_loop_eq [of "[]" "walletUsers s" WALLET_RECONCILE_BATCH_SIZE "\<lambda>u. drifted (reconcileUser s u)" 0 0] U(2) len bad
    by (simp add: sweep_job_def WALLET_RECONCILE_BATCH_SIZE_def)
qed

text \<open>
  C24: A sweep of the fleet that finds its lock free ends: it has reconciled every wallet exactly once, reports the
  number of wallets and the number of drifted ones, and leaves the lock free.
\<close>

theorem sweep_complete:
  assumes wf: "wf_db s" and free: "live WALLET_RECONCILE_LOCK_KEY r = None"
  shows "\<exists>r'. handleSweep wait None s r =
      (Inr (FleetReport (card (dom (wallet_of s))) (card {u \<in> dom (wallet_of s). drifted (reconcileUser s u)})), r') \<and>
    live WALLET_RECONCILE_LOCK_KEY r' = None"
proof -
  let ?k = WALLET_RECONCILE_LOCK_KEY
  let ?tok = "tokens r" and ?r1 = "r\<lparr>tokens := Suc (tokens r), store := (store r)(?k \<mapsto> (tokens r, clock r + 10000))\<rparr>"
  have a: "acquire ?k 10000 r = (Some ?tok, ?r1)" "live ?k ?r1 = Some ?tok"
    using free by (simp_all add: acquire_def randomUUID_def set_nx_def) (simp add: live_def)
  then have "handleSweep wait None s r = (Inr (sweep_job None s), snd (release_script WALLET_RECONCILE_LOCK_KEY ?tok ?r1))"
    by (simp add: handleSweep_def withLock_def acquire_loop.simps [of _ _ _ 20] returnA_def)
  moreover have "live WALLET_RECONCILE_LOCK_KEY (snd (release_script WALLET_RECONCILE_LOCK_KEY ?tok ?r1)) = None"
    using a(2) by (simp add: release_script_def) (simp add: live_def)
  ultimately show ?thesis using sweep_job_all [OF wf] by simp
qed

theorem sweep_complete_witness:
  "\<exists>r'. handleSweep (sleep 100) None funded_db \<lparr>store = Map.empty, clock = 0, tokens = 0\<rparr> = (Inr (FleetReport 1 0), r')"
proof -
  have d: "dom (wallet_of funded_db) = {7}"
  proof -
    have "walletUsers funded_db = [7]" by code_simp
    then show ?thesis using walletUsers_set(1) [OF funded_ok(1)] by simp
  qed
  have "\<not> drifted (reconcileUser funded_db 7)" by code_simp
  then have "{u \<in> {7}. drifted (reconcileUser funded_db u)} = {}" by auto
  moreover have "live WALLET_RECONCILE_LOCK_KEY \<lparr>store = Map.empty, clock = 0, tokens = 0\<rparr> = None" by (simp add: live_def)
  from sweep_complete [OF funded_ok(1) this, of "sleep 100"] obtain r' where
    "handleSweep (sleep 100) None funded_db \<lparr>store = Map.empty, clock = 0, tokens = 0\<rparr> =
      (Inr (FleetReport (card (dom (wallet_of funded_db))) (card {u \<in> dom (wallet_of funded_db). drifted (reconcileUser funded_db u)})), r')"
    by blast
  ultimately show ?thesis by (auto simp: d)
qed

lemma credit_debit_sums_eq:
  "credit_debit_sums es (cr, de) = (cr + sum_of CREDIT es, de + sum_of DEBIT es)"
  by (induction es arbitrary: cr de) (auto simp: sum_of_def split: entry_type.splits)

lemma net_all_currencies:
  "sum_of CREDIT (entries_of s i) - sum_of DEBIT (entries_of s i) =
     (\<Sum>c \<leftarrow> all_currencies. ledger_net (ledger s) i c)"
proof -
  have "sum_list (map e_amount (filter (\<lambda>e. e_type e = CREDIT) (filter (\<lambda>e. e_walletId e = i) es))) -
      sum_list (map e_amount (filter (\<lambda>e. e_type e = DEBIT) (filter (\<lambda>e. e_walletId e = i) es))) =
      (\<Sum>c \<leftarrow> all_currencies. ledger_net es i c)" for es
  proof (induction es)
    case (Cons e es)
    then show ?case
      by (cases "e_currency e"; cases "e_type e")
        (auto simp: all_currencies_def ledger_net_def signed_def)
  qed (simp add: all_currencies_def)
  then show ?thesis by (simp add: sum_of_def entries_of_def)
qed

text \<open>
  \<open>reconcileBalanceWithLedger\<close> nets the entries of all currencies against the available gold:
  on books that balance, for a wallet whose gold is available plus reserved, it answers reconciled
  exactly when the reserved coins and the other four columns add up to zero.
\<close>

theorem ledger_check_mixes_currencies:
  assumes bk: "books s" and w: "wallets s i = Some w"
    and split: "goldBalance w = availableBalance w + reservedBalance w"
  shows "\<exists>r. reconcileBalanceWithLedger i s = (Inr r, s) \<and> lc_cachedAvailable r = availableBalance w \<and>
    (lc_isReconciled r \<longleftrightarrow>
       reservedBalance w + freeBalance w + earningsBalance w + diamondBalance w + gameBalance w = 0)"
proof -
  have b: "ledger_net (ledger s) i c = balance_of c w" for c using bk w by (simp add: books_def)
  have "sum_of CREDIT (entries_of s i) - sum_of DEBIT (entries_of s i) =
      goldBalance w + freeBalance w + earningsBalance w + diamondBalance w + gameBalance w"
    by (simp add: net_all_currencies all_currencies_def b)
  then show ?thesis
    using w split
    by (auto simp: reconcileBalanceWithLedger_def getWalletById_def bindA_def getsA_def returnA_def
        credit_debit_sums_eq Let_def)
qed

theorem ledger_check_mixes_currencies_witness:
  "\<exists>r. reconcileBalanceWithLedger 1 funded_db = (Inr r, funded_db) \<and> lc_isReconciled r"
proof -
  have "case wallets funded_db 1 of None \<Rightarrow> False | Some w \<Rightarrow>
      goldBalance w = 50 \<and> availableBalance w = 50 \<and> reservedBalance w = 0 \<and> freeBalance w = 0 \<and>
      earningsBalance w = 0 \<and> diamondBalance w = 0 \<and> gameBalance w = 0" by code_simp
  then obtain w where "wallets funded_db 1 = Some w" "goldBalance w = availableBalance w + reservedBalance w"
    "reservedBalance w + freeBalance w + earningsBalance w + diamondBalance w + gameBalance w = 0"
    by (auto split: option.splits)
  with ledger_check_mixes_currencies [OF funded_ok(2) this(1,2)] show ?thesis by auto
qed

end
