(* ===== verification/WalletReservations.thy ===== *)
theory WalletReservations
  imports TransferLaws
begin

text \<open>
  Coin reservations, src/modules/wallet/services/reservation.service.ts. Reserving re-checks the
  balance under the row lock. Releasing and consuming read the reservation and check its status
  before the transaction opens, so each is a check phase and a commit phase here too.
\<close>

section \<open>Operations\<close>

record reserve_dto =
  rs_userId :: uid
  rs_amount :: int
  rs_currency :: "currency option"
  rs_purpose :: string
  rs_referenceType :: "string option"
  rs_referenceId :: "string option"
  rs_expiresInSeconds :: "nat option"

record reservation_view =
  rv_reservation :: reservation
  rv_available :: int
  rv_reserved :: int

definition reserve_check :: "reserve_dto \<Rightarrow> ('z wdb_scheme, wallet) act" where
  "reserve_check dto =
     bindA validateEconomyStatus (\<lambda>_.
     bindA (getOrCreateWallet (rs_userId dto) USER_WALLET) (\<lambda>w.
     bindA (validateWalletActive w) (\<lambda>_.
     bindA (validatePositiveAmount (rs_amount dto)) (\<lambda>_.
     bindA (validateSufficientBalance w (rs_amount dto) None) (\<lambda>_.
     returnA w)))))"

definition createReservation :: "(nat \<Rightarrow> reservation) \<Rightarrow> ('z wdb_scheme, reservation) act" where
  "createReservation mk s =
     (let r = mk (next_id s)
      in (Inr r, s\<lparr>reservations := (reservations s)(next_id s \<mapsto> r), next_id := Suc (next_id s)\<rparr>))"

definition expires_at :: "int \<Rightarrow> nat option \<Rightarrow> int option" where
  "expires_at now secs =
     (case secs of Some n \<Rightarrow> if n = 0 then None else Some (now + int n * 1000) | None \<Rightarrow> None)"

definition new_reservation :: "reserve_dto \<Rightarrow> int \<Rightarrow> nat \<Rightarrow> nat \<Rightarrow> reservation" where
  "new_reservation dto now wid i =
     \<lparr>r_id = i, r_walletId = wid, r_currency = or_gold (rs_currency dto), r_amount = rs_amount dto,
      r_purpose = rs_purpose dto, r_status = HELD, r_referenceType = rs_referenceType dto,
      r_referenceId = rs_referenceId dto, r_expiresAt = expires_at now (rs_expiresInSeconds dto)\<rparr>"

definition hold_update :: "int \<Rightarrow> wallet \<Rightarrow> wallet" where
  "hold_update amt w = w\<lparr>availableBalance := availableBalance w - amt,
     reservedBalance := reservedBalance w + amt, version := version w + 1\<rparr>"

definition reserve_commit :: "reserve_dto \<Rightarrow> uid option \<Rightarrow> int \<Rightarrow> wallet \<Rightarrow> ('z wdb_scheme, reservation_view) act" where
  "reserve_commit dto actor now w =
     transaction (
       bindA (findWallet (w_id w) ''Wallet not found'') (\<lambda>lockedWallet.
       bindA (validateWalletActive lockedWallet) (\<lambda>_.
       bindA (validateSufficientBalance lockedWallet (rs_amount dto) None) (\<lambda>_.
       bindA (putWallet (w_id w) (hold_update (rs_amount dto))) (\<lambda>updated.
       bindA (createReservation (new_reservation dto now (w_id w))) (\<lambda>r.
       bindA (logAudit (w_id w) ''RESERVATION_CREATED'' actor) (\<lambda>_.
       returnA \<lparr>rv_reservation = r, rv_available = availableBalance updated,
                rv_reserved = reservedBalance updated\<rparr>)))))))"

definition reserveCoins :: "reserve_dto \<Rightarrow> uid option \<Rightarrow> int \<Rightarrow> ('z wdb_scheme, reservation_view) act" where
  "reserveCoins dto actor now = bindA (reserve_check dto) (reserve_commit dto actor now)"

text \<open>The check that opens \<open>releaseReservation\<close> and \<open>consumeReservation\<close>.\<close>

definition held_check :: "nat \<Rightarrow> ('z wdb_scheme, reservation) act" where
  "held_check i =
     bindA (getsA (\<lambda>s. reservations s i)) (\<lambda>found.
     (case found of
        None \<Rightarrow> throwA (NotFound ''Reservation not found'')
      | Some r \<Rightarrow>
          bindA (guardA (r_status r = HELD) (BadRequest ''Reservation is not active'')) (\<lambda>_.
          returnA r)))"

definition setReservationStatus :: "nat \<Rightarrow> reservation_status \<Rightarrow> ('z wdb_scheme, reservation) act" where
  "setReservationStatus i st s =
     (case reservations s i of
        None \<Rightarrow> (Inl (OtherError ''P2025''), s)
      | Some r \<Rightarrow> (let r' = r\<lparr>r_status := st\<rparr>
                   in (Inr r', s\<lparr>reservations := (reservations s)(i \<mapsto> r')\<rparr>)))"

definition release_update :: "int \<Rightarrow> wallet \<Rightarrow> wallet" where
  "release_update amt w = w\<lparr>availableBalance := availableBalance w + amt,
     reservedBalance := reservedBalance w - amt, version := version w + 1\<rparr>"

definition consume_update :: "int \<Rightarrow> wallet \<Rightarrow> wallet" where
  "consume_update amt w = w\<lparr>reservedBalance := reservedBalance w - amt,
     totalSpent := totalSpent w + amt, version := version w + 1\<rparr>"

text \<open>The transaction of both: they differ in the row update, the new status and the audit row.\<close>

definition close_commit ::
  "(int \<Rightarrow> wallet \<Rightarrow> wallet) \<Rightarrow> reservation_status \<Rightarrow> string \<Rightarrow> uid option \<Rightarrow> reservation \<Rightarrow>
     ('z wdb_scheme, reservation_view) act" where
  "close_commit f st action actor r =
     transaction (
       bindA (putWallet (r_walletId r) (f (r_amount r))) (\<lambda>updated.
       bindA (setReservationStatus (r_id r) st) (\<lambda>r'.
       bindA (logAudit (r_walletId r) action actor) (\<lambda>_.
       returnA \<lparr>rv_reservation = r', rv_available = availableBalance updated,
                rv_reserved = reservedBalance updated\<rparr>))))"

definition release_commit :: "uid option \<Rightarrow> reservation \<Rightarrow> ('z wdb_scheme, reservation_view) act" where
  "release_commit = close_commit release_update RELEASED ''RESERVATION_RELEASED''"

definition consume_commit :: "uid option \<Rightarrow> reservation \<Rightarrow> ('z wdb_scheme, reservation_view) act" where
  "consume_commit = close_commit consume_update CONSUMED ''RESERVATION_CONSUMED''"

definition releaseReservation :: "nat \<Rightarrow> uid option \<Rightarrow> ('z wdb_scheme, reservation_view) act" where
  "releaseReservation i actor = bindA (held_check i) (release_commit actor)"

definition consumeReservation :: "nat \<Rightarrow> uid option \<Rightarrow> ('z wdb_scheme, reservation_view) act" where
  "consumeReservation i actor = bindA (held_check i) (consume_commit actor)"

section \<open>What each operation does\<close>

text \<open>A change of one wallet row that leaves the balance columns alone.\<close>

definition row_step :: "nat \<Rightarrow> (wallet \<Rightarrow> wallet) \<Rightarrow> ('z wdb_scheme) \<Rightarrow> ('z wdb_scheme) \<Rightarrow> bool" where
  "row_step i f s s' \<longleftrightarrow> keeps_ids (at_row i f) \<and> (\<forall>c w. balance_of c (f w) = balance_of c w) \<and>
     wallets s' = (\<lambda>k. map_option (at_row i f k) (wallets s k)) \<and> wallet_of s' = wallet_of s \<and>
     txns s' = txns s \<and> ledger s' = ledger s \<and> next_id s \<le> next_id s' \<and> wdb.more s' = wdb.more s"

lemma row_step_wf:
  assumes wf: "wf_db s" and b: "row_step i f s s'"
  shows "wf_db s'"
proof (rule wf_dbI)
  note B = b [unfolded row_step_def keeps_ids_def]
  fix u j assume "wallet_of s' u = Some j"
  then have "wallet_of s u = Some j" using B by simp
  then obtain w where "wallets s j = Some w" "w_userId w = u" using wf_index [OF wf] by blast
  then show "\<exists>w. wallets s' j = Some w \<and> w_userId w = u" using B by simp
next
  note B = b [unfolded row_step_def keeps_ids_def]
  fix j w assume "wallets s' j = Some w"
  then obtain w0 where w0: "wallets s j = Some w0" "w = at_row i f j w0" using B by auto
  show "wallet_of s' (w_userId w) = Some j" "w_id w = j" "j < next_id s'"
    using B w0 wf_wallet_of [OF wf w0(1)] wf_w_id [OF wf w0(1)] wf_w_fresh [OF wf w0(1)] by auto
next
  note B = b [unfolded row_step_def]
  show "e_walletId e < next_id s'" if "e \<in> set (ledger s')" for e
    using B that wf_entry [OF wf, of e] by auto
  show "t_idempotencyKey t = k" "t_id t < next_id s'" if "txns s' k = Some t" for k t
    using B that wf_txn_key [OF wf, of k t] wf_txn_fresh [OF wf, of k t] by auto
qed

lemma row_step_wallet:
  "row_step i f s s' \<Longrightarrow> wallets s k = Some w \<Longrightarrow> wallets s' k = Some (if k = i then f w else w)"
  by (simp add: row_step_def at_row_def)

lemma row_step_column:
  assumes b: "row_step i f s s'" and wf: "wf_db s" and w: "wallets s i = Some w"
    and g: "\<And>v. g (f v) = (g v :: int) + d"
  shows "(case walletByUser s' u of None \<Rightarrow> 0 | Some v \<Rightarrow> g v) =
    (case walletByUser s u of None \<Rightarrow> 0 | Some v \<Rightarrow> g v) + (if u = w_userId w then d else 0)"
proof (cases "wallet_of s u")
  case None
  moreover have "u \<noteq> w_userId w" using wf_wallet_of [OF wf w] None by auto
  ultimately show ?thesis using b by (simp add: row_step_def walletByUser_def)
next
  case (Some k)
  then obtain v where v: "wallets s k = Some v" "w_userId v = u" by (rule wf_user_index [OF wf])
  have k: "k = i \<longleftrightarrow> u = w_userId w" using wf_wallet_of [OF wf w] v Some w by (metis option.inject)
  have "walletByUser s' u = wallets s' k" using b Some by (simp add: row_step_def walletByUser_def)
  then show ?thesis
    using row_step_wallet [OF b v(1)] Some v w k g by (auto simp: walletByUser_def)
qed

lemma row_step_balance:
  assumes b: "row_step i f s s'" and wf: "wf_db s"
  shows "user_balance s' u c = user_balance s u c"
proof (cases "wallet_of s u")
  case None
  then show ?thesis using b by (simp add: row_step_def user_balance_def walletByUser_def)
next
  case (Some k)
  then obtain v where v: "wallets s k = Some v" "w_userId v = u" by (rule wf_user_index [OF wf])
  then show ?thesis
    using row_step_wallet [OF b v(1)] b Some
    by (simp add: user_balance_def walletByUser_def row_step_def)
qed

definition reserved :: "('z wdb_scheme) \<Rightarrow> uid \<Rightarrow> int" where
  "reserved s u = (case walletByUser s u of None \<Rightarrow> 0 | Some w \<Rightarrow> reservedBalance w)"

lemma updates_sel [simp]:
  "balance_of c (hold_update a w) = balance_of c w"
  "balance_of c (release_update a w) = balance_of c w"
  "balance_of c (consume_update a w) = balance_of c w"
  "w_id (hold_update a w) = w_id w" "w_id (release_update a w) = w_id w" "w_id (consume_update a w) = w_id w"
  "w_userId (hold_update a w) = w_userId w" "w_userId (release_update a w) = w_userId w"
  "w_userId (consume_update a w) = w_userId w"
  by (cases c; simp add: hold_update_def release_update_def consume_update_def)+

lemma row_stepI:
  assumes "wallets s i = Some w" "\<And>v. w_id (f v) = w_id v \<and> w_userId (f v) = w_userId v"
    and "\<And>c v. balance_of c (f v) = balance_of c v"
    and "wallets s' = (wallets s)(i \<mapsto> f w)" "wallet_of s' = wallet_of s" "txns s' = txns s"
      "ledger s' = ledger s" "next_id s \<le> next_id s'" "wdb.more s' = wdb.more s"
  shows "row_step i f s s'"
  using assms by (auto simp: row_step_def fun_upd_at)

lemma reserve_commit_effect:
  assumes w: "wallets s (w_id w) = Some fw" and run: "reserve_commit dto actor now w s = (Inr v, s')"
  shows "row_step (w_id w) (hold_update (rs_amount dto)) s s'"
    and "rs_amount dto \<le> availableBalance fw"
    and "rv_reservation v = new_reservation dto now (w_id w) (next_id s)"
    and "reservations s' = (reservations s)(next_id s \<mapsto> rv_reservation v)"
proof -
  have "rs_amount dto \<le> availableBalance fw \<and> rv_reservation v = new_reservation dto now (w_id w) (next_id s) \<and>
    (\<exists>au. s' = s\<lparr>wallets := (wallets s)(w_id w \<mapsto> hold_update (rs_amount dto) fw),
      reservations := (reservations s)(next_id s \<mapsto> rv_reservation v), next_id := Suc (next_id s), audits := au\<rparr>)"
    using run w
    by (auto simp: reserve_commit_def body_defs checked_balance_def createReservation_def split: if_splits)
  then show "row_step (w_id w) (hold_update (rs_amount dto)) s s'" "rs_amount dto \<le> availableBalance fw"
    "rv_reservation v = new_reservation dto now (w_id w) (next_id s)"
    "reservations s' = (reservations s)(next_id s \<mapsto> rv_reservation v)"
    using w by (auto intro!: row_stepI)
qed

lemma close_commit_effect:
  assumes w: "wallets s (r_walletId r) = Some w" and r: "reservations s (r_id r) = Some r0"
    and ids: "\<And>a v. w_id (f a v) = w_id v \<and> w_userId (f a v) = w_userId v"
    and cols: "\<And>a c v. balance_of c (f a v) = balance_of c v"
    and run: "close_commit f st action actor r s = (x, s')"
  shows "row_step (r_walletId r) (f (r_amount r)) s s'"
    and "reservations s' = (reservations s)(r_id r \<mapsto> r0\<lparr>r_status := st\<rparr>)" and "\<exists>v. x = Inr v"
proof -
  have "(\<exists>v. x = Inr v) \<and> (\<exists>au. s' = s\<lparr>wallets := (wallets s)(r_walletId r \<mapsto> f (r_amount r) w),
      reservations := (reservations s)(r_id r \<mapsto> r0\<lparr>r_status := st\<rparr>), audits := au\<rparr>)"
    using run w r by (auto simp: close_commit_def transaction_def body_defs setReservationStatus_def)
  then show "row_step (r_walletId r) (f (r_amount r)) s s'"
    "reservations s' = (reservations s)(r_id r \<mapsto> r0\<lparr>r_status := st\<rparr>)" "\<exists>v. x = Inr v"
    using w ids cols by (auto intro!: row_stepI)
qed

lemma reserved_ensured:
  assumes wf: "wf_db s"
  shows "reserved ((ensured s u)\<lparr>audits := a\<rparr>) v = reserved s v"
proof (cases "wallet_of s u")
  case None
  have "wallet_of s v \<noteq> Some (next_id s)" using wf_index [OF wf] wf_fresh_id [OF wf] by fastforce
  with None show ?thesis
    by (cases "wallet_of s v") (auto simp: reserved_def walletByUser_def ensured_def)
qed (simp add: reserved_def walletByUser_def ensured_def)

lemma reserveCoins_effect:
  assumes wf: "wf_db s" and run: "reserveCoins dto actor now s = (Inr v, s')"
  obtains s1 w where "same_money s s1" "wf_db s1" "\<And>u. available s1 u = available s u"
    "\<And>u. reserved s1 u = reserved s u" "wallets s1 (w_id w) = Some w" "w_userId w = rs_userId dto"
    "0 < rs_amount dto" "rs_amount dto \<le> available s (rs_userId dto)"
    "row_step (w_id w) (hold_update (rs_amount dto)) s1 s'"
    "reservations s' (r_id (rv_reservation v)) = Some (rv_reservation v)"
    "r_walletId (rv_reservation v) = w_id w" "r_amount (rv_reservation v) = rs_amount dto"
    "r_status (rv_reservation v) = HELD"
proof -
  obtain w a where g: "getOrCreateWallet (rs_userId dto) USER_WALLET s =
      (Inr w, (ensured s (rs_userId dto))\<lparr>audits := a\<rparr>)"
    "wallets (ensured s (rs_userId dto)) (w_id w) = Some w" "w_userId w = rs_userId dto"
    using getOrCreateWallet_eq [OF wf] by blast
  let ?s1 = "(ensured s (rs_userId dto))\<lparr>audits := a\<rparr>"
  obtain e where e: "validateEconomyStatus s = (e, s)"
    using validateEconomyStatus_state [of s] by (metis prod.collapse)
  have pos: "0 < rs_amount dto" and com: "reserve_commit dto actor now w ?s1 = (Inr v, s')"
    using run e g(1)
    by (auto simp: reserveCoins_def reserve_check_def bindA_Inr validateWalletActive_def
        validatePositiveAmount_def validateSufficientBalance_def)
  have wf1: "wf_db ?s1" using wf_ensured [OF wf] by simp
  have w1: "wallets ?s1 (w_id w) = Some w" using g(2) by simp
  note C = reserve_commit_effect [OF w1 com]
  show thesis
  proof (rule that [of ?s1 w])
    show "same_money s ?s1" using same_money_ensured [OF wf] by simp
    show "rs_amount dto \<le> available s (rs_userId dto)"
      using C(2) wallet_available [OF wf1 w1] g(3) available_ensured [OF wf] by simp
  qed (use wf1 w1 g(3) pos C available_ensured [OF wf] reserved_ensured [OF wf]
      in \<open>simp_all add: new_reservation_def\<close>)
qed

lemma row_step_available:
  assumes "row_step i f s s'" "wf_db s" "wallets s i = Some w"
    "\<And>v. availableBalance (f v) = availableBalance v + d"
  shows "available s' u = available s u + (if u = w_userId w then d else 0)"
  unfolding available_def by (rule row_step_column [OF assms(1-3), where g = availableBalance, OF assms(4)])

lemma row_step_reserved:
  assumes "row_step i f s s'" "wf_db s" "wallets s i = Some w"
    "\<And>v. reservedBalance (f v) = reservedBalance v + d"
  shows "reserved s' u = reserved s u + (if u = w_userId w then d else 0)"
  unfolding reserved_def by (rule row_step_column [OF assms(1-3), where g = reservedBalance, OF assms(4)])

lemma held_check_Inr:
  "held_check i s = (Inr r, s') \<longleftrightarrow> s' = s \<and> reservations s i = Some r \<and> r_status r = HELD"
  by (auto simp: held_check_def bindA_Inr split: option.splits)

lemma held_check_closed:
  "reservations s i = Some r \<Longrightarrow> r_status r \<noteq> HELD \<Longrightarrow>
     held_check i s = (Inl (BadRequest ''Reservation is not active''), s)"
  by (simp add: held_check_def bindA_def getsA_def guardA_def)

text \<open>What the hold and its two ends do to the aggregates of every user.\<close>

lemma hold_aggregates:
  assumes wf: "wf_db s" and run: "reserveCoins dto actor now s = (Inr v, s')"
  shows "wf_db s'" "available s' u = available s u - (if u = rs_userId dto then rs_amount dto else 0)"
    "reserved s' u = reserved s u + (if u = rs_userId dto then rs_amount dto else 0)"
    "user_balance s' = user_balance s" "ledger s' = ledger s" "0 < rs_amount dto"
    "rs_amount dto \<le> available s (rs_userId dto)" "txns s' = txns s"
    "\<exists>w. wallets s' (r_walletId (rv_reservation v)) = Some w \<and> w_userId w = rs_userId dto"
    "reservations s' (r_id (rv_reservation v)) = Some (rv_reservation v)"
    "r_amount (rv_reservation v) = rs_amount dto" "r_status (rv_reservation v) = HELD"
proof -
  obtain s1 w where A: "same_money s s1" "wf_db s1" "\<And>u. available s1 u = available s u"
    "\<And>u. reserved s1 u = reserved s u" "wallets s1 (w_id w) = Some w" "w_userId w = rs_userId dto"
    "0 < rs_amount dto" "rs_amount dto \<le> available s (rs_userId dto)"
    and st: "row_step (w_id w) (hold_update (rs_amount dto)) s1 s'"
    and R: "reservations s' (r_id (rv_reservation v)) = Some (rv_reservation v)"
    "r_walletId (rv_reservation v) = w_id w" "r_amount (rv_reservation v) = rs_amount dto"
    "r_status (rv_reservation v) = HELD"
    by (rule reserveCoins_effect [OF wf run]) blast
  show "wf_db s'" by (rule row_step_wf [OF A(2) st])
  show "available s' u = available s u - (if u = rs_userId dto then rs_amount dto else 0)"
    using row_step_available [OF st A(2,5), of "- rs_amount dto" u] A(3,6) by (simp add: hold_update_def)
  show "reserved s' u = reserved s u + (if u = rs_userId dto then rs_amount dto else 0)"
    using row_step_reserved [OF st A(2,5), of "rs_amount dto" u] A(4,6) by (simp add: hold_update_def)
  show "user_balance s' = user_balance s"
    using row_step_balance [OF st A(2)] A(1) by (auto simp: same_money_def fun_eq_iff)
  show "ledger s' = ledger s" "txns s' = txns s" using st A(1) by (simp_all add: row_step_def same_money_def)
  show "\<exists>w. wallets s' (r_walletId (rv_reservation v)) = Some w \<and> w_userId w = rs_userId dto"
    using row_step_wallet [OF st A(5)] A(6) R(2) by simp
qed (use reserveCoins_effect [OF wf run] in blast)+

lemma close_aggregates:
  assumes wf: "wf_db s" and w: "wallets s (r_walletId r) = Some w" and r0: "reservations s (r_id r) = Some r0"
    and run: "release_commit actor r s = (x, s') \<and> da = r_amount r \<and> st = RELEASED \<or>
      consume_commit actor r s = (x, s') \<and> da = 0 \<and> st = CONSUMED"
  shows "wf_db s'" "available s' u = available s u + (if u = w_userId w then da else 0)"
    "reserved s' u = reserved s u - (if u = w_userId w then r_amount r else 0)"
    "user_balance s' = user_balance s" "ledger s' = ledger s" "txns s' = txns s"
    "reservations s' = (reservations s)(r_id r \<mapsto> r0\<lparr>r_status := st\<rparr>)" "\<exists>v. x = Inr v"
    "\<exists>w'. wallets s' (r_walletId r) = Some w' \<and> w_userId w' = w_userId w"
proof -
  obtain f where f: "f = release_update \<and> da = r_amount r \<or> f = consume_update \<and> da = 0"
    and step: "row_step (r_walletId r) (f (r_amount r)) s s'"
    and rest: "reservations s' = (reservations s)(r_id r \<mapsto> r0\<lparr>r_status := st\<rparr>)" "\<exists>v. x = Inr v"
    using run
  proof
    assume "release_commit actor r s = (x, s') \<and> da = r_amount r \<and> st = RELEASED"
    then show thesis
      using that [of release_update] close_commit_effect [OF w r0, of release_update]
      by (auto simp: release_commit_def)
  next
    assume "consume_commit actor r s = (x, s') \<and> da = 0 \<and> st = CONSUMED"
    then show thesis
      using that [of consume_update] close_commit_effect [OF w r0, of consume_update]
      by (auto simp: consume_commit_def)
  qed
  show "wf_db s'" by (rule row_step_wf [OF wf step])
  show "available s' u = available s u + (if u = w_userId w then da else 0)"
    using row_step_available [OF step wf w, of da u] f
    by (auto simp: release_update_def consume_update_def)
  show "reserved s' u = reserved s u - (if u = w_userId w then r_amount r else 0)"
    using row_step_reserved [OF step wf w, of "- r_amount r" u] f
    by (auto simp: release_update_def consume_update_def)
  show "user_balance s' = user_balance s" using row_step_balance [OF step wf] by (simp add: fun_eq_iff)
  show "ledger s' = ledger s" "txns s' = txns s" using step by (simp_all add: row_step_def)
  show "\<exists>w'. wallets s' (r_walletId r) = Some w' \<and> w_userId w' = w_userId w"
    using row_step_wallet [OF step w] f by auto
  show "reservations s' = (reservations s)(r_id r \<mapsto> r0\<lparr>r_status := st\<rparr>)" "\<exists>v. x = Inr v"
    using rest by auto
qed

lemma release_aggregates:
  assumes wf: "wf_db s" and w: "wallets s (r_walletId r) = Some w" and r0: "reservations s (r_id r) = Some r0"
    and run: "release_commit actor r s = (x, s')"
  shows "wf_db s'" "available s' u = available s u + (if u = w_userId w then r_amount r else 0)"
    "reserved s' u = reserved s u - (if u = w_userId w then r_amount r else 0)"
    "user_balance s' = user_balance s" "ledger s' = ledger s" "txns s' = txns s"
    "reservations s' = (reservations s)(r_id r \<mapsto> r0\<lparr>r_status := RELEASED\<rparr>)" "\<exists>v. x = Inr v"
    "\<exists>w'. wallets s' (r_walletId r) = Some w' \<and> w_userId w' = w_userId w"
proof -
  have "release_commit actor r s = (x, s') \<and> r_amount r = r_amount r \<and> RELEASED = RELEASED \<or>
      consume_commit actor r s = (x, s') \<and> r_amount r = 0 \<and> RELEASED = CONSUMED" using run by simp
  note C = close_aggregates [OF wf w r0 this]
  show "wf_db s'" "available s' u = available s u + (if u = w_userId w then r_amount r else 0)"
    "reserved s' u = reserved s u - (if u = w_userId w then r_amount r else 0)"
    "user_balance s' = user_balance s" "ledger s' = ledger s" "txns s' = txns s"
    "reservations s' = (reservations s)(r_id r \<mapsto> r0\<lparr>r_status := RELEASED\<rparr>)" "\<exists>v. x = Inr v"
    "\<exists>w'. wallets s' (r_walletId r) = Some w' \<and> w_userId w' = w_userId w"
    by (fact C)+
qed

lemma consume_aggregates:
  assumes wf: "wf_db s" and w: "wallets s (r_walletId r) = Some w" and r0: "reservations s (r_id r) = Some r0"
    and run: "consume_commit actor r s = (x, s')"
  shows "wf_db s'" "available s' u = available s u + (if u = w_userId w then (0::int) else 0)"
    "reserved s' u = reserved s u - (if u = w_userId w then r_amount r else 0)"
    "user_balance s' = user_balance s" "ledger s' = ledger s" "txns s' = txns s"
    "reservations s' = (reservations s)(r_id r \<mapsto> r0\<lparr>r_status := CONSUMED\<rparr>)" "\<exists>v. x = Inr v"
    "\<exists>w'. wallets s' (r_walletId r) = Some w' \<and> w_userId w' = w_userId w"
proof -
  have "release_commit actor r s = (x, s') \<and> (0::int) = r_amount r \<and> CONSUMED = RELEASED \<or>
      consume_commit actor r s = (x, s') \<and> (0::int) = 0 \<and> CONSUMED = CONSUMED" using run by simp
  note C = close_aggregates [OF wf w r0 this]
  show "wf_db s'" "available s' u = available s u + (if u = w_userId w then (0::int) else 0)"
    "reserved s' u = reserved s u - (if u = w_userId w then r_amount r else 0)"
    "user_balance s' = user_balance s" "ledger s' = ledger s" "txns s' = txns s"
    "reservations s' = (reservations s)(r_id r \<mapsto> r0\<lparr>r_status := CONSUMED\<rparr>)" "\<exists>v. x = Inr v"
    "\<exists>w'. wallets s' (r_walletId r) = Some w' \<and> w_userId w' = w_userId w"
    by (fact C)+
qed

section \<open>Properties\<close>

text \<open>
  C22: Reserving and then releasing gives back exactly what was held: every user's available,
  reserved and column balances and the ledger are as before, the reservation is RELEASED, and any
  later release or consumption of it is refused without changing the database.
\<close>

theorem reserve_release_round_trip:
  assumes wf: "wf_db s" and res: "reserveCoins dto actor now s = (Inr v, s1)"
    and rel: "releaseReservation (r_id (rv_reservation v)) actor' s1 = (x, s2)"
  shows "available s2 u = available s u \<and> reserved s2 u = reserved s u \<and>
    user_balance s2 u c = user_balance s u c \<and> ledger s2 = ledger s \<and>
    map_option r_status (reservations s2 (r_id (rv_reservation v))) = Some RELEASED \<and>
    releaseReservation (r_id (rv_reservation v)) actor'' s2 =
      (Inl (BadRequest ''Reservation is not active''), s2) \<and>
    consumeReservation (r_id (rv_reservation v)) actor'' s2 =
      (Inl (BadRequest ''Reservation is not active''), s2)"
proof -
  note H = hold_aggregates [OF wf res]
  obtain w where w: "wallets s1 (r_walletId (rv_reservation v)) = Some w" "w_userId w = rs_userId dto"
    using H(9) by blast
  have com: "release_commit actor' (rv_reservation v) s1 = (x, s2)"
    using rel H(10,12)
    by (simp add: releaseReservation_def bindA_def held_check_def getsA_def guardA_def returnA_def)
  note C = release_aggregates [OF H(1) w(1) H(10) com]
  have R: "reservations s2 (r_id (rv_reservation v)) = Some ((rv_reservation v)\<lparr>r_status := RELEASED\<rparr>)"
    using C(7) by simp
  have "held_check (r_id (rv_reservation v)) s2 = (Inl (BadRequest ''Reservation is not active''), s2)"
    using held_check_closed [OF R] by simp
  then have closed: "bindA (held_check (r_id (rv_reservation v))) k s2 =
      (Inl (BadRequest ''Reservation is not active''), s2)"
    for k :: "reservation \<Rightarrow> ('a wdb_scheme, reservation_view) act" by (simp add: bindA_def)
  show ?thesis
    using C(2,3) [of u] C(4,5) H(2,3) [of u] H(4,5,11) w(2) R
    by (simp add: closed releaseReservation_def consumeReservation_def)
qed

definition sample_hold :: reserve_dto where
  "sample_hold = \<lparr>rs_userId = 7, rs_amount = 20, rs_currency = None, rs_purpose = ''GAME_STAKE'',
     rs_referenceType = None, rs_referenceId = None, rs_expiresInSeconds = Some 300\<rparr>"

definition held_db :: wdb where
  "held_db = snd (reserveCoins sample_hold None 0 funded_db)"

definition sample_reservation :: reservation where
  "sample_reservation = new_reservation sample_hold 0 1 3"

lemma sample_hold_run:
  obtains v where "reserveCoins sample_hold None 0 funded_db = (Inr v, held_db)"
    "rv_reservation v = sample_reservation"
proof -
  have "case fst (reserveCoins sample_hold None 0 funded_db) of Inl _ \<Rightarrow> False
      | Inr v \<Rightarrow> rv_reservation v = sample_reservation" by code_simp
  then show thesis
    using that by (cases "reserveCoins sample_hold None 0 funded_db") (auto simp: held_db_def split: sum.splits)
qed

theorem reserve_release_round_trip_witness:
  "available (snd (releaseReservation 3 None held_db)) 7 = 50 \<and>
   available held_db 7 = 30 \<and>
   consumeReservation 3 None (snd (releaseReservation 3 None held_db)) =
     (Inl (BadRequest ''Reservation is not active''), snd (releaseReservation 3 None held_db))"
proof -
  obtain v where v: "reserveCoins sample_hold None 0 funded_db = (Inr v, held_db)"
    "rv_reservation v = sample_reservation" by (rule sample_hold_run)
  have "r_id sample_reservation = 3" by (simp add: sample_reservation_def new_reservation_def)
  moreover have "available funded_db 7 = 50" "available held_db 7 = 30" by code_simp+
  ultimately show ?thesis
    using reserve_release_round_trip [OF funded_ok(1) v(1) surjective_pairing, of None 7 GOLD None] v(2) by simp
qed

text \<open>
  The status check of a release is outside its transaction: two releases that both checked
  the reservation before either committed both return the coins, so the user ends with the
  held amount more than before reserving and a reserved aggregate short by the same amount.
\<close>

theorem concurrent_release_pays_twice:
  assumes wf: "wf_db s" and res: "reserveCoins dto actor now s = (Inr v, s1)"
    and chk: "held_check (r_id (rv_reservation v)) s1 = (Inr r1, s1)"
      "held_check (r_id (rv_reservation v)) s1 = (Inr r2, s1)"
    and com: "release_commit actor1 r1 s1 = (x1, s2)" "release_commit actor2 r2 s2 = (x2, s3)"
  shows "(\<exists>v1 v2. x1 = Inr v1 \<and> x2 = Inr v2) \<and>
    available s3 (rs_userId dto) = available s (rs_userId dto) + rs_amount dto \<and>
    reserved s3 (rs_userId dto) = reserved s (rs_userId dto) - rs_amount dto"
proof -
  note H = hold_aggregates [OF wf res]
  have r: "r1 = rv_reservation v" "r2 = rv_reservation v" using chk H(10) by (auto simp: held_check_Inr)
  obtain w where w: "wallets s1 (r_walletId (rv_reservation v)) = Some w" "w_userId w = rs_userId dto"
    using H(9) by blast
  have run1: "release_commit actor1 (rv_reservation v) s1 = (x1, s2)" using com(1) r by simp
  note C = release_aggregates [OF H(1) w(1) H(10) run1]
  obtain w2 where w2: "wallets s2 (r_walletId (rv_reservation v)) = Some w2" "w_userId w2 = rs_userId dto"
    using C(9) w(2) by auto
  have R: "reservations s2 (r_id (rv_reservation v)) = Some ((rv_reservation v)\<lparr>r_status := RELEASED\<rparr>)"
    using C(7) by simp
  have run2: "release_commit actor2 (rv_reservation v) s2 = (x2, s3)" using com(2) r by simp
  note D = release_aggregates [OF C(1) w2(1) R run2]
  show ?thesis
    using C(2,3) [of "rs_userId dto"] D(2,3) [of "rs_userId dto"] H(2,3) [of "rs_userId dto"]
      C(8) D(8) w(2) w2(2) H(11) by simp
qed

theorem concurrent_release_pays_twice_witness:
  "available (snd (release_commit None sample_reservation
     (snd (release_commit None sample_reservation held_db)))) 7 = 70"
proof -
  obtain v where v: "reserveCoins sample_hold None 0 funded_db = (Inr v, held_db)"
    "rv_reservation v = sample_reservation" by (rule sample_hold_run)
  have chk: "held_check (r_id (rv_reservation v)) held_db = (Inr sample_reservation, held_db)"
    using hold_aggregates(10,12) [OF funded_ok(1) v(1)] v(2) by (simp add: held_check_Inr)
  have "available funded_db 7 = 50" by code_simp
  moreover have "rs_userId sample_hold = 7" "rs_amount sample_hold = 20" by (simp_all add: sample_hold_def)
  ultimately show ?thesis
    using concurrent_release_pays_twice [OF funded_ok(1) v(1) chk chk surjective_pairing surjective_pairing] by simp
qed

text \<open>
  Consuming a reservation takes the coins out of the reserved aggregate only: the gold balance
  keeps them and the ledger has no entry, so if gold was available plus reserved before, the
  user's next gold credit recomputes the available balance as if nothing had been consumed.
\<close>

theorem consumed_coins_come_back:
  assumes wf: "wf_db s" and split: "user_balance s (rs_userId dto) GOLD = available s (rs_userId dto) + reserved s (rs_userId dto)"
    and res: "reserveCoins dto actor now s = (Inr v, s1)"
    and con: "consumeReservation (r_id (rv_reservation v)) actor' s1 = (Inr v', s2)"
    and cred: "credit m joined s2 = (Inr x, s3)" "txns s (m_key m) = None"
      "m_userId m = rs_userId dto" "m_currency m = GOLD"
  shows "available s2 (rs_userId dto) = available s (rs_userId dto) - rs_amount dto \<and>
    user_balance s2 = user_balance s \<and> ledger s2 = ledger s \<and>
    available s3 (rs_userId dto) = available s (rs_userId dto) + \<lfloor>m_amount m\<rfloor>"
proof -
  note H = hold_aggregates [OF wf res]
  obtain w where w: "wallets s1 (r_walletId (rv_reservation v)) = Some w" "w_userId w = rs_userId dto"
    using H(9) by blast
  have com: "consume_commit actor' (rv_reservation v) s1 = (Inr v', s2)"
    using con H(10,12)
    by (simp add: consumeReservation_def bindA_def held_check_def getsA_def guardA_def returnA_def)
  note C = consume_aggregates [OF H(1) w(1) H(10) com]
  have fresh: "txns s2 (m_key m) = None" using cred(2) C(6) H(8) by simp
  have "move CREDIT m joined s2 = (Inr x, s3)" using cred(1) by (simp add: credit_def)
  with C(1) fresh have "available s3 (rs_userId dto) =
      max 0 (user_balance s2 (rs_userId dto) GOLD + \<lfloor>m_amount m\<rfloor> - reserved s2 (rs_userId dto))"
  proof (cases rule: move_fresh)
    case (effect fw y)
    obtain w' where w': "wallets s2 (r_walletId (rv_reservation v)) = Some w'" "w_userId w' = m_userId m"
      using C(9) w(2) cred(3) by auto
    then have same: "ensured s2 (m_userId m) = s2"
      using wf_wallet_of [OF C(1) w'(1)] by (simp add: ensured_def)
    have fw: "wallets s2 (w_id fw) = Some fw" "w_userId fw = rs_userId dto"
      using effect(5,6) cred(3) same by simp_all
    have b: "user_balance s2 (rs_userId dto) GOLD = goldBalance fw" "reserved s2 (rs_userId dto) = reservedBalance fw"
      using wallet_user_balance [OF C(1) fw(1), of GOLD] walletByUser_Some [OF C(1), of "rs_userId dto" fw] fw
      by (simp_all add: reserved_def)
    have "walletByUser s3 (rs_userId dto) = Some (movement_update CREDIT GOLD (m_reason m) \<lfloor>m_amount m\<rfloor>
        (goldBalance fw + \<lfloor>m_amount m\<rfloor>) fw)"
      using wf_wallet_of [OF C(1) fw(1)] fw(2) cred(4)
      by (simp add: effect(9) same walletByUser_def after_move_def publish_eq moved_wallets delta_def)
    then show ?thesis by (simp add: available_def available_movement_update b)
  qed auto
  moreover have "0 < \<lfloor>m_amount m\<rfloor>"
    using move_effect(2) [OF C(1) fresh \<open>move CREDIT m joined s2 = (Inr x, s3)\<close>] by simp
  ultimately show ?thesis
    using C(2,3) [of "rs_userId dto"] C(4,5) H(2,3) [of "rs_userId dto"] H(4,5,6,7,11) w(2) split by simp
qed

definition sample_credit :: movement where
  "sample_credit = \<lparr>m_userId = 7, m_currency = GOLD, m_amount = 5, m_reason = EVENT_REWARD, m_key = ''ev'',
     m_referenceType = None, m_referenceId = None, m_actorId = None\<rparr>"

theorem consumed_coins_come_back_witness:
  "available (snd (consumeReservation 3 None held_db)) 7 = 30 \<and>
   available (snd (credit sample_credit False (snd (consumeReservation 3 None held_db)))) 7 = 55"
proof -
  obtain v where v: "reserveCoins sample_hold None 0 funded_db = (Inr v, held_db)"
    "rv_reservation v = sample_reservation" by (rule sample_hold_run)
  have i: "r_id (rv_reservation v) = 3" using v(2) by (simp add: sample_reservation_def new_reservation_def)
  have "(case fst (consumeReservation 3 None held_db) of Inl _ \<Rightarrow> False | Inr _ \<Rightarrow> True)"
    "(case fst (credit sample_credit False (snd (consumeReservation 3 None held_db))) of
        Inl _ \<Rightarrow> False | Inr _ \<Rightarrow> True)" by code_simp+
  then obtain v' x where c: "consumeReservation (r_id (rv_reservation v)) None held_db =
      (Inr v', snd (consumeReservation 3 None held_db))"
    and m: "credit sample_credit False (snd (consumeReservation 3 None held_db)) =
      (Inr x, snd (credit sample_credit False (snd (consumeReservation 3 None held_db))))"
    unfolding i by (metis (no_types, lifting) prod.collapse sum.case_eq_if sum.collapse(2))
  have f: "available funded_db 7 = 50" "reserved funded_db 7 = 0" "user_balance funded_db 7 GOLD = 50"
    "txns funded_db ''ev'' = None" by code_simp+
  have g: "rs_userId sample_hold = 7" "rs_amount sample_hold = 20" by (simp_all add: sample_hold_def)
  show ?thesis
    using consumed_coins_come_back [OF funded_ok(1) _ v(1) c m] f g by (simp add: sample_credit_def)
qed

end
