(* ===== verification/WalletRuns.thy ===== *)
theory WalletRuns
  imports WalletReservations "HOL-Library.Sublist"
begin

text \<open>
  Every operation of the wallet together. The ledger and the transaction headers are append-only
  under all of them (the locale \<open>step_order\<close> interpreted on \<open>grows\<close>), and every run made of
  movements, requests, reservations and status changes keeps the tables well-formed and the books
  balanced.
\<close>

section \<open>Append-only\<close>

definition grows :: "('z wdb_scheme) \<Rightarrow> ('z wdb_scheme) \<Rightarrow> bool" where
  "grows s s' \<longleftrightarrow> prefix (ledger s) (ledger s') \<and> txns s \<subseteq>\<^sub>m txns s'"

interpretation gr: step_order grows
  by unfold_locales (auto simp: grows_def intro: prefix_order.trans map_le_trans)

lemma grows_same: "ledger s' = ledger s \<Longrightarrow> txns s' = txns s \<Longrightarrow> grows s s'"
  by (simp add: grows_def)

lemma ok_tables [intro!]:
  "gr.ok (createWallet u ty)" "gr.ok (putWallet i f)" "gr.ok (logAudit i a act)"
  "gr.ok (publishMovement ev)" "gr.ok (findWallet i msg)" "gr.ok (findUniqueOrThrow u)"
  "gr.ok (createReservation mk)" "gr.ok (setReservationStatus i st)" "gr.ok (recoverDuplicate k e)"
  by (auto simp: gr.ok_def createWallet_def putWallet_def logAudit_def publishMovement_def findWallet_def
      findUniqueOrThrow_def createReservation_def setReservationStatus_def recoverDuplicate_def Let_def
      intro!: grows_same split: option.splits)

lemma ok_append [intro!]: "gr.ok (appendLedgerEntry e)" "gr.ok (createTxn mk)"
  by (auto simp: gr.ok_def appendLedgerEntry_def createTxn_def Let_def grows_def map_le_def)

lemma ok_transaction [intro]:
  assumes "gr.ok m"
  shows "gr.ok (transaction m)"
proof (rule gr.okI)
  fix s r s' assume run: "transaction m s = (r, s')"
  obtain x s1 where m: "m s = (x, s1)" by fastforce
  then have "grows s s1" using assms gr.okD by blast
  then show "grows s s'"
    using run m by (cases x) (auto simp: transaction_def rollback_def intro!: grows_same)
qed

lemma ok_sum [intro]:
  "(\<And>a. gr.ok (f a)) \<Longrightarrow> (\<And>b. gr.ok (g b)) \<Longrightarrow> gr.ok (case x of Inl a \<Rightarrow> f a | Inr b \<Rightarrow> g b)"
  by (cases x) auto

lemma ok_prod [intro]: "(\<And>a b. gr.ok (f a b)) \<Longrightarrow> gr.ok (case x of (a, b) \<Rightarrow> f a b)"
  by (cases x) auto

lemma ok_eta [intro]: "gr.ok m \<Longrightarrow> gr.ok (\<lambda>s. m s)"
  by simp

lemmas ok_validators = validateEconomyStatus_def validateWalletActive_def validatePositiveAmount_def
  validateSufficientBalance_def unlessA_def

lemma ok_ensureWallet [intro!]: "gr.ok (ensureWallet u)"
  by (rule gr.okI) (auto simp: ensureWallet_eq intro!: grows_same)

lemma ok_getOrCreate [intro!]: "gr.ok (getOrCreateWallet u ty)"
  unfolding getOrCreateWallet_def by (intro gr.ok_bind gr.ok_option gr.ok_pure ok_tables)

lemma ok_checks [intro!]:
  "gr.ok validateEconomyStatus" "gr.ok (validateWalletActive w)" "gr.ok (validatePositiveAmount a)"
  "gr.ok (validateSufficientBalance w a c)"
  unfolding ok_validators by (intro gr.ok_bind gr.ok_pure)+

lemma ok_unless [intro]: "gr.ok m \<Longrightarrow> gr.ok (unlessA b m)"
  by (auto simp: unlessA_def)

lemmas ok_rules = gr.ok_bind gr.ok_option gr.ok_if gr.ok_pure gr.ok_catch gr.ok_let ok_tables ok_append
  ok_transaction ok_sum ok_prod ok_ensureWallet ok_getOrCreate ok_checks ok_unless

lemma ok_move: "gr.ok (move ty m j)"
  unfolding move_def move_run_def replay_def publish_def applyMovement_def Let_def
  by (intro ok_rules)

lemma ok_requests: "gr.ok (request_of k dto actor)"
proof (cases k)
  case Crediting
  show ?thesis
    unfolding Crediting request_of.simps creditWallet_def credit_check_def credit_commit_def credit_body_def Let_def
    by (intro ok_rules)
next
  case Debiting
  show ?thesis
    unfolding Debiting request_of.simps debitWallet_def debit_check_def debit_commit_def debit_body_def debit_writes_def Let_def
    by (intro ok_rules)
next
  case Reversing
  show ?thesis
    unfolding Reversing request_of.simps reverseWallet_def reverse_check_def reverse_commit_def debit_writes_def Let_def
    by (intro ok_rules)
qed

lemma ok_transfer: "gr.ok (transferCoins dto actor)"
  unfolding transferCoins_def transfer_check_def transfer_commit_def transfer_body_def Let_def
  by (intro ok_rules)

lemma ok_reservations:
  "gr.ok (reserveCoins dto actor now)" "gr.ok (releaseReservation i actor)" "gr.ok (consumeReservation i actor)"
  unfolding reserveCoins_def reserve_check_def reserve_commit_def releaseReservation_def
    consumeReservation_def held_check_def release_commit_def consume_commit_def close_commit_def
  by (intro ok_rules)+

lemma ok_status: "gr.ok (updateWalletStatus i st actor)"
  unfolding updateWalletStatus_def getWalletById_def by (intro ok_rules)

section \<open>Runs\<close>

text \<open>
  One call of the wallet's interface. \<open>SetFreeze\<close> and \<open>SetEnabled\<close> are the treasury and the
  feature flags changing their answer.
\<close>

datatype wallet_op =
    Move entry_type movement bool
  | Request kind wallet_dto "uid option"
  | Transfer transfer_dto "uid option"
  | Reserve reserve_dto "uid option" int
  | Release nat "uid option"
  | Consume nat "uid option"
  | GetOrCreate uid wallet_type
  | SetStatus nat wallet_status "uid option"
  | SetFreeze bool
  | SetEnabled bool

fun exec :: "wallet_op \<Rightarrow> ('z wdb_scheme) \<Rightarrow> ('z wdb_scheme)" where
  "exec (Move ty m j) s = snd (move ty m j s)"
| "exec (Request k dto actor) s = snd (request_of k dto actor s)"
| "exec (Transfer dto actor) s = snd (transferCoins dto actor s)"
| "exec (Reserve dto actor now) s = snd (reserveCoins dto actor now s)"
| "exec (Release i actor) s = snd (releaseReservation i actor s)"
| "exec (Consume i actor) s = snd (consumeReservation i actor s)"
| "exec (GetOrCreate u ty) s = snd (getOrCreateWallet u ty s)"
| "exec (SetStatus i st actor) s = snd (updateWalletStatus i st actor s)"
| "exec (SetFreeze b) s = s\<lparr>economyFrozen := b\<rparr>"
| "exec (SetEnabled b) s = s\<lparr>walletEnabled := b\<rparr>"

fun run_ops :: "wallet_op list \<Rightarrow> ('z wdb_scheme) \<Rightarrow> ('z wdb_scheme)" where
  "run_ops [] s = s"
| "run_ops (x # xs) s = run_ops xs (exec x s)"

lemma ok_snd: "gr.ok m \<Longrightarrow> grows s (snd (m s))"
  by (simp add: gr.ok_def)

lemma exec_grows: "grows s (exec x s)"
proof (cases x)
  case (SetFreeze b)
  then show ?thesis by (simp add: grows_def)
next
  case (SetEnabled b)
  then show ?thesis by (simp add: grows_def)
qed (auto intro!: ok_snd ok_move ok_requests ok_transfer ok_reservations ok_status)

text \<open>
  Whatever operations run, in whatever order and with whatever outcome, no ledger entry is
  removed, changed or reordered and no stored transaction is changed: the ledger and the
  headers of any earlier state are an initial part of every later one.
\<close>

theorem ledger_append_only:
  "prefix (ledger s) (ledger (run_ops xs s)) \<and> txns s \<subseteq>\<^sub>m txns (run_ops xs s)"
proof -
  have "grows s (run_ops xs s)"
  proof (induction xs arbitrary: s)
    case (Cons x xs)
    then show ?case using exec_grows [of s x] gr.trans_step by fastforce
  qed (simp add: gr.refl_step)
  then show ?thesis by (auto simp: grows_def)
qed

section \<open>Runs keep the books\<close>

text \<open>
  Which calls: no transfers (\<open>transfer_unbalances_books\<close> in TransferLaws says why), and only
  requests that name a currency column and are not reversals.
\<close>

fun booked :: "wallet_op \<Rightarrow> bool" where
  "booked (Request k dto actor) \<longleftrightarrow>
     d_currency dto \<in> {Some GOLD, Some GAME, Some DIAMOND} \<and> k \<noteq> Reversing"
| "booked (Transfer dto actor) \<longleftrightarrow> False"
| "booked _ \<longleftrightarrow> True"

definition sound :: "('z wdb_scheme) \<Rightarrow> bool" where
  "sound s \<longleftrightarrow> wf_db s \<and> books s \<and> solvent s"

lemma sound_same: "same_money s s' \<Longrightarrow> sound s \<Longrightarrow> sound s'"
  by (simp add: sound_def same_money_def)

lemma sound_row_step:
  assumes st: "row_step i f s s'" and snd: "sound s"
  shows "sound s'"
proof -
  have "wallets s' k = Some w \<Longrightarrow> \<exists>v. wallets s k = Some v \<and> (\<forall>c. balance_of c w = balance_of c v)" for k w
    using st by (auto simp: row_step_def at_row_def)
  moreover have "ledger s' = ledger s" using st by (simp add: row_step_def)
  ultimately have "books s'" "solvent s'"
    using snd unfolding sound_def books_def solvent_def by metis+
  then show ?thesis using row_step_wf [OF _ st] snd by (simp add: sound_def)
qed

lemma sound_getOrCreate:
  assumes "sound s" "getOrCreateWallet u USER_WALLET s = (Inr w, s1)"
  shows "sound s1"
  using assms getOrCreateWallet_props(1) sound_same by (metis sound_def)

lemma sound_request:
  assumes s: "sound s" and b: "booked (Request k dto actor)"
  shows "sound (snd (request_of k dto actor s))"
proof -
  let ?q = "\<lparr>q_kind = k, q_dto = dto, q_actor = actor\<rparr>"
  obtain r s' where r: "request_of k dto actor s = (r, s')" by fastforce
  have run: "run_race [0, 0] (race_start [?q] s) = ([(?q, Finished r)], s')"
    using run_alone [of ?q s] r by simp
  have inv: "race_inv s (race_start [?q] s)" using s race_inv_start [of s "[?q]"] by (simp add: sound_def)
  have col: "\<exists>c. column (d_currency dto) c" using b by (auto simp: column_def)
  have "wf_db s'" using race_inv_run [OF inv, of "[0, 0]"] unfolding run by (simp add: race_inv_def)
  moreover have "solvent s'" "books s'"
    using race_money [OF inv run] s b col by (simp_all add: race_start_def sound_def)
  ultimately show ?thesis by (simp add: r sound_def)
qed

lemma sound_reserve:
  assumes s: "sound s"
  shows "sound (snd (reserveCoins dto actor now s))"
proof -
  have wf: "wf_db s" using s by (simp add: sound_def)
  obtain w a where g: "getOrCreateWallet (rs_userId dto) USER_WALLET s =
      (Inr w, (ensured s (rs_userId dto))\<lparr>audits := a\<rparr>)"
    "wallets (ensured s (rs_userId dto)) (w_id w) = Some w" "w_userId w = rs_userId dto"
    using getOrCreateWallet_eq [OF wf] by blast
  let ?s1 = "(ensured s (rs_userId dto))\<lparr>audits := a\<rparr>"
  have s1: "sound ?s1" by (rule sound_getOrCreate [OF s g(1)])
  have w1: "wallets ?s1 (w_id w) = Some w" using g(2) by simp
  obtain e where e: "validateEconomyStatus s = (e, s)"
    using validateEconomyStatus_state [of s] by (metis prod.collapse)
  obtain x s2 where c: "reserve_commit dto actor now w ?s1 = (x, s2)" by fastforce
  have "sound s2"
  proof (cases x)
    case (Inl err)
    then have "s2 = ?s1"
      using c w1 by (auto simp: reserve_commit_def transaction_def body_defs createReservation_def
          split: if_splits)
    then show ?thesis using s1 by simp
  next
    case (Inr v)
    then show ?thesis using sound_row_step [OF reserve_commit_effect(1) [OF w1] s1] c by simp
  qed
  then show ?thesis
    using e g(1) c s s1
    by (cases e) (auto simp: reserveCoins_def reserve_check_def bindA_def guardA_def returnA_def
        validateWalletActive_def validatePositiveAmount_def validateSufficientBalance_def)
qed

lemma sound_close:
  assumes s: "sound s"
    and ids: "\<And>a v. w_id (f a v) = w_id v \<and> w_userId (f a v) = w_userId v"
    and cols: "\<And>a c v. balance_of c (f a v) = balance_of c v"
  shows "sound (snd (bindA (held_check i) (close_commit f st action actor) s))"
proof (cases "held_check i s")
  case (Pair x s1)
  then have s1: "s1 = s" by (auto simp: held_check_def bindA_def getsA_def guardA_def throwA_def returnA_def
        split: option.splits if_splits)
  show ?thesis
  proof (cases x)
    case (Inr r)
    obtain y s2 where c: "close_commit f st action actor r s = (y, s2)" by fastforce
    show ?thesis
    proof (cases "wallets s (r_walletId r)")
      case None
      then show ?thesis
        using c Pair Inr s1 s by (auto simp: close_commit_def transaction_def bindA_def putWallet_def)
    next
      case (Some w)
      show ?thesis
      proof (cases "reservations s (r_id r)")
        case None
        then have "s2 = s" using c Some
          by (auto simp: close_commit_def transaction_def bindA_def putWallet_def setReservationStatus_def
              rollback_def)
        then show ?thesis using c Pair Inr s1 s by (simp add: bindA_def)
      next
        case r0: (Some r0)
        have "row_step (r_walletId r) (f (r_amount r)) s s2"
          by (rule close_commit_effect(1) [OF Some r0 ids cols c])
        then show ?thesis using sound_row_step s c Pair Inr s1 by (simp add: bindA_def)
      qed
    qed
  qed (use Pair s1 s in \<open>simp add: bindA_def\<close>)
qed

lemma sound_exec:
  assumes s: "sound s" and b: "booked x"
  shows "sound (exec x s)"
proof (cases x)
  case (Move ty m j)
  then show ?thesis
    using s move_keeps [of s ty m j] by (cases "move ty m j s") (simp add: sound_def)
next
  case (Request k dto actor)
  then show ?thesis using sound_request [OF s] b by simp
next
  case (Reserve dto actor now)
  then show ?thesis using sound_reserve [OF s] by simp
next
  case (Release i actor)
  then show ?thesis
    using sound_close [OF s, of release_update] by (simp add: releaseReservation_def release_commit_def)
next
  case (Consume i actor)
  then show ?thesis
    using sound_close [OF s, of consume_update] by (simp add: consumeReservation_def consume_commit_def)
next
  case (GetOrCreate u ty)
  show ?thesis
  proof (cases "wallet_of s u")
    case None
    note wf = s [unfolded sound_def, THEN conjunct1]
    let ?w = "empty_wallet (next_id s) u ty"
    have e: "exec x s = s\<lparr>wallets := (wallets s)(next_id s \<mapsto> ?w),
        wallet_of := (wallet_of s)(u \<mapsto> next_id s), next_id := Suc (next_id s),
        audits := audits (exec x s)\<rparr>"
      using None GetOrCreate
      by (simp add: getOrCreateWallet_def bindA_def getsA_def walletByUser_def createWallet_def
          logAudit_def returnA_def Let_def)
    have "ledger_net (ledger s) (next_id s) c = 0" for c
      using wf_entry [OF wf] by (intro ledger_net_none) fastforce
    then have "books (exec x s)" "solvent (exec x s)"
      using s by (subst e, simp add: sound_def books_def solvent_def)+
    moreover have "wf_db (exec x s)"
    proof (subst e, rule wf_dbI)
      fix v i
      assume "wallet_of (s\<lparr>wallets := (wallets s)(next_id s \<mapsto> ?w), wallet_of := (wallet_of s)(u \<mapsto> next_id s),
        next_id := Suc (next_id s), audits := audits (exec x s)\<rparr>) v = Some i"
      then show "\<exists>w. wallets (s\<lparr>wallets := (wallets s)(next_id s \<mapsto> ?w),
        wallet_of := (wallet_of s)(u \<mapsto> next_id s), next_id := Suc (next_id s),
        audits := audits (exec x s)\<rparr>) i = Some w \<and> w_userId w = v"
        using None wf_fresh_id [OF wf] wf_index [OF wf, of v i] by (auto split: if_splits)
    qed (use None wf_wallet_of [OF wf] wf_w_id [OF wf] wf_w_fresh [OF wf] wf_entry [OF wf]
        wf_txn_key [OF wf] wf_txn_fresh [OF wf] in \<open>auto simp: less_Suc_eq split: if_splits\<close>)
    ultimately show ?thesis by (simp add: sound_def)
  next
    case (Some i)
    moreover obtain w where "wallets s i = Some w"
      using wf_user_index [OF _ Some] s by (auto simp: sound_def)
    ultimately show ?thesis
      using s GetOrCreate
      by (simp add: getOrCreateWallet_def bindA_def getsA_def walletByUser_def returnA_def)
  qed
next
  case (SetStatus i st actor)
  show ?thesis
  proof (cases "wallets s i")
    case None
    then show ?thesis
      using s SetStatus by (simp add: updateWalletStatus_def getWalletById_def bindA_def getsA_def throwA_def)
  next
    case (Some w)
    have "row_step i (\<lambda>w. w\<lparr>w_status := st\<rparr>) s (exec x s)"
    proof (rule row_stepI [OF Some])
      show "balance_of c (v\<lparr>w_status := st\<rparr>) = balance_of c v" for c v by (cases c) simp_all
    qed (use Some SetStatus in \<open>auto simp: updateWalletStatus_def getWalletById_def bindA_def getsA_def
        putWallet_def logAudit_def returnA_def\<close>)
    then show ?thesis using sound_row_step s by blast
  qed
next
  case (Transfer dto actor)
  then show ?thesis using b by simp
qed (use s in \<open>auto simp: sound_def wf_db_def books_def solvent_def\<close>)

text \<open>
  C25: Every sequence of wallet calls without transfers, reversals and requests in FREE, in EARNINGS or in
  no currency keeps the three invariants of the books together, whatever the outcome of each call: the
  tables stay consistent, each of the five currency columns equals the signed sum of its ledger
  entries, and none of them is negative.
\<close>

theorem runs_keep_books:
  assumes "sound s" "list_all booked xs"
  shows "sound (run_ops xs s)"
  using assms by (induction xs arbitrary: s) (auto intro: sound_exec)

theorem runs_keep_books_witness:
  "sound (run_ops [Request Crediting (sample_dto 50 ''a'') None, Move CREDIT sample_credit False,
     Reserve sample_hold None 0, Consume 4 None, SetStatus 1 FROZEN None] init_db)"
  by (rule runs_keep_books)
    (simp_all add: sound_def wf_init books_init solvent_init sample_dto_def)

end
