(* ===== verification/CasinoEngines.thy ===== *)
theory CasinoEngines
  imports Prelude
begin

text \<open>
  The pure engines of the house-banked games, src/modules/casino/engines, with the tables of
  constants/casino.constants.ts: which items may be bet on, what a bet pays under an outcome, and
  the outcome selector that minimises what the house pays.
\<close>

section \<open>Tables\<close>

definition GREEDY_MULTIPLIERS :: "(string \<times> int) list" where
  "GREEDY_MULTIPLIERS =
     [(''carrot'', 5), (''corn'', 5), (''broccoli'', 5), (''tomato'', 5), (''burger'', 10),
      (''chicken'', 15), (''mutton'', 25), (''crab'', 45), (''vegSalad'', 5), (''nonVegSalad'', 10)]"

definition GREEDY_ITEMS :: "string list" where
  "GREEDY_ITEMS = map fst GREEDY_MULTIPLIERS"

definition GREEDY_VEG :: "string list" where
  "GREEDY_VEG = [''carrot'', ''corn'', ''broccoli'', ''tomato'']"

definition GREEDY_NONVEG :: "string list" where
  "GREEDY_NONVEG = [''burger'', ''chicken'', ''mutton'', ''crab'']"

definition LUCKY_MULTIPLIERS :: "(string \<times> int) list" where
  "LUCKY_MULTIPLIERS =
     [(''pineapple'', 5), (''kiwi'', 5), (''blueberry'', 5), (''peach'', 5), (''pear'', 10),
      (''coconut'', 15), (''dragonFruit'', 25), (''muskmelon'', 45), (''smallLucky'', 0),
      (''bigLucky'', 0)]"

definition LUCKY_SMALL :: "string list" where
  "LUCKY_SMALL = [''pineapple'', ''kiwi'', ''blueberry'', ''peach'']"

definition LUCKY_BIG :: "string list" where
  "LUCKY_BIG = [''pear'', ''coconut'', ''dragonFruit'', ''muskmelon'']"

definition LUCKY_BETTABLE :: "string list" where
  "LUCKY_BETTABLE = LUCKY_SMALL @ LUCKY_BIG"

definition LUCKY_OUTCOMES :: "string list" where
  "LUCKY_OUTCOMES = LUCKY_BETTABLE @ [''smallLucky'', ''bigLucky'']"

text \<open>
  \<open>k in obj\<close> for an object literal: its own keys and those every object inherits from
  \<open>Object.prototype\<close>. \<open>obj[k] ?? 0\<close> reads an own key.
\<close>

definition object_prototype :: "string list" where
  "object_prototype =
     [''constructor'', ''__defineGetter__'', ''__defineSetter__'', ''hasOwnProperty'',
      ''__lookupGetter__'', ''__lookupSetter__'', ''isPrototypeOf'', ''propertyIsEnumerable'',
      ''toString'', ''valueOf'', ''__proto__'', ''toLocaleString'']"

definition in_object :: "string \<Rightarrow> (string \<times> 'a) list \<Rightarrow> bool" where
  "in_object k obj \<longleftrightarrow> k \<in> set (map fst obj) \<or> k \<in> set object_prototype"

definition own_or_zero :: "(string \<times> int) list \<Rightarrow> string \<Rightarrow> int" where
  "own_or_zero obj k = (case map_of obj k of Some v \<Rightarrow> v | None \<Rightarrow> 0)"

section \<open>Win rules\<close>

definition isGreedyBettable :: "string \<Rightarrow> bool" where
  "isGreedyBettable item \<longleftrightarrow> in_object item GREEDY_MULTIPLIERS"

definition greedyEffectiveMultiplier :: "string \<Rightarrow> string \<Rightarrow> int" where
  "greedyEffectiveMultiplier betItem outcome =
     (let win = outcome = betItem \<or>
                outcome = ''vegSalad'' \<and> betItem \<in> set GREEDY_VEG \<or>
                outcome = ''nonVegSalad'' \<and> betItem \<in> set GREEDY_NONVEG
      in if win then own_or_zero GREEDY_MULTIPLIERS betItem else 0)"

definition isLuckyBettable :: "string \<Rightarrow> bool" where
  "isLuckyBettable symbol \<longleftrightarrow> symbol \<in> set LUCKY_BETTABLE"

definition luckyEffectiveMultiplier :: "string \<Rightarrow> string \<Rightarrow> int" where
  "luckyEffectiveMultiplier betSymbol outcome =
     (if outcome = betSymbol then own_or_zero LUCKY_MULTIPLIERS betSymbol
      else if outcome = ''smallLucky'' \<and> betSymbol \<in> set LUCKY_SMALL then 5
      else if outcome = ''bigLucky'' \<and> betSymbol \<in> set LUCKY_BIG
      then own_or_zero LUCKY_MULTIPLIERS betSymbol
      else 0)"

section \<open>The selector\<close>

text \<open>
  \<open>None\<close> is \<open>Number.POSITIVE_INFINITY\<close>, the minimum of no outcomes. \<open>rng\<close> is the random index,
  \<open>crypto.randomInt\<close>; an index out of range reads \<open>undefined\<close>.
\<close>

fun total_liability :: "(string \<Rightarrow> string \<Rightarrow> int) \<Rightarrow> string \<Rightarrow> (string \<times> int) list \<Rightarrow> int \<Rightarrow> int" where
  "total_liability effMult out [] acc = acc"
| "total_liability effMult out ((item, amt) # bets) acc =
     total_liability effMult out bets (acc + amt * effMult item out)"

fun min_liability :: "int list \<Rightarrow> int option \<Rightarrow> int option" where
  "min_liability [] m = m"
| "min_liability (t # ts) m =
     min_liability ts (case m of None \<Rightarrow> Some t | Some k \<Rightarrow> if t < k then Some t else Some k)"

definition candidates :: "string list \<Rightarrow> int list \<Rightarrow> string list" where
  "candidates outcomes liabilities =
     map fst (filter (\<lambda>(_, l). Some l = min_liability liabilities None) (zip outcomes liabilities))"

definition pickLowestLiability ::
  "string list \<Rightarrow> (string \<times> int) list \<Rightarrow> (string \<Rightarrow> string \<Rightarrow> int) \<Rightarrow> (nat \<Rightarrow> nat) \<Rightarrow> string option" where
  "pickLowestLiability outcomes bets effMult rng =
     (let liabilities = map (\<lambda>out. total_liability effMult out bets 0) outcomes;
          cs = candidates outcomes liabilities;
          i = rng (length cs)
      in if i < length cs then Some (cs ! i) else None)"

definition selectGreedyOutcome :: "(string \<times> int) list \<Rightarrow> (nat \<Rightarrow> nat) \<Rightarrow> string option" where
  "selectGreedyOutcome bets rng = pickLowestLiability GREEDY_ITEMS bets greedyEffectiveMultiplier rng"

definition selectLuckyOutcome :: "(string \<times> int) list \<Rightarrow> (nat \<Rightarrow> nat) \<Rightarrow> string option" where
  "selectLuckyOutcome bets rng = pickLowestLiability LUCKY_OUTCOMES bets luckyEffectiveMultiplier rng"

section \<open>The selector is correct\<close>

definition liability :: "(string \<Rightarrow> string \<Rightarrow> int) \<Rightarrow> (string \<times> int) list \<Rightarrow> string \<Rightarrow> int" where
  "liability effMult bets out = sum_list (map (\<lambda>(item, amt). amt * effMult item out) bets)"

lemma total_liability_eq: "total_liability effMult out bets t = t + liability effMult bets out"
  by (induction effMult out bets t rule: total_liability.induct) (simp_all add: liability_def)

lemma min_liability_Some:
  "\<exists>m. min_liability ts (Some k) = Some m \<and> m \<in> insert k (set ts) \<and> (\<forall>t \<in> insert k (set ts). m \<le> t)"
proof (induction ts arbitrary: k)
  case (Cons t ts)
  then obtain m where "min_liability ts (Some (if t < k then t else k)) = Some m"
    "m \<in> insert (if t < k then t else k) (set ts)"
    "\<forall>x \<in> insert (if t < k then t else k) (set ts). m \<le> x" by blast
  then show ?case by (intro exI [of _ m]) (auto split: if_splits)
qed simp

lemma candidates_iff:
  "c \<in> set (candidates outcomes (map f outcomes)) \<longleftrightarrow>
     c \<in> set outcomes \<and> (\<forall>d \<in> set outcomes. f c \<le> (f d :: int))"
proof (cases outcomes)
  case (Cons a as)
  obtain m where m: "min_liability (map f as) (Some (f a)) = Some m" "m \<in> f ` set outcomes"
    "\<forall>d \<in> set outcomes. m \<le> f d"
    using min_liability_Some [of "map f as" "f a"] Cons by auto
  have "zip outcomes (map f outcomes) = map (\<lambda>x. (x, f x)) outcomes"
    by (simp add: zip_map2 zip_same_conv_map)
  then have "c \<in> set (candidates outcomes (map f outcomes)) \<longleftrightarrow> c \<in> set outcomes \<and> f c = m"
    using m(1) Cons by (force simp: candidates_def image_iff)
  then show ?thesis using m(2,3) by fastforce
qed (simp add: candidates_def)

lemma pick_correct:
  assumes "rng (length (candidates outcomes (map (liability effMult bets) outcomes))) <
      length (candidates outcomes (map (liability effMult bets) outcomes))"
  shows "\<exists>c. pickLowestLiability outcomes bets effMult rng = Some c \<and> c \<in> set outcomes \<and>
    (\<forall>d \<in> set outcomes. liability effMult bets c \<le> liability effMult bets d)"
proof -
  let ?cs = "candidates outcomes (map (liability effMult bets) outcomes)"
  have "?cs ! rng (length ?cs) \<in> set ?cs" using assms by simp
  then show ?thesis
    using assms by (auto simp: pickLowestLiability_def total_liability_eq [abs_def] candidates_iff Let_def)
qed

lemma candidates_nonempty: "outcomes \<noteq> [] \<Longrightarrow> candidates outcomes (map f outcomes) \<noteq> []"
proof -
  assume ne: "outcomes \<noteq> []"
  then obtain d where "d \<in> set outcomes" "\<forall>x \<in> set outcomes. (f d :: int) \<le> f x"
    using ex_min_if_finite [of "f ` set outcomes"] by (metis (no_types, lifting) List.finite_set
        arg_min_if_finite(1) arg_min_least set_empty)
  then have "d \<in> set (candidates outcomes (map f outcomes))" by (simp add: candidates_iff)
  then show ?thesis by (metis empty_iff empty_set)
qed

text \<open>
  C21: Given a random index below its bound, the selectors of both games return an outcome of the
  game's wheel whose total payout over the active bets is minimal among all the outcomes.
\<close>

theorem selectors_minimise_liability:
  assumes rng: "\<And>n. 0 < n \<Longrightarrow> rng n < n"
  shows "(\<exists>c. selectGreedyOutcome bets rng = Some c \<and> c \<in> set GREEDY_ITEMS \<and>
      (\<forall>d \<in> set GREEDY_ITEMS. liability greedyEffectiveMultiplier bets c \<le> liability greedyEffectiveMultiplier bets d)) \<and>
    (\<exists>c. selectLuckyOutcome bets rng = Some c \<and> c \<in> set LUCKY_OUTCOMES \<and>
      (\<forall>d \<in> set LUCKY_OUTCOMES. liability luckyEffectiveMultiplier bets c \<le> liability luckyEffectiveMultiplier bets d))"
proof -
  have ne: "GREEDY_ITEMS \<noteq> []" "LUCKY_OUTCOMES \<noteq> []"
    by (simp_all add: GREEDY_ITEMS_def GREEDY_MULTIPLIERS_def LUCKY_OUTCOMES_def)
  show ?thesis
    unfolding selectGreedyOutcome_def selectLuckyOutcome_def
    using rng candidates_nonempty [OF ne(1)] candidates_nonempty [OF ne(2)]
    by (intro conjI pick_correct) simp_all
qed

theorem selectors_minimise_liability_witness:
  "\<exists>c. selectGreedyOutcome [(''crab'', 100), (''carrot'', 500)] (\<lambda>n. 0) = Some c \<and>
     liability greedyEffectiveMultiplier [(''crab'', 100), (''carrot'', 500)] c \<le>
     liability greedyEffectiveMultiplier [(''crab'', 100), (''carrot'', 500)] ''burger''"
proof -
  have "''burger'' \<in> set GREEDY_ITEMS" by (simp add: GREEDY_ITEMS_def GREEDY_MULTIPLIERS_def)
  then show ?thesis
    using selectors_minimise_liability [of "\<lambda>n. 0" "[(''crab'', 100), (''carrot'', 500)]"] by fastforce
qed

text \<open>
  Whatever outcome wins, a bet on one of a game's own items is paid its own multiplier or
  nothing, it is paid its own multiplier when the outcome is the item itself, and no bet is ever
  paid more than 45 times its stake.
\<close>

theorem multipliers_are_the_bets_own:
  "greedyEffectiveMultiplier item out \<in> {0, own_or_zero GREEDY_MULTIPLIERS item} \<and>
   luckyEffectiveMultiplier item out \<in> {0, own_or_zero LUCKY_MULTIPLIERS item} \<and>
   greedyEffectiveMultiplier item item = own_or_zero GREEDY_MULTIPLIERS item \<and>
   luckyEffectiveMultiplier item item = own_or_zero LUCKY_MULTIPLIERS item \<and>
   0 \<le> greedyEffectiveMultiplier item out \<and> greedyEffectiveMultiplier item out \<le> 45 \<and>
   0 \<le> luckyEffectiveMultiplier item out \<and> luckyEffectiveMultiplier item out \<le> 45"
proof -
  have small: "item \<in> set LUCKY_SMALL \<Longrightarrow> own_or_zero LUCKY_MULTIPLIERS item = 5"
    by (auto simp: LUCKY_SMALL_def own_or_zero_def LUCKY_MULTIPLIERS_def)
  have g: "0 \<le> own_or_zero GREEDY_MULTIPLIERS item \<and> own_or_zero GREEDY_MULTIPLIERS item \<le> 45"
    by (auto simp: own_or_zero_def GREEDY_MULTIPLIERS_def map_of_eq_None_iff)
  have l: "0 \<le> own_or_zero LUCKY_MULTIPLIERS item \<and> own_or_zero LUCKY_MULTIPLIERS item \<le> 45"
    by (auto simp: own_or_zero_def LUCKY_MULTIPLIERS_def)
  show ?thesis
    using small g l
    by (auto simp: greedyEffectiveMultiplier_def luckyEffectiveMultiplier_def Let_def)
qed

text \<open>
  The item check of Greedy Food is \<open>item in GREEDY_MULTIPLIERS\<close>, which also holds for the names
  an object inherits: \<open>toString\<close> passes as a bet item although it is none of the ten items, and
  pays nothing under every outcome of the wheel. Lucky Fruit's check admits exactly its symbols.
\<close>

theorem inherited_names_are_bettable:
  "isGreedyBettable ''toString'' \<and> ''toString'' \<notin> set GREEDY_ITEMS \<and>
   list_all (\<lambda>out. greedyEffectiveMultiplier ''toString'' out = 0) GREEDY_ITEMS \<and>
   (\<forall>s. isLuckyBettable s = (s \<in> set LUCKY_SMALL \<union> set LUCKY_BIG))"
  by (auto simp: isGreedyBettable_def in_object_def object_prototype_def GREEDY_ITEMS_def
      GREEDY_MULTIPLIERS_def greedyEffectiveMultiplier_def own_or_zero_def GREEDY_VEG_def
      GREEDY_NONVEG_def isLuckyBettable_def LUCKY_BETTABLE_def)

end
