(* ===== verification/CasinoService.thy ===== *)
theory CasinoService
  imports CasinoEngines WalletRuns
begin

text \<open>
  Bets and settlement of the house-banked games: casino.repository.ts and casino.service.ts under
  src/modules/casino. The casino's tables extend the wallet database, so that the wallet's
  operations apply to them as they are; \<open>bets\<close> lists the rows in the order of their insertion.
  Each definition is one critical section: \<open>placeBet\<close> and \<open>settleRound\<close> run under the round lock.
\<close>

section \<open>Tables\<close>

datatype game = GREEDY_FOOD | LUCKY_FRUIT

datatype round_status = BETTING | SPINNING | SETTLED | ABORTED

datatype bet_status = PLACED | WON | LOST | REFUNDED

datatype casino_phase = Betting | Spinning | Results

record casino_round =
  rd_id :: nat
  rd_game :: game
  rd_status :: round_status
  rd_winningOutcome :: "string option"
  rd_roundNumber :: nat

record bet =
  b_id :: nat
  b_roundId :: nat
  b_userId :: uid
  b_game :: game
  b_item :: string
  b_amount :: int
  b_clientBetId :: string
  b_status :: bet_status
  b_payout :: int
  b_betTxnId :: "nat option"
  b_winTxnId :: "nat option"

record casino_db = wdb +
  rounds :: "nat \<rightharpoonup> casino_round"
  roundCount :: "game \<Rightarrow> nat"
  bets :: "bet list"

definition CASINO_CHIPS :: "int list" where
  "CASINO_CHIPS = [100, 500, 1000, 10000, 50000]"

definition LUCKY_MAX_SYMBOLS :: nat where
  "LUCKY_MAX_SYMBOLS = 6"

definition TOP_WINNERS :: nat where
  "TOP_WINNERS = 3"

definition WIN_HISTORY_LIMIT :: nat where
  "WIN_HISTORY_LIMIT = 100"

definition casinoBetIdempotencyKey :: "nat \<Rightarrow> uid \<Rightarrow> string \<Rightarrow> string" where
  "casinoBetIdempotencyKey rid u cb =
     ''casino-bet:'' @ show_nat rid @ CHR '':'' # show_nat u @ CHR '':'' # cb"

definition casinoWinIdempotencyKey :: "nat \<Rightarrow> nat \<Rightarrow> string" where
  "casinoWinIdempotencyKey rid b = ''casino-win:'' @ show_nat rid @ CHR '':'' # show_nat b"

definition casinoRefundIdempotencyKey :: "nat \<Rightarrow> nat \<Rightarrow> string" where
  "casinoRefundIdempotencyKey rid b = ''casino-refund:'' @ show_nat rid @ CHR '':'' # show_nat b"

section \<open>Repository\<close>

text \<open>\<open>roundCount\<close> is \<open>casinoRound.count({ where: { game } })\<close>.\<close>

definition createRound :: "game \<Rightarrow> ('z casino_db_scheme, casino_round) act" where
  "createRound g s =
     (let r = \<lparr>rd_id = next_id s, rd_game = g, rd_status = BETTING, rd_winningOutcome = None,
               rd_roundNumber = roundCount s g + 1\<rparr>
      in (Inr r, s\<lparr>rounds := (rounds s)(next_id s \<mapsto> r), roundCount := (roundCount s)(g := roundCount s g + 1),
                   next_id := Suc (next_id s)\<rparr>))"

definition closeRound :: "nat \<Rightarrow> round_status \<Rightarrow> string option \<Rightarrow> ('z casino_db_scheme, unit) act" where
  "closeRound rid st out s =
     (case rounds s rid of
        None \<Rightarrow> (Inl (OtherError ''P2025''), s)
      | Some r \<Rightarrow> (Inr (), s\<lparr>rounds := (rounds s)(rid \<mapsto> r\<lparr>rd_status := st, rd_winningOutcome := out\<rparr>)\<rparr>))"

definition findBet :: "('z casino_db_scheme) \<Rightarrow> nat \<Rightarrow> uid \<Rightarrow> string \<Rightarrow> bet option" where
  "findBet s rid u cb =
     List.find (\<lambda>b. b_roundId b = rid \<and> b_userId b = u \<and> b_clientBetId b = cb) (bets s)"

definition createBet ::
  "nat \<Rightarrow> uid \<Rightarrow> game \<Rightarrow> string \<Rightarrow> int \<Rightarrow> string \<Rightarrow> nat option \<Rightarrow> ('z casino_db_scheme, bet) act" where
  "createBet rid u g item amt cb txn s =
     (case findBet s rid u cb of
        Some b \<Rightarrow> (Inr b, s)
      | None \<Rightarrow>
          (let b = \<lparr>b_id = next_id s, b_roundId = rid, b_userId = u, b_game = g, b_item = item,
                    b_amount = amt, b_clientBetId = cb, b_status = PLACED, b_payout = 0,
                    b_betTxnId = txn, b_winTxnId = None\<rparr>
           in (Inr b, s\<lparr>bets := bets s @ [b], next_id := Suc (next_id s)\<rparr>)))"

definition listPlacedBets :: "nat \<Rightarrow> ('z casino_db_scheme) \<Rightarrow> bet list" where
  "listPlacedBets rid s = filter (\<lambda>b. b_roundId b = rid \<and> b_status b = PLACED) (bets s)"

definition listUserBets :: "nat \<Rightarrow> uid \<Rightarrow> ('z casino_db_scheme) \<Rightarrow> bet list" where
  "listUserBets rid u s = filter (\<lambda>b. b_roundId b = rid \<and> b_userId b = u \<and> b_status b = PLACED) (bets s)"

definition user_items :: "nat \<Rightarrow> uid \<Rightarrow> ('z casino_db_scheme) \<Rightarrow> string list" where
  "user_items rid u s = map b_item (filter (\<lambda>b. b_roundId b = rid \<and> b_userId b = u) (bets s))"

definition countDistinctSymbols :: "nat \<Rightarrow> uid \<Rightarrow> ('z casino_db_scheme) \<Rightarrow> nat" where
  "countDistinctSymbols rid u s = length (remdups (user_items rid u s))"

definition hasSymbol :: "nat \<Rightarrow> uid \<Rightarrow> string \<Rightarrow> ('z casino_db_scheme) \<Rightarrow> bool" where
  "hasSymbol rid u item s \<longleftrightarrow> item \<in> set (user_items rid u s)"

text \<open>\<open>updateBet\<close> with \<open>payoutAmount\<close> and \<open>winTxnId\<close> given or left out.\<close>

definition updateBet :: "nat \<Rightarrow> bet_status \<Rightarrow> int option \<Rightarrow> nat option \<Rightarrow> ('z casino_db_scheme, unit) act" where
  "updateBet i st pay txn s =
     (if i \<notin> set (map b_id (bets s)) then (Inl (OtherError ''P2025''), s)
      else (Inr (), s\<lparr>bets := map (\<lambda>b. if b_id b = i
               then b\<lparr>b_status := st,
                      b_payout := (case pay of Some p \<Rightarrow> p | None \<Rightarrow> b_payout b),
                      b_winTxnId := (case txn of Some t \<Rightarrow> Some t | None \<Rightarrow> b_winTxnId b)\<rparr>
               else b) (bets s)\<rparr>))"

record win_entry =
  we_roundId :: nat
  we_item :: string
  we_betAmount :: int
  we_payout :: int
  we_multiplier :: int

text \<open>\<open>Math.round(payout / betAmount)\<close> rounds half up; newest first is reverse insertion order.\<close>

definition math_round :: "int \<Rightarrow> int \<Rightarrow> int" where
  "math_round p q = \<lfloor>(of_int p / of_int q :: rat) + 1 / 2\<rfloor>"

definition winHistory :: "uid \<Rightarrow> game \<Rightarrow> nat \<Rightarrow> ('z casino_db_scheme) \<Rightarrow> win_entry list" where
  "winHistory u g limit s =
     map (\<lambda>b. let a = toNumber (b_amount b); p = toNumber (b_payout b)
              in \<lparr>we_roundId = b_roundId b, we_item = b_item b, we_betAmount = a, we_payout = p,
                  we_multiplier = (if a \<noteq> 0 then math_round p a else 0)\<rparr>)
       (take limit (filter (\<lambda>b. b_userId b = u \<and> b_game b = g \<and> b_status b = WON) (rev (bets s))))"

definition recentWinningBets :: "game \<Rightarrow> nat \<Rightarrow> ('z casino_db_scheme) \<Rightarrow> (uid \<times> string \<times> int) list" where
  "recentWinningBets g limit s =
     map (\<lambda>b. (b_userId b, b_item b, toNumber (b_payout b)))
       (take limit (filter (\<lambda>b. b_game b = g \<and> b_status b = WON \<and> 0 < b_payout b) (rev (bets s))))"

section \<open>Placing a bet\<close>

record bet_input =
  i_userId :: uid
  i_game :: game
  i_roundId :: nat
  i_item :: string
  i_amount :: int
  i_activeRoundId :: "nat option"
  i_phase :: casino_phase
  i_clientBetId :: string

definition bettable :: "game \<Rightarrow> string \<Rightarrow> bool" where
  "bettable g item = (if g = GREEDY_FOOD then isGreedyBettable item else isLuckyBettable item)"

definition bet_movement :: "bet_input \<Rightarrow> movement" where
  "bet_movement i =
     \<lparr>m_userId = i_userId i, m_currency = GOLD, m_amount = of_int (i_amount i), m_reason = CASINO_BET,
      m_key = casinoBetIdempotencyKey (i_roundId i) (i_userId i) (i_clientBetId i),
      m_referenceType = Some ''casino_round'', m_referenceId = Some (show_nat (i_roundId i)),
      m_actorId = None\<rparr>"

definition bet_locked :: "('z casino_db_scheme) \<Rightarrow> bet_input \<Rightarrow> bool" where
  "bet_locked s i = (case rounds s (i_roundId i) of None \<Rightarrow> True | Some r \<Rightarrow> rd_status r \<noteq> BETTING)"

definition symbol_cap :: "('z casino_db_scheme) \<Rightarrow> bet_input \<Rightarrow> bool" where
  "symbol_cap s i \<longleftrightarrow> i_game i = LUCKY_FRUIT \<and>
     countDistinctSymbols (i_roundId i) (i_userId i) s \<ge> LUCKY_MAX_SYMBOLS \<and>
     \<not> hasSymbol (i_roundId i) (i_userId i) (i_item i) s"

definition bet_error :: "game \<Rightarrow> err \<Rightarrow> err" where
  "bet_error g e =
     (if e = Business ''INSUFFICIENT_BALANCE''
      then CasinoError (if g = LUCKY_FRUIT then ''Insufficient coins.'' else ''Insufficient wallet balance'')
      else e)"

definition placeBet :: "bet_input \<Rightarrow> ('z casino_db_scheme, int \<times> nat) act" where
  "placeBet i =
     bindA (guardA (\<not> (i_phase i \<noteq> Betting \<or> i_activeRoundId i = None \<or> Some (i_roundId i) \<noteq> i_activeRoundId i))
              (CasinoError ''Betting is locked for this round'')) (\<lambda>_.
     bindA (guardA (i_amount i \<in> set CASINO_CHIPS) (CasinoError ''Invalid chip/bet amount'')) (\<lambda>_.
     bindA (guardA (bettable (i_game i) (i_item i))
              (CasinoError (if i_game i = LUCKY_FRUIT then ''Invalid symbol'' else ''Invalid item''))) (\<lambda>_.
     bindA (getsA (\<lambda>s. bet_locked s i)) (\<lambda>locked.
     bindA (guardA (\<not> locked) (CasinoError ''Betting is locked for this round'')) (\<lambda>_.
     bindA (getsA (\<lambda>s. symbol_cap s i)) (\<lambda>capped.
     bindA (guardA (\<not> capped) (CasinoError ''You can bet on a maximum of 6 symbols.'')) (\<lambda>_.
     bindA (catchA (debit (bet_movement i) False) (\<lambda>e. throwA (bet_error (i_game i) e))) (\<lambda>d.
     bindA (createBet (i_roundId i) (i_userId i) (i_game i) (i_item i) (i_amount i) (i_clientBetId i)
              (Some (mr_transactionId d))) (\<lambda>b.
     returnA (mr_balanceAfter d, b_id b))))))))))"

section \<open>Settlement\<close>

text \<open>
  \<open>out\<close> is \<open>None\<close> when the loop passes its \<open>null\<close> outcome: no comparison with a bet item holds.
\<close>

definition effectiveMultiplier :: "game \<Rightarrow> string \<Rightarrow> string option \<Rightarrow> int" where
  "effectiveMultiplier g item out =
     (case out of
        None \<Rightarrow> 0
      | Some w \<Rightarrow> if g = GREEDY_FOOD then greedyEffectiveMultiplier item w else luckyEffectiveMultiplier item w)"

type_synonym payout_item = "nat \<times> bet \<times> int"

definition computed :: "game \<Rightarrow> nat \<Rightarrow> string option \<Rightarrow> bet list \<Rightarrow> payout_item list" where
  "computed g rid out placed =
     map (\<lambda>b. (rid, b, toNumber (b_amount b) * effectiveMultiplier g (b_item b) out)) placed"

definition win_movement :: "nat \<Rightarrow> bet \<Rightarrow> int \<Rightarrow> movement" where
  "win_movement rid b pay =
     \<lparr>m_userId = b_userId b, m_currency = GOLD, m_amount = of_int pay, m_reason = CASINO_WIN,
      m_key = casinoWinIdempotencyKey rid (b_id b), m_referenceType = Some ''casino_round'',
      m_referenceId = Some (show_nat rid), m_actorId = None\<rparr>"

definition settle_bet :: "payout_item \<Rightarrow> ('z casino_db_scheme, unit) act" where
  "settle_bet x =
     (case x of (rid, b, pay) \<Rightarrow>
        if pay > 0
        then bindA (credit (win_movement rid b pay) True) (\<lambda>c.
             updateBet (b_id b) WON (Some pay) (Some (mr_transactionId c)))
        else updateBet (b_id b) LOST None None)"

definition refund_movement :: "nat \<Rightarrow> bet \<Rightarrow> movement" where
  "refund_movement rid b =
     \<lparr>m_userId = b_userId b, m_currency = GOLD, m_amount = of_int (toNumber (b_amount b)),
      m_reason = CASINO_REFUND, m_key = casinoRefundIdempotencyKey rid (b_id b),
      m_referenceType = Some ''casino_round'', m_referenceId = Some (show_nat rid), m_actorId = None\<rparr>"

definition refund_bet :: "nat \<Rightarrow> bet \<Rightarrow> ('z casino_db_scheme, unit) act" where
  "refund_bet rid b =
     catchA
       (bindA (credit (refund_movement rid b) False) (\<lambda>c.
        updateBet (b_id b) REFUNDED (Some (toNumber (b_amount b))) (Some (mr_transactionId c))))
       (\<lambda>_. returnA ())"

definition refundRound :: "nat \<Rightarrow> bet list \<Rightarrow> ('z casino_db_scheme, unit) act" where
  "refundRound rid placed =
     bindA (forA (refund_bet rid) placed) (\<lambda>_.
     catchA (closeRound rid ABORTED None) (\<lambda>_. returnA ()))"

text \<open>The \<open>payouts\<close> record: one entry per credited user, in the order of their first win.\<close>

fun add_payout :: "uid \<Rightarrow> int \<Rightarrow> (uid \<times> int) list \<Rightarrow> (uid \<times> int) list" where
  "add_payout u p [] = [(u, p)]"
| "add_payout u p ((v, q) # xs) = (if v = u then (v, q + p) # xs else (v, q) # add_payout u p xs)"

fun payouts_of :: "payout_item list \<Rightarrow> (uid \<times> int) list \<Rightarrow> (uid \<times> int) list" where
  "payouts_of [] acc = acc"
| "payouts_of ((rid, b, p) # xs) acc =
     payouts_of xs (if p > 0 then add_payout (b_userId b) p acc else acc)"

definition top_winners :: "(uid \<times> int) list \<Rightarrow> (uid \<times> int) list" where
  "top_winners ps = take TOP_WINNERS (sort_key (\<lambda>(u, a). - a) ps)"

record settle_result =
  sr_winningOutcome :: "string option"
  sr_payouts :: "(uid \<times> int) list"
  sr_winners :: "(uid \<times> int) list"
  sr_aborted :: bool

definition settle_txn :: "game \<Rightarrow> nat \<Rightarrow> string option \<Rightarrow> payout_item list \<Rightarrow> ('z casino_db_scheme, unit) act" where
  "settle_txn g rid out xs =
     transaction (bindA (forA settle_bet xs) (\<lambda>_. closeRound rid SETTLED out))"

definition settleRound :: "game \<Rightarrow> nat \<Rightarrow> string option \<Rightarrow> ('z casino_db_scheme, settle_result) act" where
  "settleRound g rid out =
     bindA (getsA (listPlacedBets rid)) (\<lambda>placed.
     (let xs = computed g rid out placed; ps = payouts_of xs []
      in catchA
           (bindA (settle_txn g rid out xs) (\<lambda>_.
            returnA \<lparr>sr_winningOutcome = out, sr_payouts = ps, sr_winners = top_winners ps, sr_aborted = False\<rparr>))
           (\<lambda>_. bindA (refundRound rid placed) (\<lambda>_.
            returnA \<lparr>sr_winningOutcome = out, sr_payouts = [], sr_winners = [], sr_aborted = True\<rparr>))))"

definition getWinHistory :: "uid \<Rightarrow> game \<Rightarrow> ('z casino_db_scheme) \<Rightarrow> win_entry list" where
  "getWinHistory u g s = winHistory u g WIN_HISTORY_LIMIT s"

end
