(* ===== verification/CasinoLaws.thy ===== *)
theory CasinoLaws
  imports CasinoService
begin

text \<open>
  Bets are idempotent per tap and settlement pays every placed bet exactly once: the run of
  credits in \<open>settleRound\<close> is an instance of the locale \<open>payout\<close>, so its total follows from the
  wallet's contract alone.
\<close>

section \<open>Keys\<close>

lemma casino_keys [simp]:
  "casinoBetIdempotencyKey r u c = casinoBetIdempotencyKey r' u' c' \<longleftrightarrow> r = r' \<and> u = u' \<and> c = c'"
  "casinoWinIdempotencyKey r b = casinoWinIdempotencyKey r' b' \<longleftrightarrow> r = r' \<and> b = b'"
  "casinoRefundIdempotencyKey r b = casinoRefundIdempotencyKey r' b' \<longleftrightarrow> r = r' \<and> b = b'"
  "casinoBetIdempotencyKey r u c \<noteq> casinoWinIdempotencyKey r' b"
  "casinoBetIdempotencyKey r u c \<noteq> casinoRefundIdempotencyKey r' b"
  "casinoWinIdempotencyKey r b \<noteq> casinoRefundIdempotencyKey r' b'"
  by (simp_all add: casinoBetIdempotencyKey_def casinoWinIdempotencyKey_def casinoRefundIdempotencyKey_def)

lemma movement_sel [simp]:
  "m_key (win_movement r b p) = casinoWinIdempotencyKey r (b_id b)" "m_userId (win_movement r b p) = b_userId b"
  "m_currency (win_movement r b p) = GOLD" "m_amount (win_movement r b p) = of_int p"
  "m_key (refund_movement r b) = casinoRefundIdempotencyKey r (b_id b)"
  "m_userId (refund_movement r b) = b_userId b" "m_currency (refund_movement r b) = GOLD"
  "m_amount (refund_movement r b) = of_int (toNumber (b_amount b))"
  "m_key (bet_movement i) = casinoBetIdempotencyKey (i_roundId i) (i_userId i) (i_clientBetId i)"
  "m_userId (bet_movement i) = i_userId i" "m_currency (bet_movement i) = GOLD"
  "m_amount (bet_movement i) = of_int (i_amount i)"
  by (simp_all add: win_movement_def refund_movement_def bet_movement_def)

section \<open>The wallet does not see the casino's tables, nor the casino the wallet's\<close>

lemma more_tables:
  fixes s s' :: "'z casino_db_scheme"
  assumes "wdb.more s' = wdb.more s"
  shows "bets s' = bets s" "rounds s' = rounds s" "roundCount s' = roundCount s"
  using assms by (cases s rule: casino_db.cases_scheme; cases s' rule: casino_db.cases_scheme; simp)+

lemma casino_updates [simp]:
  "user_balance (s\<lparr>bets := x\<rparr>) = user_balance s" "user_balance (s\<lparr>rounds := y\<rparr>) = user_balance s"
  "wf_db (s\<lparr>bets := x\<rparr>) = wf_db s" "wf_db (s\<lparr>rounds := y\<rparr>) = wf_db s"
  "solvent (s\<lparr>bets := x\<rparr>) = solvent s" "solvent (s\<lparr>rounds := y\<rparr>) = solvent s"
  "books (s\<lparr>bets := x\<rparr>) = books s" "books (s\<lparr>rounds := y\<rparr>) = books s"
  "user_status (s\<lparr>bets := x\<rparr>) = user_status s" "user_status (s\<lparr>rounds := y\<rparr>) = user_status s"
  by (simp_all add: user_balance_def walletByUser_def wf_db_def solvent_def books_def user_status_def fun_eq_iff)

lemma updateBet_cases:
  "updateBet i st pay t s = (r, s') \<Longrightarrow>
     i \<in> set (map b_id (bets s)) \<and> r = Inr () \<and> (\<exists>bs. s' = s\<lparr>bets := bs\<rparr>) \<or>
     i \<notin> set (map b_id (bets s)) \<and> r = Inl (OtherError ''P2025'') \<and> s' = s"
  by (auto simp: updateBet_def split: if_splits)

lemma updateBet_ok:
  assumes "i \<in> set (map b_id (bets s))"
  obtains bs where "updateBet i st pay t s = (Inr (), s\<lparr>bets := bs\<rparr>)" "map b_id bs = map b_id (bets s)"
  using assms that by (auto simp: updateBet_def)

section \<open>Settlement as a run of payouts\<close>

definition settle_order :: "payout_item \<Rightarrow> movement option" where
  "settle_order x = (case x of (rid, b, pay) \<Rightarrow> if pay > 0 then Some (win_movement rid b pay) else None)"

definition settle_note :: "payout_item \<Rightarrow> movement_result option \<Rightarrow> ('z casino_db_scheme, unit) act" where
  "settle_note x c = (case x of (rid, b, pay) \<Rightarrow>
     (case c of Some r \<Rightarrow> updateBet (b_id b) WON (Some pay) (Some (mr_transactionId r))
      | None \<Rightarrow> updateBet (b_id b) LOST None None))"

interpretation st: payout credit 1 user_balance "\<lambda>s. dom (txns s)" wf_db wdb.more settle_order settle_note
proof unfold_locales
  fix x :: payout_item and c and s s' :: "'a casino_db_scheme" and r :: "err + unit"
  assume "settle_note x c s = (r, s')"
  then show "user_balance s' = user_balance s \<and> dom (txns s') = dom (txns s) \<and> (wf_db s \<longrightarrow> wf_db s')"
    by (auto simp: settle_note_def dest!: updateBet_cases split: prod.splits option.splits)
qed

lemma settle_pay: "settle_bet = st.pay"
  by (auto simp: fun_eq_iff settle_bet_def st.pay_def settle_order_def settle_note_def)

lemma settle_order_eq [simp]:
  "settle_order (rid, b, pay) = (if 0 < pay then Some (win_movement rid b pay) else None)"
  by (simp add: settle_order_def)

lemma settle_keys:
  "st.keys (map (\<lambda>b. (rid, b, f b)) bs) =
     map (\<lambda>b. casinoWinIdempotencyKey rid (b_id b)) (filter (\<lambda>b. 0 < f b) bs)"
  by (induction bs) simp_all

lemma settle_owed:
  "st.owed (map (\<lambda>b. (rid, b, f b)) bs) u c =
     (if c = GOLD then sum_list (map (\<lambda>b. if 0 < f b \<and> b_userId b = u then f b else 0) bs) else 0)"
  by (induction bs) (auto simp: st.owed_def)

definition win_keys :: "nat \<Rightarrow> bet list \<Rightarrow> string set" where
  "win_keys rid bs = (\<lambda>b. casinoWinIdempotencyKey rid (b_id b)) ` set bs"

lemma settle_money:
  assumes wf: "wf_db s" and d: "distinct (map b_id bs)" and f: "win_keys rid bs \<inter> dom (txns s) = {}"
    and run: "forA settle_bet (map (\<lambda>b. (rid, b, f b)) bs) s = (Inr (), s')"
  shows "wf_db s'" "user_balance s' u c = user_balance s u c +
    (if c = GOLD then sum_list (map (\<lambda>b. if 0 < f b \<and> b_userId b = u then f b else 0) bs) else 0)"
proof -
  let ?xs = "map (\<lambda>b. (rid, b, f b)) bs"
  have "distinct (map b_id (filter (\<lambda>b. 0 < f b) bs))" using d by (rule distinct_map_filter)
  then have "distinct (st.keys ?xs)"
    unfolding settle_keys by (simp add: distinct_map inj_on_def)
  moreover have "set (st.keys ?xs) \<inter> dom (txns s) = {}"
    using f unfolding settle_keys win_keys_def by auto
  ultimately have "wf_db s' \<and> dom (txns s') = dom (txns s) \<union> set (st.keys ?xs) \<and>
      user_balance s' u c = user_balance s u c + st.owed ?xs u c"
    using st.pay_all [OF wf, of ?xs s' u c] run by (simp add: settle_pay)
  then show "wf_db s'" "user_balance s' u c = user_balance s u c +
    (if c = GOLD then sum_list (map (\<lambda>b. if 0 < f b \<and> b_userId b = u then f b else 0) bs) else 0)"
    by (simp_all add: settle_owed)
qed

section \<open>What settlement writes on the bets\<close>

definition strip :: "bet \<Rightarrow> bet" where
  "strip b = b\<lparr>b_winTxnId := None\<rparr>"

definition marked :: "(bet \<Rightarrow> int) \<Rightarrow> bet \<Rightarrow> bet" where
  "marked f b = (if 0 < f b then b\<lparr>b_status := WON, b_payout := f b, b_winTxnId := None\<rparr>
                 else b\<lparr>b_status := LOST, b_winTxnId := None\<rparr>)"

lemma strip_sel [simp]: "b_id (strip b) = b_id b" "strip (strip b) = strip b"
  "b_status (strip b) = b_status b" "b_roundId (strip b) = b_roundId b"
  by (simp_all add: strip_def)

lemma settle_bet_effect:
  assumes wf: "wf_db s" and run: "settle_bet (rid, b, pay) s = (Inr (), s')"
  shows "wf_db s'" "map strip (bets s') = map (\<lambda>x. if b_id x = b_id b then marked (\<lambda>_. pay) x else strip x) (bets s)"
    "rounds s' = rounds s"
proof -
  have "wf_db s' \<and> rounds s' = rounds s \<and>
    map strip (bets s') = map (\<lambda>x. if b_id x = b_id b then marked (\<lambda>_. pay) x else strip x) (bets s)"
  proof (cases "0 < pay")
    case True
    then obtain c s1 where c: "credit (win_movement rid b pay) True s = (Inr c, s1)"
      and u: "updateBet (b_id b) WON (Some pay) (Some (mr_transactionId c)) s1 = (Inr (), s')"
      using run by (auto simp: settle_bet_def bindA_Inr)
    have t: "bets s1 = bets s" "rounds s1 = rounds s" "wf_db s1"
      using more_tables crp.tables_mv [OF wf c] crp.inv_mv [OF wf c] by auto
    then show ?thesis
      using u True by (auto simp: updateBet_def strip_def marked_def split: if_splits)
  next
    case False
    then show ?thesis
      using run wf by (auto simp: settle_bet_def updateBet_def strip_def marked_def split: if_splits)
  qed
  then show "wf_db s'" "rounds s' = rounds s"
    "map strip (bets s') = map (\<lambda>x. if b_id x = b_id b then marked (\<lambda>_. pay) x else strip x) (bets s)"
    by auto
qed

lemma settle_all_effect:
  assumes "wf_db s" "distinct (map b_id bs)"
    and "forA settle_bet (map (\<lambda>b. (rid, b, f b)) bs) s = (Inr (), s')"
  shows "rounds s' = rounds s \<and> map strip (bets s') =
    map (\<lambda>x. case List.find (\<lambda>b. b_id b = b_id x) bs of Some b \<Rightarrow> marked (\<lambda>_. f b) x | None \<Rightarrow> strip x) (bets s)"
  using assms
proof (induction bs arbitrary: s)
  case (Cons b bs)
  obtain s1 where one: "settle_bet (rid, b, f b) s = (Inr (), s1)"
    and rest: "forA settle_bet (map (\<lambda>b. (rid, b, f b)) bs) s1 = (Inr (), s')"
    using Cons.prems(3) by (auto simp: bindA_Inr)
  note E = settle_bet_effect [OF Cons.prems(1) one]
  have none: "List.find (\<lambda>a. b_id a = b_id b) bs = None"
    using Cons.prems(2) by (simp add: find_None_iff image_iff) metis
  let ?g = "\<lambda>x. case List.find (\<lambda>b. b_id b = b_id x) bs of Some b \<Rightarrow> marked (\<lambda>_. f b) x | None \<Rightarrow> strip x"
  have IH: "rounds s' = rounds s1" "map strip (bets s') = map ?g (bets s1)"
    using Cons.IH [OF E(1) _ rest] Cons.prems(2) by auto
  have gs: "?g x = ?g (strip x)" for x
    by (auto simp: marked_def strip_def split: option.split)
  have "map ?g (bets s1) = map ?g (map strip (bets s1))"
    unfolding map_map o_def by (rule map_cong [OF refl]) (rule gs)
  also have "\<dots> = map (\<lambda>x. if b_id x = b_id b then marked (\<lambda>_. f b) x else ?g x) (bets s)"
    unfolding E(2) map_map o_def
  proof (rule map_cong [OF refl])
    fix x
    show "?g (if b_id x = b_id b then marked (\<lambda>_. f b) x else strip x) =
        (if b_id x = b_id b then marked (\<lambda>_. f b) x else ?g x)"
    proof (cases "b_id x = b_id b")
      case True
      then show ?thesis using none by (simp add: marked_def strip_def)
    next
      case False
      then show ?thesis using gs [of x] by simp
    qed
  qed
  finally have "map strip (bets s') =
      map (\<lambda>x. if b_id x = b_id b then marked (\<lambda>_. f b) x else ?g x) (bets s)"
    using IH(2) by simp
  then show ?case using IH(1) E(3) by (auto split: option.split)
qed simp

section \<open>Settlement succeeds\<close>

lemma settle_all_succeeds:
  assumes "wf_db s" "solvent s" "\<And>b. b \<in> set bs \<Longrightarrow> 0 < f b \<Longrightarrow> user_status s (b_userId b) = ACTIVE"
    and "set (map b_id bs) \<subseteq> set (map b_id (bets s))"
  shows "\<exists>s'. forA settle_bet (map (\<lambda>b. (rid, b, f b)) bs) s = (Inr (), s') \<and>
    wf_db s' \<and> solvent s' \<and> rounds s' = rounds s"
  using assms
proof (induction bs arbitrary: s)
  case (Cons b bs)
  have "\<exists>s1. settle_bet (rid, b, f b) s = (Inr (), s1) \<and> wf_db s1 \<and> solvent s1 \<and>
    user_status s1 = user_status s \<and> set (map b_id (bets s1)) = set (map b_id (bets s)) \<and> rounds s1 = rounds s"
  proof (cases "0 < f b")
    case True
    have st: "user_status s (m_userId (win_movement rid b (f b))) = ACTIVE" using Cons.prems(3) True by simp
    obtain c s1 where c: "credit (win_movement rid b (f b)) True s = (Inr c, s1)"
      by (rule credit_ok [OF Cons.prems(1,2) st]) (use True in simp_all)
    have m: "move CREDIT (win_movement rid b (f b)) True s = (Inr c, s1)" using c by (simp add: credit_def)
    have t: "bets s1 = bets s" "rounds s1 = rounds s"
      using more_tables crp.tables_mv [OF Cons.prems(1) c] by auto
    have "user_status s1 = user_status s" using move_status [OF Cons.prems(1) m] by (simp add: fun_eq_iff)
    have "b_id b \<in> set (map b_id (bets s1))" using Cons.prems(4) t by auto
    then obtain bs' where u: "updateBet (b_id b) WON (Some (f b)) (Some (mr_transactionId c)) s1 = (Inr (), s1\<lparr>bets := bs'\<rparr>)"
      "map b_id bs' = map b_id (bets s1)" by (rule updateBet_ok)
    have "set (map b_id bs') = set (map b_id (bets s))" using u(2) t by (metis)
    then show ?thesis
      using True c t u(1) \<open>user_status s1 = user_status s\<close> move_keeps(1,3) [OF Cons.prems(1) m] Cons.prems(2)
      by (intro exI [of _ "s1\<lparr>bets := bs'\<rparr>"]) (simp add: settle_bet_def bindA_def del: set_map)
  next
    case False
    have "b_id b \<in> set (map b_id (bets s))" using Cons.prems(4) by auto
    then obtain bs' where u: "updateBet (b_id b) LOST None None s = (Inr (), s\<lparr>bets := bs'\<rparr>)"
      "map b_id bs' = map b_id (bets s)" by (rule updateBet_ok)
    have "set (map b_id bs') = set (map b_id (bets s))" using u(2) by metis
    then show ?thesis
      using False u(1) Cons.prems(1,2)
      by (intro exI [of _ "s\<lparr>bets := bs'\<rparr>"]) (simp add: settle_bet_def del: set_map)
  qed
  then obtain s1 where s1: "settle_bet (rid, b, f b) s = (Inr (), s1)" "wf_db s1" "solvent s1"
    "user_status s1 = user_status s" "set (map b_id (bets s1)) = set (map b_id (bets s))"
    "rounds s1 = rounds s" by blast
  have "set (map b_id bs) \<subseteq> set (map b_id (bets s1))" using Cons.prems(4) s1(5) by simp
  from Cons.IH [OF s1(2,3) _ this] Cons.prems(3) s1
  show ?case by (auto simp: bindA_def)
qed (simp add: returnA_def)

section \<open>Properties\<close>

text \<open>The casino's own tables: bets are identified by their id and by their tap.\<close>

definition tap :: "bet \<Rightarrow> nat \<times> uid \<times> string" where
  "tap b = (b_roundId b, b_userId b, b_clientBetId b)"

definition casino_ok :: "('z casino_db_scheme) \<Rightarrow> bool" where
  "casino_ok s \<longleftrightarrow> wf_db s \<and> solvent s \<and> distinct (map b_id (bets s)) \<and> distinct (map tap (bets s)) \<and>
     (\<forall>b \<in> set (bets s). b_id b < next_id s)"

definition payout_for :: "game \<Rightarrow> string option \<Rightarrow> bet \<Rightarrow> int" where
  "payout_for g out b = toNumber (b_amount b) * effectiveMultiplier g (b_item b) out"

lemma computed_eq: "computed g rid out placed = map (\<lambda>b. (rid, b, payout_for g out b)) placed"
  by (simp add: computed_def payout_for_def)

definition winnings :: "game \<Rightarrow> string option \<Rightarrow> uid \<Rightarrow> bet list \<Rightarrow> int" where
  "winnings g out u bs = sum_list (map (\<lambda>b. if 0 < payout_for g out b \<and> b_userId b = u then payout_for g out b else 0) bs)"

lemma placed_distinct: "casino_ok s \<Longrightarrow> distinct (map b_id (listPlacedBets rid s))"
  unfolding casino_ok_def listPlacedBets_def by (blast intro: distinct_map_filter)

lemma closeRound_eq:
  "rounds s rid = Some r \<Longrightarrow> closeRound rid st out s =
     (Inr (), s\<lparr>rounds := (rounds s)(rid \<mapsto> r\<lparr>rd_status := st, rd_winningOutcome := out\<rparr>)\<rparr>)"
  by (simp add: closeRound_def)

lemma settlement_spec:
  assumes ok: "casino_ok s" and rd: "rounds s rid = Some r"
    and active: "\<And>b. b \<in> set (listPlacedBets rid s) \<Longrightarrow> 0 < payout_for g out b \<Longrightarrow>
      user_status s (b_userId b) = ACTIVE"
    and fresh: "win_keys rid (listPlacedBets rid s) \<inter> dom (txns s) = {}"
  shows "\<exists>res s'. settleRound g rid out s = (Inr res, s') \<and> \<not> sr_aborted res \<and>
    (\<forall>u c. user_balance s' u c =
       user_balance s u c + (if c = GOLD then winnings g out u (listPlacedBets rid s) else 0)) \<and>
    map strip (bets s') = map (\<lambda>b. if b \<in> set (listPlacedBets rid s) then marked (payout_for g out) b else strip b) (bets s) \<and>
    map_option rd_status (rounds s' rid) = Some SETTLED \<and> listPlacedBets rid s' = []"
proof -
  let ?bs = "listPlacedBets rid s" and ?f = "payout_for g out"
  have wf: "wf_db s" and sol: "solvent s" using ok by (simp_all add: casino_ok_def)
  have sub: "set (map b_id ?bs) \<subseteq> set (map b_id (bets s))" by (auto simp: listPlacedBets_def)
  obtain s1 where run: "forA settle_bet (map (\<lambda>b. (rid, b, ?f b)) ?bs) s = (Inr (), s1)"
    and r1: "rounds s1 = rounds s"
    using settle_all_succeeds [OF wf sol active sub, where rid = rid] by auto
  define s' where "s' = s1\<lparr>rounds := (rounds s1)(rid \<mapsto> r\<lparr>rd_status := SETTLED, rd_winningOutcome := out\<rparr>)\<rparr>"
  have close: "closeRound rid SETTLED out s1 = (Inr (), s')" using rd r1 by (simp add: s'_def closeRound_eq)
  have txn: "settle_txn g rid out (computed g rid out ?bs) s = (Inr (), s')"
    by (simp add: settle_txn_def computed_eq transaction_def bindA_def run close)
  obtain res where res: "settleRound g rid out s = (Inr res, s')" "\<not> sr_aborted res"
    by (simp add: settleRound_def bindA_def getsA_def catchA_def txn Let_def returnA_def)
  note M = settle_money [OF wf placed_distinct [OF ok] fresh run]
  have find: "(case List.find (\<lambda>b. b_id b = b_id x) ?bs of Some b \<Rightarrow> marked (\<lambda>_. ?f b) x | None \<Rightarrow> strip x) =
      (if x \<in> set ?bs then marked ?f x else strip x)" if x: "x \<in> set (bets s)" for x
  proof (cases "List.find (\<lambda>b. b_id b = b_id x) ?bs")
    case None
    then have "x \<notin> set ?bs" by (auto simp: find_None_iff)
    then show ?thesis using None by simp
  next
    case (Some b)
    then have b: "b \<in> set ?bs" "b_id b = b_id x" by (auto simp: find_Some_iff)
    then have "b \<in> set (bets s)" by (simp add: listPlacedBets_def)
    then have "b = x" using b x ok by (auto simp: casino_ok_def distinct_map inj_on_def)
    then show ?thesis using Some b by (simp add: marked_def)
  qed
  have mk: "map strip (bets s') = map (\<lambda>b. if b \<in> set ?bs then marked ?f b else strip b) (bets s)"
    using settle_all_effect [OF wf placed_distinct [OF ok] run] find by (simp add: s'_def)
  have "listPlacedBets rid s' = []"
  proof -
    have "\<not> (b_roundId b = rid \<and> b_status b = PLACED)" if "b \<in> set (bets s')" for b
    proof -
      have "strip b \<in> set (map strip (bets s'))" using that by simp
      then obtain x where "x \<in> set (bets s)" "strip b = (if x \<in> set ?bs then marked ?f x else strip x)"
        unfolding mk by auto
      moreover have "b_status b = b_status (strip b)" "b_roundId b = b_roundId (strip b)" by simp_all
      ultimately show ?thesis by (auto simp: listPlacedBets_def marked_def split: if_splits)
    qed
    then show ?thesis by (auto simp: listPlacedBets_def filter_empty_conv)
  qed
  moreover have "user_balance s' u c =
       user_balance s u c + (if c = GOLD then winnings g out u ?bs else 0)" for u c
    using M(2) [of u c] by (simp add: s'_def winnings_def)
  moreover have "map_option rd_status (rounds s' rid) = Some SETTLED" by (simp add: s'_def)
  ultimately show ?thesis using res mk by blast
qed

text \<open>
  C4: Settling a round whose winners' wallets are all active succeeds: every user receives in
  gold exactly the sum of stake times multiplier over the round's placed bets and nothing else
  changes hands, each placed bet becomes WON with its payout or LOST, no other bet changes, the
  round closes SETTLED with the outcome, and no bet of the round is left PLACED.
\<close>

theorem settlement_pays_exactly:
  assumes ok: "casino_ok s" and rd: "rounds s rid = Some r"
    and active: "\<And>b. b \<in> set (listPlacedBets rid s) \<Longrightarrow> 0 < payout_for g out b \<Longrightarrow>
      user_status s (b_userId b) = ACTIVE"
    and fresh: "win_keys rid (listPlacedBets rid s) \<inter> dom (txns s) = {}"
  shows "\<exists>res s'. settleRound g rid out s = (Inr res, s') \<and> \<not> sr_aborted res \<and>
    (\<forall>u c. user_balance s' u c =
       user_balance s u c + (if c = GOLD then winnings g out u (listPlacedBets rid s) else 0)) \<and>
    map strip (bets s') = map (\<lambda>b. if b \<in> set (listPlacedBets rid s) then marked (payout_for g out) b else strip b) (bets s) \<and>
    map_option rd_status (rounds s' rid) = Some SETTLED \<and> listPlacedBets rid s' = []"
  by (rule settlement_spec [OF ok rd active fresh])

text \<open>
  Settling again, with whatever outcome, once no bet of the round is left PLACED moves no
  coins, stores no transaction and changes no bet.
\<close>

theorem resettling_pays_nothing:
  assumes none: "listPlacedBets rid s = []" and run: "settleRound g rid out s = (r, s')"
  shows "user_balance s' = user_balance s \<and> txns s' = txns s \<and> ledger s' = ledger s \<and> bets s' = bets s"
proof (cases "rounds s rid")
  case None
  then show ?thesis
    using run none
    by (auto simp: settleRound_def settle_txn_def bindA_def getsA_def computed_def Let_def catchA_def
        closeRound_def transaction_def rollback_def refundRound_def returnA_def user_balance_def
        walletByUser_def fun_eq_iff)
next
  case (Some rd)
  then show ?thesis
    using run none
    by (auto simp: settleRound_def settle_txn_def bindA_def getsA_def computed_def Let_def catchA_def
        closeRound_def transaction_def returnA_def)
qed

section \<open>The refund path\<close>

text \<open>One refund either returns the stake and marks the bet, or changes no balance and no bet.\<close>

lemma refund_bet_cases:
  assumes wf: "wf_db s" and fresh: "casinoRefundIdempotencyKey rid (b_id b) \<notin> dom (txns s)"
    and mem: "b_id b \<in> set (map b_id (bets s))" and run: "refund_bet rid b s = (r, s')"
  obtains (paid) c where "r = Inr ()" "wf_db s'" "rounds s' = rounds s"
      "dom (txns s') = insert (casinoRefundIdempotencyKey rid (b_id b)) (dom (txns s))"
      "\<And>u d. user_balance s' u d = user_balance s u d +
         (if u = b_userId b \<and> d = GOLD then toNumber (b_amount b) else 0)"
      "bets s' = map (\<lambda>x. if b_id x = b_id b then x\<lparr>b_status := REFUNDED,
         b_payout := toNumber (b_amount b), b_winTxnId := Some c\<rparr> else x) (bets s)"
  | (stuck) "r = Inr ()" "wf_db s'" "rounds s' = rounds s" "dom (txns s') = dom (txns s)"
      "user_balance s' = user_balance s" "bets s' = bets s"
proof -
  obtain x s1 where c: "credit (refund_movement rid b) False s = (x, s1)" by fastforce
  have t: "bets s1 = bets s" "rounds s1 = rounds s" "wf_db s1"
    using more_tables crp.tables_mv [OF wf c] crp.inv_mv [OF wf c] by auto
  show thesis
  proof (cases x)
    case (Inl e)
    then have "r = Inr ()" "s' = s1"
      using run c by (auto simp: refund_bet_def catchA_def bindA_def returnA_def)
    then show thesis using that(2) t crp.thrown [OF wf] c Inl by auto
  next
    case (Inr m)
    have b: "b_id b \<in> set (map b_id (bets s1))" using mem t by simp
    have "r = Inr ()" and s': "s' = s1\<lparr>bets := map (\<lambda>x. if b_id x = b_id b
        then x\<lparr>b_status := REFUNDED, b_payout := toNumber (b_amount b), b_winTxnId := Some (mr_transactionId m)\<rparr>
        else x) (bets s1)\<rparr>"
      using run c Inr b by (auto simp: refund_bet_def catchA_def bindA_def updateBet_def)
    moreover have "dom (txns s1) = insert (casinoRefundIdempotencyKey rid (b_id b)) (dom (txns s))"
      using crp.recorded [OF wf] c Inr by simp
    moreover have "user_balance s1 u d = user_balance s u d +
         (if u = b_userId b \<and> d = GOLD then toNumber (b_amount b) else 0)" for u d
      using crp.fresh [OF wf _ c [unfolded Inr], of u d] fresh by simp
    ultimately show thesis by (intro that(1) [of "mr_transactionId m"]) (simp_all add: t)
  qed
qed

definition refunded :: "('z casino_db_scheme) \<Rightarrow> bet \<Rightarrow> bool" where
  "refunded s b \<longleftrightarrow> (\<exists>x \<in> set (bets s). b_id x = b_id b \<and> b_status x = REFUNDED)"

definition returned :: "('z casino_db_scheme) \<Rightarrow> uid \<Rightarrow> bet list \<Rightarrow> int" where
  "returned s u bs = sum_list (map (\<lambda>b. if refunded s b \<and> b_userId b = u then toNumber (b_amount b) else 0) bs)"

lemma refund_all:
  assumes "wf_db s" "distinct (map b_id bs)" "set (map b_id bs) \<subseteq> set (map b_id (bets s))"
    and "\<And>b. b \<in> set bs \<Longrightarrow> casinoRefundIdempotencyKey rid (b_id b) \<notin> dom (txns s)"
    and "\<And>b. b \<in> set bs \<Longrightarrow> \<not> refunded s b"
    and "forA (refund_bet rid) bs s = (r, s')"
  shows "r = Inr () \<and> wf_db s' \<and> rounds s' = rounds s \<and>
    (\<forall>u c. user_balance s' u c = user_balance s u c + (if c = GOLD then returned s' u bs else 0)) \<and>
    (\<forall>b. b_id b \<notin> b_id ` set bs \<longrightarrow> refunded s' b = refunded s b) \<and>
    map b_id (bets s') = map b_id (bets s)"
  using assms
proof (induction bs arbitrary: s)
  case (Cons b bs)
  obtain x s1 where one: "refund_bet rid b s = (x, s1)" by fastforce
  have fr: "casinoRefundIdempotencyKey rid (b_id b) \<notin> dom (txns s)" "b_id b \<in> set (map b_id (bets s))"
    using Cons.prems by auto
  have nb: "b_id b \<notin> b_id ` set bs" "distinct (map b_id bs)" using Cons.prems(2) by auto
  from Cons.prems(1) fr one show ?case
  proof (cases rule: refund_bet_cases)
    case (paid c)
    have ids: "map b_id (bets s1) = map b_id (bets s)" by (simp add: paid(6))
    have ref: "refunded s1 y \<longleftrightarrow> b_id y = b_id b \<or> refunded s y" for y
    proof -
      have "refunded s1 y \<longleftrightarrow> (\<exists>x \<in> set (bets s). b_id x = b_id y \<and> (b_id x = b_id b \<or> b_status x = REFUNDED))"
        unfolding refunded_def paid(6) set_map bex_simps by (intro bex_cong refl) auto
      then show ?thesis using fr(2) by (auto simp: refunded_def)
    qed
    have rest: "forA (refund_bet rid) bs s1 = (r, s')" using Cons.prems(6) one paid(1) by (simp add: bindA_def)
    have IH: "r = Inr () \<and> wf_db s' \<and> rounds s' = rounds s1 \<and>
      (\<forall>u c. user_balance s' u c = user_balance s1 u c + (if c = GOLD then returned s' u bs else 0)) \<and>
      (\<forall>b. b_id b \<notin> b_id ` set bs \<longrightarrow> refunded s' b = refunded s1 b) \<and> map b_id (bets s') = map b_id (bets s1)"
    proof (rule Cons.IH [OF paid(2) nb(2) _ _ _ rest])
      show "set (map b_id bs) \<subseteq> set (map b_id (bets s1))" using Cons.prems(3) ids by (simp del: set_map)
      show "casinoRefundIdempotencyKey rid (b_id y) \<notin> dom (txns s1)" if "y \<in> set bs" for y
      proof -
        have "b_id y \<noteq> b_id b" using that nb(1) by (metis image_eqI)
        then show ?thesis using that Cons.prems(4) [of y] by (simp add: paid(4))
      qed
      show "\<not> refunded s1 y" if "y \<in> set bs" for y
      proof -
        have "b_id y \<noteq> b_id b" using that nb(1) by (metis image_eqI)
        then show ?thesis using that Cons.prems(5) [of y] by (simp add: ref)
      qed
    qed
    moreover have "refunded s' b" using IH nb(1) ref by blast
    ultimately show ?thesis
      using paid(3,5) ids ref by (auto simp: returned_def)
  next
    case stuck
    have ref: "refunded s1 y = refunded s y" for y by (simp add: refunded_def stuck(6))
    have rest: "forA (refund_bet rid) bs s1 = (r, s')" using Cons.prems(6) one stuck(1) by (simp add: bindA_def)
    have IH: "r = Inr () \<and> wf_db s' \<and> rounds s' = rounds s1 \<and>
      (\<forall>u c. user_balance s' u c = user_balance s1 u c + (if c = GOLD then returned s' u bs else 0)) \<and>
      (\<forall>b. b_id b \<notin> b_id ` set bs \<longrightarrow> refunded s' b = refunded s1 b) \<and> map b_id (bets s') = map b_id (bets s1)"
    proof (rule Cons.IH [OF stuck(2) nb(2) _ _ _ rest])
      show "set (map b_id bs) \<subseteq> set (map b_id (bets s1))" using Cons.prems(3) stuck(6) by (simp del: set_map)
    qed (use Cons.prems(4,5) ref stuck(4) in auto)
    moreover have "\<not> refunded s' b" using IH nb(1) ref Cons.prems(5) by auto
    ultimately show ?thesis
      using stuck ref by (auto simp: returned_def)
  qed
qed (simp add: returned_def returnA_def)

text \<open>Identifiers only grow and the tables stay well-formed, whatever is thrown.\<close>

definition advances :: "('z wdb_scheme) \<Rightarrow> ('z wdb_scheme) \<Rightarrow> bool" where
  "advances s s' \<longleftrightarrow> (wf_db s \<longrightarrow> wf_db s' \<and> next_id s \<le> next_id s')"

interpretation ad: step_order advances
  by unfold_locales (auto simp: advances_def)

lemma advances_credit: "ad.ok (credit m j)"
  by (rule ad.okI) (auto simp: advances_def credit_def dest: move_keeps(1,4))

lemma advances_updateBet: "ad.ok (updateBet i st pay t)"
proof (rule ad.okI)
  fix s s' :: "'a casino_db_scheme" and r
  assume "updateBet i st pay t s = (r, s')"
  then show "advances s s'" using updateBet_cases [of i st pay t s r s'] by (auto simp: advances_def)
qed

lemma advances_closeRound: "ad.ok (closeRound rid st out)"
  by (rule ad.okI) (auto simp: advances_def closeRound_def split: option.splits)

lemma advances_settle_bet: "ad.ok (settle_bet x)"
  unfolding settle_bet_def
  by (cases x) (auto intro!: ad.ok_bind ad.ok_if advances_credit advances_updateBet)

lemma settle_txn_failed:
  assumes wf: "wf_db s" and run: "settle_txn g rid out xs s = (Inl e, s1)"
  shows "same_money s s1"
proof -
  have "ad.ok (bindA (forA settle_bet xs) (\<lambda>_. closeRound rid SETTLED out))"
    by (intro ad.ok_bind ad.ok_for advances_settle_bet advances_closeRound)
  moreover obtain s2 where "bindA (forA settle_bet xs) (\<lambda>_. closeRound rid SETTLED out) s = (Inl e, s2)"
    and s1: "s1 = rollback s s2"
    using run by (auto simp: settle_txn_def transaction_Inl)
  ultimately have "next_id s \<le> next_id s2" using wf ad.okD by (fastforce simp: advances_def)
  then show ?thesis using same_money_rollback s1 by blast
qed

text \<open>
  C16: When settlement fails, the round is reported aborted with no payouts and closed ABORTED,
  and each user has received exactly the stakes of those of its placed bets that are now marked
  REFUNDED: a bet whose refund threw returns nothing and keeps its status.
\<close>

theorem aborted_settlement_refunds:
  assumes ok: "casino_ok s" and rd: "rounds s rid = Some r0"
    and fresh: "\<And>b. b \<in> set (listPlacedBets rid s) \<Longrightarrow> casinoRefundIdempotencyKey rid (b_id b) \<notin> dom (txns s)"
    and run: "settleRound g rid out s = (Inr res, s')" and ab: "sr_aborted res"
  shows "sr_payouts res = [] \<and> map_option rd_status (rounds s' rid) = Some ABORTED \<and>
    (\<forall>u c. user_balance s' u c =
       user_balance s u c + (if c = GOLD then returned s' u (listPlacedBets rid s) else 0)) \<and>
    (\<forall>b \<in> set (bets s). b \<notin> set (listPlacedBets rid s) \<longrightarrow> refunded s' b = refunded s b)"
proof -
  let ?bs = "listPlacedBets rid s"
  have wf: "wf_db s" using ok by (simp add: casino_ok_def)
  obtain x s1 where t: "settle_txn g rid out (computed g rid out ?bs) s = (x, s1)" by fastforce
  obtain e where e: "x = Inl e"
    using t run ab by (cases x) (auto simp: settleRound_def bindA_def getsA_def catchA_def Let_def returnA_def)
  have same: "same_money s s1" by (rule settle_txn_failed [OF wf t [unfolded e]])
  have wf1: "wf_db s1" using same wf by (simp add: same_money_def)
  have tb: "bets s1 = bets s" "rounds s1 = rounds s" using more_tables same by (auto simp: same_money_def)
  obtain y s2 where ref: "forA (refund_bet rid) ?bs s1 = (y, s2)" by fastforce
  have inj: "inj_on b_id (set (bets s))" using ok by (simp add: casino_ok_def distinct_map)
  have nr: "\<not> refunded s1 b" if "b \<in> set ?bs" for b
    using that inj by (auto simp: refunded_def tb listPlacedBets_def inj_on_def)
  have R: "y = Inr () \<and> wf_db s2 \<and> rounds s2 = rounds s1 \<and>
    (\<forall>u c. user_balance s2 u c = user_balance s1 u c + (if c = GOLD then returned s2 u ?bs else 0)) \<and>
    (\<forall>b. b_id b \<notin> b_id ` set ?bs \<longrightarrow> refunded s2 b = refunded s1 b) \<and> map b_id (bets s2) = map b_id (bets s1)"
  proof (rule refund_all [OF wf1 placed_distinct [OF ok] _ _ nr ref])
    show "set (map b_id ?bs) \<subseteq> set (map b_id (bets s1))" by (auto simp: listPlacedBets_def tb)
    show "casinoRefundIdempotencyKey rid (b_id b) \<notin> dom (txns s1)" if "b \<in> set ?bs" for b
      using fresh [OF that] same by (simp add: same_money_def)
  qed
  have s': "s' = s2\<lparr>rounds := (rounds s2)(rid \<mapsto> r0\<lparr>rd_status := ABORTED, rd_winningOutcome := None\<rparr>)\<rparr>"
    and res: "res = \<lparr>sr_winningOutcome = out, sr_payouts = [], sr_winners = [], sr_aborted = True\<rparr>"
    using run R rd tb
    by (auto simp: settleRound_def bindA_def getsA_def catchA_def t e Let_def returnA_def refundRound_def
        ref closeRound_def)
  have ret: "returned s' u bs = returned s2 u bs" "refunded s' b = refunded s2 b" for u bs b
    by (simp_all add: returned_def refunded_def s')
  have "refunded s' b = refunded s b" if "b \<in> set (bets s)" "b \<notin> set ?bs" for b
  proof -
    have "b_id b \<notin> b_id ` set ?bs" using that inj by (auto simp: listPlacedBets_def inj_on_def)
    then show ?thesis using R ret(2) tb by (simp add: refunded_def)
  qed
  then show ?thesis
    using R same res ret(1) by (auto simp: s' same_money_def)
qed

end
