(* ===== verification/CasinoBets.thy ===== *)
theory CasinoBets
  imports CasinoLaws
begin

text \<open>
  Placing a bet (casino.service.ts placeBet): what a placed bet takes and records, and that every
  operation of the casino keeps its tables in order.
\<close>

section \<open>Placing bets\<close>

lemma debit_open:
  assumes "debit m j s = (Inr x, s')"
  shows "\<not> economyFrozen s \<and> walletEnabled s \<and> isInteger (m_amount m) \<and> 0 < m_amount m"
  using assms by (auto simp: debit_def move_def bindA_Inr validateEconomyStatus_def)

lemma debit_flags:
  assumes wf: "wf_db s" and run: "debit m j s = (Inr x, s')"
  shows "economyFrozen s' = economyFrozen s \<and> walletEnabled s' = walletEnabled s"
proof (cases "txns s (m_key m)")
  case None
  have "move DEBIT m j s = (Inr x, s')" using run by (simp add: debit_def)
  with wf None show ?thesis by (cases rule: move_fresh) auto
next
  case (Some t)
  then show ?thesis using move_used [OF Some, of DEBIT j "Inr x" s'] run by (simp add: debit_def)
qed

lemma debit_replays:
  assumes "txns s (m_key m) = Some t" "\<not> economyFrozen s" "walletEnabled s" "isInteger (m_amount m)" "0 < m_amount m"
  obtains x where "debit m j s = (Inr x, s)"
  using that assms
  by (auto simp: debit_def move_def move_run_def replay_def bindA_def guardA_def getsA_def returnA_def
      validateEconomyStatus_def)

definition new_bet :: "bet_input \<Rightarrow> nat \<Rightarrow> nat \<Rightarrow> bet" where
  "new_bet i bid txn = \<lparr>b_id = bid, b_roundId = i_roundId i, b_userId = i_userId i, b_game = i_game i,
     b_item = i_item i, b_amount = i_amount i, b_clientBetId = i_clientBetId i, b_status = PLACED,
     b_payout = 0, b_betTxnId = Some txn, b_winTxnId = None\<rparr>"

lemma placeBet_Inr:
  assumes "placeBet i s = (Inr (bal, bid), s')"
  obtains d s1 where "i_amount i \<in> set CASINO_CHIPS" "bettable (i_game i) (i_item i)" "\<not> bet_locked s i"
    "\<not> symbol_cap s i" "i_phase i = Betting" "i_activeRoundId i = Some (i_roundId i)"
    "debit (bet_movement i) False s = (Inr d, s1)" "bal = mr_balanceAfter d"
    "(\<exists>b. findBet s1 (i_roundId i) (i_userId i) (i_clientBetId i) = Some b \<and> bid = b_id b \<and> s' = s1) \<or>
     (findBet s1 (i_roundId i) (i_userId i) (i_clientBetId i) = None \<and> bid = next_id s1 \<and>
      s' = s1\<lparr>bets := bets s1 @ [new_bet i (next_id s1) (mr_transactionId d)], next_id := Suc (next_id s1)\<rparr>)"
proof -
  have guards: "i_amount i \<in> set CASINO_CHIPS \<and> bettable (i_game i) (i_item i) \<and> \<not> bet_locked s i \<and>
    \<not> symbol_cap s i \<and> i_phase i = Betting \<and> i_activeRoundId i = Some (i_roundId i)"
    using assms by (auto simp: placeBet_def bindA_Inr)
  then have rest: "bindA (catchA (debit (bet_movement i) False) (\<lambda>e. throwA (bet_error (i_game i) e))) (\<lambda>d.
     bindA (createBet (i_roundId i) (i_userId i) (i_game i) (i_item i) (i_amount i) (i_clientBetId i)
              (Some (mr_transactionId d))) (\<lambda>b. returnA (mr_balanceAfter d, b_id b))) s = (Inr (bal, bid), s')"
    using assms by (simp add: placeBet_def bindA_def guardA_def getsA_def)
  then obtain d s1 b where d: "catchA (debit (bet_movement i) False) (\<lambda>e. throwA (bet_error (i_game i) e)) s = (Inr d, s1)"
    and b: "createBet (i_roundId i) (i_userId i) (i_game i) (i_item i) (i_amount i) (i_clientBetId i)
              (Some (mr_transactionId d)) s1 = (Inr b, s')" "bal = mr_balanceAfter d" "bid = b_id b"
    by (auto simp: bindA_Inr)
  have "debit (bet_movement i) False s = (Inr d, s1)"
    using d by (cases "debit (bet_movement i) False s") (auto simp: catchA_def throwA_def split: sum.splits)
  then show thesis
    using that guards b by (auto simp: createBet_def new_bet_def Let_def split: option.splits)
qed

lemma findBet_Some:
  "findBet s r u c = Some b \<Longrightarrow> b \<in> set (bets s) \<and> tap b = (r, u, c)"
  by (auto simp: findBet_def find_Some_iff tap_def)

lemma findBet_None: "findBet s r u c = None \<longleftrightarrow> (r, u, c) \<notin> tap ` set (bets s)"
  by (auto simp: findBet_def find_None_iff tap_def image_iff)

lemma bet_later: "(s\<lparr>bets := bs, next_id := n\<rparr>) = (s\<lparr>next_id := n\<rparr>)\<lparr>bets := bs\<rparr>"
  by simp

lemma placeBet_spec:
  assumes ok: "casino_ok s" and run: "placeBet i s = (Inr (bal, bid), s')"
  shows "i_amount i \<in> set CASINO_CHIPS \<and> bettable (i_game i) (i_item i) \<and> \<not> bet_locked s i \<and> casino_ok s' \<and>
    user_balance s' u c = user_balance s u c -
      (if casinoBetIdempotencyKey (i_roundId i) (i_userId i) (i_clientBetId i) \<notin> dom (txns s) \<and>
          u = i_userId i \<and> c = GOLD then i_amount i else 0) \<and>
    (\<exists>b \<in> set (bets s'). b_id b = bid \<and> tap b = (i_roundId i, i_userId i, i_clientBetId i)) \<and>
    bets s' = bets s @ (if (i_roundId i, i_userId i, i_clientBetId i) \<in> tap ` set (bets s) then []
                        else [new_bet i bid (the (b_betTxnId (last (bets s'))))]) \<and>
    (\<exists>bal'. placeBet i s' = (Inr (bal', bid), s'))"
proof -
  from run obtain d s1 where g: "i_amount i \<in> set CASINO_CHIPS" "bettable (i_game i) (i_item i)"
    "\<not> bet_locked s i" "\<not> symbol_cap s i" "i_phase i = Betting" "i_activeRoundId i = Some (i_roundId i)"
    and d: "debit (bet_movement i) False s = (Inr d, s1)" "bal = mr_balanceAfter d"
    and c: "(\<exists>b. findBet s1 (i_roundId i) (i_userId i) (i_clientBetId i) = Some b \<and> bid = b_id b \<and> s' = s1) \<or>
     (findBet s1 (i_roundId i) (i_userId i) (i_clientBetId i) = None \<and> bid = next_id s1 \<and>
      s' = s1\<lparr>bets := bets s1 @ [new_bet i (next_id s1) (mr_transactionId d)], next_id := Suc (next_id s1)\<rparr>)"
    by (rule placeBet_Inr)
  have wf: "wf_db s" using ok by (simp add: casino_ok_def)
  have m: "move DEBIT (bet_movement i) False s = (Inr d, s1)" using d(1) by (simp add: debit_def)
  have t: "bets s1 = bets s" "rounds s1 = rounds s"
    using more_tables dep.tables_mv [OF wf d(1)] by auto
  note K = move_keeps [OF wf m]
  have ok1: "casino_ok s1" using ok K t by (fastforce simp: casino_ok_def)
  have used: "casinoBetIdempotencyKey (i_roundId i) (i_userId i) (i_clientBetId i) \<in> dom (txns s1)"
    using dep.recorded [OF wf d(1)] by simp
  have bal: "user_balance s1 u c = user_balance s u c -
      (if casinoBetIdempotencyKey (i_roundId i) (i_userId i) (i_clientBetId i) \<notin> dom (txns s) \<and>
          u = i_userId i \<and> c = GOLD then i_amount i else 0)" for u c
    using dep.effect_once [OF wf d(1), of u c] by auto
  note op = debit_open [OF d(1)] and fl = debit_flags [OF wf d(1)]
  show ?thesis
  proof (cases "findBet s1 (i_roundId i) (i_userId i) (i_clientBetId i)")
    case (Some b)
    then have s': "s' = s1" "bid = b_id b" using c by auto
    have b: "b \<in> set (bets s)" "tap b = (i_roundId i, i_userId i, i_clientBetId i)"
      using findBet_Some [OF Some] t by auto
    obtain tx where "txns s1 (m_key (bet_movement i)) = Some tx" using used by auto
    then obtain y where y: "debit (bet_movement i) False s1 = (Inr y, s1)"
      using debit_replays op fl by metis
    have "placeBet i s1 = (Inr (mr_balanceAfter y, bid), s1)"
      using g y Some s'(2) t
      by (simp add: placeBet_def bindA_def guardA_def getsA_def bet_locked_def symbol_cap_def
          countDistinctSymbols_def hasSymbol_def user_items_def catchA_def createBet_def returnA_def)
    moreover have "(i_roundId i, i_userId i, i_clientBetId i) \<in> tap ` set (bets s)"
      using b by (metis image_eqI)
    ultimately show ?thesis using g ok1 bal b s' t by auto
  next
    case None
    then have s': "s' = s1\<lparr>bets := bets s1 @ [new_bet i (next_id s1) (mr_transactionId d)], next_id := Suc (next_id s1)\<rparr>"
      and bid: "bid = next_id s1" using c by auto
    have fresh: "(i_roundId i, i_userId i, i_clientBetId i) \<notin> tap ` set (bets s)"
      using None t by (simp add: findBet_None)
    have nt: "tap (new_bet i x y) = (i_roundId i, i_userId i, i_clientBetId i)" for x y
      by (simp add: tap_def new_bet_def)
    have ok': "casino_ok s'"
      using ok1 wf_next [of s1] fresh t nt
      by (auto simp: casino_ok_def s' bet_later new_bet_def less_Suc_eq simp del: casino_db.simps)
    have f: "findBet s' (i_roundId i) (i_userId i) (i_clientBetId i) = Some (new_bet i bid (mr_transactionId d))"
    proof -
      have "List.find P (xs @ [x]) = (if List.find P xs = None then (if P x then Some x else None) else List.find P xs)"
        for P xs and x :: bet by (induction xs) auto
      then show ?thesis using None by (simp add: findBet_def s' bid new_bet_def)
    qed
    obtain tx where "txns s' (m_key (bet_movement i)) = Some tx" using used by (auto simp: s')
    moreover have "\<not> economyFrozen s'" "walletEnabled s'" using op fl by (simp_all add: s')
    ultimately obtain y where y: "debit (bet_movement i) False s' = (Inr y, s')"
      using debit_replays op by metis
    have cap: "\<not> symbol_cap s' i"
      by (auto simp: symbol_cap_def hasSymbol_def user_items_def s' new_bet_def)
    have lk: "\<not> bet_locked s' i" using g(3) t by (simp add: bet_locked_def s')
    have "createBet (i_roundId i) (i_userId i) (i_game i) (i_item i) (i_amount i) (i_clientBetId i) x s' =
        (Inr (new_bet i bid (mr_transactionId d)), s')" for x
      using f by (simp add: createBet_def)
    then have "placeBet i s' = (Inr (mr_balanceAfter y, bid), s')"
      using g y cap lk
      by (simp add: placeBet_def bindA_def guardA_def getsA_def catchA_def returnA_def new_bet_def)
    then show ?thesis using g ok' bal fresh t nt by (auto simp: s' bid new_bet_def)
  qed
qed

text \<open>Every operation of the casino keeps its tables in order.\<close>

definition keeps_casino :: "('z casino_db_scheme) \<Rightarrow> ('z casino_db_scheme) \<Rightarrow> bool" where
  "keeps_casino s s' \<longleftrightarrow> (casino_ok s \<longrightarrow> casino_ok s' \<and> next_id s \<le> next_id s')"

interpretation kc: step_order keeps_casino
  by unfold_locales (auto simp: keeps_casino_def)

lemma casino_ok_more:
  assumes "casino_ok s" "wf_db s'" "solvent s'" "next_id s \<le> next_id s'" "wdb.more s' = wdb.more s"
  shows "casino_ok s'"
proof -
  have "bets s' = bets s" by (rule more_tables(1) [OF assms(5)])
  then show ?thesis using assms by (auto simp: casino_ok_def)
qed

lemma kc_move: "kc.ok (move ty m j)"
proof (rule kc.okI)
  fix s s' :: "'a casino_db_scheme" and r
  assume run: "move ty m j s = (r, s')"
  show "keeps_casino s s'"
    unfolding keeps_casino_def
  proof
    assume ok: "casino_ok s"
    then have wf: "wf_db s" by (simp add: casino_ok_def)
    have "casino_ok s'"
      using casino_ok_more [OF ok] move_keeps [OF wf run] move_tables [OF wf run] ok
      by (simp add: casino_ok_def)
    then show "casino_ok s' \<and> next_id s \<le> next_id s'" using move_keeps(4) [OF wf run] by simp
  qed
qed

lemma kc_credit: "kc.ok (credit m j)" and kc_debit: "kc.ok (debit m j)"
  using kc_move [of CREDIT m j] kc_move [of DEBIT m j]
  by (simp_all add: credit_def [abs_def] debit_def [abs_def])

lemma casino_ok_ids:
  "casino_ok s \<longleftrightarrow> wf_db s \<and> solvent s \<and> distinct (map b_id (bets s)) \<and> distinct (map tap (bets s)) \<and>
     (\<forall>i \<in> set (map b_id (bets s)). i < next_id s)"
  by (auto simp: casino_ok_def)

lemma kc_updateBet: "kc.ok (updateBet i st pay t)"
proof (rule kc.okI)
  fix s s' :: "'a casino_db_scheme" and r
  assume run: "updateBet i st pay t s = (r, s')"
  have "map b_id (bets s') = map b_id (bets s) \<and> map tap (bets s') = map tap (bets s) \<and> next_id s' = next_id s \<and>
      (wf_db s \<longrightarrow> wf_db s') \<and> (solvent s \<longrightarrow> solvent s')"
    using run by (auto simp: updateBet_def tap_def split: if_splits)
  then show "keeps_casino s s'" by (auto simp: keeps_casino_def casino_ok_ids)
qed

lemma kc_closeRound: "kc.ok (closeRound rid st out)"
  by (rule kc.okI) (auto simp: keeps_casino_def closeRound_def casino_ok_def split: option.splits)

lemma kc_createRound: "kc.ok (createRound g)"
proof (rule kc.okI)
  fix s s' :: "'a casino_db_scheme" and r
  assume run: "createRound g s = (r, s')"
  show "keeps_casino s s'"
    unfolding keeps_casino_def
  proof
    assume ok: "casino_ok s"
    have s': "bets s' = bets s" "next_id s' = Suc (next_id s)" "wallets s' = wallets s"
      "wallet_of s' = wallet_of s" "ledger s' = ledger s" "txns s' = txns s"
      using run by (auto simp: createRound_def Let_def)
    have "wf_db s'" using ok by (auto simp: casino_ok_def wf_db_def s' less_Suc_eq)
    then show "casino_ok s' \<and> next_id s \<le> next_id s'"
      using ok s' by (fastforce simp: casino_ok_def solvent_def)
  qed
qed

lemma kc_transaction: "kc.ok m \<Longrightarrow> kc.ok (transaction m)"
proof (rule kc.okI)
  fix s s' :: "'a casino_db_scheme" and r
  assume m: "kc.ok m" and run: "transaction m s = (r, s')"
  obtain x s1 where ms: "m s = (x, s1)" by fastforce
  then have R: "keeps_casino s s1" using m kc.okD by blast
  show "keeps_casino s s'"
  proof (cases x)
    case (Inl e)
    then have s': "s' = rollback s s1" using run ms by (simp add: transaction_def)
    show ?thesis
      unfolding keeps_casino_def
    proof
      assume ok: "casino_ok s"
      then have n: "next_id s \<le> next_id s1" using R by (simp add: keeps_casino_def)
      have le: "next_id s \<le> next_id s'" using n by (simp add: s' rollback_def)
      have "casino_ok s'"
      proof (rule casino_ok_more [OF ok])
        show "wf_db s'" "solvent s'"
          using ok same_money_rollback [OF n] s' by (simp_all add: same_money_def casino_ok_def)
        show "wdb.more s' = wdb.more s" by (simp add: s' rollback_def)
      qed (rule le)
      then show "casino_ok s' \<and> next_id s \<le> next_id s'" using le by simp
    qed
  next
    case (Inr a)
    then show ?thesis using run ms R by (simp add: transaction_def)
  qed
qed

lemma kc_settle: "kc.ok (settleRound g rid out)"
proof -
  have b: "kc.ok (settle_bet x)" for x
    unfolding settle_bet_def
    by (cases x) (auto intro!: kc.ok_bind kc.ok_if kc_credit kc_updateBet)
  show ?thesis
    unfolding settleRound_def settle_txn_def refundRound_def refund_bet_def Let_def
    by (intro kc.ok_bind kc.ok_catch kc.ok_pure kc.ok_for kc_transaction b kc_closeRound kc_credit kc_updateBet)
qed

lemma kc_createBet: "kc.ok (createBet r u g it a c t)"
proof (rule kc.okI)
  fix s s' :: "'a casino_db_scheme" and x
  assume run: "createBet r u g it a c t s = (x, s')"
  show "keeps_casino s s'"
  proof (cases "findBet s r u c")
    case (Some b)
    then show ?thesis using run by (simp add: createBet_def keeps_casino_def)
  next
    case None
    let ?b = "\<lparr>b_id = next_id s, b_roundId = r, b_userId = u, b_game = g, b_item = it, b_amount = a,
      b_clientBetId = c, b_status = PLACED, b_payout = 0, b_betTxnId = t, b_winTxnId = None\<rparr>"
    have s': "s' = s\<lparr>bets := bets s @ [?b], next_id := Suc (next_id s)\<rparr>"
      using run None by (auto simp: createBet_def Let_def)
    have "(r, u, c) \<notin> tap ` set (bets s)" using None by (simp add: findBet_None)
    moreover have "tap ?b = (r, u, c)" by (simp add: tap_def)
    ultimately show ?thesis
      using wf_next [of s]
      by (auto simp: keeps_casino_def casino_ok_def s' bet_later less_Suc_eq simp del: casino_db.simps)
  qed
qed

lemma kc_placeBet: "kc.ok (placeBet i)"
  unfolding placeBet_def by (intro kc.ok_bind kc.ok_catch kc.ok_pure kc_debit kc_createBet)

text \<open>
  C5: A bet that is placed is one of the five chips on a bettable item of a round still in
  BETTING; the stake is debited from the bettor only if this tap's key is new, the row is added
  only if this tap has none, and the same call again changes nothing and answers the same bet:
  a tap is charged once and recorded once, even when a first attempt stopped after the debit.
\<close>

theorem placeBet_exactly_once:
  assumes ok: "casino_ok s" and run: "placeBet i s = (Inr (bal, bid), s')"
  shows "i_amount i \<in> set CASINO_CHIPS \<and> bettable (i_game i) (i_item i) \<and> \<not> bet_locked s i \<and> casino_ok s' \<and>
    user_balance s' u c = user_balance s u c -
      (if casinoBetIdempotencyKey (i_roundId i) (i_userId i) (i_clientBetId i) \<notin> dom (txns s) \<and>
          u = i_userId i \<and> c = GOLD then i_amount i else 0) \<and>
    (\<exists>b \<in> set (bets s'). b_id b = bid \<and> tap b = (i_roundId i, i_userId i, i_clientBetId i)) \<and>
    bets s' = bets s @ (if (i_roundId i, i_userId i, i_clientBetId i) \<in> tap ` set (bets s) then []
                        else [new_bet i bid (the (b_betTxnId (last (bets s'))))]) \<and>
    (\<exists>bal'. placeBet i s' = (Inr (bal', bid), s'))"
  by (rule placeBet_spec [OF ok run])

section \<open>A casino in use\<close>

definition empty_casino :: casino_db where
  "empty_casino = wdb.extend init_db
     \<lparr>rounds = Map.empty, roundCount = (\<lambda>_. 0), bets = []\<rparr>"

text \<open>Users 7 and 8 receive 1000 coins each, a round of Greedy Food opens, and both bet.\<close>

definition sample_bet :: "uid \<Rightarrow> string \<Rightarrow> int \<Rightarrow> bet_input" where
  "sample_bet u item amt = \<lparr>i_userId = u, i_game = GREEDY_FOOD, i_roundId = 5, i_item = item,
     i_amount = amt, i_activeRoundId = Some 5, i_phase = Betting, i_clientBetId = ''tap''\<rparr>"

definition sample_coins :: "uid \<Rightarrow> string \<Rightarrow> movement" where
  "sample_coins u key = (sample_stake CREDIT 1000 key)\<lparr>m_userId := u\<rparr>"

definition open_casino :: casino_db where
  "open_casino = snd (createRound GREEDY_FOOD (snd (credit (sample_coins 8 ''l'') False
     (snd (credit (sample_coins 7 ''k'') False empty_casino)))))"

definition busy_casino :: casino_db where
  "busy_casino = snd (placeBet (sample_bet 8 ''carrot'' 500) (snd (placeBet (sample_bet 7 ''crab'' 100) open_casino)))"

lemma empty_casino_ok: "casino_ok empty_casino"
  by (simp add: casino_ok_def empty_casino_def wf_db_def solvent_def init_db_def wdb.defs)

lemma open_casino_ok: "casino_ok open_casino"
  using empty_casino_ok kc_credit kc_createRound
  unfolding open_casino_def kc.ok_def keeps_casino_def by blast

lemma busy_casino_ok: "casino_ok busy_casino"
  using open_casino_ok kc_placeBet unfolding busy_casino_def kc.ok_def keeps_casino_def by blast

text \<open>The wallet of user 8 is frozen after the bets: its win can no longer be credited.\<close>

definition with_status :: "nat \<Rightarrow> wallet_status \<Rightarrow> ('z wdb_scheme) \<Rightarrow> ('z wdb_scheme)" where
  "with_status i st s = s\<lparr>wallets := (wallets s)(i := map_option (\<lambda>w. w\<lparr>w_status := st\<rparr>) (wallets s i))\<rparr>"

lemma casino_ok_status: "casino_ok s \<Longrightarrow> casino_ok (with_status i st s)"
proof -
  have bal: "balance_of c (w\<lparr>w_status := st\<rparr>) = balance_of c w" for c w by (cases c) simp_all
  have user: "w_userId (w\<lparr>w_status := st\<rparr>) = w_userId w" for w by simp
  have tb: "bets (with_status i st s) = bets s" "next_id (with_status i st s) = next_id s"
    by (simp_all add: with_status_def)
  assume ok: "casino_ok s"
  then have "solvent (with_status i st s)" and "wf_db (with_status i st s)"
    by (auto simp: casino_ok_def with_status_def solvent_def wf_db_def bal) (metis user)
  with ok show ?thesis by (simp add: casino_ok_def tb)
qed

definition frozen_casino :: casino_db where
  "frozen_casino = with_status 3 FROZEN busy_casino"

theorem settlement_pays_exactly_witness:
  "user_balance (snd (settleRound GREEDY_FOOD 5 (Some ''crab'') busy_casino)) 7 GOLD = 5400"
proof -
  have now: "map_option rd_status (rounds busy_casino 5) = Some BETTING" by code_simp
  then obtain r where r: "rounds busy_casino 5 = Some r" by auto
  have act: "list_all (\<lambda>b. user_status busy_casino (b_userId b) = ACTIVE) (listPlacedBets 5 busy_casino)"
    "list_all (\<lambda>b. txns busy_casino (casinoWinIdempotencyKey 5 (b_id b)) = None) (listPlacedBets 5 busy_casino)"
    "user_balance busy_casino 7 GOLD = 900"
    "winnings GREEDY_FOOD (Some ''crab'') 7 (listPlacedBets 5 busy_casino) = 4500"
    by code_simp+
  then have "win_keys 5 (listPlacedBets 5 busy_casino) \<inter> dom (txns busy_casino) = {}"
    by (auto simp: list_all_iff win_keys_def)
  with settlement_pays_exactly [OF busy_casino_ok r _ this, of GREEDY_FOOD "Some ''crab''"] act
  obtain res s' where "settleRound GREEDY_FOOD 5 (Some ''crab'') busy_casino = (Inr res, s')"
    "user_balance s' 7 GOLD = 5400"
    by (auto simp: list_all_iff simp del: map_eq_conv)
  then show ?thesis by simp
qed

theorem resettling_pays_nothing_witness:
  "let s = snd (settleRound GREEDY_FOOD 5 (Some ''crab'') busy_casino) in
     user_balance (snd (settleRound GREEDY_FOOD 5 (Some ''carrot'') s)) = user_balance s"
proof -
  have "listPlacedBets 5 (snd (settleRound GREEDY_FOOD 5 (Some ''crab'') busy_casino)) = []" by code_simp
  from resettling_pays_nothing [OF this surjective_pairing] show ?thesis by (simp add: Let_def)
qed

theorem aborted_settlement_refunds_witness:
  "user_balance (snd (settleRound GREEDY_FOOD 5 (Some ''carrot'') frozen_casino)) 7 GOLD = 1000"
proof -
  let ?r = "settleRound GREEDY_FOOD 5 (Some ''carrot'') frozen_casino"
  have "map_option rd_status (rounds frozen_casino 5) = Some BETTING" by code_simp
  then obtain r where r: "rounds frozen_casino 5 = Some r" by auto
  have c: "list_all (\<lambda>b. txns frozen_casino (casinoRefundIdempotencyKey 5 (b_id b)) = None) (listPlacedBets 5 frozen_casino)"
    "case fst ?r of Inl _ \<Rightarrow> False | Inr res \<Rightarrow> sr_aborted res"
    "user_balance frozen_casino 7 GOLD = 900"
    "returned (snd ?r) 7 (listPlacedBets 5 frozen_casino) = 100"
    by code_simp+
  then obtain res where "?r = (Inr res, snd ?r)" "sr_aborted res"
    by (cases "fst ?r") (simp_all add: prod_eq_iff)
  moreover have "casino_ok frozen_casino"
    unfolding frozen_casino_def by (rule casino_ok_status [OF busy_casino_ok])
  moreover have "casinoRefundIdempotencyKey 5 (b_id b) \<notin> dom (txns frozen_casino)"
    if "b \<in> set (listPlacedBets 5 frozen_casino)" for b
    using c(1) that by (auto simp: list_all_iff)
  ultimately have "\<forall>u c. user_balance (snd ?r) u c = user_balance frozen_casino u c +
      (if c = GOLD then returned (snd ?r) u (listPlacedBets 5 frozen_casino) else 0)"
    using aborted_settlement_refunds [OF _ r] by blast
  with c show ?thesis by simp
qed

theorem placeBet_exactly_once_witness:
  "user_balance (snd (placeBet (sample_bet 7 ''crab'' 100) open_casino)) 7 GOLD = 900"
proof -
  let ?r = "placeBet (sample_bet 7 ''crab'' 100) open_casino"
  have c: "case fst ?r of Inl _ \<Rightarrow> False | Inr res \<Rightarrow> True" "user_balance open_casino 7 GOLD = 1000"
    "txns open_casino (casinoBetIdempotencyKey 5 7 ''tap'') = None" by code_simp+
  then obtain bal bid where "?r = (Inr (bal, bid), snd ?r)"
    by (cases "fst ?r") (auto simp add: prod_eq_iff)
  with placeBet_exactly_once [OF open_casino_ok this, of 7 GOLD] c
  show ?thesis by (auto simp: sample_bet_def)
qed

end
