(* ===== verification/CasinoLoop.thy ===== *)
theory CasinoLoop
  imports CasinoBets Locks
begin

text \<open>
  The round loop of the casino: casino-loop.service.ts and casino-round.state.ts under
  src/modules/casino/services, and the bet handler of gateway/casino.gateway.ts. One instance holds
  the leader lock and drives each game through betting, spinning and results, one tick a second.
  \<open>tick_env\<close> says, for one tick, which of the awaited reads throw and what the random pick and the
  profile service answer. Ticks of one instance are taken one at a time.
\<close>

section \<open>Round state\<close>

definition phase_seconds :: "casino_phase \<Rightarrow> int" where
  "phase_seconds p = (case p of Betting \<Rightarrow> 30 | Spinning \<Rightarrow> 10 | Results \<Rightarrow> 5)"

definition HISTORY_LEN :: nat where
  "HISTORY_LEN = 8"

record winner_view =
  wv_username :: string
  wv_amount :: int
  wv_avatarUrl :: "string option"

record round_state =
  rs_roundId :: "nat option"
  rs_roundNumber :: "nat option"
  rs_phase :: casino_phase
  rs_seconds :: int
  rs_history :: "string option list"
  rs_lastWinners :: "winner_view list"
  rs_winningOutcome :: "string option"
  rs_poolBets :: "(string \<times> int) list"

definition freshRoundState ::
  "nat \<Rightarrow> nat \<Rightarrow> string option list \<times> winner_view list \<Rightarrow> round_state" where
  "freshRoundState rid number carryOver =
     \<lparr>rs_roundId = Some rid, rs_roundNumber = Some number, rs_phase = Betting,
      rs_seconds = phase_seconds Betting, rs_history = fst carryOver, rs_lastWinners = snd carryOver,
      rs_winningOutcome = None, rs_poolBets = []\<rparr>"

definition pushHistory :: "string option list \<Rightarrow> string option \<Rightarrow> nat \<Rightarrow> string option list" where
  "pushHistory history outcome cap = take cap (outcome # history)"

section \<open>One instance, the shared store and the database\<close>

datatype casino_event =
    TickEvent "nat option" "nat option" casino_phase int "(string \<times> int) list"
  | NewRoundEvent "nat option" "nat option" int
  | SyncEvent "nat option" "nat option" casino_phase int "(string \<times> int) list" "string option list" "winner_view list"
  | GreedySpinEvent "string option" int
  | LuckyResultEvent nat "string option" int
  | GreedyResultsEvent "string option" "winner_view list" "(uid \<times> int) list" int
  | LuckySettlementEvent nat "string option" "winner_view list" "(uid \<times> int) list" int

record instance_state =
  isLeader :: bool
  leaderToken :: "nat option"
  release_of :: "nat option"
  states :: "game \<Rightarrow> round_state option"
  sent :: "(game \<times> casino_event) list"

record world =
  inst :: instance_state
  red :: redis
  db :: casino_db

record tick_env =
  te_extend :: bool
  te_acquire :: bool
  te_create :: bool
  te_pool :: bool
  te_lock_bets :: bool
  te_settle :: bool
  te_rng :: "nat \<Rightarrow> nat"
  te_profiles :: "uid list \<Rightarrow> (uid \<Rightarrow> (string option \<times> string option) option) option"

definition on_inst :: "(instance_state \<Rightarrow> instance_state) \<Rightarrow> world \<Rightarrow> world" where
  "on_inst f w = w\<lparr>inst := f (inst w)\<rparr>"

definition on_db :: "(casino_db, 'a) act \<Rightarrow> (world, 'a) act" where
  "on_db m w = (case m (db w) of (r, d) \<Rightarrow> (r, w\<lparr>db := d\<rparr>))"

definition setState :: "game \<Rightarrow> round_state \<Rightarrow> (world, unit) act" where
  "setState g st = modifyA (on_inst (\<lambda>n. n\<lparr>states := (states n)(g := Some st)\<rparr>))"

definition broadcast :: "game \<Rightarrow> casino_event \<Rightarrow> (world, unit) act" where
  "broadcast g e = modifyA (on_inst (\<lambda>n. n\<lparr>sent := sent n @ [(g, e)]\<rparr>))"

text \<open>An awaited read that this tick's environment lets through or makes throw.\<close>

definition awaited :: "bool \<Rightarrow> (world, unit) act" where
  "awaited ok = guardA ok (OtherError ''database'')"

section \<open>Leadership\<close>

definition LEADER_LOCK_KEY :: string where
  "LEADER_LOCK_KEY = ''casino:loop:leader''"

definition LEADER_LOCK_TTL_MS :: nat where
  "LEADER_LOCK_TTL_MS = 10000"

text \<open>\<open>isLeader = false; leaderToken = null; release = null\<close>.\<close>

definition demoted :: "instance_state \<Rightarrow> instance_state" where
  "demoted n = n\<lparr>isLeader := False, leaderToken := None, release_of := None\<rparr>"

definition acquireLeadership :: "tick_env \<Rightarrow> world \<Rightarrow> bool \<times> world" where
  "acquireLeadership env w =
     (if te_acquire env
      then (case acquireLockObject LEADER_LOCK_KEY LEADER_LOCK_TTL_MS (red w) of
              (Some tok, r) \<Rightarrow>
                (True, on_inst (\<lambda>n. n\<lparr>release_of := Some tok, leaderToken := Some tok, isLeader := True\<rparr>) (w\<lparr>red := r\<rparr>))
            | (None, r) \<Rightarrow> (isLeader (inst w), w\<lparr>red := r\<rparr>))
      else (isLeader (inst w), w))"

definition renewOrAcquireLeadership :: "tick_env \<Rightarrow> world \<Rightarrow> bool \<times> world" where
  "renewOrAcquireLeadership env w =
     (case (isLeader (inst w), leaderToken (inst w)) of
        (True, Some tok) \<Rightarrow>
          (if te_extend env
           then (case extend_lock LEADER_LOCK_KEY tok LEADER_LOCK_TTL_MS (red w) of
                   (True, r) \<Rightarrow> (True, w\<lparr>red := r\<rparr>)
                 | (False, r) \<Rightarrow> acquireLeadership env (on_inst demoted (w\<lparr>red := r\<rparr>)))
           else acquireLeadership env (on_inst demoted w))
      | _ \<Rightarrow> acquireLeadership env w)"

definition ensureLeadership :: "tick_env \<Rightarrow> (world, bool) act" where
  "ensureLeadership env w = (case renewOrAcquireLeadership env w of (b, w') \<Rightarrow> (Inr b, w'))"

definition onModuleDestroy :: "world \<Rightarrow> world" where
  "onModuleDestroy w =
     (case release_of (inst w) of
        None \<Rightarrow> w
      | Some tok \<Rightarrow>
          on_inst demoted (w\<lparr>red := snd (release_script LEADER_LOCK_KEY tok (red w))\<rparr>))"

section \<open>Phases\<close>

fun add_pool :: "string \<Rightarrow> int \<Rightarrow> (string \<times> int) list \<Rightarrow> (string \<times> int) list" where
  "add_pool k a [] = [(k, a)]"
| "add_pool k a ((k', b) # xs) = (if k' = k then (k', b + a) # xs else (k', b) # add_pool k a xs)"

definition pool_of :: "(string \<times> int) list \<Rightarrow> bet list \<Rightarrow> (string \<times> int) list" where
  "pool_of seed placed = fold (\<lambda>b. add_pool (b_item b) (toNumber (b_amount b))) placed seed"

definition computePoolBets :: "nat \<Rightarrow> (world, (string \<times> int) list) act" where
  "computePoolBets rid = getsA (\<lambda>w. pool_of [] (listPlacedBets rid (db w)))"

definition resolveWinnerViews :: "tick_env \<Rightarrow> (uid \<times> int) list \<Rightarrow> (world, winner_view list) act" where
  "resolveWinnerViews env winners =
     (if winners = [] then returnA []
      else case te_profiles env (map fst winners) of
             None \<Rightarrow> throwA (OtherError ''profiles'')
           | Some ids \<Rightarrow> returnA (map (\<lambda>(u, amount).
               \<lparr>wv_username = (case ids u of Some (Some name, _) \<Rightarrow> name | _ \<Rightarrow> ''Player_'' @ show_nat u),
                wv_amount = amount,
                wv_avatarUrl = (case ids u of Some (_, avatar) \<Rightarrow> avatar | None \<Rightarrow> None)\<rparr>) winners))"

definition createFreshRoundState :: "tick_env \<Rightarrow> game \<Rightarrow> (world, round_state) act" where
  "createFreshRoundState env g =
     bindA (getsA (\<lambda>w. states (inst w) g)) (\<lambda>carryOver.
     bindA (awaited (te_create env)) (\<lambda>_.
     bindA (on_db (createRound g)) (\<lambda>r.
     returnA (freshRoundState (rd_id r) (rd_roundNumber r)
       (case carryOver of None \<Rightarrow> ([], []) | Some st \<Rightarrow> (rs_history st, rs_lastWinners st))))))"

definition broadcastNewRound :: "game \<Rightarrow> round_state \<Rightarrow> (world, unit) act" where
  "broadcastNewRound g st = broadcast g (NewRoundEvent (rs_roundId st) (rs_roundNumber st) (rs_seconds st))"

definition broadcastLuckySync :: "game \<Rightarrow> round_state \<Rightarrow> (world, unit) act" where
  "broadcastLuckySync g st = broadcast g (SyncEvent (rs_roundId st) (rs_roundNumber st) (rs_phase st)
     (rs_seconds st) (rs_poolBets st) (rs_history st) (rs_lastWinners st))"

definition broadcastTick :: "game \<Rightarrow> round_state \<Rightarrow> (world, unit) act" where
  "broadcastTick g st = broadcast g (TickEvent (rs_roundId st) (rs_roundNumber st) (rs_phase st)
     (rs_seconds st) (rs_poolBets st))"

definition bootWithoutLeaderCheck :: "tick_env \<Rightarrow> game \<Rightarrow> (world, unit) act" where
  "bootWithoutLeaderCheck env g =
     bindA (createFreshRoundState env g) (\<lambda>st.
     bindA (setState g st) (\<lambda>_.
     if g = GREEDY_FOOD then broadcastNewRound g st else returnA ()))"

definition bootGame :: "tick_env \<Rightarrow> game \<Rightarrow> (world, unit) act" where
  "bootGame env g =
     bindA (ensureLeadership env) (\<lambda>leader.
     if \<not> leader then returnA () else bootWithoutLeaderCheck env g)"

definition transitionBettingToSpinning :: "tick_env \<Rightarrow> game \<Rightarrow> round_state \<Rightarrow> (world, unit) act" where
  "transitionBettingToSpinning env g st =
     (let rid = the (rs_roundId st);
          st1 = st\<lparr>rs_phase := Spinning, rs_seconds := phase_seconds Spinning\<rparr>
      in bindA (setState g st1) (\<lambda>_.
         bindA (awaited (te_lock_bets env)) (\<lambda>_.
         bindA (getsA (\<lambda>w. listPlacedBets rid (db w))) (\<lambda>placed.
         (let bs = map (\<lambda>b. (b_item b, toNumber (b_amount b))) placed;
              outcome = (if g = GREEDY_FOOD then selectGreedyOutcome bs (te_rng env)
                         else selectLuckyOutcome bs (te_rng env))
          in bindA (setState g (st1\<lparr>rs_winningOutcome := outcome\<rparr>)) (\<lambda>_.
             if g = GREEDY_FOOD then broadcast g (GreedySpinEvent outcome (rs_seconds st1))
             else broadcast g (LuckyResultEvent rid outcome (rs_seconds st1))))))))"

definition transitionSpinningToResults :: "tick_env \<Rightarrow> game \<Rightarrow> round_state \<Rightarrow> (world, unit) act" where
  "transitionSpinningToResults env g st =
     (let rid = the (rs_roundId st);
          st1 = st\<lparr>rs_phase := Results, rs_seconds := phase_seconds Results\<rparr>
      in bindA (setState g st1) (\<lambda>_.
         bindA (awaited (te_settle env)) (\<lambda>_.
         bindA (on_db (settleRound g rid (rs_winningOutcome st))) (\<lambda>res.
         (let st2 = st1\<lparr>rs_history := pushHistory (rs_history st1) (sr_winningOutcome res) HISTORY_LEN\<rparr>
          in bindA (setState g st2) (\<lambda>_.
             bindA (resolveWinnerViews env (sr_winners res)) (\<lambda>views.
             bindA (setState g (st2\<lparr>rs_lastWinners := views\<rparr>)) (\<lambda>_.
             if g = GREEDY_FOOD
             then broadcast g (GreedyResultsEvent (sr_winningOutcome res) views (sr_payouts res) (rs_seconds st2))
             else broadcast g (LuckySettlementEvent rid (sr_winningOutcome res) views (sr_payouts res) (rs_seconds st2))))))))))"

definition transitionResultsToBetting :: "tick_env \<Rightarrow> game \<Rightarrow> (world, unit) act" where
  "transitionResultsToBetting env g =
     bindA (createFreshRoundState env g) (\<lambda>st.
     bindA (setState g st) (\<lambda>_.
     if g = GREEDY_FOOD then broadcastNewRound g st else broadcastLuckySync g st))"

definition transition_round :: "tick_env \<Rightarrow> game \<Rightarrow> round_state \<Rightarrow> (world, unit) act" where
  "transition_round env g st =
     (if rs_phase st = Betting then transitionBettingToSpinning env g st
      else if rs_phase st = Spinning then transitionSpinningToResults env g st
      else transitionResultsToBetting env g)"

text \<open>The body of the tick of a leading instance that has a state for the game.\<close>

definition tick_body :: "tick_env \<Rightarrow> game \<Rightarrow> round_state \<Rightarrow> (world, unit) act" where
  "tick_body env g st =
     bindA (awaited (te_pool env)) (\<lambda>_.
     bindA (computePoolBets (the (rs_roundId st))) (\<lambda>pool.
     (let st1 = st\<lparr>rs_poolBets := pool, rs_seconds := rs_seconds st - 1\<rparr>
      in bindA (setState g st1) (\<lambda>_.
         bindA (broadcastTick g st1) (\<lambda>_.
         if rs_seconds st1 \<le> 0 then transition_round env g st1 else returnA ())))))"

definition tickGame :: "tick_env \<Rightarrow> game \<Rightarrow> (world, unit) act" where
  "tickGame env g =
     catchA
       (bindA (ensureLeadership env) (\<lambda>leader.
        if \<not> leader then returnA ()
        else bindA (getsA (\<lambda>w. states (inst w) g)) (\<lambda>cached.
             case cached of
               None \<Rightarrow> bootWithoutLeaderCheck env g
             | Some st \<Rightarrow> tick_body env g st)))
       (\<lambda>_. returnA ())"

definition getState :: "game \<Rightarrow> world \<Rightarrow> round_state option" where
  "getState g w = states (inst w) g"

end
