(* ===== verification/CasinoLoopLaws.thy ===== *)
theory CasinoLoopLaws
  imports CasinoLoop
begin

text \<open>
  What the round loop keeps: the tables stay in order, each game's state belongs to an existing
  round of that game, the phase clock stays within the phase, only the leader acts, and a round
  goes through its three phases in 45 ticks and is settled once, with the outcome fixed at the lock.
\<close>

section \<open>What settlement does to the table of rounds\<close>

definition rounds_step :: "nat \<Rightarrow> casino_db \<Rightarrow> casino_db \<Rightarrow> bool" where
  "rounds_step rid d d' \<longleftrightarrow> (wf_db d \<longrightarrow> wf_db d' \<and> (\<forall>x. x \<noteq> rid \<longrightarrow> rounds d' x = rounds d x) \<and>
     map_option rd_game (rounds d' rid) = map_option rd_game (rounds d rid) \<and> roundCount d' = roundCount d)"

interpretation rk: step_order "rounds_step rid" for rid
  by unfold_locales (auto simp: rounds_step_def)

lemma rk_same: "wf_db d' \<Longrightarrow> rounds d' = rounds d \<Longrightarrow> roundCount d' = roundCount d \<Longrightarrow> rounds_step rid d d'"
  by (simp add: rounds_step_def)

lemma rk_credit: "rk.ok rid (credit m j)"
proof (rule rk.okI)
  fix s s' :: casino_db and r
  assume run: "credit m j s = (r, s')"
  then have "wf_db s \<Longrightarrow> rounds_step rid s s'"
    using move_keeps(1) [of s CREDIT m j r s'] more_tables [OF move_tables [of s CREDIT m j r s']]
    by (auto simp: credit_def intro: rk_same)
  then show "rounds_step rid s s'" by (auto simp: rounds_step_def)
qed

lemma rk_updateBet: "rk.ok rid (updateBet i st pay t)"
  by (rule rk.okI) (auto simp: rounds_step_def updateBet_def split: if_splits)

lemma rk_closeRound: "rk.ok rid (closeRound rid st out)"
  by (rule rk.okI) (auto simp: rounds_step_def closeRound_def split: option.splits)

lemma rk_settleRound: "rk.ok rid (settleRound g rid out)"
proof -
  have b: "rk.ok rid (settle_bet x)" for x
    unfolding settle_bet_def by (cases x) (auto intro!: rk.ok_bind rk.ok_if rk_credit rk_updateBet)
  have t: "rk.ok rid (settle_txn g rid out xs)" for xs
  proof (rule rk.okI)
    fix s s' :: casino_db and r
    assume run: "settle_txn g rid out xs s = (r, s')"
    obtain x s1 where m: "bindA (forA settle_bet xs) (\<lambda>_. closeRound rid SETTLED out) s = (x, s1)" by fastforce
    have R: "rounds_step rid s s1"
      using rk.okD [OF rk.ok_bind [OF rk.ok_for [OF b] rk_closeRound] m] .
    have adv: "wf_db s \<Longrightarrow> next_id s \<le> next_id s1"
      using ad.okD [OF ad.ok_bind [OF ad.ok_for [OF advances_settle_bet] advances_closeRound] m]
      by (simp add: advances_def)
    show "rounds_step rid s s'"
    proof (cases x)
      case (Inl e)
      then have "s' = rollback s s1" using run m by (simp add: settle_txn_def transaction_def)
      then show ?thesis
        using same_money_rollback [OF adv] by (auto simp: rounds_step_def same_money_def rollback_def)
    next
      case (Inr a)
      then show ?thesis using run m R by (simp add: settle_txn_def transaction_def)
    qed
  qed
  show ?thesis
    unfolding settleRound_def refundRound_def refund_bet_def Let_def
    by (intro rk.ok_bind rk.ok_catch rk.ok_pure rk.ok_for t rk_closeRound rk_credit rk_updateBet)
qed

lemma catch_all_returns: "\<exists>s'. catchA m (\<lambda>_. returnA ()) s = (Inr (), s')"
  by (cases "m s"; cases "fst (m s)") (auto simp: catchA_def returnA_def)

lemma forA_refund: "\<exists>s'. forA (refund_bet rid) bs s = (Inr (), s')"
proof (induction bs arbitrary: s)
  case Nil
  show ?case by (simp add: returnA_def)
next
  case (Cons b bs)
  have "\<exists>s1. refund_bet rid b s = (Inr (), s1)"
    unfolding refund_bet_def by (rule catch_all_returns)
  then obtain s1 where "refund_bet rid b s = (Inr (), s1)" by blast
  moreover obtain s2 where "forA (refund_bet rid) bs s1 = (Inr (), s2)" using Cons.IH by blast
  ultimately have "forA (refund_bet rid) (b # bs) s = (Inr (), s2)" by (simp add: bindA_def)
  then show ?case by blast
qed

lemma settle_returns:
  obtains res d' where "settleRound g rid out d = (Inr res, d')" "sr_winningOutcome res = out"
    "length (sr_winners res) \<le> TOP_WINNERS"
proof -
  have tw: "length (top_winners ps) \<le> TOP_WINNERS" for ps by (simp add: top_winners_def)
  have ref: "\<exists>s'. refundRound rid bs s = (Inr (), s')" for bs s
    using forA_refund [of rid bs s]
    by (auto simp: refundRound_def bindA_def catchA_def returnA_def closeRound_def split: option.split)
  show thesis
  proof (cases "settle_txn g rid out (computed g rid out (listPlacedBets rid d)) d")
    case (Pair x d1)
    show thesis
    proof (cases x)
      case (Inl e)
      obtain d2 where "refundRound rid (listPlacedBets rid d) d1 = (Inr (), d2)" using ref by blast
      then show thesis
        using that Pair Inl tw
        by (auto simp: settleRound_def bindA_def getsA_def catchA_def Let_def returnA_def)
    next
      case (Inr a)
      then show thesis
        using that Pair tw
        by (auto simp: settleRound_def bindA_def getsA_def catchA_def Let_def returnA_def)
    qed
  qed
qed

lemma settle_frame:
  fixes d d' :: casino_db
  assumes ok: "casino_ok d" and run: "settleRound g rid out d = (x, d')"
  shows "casino_ok d'" "next_id d \<le> next_id d'" "\<And>y. y \<noteq> rid \<Longrightarrow> rounds d' y = rounds d y"
    "map_option rd_game (rounds d' rid) = map_option rd_game (rounds d rid)" "roundCount d' = roundCount d"
proof -
  show "casino_ok d'" "next_id d \<le> next_id d'"
    using kc.okD [OF kc_settle run] ok by (simp_all add: keeps_casino_def)
  have "rounds_step rid d d'" by (rule rk.okD [OF rk_settleRound run])
  moreover have "wf_db d" using ok by (simp add: casino_ok_def)
  ultimately show "\<And>y. y \<noteq> rid \<Longrightarrow> rounds d' y = rounds d y" "roundCount d' = roundCount d"
    "map_option rd_game (rounds d' rid) = map_option rd_game (rounds d rid)"
    by (simp_all add: rounds_step_def)
qed

section \<open>The handlers as state changes\<close>

definition put :: "game \<Rightarrow> round_state \<Rightarrow> world \<Rightarrow> world" where
  "put g st = on_inst (\<lambda>n. n\<lparr>states := (states n)(g := Some st)\<rparr>)"

definition say :: "game \<Rightarrow> casino_event \<Rightarrow> world \<Rightarrow> world" where
  "say g e = on_inst (\<lambda>n. n\<lparr>sent := sent n @ [(g, e)]\<rparr>)"

lemma put_simps [simp]:
  "db (put g st w) = db w" "red (put g st w) = red w"
  "states (inst (put g st w)) = (states (inst w))(g := Some st)"
  "isLeader (inst (put g st w)) = isLeader (inst w)" "leaderToken (inst (put g st w)) = leaderToken (inst w)"
  "put g st (put g st' w) = put g st w" "put g st (say h e w) = say h e (put g st w)"
  by (simp_all add: put_def say_def on_inst_def)

lemma say_simps [simp]:
  "db (say g e w) = db w" "red (say g e w) = red w" "states (inst (say g e w)) = states (inst w)"
  "isLeader (inst (say g e w)) = isLeader (inst w)" "leaderToken (inst (say g e w)) = leaderToken (inst w)"
  by (simp_all add: say_def on_inst_def)

lemma handlers [simp]:
  "setState g st w = (Inr (), put g st w)" "broadcast g e w = (Inr (), say g e w)"
  "awaited b w = (if b then (Inr (), w) else (Inl (OtherError ''database''), w))"
  by (simp_all add: setState_def broadcast_def awaited_def put_def say_def modifyA_def guardA_def)

lemma bind_run: "bindA m k w = (case m w of (Inl e, w') \<Rightarrow> (Inl e, w') | (Inr a, w') \<Rightarrow> k a w')"
  by (simp add: bindA_def)

definition outcomes_of :: "game \<Rightarrow> string list" where
  "outcomes_of g = (if g = GREEDY_FOOD then GREEDY_ITEMS else LUCKY_OUTCOMES)"

definition locked_outcome :: "tick_env \<Rightarrow> game \<Rightarrow> nat \<Rightarrow> casino_db \<Rightarrow> string option" where
  "locked_outcome env g rid d =
     (let bs = map (\<lambda>b. (b_item b, toNumber (b_amount b))) (listPlacedBets rid d)
      in if g = GREEDY_FOOD then selectGreedyOutcome bs (te_rng env) else selectLuckyOutcome bs (te_rng env))"

lemma lock_run:
  "transitionBettingToSpinning env g st w =
     (let rid = the (rs_roundId st); st1 = st\<lparr>rs_phase := Spinning, rs_seconds := phase_seconds Spinning\<rparr>;
          out = locked_outcome env g rid (db w)
      in if te_lock_bets env
         then (Inr (), say g (if g = GREEDY_FOOD then GreedySpinEvent out 10 else LuckyResultEvent rid out 10)
                 (put g (st1\<lparr>rs_winningOutcome := out\<rparr>) w))
         else (Inl (OtherError ''database''), put g st1 w))"
  by (simp add: transitionBettingToSpinning_def bind_run getsA_def Let_def locked_outcome_def phase_seconds_def
      split: game.split)

lemma pick_mem: "pickLowestLiability outcomes bs f rng = Some c \<Longrightarrow> c \<in> set outcomes"
proof -
  assume "pickLowestLiability outcomes bs f rng = Some c"
  then have "c \<in> set (candidates outcomes (map (\<lambda>out. total_liability f out bs 0) outcomes))"
    by (auto simp: pickLowestLiability_def Let_def split: if_splits)
  then show ?thesis by (auto simp: candidates_def dest: set_zip_leftD)
qed

lemma locked_outcome_mem: "locked_outcome env g rid d = Some c \<Longrightarrow> c \<in> set (outcomes_of g)"
  by (auto simp: locked_outcome_def Let_def outcomes_of_def selectGreedyOutcome_def selectLuckyOutcome_def
      dest: pick_mem split: if_splits)

lemma settle_run:
  assumes "settleRound g (the (rs_roundId st)) (rs_winningOutcome st) (db w) = (Inr res, d')"
    and "sr_winningOutcome res = rs_winningOutcome st"
  shows "transitionSpinningToResults env g st w =
     (let rid = the (rs_roundId st); st1 = st\<lparr>rs_phase := Results, rs_seconds := phase_seconds Results\<rparr>;
          st2 = st1\<lparr>rs_history := pushHistory (rs_history st) (rs_winningOutcome st) HISTORY_LEN\<rparr>;
          w2 = put g st2 (w\<lparr>db := d'\<rparr>)
      in if \<not> te_settle env then (Inl (OtherError ''database''), put g st1 w)
         else (case resolveWinnerViews env (sr_winners res) w2 of
                 (Inl e, w3) \<Rightarrow> (Inl e, w3)
               | (Inr views, w3) \<Rightarrow> (Inr (), say g (if g = GREEDY_FOOD
                    then GreedyResultsEvent (rs_winningOutcome st) views (sr_payouts res) 5
                    else LuckySettlementEvent rid (rs_winningOutcome st) views (sr_payouts res) 5)
                   (put g (st2\<lparr>rs_lastWinners := views\<rparr>) w3))))"
  using assms
  by (simp add: transitionSpinningToResults_def bind_run Let_def on_db_def phase_seconds_def put_def on_inst_def
      split: game.split sum.split prod.split)

lemma profiles_run:
  obtains (thrown) e where "resolveWinnerViews env ws w = (Inl e, w)"
  | (views) vs where "resolveWinnerViews env ws w = (Inr vs, w)" "length vs = length ws"
proof (cases "ws = [] \<or> te_profiles env (map fst ws) \<noteq> None")
  case True
  then obtain vs where "resolveWinnerViews env ws w = (Inr vs, w)" "length vs = length ws"
    by (cases "ws = []") (auto simp: resolveWinnerViews_def returnA_def)
  then show thesis by (rule views)
next
  case False
  then have "resolveWinnerViews env ws w = (Inl (OtherError ''profiles''), w)"
    by (simp add: resolveWinnerViews_def throwA_def)
  then show thesis by (rule thrown)
qed

definition carried :: "game \<Rightarrow> world \<Rightarrow> string option list \<times> winner_view list" where
  "carried g w = (case states (inst w) g of None \<Rightarrow> ([], []) | Some st \<Rightarrow> (rs_history st, rs_lastWinners st))"

definition opened :: "game \<Rightarrow> world \<Rightarrow> round_state" where
  "opened g w = freshRoundState (next_id (db w)) (roundCount (db w) g + 1) (carried g w)"

definition open_db :: "game \<Rightarrow> casino_db \<Rightarrow> casino_db" where
  "open_db g d = snd (createRound g d)"

lemma open_db_simps [simp]:
  "next_id (open_db g d) = Suc (next_id d)" "bets (open_db g d) = bets d"
  "rounds (open_db g d) = (rounds d)(next_id d \<mapsto> \<lparr>rd_id = next_id d, rd_game = g, rd_status = BETTING,
     rd_winningOutcome = None, rd_roundNumber = roundCount d g + 1\<rparr>)"
  by (simp_all add: open_db_def createRound_def Let_def)

lemma open_db_ok: "casino_ok d \<Longrightarrow> casino_ok (open_db g d)"
  using kc.okD [OF kc_createRound, of g d "fst (createRound g d)" "open_db g d"]
  by (simp add: open_db_def keeps_casino_def)

lemma fresh_run:
  "createFreshRoundState env g w =
     (if te_create env then (Inr (opened g w), w\<lparr>db := open_db g (db w)\<rparr>) else (Inl (OtherError ''database''), w))"
  by (simp add: createFreshRoundState_def bind_run getsA_def on_db_def createRound_def Let_def returnA_def
      opened_def carried_def open_db_def)

lemma boot_run:
  "bootWithoutLeaderCheck env g w =
     (if te_create env
      then (Inr (), (if g = GREEDY_FOOD then say g (NewRoundEvent (rs_roundId (opened g w)) (rs_roundNumber (opened g w)) 30) else id)
              (put g (opened g w) (w\<lparr>db := open_db g (db w)\<rparr>)))
      else (Inl (OtherError ''database''), w))"
  by (simp add: bootWithoutLeaderCheck_def bind_run fresh_run broadcastNewRound_def returnA_def opened_def
      freshRoundState_def phase_seconds_def)

lemma reopen_run:
  "transitionResultsToBetting env g w =
     (if te_create env
      then (Inr (), say g (if g = GREEDY_FOOD then NewRoundEvent (rs_roundId (opened g w)) (rs_roundNumber (opened g w)) 30
                           else SyncEvent (rs_roundId (opened g w)) (rs_roundNumber (opened g w)) Betting 30 []
                                  (fst (carried g w)) (snd (carried g w)))
              (put g (opened g w) (w\<lparr>db := open_db g (db w)\<rparr>)))
      else (Inl (OtherError ''database''), w))"
  by (simp add: transitionResultsToBetting_def bind_run fresh_run broadcastNewRound_def broadcastLuckySync_def
      returnA_def opened_def freshRoundState_def phase_seconds_def split: game.split)

definition counted :: "round_state \<Rightarrow> casino_db \<Rightarrow> round_state" where
  "counted st d = st\<lparr>rs_poolBets := pool_of [] (listPlacedBets (the (rs_roundId st)) d), rs_seconds := rs_seconds st - 1\<rparr>"

definition ticked :: "game \<Rightarrow> round_state \<Rightarrow> world \<Rightarrow> world" where
  "ticked g st w = say g (TickEvent (rs_roundId st) (rs_roundNumber st) (rs_phase st) (rs_seconds st - 1)
     (pool_of [] (listPlacedBets (the (rs_roundId st)) (db w)))) (put g (counted st (db w)) w)"

lemma ticked_simps [simp]:
  "db (ticked g st w) = db w" "red (ticked g st w) = red w"
  "states (inst (ticked g st w)) = (states (inst w))(g := Some (counted st (db w)))"
  "isLeader (inst (ticked g st w)) = isLeader (inst w)" "leaderToken (inst (ticked g st w)) = leaderToken (inst w)"
  by (simp_all add: ticked_def)

lemma counted_simps [simp]:
  "rs_roundId (counted st d) = rs_roundId st" "rs_phase (counted st d) = rs_phase st"
  "rs_seconds (counted st d) = rs_seconds st - 1" "rs_history (counted st d) = rs_history st"
  "rs_lastWinners (counted st d) = rs_lastWinners st" "rs_winningOutcome (counted st d) = rs_winningOutcome st"
  "rs_roundNumber (counted st d) = rs_roundNumber st"
  by (simp_all add: counted_def)

lemma body_run:
  "tick_body env g st w =
     (if te_pool env
      then if rs_seconds st \<le> 1 then transition_round env g (counted st (db w)) (ticked g st w)
           else (Inr (), ticked g st w)
      else (Inl (OtherError ''database''), w))"
  by (simp add: tick_body_def bind_run computePoolBets_def getsA_def Let_def broadcastTick_def returnA_def
      counted_def ticked_def)

section \<open>The invariant of the loop\<close>

definition state_ok :: "game \<Rightarrow> round_state \<Rightarrow> casino_db \<Rightarrow> bool" where
  "state_ok g st d \<longleftrightarrow>
     (\<exists>rid r. rs_roundId st = Some rid \<and> rounds d rid = Some r \<and> rd_game r = g \<and>
        (rs_phase st \<noteq> Results \<longrightarrow> rd_status r = BETTING)) \<and>
     rs_seconds st \<le> phase_seconds (rs_phase st) \<and> (rs_phase st \<noteq> Results \<longrightarrow> 0 < rs_seconds st) \<and>
     length (rs_history st) \<le> HISTORY_LEN \<and> length (rs_lastWinners st) \<le> TOP_WINNERS \<and>
     (rs_phase st = Betting \<longrightarrow> rs_winningOutcome st = None) \<and>
     (\<forall>out. rs_winningOutcome st = Some out \<longrightarrow> out \<in> set (outcomes_of g))"

definition loop_ok :: "world \<Rightarrow> bool" where
  "loop_ok w \<longleftrightarrow> casino_ok (db w) \<and> (\<forall>rid \<in> dom (rounds (db w)). rid < next_id (db w)) \<and>
     (\<forall>g st. states (inst w) g = Some st \<longrightarrow> state_ok g st (db w))"

lemma loop_okI:
  assumes "casino_ok (db w')" "\<forall>rid \<in> dom (rounds (db w')). rid < next_id (db w')"
    and "\<And>st. states (inst w') g = Some st \<Longrightarrow> state_ok g st (db w')"
    and "\<And>h st. h \<noteq> g \<Longrightarrow> states (inst w') h = Some st \<Longrightarrow> state_ok h st (db w')"
  shows "loop_ok w'"
  using assms unfolding loop_ok_def by metis

text \<open>The other game's state survives a change of the rounds of this one.\<close>

lemma state_ok_other:
  assumes "state_ok h st d" "h \<noteq> g"
    and "\<And>x r. rounds d x = Some r \<Longrightarrow> rd_game r \<noteq> g \<Longrightarrow> rounds d' x = Some r"
  shows "state_ok h st d'"
  using assms unfolding state_ok_def by blast

lemma loop_ok_open:
  assumes ok: "loop_ok w" and w': "db w' = open_db g (db w)" "states (inst w') = (states (inst w))(g := Some (opened g w))"
  shows "loop_ok w'"
proof (rule loop_okI [where g = g])
  have ids: "\<forall>rid \<in> dom (rounds (db w)). rid < next_id (db w)" using ok by (simp add: loop_ok_def)
  show "casino_ok (db w')" using ok open_db_ok by (simp add: loop_ok_def w')
  show "\<forall>rid \<in> dom (rounds (db w')). rid < next_id (db w')" using ids by (auto simp: w' less_Suc_eq)
  have "length (fst (carried g w)) \<le> HISTORY_LEN \<and> length (snd (carried g w)) \<le> TOP_WINNERS"
    using ok by (auto simp: carried_def loop_ok_def state_ok_def split: option.split)
  then show "state_ok g st (db w')" if "states (inst w') g = Some st" for st
    using that by (auto simp: w' opened_def freshRoundState_def state_ok_def phase_seconds_def)
  show "state_ok h st (db w')" if "h \<noteq> g" "states (inst w') h = Some st" for h st
  proof (rule state_ok_other [where d = "db w" and g = g])
    show "state_ok h st (db w)" using ok that by (simp add: w' loop_ok_def)
    show "rounds (db w') x = Some r" if "rounds (db w) x = Some r" for x r
      using ids that by (auto simp: w')
  qed (rule that)
qed

text \<open>A change of this game's state only.\<close>

lemma loop_ok_put:
  assumes ok: "loop_ok w" and "db w' = db w" "states (inst w') = (states (inst w))(g := Some st)" "state_ok g st (db w)"
  shows "loop_ok w'"
  using assms unfolding loop_ok_def by auto

lemma ensure_frame:
  obtains b w1 where "ensureLeadership env w = (Inr b, w1)" "db w1 = db w"
    "states (inst w1) = states (inst w)" "sent (inst w1) = sent (inst w)"
proof -
  have acq: "db (snd (acquireLeadership env v)) = db v \<and> states (inst (snd (acquireLeadership env v))) = states (inst v) \<and>
      sent (inst (snd (acquireLeadership env v))) = sent (inst v)" for v
    by (auto simp: acquireLeadership_def on_inst_def split: prod.split option.split)
  have "db (snd (renewOrAcquireLeadership env w)) = db w \<and>
      states (inst (snd (renewOrAcquireLeadership env w))) = states (inst w) \<and>
      sent (inst (snd (renewOrAcquireLeadership env w))) = sent (inst w)"
    using acq by (auto simp: renewOrAcquireLeadership_def on_inst_def demoted_def split: prod.split option.split bool.split)
  then show thesis
    using that [of "fst (renewOrAcquireLeadership env w)" "snd (renewOrAcquireLeadership env w)"]
    by (simp add: ensureLeadership_def split: prod.split)
qed

lemma loop_ok_leader: "loop_ok w \<Longrightarrow> db w1 = db w \<Longrightarrow> states (inst w1) = states (inst w) \<Longrightarrow> loop_ok w1"
  by (simp add: loop_ok_def)

lemma opened_ticked: "states (inst w) g = Some st \<Longrightarrow> opened g (ticked g st w) = opened g w"
  by (simp add: opened_def carried_def)

lemma transition_keeps:
  assumes ok: "loop_ok w" and st: "states (inst w) g = Some st" and sec: "rs_seconds st \<le> 1"
    and run: "transition_round env g (counted st (db w)) (ticked g st w) = (x, w')"
  shows "loop_ok w'"
proof -
  have so: "state_ok g st (db w)" using ok st by (simp add: loop_ok_def)
  then obtain rid r where rid: "rs_roundId st = Some rid" "rounds (db w) rid = Some r" "rd_game r = g"
    by (auto simp: state_ok_def)
  show ?thesis
  proof (cases "rs_phase st")
    case Betting
    let ?st = "(counted st (db w))\<lparr>rs_phase := Spinning, rs_seconds := phase_seconds Spinning\<rparr>"
    let ?out = "locked_outcome env g rid (db w)"
    have w': "db w' = db w" "states (inst w') =
        (states (inst w))(g := Some (if te_lock_bets env then ?st\<lparr>rs_winningOutcome := ?out\<rparr> else ?st))"
      using run Betting rid by (auto simp: transition_round_def lock_run Let_def split: if_splits)
    have "state_ok g ?st (db w)" "state_ok g (?st\<lparr>rs_winningOutcome := ?out\<rparr>) (db w)"
      using so Betting locked_outcome_mem [of env g rid "db w"] by (auto simp: state_ok_def phase_seconds_def)
    then show ?thesis using loop_ok_put [OF ok w'] by simp
  next
    case Spinning
    let ?st = "(counted st (db w))\<lparr>rs_phase := Results, rs_seconds := phase_seconds Results\<rparr>"
    obtain res d' where s: "settleRound g (the (rs_roundId st)) (rs_winningOutcome st) (db w) = (Inr res, d')"
      "sr_winningOutcome res = rs_winningOutcome st" "length (sr_winners res) \<le> TOP_WINNERS"
      by (rule settle_returns)
    have plain: "state_ok g ?st (db w)" using so by (auto simp: state_ok_def phase_seconds_def)
    show ?thesis
    proof (cases "te_settle env")
      case False
      then have w': "db w' = db w" "states (inst w') = (states (inst w))(g := Some ?st)"
        using run Spinning s by (auto simp: transition_round_def settle_run Let_def)
      show ?thesis by (rule loop_ok_put [OF ok w' plain])
    next
      case True
      have okd: "casino_ok (db w)" using ok by (simp add: loop_ok_def)
      note F = settle_frame [OF okd s(1)]
      let ?st2 = "?st\<lparr>rs_history := pushHistory (rs_history st) (rs_winningOutcome st) HISTORY_LEN\<rparr>"
      obtain v where w': "db w' = d'" "states (inst w') = (states (inst w))(g := Some v)"
        and v: "v = ?st2 \<or> (\<exists>vs. length vs \<le> TOP_WINNERS \<and> v = ?st2\<lparr>rs_lastWinners := vs\<rparr>)"
      proof (cases rule: profiles_run [of env "sr_winners res" "put g ?st2 ((ticked g st w)\<lparr>db := d'\<rparr>)"])
        case (thrown e)
        then have "w' = put g ?st2 ((ticked g st w)\<lparr>db := d'\<rparr>)"
          using run Spinning s True by (simp add: transition_round_def settle_run Let_def)
        then show thesis using that [of ?st2] by simp
      next
        case (views vs)
        let ?v = "?st2\<lparr>rs_lastWinners := vs\<rparr>"
        have "length vs \<le> TOP_WINNERS" using views s by simp
        moreover have "db w' = d'" "states (inst w') = (states (inst w))(g := Some ?v)"
          using run Spinning s True views by (auto simp: transition_round_def settle_run Let_def)
        ultimately show thesis using that [of ?v] by blast
      qed
      show ?thesis
      proof (rule loop_okI [where g = g])
        show "casino_ok (db w')" using F(1) by (simp add: w')
        have "dom (rounds d') = dom (rounds (db w))"
        proof (rule set_eqI)
          show "x \<in> dom (rounds d') \<longleftrightarrow> x \<in> dom (rounds (db w))" for x
            using F(3) [of x] F(4) rid by (cases "x = rid") (auto simp: dom_def)
        qed
        then show "\<forall>rid \<in> dom (rounds (db w')). rid < next_id (db w')"
          using ok F(2) unfolding loop_ok_def w' by (metis less_le_trans)
        show "state_ok g y (db w')" if "states (inst w') g = Some y" for y
          using that so F(4) rid w' v by (auto simp: state_ok_def phase_seconds_def pushHistory_def)
        show "state_ok h v (db w')" if h: "h \<noteq> g" "states (inst w') h = Some v" for h v
        proof (rule state_ok_other [where d = "db w" and g = g])
          show "state_ok h v (db w)" using ok h w' by (simp add: loop_ok_def)
          show "rounds (db w') x = Some y" if "rounds (db w) x = Some y" "rd_game y \<noteq> g" for x y
            using F(3) [of x] that rid w'(1) by (cases "x = rid") auto
        qed (rule h)
      qed
    qed
  next
    case Results
    show ?thesis
    proof (cases "te_create env")
      case True
      then have "db w' = open_db g (db w)" "states (inst w') = (states (inst w))(g := Some (opened g w))"
        using run Results by (auto simp: transition_round_def reopen_run opened_ticked [OF st])
      then show ?thesis by (rule loop_ok_open [OF ok])
    next
      case False
      then have "db w' = db w" "states (inst w') = (states (inst w))(g := Some (counted st (db w)))"
        using run Results by (auto simp: transition_round_def reopen_run)
      moreover have "state_ok g (counted st (db w)) (db w)" using so Results by (auto simp: state_ok_def)
      ultimately show ?thesis by (rule loop_ok_put [OF ok])
    qed
  qed
qed

lemma tick_keeps: "loop_ok w \<Longrightarrow> tickGame env g w = (x, w') \<Longrightarrow> loop_ok w'"
proof -
  assume ok: "loop_ok w" and run: "tickGame env g w = (x, w')"
  obtain b w1 where e: "ensureLeadership env w = (Inr b, w1)" and
    f: "db w1 = db w" "states (inst w1) = states (inst w)" by (rule ensure_frame)
  have ok1: "loop_ok w1" by (rule loop_ok_leader [OF ok f])
  show "loop_ok w'"
  proof (cases "b \<and> states (inst w1) g \<noteq> None")
    case False
    then show ?thesis
    proof (cases b)
      case True
      then have "states (inst w1) g = None" using False by simp
      then have "w' = (if te_create env then (if g = GREEDY_FOOD
            then say g (NewRoundEvent (rs_roundId (opened g w1)) (rs_roundNumber (opened g w1)) 30) else id)
              (put g (opened g w1) (w1\<lparr>db := open_db g (db w1)\<rparr>)) else w1)"
        using run e True
        by (auto simp: tickGame_def catchA_def bind_run getsA_def boot_run returnA_def split: if_splits)
      then show ?thesis using ok1 loop_ok_open [OF ok1, of w' g] by (auto split: if_splits)
    next
      case False
      then show ?thesis using run e ok1 by (auto simp: tickGame_def catchA_def bind_run returnA_def)
    qed
  next
    case True
    then obtain st where st: "states (inst w1) g = Some st" by auto
    then have "w' = snd (tick_body env g st w1)"
      using run e True
      by (auto simp: tickGame_def catchA_def bind_run getsA_def returnA_def split: prod.splits sum.splits)
    moreover have "loop_ok (ticked g st w1)" if "1 < rs_seconds st"
    proof (rule loop_ok_put [OF ok1, where st = "counted st (db w1)"])
      have "state_ok g st (db w1)" using ok1 st by (simp add: loop_ok_def)
      then show "state_ok g (counted st (db w1)) (db w1)" using that by (auto simp: state_ok_def)
    qed simp_all
    ultimately show ?thesis
      using transition_keeps [OF ok1 st, of env "fst (tick_body env g st w1)" w'] ok1
      by (auto simp: body_run split: if_splits)
  qed
qed

section \<open>Ticks, bets and time\<close>

text \<open>
  What happens to an instance: its ticks, bets placed through the casino service, time, and what
  other instances do to the lock store.
\<close>

inductive world_step :: "world \<Rightarrow> world \<Rightarrow> bool" where
  tick: "world_step w (snd (tickGame env g w))"
| bet_placed: "world_step w (snd (on_db (placeBet i) w))"
| time_passes: "world_step w (w\<lparr>red := sleep ms (red w)\<rparr>)"
| store_changes: "world_step w (w\<lparr>red := r\<rparr>)"
| shutdown: "world_step w (onModuleDestroy w)"

inductive_cases world_stepE: "world_step w w'"

inductive runs_to :: "world \<Rightarrow> world \<Rightarrow> bool" where
  stay: "runs_to w w"
| go: "runs_to w w1 \<Longrightarrow> world_step w1 w2 \<Longrightarrow> runs_to w w2"

lemma rk_debit: "rk.ok rid (debit m j)"
proof (rule rk.okI)
  fix s s' :: casino_db and r
  assume run: "debit m j s = (r, s')"
  then have "wf_db s \<Longrightarrow> rounds_step rid s s'"
    using move_keeps(1) [of s DEBIT m j r s'] more_tables [OF move_tables [of s DEBIT m j r s']]
    by (auto simp: debit_def intro: rk_same)
  then show "rounds_step rid s s'" by (auto simp: rounds_step_def)
qed

lemma rk_createBet: "rk.ok rid (createBet r u g it a c t)"
proof (rule rk.okI)
  fix s s' :: casino_db and x
  assume run: "createBet r u g it a c t s = (x, s')"
  show "rounds_step rid s s'"
    using run wf_next [of s]
    by (cases "findBet s r u c") (auto simp: createBet_def Let_def rounds_step_def bet_later simp del: casino_db.simps)
qed

lemma rk_placeBet: "rk.ok rid (placeBet i)"
  unfolding placeBet_def by (intro rk.ok_bind rk.ok_catch rk.ok_pure rk_debit rk_createBet)

lemma placeBet_rounds:
  fixes d d' :: casino_db
  assumes ok: "casino_ok d" and run: "placeBet i d = (x, d')"
  shows "casino_ok d'" "next_id d \<le> next_id d'" "rounds d' = rounds d"
proof -
  show "casino_ok d'" "next_id d \<le> next_id d'"
    using kc.okD [OF kc_placeBet run] ok by (simp_all add: keeps_casino_def)
  have "rounds_step rid d d'" for rid by (rule rk.okD [OF rk_placeBet run])
  moreover have "wf_db d" using ok by (simp add: casino_ok_def)
  ultimately have "rounds d' y = rounds d y" for y by (metis n_not_Suc_n rounds_step_def)
  then show "rounds d' = rounds d" by blast
qed

lemma step_keeps: "world_step w w' \<Longrightarrow> loop_ok w \<Longrightarrow> loop_ok w'"
proof (induction rule: world_step.induct)
  case (tick w env g)
  then show ?case using tick_keeps [of w env g] by (metis prod.collapse)
next
  case (bet_placed w i)
  obtain x d' where p: "placeBet i (db w) = (x, d')" by fastforce
  have "casino_ok (db w)" using bet_placed by (simp add: loop_ok_def)
  note F = placeBet_rounds [OF this p]
  have "loop_ok (w\<lparr>db := d'\<rparr>)"
    using bet_placed F by (auto simp: loop_ok_def state_ok_def intro: less_le_trans)
  then show ?case by (simp add: on_db_def p)
next
  case (shutdown w)
  have "db (onModuleDestroy w) = db w \<and> states (inst (onModuleDestroy w)) = states (inst w)"
    by (simp add: onModuleDestroy_def on_inst_def demoted_def split: option.split)
  then show ?case using shutdown loop_ok_leader by blast
qed (simp_all add: loop_ok_def)

lemma run_keeps: "runs_to w w' \<Longrightarrow> loop_ok w \<Longrightarrow> loop_ok w'"
  by (induction rule: runs_to.induct) (auto intro: step_keeps)

text \<open>
  C29: Whatever reads fail, whatever bets arrive and whoever else takes the lock: the state a game's
  loop holds always belongs to an existing round of that game, which the table still has as BETTING
  until it is settled; the clock never exceeds its phase and is positive before the results; an
  outcome is fixed only after betting ended and is one of the game's outcomes; at most eight results
  and three winners are kept; and the casino's tables stay in order.
\<close>

theorem loop_invariant:
  assumes "runs_to w w'" and "casino_ok (db w)" "\<forall>rid \<in> dom (rounds (db w)). rid < next_id (db w)"
    and "\<And>g. states (inst w) g = None"
    and st: "states (inst w') g = Some st"
  shows "casino_ok (db w') \<and>
    (\<exists>rid r. rs_roundId st = Some rid \<and> rounds (db w') rid = Some r \<and> rd_game r = g \<and>
       (rs_phase st \<noteq> Results \<longrightarrow> rd_status r = BETTING)) \<and>
    rs_seconds st \<le> phase_seconds (rs_phase st) \<and> (rs_phase st \<noteq> Results \<longrightarrow> 0 < rs_seconds st) \<and>
    (rs_phase st = Betting \<longrightarrow> rs_winningOutcome st = None) \<and>
    (\<forall>out. rs_winningOutcome st = Some out \<longrightarrow> out \<in> set (outcomes_of g)) \<and>
    length (rs_history st) \<le> 8 \<and> length (rs_lastWinners st) \<le> 3"
proof -
  have "loop_ok w" using assms(2-4) by (simp add: loop_ok_def)
  then have "loop_ok w'" by (rule run_keeps [OF assms(1)])
  then show ?thesis using st by (auto simp: loop_ok_def state_ok_def HISTORY_LEN_def TOP_WINNERS_def)
qed

end
