(* ===== verification/CasinoRounds.thy ===== *)
theory CasinoRounds
  imports CasinoLoopLaws
begin

text \<open>
  Runs of the round loop: who may tick, how a round goes through its phases and is settled once,
  what a failed read at the lock costs, and what happens to a round whose instance lost the lead.
\<close>

section \<open>One leader\<close>

definition well_led :: "world \<Rightarrow> bool" where
  "well_led w \<longleftrightarrow> (isLeader (inst w) \<longrightarrow> leaderToken (inst w) \<noteq> None)"

lemma acquire_leads:
  assumes "acquireLeadership env w = (True, w')" "\<not> isLeader (inst w)"
  obtains tok where "isLeader (inst w')" "leaderToken (inst w') = Some tok"
    "store (red w') LEADER_LOCK_KEY = Some (tok, clock (red w') + LEADER_LOCK_TTL_MS)"
    "db w' = db w" "states (inst w') = states (inst w)"
  using assms
  by (auto simp: acquireLeadership_def acquire_is_object [symmetric] on_inst_def acquire_def randomUUID_def
      set_nx_def split: if_splits)

lemma renew_leads:
  assumes run: "renewOrAcquireLeadership env w = (True, w')" and wl: "well_led w"
  obtains tok where "isLeader (inst w')" "leaderToken (inst w') = Some tok"
    "store (red w') LEADER_LOCK_KEY = Some (tok, clock (red w') + LEADER_LOCK_TTL_MS)"
    "db w' = db w" "states (inst w') = states (inst w)"
proof (cases "isLeader (inst w)")
  case False
  then have "acquireLeadership env w = (True, w')"
    using run by (auto simp: renewOrAcquireLeadership_def)
  then show thesis using acquire_leads [OF _ False] that by metis
next
  case True
  then obtain tok where tok: "leaderToken (inst w) = Some tok" using wl by (auto simp: well_led_def)
  have d: "\<not> isLeader (inst (on_inst demoted v))" "db (on_inst demoted v) = db v"
    "states (inst (on_inst demoted v)) = states (inst v)" for v by (simp_all add: on_inst_def demoted_def)
  show thesis
  proof (cases "te_extend env \<and> live LEADER_LOCK_KEY (red w) = Some tok")
    case True
    then have "w' = w\<lparr>red := snd (extend_script LEADER_LOCK_KEY tok LEADER_LOCK_TTL_MS (red w))\<rparr>"
      using run \<open>isLeader (inst w)\<close> tok
      by (auto simp: renewOrAcquireLeadership_def extend_lock_def extend_script_def)
    then show thesis
      using that [of tok] True \<open>isLeader (inst w)\<close> tok by (simp add: extend_script_def)
  next
    case False
    then have "acquireLeadership env (on_inst demoted w) = (True, w')"
      using run \<open>isLeader (inst w)\<close> tok
      by (auto simp: renewOrAcquireLeadership_def extend_lock_def extend_script_def split: if_splits)
    then show thesis using acquire_leads [OF _ d(1)] d that by metis
  qed
qed

text \<open>
  What happens to the store between a check of one instance and a tick of another: time passes, locks are tried,
  renewed and released, and keys other than the leader's are written. \<open>unresigned\<close>: nobody but its holder knows the
  leader's token, and the holder may renew with it but does not release.
\<close>

datatype redis_op =
    Pass nat
  | Attempt string nat
  | Drop_lock string nat
  | Renew string nat nat
  | Write string "(nat \<times> nat) option"

fun redis_do :: "redis_op \<Rightarrow> redis \<Rightarrow> redis" where
  "redis_do (Pass ms) r = sleep ms r"
| "redis_do (Attempt k ttl) r = snd (acquire k ttl r)"
| "redis_do (Drop_lock k t) r = snd (release_script k t r)"
| "redis_do (Renew k t ttl) r = snd (extend_lock k t ttl r)"
| "redis_do (Write k v) r = r\<lparr>store := (store r)(k := v)\<rparr>"

definition redis_run :: "redis_op list \<Rightarrow> redis \<Rightarrow> redis" where
  "redis_run ops r = fold redis_do ops r"

fun passed :: "redis_op \<Rightarrow> nat" where
  "passed (Pass ms) = ms"
| "passed op = 0"

definition elapsed :: "redis_op list \<Rightarrow> nat" where
  "elapsed ops = sum_list (map passed ops)"

fun unresigned :: "nat option \<Rightarrow> redis_op \<Rightarrow> bool" where
  "unresigned lead (Drop_lock k t) \<longleftrightarrow> \<not> (k = LEADER_LOCK_KEY \<and> Some t = lead)"
| "unresigned lead (Renew k t ttl) \<longleftrightarrow> k = LEADER_LOCK_KEY \<and> Some t = lead \<longrightarrow> LEADER_LOCK_TTL_MS \<le> ttl"
| "unresigned lead (Write k v) \<longleftrightarrow> k \<noteq> LEADER_LOCK_KEY"
| "unresigned lead op \<longleftrightarrow> True"

lemma leader_entry_stays:
  assumes "store r LEADER_LOCK_KEY = Some (tok, e)" "e0 \<le> e" "e0 \<le> clock r + LEADER_LOCK_TTL_MS"
    "clock r + elapsed ops < e0" "list_all (unresigned (Some tok)) ops"
  shows "live LEADER_LOCK_KEY (redis_run ops r) = Some tok"
  using assms
proof (induction ops arbitrary: r e)
  case Nil
  then show ?case by (simp add: redis_run_def elapsed_def live_def)
next
  case (Cons op ops)
  have live: "live LEADER_LOCK_KEY r = Some tok" using Cons.prems by (simp add: live_def elapsed_def)
  have "\<exists>e'. store (redis_do op r) LEADER_LOCK_KEY = Some (tok, e') \<and> e0 \<le> e' \<and> clock (redis_do op r) = clock r + passed op"
    using Cons.prems live
    by (cases op) (auto simp: sleep_def acquire_def randomUUID_def set_nx_def release_script_def extend_lock_def
        extend_script_def)
  then obtain e' where e': "store (redis_do op r) LEADER_LOCK_KEY = Some (tok, e')" "e0 \<le> e'"
    "clock (redis_do op r) = clock r + passed op" by blast
  have "live LEADER_LOCK_KEY (redis_run ops (redis_do op r)) = Some tok"
    by (rule Cons.IH [OF e'(1,2)]) (use Cons.prems e'(3) in \<open>simp_all add: elapsed_def\<close>)
  then show ?case by (simp add: redis_run_def)
qed

text \<open>
  C30: Once an instance passed the leadership check, no other instance passes it in the next ten seconds, whatever
  anybody does to the locks meanwhile, unless the leader itself releases: the other's tick changes neither the
  database nor its own rounds and sends nothing.
\<close>

theorem leader_excludes:
  assumes lead: "renewOrAcquireLeadership env w = (True, w1)" and wl: "well_led w"
    and later: "red v = redis_run ops (red w1)" "elapsed ops < LEADER_LOCK_TTL_MS"
      "list_all (unresigned (leaderToken (inst w1))) ops"
    and other: "isLeader (inst v) \<Longrightarrow> \<exists>t. leaderToken (inst v) = Some t \<and> Some t \<noteq> leaderToken (inst w1)"
  shows "\<not> fst (renewOrAcquireLeadership env' v) \<and>
    db (snd (tickGame env' g v)) = db v \<and> states (inst (snd (tickGame env' g v))) = states (inst v) \<and>
    sent (inst (snd (tickGame env' g v))) = sent (inst v)"
proof -
  obtain tok where tok: "leaderToken (inst w1) = Some tok"
    "store (red w1) LEADER_LOCK_KEY = Some (tok, clock (red w1) + LEADER_LOCK_TTL_MS)"
    by (rule renew_leads [OF lead wl])
  have live: "live LEADER_LOCK_KEY (red v) = Some tok"
    using leader_entry_stays [OF tok(2) order_refl order_refl] later tok(1) by simp
  have acq: "\<not> fst (acquireLeadership env' u)" if "\<not> isLeader (inst u)" "red u = red v" for u
    using that live
    by (simp add: acquireLeadership_def acquireLockObject_def randomUUID_def set_nx_def)
  have no: "\<not> fst (renewOrAcquireLeadership env' v)"
  proof (cases "isLeader (inst v)")
    case False
    then show ?thesis using acq [of v] by (auto simp: renewOrAcquireLeadership_def)
  next
    case True
    then obtain t where t: "leaderToken (inst v) = Some t" "t \<noteq> tok" using other tok by auto
    have "\<not> fst (acquireLeadership env' (on_inst demoted v))"
      by (rule acq) (simp_all add: on_inst_def demoted_def)
    then show ?thesis
      using True t live
      by (simp add: renewOrAcquireLeadership_def extend_lock_def extend_script_def)
  qed
  obtain b v1 where e: "ensureLeadership env' v = (Inr b, v1)" "db v1 = db v"
    "states (inst v1) = states (inst v)" "sent (inst v1) = sent (inst v)" by (rule ensure_frame)
  then have "\<not> b" using no by (cases "renewOrAcquireLeadership env' v") (simp add: ensureLeadership_def)
  then have "tickGame env' g v = (Inr (), v1)"
    using e by (simp add: tickGame_def catchA_def bind_run returnA_def)
  then show ?thesis using no e by simp
qed

section \<open>A round in 45 ticks\<close>

text \<open>
  A run of one game on the leading instance: before each tick the rest of the system (bets, the
  other game, other modules) may change the database.
\<close>

type_synonym feed = "tick_env \<times> (casino_db \<Rightarrow> casino_db)"

definition fed_tick :: "game \<Rightarrow> feed \<Rightarrow> world \<Rightarrow> world" where
  "fed_tick g x w = snd (tickGame (fst x) g (w\<lparr>db := snd x (db w)\<rparr>))"

definition run_ticks :: "game \<Rightarrow> feed list \<Rightarrow> world \<Rightarrow> world" where
  "run_ticks g xs w = fold (fed_tick g) xs w"

definition feed_db :: "feed list \<Rightarrow> casino_db \<Rightarrow> casino_db" where
  "feed_db xs d = fold snd xs d"

lemma run_ticks_simps [simp]:
  "run_ticks g [] w = w" "run_ticks g (x # xs) w = run_ticks g xs (fed_tick g x w)"
  "run_ticks g (xs @ ys) w = run_ticks g ys (run_ticks g xs w)"
  by (simp_all add: run_ticks_def)

lemma feed_db_simps [simp]:
  "feed_db [] d = d" "feed_db (x # xs) d = feed_db xs (snd x d)" "feed_db (xs @ ys) d = feed_db ys (feed_db xs d)"
  by (simp_all add: feed_db_def)

definition leads :: "world \<Rightarrow> bool" where
  "leads w \<longleftrightarrow> isLeader (inst w) \<and> (\<exists>tok. leaderToken (inst w) = Some tok \<and> live LEADER_LOCK_KEY (red w) = Some tok)"

definition sound_tick :: "tick_env \<Rightarrow> bool" where
  "sound_tick env \<longleftrightarrow> te_extend env \<and> te_pool env \<and> te_create env \<and> te_lock_bets env \<and> te_settle env \<and>
     (\<forall>us. te_profiles env us \<noteq> None)"

lemma leading_tick:
  assumes "leads w" "te_extend env" "states (inst w) g = Some st"
  obtains w1 where "leads w1" "db w1 = db w" "states (inst w1) = states (inst w)"
    "snd (tickGame env g w) = snd (tick_body env g st w1)"
proof -
  obtain tok where tok: "isLeader (inst w)" "leaderToken (inst w) = Some tok"
    "live LEADER_LOCK_KEY (red w) = Some tok" using assms by (auto simp: leads_def)
  define w1 where "w1 = w\<lparr>red := snd (extend_script LEADER_LOCK_KEY tok LEADER_LOCK_TTL_MS (red w))\<rparr>"
  have "renewOrAcquireLeadership env w = (True, w1)"
    using tok assms(2) by (simp add: renewOrAcquireLeadership_def extend_lock_def extend_script_def w1_def)
  then have "tickGame env g w = catchA (tick_body env g st) (\<lambda>_. returnA ()) w1"
    using assms(3) by (simp add: tickGame_def catchA_def bind_run ensureLeadership_def getsA_def w1_def)
  then have "snd (tickGame env g w) = snd (tick_body env g st w1)"
    by (auto simp: catchA_def returnA_def split: prod.splits sum.splits)
  moreover have "leads w1"
    using tok by (simp add: leads_def w1_def extend_script_def live_store LEADER_LOCK_TTL_MS_def)
  ultimately show thesis using that [of w1] by (simp add: w1_def)
qed

lemma leads_put [simp]: "leads (put g st w) = leads w" "leads (say g e w) = leads w" "leads (ticked g st w) = leads w"
  "leads (w\<lparr>db := d\<rparr>) = leads w"
  by (simp_all add: leads_def)

definition paced :: "round_state \<Rightarrow> int \<Rightarrow> (string \<times> int) list \<Rightarrow> round_state" where
  "paced st n pool = st\<lparr>rs_seconds := n, rs_poolBets := pool\<rparr>"

lemma counted_paced: "counted st d = paced st (rs_seconds st - 1) (pool_of [] (listPlacedBets (the (rs_roundId st)) d))"
  by (simp add: counted_def paced_def)

lemma paced_simps [simp]:
  "rs_seconds (paced st n p) = n" "rs_phase (paced st n p) = rs_phase st" "rs_roundId (paced st n p) = rs_roundId st"
  "rs_history (paced st n p) = rs_history st" "rs_winningOutcome (paced st n p) = rs_winningOutcome st"
  "rs_lastWinners (paced st n p) = rs_lastWinners st" "paced (paced st n p) m q = paced st m q"
  by (simp_all add: paced_def)

lemma quiet_tick:
  assumes "leads w" "te_extend (fst x)" "te_pool (fst x)" "states (inst w) g = Some st" "1 < rs_seconds st"
  shows "\<exists>p. leads (fed_tick g x w) \<and> db (fed_tick g x w) = snd x (db w) \<and>
    states (inst (fed_tick g x w)) g = Some (paced st (rs_seconds st - 1) p)"
proof -
  obtain w1 where "leads w1" "db w1 = db (w\<lparr>db := snd x (db w)\<rparr>)" "states (inst w1) = states (inst (w\<lparr>db := snd x (db w)\<rparr>))"
    "snd (tickGame (fst x) g (w\<lparr>db := snd x (db w)\<rparr>)) = snd (tick_body (fst x) g st w1)"
    by (rule leading_tick [of "w\<lparr>db := snd x (db w)\<rparr>"]) (use assms in simp_all)
  moreover have "\<not> rs_seconds st \<le> 1" using assms(5) by simp
  ultimately show ?thesis
    using assms by (auto simp: fed_tick_def body_run counted_paced [symmetric]) (metis counted_paced)
qed

lemma quiet_ticks:
  assumes "leads w" "list_all (\<lambda>x. te_extend (fst x) \<and> te_pool (fst x)) xs"
    and "states (inst w) g = Some st" "int (length xs) < rs_seconds st"
  shows "\<exists>p. leads (run_ticks g xs w) \<and> db (run_ticks g xs w) = feed_db xs (db w) \<and>
    states (inst (run_ticks g xs w)) g = Some (paced st (rs_seconds st - int (length xs)) p)"
  using assms
proof (induction xs arbitrary: w st)
  case Nil
  have "st = paced st (rs_seconds st) (rs_poolBets st)" by (simp add: paced_def)
  then show ?case using Nil by auto
next
  case (Cons x xs)
  then obtain p where p: "leads (fed_tick g x w)" "db (fed_tick g x w) = snd x (db w)"
    "states (inst (fed_tick g x w)) g = Some (paced st (rs_seconds st - 1) p)"
    using quiet_tick [of w x g st] by auto
  show ?case
    using Cons.IH [OF p(1) _ p(3)] Cons.prems p(2) by (auto simp: algebra_simps)
qed

text \<open>The three ticks at which the phase changes.\<close>

lemma last_tick:
  assumes "leads w" "te_extend (fst x)" "te_pool (fst x)" "states (inst w) g = Some st" "rs_seconds st = 1"
  obtains w1 where "leads w1" "db w1 = snd x (db w)" "states (inst w1) = states (inst w)"
    "fed_tick g x w = snd (transition_round (fst x) g (counted st (db w1)) (ticked g st w1))"
proof -
  obtain w1 where "leads w1" "db w1 = db (w\<lparr>db := snd x (db w)\<rparr>)" "states (inst w1) = states (inst (w\<lparr>db := snd x (db w)\<rparr>))"
    "snd (tickGame (fst x) g (w\<lparr>db := snd x (db w)\<rparr>)) = snd (tick_body (fst x) g st w1)"
    by (rule leading_tick [of "w\<lparr>db := snd x (db w)\<rparr>"]) (use assms in simp_all)
  then show thesis using that [of w1] assms by (simp add: fed_tick_def body_run)
qed

lemma lock_tick:
  assumes w: "leads w" "te_extend (fst x)" "te_pool (fst x)" "states (inst w) g = Some st" "rs_seconds st = 1"
    and st: "rs_phase st = Betting" "rs_roundId st = Some rid"
  shows "\<exists>p. leads (fed_tick g x w) \<and> db (fed_tick g x w) = snd x (db w) \<and>
    states (inst (fed_tick g x w)) g = Some (paced (st\<lparr>rs_phase := Spinning, rs_winningOutcome :=
      if te_lock_bets (fst x) then locked_outcome (fst x) g rid (snd x (db w)) else rs_winningOutcome st\<rparr>) 10 p)"
proof -
  obtain w1 where w1: "leads w1" "db w1 = snd x (db w)" "states (inst w1) = states (inst w)"
    "fed_tick g x w = snd (transition_round (fst x) g (counted st (db w1)) (ticked g st w1))"
    by (rule last_tick [OF w])
  then have "leads (fed_tick g x w) \<and> db (fed_tick g x w) = snd x (db w) \<and>
    states (inst (fed_tick g x w)) g = Some (paced (st\<lparr>rs_phase := Spinning, rs_winningOutcome :=
      if te_lock_bets (fst x) then locked_outcome (fst x) g rid (snd x (db w)) else rs_winningOutcome st\<rparr>) 10
        (pool_of [] (listPlacedBets rid (snd x (db w)))))"
    using st by (simp add: transition_round_def lock_run Let_def phase_seconds_def paced_def counted_def)
  then show ?thesis by blast
qed

lemma profiles_return:
  assumes "\<And>us. te_profiles env us \<noteq> None"
  shows "\<exists>vs. resolveWinnerViews env ws w = (Inr vs, w)"
proof (cases "ws = []")
  case True
  then show ?thesis by (simp add: resolveWinnerViews_def returnA_def)
next
  case False
  moreover obtain ids where "te_profiles env (map fst ws) = Some ids" using assms by auto
  ultimately show ?thesis by (simp add: resolveWinnerViews_def returnA_def)
qed

lemma settle_tick:
  assumes w: "leads w" "te_extend (fst x)" "te_pool (fst x)" "states (inst w) g = Some st" "rs_seconds st = 1"
    and st: "rs_phase st = Spinning" "rs_roundId st = Some rid"
    and e: "te_settle (fst x)" "\<And>us. te_profiles (fst x) us \<noteq> None"
  shows "\<exists>p vs. leads (fed_tick g x w) \<and>
    db (fed_tick g x w) = snd (settleRound g rid (rs_winningOutcome st) (snd x (db w))) \<and>
    states (inst (fed_tick g x w)) g = Some (paced (st\<lparr>rs_phase := Results,
      rs_history := pushHistory (rs_history st) (rs_winningOutcome st) HISTORY_LEN, rs_lastWinners := vs\<rparr>) 5 p)"
proof -
  obtain w1 where w1: "leads w1" "db w1 = snd x (db w)" "states (inst w1) = states (inst w)"
    "fed_tick g x w = snd (transition_round (fst x) g (counted st (db w1)) (ticked g st w1))"
    by (rule last_tick [OF w])
  obtain res d' where s: "settleRound g (the (rs_roundId st)) (rs_winningOutcome st) (db w1) = (Inr res, d')"
    "sr_winningOutcome res = rs_winningOutcome st" by (rule settle_returns)
  let ?st2 = "(counted st (db w1))\<lparr>rs_phase := Results, rs_seconds := phase_seconds Results,
    rs_history := pushHistory (rs_history st) (rs_winningOutcome st) HISTORY_LEN\<rparr>"
  obtain vs where vs: "resolveWinnerViews (fst x) (sr_winners res) (put g ?st2 ((ticked g st w1)\<lparr>db := d'\<rparr>)) =
      (Inr vs, put g ?st2 ((ticked g st w1)\<lparr>db := d'\<rparr>))"
    using profiles_return [OF e(2)] by blast
  have "leads (fed_tick g x w) \<and>
    db (fed_tick g x w) = snd (settleRound g rid (rs_winningOutcome st) (snd x (db w))) \<and>
    states (inst (fed_tick g x w)) g = Some (paced (st\<lparr>rs_phase := Results,
      rs_history := pushHistory (rs_history st) (rs_winningOutcome st) HISTORY_LEN, rs_lastWinners := vs\<rparr>) 5
        (pool_of [] (listPlacedBets rid (snd x (db w)))))"
    using st e(1) s vs w1
    by (simp add: transition_round_def settle_run Let_def phase_seconds_def paced_def counted_def)
  then show ?thesis by blast
qed

lemma reopen_tick:
  assumes w: "leads w" "te_extend (fst x)" "te_pool (fst x)" "states (inst w) g = Some st" "rs_seconds st = 1"
    and st: "rs_phase st = Results" and e: "te_create (fst x)"
  shows "leads (fed_tick g x w) \<and> db (fed_tick g x w) = open_db g (snd x (db w)) \<and>
    states (inst (fed_tick g x w)) g = Some (freshRoundState (next_id (snd x (db w))) (roundCount (snd x (db w)) g + 1)
      (rs_history st, rs_lastWinners st))"
proof -
  obtain w1 where w1: "leads w1" "db w1 = snd x (db w)" "states (inst w1) = states (inst w)"
    "fed_tick g x w = snd (transition_round (fst x) g (counted st (db w1)) (ticked g st w1))"
    by (rule last_tick [OF w])
  then show ?thesis
    using st e w(4) by (simp add: transition_round_def reopen_run opened_ticked opened_def carried_def)
qed

text \<open>From the first tick of betting to the first of the next round.\<close>

lemma betting_to_spinning:
  assumes "leads w" "list_all (\<lambda>x. te_extend (fst x) \<and> te_pool (fst x)) xs" "te_extend (fst y)" "te_pool (fst y)"
    and "states (inst w) g = Some st" "rs_seconds st = 1 + int (length xs)"
    and "rs_phase st = Betting" "rs_roundId st = Some rid"
  shows "\<exists>p. leads (run_ticks g (xs @ [y]) w) \<and> db (run_ticks g (xs @ [y]) w) = feed_db (xs @ [y]) (db w) \<and>
    states (inst (run_ticks g (xs @ [y]) w)) g = Some (paced (st\<lparr>rs_phase := Spinning, rs_winningOutcome :=
      if te_lock_bets (fst y) then locked_outcome (fst y) g rid (feed_db (xs @ [y]) (db w))
      else rs_winningOutcome st\<rparr>) 10 p)"
proof -
  let ?w = "run_ticks g xs w"
  obtain p where p: "leads ?w" "db ?w = feed_db xs (db w)" "states (inst ?w) g = Some (paced st 1 p)"
    using quiet_ticks [of w xs g st] assms by auto
  obtain q where "leads (fed_tick g y ?w)" "db (fed_tick g y ?w) = snd y (db ?w)"
    "states (inst (fed_tick g y ?w)) g = Some (paced ((paced st 1 p)\<lparr>rs_phase := Spinning, rs_winningOutcome :=
      if te_lock_bets (fst y) then locked_outcome (fst y) g rid (snd y (db ?w)) else rs_winningOutcome (paced st 1 p)\<rparr>) 10 q)"
    using lock_tick [OF p(1) assms(3,4) p(3), of rid] assms by auto
  then show ?thesis using p(2) by (auto simp: paced_def)
qed

lemma spinning_to_results:
  assumes "leads w" "list_all (\<lambda>x. te_extend (fst x) \<and> te_pool (fst x)) xs" "sound_tick (fst y)"
    and "states (inst w) g = Some st" "rs_seconds st = 1 + int (length xs)"
    and "rs_phase st = Spinning" "rs_roundId st = Some rid"
  shows "\<exists>p vs. leads (run_ticks g (xs @ [y]) w) \<and>
    db (run_ticks g (xs @ [y]) w) = snd (settleRound g rid (rs_winningOutcome st) (feed_db (xs @ [y]) (db w))) \<and>
    states (inst (run_ticks g (xs @ [y]) w)) g = Some (paced (st\<lparr>rs_phase := Results,
      rs_history := pushHistory (rs_history st) (rs_winningOutcome st) HISTORY_LEN, rs_lastWinners := vs\<rparr>) 5 p)"
proof -
  let ?w = "run_ticks g xs w"
  have y: "te_extend (fst y)" "te_pool (fst y)" "te_settle (fst y)" "\<And>us. te_profiles (fst y) us \<noteq> None"
    using assms(3) by (auto simp: sound_tick_def)
  obtain p where p: "leads ?w" "db ?w = feed_db xs (db w)" "states (inst ?w) g = Some (paced st 1 p)"
    using quiet_ticks [of w xs g st] assms by auto
  obtain q vs where "leads (fed_tick g y ?w)"
    "db (fed_tick g y ?w) = snd (settleRound g rid (rs_winningOutcome st) (snd y (db ?w)))"
    "states (inst (fed_tick g y ?w)) g = Some (paced ((paced st 1 p)\<lparr>rs_phase := Results,
      rs_history := pushHistory (rs_history st) (rs_winningOutcome st) HISTORY_LEN, rs_lastWinners := vs\<rparr>) 5 q)"
    using settle_tick [OF p(1) y(1,2) p(3) _ _ _ y(3,4), of rid] assms by auto
  then show ?thesis using p(2) by (auto simp: paced_def)
qed

lemma results_to_betting:
  assumes "leads w" "list_all (\<lambda>x. te_extend (fst x) \<and> te_pool (fst x)) xs" "sound_tick (fst y)"
    and "states (inst w) g = Some st" "rs_seconds st = 1 + int (length xs)" "rs_phase st = Results"
  shows "leads (run_ticks g (xs @ [y]) w) \<and>
    db (run_ticks g (xs @ [y]) w) = open_db g (feed_db (xs @ [y]) (db w)) \<and>
    states (inst (run_ticks g (xs @ [y]) w)) g = Some (freshRoundState (next_id (feed_db (xs @ [y]) (db w)))
      (roundCount (feed_db (xs @ [y]) (db w)) g + 1) (rs_history st, rs_lastWinners st))"
proof -
  let ?w = "run_ticks g xs w"
  have y: "te_extend (fst y)" "te_pool (fst y)" "te_create (fst y)"
    using assms(3) by (auto simp: sound_tick_def)
  obtain p where p: "leads ?w" "db ?w = feed_db xs (db w)" "states (inst ?w) g = Some (paced st 1 p)"
    using quiet_ticks [of w xs g st] assms by auto
  then show ?thesis using reopen_tick [OF p(1) y(1,2) p(3) _ _ y(3)] assms by simp
qed

lemma last_split: "length xs = Suc n \<Longrightarrow> \<exists>ys y. xs = ys @ [y] \<and> length ys = n"
  by (cases xs rule: rev_cases) auto

lemma sound_reads: "list_all (\<lambda>x. sound_tick (fst x)) xs \<Longrightarrow> list_all (\<lambda>x. te_extend (fst x) \<and> te_pool (fst x)) xs"
  by (auto simp: list_all_iff sound_tick_def)

text \<open>
  C31: A leading instance whose reads succeed takes a round from its first betting second to the
  next round in exactly 45 ticks, whatever bets and other changes reach the database meanwhile:
  after 30 ticks betting is closed with the outcome chosen from the bets placed by then, ten ticks
  later the round is settled once with that very outcome, and five ticks later a new round with the
  next number opens, the outcome first in its history.
\<close>

theorem round_lifecycle:
  assumes "leads w" "states (inst w) g = Some st" "rs_phase st = Betting" "rs_seconds st = 30"
    and rid: "rs_roundId st = Some rid"
    and len: "length as = 30" "length bs = 10" "length cs = 5"
    and ok: "list_all (\<lambda>x. sound_tick (fst x)) (as @ bs @ cs)"
  shows "let d30 = feed_db as (db w); out = locked_outcome (fst (last as)) g rid d30;
      d40 = snd (settleRound g rid out (feed_db bs d30)); d45 = feed_db cs d40;
      w' = run_ticks g (as @ bs @ cs) w
    in leads w' \<and> db w' = open_db g d45 \<and>
       (\<exists>vs. states (inst w') g = Some (freshRoundState (next_id d45) (roundCount d45 g + 1)
          (take 8 (out # rs_history st), vs)))"
proof -
  obtain as' a where as: "as = as' @ [a]" "length as' = 29" using last_split [of as 29] len by auto
  obtain bs' b where bs: "bs = bs' @ [b]" "length bs' = 9" using last_split [of bs 9] len by auto
  obtain cs' c where cs: "cs = cs' @ [c]" "length cs' = 4" using last_split [of cs 4] len by auto
  have s: "sound_tick (fst a)" "sound_tick (fst b)" "sound_tick (fst c)"
    and q: "list_all (\<lambda>x. te_extend (fst x) \<and> te_pool (fst x)) as'"
      "list_all (\<lambda>x. te_extend (fst x) \<and> te_pool (fst x)) bs'" "list_all (\<lambda>x. te_extend (fst x) \<and> te_pool (fst x)) cs'"
    using ok as bs cs by (auto intro: sound_reads)
  define d30 where "d30 = feed_db as (db w)"
  define out where "out = locked_outcome (fst a) g rid d30"
  define d40 where "d40 = snd (settleRound g rid out (feed_db bs d30))"
  let ?w1 = "run_ticks g as w" and ?w2 = "run_ticks g bs (run_ticks g as w)"
  obtain p1 where 1: "leads ?w1" "db ?w1 = d30"
    "states (inst ?w1) g = Some (paced (st\<lparr>rs_phase := Spinning, rs_winningOutcome := out\<rparr>) 10 p1)"
    using betting_to_spinning [OF assms(1) q(1) _ _ assms(2), of a rid] assms(3,4) rid s(1)
    unfolding as [symmetric] by (auto simp: as(2) sound_tick_def out_def d30_def)
  obtain p2 vs where 2: "leads ?w2" "db ?w2 = d40"
    "states (inst ?w2) g = Some (paced ((paced (st\<lparr>rs_phase := Spinning, rs_winningOutcome := out\<rparr>) 10 p1)\<lparr>rs_phase := Results,
       rs_history := pushHistory (rs_history st) out HISTORY_LEN, rs_lastWinners := vs\<rparr>) 5 p2)"
    using spinning_to_results [OF 1(1) q(2) s(2) 1(3), of rid] rid
    unfolding bs [symmetric] by (auto simp: bs(2) 1(2) d40_def)
  have "leads (run_ticks g cs ?w2) \<and> db (run_ticks g cs ?w2) = open_db g (feed_db cs d40) \<and>
    states (inst (run_ticks g cs ?w2)) g = Some (freshRoundState (next_id (feed_db cs d40))
      (roundCount (feed_db cs d40) g + 1) (take 8 (out # rs_history st), vs))"
    using results_to_betting [OF 2(1) q(3) s(3) 2(3)] 2(2)
    unfolding cs(1) [symmetric] by (simp add: cs(2) pushHistory_def HISTORY_LEN_def)
  moreover have "last as = a" by (simp add: as(1))
  ultimately show ?thesis
    unfolding Let_def run_ticks_simps(3) by (auto simp: d30_def out_def d40_def)
qed

text \<open>The casino of two bets, on an instance that leads and just opened the round.\<close>

definition sound_env :: tick_env where
  "sound_env = \<lparr>te_extend = True, te_acquire = True, te_create = True, te_pool = True, te_lock_bets = True,
     te_settle = True, te_rng = (\<lambda>_. 0), te_profiles = (\<lambda>_. Some (\<lambda>_. None))\<rparr>"

definition leading_world :: world where
  "leading_world = \<lparr>inst = \<lparr>isLeader = True, leaderToken = Some 0, release_of = Some 0,
       states = [GREEDY_FOOD \<mapsto> freshRoundState 5 1 ([], [])], sent = []\<rparr>,
     red = \<lparr>store = [LEADER_LOCK_KEY \<mapsto> (0, 10000)], clock = 0, tokens = 1\<rparr>, db = busy_casino\<rparr>"

lemma leading_world_leads: "leads leading_world"
  by (simp add: leads_def leading_world_def live_def)

lemma feed_id: "feed_db (replicate n (env, id)) d = d"
  by (induction n) simp_all

theorem round_lifecycle_witness:
  "map_option rs_history (states (inst (run_ticks GREEDY_FOOD (replicate 30 (sound_env, id) @
     replicate 10 (sound_env, id) @ replicate 5 (sound_env, id)) leading_world)) GREEDY_FOOD) = Some [Some ''corn'']"
proof -
  have st: "states (inst leading_world) GREEDY_FOOD = Some (freshRoundState 5 1 ([], []))"
    by (simp add: leading_world_def)
  have f: "rs_phase (freshRoundState 5 1 ([], [])) = Betting" "rs_seconds (freshRoundState 5 1 ([], [])) = 30"
    "rs_roundId (freshRoundState 5 1 ([], [])) = Some 5" "rs_history (freshRoundState 5 1 ([], [])) = []"
    by (simp_all add: freshRoundState_def phase_seconds_def)
  have "last (replicate 30 (sound_env, id)) = (sound_env, id)" by simp
  moreover have "locked_outcome sound_env GREEDY_FOOD 5 busy_casino = Some ''corn''" by code_simp
  moreover have ok: "list_all (\<lambda>x. sound_tick (fst x)) (replicate 30 (sound_env, id) @ replicate 10 (sound_env, id) @ replicate 5 (sound_env, id))"
    by (simp add: list_all_iff sound_tick_def sound_env_def)
  moreover have "db leading_world = busy_casino" by (simp add: leading_world_def)
  ultimately show ?thesis
    using round_lifecycle [OF leading_world_leads st f(1,2,3) length_replicate length_replicate length_replicate ok] f(4)
    by (auto simp: Let_def feed_id freshRoundState_def)
qed

text \<open>
  When the read of the bets throws at the lock, the outcome stays null and ten ticks later the
  round is settled with it: no coin moves and every placed bet of the round is marked LOST.
\<close>

theorem lost_read_loses_all_bets:
  assumes "leads w" "states (inst w) g = Some st" "rs_phase st = Betting" "rs_seconds st = 30"
    and none: "rs_winningOutcome st = None" and rid: "rs_roundId st = Some rid"
    and len: "length as = 29" "length bs = 10" and ok: "list_all (\<lambda>x. sound_tick (fst x)) (as @ bs)"
    and a: "te_extend (fst a)" "te_pool (fst a)" "\<not> te_lock_bets (fst a)"
    and d: "d = feed_db (as @ [a] @ bs) (db w)" "casino_ok d" "rounds d rid = Some r"
      "win_keys rid (listPlacedBets rid d) \<inter> dom (txns d) = {}"
  shows "let d' = db (run_ticks g (as @ [a] @ bs) w) in
    user_balance d' = user_balance d \<and> map_option rd_status (rounds d' rid) = Some SETTLED \<and>
    map strip (bets d') = map (\<lambda>b. if b \<in> set (listPlacedBets rid d) then (strip b)\<lparr>b_status := LOST\<rparr> else strip b) (bets d)"
proof -
  obtain bs' b where bs: "bs = bs' @ [b]" "length bs' = 9" using last_split [of bs 9] len by auto
  have s: "sound_tick (fst b)" and q: "list_all (\<lambda>x. te_extend (fst x) \<and> te_pool (fst x)) as"
      "list_all (\<lambda>x. te_extend (fst x) \<and> te_pool (fst x)) bs'"
    using ok bs by (auto intro: sound_reads)
  let ?w1 = "run_ticks g (as @ [a]) w"
  obtain p1 where 1: "leads ?w1" "db ?w1 = feed_db (as @ [a]) (db w)"
    "states (inst ?w1) g = Some (paced (st\<lparr>rs_phase := Spinning, rs_winningOutcome := None\<rparr>) 10 p1)"
    using betting_to_spinning [OF assms(1) q(1) a(1,2) assms(2), of rid] assms(3,4) rid a(3) none len by auto
  have "db (run_ticks g bs ?w1) = snd (settleRound g rid None d)"
  proof -
    have "feed_db bs (db ?w1) = d" unfolding 1(2) by (simp add: d(1))
    then show ?thesis
      using spinning_to_results [OF 1(1) q(2) s 1(3), of rid] rid
      unfolding bs(1) [symmetric] by (auto simp: bs(2) simp del: run_ticks_simps)
  qed
  moreover obtain res d' where "settleRound g rid None d = (Inr res, d')"
    "\<forall>u c. user_balance d' u c = user_balance d u c + (if c = GOLD then winnings g None u (listPlacedBets rid d) else 0)"
    "map strip (bets d') = map (\<lambda>b. if b \<in> set (listPlacedBets rid d) then marked (payout_for g None) b else strip b) (bets d)"
    "map_option rd_status (rounds d' rid) = Some SETTLED"
    using settlement_spec [OF d(2,3) _ d(4), of g None] by (auto simp: payout_for_def effectiveMultiplier_def)
  moreover have "winnings g None u xs = 0" "marked (payout_for g None) b = (strip b)\<lparr>b_status := LOST\<rparr>" for u xs b
    by (simp_all add: winnings_def payout_for_def effectiveMultiplier_def marked_def strip_def)
  ultimately show ?thesis by (simp add: Let_def fun_eq_iff)
qed

theorem lost_read_loses_all_bets_witness:
  "user_balance (db (run_ticks GREEDY_FOOD (replicate 29 (sound_env, id) @
     [(sound_env\<lparr>te_lock_bets := False\<rparr>, id)] @ replicate 10 (sound_env, id)) leading_world)) = user_balance busy_casino"
proof -
  let ?xs = "replicate 29 (sound_env, id :: casino_db \<Rightarrow> casino_db) @ [(sound_env\<lparr>te_lock_bets := False\<rparr>, id)] @ replicate 10 (sound_env, id)"
  have st: "states (inst leading_world) GREEDY_FOOD = Some (freshRoundState 5 1 ([], []))"
    by (simp add: leading_world_def)
  have f: "rs_phase (freshRoundState 5 1 ([], [])) = Betting" "rs_seconds (freshRoundState 5 1 ([], [])) = 30"
    "rs_winningOutcome (freshRoundState 5 1 ([], [])) = None" "rs_roundId (freshRoundState 5 1 ([], [])) = Some 5"
    by (simp_all add: freshRoundState_def phase_seconds_def)
  have ok: "list_all (\<lambda>x. sound_tick (fst x)) (replicate 29 (sound_env, id :: casino_db \<Rightarrow> casino_db) @ replicate 10 (sound_env, id))"
    by (simp add: list_all_iff sound_tick_def sound_env_def)
  have d: "busy_casino = feed_db ?xs (db leading_world)" by (simp add: feed_id leading_world_def)
  have "map_option rd_status (rounds busy_casino 5) = Some BETTING" by code_simp
  then obtain r where r: "rounds busy_casino 5 = Some r" by auto
  have "list_all (\<lambda>b. txns busy_casino (casinoWinIdempotencyKey 5 (b_id b)) = None) (listPlacedBets 5 busy_casino)"
    by code_simp
  then have k: "win_keys 5 (listPlacedBets 5 busy_casino) \<inter> dom (txns busy_casino) = {}"
    by (auto simp: list_all_iff win_keys_def)
  show ?thesis
    using lost_read_loses_all_bets [OF leading_world_leads st f length_replicate length_replicate ok _ _ _ d busy_casino_ok r k]
    by (simp add: sound_env_def Let_def)
qed

section \<open>What one tick can do\<close>

definition round_ids :: "world \<Rightarrow> game \<Rightarrow> nat option" where
  "round_ids w g = (case states (inst w) g of None \<Rightarrow> None | Some st \<Rightarrow> rs_roundId st)"

lemma transition_cases:
  assumes st: "states (inst w) g = Some st"
    and run: "transition_round env g (counted st (db w)) (ticked g st w) = (x, w')"
  obtains (same) "db w' = db w" "round_ids w' = round_ids w"
  | (settled) out where "db w' = snd (settleRound g (the (rs_roundId st)) out (db w))" "round_ids w' = round_ids w"
  | (reopened) "db w' = open_db g (db w)" "round_ids w' = (round_ids w)(g := Some (next_id (db w)))"
proof (cases "rs_phase st")
  case Betting
  then have "db w' = db w" "round_ids w' = round_ids w"
    using run st by (auto simp: transition_round_def lock_run Let_def round_ids_def fun_eq_iff split: if_splits)
  then show thesis by (rule same)
next
  case Spinning
  obtain res d' where s: "settleRound g (the (rs_roundId st)) (rs_winningOutcome st) (db w) = (Inr res, d')"
    "sr_winningOutcome res = rs_winningOutcome st" by (rule settle_returns)
  show thesis
  proof (cases "te_settle env")
    case False
    then have "db w' = db w" "round_ids w' = round_ids w"
      using run Spinning s st by (auto simp: transition_round_def settle_run Let_def round_ids_def fun_eq_iff)
    then show thesis by (rule same)
  next
    case True
    let ?st2 = "(counted st (db w))\<lparr>rs_phase := Results, rs_seconds := phase_seconds Results,
      rs_history := pushHistory (rs_history st) (rs_winningOutcome st) HISTORY_LEN\<rparr>"
    have "db w' = d' \<and> round_ids w' = round_ids w"
    proof (cases rule: profiles_run [of env "sr_winners res" "put g ?st2 ((ticked g st w)\<lparr>db := d'\<rparr>)"])
      case (thrown e)
      then show ?thesis using run Spinning s True st
        by (auto simp: transition_round_def settle_run Let_def round_ids_def fun_eq_iff)
    next
      case (views vs)
      then show ?thesis using run Spinning s True st
        by (auto simp: transition_round_def settle_run Let_def round_ids_def fun_eq_iff)
    qed
    then show thesis using settled [of "rs_winningOutcome st"] s by simp
  qed
next
  case Results
  show thesis
  proof (cases "te_create env")
    case True
    then have "db w' = open_db g (db w)" "round_ids w' = (round_ids w)(g := Some (next_id (db w)))"
      using run Results st
      by (auto simp: transition_round_def reopen_run round_ids_def fun_eq_iff opened_def freshRoundState_def)
    then show thesis by (rule reopened)
  next
    case False
    then have "db w' = db w" "round_ids w' = round_ids w"
      using run Results st by (auto simp: transition_round_def reopen_run round_ids_def fun_eq_iff)
    then show thesis by (rule same)
  qed
qed

lemma tick_cases:
  assumes run: "tickGame env g w = (x, w')"
  obtains (same) "db w' = db w" "round_ids w' = round_ids w"
  | (settled) st out where "states (inst w) g = Some st"
      "db w' = snd (settleRound g (the (rs_roundId st)) out (db w))" "round_ids w' = round_ids w"
  | (reopened) "db w' = open_db g (db w)" "round_ids w' = (round_ids w)(g := Some (next_id (db w)))"
proof -
  obtain b w1 where e: "ensureLeadership env w = (Inr b, w1)" and
    f: "db w1 = db w" "states (inst w1) = states (inst w)" by (rule ensure_frame)
  have r1: "round_ids w1 = round_ids w" using f by (simp add: round_ids_def fun_eq_iff)
  consider "\<not> b" | "b" "states (inst w1) g = None" | st where "b" "states (inst w1) g = Some st" by blast
  then show thesis
  proof cases
    case 1
    then have "w' = w1" using run e by (auto simp: tickGame_def catchA_def bind_run returnA_def)
    then show thesis using same f r1 by blast
  next
    case 2
    then have "w' = (if te_create env then (if g = GREEDY_FOOD
          then say g (NewRoundEvent (rs_roundId (opened g w1)) (rs_roundNumber (opened g w1)) 30) else id)
            (put g (opened g w1) (w1\<lparr>db := open_db g (db w1)\<rparr>)) else w1)"
      using run e
      by (auto simp: tickGame_def catchA_def bind_run getsA_def boot_run returnA_def split: if_splits)
    then show thesis
      using same reopened f r1
      by (cases "te_create env") (auto simp: round_ids_def fun_eq_iff opened_def freshRoundState_def)
  next
    case (3 st)
    then have w': "w' = snd (tick_body env g st w1)"
      using run e
      by (auto simp: tickGame_def catchA_def bind_run getsA_def returnA_def split: prod.splits sum.splits)
    consider "w' = w1" | "w' = ticked g st w1"
      | "w' = snd (transition_round env g (counted st (db w1)) (ticked g st w1))"
      using w' by (auto simp: body_run split: if_splits)
    then show thesis
    proof cases
      case 1
      then show thesis using same f r1 by blast
    next
      case 2
      then have "round_ids w' = round_ids w1" using 3 by (auto simp: round_ids_def fun_eq_iff)
      then show thesis using same f r1 2 by simp
    next
      case c: 3
      then have t: "transition_round env g (counted st (db w1)) (ticked g st w1) =
          (fst (transition_round env g (counted st (db w1)) (ticked g st w1)), w')" by simp
      from 3(2) t show thesis
        by (cases rule: transition_cases) (use f r1 3 same settled reopened in auto)
    qed
  qed
qed

section \<open>Rounds nobody leads\<close>

definition other_bets :: "nat set \<Rightarrow> casino_db \<Rightarrow> casino_db \<Rightarrow> bool" where
  "other_bets ids d d' \<longleftrightarrow> (wf_db d \<longrightarrow> wf_db d' \<and> {b \<in> set (bets d). b_id b \<notin> ids} \<subseteq> set (bets d'))"

interpretation ob: step_order "other_bets ids" for ids
  by unfold_locales (auto simp: other_bets_def)

lemma ob_move: "ob.ok ids (move ty m j)"
proof (rule ob.okI)
  fix s s' :: casino_db and r
  assume run: "move ty m j s = (r, s')"
  then show "other_bets ids s s'"
    using move_keeps(1) [of s ty m j r s'] more_tables [OF move_tables [of s ty m j r s']]
    by (auto simp: other_bets_def)
qed

lemma ob_wallet: "ob.ok ids (credit m j)" "ob.ok ids (debit m j)"
  using ob_move [of ids CREDIT m j] ob_move [of ids DEBIT m j]
  by (simp_all add: credit_def [abs_def] debit_def [abs_def])

lemma ob_updateBet: "i \<in> ids \<Longrightarrow> ob.ok ids (updateBet i st pay t)"
  by (rule ob.okI) (auto simp: other_bets_def updateBet_def image_iff split: if_splits)

lemma ob_closeRound: "ob.ok ids (closeRound rid st out)"
  by (rule ob.okI) (auto simp: other_bets_def closeRound_def split: option.splits)

lemma ob_createBet: "ob.ok ids (createBet r u g it a c t)"
proof (rule ob.okI)
  fix s s' :: casino_db and x
  assume run: "createBet r u g it a c t s = (x, s')"
  show "other_bets ids s s'"
    using run wf_next [of s]
    by (cases "findBet s r u c") (auto simp: createBet_def Let_def other_bets_def bet_later simp del: casino_db.simps)
qed

lemma ob_placeBet: "ob.ok ids (placeBet i)"
  unfolding placeBet_def by (intro ob.ok_bind ob.ok_catch ob.ok_pure ob_wallet ob_createBet)

lemma ob_settle_txn:
  assumes "\<And>x. x \<in> set xs \<Longrightarrow> b_id (fst (snd x)) \<in> ids"
  shows "ob.ok ids (settle_txn g rid out xs)"
proof (rule ob.okI)
  fix s s' :: casino_db and r
  assume run: "settle_txn g rid out xs s = (r, s')"
  have b: "ob.ok ids (settle_bet x)" if "x \<in> set xs" for x
    using assms [OF that] unfolding settle_bet_def
    by (cases x) (auto intro!: ob.ok_bind ob.ok_if ob_wallet ob_updateBet)
  obtain x s1 where m: "bindA (forA settle_bet xs) (\<lambda>_. closeRound rid SETTLED out) s = (x, s1)" by fastforce
  have R: "other_bets ids s s1"
    using ob.okD [OF ob.ok_bind [OF ob.ok_for_mem [OF b] ob_closeRound] m] .
  have adv: "wf_db s \<Longrightarrow> next_id s \<le> next_id s1"
    using ad.okD [OF ad.ok_bind [OF ad.ok_for [OF advances_settle_bet] advances_closeRound] m]
    by (simp add: advances_def)
  show "other_bets ids s s'"
  proof (cases x)
    case (Inl e)
    then have "s' = rollback s s1" using run m by (simp add: settle_txn_def transaction_def)
    then show ?thesis
      using same_money_rollback [OF adv] by (auto simp: other_bets_def same_money_def rollback_def)
  next
    case (Inr a)
    then show ?thesis using run m R by (simp add: settle_txn_def transaction_def)
  qed
qed

lemma settle_other_bets:
  fixes d :: casino_db
  assumes ok: "casino_ok d" and b: "b \<in> set (bets d)" "b_roundId b \<noteq> rid"
  shows "b \<in> set (bets (snd (settleRound g rid out d)))"
proof -
  let ?bs = "listPlacedBets rid d" and ?ids = "b_id ` set (listPlacedBets rid d)"
  have t: "ob.ok ?ids (settle_txn g rid out (computed g rid out ?bs))"
    by (rule ob_settle_txn) (auto simp: computed_def)
  have r: "ob.ok ?ids (refund_bet rid b)" if "b \<in> set ?bs" for b
    unfolding refund_bet_def using that by (intro ob.ok_bind ob.ok_catch ob.ok_pure ob_wallet ob_updateBet) auto
  have R: "ob.ok ?ids (refundRound rid ?bs)"
    unfolding refundRound_def by (intro ob.ok_bind ob.ok_catch ob.ok_pure ob_closeRound ob.ok_for_mem r)
  let ?ps = "payouts_of (computed g rid out ?bs) []"
  let ?M = "catchA (bindA (settle_txn g rid out (computed g rid out ?bs)) (\<lambda>_.
      returnA \<lparr>sr_winningOutcome = out, sr_payouts = ?ps, sr_winners = top_winners ?ps, sr_aborted = False\<rparr>))
    (\<lambda>_. bindA (refundRound rid ?bs) (\<lambda>_.
      returnA \<lparr>sr_winningOutcome = out, sr_payouts = [], sr_winners = [], sr_aborted = True\<rparr>))"
  have M: "ob.ok ?ids ?M" by (intro ob.ok_catch ob.ok_bind ob.ok_pure t R)
  have "settleRound g rid out d = ?M d"
    by (simp add: settleRound_def bindA_def [of "getsA _"] getsA_def Let_def)
  then have "other_bets ?ids d (snd (settleRound g rid out d))"
    using ob.okD [OF M, of d "fst (?M d)" "snd (?M d)"] by simp
  moreover have "b_id b \<notin> ?ids"
    using ok b by (auto simp: casino_ok_def distinct_map inj_on_def listPlacedBets_def)
  moreover have "wf_db d" using ok by (simp add: casino_ok_def)
  ultimately show ?thesis using b by (auto simp: other_bets_def)
qed

definition kept_round :: "nat \<Rightarrow> world \<Rightarrow> world \<Rightarrow> bool" where
  "kept_round rid w w' \<longleftrightarrow> loop_ok w' \<and> rounds (db w') rid = rounds (db w) rid \<and>
     (\<forall>b \<in> set (bets (db w)). b_roundId b = rid \<longrightarrow> b \<in> set (bets (db w'))) \<and>
     (\<forall>g. round_ids w' g \<noteq> Some rid)"

lemma kept_tick:
  assumes ok: "loop_ok w" and ids: "\<And>h. round_ids w h \<noteq> Some rid" and rd: "rounds (db w) rid = Some r"
    and run: "tickGame env g w = (x, w')"
  shows "kept_round rid w w'"
proof -
  have ok': "loop_ok w'" by (rule tick_keeps [OF ok run])
  have okd: "casino_ok (db w)" and less: "rid < next_id (db w)" using ok rd by (auto simp: loop_ok_def)
  from run show ?thesis
  proof (cases rule: tick_cases)
    case same
    then show ?thesis using ok' ids by (simp add: kept_round_def)
  next
    case reopened
    then show ?thesis using ok' ids less by (auto simp: kept_round_def)
  next
    case (settled st out)
    obtain i where i: "rs_roundId st = Some i" "i \<noteq> rid"
      using ok settled(1) ids [of g] by (force simp: loop_ok_def state_ok_def round_ids_def)
    have d': "settleRound g i out (db w) = (fst (settleRound g i out (db w)), db w')"
      using settled(2) i by (simp add: prod_eq_iff)
    have "rounds (db w') rid = rounds (db w) rid" using settle_frame(3) [OF okd d'] i by auto
    moreover have "b \<in> set (bets (db w'))" if "b \<in> set (bets (db w))" "b_roundId b = rid" for b
      using settle_other_bets [OF okd that(1), of i g out] that(2) i settled(2) by simp
    ultimately show ?thesis using ok' ids settled(3) by (simp add: kept_round_def)
  qed
qed

lemma kept_step:
  assumes step: "world_step w w'" and ok: "loop_ok w" and ids: "\<And>h. round_ids w h \<noteq> Some rid"
    and rd: "rounds (db w) rid = Some r"
  shows "kept_round rid w w'"
proof -
  have ok': "loop_ok w'" by (rule step_keeps [OF step ok])
  have quiet: "kept_round rid w w'" if "db w' = db w" "states (inst w') = states (inst w)"
    using ok' ids that by (simp add: kept_round_def round_ids_def)
  from step show ?thesis
  proof (cases rule: world_step.cases)
    case (tick env g)
    then show ?thesis using kept_tick [OF ok ids rd, of env g "fst (tickGame env g w)" w'] by simp
  next
    case (bet_placed i)
    obtain x d' where p: "placeBet i (db w) = (x, d')" by fastforce
    have w': "w' = w\<lparr>db := d'\<rparr>" using bet_placed p by (simp add: on_db_def)
    have okd: "casino_ok (db w)" using ok by (simp add: loop_ok_def)
    have "other_bets {} (db w) d'" by (rule ob.okD [OF ob_placeBet p])
    then have "set (bets (db w)) \<subseteq> set (bets d')" using okd by (auto simp: other_bets_def casino_ok_def)
    then show ?thesis
      using ok' ids placeBet_rounds(3) [OF okd p] by (auto simp: kept_round_def w' round_ids_def)
  next
    case shutdown
    then show ?thesis by (intro quiet) (simp_all add: onModuleDestroy_def on_inst_def demoted_def split: option.split)
  qed (rule quiet; simp)+
qed

text \<open>
  A round that no game's state points to (its instance lost the lead and the new leader opened
  another) is out of the loop's reach: whatever ticks, bets, delays and lock changes follow, its row
  stays as it is, no later state points to it, and every bet placed on it stays exactly as it was,
  neither settled nor refunded.
\<close>

theorem abandoned_round_is_stuck:
  assumes run: "runs_to w w'" and ok: "loop_ok w" and rd: "rounds (db w) rid = Some r"
    and ids: "\<And>g st. states (inst w) g = Some st \<Longrightarrow> rs_roundId st \<noteq> Some rid"
  shows "rounds (db w') rid = Some r \<and>
    {b \<in> set (bets (db w)). b_roundId b = rid} \<subseteq> {b \<in> set (bets (db w')). b_roundId b = rid} \<and>
    (\<nexists>g st. states (inst w') g = Some st \<and> rs_roundId st = Some rid)"
proof -
  have start: "round_ids w g \<noteq> Some rid" for g using ids by (auto simp: round_ids_def split: option.split)
  have "kept_round rid w w'"
    using run ok start rd
  proof (induction rule: runs_to.induct)
    case (stay w)
    then show ?case by (simp add: kept_round_def)
  next
    case (go w w1 w2)
    then have 1: "kept_round rid w w1" by simp
    then have "kept_round rid w1 w2"
      using kept_step [OF go.hyps(2), of rid r] go.prems by (simp add: kept_round_def)
    with 1 show ?case by (auto simp: kept_round_def)
  qed
  moreover have "states (inst w') g = Some st \<Longrightarrow> round_ids w' g = rs_roundId st" for g st
    by (simp add: round_ids_def)
  ultimately show ?thesis using rd by (fastforce simp: kept_round_def)
qed

section \<open>Examples\<close>

lemma busy_rounds: "dom (rounds busy_casino) = {5}" "next_id busy_casino = 10"
proof -
  define s1 where "s1 = snd (credit (sample_coins 7 ''k'') False empty_casino)"
  define s2 where "s2 = snd (credit (sample_coins 8 ''l'') False s1)"
  have ok1: "casino_ok s1" and ok2: "casino_ok s2"
    using empty_casino_ok kc_credit unfolding s1_def s2_def kc.ok_def keeps_casino_def by blast+
  have c: "credit m j s = (fst (credit m j s), s') \<Longrightarrow> casino_ok s \<Longrightarrow> rounds s' = rounds s" for m j s and s' :: casino_db
    using more_tables(2) [OF move_tables [of s CREDIT m j _ s']] by (simp add: credit_def casino_ok_def)
  have "rounds empty_casino = Map.empty" by (simp add: empty_casino_def wdb.defs)
  then have "rounds s2 = Map.empty"
    using c [of "sample_coins 7 ''k''" False empty_casino s1] c [of "sample_coins 8 ''l''" False s1 s2]
      empty_casino_ok ok1 by (simp add: s1_def s2_def prod_eq_iff)
  moreover have "next_id s2 = 5" unfolding s2_def s1_def by code_simp
  moreover have "open_casino = open_db GREEDY_FOOD s2" by (simp add: open_casino_def open_db_def s2_def s1_def)
  ultimately have "rounds open_casino = (\<lambda>_. None)(5 \<mapsto> \<lparr>rd_id = 5, rd_game = GREEDY_FOOD, rd_status = BETTING,
      rd_winningOutcome = None, rd_roundNumber = roundCount s2 GREEDY_FOOD + 1\<rparr>)"
    using open_db_simps(3) [of GREEDY_FOOD s2] by metis
  then have o: "dom (rounds open_casino) = {5}" by simp
  define p1 where "p1 = snd (placeBet (sample_bet 7 ''crab'' 100) open_casino)"
  have p: "placeBet i s = (fst (placeBet i s), s') \<Longrightarrow> casino_ok s \<Longrightarrow> casino_ok s' \<and> rounds s' = rounds s" for i and s s' :: casino_db
    using placeBet_rounds(1,3) by blast
  have "casino_ok p1 \<and> rounds p1 = rounds open_casino"
    by (rule p [OF _ open_casino_ok, of "sample_bet 7 ''crab'' 100"]) (simp add: p1_def)
  then have "rounds busy_casino = rounds open_casino"
    using p [of "sample_bet 8 ''carrot'' 500" p1 busy_casino] by (simp add: busy_casino_def p1_def)
  then show "dom (rounds busy_casino) = {5}" using o by simp
  show "next_id busy_casino = 10" by code_simp
qed

text \<open>A new leader that has no rounds yet, and a follower.\<close>

definition new_leader :: world where
  "new_leader = leading_world\<lparr>inst := (inst leading_world)\<lparr>states := (\<lambda>_. None)\<rparr>\<rparr>"

definition follower :: world where
  "follower = leading_world\<lparr>inst := \<lparr>isLeader = False, leaderToken = None, release_of = None,
     states = (\<lambda>_. None), sent = []\<rparr>, red := sleep 9999 (red leading_world)\<rparr>"

lemma new_leader_ok: "loop_ok new_leader"
  using busy_casino_ok busy_rounds by (auto simp: new_leader_def loop_ok_def leading_world_def)

text \<open>Meanwhile a third client tries the lock and releases it with a token of its own.\<close>

definition meanwhile :: "redis_op list" where
  "meanwhile = [Pass 5000, Attempt LEADER_LOCK_KEY 10000, Drop_lock LEADER_LOCK_KEY 1, Pass 4999]"

theorem leader_excludes_witness:
  "\<not> fst (renewOrAcquireLeadership sound_env (follower\<lparr>red := redis_run meanwhile (red leading_world)\<rparr>))"
proof -
  have "renewOrAcquireLeadership sound_env leading_world = (True, leading_world)"
    by (simp add: renewOrAcquireLeadership_def leading_world_def sound_env_def extend_lock_def extend_script_def
        live_def LEADER_LOCK_TTL_MS_def)
  moreover have "well_led leading_world" by (simp add: well_led_def leading_world_def)
  moreover have "elapsed meanwhile < LEADER_LOCK_TTL_MS" "list_all (unresigned (leaderToken (inst leading_world))) meanwhile"
    by (simp_all add: meanwhile_def elapsed_def LEADER_LOCK_TTL_MS_def leading_world_def)
  moreover have "\<not> isLeader (inst follower)" by (simp add: follower_def)
  ultimately show ?thesis
    using leader_excludes [of sound_env leading_world leading_world "follower\<lparr>red := redis_run meanwhile (red leading_world)\<rparr>"
        meanwhile sound_env]
    by simp
qed

theorem loop_invariant_witness:
  "\<exists>st. states (inst (snd (tickGame sound_env LUCKY_FRUIT new_leader))) LUCKY_FRUIT = Some st \<and>
     rs_winningOutcome st = None"
proof -
  let ?w = "snd (tickGame sound_env LUCKY_FRUIT new_leader)"
  have "case states (inst ?w) LUCKY_FRUIT of None \<Rightarrow> False | Some st \<Rightarrow> rs_phase st = Betting" by code_simp
  then obtain st where st: "states (inst ?w) LUCKY_FRUIT = Some st" "rs_phase st = Betting"
    by (auto split: option.splits)
  have "runs_to new_leader ?w" by (rule go [OF stay tick])
  moreover have "casino_ok (db new_leader)" "\<forall>rid \<in> dom (rounds (db new_leader)). rid < next_id (db new_leader)"
    using new_leader_ok by (simp_all add: loop_ok_def)
  moreover have "states (inst new_leader) g = None" for g by (simp add: new_leader_def)
  ultimately show ?thesis using loop_invariant [of new_leader ?w LUCKY_FRUIT st] st by blast
qed

theorem abandoned_round_is_stuck_witness:
  "rounds (db (snd (tickGame sound_env GREEDY_FOOD new_leader))) 5 = rounds busy_casino 5"
proof -
  have "5 \<in> dom (rounds busy_casino)" using busy_rounds by simp
  then obtain r where r: "rounds busy_casino 5 = Some r" by auto
  then have "rounds (db new_leader) 5 = Some r" by (simp add: new_leader_def leading_world_def)
  moreover have "runs_to new_leader (snd (tickGame sound_env GREEDY_FOOD new_leader))" by (rule go [OF stay tick])
  moreover have "states (inst new_leader) g = None" for g by (simp add: new_leader_def)
  ultimately show ?thesis using abandoned_round_is_stuck [OF _ new_leader_ok] r by fastforce
qed

end
