(* ===== verification/CasinoGateway.thy ===== *)
theory CasinoGateway
  imports CasinoRounds
begin

text \<open>
  The bet handler of src/modules/casino/gateway/casino.gateway.ts: the check of the wire payload,
  the call of the casino service with the phase this instance holds in memory, and the replies.
  A field of the payload that is missing or has the wrong type is \<open>None\<close>; amounts are integers (a
  fraction is no chip). \<open>pool_ok\<close> says whether the read of the pool after the bet goes through.
\<close>

section \<open>Handlers\<close>

record bet_body =
  bb_roundId :: "nat option"
  bb_item :: "string option"
  bb_symbol :: "string option"
  bb_amount :: "int option"
  bb_clientBetId :: "string option"

datatype reply =
    BetPlaced string int int "nat option"
  | PoolReply "(string \<times> int) list"
  | ErrorReply string
  | HistoryReply "win_entry list"

definition validateBetPayload :: "bet_body \<Rightarrow> string + (nat \<times> string \<times> int \<times> string)" where
  "validateBetPayload body =
     (case bb_roundId body of
        None \<Rightarrow> Inl ''A roundId is required to place a bet.''
      | Some rid \<Rightarrow>
          (case (case bb_item body of Some i \<Rightarrow> Some i | None \<Rightarrow> bb_symbol body) of
             None \<Rightarrow> Inl ''A bet item/symbol is required.''
           | Some item \<Rightarrow>
               if item = '''' then Inl ''A bet item/symbol is required.''
               else (case bb_amount body of
                       None \<Rightarrow> Inl ''Invalid chip/bet amount''
                     | Some amount \<Rightarrow>
                         if amount \<le> 0 then Inl ''Invalid chip/bet amount''
                         else (case bb_clientBetId body of
                                 None \<Rightarrow> Inl ''A clientBetId is required to place a bet.''
                               | Some cb \<Rightarrow>
                                   if cb = '''' then Inl ''A clientBetId is required to place a bet.''
                                   else Inr (rid, item, amount, cb)))))"

definition seedPool :: "game \<Rightarrow> (string \<times> int) list" where
  "seedPool g = map (\<lambda>k. (k, 0)) (if g = GREEDY_FOOD then GREEDY_ITEMS else LUCKY_OUTCOMES)"

definition currentPoolBets :: "game \<Rightarrow> nat \<Rightarrow> world \<Rightarrow> (string \<times> int) list" where
  "currentPoolBets g rid w = pool_of (seedPool g) (listPlacedBets rid (db w))"

definition wire_bet :: "uid \<Rightarrow> game \<Rightarrow> nat \<times> string \<times> int \<times> string \<Rightarrow> round_state option \<Rightarrow> bet_input" where
  "wire_bet u g p st =
     (case p of (rid, item, amount, cb) \<Rightarrow>
        \<lparr>i_userId = u, i_game = g, i_roundId = rid, i_item = item, i_amount = amount,
         i_activeRoundId = (case st of None \<Rightarrow> None | Some s \<Rightarrow> rs_roundId s),
         i_phase = (case st of None \<Rightarrow> Betting | Some s \<Rightarrow> rs_phase s), i_clientBetId = cb\<rparr>)"

definition error_message :: "err \<Rightarrow> string" where
  "error_message e = (case e of CasinoError m \<Rightarrow> m | _ \<Rightarrow> ''Internal transaction failed'')"

definition handleBet :: "uid \<Rightarrow> game \<Rightarrow> bet_body \<Rightarrow> bool \<Rightarrow> world \<Rightarrow> reply list \<times> world" where
  "handleBet u g body pool_ok w =
     (case validateBetPayload body of
        Inl msg \<Rightarrow> ([ErrorReply msg], w)
      | Inr (rid, item, amount, cb) \<Rightarrow>
          (let st = getState g w
           in case on_db (placeBet (wire_bet u g (rid, item, amount, cb) st)) w of
                (Inl e, w') \<Rightarrow> ([ErrorReply (error_message e)], w')
              | (Inr (bal, bid), w') \<Rightarrow>
                  (BetPlaced item amount bal (if g = LUCKY_FRUIT then Some rid else None) #
                   (if pool_ok
                    then [PoolReply (currentPoolBets g
                            (case st of Some s \<Rightarrow> (case rs_roundId s of Some r \<Rightarrow> r | None \<Rightarrow> rid) | None \<Rightarrow> rid) w')]
                    else [ErrorReply ''Internal transaction failed'']), w')))"

definition handleHistory :: "uid \<Rightarrow> game \<Rightarrow> world \<Rightarrow> reply" where
  "handleHistory u g w = HistoryReply (getWinHistory u g (db w))"

section \<open>The pool\<close>

lemma add_pool_lookup:
  "map_of (add_pool k a xs) j = (if j = k then Some (a + (case map_of xs k of None \<Rightarrow> 0 | Some b \<Rightarrow> b)) else map_of xs j)"
  by (induction xs) auto

definition staked :: "string \<Rightarrow> bet list \<Rightarrow> int" where
  "staked item bs = sum_list (map (\<lambda>b. if b_item b = item then toNumber (b_amount b) else 0) bs)"

lemma pool_lookup:
  "map_of (pool_of seed bs) item =
     (if map_of seed item = None \<and> (\<forall>b \<in> set bs. b_item b \<noteq> item) then None
      else Some ((case map_of seed item of None \<Rightarrow> 0 | Some b \<Rightarrow> b) + staked item bs))"
proof (induction bs arbitrary: seed)
  case Nil
  show ?case by (cases "map_of seed item") (auto simp: pool_of_def staked_def)
next
  case (Cons b bs)
  have "pool_of seed (b # bs) = pool_of (add_pool (b_item b) (toNumber (b_amount b)) seed) bs"
    by (simp add: pool_of_def)
  then show ?case
    using Cons [of "add_pool (b_item b) (toNumber (b_amount b)) seed"]
    by (auto simp: add_pool_lookup staked_def split: option.split)
qed

text \<open>
  The pool that is broadcast lists every outcome of the game and every item bet on, each with
  the sum of all stakes placed on it in the round.
\<close>

theorem pool_totals:
  "map_of (currentPoolBets g rid w) item =
     (if item \<in> set (outcomes_of g) \<union> b_item ` set (listPlacedBets rid (db w))
      then Some (staked item (listPlacedBets rid (db w))) else None)"
proof -
  have "map_of (seedPool g) item = (if item \<in> set (outcomes_of g) then Some 0 else None)"
    unfolding seedPool_def outcomes_of_def by (simp add: map_of_map_restrict [of "\<lambda>_. 0"])
  then show ?thesis by (auto simp: currentPoolBets_def pool_lookup)
qed

lemma validate_Inr:
  "validateBetPayload body = Inr (rid, item, amount, cb) \<Longrightarrow>
     bb_roundId body = Some rid \<and> bb_clientBetId body = Some cb \<and> 0 < amount"
  unfolding validateBetPayload_def by (simp split: option.splits if_splits)

text \<open>
  A bet is acknowledged only on an instance whose own state has the round in betting and whose
  table has it as BETTING; the acknowledged bet is then on record under its tap, and the pool that
  is broadcast is that of the round after the bet.
\<close>

theorem acknowledged_bet_is_recorded:
  assumes ok: "casino_ok (db w)" and run: "handleBet u g body pool_ok w = (rs, w')"
    and ack: "BetPlaced item amount bal r \<in> set rs"
  shows "\<exists>rid cb st row b. bb_roundId body = Some rid \<and> bb_clientBetId body = Some cb \<and>
    getState g w = Some st \<and> rs_phase st = Betting \<and> rs_roundId st = Some rid \<and>
    rounds (db w) rid = Some row \<and> rd_status row = BETTING \<and>
    b \<in> set (bets (db w')) \<and> tap b = (rid, u, cb) \<and>
    (pool_ok \<longrightarrow> PoolReply (currentPoolBets g rid w') \<in> set rs)"
proof -
  obtain q where v: "validateBetPayload body = Inr q"
    using run ack by (cases "validateBetPayload body") (auto simp: handleBet_def)
  obtain rid item' amount' cb where q: "q = (rid, item', amount', cb)" by (cases q)
  have b: "bb_roundId body = Some rid" "bb_clientBetId body = Some cb"
    using validate_Inr v q by simp_all
  let ?i = "wire_bet u g q (getState g w)"
  obtain x d' where p: "placeBet ?i (db w) = (x, d')" by fastforce
  obtain bal' bid where x: "x = Inr (bal', bid)" and w': "w' = w\<lparr>db := d'\<rparr>"
    and rs: "pool_ok \<Longrightarrow> PoolReply (currentPoolBets g
       (case getState g w of Some s \<Rightarrow> (case rs_roundId s of Some r \<Rightarrow> r | None \<Rightarrow> rid) | None \<Rightarrow> rid) w') \<in> set rs"
    using run ack v p q
    by (cases x) (auto simp: handleBet_def Let_def on_db_def split: if_splits)
  have pl: "placeBet ?i (db w) = (Inr (bal', bid), d')" using p x by simp
  then have "i_phase ?i = Betting \<and> i_activeRoundId ?i = Some rid \<and> \<not> bet_locked (db w) ?i"
    by (elim placeBet_Inr) (simp add: wire_bet_def q)
  then obtain st row where st: "getState g w = Some st" "rs_phase st = Betting" "rs_roundId st = Some rid"
    and row: "rounds (db w) rid = Some row" "rd_status row = BETTING"
    by (auto simp: wire_bet_def q bet_locked_def split: option.splits)
  obtain t where t: "t \<in> set (bets d')" "tap t = (rid, u, cb)"
    using placeBet_spec [OF ok pl, of u GOLD] by (auto simp: wire_bet_def q)
  then have "t \<in> set (bets (db w'))" by (simp add: w')
  then show ?thesis using b st row t(2) rs by (auto simp: st)
qed

text \<open>
  An instance that has never led a game holds no state for it and turns every bet away,
  without touching the database: only clients connected to the leading instance can bet.
\<close>

theorem follower_rejects_bets:
  assumes "getState g w = None"
  shows "\<exists>msg. handleBet u g body pool_ok w = ([ErrorReply msg], w)"
  using assms
  by (auto simp: handleBet_def on_db_def placeBet_def bindA_def guardA_def wire_bet_def split: sum.split)

definition sample_body :: bet_body where
  "sample_body = \<lparr>bb_roundId = Some 5, bb_item = Some ''crab'', bb_symbol = None, bb_amount = Some 100,
     bb_clientBetId = Some ''new''\<rparr>"

theorem acknowledged_bet_is_recorded_witness:
  "\<exists>b. b \<in> set (bets (db (snd (handleBet 7 GREEDY_FOOD sample_body True leading_world)))) \<and> tap b = (5, 7, ''new'')"
proof -
  let ?r = "handleBet 7 GREEDY_FOOD sample_body True leading_world"
  have "case fst ?r of BetPlaced i a bal rid # _ \<Rightarrow> i = ''crab'' | _ \<Rightarrow> False" by code_simp
  then obtain a bal rid where ack: "BetPlaced ''crab'' a bal rid \<in> set (fst ?r)"
    by (auto split: list.splits reply.splits)
  have "casino_ok (db leading_world)" by (simp add: leading_world_def busy_casino_ok)
  from acknowledged_bet_is_recorded [OF this surjective_pairing ack]
  show ?thesis by (auto simp: sample_body_def)
qed

theorem follower_rejects_bets_witness:
  "\<exists>msg. handleBet 7 GREEDY_FOOD sample_body True follower = ([ErrorReply msg], follower)"
  by (rule follower_rejects_bets) (simp add: getState_def follower_def)

end
