(* ===== verification/LuckyPackets.thy ===== *)
theory LuckyPackets
  imports WalletRuns
begin

text \<open>
  Lucky packets (src/modules/lucky-packets): a room manager funds a packet of coins with a number of
  winner slots; members claim shares computed by the server; what is left at the deadline goes back
  to the creator. The tables extend the wallet database; \<open>room_env\<close> is what the audio-room service
  answers for the acting user, \<open>now\<close> is \<open>Date.now()\<close> in milliseconds, and \<open>draw\<close> stands for
  \<open>randomInt(1, upper + 1)\<close>. Each claim and each refund is one critical section of the packet's lock.
\<close>

section \<open>Tables\<close>

datatype distribution = RANDOM | FIXED

datatype packet_status = ACTIVE_PACKET | COMPLETED | EXPIRED | REFUNDED_PACKET

datatype member_role = OWNER | ADMIN | SPEAKER | AUDIENCE | PREMIUM_ADMIN | LISTENER

record packet =
  pk_id :: nat
  pk_roomId :: nat
  pk_creatorId :: uid
  pk_currency :: currency
  pk_totalCoins :: int
  pk_winnerCount :: int
  pk_distribution :: distribution
  pk_message :: "string option"
  pk_status :: packet_status
  pk_remainingCoins :: int
  pk_remainingSlots :: int
  pk_debitTxnId :: "nat option"
  pk_expiresAt :: int
  pk_completedAt :: "int option"
  pk_createdAt :: int

record claim =
  cl_id :: nat
  cl_packetId :: nat
  cl_roomId :: nat
  cl_userId :: uid
  cl_amount :: int
  cl_walletTxnId :: "nat option"
  cl_createdAt :: int

datatype lucky_event =
    PacketCreated nat nat uid currency int int distribution "string option" int int
  | PacketClaimed nat nat uid int int int int int
  | PacketCompleted nat nat int
  | PacketExpired nat nat int int

record packet_db = wdb +
  packets :: "packet list"
  claims :: "claim list"
  packet_bus :: "lucky_event list"

record room_env =
  re_role :: "member_role option"
  re_live :: bool
  re_member :: bool

section \<open>Shares\<close>

text \<open>
  The two divisions of the code are followed by \<open>Math.floor\<close>; with at most ten million coins and 200
  winners the quotient in double precision has the floor of the exact one.
\<close>

definition computeClaimAmount :: "distribution \<Rightarrow> int \<Rightarrow> int \<Rightarrow> int \<Rightarrow> int \<Rightarrow> (int \<Rightarrow> int) \<Rightarrow> int" where
  "computeClaimAmount dst totalCoins winnerCount remainingCoins remainingSlots draw =
     (if remainingSlots \<le> 1 then remainingCoins
      else if dst = FIXED
      then (let base = totalCoins div winnerCount;
                remainder = totalCoins - base * winnerCount;
                slotIndex = winnerCount - remainingSlots
            in base + (if slotIndex < remainder then 1 else 0))
      else (let reserveCap = remainingCoins - (remainingSlots - 1);
                doubleAverage = max 1 (remainingCoins * 2 div remainingSlots);
                upper = max 1 (min reserveCap doubleAverage)
            in draw upper))"

section \<open>Repository\<close>

definition create_packet :: "packet \<Rightarrow> ('z packet_db_scheme, packet) act" where
  "create_packet p s =
     (let q = p\<lparr>pk_id := next_id s, pk_status := ACTIVE_PACKET, pk_remainingCoins := pk_totalCoins p,
                pk_remainingSlots := pk_winnerCount p, pk_completedAt := None\<rparr>
      in (Inr q, s\<lparr>packets := packets s @ [q], next_id := Suc (next_id s)\<rparr>))"

definition findById :: "nat \<Rightarrow> ('z packet_db_scheme) \<Rightarrow> packet option" where
  "findById i s = List.find (\<lambda>p. pk_id p = i) (packets s)"

definition findActiveByRoom :: "nat \<Rightarrow> ('z packet_db_scheme) \<Rightarrow> packet list" where
  "findActiveByRoom room s =
     sort_key (\<lambda>p. - pk_createdAt p) (filter (\<lambda>p. pk_roomId p = room \<and> pk_status p = ACTIVE_PACKET) (packets s))"

definition countClaims :: "nat \<Rightarrow> ('z packet_db_scheme) \<Rightarrow> nat" where
  "countClaims i s = length (filter (\<lambda>c. cl_packetId c = i) (claims s))"

definition findClaim :: "nat \<Rightarrow> uid \<Rightarrow> ('z packet_db_scheme) \<Rightarrow> claim option" where
  "findClaim i u s = List.find (\<lambda>c. cl_packetId c = i \<and> cl_userId c = u) (claims s)"

definition update_packet :: "nat \<Rightarrow> (packet \<Rightarrow> packet) \<Rightarrow> ('z packet_db_scheme) \<Rightarrow> ('z packet_db_scheme)" where
  "update_packet i f s = s\<lparr>packets := map (\<lambda>p. if pk_id p = i then f p else p) (packets s)\<rparr>"

definition taken :: "int \<Rightarrow> bool \<Rightarrow> int \<Rightarrow> packet \<Rightarrow> packet" where
  "taken amount last_slot now p =
     (let q = p\<lparr>pk_remainingCoins := pk_remainingCoins p - amount, pk_remainingSlots := pk_remainingSlots p - 1\<rparr>
      in if last_slot then q\<lparr>pk_status := COMPLETED, pk_completedAt := Some now\<rparr> else q)"

text \<open>The \<open>$transaction\<close> of the insert and the decrement: the unique (packet, user) pair aborts both.\<close>

definition applyClaim ::
  "nat \<Rightarrow> nat \<Rightarrow> uid \<Rightarrow> int \<Rightarrow> bool \<Rightarrow> int \<Rightarrow> ('z packet_db_scheme, claim \<times> packet) act" where
  "applyClaim i room u amount last_slot now s =
     (if findClaim i u s \<noteq> None then (Inl P2002, s)
      else case findById i s of
        None \<Rightarrow> (Inl (OtherError ''P2025''), s)
      | Some p \<Rightarrow>
          (let c = \<lparr>cl_id = next_id s, cl_packetId = i, cl_roomId = room, cl_userId = u, cl_amount = amount,
                    cl_walletTxnId = None, cl_createdAt = now\<rparr>
           in (Inr (c, taken amount last_slot now p),
               (update_packet i (taken amount last_slot now) s)
                 \<lparr>claims := claims s @ [c], next_id := Suc (next_id s)\<rparr>)))"

definition setClaimTxn :: "nat \<Rightarrow> nat \<Rightarrow> ('z packet_db_scheme, unit) act" where
  "setClaimTxn i t s =
     (if i \<notin> cl_id ` set (claims s) then (Inl (OtherError ''P2025''), s)
      else (Inr (), s\<lparr>claims := map (\<lambda>c. if cl_id c = i then c\<lparr>cl_walletTxnId := Some t\<rparr> else c) (claims s)\<rparr>))"

definition listClaims :: "nat \<Rightarrow> nat \<Rightarrow> nat \<Rightarrow> uid option \<Rightarrow> ('z packet_db_scheme) \<Rightarrow> claim list \<times> nat" where
  "listClaims i skip n u s =
     (let cs = filter (\<lambda>c. cl_packetId c = i \<and> (case u of None \<Rightarrow> True | Some v \<Rightarrow> cl_userId c = v)) (claims s)
      in (take n (drop skip (sort_key (\<lambda>c. - cl_amount c) cs)), length cs))"

definition listHistory :: "nat \<Rightarrow> nat \<Rightarrow> nat \<Rightarrow> ('z packet_db_scheme) \<Rightarrow> packet list \<times> nat" where
  "listHistory room skip n s =
     (let ps = filter (\<lambda>p. pk_roomId p = room) (packets s)
      in (take n (drop skip (sort_key (\<lambda>p. - pk_createdAt p) ps)), length ps))"

definition findExpired :: "int \<Rightarrow> nat \<Rightarrow> ('z packet_db_scheme) \<Rightarrow> packet list" where
  "findExpired now limit s =
     take limit (sort_key pk_expiresAt (filter (\<lambda>p. pk_status p = ACTIVE_PACKET \<and> pk_expiresAt p \<le> now) (packets s)))"

definition markStatus :: "nat \<Rightarrow> packet_status \<Rightarrow> int \<Rightarrow> ('z packet_db_scheme, unit) act" where
  "markStatus i st now s =
     (if findById i s = None then (Inl (OtherError ''P2025''), s)
      else (Inr (), update_packet i (\<lambda>p. p\<lparr>pk_status := st, pk_completedAt := Some now\<rparr>) s))"

definition publish_packet :: "lucky_event \<Rightarrow> ('z packet_db_scheme, unit) act" where
  "publish_packet e = modifyA (\<lambda>s. s\<lparr>packet_bus := packet_bus s @ [e]\<rparr>)"

section \<open>Creating a packet\<close>

record create_dto =
  cd_totalCoins :: int
  cd_winnerCount :: int
  cd_distribution :: distribution
  cd_currency :: "currency option"
  cd_message :: "string option"
  cd_expiresInSeconds :: int
  cd_idempotencyKey :: "string option"

text \<open>What the validation of \<open>CreateLuckyPacketDto\<close> lets through.\<close>

definition valid_create :: "create_dto \<Rightarrow> bool" where
  "valid_create dto \<longleftrightarrow> cd_totalCoins dto \<in> {1..10000000} \<and> cd_winnerCount dto \<in> {1..200} \<and>
     cd_expiresInSeconds dto \<in> {30..86400} \<and>
     (case cd_message dto of None \<Rightarrow> True | Some m \<Rightarrow> length m \<in> {1..120}) \<and>
     (case cd_idempotencyKey dto of None \<Rightarrow> True | Some k \<Rightarrow> length k \<in> {8..100})"

definition MANAGER_ROLES :: "member_role list" where
  "MANAGER_ROLES = [OWNER, ADMIN, PREMIUM_ADMIN]"

definition assertManager :: "room_env \<Rightarrow> ('z packet_db_scheme, unit) act" where
  "assertManager env = guardA (case re_role env of None \<Rightarrow> False | Some r \<Rightarrow> r \<in> set MANAGER_ROLES)
     (Business ''LUCKY_PACKET_NOT_AUTHORIZED'')"

definition create_key :: "uid \<Rightarrow> nat \<Rightarrow> create_dto \<Rightarrow> int \<Rightarrow> string" where
  "create_key u room dto now =
     (case cd_idempotencyKey dto of
        Some k \<Rightarrow> ''lucky:create:'' @ show_nat u @ CHR '':'' # k
      | None \<Rightarrow> ''lucky:create:'' @ show_nat u @ CHR '':'' # show_nat room @ CHR '':'' #
          show_nat (nat (cd_totalCoins dto)) @ CHR '':'' # show_nat (nat (cd_winnerCount dto)) @ CHR '':'' #
          show_nat (nat now))"

definition create_movement :: "uid \<Rightarrow> nat \<Rightarrow> create_dto \<Rightarrow> int \<Rightarrow> movement" where
  "create_movement u room dto now =
     \<lparr>m_userId = u, m_currency = or_gold (cd_currency dto), m_amount = of_int (cd_totalCoins dto),
      m_reason = LUCKY_PACKET_CREATE, m_key = create_key u room dto now,
      m_referenceType = Some ''lucky_packet'', m_referenceId = None, m_actorId = None\<rparr>"

definition draft_packet :: "uid \<Rightarrow> nat \<Rightarrow> create_dto \<Rightarrow> int \<Rightarrow> nat \<Rightarrow> packet" where
  "draft_packet u room dto now txn =
     \<lparr>pk_id = 0, pk_roomId = room, pk_creatorId = u, pk_currency = or_gold (cd_currency dto),
      pk_totalCoins = cd_totalCoins dto, pk_winnerCount = cd_winnerCount dto,
      pk_distribution = cd_distribution dto, pk_message = cd_message dto, pk_status = ACTIVE_PACKET,
      pk_remainingCoins = cd_totalCoins dto, pk_remainingSlots = cd_winnerCount dto,
      pk_debitTxnId = Some txn, pk_expiresAt = now + cd_expiresInSeconds dto * 1000,
      pk_completedAt = None, pk_createdAt = now\<rparr>"

text \<open>What the endpoints answer of a packet.\<close>

record packet_view =
  pv_packet :: packet
  pv_claimedCount :: int

definition packetView :: "packet \<Rightarrow> int \<Rightarrow> packet_view" where
  "packetView p n =
     \<lparr>pv_packet = p\<lparr>pk_totalCoins := toNumber (pk_totalCoins p), pk_remainingCoins := toNumber (pk_remainingCoins p)\<rparr>,
      pv_claimedCount = n\<rparr>"

definition create :: "room_env \<Rightarrow> uid \<Rightarrow> nat \<Rightarrow> create_dto \<Rightarrow> int \<Rightarrow> ('z packet_db_scheme, packet_view) act" where
  "create env u room dto now =
     bindA (assertManager env) (\<lambda>_.
     bindA (guardA (re_live env) (Business ''ROOM_ENDED'')) (\<lambda>_.
     bindA (guardA (\<not> cd_totalCoins dto < cd_winnerCount dto) (Business ''LUCKY_PACKET_INVALID_PARAMS'')) (\<lambda>_.
     bindA (debit (create_movement u room dto now) False) (\<lambda>d.
     bindA (create_packet (draft_packet u room dto now (mr_transactionId d))) (\<lambda>p.
     bindA (publish_packet (PacketCreated room (pk_id p) u (pk_currency p) (cd_totalCoins dto) (cd_winnerCount dto)
              (cd_distribution dto) (pk_message p) (pk_expiresAt p) (pk_createdAt p))) (\<lambda>_.
     returnA (packetView p 0)))))))"

section \<open>Claiming\<close>

record claim_result =
  cr_packetId :: nat
  cr_amount :: int
  cr_currency :: currency
  cr_balanceAfter :: int
  cr_remainingSlots :: int
  cr_remainingCoins :: int
  cr_completed :: bool

definition claim_key :: "nat \<Rightarrow> uid \<Rightarrow> string" where
  "claim_key pid u = ''lucky:claim:'' @ show_nat pid @ CHR '':'' # show_nat u"

definition claim_movement :: "packet \<Rightarrow> uid \<Rightarrow> int \<Rightarrow> movement" where
  "claim_movement p u amount =
     \<lparr>m_userId = u, m_currency = pk_currency p, m_amount = of_int amount, m_reason = LUCKY_PACKET_CLAIM,
      m_key = claim_key (pk_id p) u, m_referenceType = Some ''lucky_packet'',
      m_referenceId = Some (show_nat (pk_id p)), m_actorId = None\<rparr>"

definition claimable :: "nat \<Rightarrow> nat \<Rightarrow> int \<Rightarrow> ('z packet_db_scheme, packet) act" where
  "claimable room pid now s =
     (case findById pid s of
        None \<Rightarrow> (Inl (Business ''LUCKY_PACKET_NOT_FOUND''), s)
      | Some p \<Rightarrow>
          if pk_roomId p \<noteq> room then (Inl (Business ''LUCKY_PACKET_NOT_FOUND''), s)
          else if pk_status p = EXPIRED \<or> pk_status p = REFUNDED_PACKET
          then (Inl (Business ''LUCKY_PACKET_EXPIRED''), s)
          else if pk_status p \<noteq> ACTIVE_PACKET \<or> pk_remainingSlots p \<le> 0
          then (Inl (Business ''LUCKY_PACKET_EXHAUSTED''), s)
          else if pk_expiresAt p \<le> now then (Inl (Business ''LUCKY_PACKET_EXPIRED''), s)
          else (Inr p, s))"

definition share_of :: "(int \<Rightarrow> int) \<Rightarrow> packet \<Rightarrow> int" where
  "share_of draw p = computeClaimAmount (pk_distribution p) (toNumber (pk_totalCoins p)) (pk_winnerCount p)
     (toNumber (pk_remainingCoins p)) (pk_remainingSlots p) draw"

definition settle_claim :: "nat \<Rightarrow> packet \<Rightarrow> uid \<Rightarrow> int \<Rightarrow> claim \<times> packet \<Rightarrow> ('z packet_db_scheme, claim_result) act" where
  "settle_claim room p u amount applied =
     (case applied of (c, q) \<Rightarrow>
        bindA (credit (claim_movement p u amount) False) (\<lambda>cr.
        bindA (setClaimTxn (cl_id c) (mr_transactionId cr)) (\<lambda>_.
        (let count = pk_winnerCount p - pk_remainingSlots q
         in bindA (publish_packet (PacketClaimed room (pk_id p) u amount count (pk_winnerCount p)
                     (toNumber (pk_remainingCoins q)) (pk_remainingSlots q))) (\<lambda>_.
            bindA (if pk_status q = COMPLETED then publish_packet (PacketCompleted room (pk_id p) count)
                   else returnA ()) (\<lambda>_.
            returnA \<lparr>cr_packetId = pk_id p, cr_amount = amount, cr_currency = pk_currency p,
                     cr_balanceAfter = mr_balanceAfter cr, cr_remainingSlots = pk_remainingSlots q,
                     cr_remainingCoins = toNumber (pk_remainingCoins q),
                     cr_completed = (pk_status q = COMPLETED)\<rparr>))))))"

definition claim_packet ::
  "room_env \<Rightarrow> uid \<Rightarrow> nat \<Rightarrow> nat \<Rightarrow> int \<Rightarrow> (int \<Rightarrow> int) \<Rightarrow> ('z packet_db_scheme, claim_result) act" where
  "claim_packet env u room pid now draw =
     bindA (guardA (re_member env) (Business ''NOT_ROOM_MEMBER'')) (\<lambda>_.
     bindA (claimable room pid now) (\<lambda>p.
     (let amount = share_of draw p
      in bindA (catchA (applyClaim pid room u amount (pk_remainingSlots p \<le> 1) now)
                 (\<lambda>e. throwA (if e = P2002 then Business ''LUCKY_PACKET_ALREADY_CLAIMED'' else e))) (\<lambda>applied.
         settle_claim room p u amount applied))))"

section \<open>Expiry\<close>

definition refund_key :: "nat \<Rightarrow> string" where
  "refund_key pid = ''lucky:refund:'' @ show_nat pid"

definition packet_refund :: "packet \<Rightarrow> movement" where
  "packet_refund p =
     \<lparr>m_userId = pk_creatorId p, m_currency = pk_currency p, m_amount = of_int (toNumber (pk_remainingCoins p)),
      m_reason = LUCKY_PACKET_REFUND, m_key = refund_key (pk_id p), m_referenceType = Some ''lucky_packet'',
      m_referenceId = Some (show_nat (pk_id p)), m_actorId = None\<rparr>"

definition refund_fresh :: "int \<Rightarrow> packet \<Rightarrow> ('z packet_db_scheme, unit) act" where
  "refund_fresh now p =
     (let remaining = toNumber (pk_remainingCoins p); count = pk_winnerCount p - pk_remainingSlots p
      in bindA (if remaining > 0 then bindA (credit (packet_refund p) False) (\<lambda>_. returnA ()) else returnA ()) (\<lambda>_.
         bindA (markStatus (pk_id p) (if remaining > 0 then REFUNDED_PACKET else EXPIRED) now) (\<lambda>_.
         publish_packet (PacketExpired (pk_roomId p) (pk_id p) remaining count))))"

definition refund_one :: "int \<Rightarrow> packet \<Rightarrow> ('z packet_db_scheme, unit) act" where
  "refund_one now packet =
     bindA (getsA (findById (pk_id packet))) (\<lambda>fresh.
       case fresh of
         None \<Rightarrow> returnA ()
       | Some p \<Rightarrow> if pk_status p \<noteq> ACTIVE_PACKET \<or> pk_expiresAt p > now then returnA () else refund_fresh now p)"

definition refundExpired :: "int \<Rightarrow> ('z packet_db_scheme, unit) act" where
  "refundExpired now =
     bindA (getsA (findExpired now 50)) (\<lambda>expired. forA (refund_one now) expired)"

section \<open>Reads\<close>

record active_packet =
  ap_packetId :: nat
  ap_roomId :: nat
  ap_creatorId :: uid
  ap_totalCoins :: int
  ap_winnerCount :: int
  ap_remainingCoins :: int
  ap_remainingSlots :: int
  ap_claimedCount :: int
  ap_expiresAt :: int

definition toActive :: "packet \<Rightarrow> active_packet" where
  "toActive p =
     \<lparr>ap_packetId = pk_id p, ap_roomId = pk_roomId p, ap_creatorId = pk_creatorId p,
      ap_totalCoins = toNumber (pk_totalCoins p), ap_winnerCount = pk_winnerCount p,
      ap_remainingCoins = toNumber (pk_remainingCoins p), ap_remainingSlots = pk_remainingSlots p,
      ap_claimedCount = pk_winnerCount p - pk_remainingSlots p, ap_expiresAt = pk_expiresAt p\<rparr>"

definition getActivePackets :: "nat \<Rightarrow> ('z packet_db_scheme) \<Rightarrow> active_packet list" where
  "getActivePackets room s = map toActive (findActiveByRoom room s)"

definition getPacket :: "nat \<Rightarrow> nat \<Rightarrow> ('z packet_db_scheme, packet_view) act" where
  "getPacket room pid s =
     (case findById pid s of
        None \<Rightarrow> (Inl (Business ''LUCKY_PACKET_NOT_FOUND''), s)
      | Some p \<Rightarrow> if pk_roomId p \<noteq> room then (Inl (Business ''LUCKY_PACKET_NOT_FOUND''), s)
                  else (Inr (packetView p (int (countClaims pid s))), s))"

definition claim_history ::
  "nat \<Rightarrow> nat \<Rightarrow> nat \<Rightarrow> nat \<Rightarrow> uid option \<Rightarrow> ('z packet_db_scheme, (nat \<times> uid \<times> int \<times> int) list \<times> nat) act" where
  "claim_history room pid skip n u s =
     (case findById pid s of
        None \<Rightarrow> (Inl (Business ''LUCKY_PACKET_NOT_FOUND''), s)
      | Some p \<Rightarrow> if pk_roomId p \<noteq> room then (Inl (Business ''LUCKY_PACKET_NOT_FOUND''), s)
                  else (case listClaims pid skip n u s of
                          (rows, n_all) \<Rightarrow> (Inr (map (\<lambda>c. (cl_id c, cl_userId c, toNumber (cl_amount c), cl_createdAt c)) rows, n_all), s)))"

definition packet_history :: "nat \<Rightarrow> nat \<Rightarrow> nat \<Rightarrow> ('z packet_db_scheme) \<Rightarrow> packet_view list \<times> nat" where
  "packet_history room skip n s =
     (case listHistory room skip n s of
        (rows, n_all) \<Rightarrow> (map (\<lambda>p. packetView p (pk_winnerCount p - pk_remainingSlots p)) rows, n_all))"

end
