(* ===== verification/LuckyLaws.thy ===== *)
theory LuckyLaws
  imports LuckyPackets
begin

text \<open>
  What lucky packets promise: the coins of a packet are exactly its claims and its remainder, every
  share is at least one coin, a member is paid once; and where they do not keep it: a claim whose
  credit fails, a retried creation, and an expiry sweep behind a frozen creator.
\<close>

section \<open>Shares\<close>

definition good_draw :: "(int \<Rightarrow> int) \<Rightarrow> bool" where
  "good_draw draw \<longleftrightarrow> (\<forall>u. 1 \<le> u \<longrightarrow> 1 \<le> draw u \<and> draw u \<le> u)"

definition claims_of :: "nat \<Rightarrow> ('z packet_db_scheme) \<Rightarrow> claim list" where
  "claims_of i s = filter (\<lambda>c. cl_packetId c = i) (claims s)"

definition claimed :: "claim list \<Rightarrow> int" where
  "claimed cs = sum_list (map cl_amount cs)"

definition fixed_rest :: "int \<Rightarrow> int \<Rightarrow> int \<Rightarrow> int" where
  "fixed_rest tot winners slots = tot div winners * slots + max 0 (tot mod winners - (winners - slots))"

definition packet_ok :: "packet \<Rightarrow> claim list \<Rightarrow> bool" where
  "packet_ok p cs \<longleftrightarrow>
     1 \<le> pk_winnerCount p \<and> pk_winnerCount p \<le> pk_totalCoins p \<and> pk_totalCoins p \<le> 10000000 \<and>
     pk_remainingCoins p + claimed cs = pk_totalCoins p \<and>
     pk_remainingSlots p + int (length cs) = pk_winnerCount p \<and>
     0 \<le> pk_remainingSlots p \<and> pk_remainingSlots p \<le> pk_remainingCoins p \<and>
     pk_remainingCoins p \<le> pk_totalCoins p \<and> pk_remainingSlots p \<le> pk_winnerCount p \<and>
     (pk_remainingSlots p = 0 \<longrightarrow> pk_remainingCoins p = 0) \<and>
     (pk_status p = ACTIVE_PACKET \<longrightarrow> 0 < pk_remainingSlots p) \<and>
     (pk_status p = COMPLETED \<longrightarrow> pk_remainingSlots p = 0) \<and>
     (\<forall>c \<in> set cs. 1 \<le> cl_amount c) \<and>
     (pk_distribution p = FIXED \<longrightarrow>
        pk_remainingCoins p = fixed_rest (pk_totalCoins p) (pk_winnerCount p) (pk_remainingSlots p) \<and>
        (\<forall>c \<in> set cs. cl_amount c \<in> {pk_totalCoins p div pk_winnerCount p, pk_totalCoins p div pk_winnerCount p + 1}))"

text \<open>The share of a slot, on the numbers of the packet.\<close>

lemma share_bounds:
  assumes n: "1 \<le> winners" "winners \<le> tot" and s: "1 \<le> slots" "slots \<le> winners" "slots \<le> rest"
    and d: "good_draw draw" and fx: "k = FIXED \<longrightarrow> rest = fixed_rest tot winners slots"
  shows "1 \<le> computeClaimAmount k tot winners rest slots draw"
    and "slots - 1 \<le> rest - computeClaimAmount k tot winners rest slots draw"
    and "slots = 1 \<Longrightarrow> computeClaimAmount k tot winners rest slots draw = rest"
    and "k = FIXED \<Longrightarrow> rest - computeClaimAmount k tot winners rest slots draw = fixed_rest tot winners (slots - 1)"
    and "k = FIXED \<Longrightarrow> computeClaimAmount k tot winners rest slots draw \<in> {tot div winners, tot div winners + 1}"
    and "k = RANDOM \<Longrightarrow> 1 < slots \<Longrightarrow> computeClaimAmount k tot winners rest slots draw \<le> max 1 (rest * 2 div slots)"
proof -
  let ?a = "computeClaimAmount k tot winners rest slots draw" and ?b = "tot div winners" and ?r = "tot mod winners"
  have b: "1 \<le> ?b" using n by (simp add: pos_imp_zdiv_pos_iff int_one_le_iff_zero_less)
  have r: "0 \<le> ?r" "?r < winners" using n by auto
  have rem: "tot - ?b * winners = ?r" by (simp add: minus_div_mult_eq_mod)
  have fixed: "?a = ?b + (if winners - slots < ?r then 1 else 0)" if "k = FIXED" "slots \<noteq> 1"
    using that s by (simp add: computeClaimAmount_def Let_def rem)
  have fixed1: "?a = fixed_rest tot winners 1" if "k = FIXED" "slots = 1"
    using that fx by (simp add: computeClaimAmount_def)
  have rest1: "fixed_rest tot winners 1 = ?b + (if winners - 1 < ?r then 1 else 0)"
    using r by (auto simp: fixed_rest_def)
  have F: "?a = ?b + (if winners - slots < ?r then 1 else 0)" if "k = FIXED"
    using that fixed fixed1 rest1 by (cases "slots = 1") auto
  let ?u = "max 1 (min (rest - (slots - 1)) (max 1 (rest * 2 div slots)))"
  have R: "?a = draw ?u" "1 \<le> draw ?u" "draw ?u \<le> ?u" if "k = RANDOM" "1 < slots"
    using that d by (simp_all add: computeClaimAmount_def Let_def good_draw_def)
  show one: "1 \<le> ?a"
  proof (cases "k = FIXED")
    case True
    then show ?thesis using F b by simp
  next
    case False
    then have "k = RANDOM" by (cases k) auto
    then show ?thesis using R s by (cases "slots = 1") (auto simp: computeClaimAmount_def)
  qed
  show last: "slots = 1 \<Longrightarrow> ?a = rest" by (simp add: computeClaimAmount_def)
  show fr: "rest - ?a = fixed_rest tot winners (slots - 1)" if "k = FIXED"
    using F [OF that] fx that by (auto simp: fixed_rest_def algebra_simps)
  show "k = FIXED \<Longrightarrow> ?a \<in> {?b, ?b + 1}" using F by auto
  show "?a \<le> max 1 (rest * 2 div slots)" if "k = RANDOM" "1 < slots"
    using R [OF that] by linarith
  show "slots - 1 \<le> rest - ?a"
  proof (cases "k = FIXED")
    case True
    have "slots - 1 \<le> ?b * (slots - 1)" using b s by (simp add: mult_le_cancel_right1)
    also have "\<dots> \<le> fixed_rest tot winners (slots - 1)" by (simp add: fixed_rest_def)
    finally show ?thesis using fr [OF True] by simp
  next
    case False
    then have k: "k = RANDOM" by (cases k) auto
    show ?thesis
    proof (cases "slots = 1")
      case True
      then show ?thesis using last by simp
    next
      case False
      then have "1 < slots" using s by simp
      with R [OF k this] s show ?thesis by linarith
    qed
  qed
qed

section \<open>The invariant of the tables\<close>

definition packets_ok :: "('z packet_db_scheme) \<Rightarrow> bool" where
  "packets_ok s \<longleftrightarrow> wf_db s \<and> distinct (map pk_id (packets s)) \<and>
     (\<forall>p \<in> set (packets s). pk_id p < next_id s \<and> packet_ok p (claims_of (pk_id p) s)) \<and>
     (\<forall>c \<in> set (claims s). cl_packetId c < next_id s) \<and>
     distinct (map (\<lambda>c. (cl_packetId c, cl_userId c)) (claims s))"

text \<open>The wallet does not see these tables.\<close>

lemma more_packets:
  fixes s s' :: "'z packet_db_scheme"
  assumes "wdb.more s' = wdb.more s"
  shows "packets s' = packets s" "claims s' = claims s"
  using assms by (cases s rule: packet_db.cases_scheme; cases s' rule: packet_db.cases_scheme; simp)+

lemma packet_updates [simp]:
  "user_balance (s\<lparr>packets := x\<rparr>) = user_balance s" "user_balance (s\<lparr>claims := y\<rparr>) = user_balance s"
  "user_balance (s\<lparr>packet_bus := z\<rparr>) = user_balance s"
  "wf_db (s\<lparr>packets := x\<rparr>) = wf_db s" "wf_db (s\<lparr>claims := y\<rparr>) = wf_db s" "wf_db (s\<lparr>packet_bus := z\<rparr>) = wf_db s"
  "solvent (s\<lparr>packets := x\<rparr>) = solvent s" "solvent (s\<lparr>claims := y\<rparr>) = solvent s"
  "solvent (s\<lparr>packet_bus := z\<rparr>) = solvent s"
  "user_status (s\<lparr>packets := x\<rparr>) = user_status s" "user_status (s\<lparr>claims := y\<rparr>) = user_status s"
  "user_status (s\<lparr>packet_bus := z\<rparr>) = user_status s"
  "claims_of i (s\<lparr>packets := x\<rparr>) = claims_of i s" "claims_of i (s\<lparr>packet_bus := z\<rparr>) = claims_of i s"
  "claims_of i (s\<lparr>next_id := n\<rparr>) = claims_of i s"
  by (simp_all add: user_balance_def walletByUser_def wf_db_def solvent_def user_status_def claims_of_def fun_eq_iff)

lemma packets_ok_money:
  fixes s s' :: "'z packet_db_scheme"
  assumes "packets_ok s" "wf_db s'" "next_id s \<le> next_id s'" "wdb.more s' = wdb.more s"
  shows "packets_ok s'"
  using assms more_packets [OF assms(4)] unfolding packets_ok_def claims_of_def by fastforce

lemma packets_okD:
  assumes "packets_ok s"
  shows "wf_db s" "p \<in> set (packets s) \<Longrightarrow> packet_ok p (claims_of (pk_id p) s)"
    "p \<in> set (packets s) \<Longrightarrow> pk_id p < next_id s" "distinct (map pk_id (packets s))"
  using assms by (auto simp: packets_ok_def)

lemma findById_Some: "findById i s = Some p \<Longrightarrow> p \<in> set (packets s) \<and> pk_id p = i"
  by (auto simp: findById_def find_Some_iff)

lemma findById_mem:
  assumes "distinct (map pk_id (packets s))" "p \<in> set (packets s)"
  shows "findById (pk_id p) s = Some p"
proof -
  obtain q where q: "findById (pk_id p) s = Some q"
    using assms(2) by (cases "findById (pk_id p) s") (auto simp: findById_def find_None_iff)
  then have "q \<in> set (packets s)" "pk_id q = pk_id p" using findById_Some by blast+
  then show ?thesis using q assms by (metis distinct_map inj_onD)
qed

lemma findClaim_None: "findClaim i u s = None \<longleftrightarrow> (\<forall>c \<in> set (claims s). \<not> (cl_packetId c = i \<and> cl_userId c = u))"
  by (auto simp: findClaim_def find_None_iff)

interpretation kp: step_order "stable packets_ok"
  by (rule stable_order)

lemma kpI: "(\<And>s r s'. m s = (r, s') \<Longrightarrow> packets_ok s \<Longrightarrow> packets_ok s') \<Longrightarrow> kp.ok m"
  by (rule kp.okI) (auto simp: stable_def)

lemma kpD: "kp.ok m \<Longrightarrow> m s = (r, s') \<Longrightarrow> packets_ok s \<Longrightarrow> packets_ok s'"
  using kp.okD [of m s r s'] by (auto simp: stable_def)

lemma keep_move: "kp.ok (move ty m j)"
  by (rule kpI) (use move_keeps move_tables packets_ok_money packets_okD(1) in metis)

lemma keep_wallet: "kp.ok (credit m j)" "kp.ok (debit m j)"
  using keep_move [of CREDIT m j] keep_move [of DEBIT m j] by (simp_all add: credit_def debit_def)

lemma keep_publish: "kp.ok (publish_packet e)"
  by (rule kpI) (auto simp: publish_packet_def modifyA_def packets_ok_def)

lemma packet_ok_map: "(\<And>c. cl_amount (f c) = cl_amount c) \<Longrightarrow> packet_ok p (map f cs) = packet_ok p cs"
  by (simp add: packet_ok_def claimed_def comp_def)

definition with_txn :: "nat \<Rightarrow> nat \<Rightarrow> claim \<Rightarrow> claim" where
  "with_txn i t c = (if cl_id c = i then c\<lparr>cl_walletTxnId := Some t\<rparr> else c)"

lemma with_txn_sel [simp]:
  "cl_packetId (with_txn i t c) = cl_packetId c" "cl_userId (with_txn i t c) = cl_userId c"
  "cl_amount (with_txn i t c) = cl_amount c" "cl_id (with_txn i t c) = cl_id c"
  by (simp_all add: with_txn_def)

lemma setClaimTxn_eq:
  "setClaimTxn i t s = (if i \<notin> cl_id ` set (claims s) then (Inl (OtherError ''P2025''), s)
     else (Inr (), s\<lparr>claims := map (with_txn i t) (claims s)\<rparr>))"
  by (simp add: setClaimTxn_def with_txn_def [abs_def])

lemma claims_of_txn: "claims_of j (s\<lparr>claims := map (with_txn i t) cs\<rparr>) = map (with_txn i t) (claims_of j (s\<lparr>claims := cs\<rparr>))"
  by (simp add: claims_of_def filter_map comp_def)

lemma keep_setTxn: "kp.ok (setClaimTxn i t)"
  by (rule kpI) (auto simp: setClaimTxn_eq packets_ok_def claims_of_txn packet_ok_map comp_def split: if_splits)

lemma update_packet_sel [simp]:
  "packets (update_packet i f s) = map (\<lambda>p. if pk_id p = i then f p else p) (packets s)"
  "claims (update_packet i f s) = claims s" "next_id (update_packet i f s) = next_id s"
  "wf_db (update_packet i f s) = wf_db s" "user_balance (update_packet i f s) = user_balance s"
  "solvent (update_packet i f s) = solvent s" "user_status (update_packet i f s) = user_status s"
  "txns (update_packet i f s) = txns s" "claims_of j (update_packet i f s) = claims_of j s"
  by (simp_all add: update_packet_def)

lemma map_update_ids: "(\<And>p. pk_id (f p) = pk_id p) \<Longrightarrow> map pk_id (map (\<lambda>p. if pk_id p = i then f p else p) ps) = map pk_id ps"
  by (induction ps) auto

lemma packets_ok_update:
  assumes ok: "packets_ok s" and ids: "\<And>p. pk_id (f p) = pk_id p"
    and good: "\<And>p. p \<in> set (packets s) \<Longrightarrow> pk_id p = i \<Longrightarrow> packet_ok (f p) (claims_of i s)"
  shows "packets_ok (update_packet i f s)"
proof -
  have "pk_id q < next_id s \<and> packet_ok q (claims_of (pk_id q) s)"
    if "q \<in> set (packets (update_packet i f s))" for q
    using that ok ids good unfolding packets_ok_def by (fastforce split: if_splits)
  then show ?thesis
    using ok unfolding packets_ok_def by (simp add: map_update_ids [OF ids] del: map_map)
qed

lemma packet_ok_closed:
  assumes "packet_ok p cs" "st \<in> {REFUNDED_PACKET, EXPIRED}"
  shows "packet_ok (p\<lparr>pk_status := st, pk_completedAt := t\<rparr>) cs"
  using assms by (elim insertE) (simp_all add: packet_ok_def)

lemma keep_mark: "st \<in> {REFUNDED_PACKET, EXPIRED} \<Longrightarrow> kp.ok (markStatus i st now)"
proof (rule kpI)
  fix s r and s' :: "'z packet_db_scheme"
  assume st: "st \<in> {REFUNDED_PACKET, EXPIRED}" and run: "markStatus i st now s = (r, s')" and ok: "packets_ok s"
  have "packets_ok (update_packet i (\<lambda>p. p\<lparr>pk_status := st, pk_completedAt := Some now\<rparr>) s)"
    by (rule packets_ok_update [OF ok]) (use packets_okD(2) [OF ok] packet_ok_closed st in auto)
  with run ok show "packets_ok s'" by (auto simp: markStatus_def split: if_splits)
qed

lemma keep_create_packet:
  assumes "1 \<le> pk_winnerCount p" "pk_winnerCount p \<le> pk_totalCoins p" "pk_totalCoins p \<le> 10000000"
  shows "kp.ok (create_packet p)"
proof (rule kpI)
  fix s r and s' :: "'z packet_db_scheme" assume run: "create_packet p s = (r, s')" and ok: "packets_ok s"
  let ?q = "p\<lparr>pk_id := next_id s, pk_status := ACTIVE_PACKET, pk_remainingCoins := pk_totalCoins p,
    pk_remainingSlots := pk_winnerCount p, pk_completedAt := None\<rparr>"
  have s': "s' = s\<lparr>packets := packets s @ [?q], next_id := Suc (next_id s)\<rparr>"
    using run by (simp add: create_packet_def Let_def)
  have none: "claims_of (next_id s) s = []"
    using ok by (fastforce simp: packets_ok_def claims_of_def filter_empty_conv)
  have "0 \<le> pk_totalCoins p mod pk_winnerCount p" using assms by simp
  then have "packet_ok ?q []"
    using assms by (simp add: packet_ok_def claimed_def fixed_rest_def)
  moreover have "next_id s \<notin> pk_id ` set (packets s)" using ok by (auto simp: packets_ok_def)
  moreover have "wf_db (s\<lparr>next_id := Suc (next_id s)\<rparr>)" using ok wf_next by (auto simp: packets_ok_def)
  then have "wf_db s'" by (simp add: s' wf_db_def)
  ultimately show "packets_ok s'"
    using ok none by (auto simp: s' packets_ok_def claims_of_def less_Suc_eq)
qed

lemma taken_sel [simp]:
  "pk_id (taken a l now p) = pk_id p" "pk_totalCoins (taken a l now p) = pk_totalCoins p"
  "pk_winnerCount (taken a l now p) = pk_winnerCount p" "pk_distribution (taken a l now p) = pk_distribution p"
  "pk_remainingCoins (taken a l now p) = pk_remainingCoins p - a"
  "pk_remainingSlots (taken a l now p) = pk_remainingSlots p - 1"
  "pk_status (taken a l now p) = (if l then COMPLETED else pk_status p)"
  "pk_roomId (taken a l now p) = pk_roomId p" "pk_currency (taken a l now p) = pk_currency p"
  by (simp_all add: taken_def Let_def)

text \<open>One claim of a packet that is still open.\<close>

lemma share_of_ok:
  assumes p: "packet_ok p cs" and s: "1 \<le> pk_remainingSlots p" and d: "good_draw draw"
  shows "1 \<le> share_of draw p" "share_of draw p \<le> pk_remainingCoins p"
    "cl_amount c = share_of draw p \<Longrightarrow> pk_status p = ACTIVE_PACKET \<Longrightarrow>
       packet_ok (taken (share_of draw p) (pk_remainingSlots p \<le> 1) now p) (cs @ [c])"
proof -
  have n: "1 \<le> pk_winnerCount p" "pk_winnerCount p \<le> pk_totalCoins p" "pk_totalCoins p \<le> 10000000"
    "pk_remainingSlots p \<le> pk_winnerCount p" "pk_remainingSlots p \<le> pk_remainingCoins p"
    "pk_remainingCoins p \<le> pk_totalCoins p"
    "pk_distribution p = FIXED \<longrightarrow> pk_remainingCoins p = fixed_rest (pk_totalCoins p) (pk_winnerCount p) (pk_remainingSlots p)"
    using p by (simp_all add: packet_ok_def)
  have a: "share_of draw p = computeClaimAmount (pk_distribution p) (pk_totalCoins p) (pk_winnerCount p)
      (pk_remainingCoins p) (pk_remainingSlots p) draw"
    using n s by (simp add: share_of_def)
  note b = share_bounds [OF n(1,2) s n(4,5) d n(7), folded a]
  show "1 \<le> share_of draw p" by (rule b)
  show "share_of draw p \<le> pk_remainingCoins p" using b(2) s by simp
  show "packet_ok (taken (share_of draw p) (pk_remainingSlots p \<le> 1) now p) (cs @ [c])"
    if "cl_amount c = share_of draw p" "pk_status p = ACTIVE_PACKET"
    using p s b that unfolding packet_ok_def
    by (cases "pk_remainingSlots p = 1") (auto simp: claimed_def)
qed

lemma keep_applyClaim:
  assumes ok: "packets_ok s" and p: "findById pid s = Some p" "pk_status p = ACTIVE_PACKET" and d: "good_draw draw"
    and run: "applyClaim pid room u (share_of draw p) (pk_remainingSlots p \<le> 1) now s = (r, s')"
  shows "packets_ok s'"
proof (cases r)
  case (Inl e)
  then show ?thesis using run ok p by (auto simp: applyClaim_def Let_def split: if_splits)
next
  case (Inr x)
  let ?f = "taken (share_of draw p) (pk_remainingSlots p \<le> 1) now"
  let ?c = "\<lparr>cl_id = next_id s, cl_packetId = pid, cl_roomId = room, cl_userId = u,
    cl_amount = share_of draw p, cl_walletTxnId = None, cl_createdAt = now\<rparr>"
  have free: "\<forall>c \<in> set (claims s). \<not> (cl_packetId c = pid \<and> cl_userId c = u)"
    and s': "s' = (update_packet pid ?f s)\<lparr>claims := claims s @ [?c], next_id := Suc (next_id s)\<rparr>"
    using run Inr p by (simp_all add: applyClaim_def Let_def findClaim_None split: if_splits)
  have mem: "p \<in> set (packets s)" "pk_id p = pid" using findById_Some [OF p(1)] by auto
  have p_ok: "packet_ok p (claims_of pid s)" and fresh: "pid < next_id s"
    using packets_okD(2,3) [OF ok mem(1)] mem(2) by auto
  then have "1 \<le> pk_remainingSlots p" using p(2) by (simp add: packet_ok_def)
  note good = share_of_ok(3) [OF p_ok this d, of ?c now]
  have of: "claims_of i s' = (if i = pid then claims_of pid s @ [?c] else claims_of i s)" for i
    by (simp add: s' claims_of_def)
  have uniq: "q = p" if "q \<in> set (packets s)" "pk_id q = pid" for q
    using that mem packets_okD(4) [OF ok] by (metis distinct_map inj_onD)
  have rows: "pk_id q < next_id s' \<and> packet_ok q (claims_of (pk_id q) s')" if q: "q \<in> set (packets s')" for q
  proof -
    obtain q0 where q0: "q0 \<in> set (packets s)" "q = (if pk_id q0 = pid then ?f q0 else q0)"
      using q by (auto simp: s')
    show ?thesis
    proof (cases "pk_id q0 = pid")
      case True
      then have "q = ?f p" using q0 uniq by simp
      then show ?thesis using good p(2) fresh mem of [of pid] s' by simp
    next
      case False
      then show ?thesis using q0 packets_okD(2,3) [OF ok q0(1)] of [of "pk_id q0"] s' by simp
    qed
  qed
  have "wf_db s'" using wf_next [OF packets_okD(1) [OF ok]] by (simp add: s' update_packet_def wf_db_def)
  moreover have "distinct (map pk_id (packets s'))"
    using packets_okD(4) [OF ok] map_update_ids [of ?f pid "packets s"] by (simp add: s' del: map_map)
  moreover have "distinct (map (\<lambda>c. (cl_packetId c, cl_userId c)) (claims s'))"
    using ok free by (auto simp: s' packets_ok_def)
  moreover have "\<forall>c \<in> set (claims s'). cl_packetId c < next_id s'"
    using ok fresh by (auto simp: s' packets_ok_def less_Suc_eq)
  ultimately show ?thesis using rows by (simp add: packets_ok_def)
qed

lemma keep_settle: "kp.ok (settle_claim room p u amount applied)"
  unfolding settle_claim_def Let_def
  by (cases applied) (auto intro!: kp.ok_bind kp.ok_pure kp.ok_if keep_wallet keep_setTxn keep_publish)

lemma claimable_Inr:
  "claimable room pid now s = (Inr p, s') \<longleftrightarrow> s' = s \<and> findById pid s = Some p \<and> pk_roomId p = room \<and>
     pk_status p = ACTIVE_PACKET \<and> 0 < pk_remainingSlots p \<and> now < pk_expiresAt p"
  by (auto simp: claimable_def split: option.splits)

lemma claimable_state: "claimable room pid now s = (r, s') \<Longrightarrow> s' = s"
  by (auto simp: claimable_def split: option.splits if_splits)

text \<open>A run of \<open>claim_packet\<close>, step by step.\<close>

lemma claim_run:
  assumes run: "claim_packet env u room pid now draw s = (r, s')"
  obtains (refused) e where "r = Inl e" "s' = s"
  | (applied) p c q s1 where "re_member env" "claimable room pid now s = (Inr p, s)"
      "applyClaim pid room u (share_of draw p) (pk_remainingSlots p \<le> 1) now s = (Inr (c, q), s1)"
      "settle_claim room p u (share_of draw p) (c, q) s1 = (r, s')"
proof -
  obtain x s0 where cl: "claimable room pid now s = (x, s0)" by fastforce
  then have s0: "s0 = s" by (rule claimable_state)
  show thesis
  proof (cases "re_member env \<and> (\<exists>p. x = Inr p)")
    case False
    then show thesis using refused run cl s0
      by (cases x) (auto simp: claim_packet_def bindA_def guardA_def split: if_splits)
  next
    case True
    then obtain p where x: "x = Inr p" and m: "re_member env" by blast
    let ?a = "applyClaim pid room u (share_of draw p) (pk_remainingSlots p \<le> 1) now s"
    obtain y s1 where ap: "?a = (y, s1)" by fastforce
    show thesis
    proof (cases y)
      case (Inl e)
      then have "s1 = s" using ap by (auto simp: applyClaim_def Let_def split: if_splits option.splits)
      then show thesis
        using refused run cl s0 x m ap Inl
        by (auto simp: claim_packet_def bindA_def guardA_def catchA_def throwA_def Let_def)
    next
      case (Inr cq)
      obtain c q where "cq = (c, q)" by fastforce
      then show thesis
        using applied [of p c q s1] run cl s0 x m ap Inr
        by (auto simp: claim_packet_def bindA_def guardA_def catchA_def Let_def)
    qed
  qed
qed

lemma keep_claim: "good_draw draw \<Longrightarrow> kp.ok (claim_packet env u room pid now draw)"
proof (rule kpI)
  fix s r and s' :: "'z packet_db_scheme"
  assume d: "good_draw draw" and run: "claim_packet env u room pid now draw s = (r, s')" and ok: "packets_ok s"
  from run show "packets_ok s'"
  proof (cases rule: claim_run)
    case (refused e)
    then show ?thesis using ok by simp
  next
    case (applied p c q s1)
    then have "packets_ok s1" using keep_applyClaim [OF ok _ _ d applied(3)] by (simp add: claimable_Inr)
    then show ?thesis using kpD [OF keep_settle applied(4)] by simp
  qed
qed

lemma keep_create: "valid_create dto \<Longrightarrow> kp.ok (create env u room dto now)"
  unfolding create_def assertManager_def
  by (intro kp.ok_bind kp.ok_guard kp.ok_pure keep_wallet keep_create_packet keep_publish)
    (auto simp: valid_create_def draft_packet_def)

lemma keep_refunds: "kp.ok (refundExpired now)"
  unfolding refundExpired_def refund_one_def refund_fresh_def Let_def
  by (intro kp.ok_bind kp.ok_for kp.ok_option kp.ok_if kp.ok_pure keep_wallet keep_mark keep_publish) auto

lemma wf_status:
  assumes wf: "wf_db s" and w: "wallets s i = Some w"
  shows "wf_db (s\<lparr>wallets := (wallets s)(i \<mapsto> w\<lparr>w_status := st\<rparr>), audits := a\<rparr>)"
proof -
  have "w_userId w = u" if "wallet_of s u = Some i" for u using wf_index [OF wf that] w by auto
  then show ?thesis
    by (intro wf_dbI) (use w wf_index [OF wf] wf_wallet_of [OF wf] wf_w_id [OF wf] wf_w_fresh [OF wf] wf_entry [OF wf]
      wf_txn_key [OF wf] wf_txn_fresh [OF wf] in \<open>auto split: if_splits\<close>)
qed

lemma keep_status: "kp.ok (updateWalletStatus i st actor)"
proof (rule kpI)
  fix s r and s' :: "'z packet_db_scheme"
  assume run: "updateWalletStatus i st actor s = (r, s')" and ok: "packets_ok s"
  have "wf_db s' \<and> next_id s' = next_id s \<and> wdb.more s' = wdb.more s"
    using run packets_okD(1) [OF ok] wf_status [OF packets_okD(1) [OF ok]]
    by (cases "wallets s i") (auto simp: updateWalletStatus_def getWalletById_def bindA_def getsA_def throwA_def
        returnA_def putWallet_def logAudit_def)
  then show "packets_ok s'" using packets_ok_money [OF ok] by simp
qed

section \<open>Runs\<close>

text \<open>One call of the module, or of the wallet by anybody else.\<close>

datatype packet_op =
    Create room_env uid nat create_dto int
  | Claim room_env uid nat nat int "int \<Rightarrow> int"
  | Sweep int
  | Movement entry_type movement bool
  | Status nat wallet_status "uid option"

fun allowed_op :: "packet_op \<Rightarrow> bool" where
  "allowed_op (Create env u room dto now) \<longleftrightarrow> valid_create dto"
| "allowed_op (Claim env u room pid now draw) \<longleftrightarrow> good_draw draw"
| "allowed_op x \<longleftrightarrow> True"

fun packet_step :: "packet_op \<Rightarrow> ('z packet_db_scheme) \<Rightarrow> ('z packet_db_scheme)" where
  "packet_step (Create env u room dto now) s = snd (create env u room dto now s)"
| "packet_step (Claim env u room pid now draw) s = snd (claim_packet env u room pid now draw s)"
| "packet_step (Sweep now) s = snd (refundExpired now s)"
| "packet_step (Movement ty m j) s = snd (move ty m j s)"
| "packet_step (Status i st actor) s = snd (updateWalletStatus i st actor s)"

definition packet_run :: "packet_op list \<Rightarrow> ('z packet_db_scheme) \<Rightarrow> ('z packet_db_scheme)" where
  "packet_run ops s = fold packet_step ops s"

lemma kp_snd: "kp.ok m \<Longrightarrow> packets_ok s \<Longrightarrow> packets_ok (snd (m s))"
  by (simp add: kp.ok_def stable_def)

lemma packet_step_ok: "allowed_op x \<Longrightarrow> packets_ok s \<Longrightarrow> packets_ok (packet_step x s)"
  by (cases x) (auto intro!: kp_snd keep_create keep_claim keep_refunds keep_move keep_status)

lemma packet_run_ok: "list_all allowed_op ops \<Longrightarrow> packets_ok s \<Longrightarrow> packets_ok (packet_run ops s)"
  by (induction ops arbitrary: s) (auto simp: packet_run_def packet_step_ok)

lemma packets_ok_empty: "wf_db s \<Longrightarrow> packets s = [] \<Longrightarrow> claims s = [] \<Longrightarrow> packets_ok s"
  by (simp add: packets_ok_def)

end
