(* ===== verification/LuckyProperties.thy ===== *)
theory LuckyProperties
  imports LuckyLaws
begin

text \<open>
  The properties of the lucky packets, over whole runs and over single calls, with concrete runs
  that meet their hypotheses.
\<close>

section \<open>One claim\<close>

lemma movement_fields [simp]:
  "m_key (claim_movement p u a) = claim_key (pk_id p) u" "m_userId (claim_movement p u a) = u"
  "m_currency (claim_movement p u a) = pk_currency p" "m_amount (claim_movement p u a) = of_int a"
  "m_key (packet_refund p) = refund_key (pk_id p)" "m_userId (packet_refund p) = pk_creatorId p"
  "m_currency (packet_refund p) = pk_currency p" "m_amount (packet_refund p) = of_int (toNumber (pk_remainingCoins p))"
  by (simp_all add: claim_movement_def packet_refund_def)

lemma packet_keys [simp]:
  "claim_key i u = claim_key j v \<longleftrightarrow> i = j \<and> u = v" "refund_key i = refund_key j \<longleftrightarrow> i = j"
  "claim_key i u \<noteq> refund_key j"
  by (simp_all add: claim_key_def refund_key_def)

lemma applied_effect:
  assumes "applyClaim pid room u a l now s = (Inr (c, q), s1)" "findById pid s = Some p"
  shows "findClaim pid u s = None" "q = taken a l now p" "cl_id c = next_id s" "cl_packetId c = pid"
    "cl_userId c = u" "cl_amount c = a"
    "s1 = (update_packet pid (taken a l now) s)\<lparr>claims := claims s @ [c], next_id := Suc (next_id s)\<rparr>"
  using assms by (auto simp: applyClaim_def Let_def split: if_splits)

lemma applied_wallet:
  assumes "applyClaim pid room u a l now s = (Inr cq, s1)"
  shows "user_balance s1 = user_balance s" "txns s1 = txns s" "user_status s1 = user_status s" "wf_db s \<Longrightarrow> wf_db s1"
proof -
  have "\<exists>c f. s1 = (update_packet pid f s)\<lparr>claims := claims s @ [c], next_id := Suc (next_id s)\<rparr>"
    using assms by (auto simp: applyClaim_def Let_def split: if_splits option.splits)
  then obtain c f where s1: "s1 = (update_packet pid f s)\<lparr>claims := claims s @ [c], next_id := Suc (next_id s)\<rparr>"
    by blast
  show "user_balance s1 = user_balance s" "txns s1 = txns s" "user_status s1 = user_status s"
    by (simp_all add: s1 user_balance_def user_status_def walletByUser_def update_packet_def fun_eq_iff)
  show "wf_db s \<Longrightarrow> wf_db s1"
    using wf_next [of s] by (simp add: s1 update_packet_def wf_db_def)
qed

lemma settle_effect:
  assumes wf: "wf_db s1" and fresh: "txns s1 (claim_key (pk_id p) u) = None"
    and run: "settle_claim room p u a (c, q) s1 = (Inr res, s')"
  shows "user_balance s' v k = user_balance s1 v k + (if v = u \<and> k = pk_currency p then a else 0)"
    and "packets s' = packets s1" and "\<exists>t. claims s' = map (with_txn (cl_id c) t) (claims s1)"
    and "cr_amount res = a" and "cr_remainingSlots res = pk_remainingSlots q"
    and "cr_completed res = (pk_status q = COMPLETED)"
proof -
  obtain x s2 t s3 where cr: "credit (claim_movement p u a) False s1 = (Inr x, s2)"
    and st: "setClaimTxn (cl_id c) t s2 = (Inr (), s3)"
    and fin: "user_balance s' = user_balance s3" "packets s' = packets s3" "claims s' = claims s3"
      "cr_amount res = a" "cr_remainingSlots res = pk_remainingSlots q" "cr_completed res = (pk_status q = COMPLETED)"
    using run by (auto simp: settle_claim_def Let_def bindA_Inr publish_packet_def split: if_splits)
  have s3: "s3 = s2\<lparr>claims := map (with_txn (cl_id c) t) (claims s2)\<rparr>"
    using st by (auto simp: setClaimTxn_eq split: if_splits)
  have "user_balance s2 v k = user_balance s1 v k + (if v = u \<and> k = pk_currency p then a else 0)"
    using move_effect(1) [of s1 "claim_movement p u a" CREDIT False x s2 v k] wf fresh cr
    by (simp add: credit_def delta_def)
  then show "user_balance s' v k = user_balance s1 v k + (if v = u \<and> k = pk_currency p then a else 0)"
    using fin s3 by simp
  have "wdb.more s2 = wdb.more s1" using move_tables [OF wf] cr by (simp add: credit_def)
  note more_packets [OF this]
  then show "packets s' = packets s1" "\<exists>t. claims s' = map (with_txn (cl_id c) t) (claims s1)"
    using fin s3 by auto
  show "cr_amount res = a" "cr_remainingSlots res = pk_remainingSlots q" "cr_completed res = (pk_status q = COMPLETED)"
    by (rule fin)+
qed

lemma find_last: "List.find P xs = None \<Longrightarrow> P y \<Longrightarrow> List.find P (xs @ [y]) = Some y"
  by (induction xs) (auto split: if_splits)

text \<open>Once the pair (packet, user) has a claim row, every later claim throws and writes nothing.\<close>

lemma second_claim:
  assumes "\<exists>c \<in> set (claims s). cl_packetId c = pid \<and> cl_userId c = u"
  shows "\<exists>e. claim_packet env u room pid now draw s = (Inl e, s)"
proof -
  have some: "findClaim pid u s \<noteq> None" using assms by (simp add: findClaim_None)
  obtain r s' where run: "claim_packet env u room pid now draw s = (r, s')" by fastforce
  then show ?thesis
  proof (cases rule: claim_run)
    case (refused e)
    then show ?thesis using run by simp
  next
    case (applied p c q s1)
    then show ?thesis using some by (simp add: applyClaim_def)
  qed
qed

section \<open>A small room\<close>

text \<open>User 1 owns room 9, users 2 and 3 are members; user 1 starts with 1000 coins.\<close>

definition empty_packets :: packet_db where
  "empty_packets = wdb.extend init_db \<lparr>packets = [], claims = [], packet_bus = []\<rparr>"

definition owner_env :: room_env where
  "owner_env = \<lparr>re_role = Some OWNER, re_live = True, re_member = True\<rparr>"

definition coins_for :: "uid \<Rightarrow> string \<Rightarrow> movement" where
  "coins_for u key = \<lparr>m_userId = u, m_currency = GOLD, m_amount = 1000, m_reason = ADMIN_CREDIT, m_key = key,
     m_referenceType = None, m_referenceId = None, m_actorId = None\<rparr>"

definition sample_create :: "distribution \<Rightarrow> create_dto" where
  "sample_create k = \<lparr>cd_totalCoins = 100, cd_winnerCount = 3, cd_distribution = k, cd_currency = None,
     cd_message = None, cd_expiresInSeconds = 60, cd_idempotencyKey = Some ''tap-0001''\<rparr>"

definition funded :: packet_db where
  "funded = packet_run [Movement CREDIT (coins_for 1 ''k1'') False, Movement CREDIT (coins_for 2 ''k2'') False]
     empty_packets"

definition opened :: packet_db where
  "opened = packet_run [Create owner_env 1 9 (sample_create FIXED) 1000] funded"


section \<open>Properties\<close>

lemma one_claim_each:
  assumes "packets_ok s"
  shows "distinct (map cl_userId (claims_of i s))"
proof -
  have "distinct (map (\<lambda>c. (cl_packetId c, cl_userId c)) (claims_of i s))"
    using assms unfolding claims_of_def packets_ok_def by (blast intro: distinct_map_filter)
  moreover have "map (\<lambda>c. (cl_packetId c, cl_userId c)) (claims_of i s) = map (Pair i) (map cl_userId (claims_of i s))"
    by (simp add: claims_of_def)
  ultimately show ?thesis using distinct_map [of "Pair i" "map cl_userId (claims_of i s)"] by simp
qed

text \<open>
  C35: In every run of creations, claims, expiry sweeps, wallet movements and status changes from
  empty tables, each packet's remaining coins and its claims add up to what it was funded with, its
  free slots and its claims to its winner count, no user has two claims of it, every claim is at
  least one coin, a completed packet has paid out everything, and the shares of a FIXED packet
  differ by at most one coin.
\<close>

theorem packets_stay_funded:
  assumes "wf_db s" "packets s = []" "claims s = []" "list_all allowed_op ops"
    and p: "p \<in> set (packets (packet_run ops s))"
  shows "let cs = claims_of (pk_id p) (packet_run ops s) in
    pk_remainingCoins p + claimed cs = pk_totalCoins p \<and>
    pk_remainingSlots p + int (length cs) = pk_winnerCount p \<and>
    0 \<le> pk_remainingCoins p \<and> 0 \<le> pk_remainingSlots p \<and>
    distinct (map cl_userId cs) \<and> list_all (\<lambda>c. 1 \<le> cl_amount c) cs \<and>
    (pk_status p = COMPLETED \<longrightarrow> claimed cs = pk_totalCoins p) \<and>
    (pk_distribution p = FIXED \<longrightarrow> list_all (\<lambda>c. cl_amount c - pk_totalCoins p div pk_winnerCount p \<in> {0, 1}) cs)"
proof -
  have ok: "packets_ok (packet_run ops s)" using assms packet_run_ok packets_ok_empty by blast
  have "packet_ok p (claims_of (pk_id p) (packet_run ops s))" using packets_okD(2) [OF ok p] .
  then show ?thesis using one_claim_each [OF ok] by (fastforce simp: packet_ok_def Let_def list_all_iff)
qed

text \<open>
  C36: A claim that returns credits the caller's balance, in the packet's currency and nowhere else,
  with a share of at least one coin and at most what the packet holds; the packet loses exactly that
  share and one slot, the claim is on record, and every later claim of the same user throws and
  changes nothing.
\<close>

theorem claim_pays_once:
  assumes ok: "packets_ok s" and fresh: "txns s (claim_key pid u) = None" and d: "good_draw draw"
    and run: "claim_packet env u room pid now draw s = (Inr res, s')"
  shows "\<exists>p q. findById pid s = Some p \<and> findById pid s' = Some q \<and>
    1 \<le> cr_amount res \<and> cr_amount res \<le> pk_remainingCoins p \<and>
    user_balance s' = (\<lambda>v k. user_balance s v k + (if v = u \<and> k = pk_currency p then cr_amount res else 0)) \<and>
    pk_remainingCoins q = pk_remainingCoins p - cr_amount res \<and>
    pk_remainingSlots q = pk_remainingSlots p - 1 \<and>
    (cr_completed res \<longleftrightarrow> pk_status q = COMPLETED) \<and>
    map_option cl_amount (findClaim pid u s') = Some (cr_amount res) \<and>
    (\<forall>env' room' now' draw'. \<exists>e. claim_packet env' u room' pid now' draw' s' = (Inl e, s'))"
  using run
proof (cases rule: claim_run)
  case (applied p c q s1)
  have p: "findById pid s = Some p" "pk_id p = pid" and act: "0 < pk_remainingSlots p"
    using applied(2) findById_Some by (auto simp: claimable_Inr)
  note eff = applied_effect [OF applied(3) p(1)] and w = applied_wallet [OF applied(3)]
  have wf: "wf_db s1" using w(4) packets_okD(1) [OF ok] .
  have fr: "txns s1 (claim_key (pk_id p) u) = None" using fresh w(2) p by simp
  note st = settle_effect [OF wf fr applied(4)]
  have mem: "p \<in> set (packets s)" using findById_Some [OF p(1)] by simp
  have pk: "packet_ok p (claims_of pid s)" using packets_okD(2) [OF ok mem] p(2) by simp
  have share: "1 \<le> share_of draw p" "share_of draw p \<le> pk_remainingCoins p"
    using share_of_ok(1,2) [OF pk _ d] act by simp_all
  obtain t where cls: "claims s' = map (with_txn (cl_id c) t) (claims s @ [c])" using st(3) eff(7) by auto
  have rows: "packets s' = map (\<lambda>x. if pk_id x = pid then taken (share_of draw p) (pk_remainingSlots p \<le> 1) now x else x) (packets s)"
    using st(2) eff(7) by simp
  have ids: "distinct (map pk_id (packets s'))"
    using packets_okD(4) [OF ok] map_update_ids [of "taken (share_of draw p) (pk_remainingSlots p \<le> 1) now" pid "packets s"]
    by (simp add: rows del: map_map)
  have "q \<in> set (packets s')" using mem p(2) eff(2) by (force simp: rows)
  then have q: "findById pid s' = Some q" using findById_mem [OF ids] eff(2) p(2) by fastforce
  have "List.find (\<lambda>c. cl_packetId c = pid \<and> cl_userId c = u) (map (with_txn (cl_id c) t) (claims s)) = None"
    using eff(1) by (auto simp: findClaim_None find_None_iff)
  then have cl: "findClaim pid u s' = Some (with_txn (cl_id c) t c)"
    using eff(4,5) by (simp add: findClaim_def cls find_last)
  then have "\<exists>c \<in> set (claims s'). cl_packetId c = pid \<and> cl_userId c = u"
    by (metis findClaim_None option.distinct(1))
  note again = second_claim [OF this]
  show ?thesis
    using p q share st(1,4,6) eff(2,6) w(1) cl again by (auto simp: fun_eq_iff)
qed simp

lemma claimable_tables:
  fixes s s' :: "'z packet_db_scheme"
  assumes "packets s' = packets s"
  shows "findById i s' = findById i s"
  using assms by (simp add: findById_def)

text \<open>
  The claim row and the packet's decrement are committed before the wallet is asked. When the
  claimant's wallet is not ACTIVE the claim throws, its share has left the packet, no balance has
  changed, and every later claim of that user on those tables throws too, whatever the wallet's state
  is by then: the share is paid to nobody.
\<close>

theorem failed_credit_loses_share:
  fixes s :: "'z packet_db_scheme"
  assumes ok: "packets_ok s" and fresh: "txns s (claim_key pid u) = None" and d: "good_draw draw"
    and mem: "re_member env" and p: "claimable room pid now s = (Inr p, s)" and new: "findClaim pid u s = None"
    and st: "user_status s u \<noteq> ACTIVE"
  shows "\<exists>e s' q. claim_packet env u room pid now draw s = (Inl e, s') \<and> user_balance s' = user_balance s \<and>
    findById pid s' = Some q \<and> pk_remainingCoins q = pk_remainingCoins p - share_of draw p \<and> 1 \<le> share_of draw p \<and>
    pk_remainingSlots q = pk_remainingSlots p - 1 \<and>
    (\<forall>(s'' :: 'z packet_db_scheme) env' room' now' draw'. claims s'' = claims s' \<longrightarrow>
       (\<exists>e'. claim_packet env' u room' pid now' draw' s'' = (Inl e', s'')))"
proof -
  have f: "findById pid s = Some p" "0 < pk_remainingSlots p" and row: "p \<in> set (packets s)" "pk_id p = pid"
    using p findById_Some by (auto simp: claimable_Inr)
  let ?a = "share_of draw p" and ?l = "pk_remainingSlots p \<le> 1"
  obtain c q s1 where ap: "applyClaim pid room u ?a ?l now s = (Inr (c, q), s1)"
    using f new by (simp add: applyClaim_def Let_def)
  note eff = applied_effect [OF ap f(1)] and w = applied_wallet [OF ap]
  have "txns s1 (m_key (claim_movement p u ?a)) = None" "user_status s1 (m_userId (claim_movement p u ?a)) \<noteq> ACTIVE"
    using fresh st w row by simp_all
  then obtain e s' where cr: "credit (claim_movement p u ?a) False s1 = (Inl e, s')" and m: "same_money s1 s'"
    and tab: "wdb.more s' = wdb.more s1"
    using credit_refused [OF w(4) [OF packets_okD(1) [OF ok]]] by metis
  have run: "claim_packet env u room pid now draw s = (Inl e, s')"
    using mem p ap cr by (simp add: claim_packet_def bindA_def guardA_def catchA_def settle_claim_def Let_def)
  have t: "packets s' = packets s1" "claims s' = claims s1" using more_packets [OF tab] by auto
  have "packets s1 = map (\<lambda>x. if pk_id x = pid then taken ?a ?l now x else x) (packets s)" using eff(7) by simp
  then have ids: "distinct (map pk_id (packets s'))" and q_in: "q \<in> set (packets s')"
    using packets_okD(4) [OF ok] map_update_ids [of "taken ?a ?l now" pid "packets s"] t row eff(2)
    by (auto simp del: map_map)
  have q: "findById pid s' = Some q" using findById_mem [OF ids q_in] eff(2) row by simp
  have "packet_ok p (claims_of pid s)" using packets_okD(2) [OF ok row(1)] row(2) by simp
  then have one: "1 \<le> ?a" using share_of_ok(1) [OF _ _ d] f(2) by simp
  have "\<exists>x \<in> set (claims s'). cl_packetId x = pid \<and> cl_userId x = u" using eff(4,5,7) t by auto
  then have again: "claims s'' = claims s' \<Longrightarrow> \<exists>e'. claim_packet env' u room' pid now' draw' s'' = (Inl e', s'')"
    for s'' :: "'z packet_db_scheme" and env' room' now' draw' by (intro second_claim) simp
  show ?thesis
    using run q one eff(2) again m w(1) by (auto simp: same_money_def)
qed

lemma create_run:
  assumes "create env u room dto now s = (Inr v, s')"
  obtains d s1 where "debit (create_movement u room dto now) False s = (Inr d, s1)"
    "user_balance s' = user_balance s1" "next_id s' = Suc (next_id s1)" "txns s' = txns s1" "solvent s' = solvent s1"
    "packets s' = packets s1 @ [(draft_packet u room dto now (mr_transactionId d))\<lparr>pk_id := next_id s1\<rparr>]"
  using assms
  by (auto simp: create_def assertManager_def bindA_Inr publish_packet_def create_packet_def draft_packet_def
      Let_def user_balance_def walletByUser_def solvent_def fun_eq_iff)

lemma create_movement_sel [simp]:
  "m_userId (create_movement u room dto now) = u" "m_currency (create_movement u room dto now) = or_gold (cd_currency dto)"
  "m_amount (create_movement u room dto now) = of_int (cd_totalCoins dto)"
  "m_key (create_movement u room dto now) = create_key u room dto now"
  by (simp_all add: create_movement_def)

lemma draft_sel [simp]:
  "pk_totalCoins (draft_packet u room dto now t) = cd_totalCoins dto"
  "pk_remainingCoins (draft_packet u room dto now t) = cd_totalCoins dto"
  "pk_status (draft_packet u room dto now t) = ACTIVE_PACKET"
  by (simp_all add: draft_packet_def)

text \<open>
  Creating a packet twice with the same client key debits the creator once but funds two
  packets: the second call changes no balance and yet opens a packet with all its coins.
\<close>

theorem retried_create_mints:
  assumes wf: "wf_db s" and key: "cd_idempotencyKey dto = Some k"
    and fresh: "txns s (create_key u room dto now) = None"
    and one: "create env u room dto now s = (Inr v1, s1)"
    and two: "create env' u room' dto now' s1 = (Inr v2, s2)"
  shows "(\<forall>v c. user_balance s1 v c = user_balance s v c -
      (if v = u \<and> c = or_gold (cd_currency dto) then cd_totalCoins dto else 0)) \<and>
    user_balance s2 = user_balance s1 \<and>
    (\<exists>p q. packets s2 = packets s @ [p, q] \<and> pk_id p \<noteq> pk_id q \<and> pk_status p = ACTIVE_PACKET \<and>
      pk_status q = ACTIVE_PACKET \<and> pk_remainingCoins p = cd_totalCoins dto \<and> pk_remainingCoins q = cd_totalCoins dto)"
proof -
  obtain d sa where d: "debit (create_movement u room dto now) False s = (Inr d, sa)"
    and a: "user_balance s1 = user_balance sa" "next_id s1 = Suc (next_id sa)" "txns s1 = txns sa"
      "packets s1 = packets sa @ [(draft_packet u room dto now (mr_transactionId d))\<lparr>pk_id := next_id sa\<rparr>]"
    using create_run [OF one] by metis
  obtain d' sb where d': "debit (create_movement u room' dto now') False s1 = (Inr d', sb)"
    and b: "user_balance s2 = user_balance sb"
      "packets s2 = packets sb @ [(draft_packet u room' dto now' (mr_transactionId d'))\<lparr>pk_id := next_id sb\<rparr>]"
    using create_run [OF two] by metis
  have "create_key u room' dto now' = create_key u room dto now" using key by (simp add: create_key_def)
  moreover have "create_key u room dto now \<in> dom (txns s1)"
    using move_keys [OF wf] d a(3) by (simp add: debit_def)
  ultimately obtain t where "txns s1 (m_key (create_movement u room' dto now')) = Some t" by auto
  then have sb: "sb = s1" using d' move_used [of s1 "create_movement u room' dto now'" t DEBIT False "Inr d'" sb] by (simp add: debit_def)
  have bal: "user_balance sa v c = user_balance s v c -
      (if v = u \<and> c = or_gold (cd_currency dto) then cd_totalCoins dto else 0)" for v c
    using move_effect(1) [of s "create_movement u room dto now" DEBIT False d sa v c] wf fresh d
    by (simp add: debit_def delta_def)
  have "packets sa = packets s"
    using move_tables [OF wf] d more_packets(1) [of sa s] by (simp add: debit_def)
  then show ?thesis using a b sb bal by simp
qed

section \<open>The expiry sweep\<close>

definition swept :: "int \<Rightarrow> packet \<Rightarrow> packet" where
  "swept now p = p\<lparr>pk_status := REFUNDED_PACKET, pk_completedAt := Some now\<rparr>"

definition owed_back :: "packet list \<Rightarrow> uid \<Rightarrow> currency \<Rightarrow> int" where
  "owed_back ps u c = sum_list (map (\<lambda>p. if pk_creatorId p = u \<and> pk_currency p = c then pk_remainingCoins p else 0) ps)"

definition due :: "('z packet_db_scheme) \<Rightarrow> int \<Rightarrow> packet \<Rightarrow> bool" where
  "due s now p \<longleftrightarrow> p \<in> set (packets s) \<and> pk_status p = ACTIVE_PACKET \<and> pk_expiresAt p \<le> now \<and>
     user_status s (pk_creatorId p) = ACTIVE \<and> txns s (refund_key (pk_id p)) = None"

lemma due_coins:
  assumes "packets_ok s" "p \<in> set (packets s)" "pk_status p = ACTIVE_PACKET"
  shows "toNumber (pk_remainingCoins p) = pk_remainingCoins p" "0 < pk_remainingCoins p"
  using packets_okD(2) [OF assms(1,2)] assms(3) by (auto simp: packet_ok_def)

lemma refund_one_effect:
  assumes ok: "packets_ok s" and sol: "solvent s" and due: "due s now p"
  obtains s' where "refund_one now p s = (Inr (), s')" "packets_ok s'" "solvent s'"
    "user_balance s' = (\<lambda>u c. user_balance s u c + owed_back [p] u c)"
    "packets s' = map (\<lambda>x. if pk_id x = pk_id p then swept now x else x) (packets s)"
    "user_status s' = user_status s" "dom (txns s') = insert (refund_key (pk_id p)) (dom (txns s))"
proof -
  have p: "p \<in> set (packets s)" "pk_status p = ACTIVE_PACKET" "\<not> now < pk_expiresAt p"
    "txns s (refund_key (pk_id p)) = None" "user_status s (pk_creatorId p) = ACTIVE"
    using due by (auto simp: due_def)
  note coins = due_coins [OF ok p(1,2)] and wf = packets_okD(1) [OF ok]
  have f: "findById (pk_id p) s = Some p" using findById_mem [OF packets_okD(4) [OF ok] p(1)] .
  obtain x s1 where cr: "credit (packet_refund p) False s = (Inr x, s1)"
    using credit_ok [OF wf sol, of "packet_refund p"] p coins by auto
  then have mv: "move CREDIT (packet_refund p) False s = (Inr x, s1)" by (simp add: credit_def)
  have t: "packets s1 = packets s" using more_packets [OF move_tables [OF wf mv]] by simp
  let ?s = "(update_packet (pk_id p) (swept now) s1)
    \<lparr>packet_bus := packet_bus s1 @ [PacketExpired (pk_roomId p) (pk_id p) (pk_remainingCoins p) (pk_winnerCount p - pk_remainingSlots p)]\<rparr>"
  have f1: "findById (pk_id p) s1 = Some p" using f claimable_tables [OF t] by simp
  have run: "refund_one now p s = (Inr (), ?s)"
    using f f1 p coins cr
    by (simp add: refund_one_def refund_fresh_def bindA_def getsA_def returnA_def Let_def markStatus_def
        publish_packet_def modifyA_def swept_def [abs_def] update_packet_def)
  have keep: "kp.ok (refund_one now p)"
    unfolding refund_one_def refund_fresh_def Let_def
    by (intro kp.ok_bind kp.ok_option kp.ok_if kp.ok_pure keep_wallet keep_mark keep_publish) auto
  have bal: "user_balance s1 u c = user_balance s u c + owed_back [p] u c" for u c
    using move_effect(1) [OF wf _ mv, of u c] p coins by (simp add: delta_def owed_back_def)
  show thesis
    using that [of ?s] run kpD [OF keep run ok] move_keeps(3) [OF wf mv sol] bal t
      move_status [OF wf mv] move_effect(6) [OF wf _ mv] p(4)
    by (auto simp: fun_eq_iff update_packet_def)
qed

lemma sweep_all:
  assumes "packets_ok s" "solvent s" "distinct (map pk_id ps)" "\<And>p. p \<in> set ps \<Longrightarrow> due s now p"
  obtains s' where "forA (refund_one now) ps s = (Inr (), s')"
    "user_balance s' = (\<lambda>u c. user_balance s u c + owed_back ps u c)"
    "packets s' = map (\<lambda>x. if pk_id x \<in> pk_id ` set ps then swept now x else x) (packets s)"
  using assms
proof (induction ps arbitrary: s thesis)
  case Nil
  show ?case by (rule Nil.prems(1) [of s]) (simp_all add: owed_back_def returnA_def)
next
  case (Cons p ps)
  obtain s1 where one: "refund_one now p s = (Inr (), s1)" "packets_ok s1" "solvent s1"
    and bal: "user_balance s1 = (\<lambda>u c. user_balance s u c + owed_back [p] u c)"
    and rows: "packets s1 = map (\<lambda>x. if pk_id x = pk_id p then swept now x else x) (packets s)"
    and st: "user_status s1 = user_status s" and ks: "dom (txns s1) = insert (refund_key (pk_id p)) (dom (txns s))"
    using refund_one_effect [OF Cons.prems(2,3) Cons.prems(5) [of p]] by auto
  have due1: "due s1 now q" if q: "q \<in> set ps" for q
  proof -
    have ne: "pk_id q \<noteq> pk_id p" using Cons.prems(4) q by (auto simp: image_iff)
    have dq: "due s now q" using Cons.prems(5) q by simp
    then have "refund_key (pk_id q) \<notin> dom (txns s1)" using ks ne by (auto simp: due_def)
    then show ?thesis using dq ne st by (auto simp: due_def rows image_iff)
  qed
  obtain s' where rest: "forA (refund_one now) ps s1 = (Inr (), s')"
    "user_balance s' = (\<lambda>u c. user_balance s1 u c + owed_back ps u c)"
    "packets s' = map (\<lambda>x. if pk_id x \<in> pk_id ` set ps then swept now x else x) (packets s1)"
    using Cons.IH [OF _ one(2,3) _ due1] Cons.prems(4) by auto
  show ?case
  proof (rule Cons.prems(1) [of s'])
    show "forA (refund_one now) (p # ps) s = (Inr (), s')" using one(1) rest(1) by (simp add: bindA_def)
    show "user_balance s' = (\<lambda>u c. user_balance s u c + owed_back (p # ps) u c)"
      using rest(2) bal by (simp add: owed_back_def fun_eq_iff)
    have "pk_id (swept now x) = pk_id x" for x by (simp add: swept_def)
    then show "packets s' = map (\<lambda>x. if pk_id x \<in> pk_id ` set (p # ps) then swept now x else x) (packets s)"
      using rest(3) rows Cons.prems(4) by (auto simp: image_iff)
  qed
qed

lemma findExpired_sel:
  assumes "packets_ok s"
  shows "distinct (map pk_id (findExpired now n s))"
    and "p \<in> set (findExpired now n s) \<Longrightarrow> p \<in> set (packets s) \<and> pk_status p = ACTIVE_PACKET \<and> pk_expiresAt p \<le> now"
proof -
  have "distinct (packets s)" "inj_on pk_id (set (packets s))"
    using packets_okD(4) [OF assms] by (simp_all add: distinct_map)
  moreover have sub: "set (findExpired now n s) \<subseteq> {p \<in> set (packets s). pk_status p = ACTIVE_PACKET \<and> pk_expiresAt p \<le> now}"
    unfolding findExpired_def by (rule subset_trans [OF set_take_subset]) auto
  moreover have "distinct (findExpired now n s)"
    unfolding findExpired_def using \<open>distinct (packets s)\<close> by (intro distinct_take) simp
  ultimately show "distinct (map pk_id (findExpired now n s))"
    by (auto simp: distinct_map intro: inj_on_subset)
  show "p \<in> set (findExpired now n s) \<Longrightarrow> p \<in> set (packets s) \<and> pk_status p = ACTIVE_PACKET \<and> pk_expiresAt p \<le> now"
    using sub by auto
qed

text \<open>
  C37: When every creator in the sweep's batch - the 50 earliest expired packets - has an active wallet and
  none of these packets was refunded before, the sweep returns: each creator is credited exactly
  what was left in its packets and every packet of the batch becomes REFUNDED, all others unchanged.
\<close>

theorem expired_packets_refunded:
  assumes ok: "packets_ok s" and sol: "solvent s"
    and act: "list_all (\<lambda>p. user_status s (pk_creatorId p) = ACTIVE \<and> txns s (refund_key (pk_id p)) = None) (findExpired now 50 s)"
    and run: "refundExpired now s = (r, s')"
  shows "r = Inr () \<and>
    user_balance s' = (\<lambda>u c. user_balance s u c + owed_back (findExpired now 50 s) u c) \<and>
    packets s' = map (\<lambda>x. if pk_id x \<in> pk_id ` set (findExpired now 50 s) then swept now x else x) (packets s)"
proof -
  have "due s now p" if "p \<in> set (findExpired now 50 s)" for p
    using that act findExpired_sel(2) [OF ok that] by (auto simp: due_def list_all_iff)
  then obtain t where "forA (refund_one now) (findExpired now 50 s) s = (Inr (), t)"
    "user_balance t = (\<lambda>u c. user_balance s u c + owed_back (findExpired now 50 s) u c)"
    "packets t = map (\<lambda>x. if pk_id x \<in> pk_id ` set (findExpired now 50 s) then swept now x else x) (packets s)"
    using sweep_all [OF ok sol findExpired_sel(1) [OF ok]] by blast
  then show ?thesis using run by (simp add: refundExpired_def bindA_def getsA_def)
qed

text \<open>
  The sweep takes the packets in the order of their deadline and stops at the first throw.
  While the creator of the earliest one has a wallet that is not ACTIVE, every sweep throws there and
  nobody is refunded: the other creators' coins stay locked behind that packet.
\<close>

theorem frozen_creator_blocks_sweep:
  assumes ok: "packets_ok s" and first: "findExpired now 50 s = p # ps"
    and frozen: "user_status s (pk_creatorId p) \<noteq> ACTIVE" and fresh: "txns s (refund_key (pk_id p)) = None"
  shows "\<exists>e s'. refundExpired now s = (Inl e, s') \<and> user_balance s' = user_balance s \<and>
    packets s' = packets s \<and> findExpired now 50 s' = p # ps \<and> user_status s' = user_status s \<and> txns s' = txns s"
proof -
  have p: "p \<in> set (packets s)" "pk_status p = ACTIVE_PACKET" "\<not> now < pk_expiresAt p"
    using findExpired_sel(2) [OF ok, of p now 50] first by auto
  note coins = due_coins [OF ok p(1,2)]
  have f: "findById (pk_id p) s = Some p" using findById_mem [OF packets_okD(4) [OF ok] p(1)] .
  obtain e s' where cr: "credit (packet_refund p) False s = (Inl e, s')" and m: "same_money s s'"
    and tab: "wdb.more s' = wdb.more s"
    using credit_refused [OF packets_okD(1) [OF ok], of "packet_refund p" False] frozen fresh by (metis movement_fields(5,6))
  have "refundExpired now s = (Inl e, s')"
    using f p coins cr by (simp add: refundExpired_def first refund_one_def refund_fresh_def bindA_def getsA_def Let_def)
  then show ?thesis using m more_packets [OF tab] first by (auto simp: same_money_def findExpired_def)
qed

section \<open>Concrete runs\<close>

text \<open>The draw that always takes the upper bound.\<close>

lemma top_draw: "good_draw (\<lambda>u. u)"
  by (simp add: good_draw_def)

lemma empty_packets_ok: "packets_ok empty_packets" "wf_db empty_packets" "packets empty_packets = []" "claims empty_packets = []"
  by (simp_all add: empty_packets_def packets_ok_def wf_db_def init_db_def wdb.defs claims_of_def)

lemma opened_ok: "packets_ok opened"
  unfolding opened_def funded_def
  by (intro packet_run_ok empty_packets_ok) (simp_all add: valid_create_def sample_create_def)

theorem packets_stay_funded_witness:
  "claimed (claims_of 6 (packet_run [Claim owner_env 2 9 6 1100 (\<lambda>u. u), Claim owner_env 3 9 6 1100 (\<lambda>u. u)] opened)) = 67"
proof -
  let ?ops = "[Movement CREDIT (coins_for 1 ''k1'') False, Movement CREDIT (coins_for 2 ''k2'') False,
    Create owner_env 1 9 (sample_create FIXED) 1000,
    Claim owner_env 2 9 6 1100 (\<lambda>u. u), Claim owner_env 3 9 6 1100 (\<lambda>u. u)]"
  have run: "packet_run ?ops empty_packets =
      packet_run [Claim owner_env 2 9 6 1100 (\<lambda>u. u), Claim owner_env 3 9 6 1100 (\<lambda>u. u)] opened"
    by (simp add: packet_run_def opened_def funded_def)
  have "map (\<lambda>p. (pk_id p, pk_remainingCoins p, pk_totalCoins p)) (packets (packet_run ?ops empty_packets)) = [(6, 33, 100)]"
    by code_simp
  then obtain p where "p \<in> set (packets (packet_run ?ops empty_packets))" "pk_id p = 6" "pk_remainingCoins p = 33"
    "pk_totalCoins p = 100" by fastforce
  moreover have "list_all allowed_op ?ops" by (simp add: valid_create_def sample_create_def top_draw)
  ultimately show ?thesis
    using packets_stay_funded [OF empty_packets_ok(2-4), of ?ops p] run by (simp add: Let_def)
qed

theorem claim_pays_once_witness:
  "user_balance (snd (claim_packet owner_env 2 9 6 1100 (\<lambda>u. u) opened)) 2 GOLD = 1034"
proof -
  let ?r = "claim_packet owner_env 2 9 6 1100 (\<lambda>u. u) opened"
  have c: "case fst ?r of Inl _ \<Rightarrow> False | Inr res \<Rightarrow> cr_amount res = 34" "txns opened (claim_key 6 2) = None"
    "user_balance opened 2 GOLD = 1000" "map_option pk_currency (findById 6 opened) = Some GOLD" by code_simp+
  then obtain res where "?r = (Inr res, snd ?r)" "cr_amount res = 34"
    by (cases "fst ?r") (auto simp add: prod_eq_iff)
  with claim_pays_once [OF opened_ok c(2) top_draw this(1)] c(3,4) show ?thesis by auto
qed

definition frozen_member :: packet_db where
  "frozen_member = packet_run [Status 3 LOCKED None] opened"

lemma frozen_member_ok: "packets_ok frozen_member"
  unfolding frozen_member_def by (intro packet_run_ok opened_ok) simp

theorem failed_credit_loses_share_witness:
  "user_balance (snd (claim_packet owner_env 2 9 6 1100 (\<lambda>u. u) frozen_member)) 2 GOLD = 1000 \<and>
   map_option pk_remainingCoins (findById 6 (snd (claim_packet owner_env 2 9 6 1100 (\<lambda>u. u) frozen_member))) = Some 66"
proof -
  have c: "txns frozen_member (claim_key 6 2) = None" "findClaim 6 2 frozen_member = None"
    "user_status frozen_member 2 \<noteq> ACTIVE" "user_balance frozen_member 2 GOLD = 1000" "re_member owner_env"
    "case fst (claimable 9 6 1100 frozen_member) of Inl _ \<Rightarrow> False
      | Inr p \<Rightarrow> share_of (\<lambda>u. u) p = 34 \<and> pk_remainingCoins p = 100" by code_simp+
  obtain r s where run: "claimable 9 6 1100 frozen_member = (r, s)" by fastforce
  moreover from this have "s = frozen_member" by (rule claimable_state)
  ultimately obtain p where p: "claimable 9 6 1100 frozen_member = (Inr p, frozen_member)"
    "share_of (\<lambda>u. u) p = 34" "pk_remainingCoins p = 100" using c(6) by (cases r) auto
  from failed_credit_loses_share [OF frozen_member_ok c(1) top_draw c(5) p(1) c(2,3)] c(4) p(2,3)
  show ?thesis by auto
qed

theorem retried_create_mints_witness:
  "let s2 = snd (create owner_env 1 9 (sample_create FIXED) 2000 opened) in
     user_balance s2 1 GOLD = 900 \<and> map pk_remainingCoins (packets s2) = [100, 100]"
proof -
  have op: "opened = snd (create owner_env 1 9 (sample_create FIXED) 1000 funded)"
    by (simp add: opened_def packet_run_def)
  have c: "case fst (create owner_env 1 9 (sample_create FIXED) 1000 funded) of Inl _ \<Rightarrow> False | Inr _ \<Rightarrow> True"
    "case fst (create owner_env 1 9 (sample_create FIXED) 2000 opened) of Inl _ \<Rightarrow> False | Inr _ \<Rightarrow> True"
    "txns funded (create_key 1 9 (sample_create FIXED) 1000) = None" "user_balance funded 1 GOLD = 1000" "packets funded = []"
    by code_simp+
  obtain v where one: "create owner_env 1 9 (sample_create FIXED) 1000 funded = (Inr v, opened)"
    using c(1) op by (cases "fst (create owner_env 1 9 (sample_create FIXED) 1000 funded)") (auto simp: prod_eq_iff)
  obtain w s2 where two: "create owner_env 1 9 (sample_create FIXED) 2000 opened = (Inr w, s2)"
    using c(2) by (cases "create owner_env 1 9 (sample_create FIXED) 2000 opened") (auto split: sum.splits)
  have "wf_db funded"
    unfolding funded_def by (intro packets_okD(1) packet_run_ok empty_packets_ok) simp
  from retried_create_mints [OF this _ c(3) one two, of "''tap-0001''"] c(4,5) two
  show ?thesis by (auto simp: Let_def sample_create_def or_gold_def)
qed

lemma run_solvent:
  "solvent s \<Longrightarrow> packets_ok s \<Longrightarrow> list_all (\<lambda>x. case x of Movement ty m j \<Rightarrow> True | _ \<Rightarrow> False) ops \<Longrightarrow> solvent (packet_run ops s)"
proof (induction ops arbitrary: s)
  case Nil
  then show ?case by (simp add: packet_run_def)
next
  case (Cons x ops)
  then obtain ty m j where x: "x = Movement ty m j" by (cases x) auto
  have "solvent (packet_step x s)" "packets_ok (packet_step x s)"
    using Cons.prems packet_step_ok [of x s] move_keeps(3) [OF packets_okD(1) [OF Cons.prems(2)], of ty m j]
    by (auto simp: x) (metis prod.collapse)
  then show ?case using Cons by (simp add: packet_run_def)
qed

lemma opened_solvent: "solvent opened"
proof -
  have funded: "packets_ok funded" "solvent funded"
    unfolding funded_def
    by (intro packet_run_ok empty_packets_ok, simp)
      (intro run_solvent empty_packets_ok, simp_all add: empty_packets_def solvent_def init_db_def wdb.defs)
  have "case fst (create owner_env 1 9 (sample_create FIXED) 1000 funded) of Inl _ \<Rightarrow> False | Inr _ \<Rightarrow> True"
    by code_simp
  moreover have "opened = snd (create owner_env 1 9 (sample_create FIXED) 1000 funded)"
    by (simp add: opened_def packet_run_def)
  ultimately obtain v where "create owner_env 1 9 (sample_create FIXED) 1000 funded = (Inr v, opened)"
    by (cases "fst (create owner_env 1 9 (sample_create FIXED) 1000 funded)") (auto simp: prod_eq_iff)
  then show ?thesis
    using move_keeps(3) [OF packets_okD(1) [OF funded(1)] _ funded(2)] by (elim create_run) (auto simp: debit_def)
qed

theorem expired_packets_refunded_witness:
  "user_balance (snd (refundExpired 61000 opened)) 1 GOLD = 1000"
proof -
  have c: "list_all (\<lambda>p. user_status opened (pk_creatorId p) = ACTIVE \<and> txns opened (refund_key (pk_id p)) = None)
      (findExpired 61000 50 opened)"
    "user_balance opened 1 GOLD = 900" "owed_back (findExpired 61000 50 opened) 1 GOLD = 100" by code_simp+
  from expired_packets_refunded [OF opened_ok opened_solvent c(1) surjective_pairing] c(2,3)
  show ?thesis by simp
qed

definition frozen_owner :: packet_db where
  "frozen_owner = packet_run [Status 1 LOCKED None, Create owner_env 2 9 (sample_create RANDOM) 2000] opened"

lemma frozen_owner_ok: "packets_ok frozen_owner"
  unfolding frozen_owner_def by (intro packet_run_ok opened_ok) (simp_all add: valid_create_def sample_create_def)

theorem frozen_creator_blocks_sweep_witness:
  "user_balance (snd (refundExpired 99000 frozen_owner)) 2 GOLD = 900"
proof -
  have c: "map pk_creatorId (findExpired 99000 50 frozen_owner) = [1, 2]" "map pk_id (findExpired 99000 50 frozen_owner) = [6, 8]"
    "user_status frozen_owner 1 \<noteq> ACTIVE"
    "txns frozen_owner (refund_key 6) = None" "user_balance frozen_owner 2 GOLD = 900" by code_simp+
  obtain p ps where p: "findExpired 99000 50 frozen_owner = p # ps" "pk_creatorId p = 1" "pk_id p = 6"
    using c(1,2) by (cases "findExpired 99000 50 frozen_owner") auto
  from frozen_creator_blocks_sweep [OF frozen_owner_ok p(1)] p c show ?thesis by auto
qed

end
