(* ===== verification/Withdrawals.thy ===== *)
theory Withdrawals
  imports WalletRuns
begin

text \<open>
  Withdrawals (src/modules/withdrawals): a request holds diamonds by a wallet debit, a reviewer
  approves or refuses it, an approved one is paid out. The tables extend the wallet database. What
  the module reads of other services is the record \<open>wd_env\<close>: the platform configuration, the
  financial policies, the account status, and which texts the database takes for a UUID column.
  \<open>now\<close> is \<open>Date.now()\<close>, \<open>midnight\<close> the start of the local day, \<open>days\<close> the two date keys of the
  statistics. Numbers of the configuration are rationals; \<open>BigInt\<close> of one that is not an integer
  throws.
\<close>

section \<open>Tables\<close>

datatype wd_status = PENDING | UNDER_REVIEW | APPROVED | PROCESSING | WD_COMPLETED | REJECTED | CANCELLED | FAILED

datatype wd_action = APPROVE | REJECT | REVIEW | CANCEL

record wd_request =
  wq_id :: string
  wq_userId :: uid
  wq_amountCoins :: int
  wq_processingFeeCoins :: int
  wq_netPayoutAmountCoins :: int
  wq_payoutMethod :: string
  wq_payoutDetails :: "string option"
  wq_status :: wd_status
  wq_holdTxnId :: "nat option"
  wq_payoutTxnId :: "string option"
  wq_createdAt :: int

record wd_review =
  wv_requestId :: string
  wv_reviewerId :: uid
  wv_action :: wd_action
  wv_reason :: "string option"

text \<open>\<open>wh_from = None\<close> is the text \<open>NONE\<close> of a new request.\<close>

record wd_history =
  wh_requestId :: string
  wh_userId :: uid
  wh_from :: "wd_status option"
  wh_to :: wd_status
  wh_actorId :: "uid option"
  wh_createdAt :: int

record wd_failure =
  wf_requestId :: string
  wf_errorCode :: string
  wf_error :: err

record wd_audit =
  wa_action :: string
  wa_userId :: uid
  wa_requestId :: string
  wa_actorId :: "uid option"
  wa_createdAt :: int

record wd_stat =
  ws_userId :: uid
  ws_period :: string
  ws_dateKey :: string
  ws_totalRequestedCoins :: int
  ws_totalCompletedCoins :: int
  ws_totalRejectedCoins :: int
  ws_count :: int
  ws_updatedAt :: int

datatype wd_event =
    WithdrawalApproved string uid int
  | WithdrawalRejected string uid int "string option"

record wd_db = wdb +
  requests :: "wd_request list"
  reviews :: "wd_review list"
  histories :: "wd_history list"
  failures :: "wd_failure list"
  wd_audits :: "wd_audit list"
  stats :: "wd_stat list"
  wd_bus :: "wd_event list"

record wd_env =
  we_get :: "string \<Rightarrow> err + rat option"
  we_policy :: "string \<Rightarrow> err + int"
  we_account :: "uid \<Rightarrow> string option"
  we_uuid :: "string \<Rightarrow> bool"

definition liftE :: "err + 'a \<Rightarrow> ('s, 'a) act" where
  "liftE x = (case x of Inl e \<Rightarrow> throwA e | Inr a \<Rightarrow> returnA a)"

definition toBigInt :: "rat \<Rightarrow> err + int" where
  "toBigInt x = (if isInteger x then Inr \<lfloor>x\<rfloor> else Inl (OtherError ''RangeError''))"

section \<open>Configuration\<close>

record wd_config =
  minimumAmountCoins :: rat
  maximumAmountCoins :: rat
  dailyLimitCoins :: rat
  monthlyLimitCoins :: rat
  processingFeeCoins :: rat
  taxPercentage :: rat

definition fallback_config :: wd_config where
  "fallback_config = \<lparr>minimumAmountCoins = 1000, maximumAmountCoins = 100000, dailyLimitCoins = 200000,
     monthlyLimitCoins = 1000000, processingFeeCoins = 0, taxPercentage = 0\<rparr>"

definition or_num :: "rat option \<Rightarrow> rat \<Rightarrow> rat" where
  "or_num x d = (case x of None \<Rightarrow> d | Some v \<Rightarrow> v)"

definition getWithdrawalConfig :: "wd_env \<Rightarrow> wd_config" where
  "getWithdrawalConfig env =
     (case we_get env ''withdrawal.minimum'' of Inl _ \<Rightarrow> fallback_config | Inr minAmt \<Rightarrow>
     (case we_get env ''withdrawal.maximum'' of Inl _ \<Rightarrow> fallback_config | Inr maxAmt \<Rightarrow>
     (case we_get env ''withdrawal.daily_limit'' of Inl _ \<Rightarrow> fallback_config | Inr dailyLim \<Rightarrow>
     (case we_get env ''withdrawal.monthly_limit'' of Inl _ \<Rightarrow> fallback_config | Inr monthlyLim \<Rightarrow>
     (case we_get env ''withdrawal.processing_fee'' of Inl _ \<Rightarrow> fallback_config | Inr fee \<Rightarrow>
     (case we_get env ''withdrawal.tax_percentage'' of Inl _ \<Rightarrow> fallback_config | Inr tax \<Rightarrow>
       \<lparr>minimumAmountCoins = or_num minAmt 1000, maximumAmountCoins = or_num maxAmt 100000,
        dailyLimitCoins = or_num dailyLim 200000, monthlyLimitCoins = or_num monthlyLim 1000000,
        processingFeeCoins = or_num fee 0, taxPercentage = or_num tax 0\<rparr>))))))"

section \<open>Validation\<close>

definition in_limits :: "int \<Rightarrow> int \<Rightarrow> int \<Rightarrow> err + unit" where
  "in_limits amountCoins minCoins maxCoins =
     (if amountCoins < minCoins then Inl (BadRequest ''Withdrawal amount is below minimum'')
      else if amountCoins > maxCoins then Inl (BadRequest ''Withdrawal amount exceeds maximum'')
      else Inr ())"

definition config_limits :: "wd_config \<Rightarrow> int \<Rightarrow> err + unit" where
  "config_limits config amountCoins =
     (case toBigInt (minimumAmountCoins config) of Inl e \<Rightarrow> Inl e | Inr minCoins \<Rightarrow>
     (case toBigInt (maximumAmountCoins config) of Inl e \<Rightarrow> Inl e | Inr maxCoins \<Rightarrow>
       in_limits amountCoins minCoins maxCoins))"

text \<open>The policies decide; when they cannot be read, the configuration does.\<close>

definition amount_limits :: "wd_env \<Rightarrow> wd_config \<Rightarrow> int \<Rightarrow> err + unit" where
  "amount_limits env config amountCoins =
     (case we_policy env ''min_withdrawal_amount'' of
        Inl (BadRequest m) \<Rightarrow> Inl (BadRequest m)
      | Inl _ \<Rightarrow> config_limits config amountCoins
      | Inr minCoins \<Rightarrow>
          (case we_policy env ''max_withdrawal_amount'' of
             Inl (BadRequest m) \<Rightarrow> Inl (BadRequest m)
           | Inl _ \<Rightarrow> config_limits config amountCoins
           | Inr maxCoins \<Rightarrow> in_limits amountCoins minCoins maxCoins))"

definition daily_total :: "uid \<Rightarrow> int \<Rightarrow> ('z wd_db_scheme) \<Rightarrow> int" where
  "daily_total u midnight s = sum_list (map wq_amountCoins (filter (\<lambda>q. wq_userId q = u \<and>
     midnight \<le> wq_createdAt q \<and> wq_status q \<in> {PENDING, UNDER_REVIEW, APPROVED, PROCESSING, WD_COMPLETED}) (requests s)))"

definition pending_count :: "uid \<Rightarrow> ('z wd_db_scheme) \<Rightarrow> nat" where
  "pending_count u s = length (filter (\<lambda>q. wq_userId q = u \<and>
     wq_status q \<in> {PENDING, UNDER_REVIEW, PROCESSING}) (requests s))"

definition validateWithdrawalRequest ::
  "wd_env \<Rightarrow> uid \<Rightarrow> int \<Rightarrow> int \<Rightarrow> ('z wd_db_scheme, wd_config \<times> int) act" where
  "validateWithdrawalRequest env u amountCoins midnight =
     bindA (getsA economyFrozen) (\<lambda>frozen.
     bindA (guardA (\<not> frozen) (Forbidden ''Withdrawals suspended due to Treasury Economy Freeze'')) (\<lambda>_.
     bindA (guardA (case we_account env u of None \<Rightarrow> False | Some st \<Rightarrow> st \<noteq> ''BANNED'' \<and> st \<noteq> ''SUSPENDED'')
              (Forbidden ''User account is not active for withdrawals'')) (\<lambda>_.
     (let config = getWithdrawalConfig env
      in bindA (liftE (amount_limits env config amountCoins)) (\<lambda>_.
         bindA (getsA (\<lambda>s. case walletByUser s u of None \<Rightarrow> 0 | Some w \<Rightarrow> diamondBalance w)) (\<lambda>currentBalance.
         bindA (guardA (\<not> currentBalance < amountCoins) (BadRequest ''Insufficient eligible diamond balance'')) (\<lambda>_.
         bindA (getsA (daily_total u midnight)) (\<lambda>sum.
         bindA (liftE (toBigInt (dailyLimitCoins config))) (\<lambda>limit.
         bindA (guardA (\<not> sum + amountCoins > limit) (BadRequest ''Withdrawal request exceeds daily limit'')) (\<lambda>_.
         bindA (getsA (pending_count u)) (\<lambda>n.
         bindA (guardA (\<not> n > 0) (BadRequest ''You already have an active pending withdrawal request'')) (\<lambda>_.
         returnA (config, currentBalance)))))))))))))"

section \<open>Statistics, history, audit\<close>

datatype stat_type = Requested | Completed_payout | Rejected_request

definition incremented :: "stat_type \<Rightarrow> int \<Rightarrow> int \<Rightarrow> wd_stat \<Rightarrow> wd_stat" where
  "incremented type amountCoins now r =
     (case type of
        Requested \<Rightarrow> r\<lparr>ws_totalRequestedCoins := ws_totalRequestedCoins r + amountCoins, ws_count := ws_count r + 1, ws_updatedAt := now\<rparr>
      | Completed_payout \<Rightarrow> r\<lparr>ws_totalCompletedCoins := ws_totalCompletedCoins r + amountCoins, ws_updatedAt := now\<rparr>
      | Rejected_request \<Rightarrow> r\<lparr>ws_totalRejectedCoins := ws_totalRejectedCoins r + amountCoins, ws_updatedAt := now\<rparr>)"

definition new_stat :: "uid \<Rightarrow> string \<Rightarrow> string \<Rightarrow> stat_type \<Rightarrow> int \<Rightarrow> int \<Rightarrow> wd_stat" where
  "new_stat u period key type amountCoins now =
     \<lparr>ws_userId = u, ws_period = period, ws_dateKey = key,
      ws_totalRequestedCoins = (if type = Requested then amountCoins else 0),
      ws_totalCompletedCoins = (if type = Completed_payout then amountCoins else 0),
      ws_totalRejectedCoins = (if type = Rejected_request then amountCoins else 0),
      ws_count = (if type = Requested then 1 else 0), ws_updatedAt = now\<rparr>"

definition upsert_stat :: "uid \<Rightarrow> stat_type \<Rightarrow> int \<Rightarrow> int \<Rightarrow> string \<times> string \<Rightarrow> wd_stat list \<Rightarrow> wd_stat list" where
  "upsert_stat u type amountCoins now pk rows =
     (case pk of (period, key) \<Rightarrow>
        (let hit = (\<lambda>r. ws_userId r = u \<and> ws_period r = period \<and> ws_dateKey r = key)
         in if list_ex hit rows then map (\<lambda>r. if hit r then incremented type amountCoins now r else r) rows
            else rows @ [new_stat u period key type amountCoins now]))"

definition periods :: "string \<times> string \<Rightarrow> (string \<times> string) list" where
  "periods days = [(''DAILY'', fst days), (''MONTHLY'', snd days), (''LIFETIME'', ''ALL'')]"

definition updateStatistics :: "uid \<Rightarrow> int \<Rightarrow> stat_type \<Rightarrow> int \<Rightarrow> string \<times> string \<Rightarrow> ('z wd_db_scheme, unit) act" where
  "updateStatistics u amountCoins type now days =
     modifyA (\<lambda>s. s\<lparr>stats := fold (upsert_stat u type amountCoins now) (periods days) (stats s)\<rparr>)"

definition getUserStatistics :: "uid \<Rightarrow> ('z wd_db_scheme) \<Rightarrow> wd_stat list" where
  "getUserStatistics u s = take 20 (sort_key (\<lambda>r. - ws_updatedAt r) (filter (\<lambda>r. ws_userId r = u) (stats s)))"

definition wd_logAudit :: "string \<Rightarrow> uid \<Rightarrow> string \<Rightarrow> uid option \<Rightarrow> int \<Rightarrow> ('z wd_db_scheme, unit) act" where
  "wd_logAudit action u i actor now = modifyA (\<lambda>s. s\<lparr>wd_audits := wd_audits s @
     [\<lparr>wa_action = action, wa_userId = u, wa_requestId = i, wa_actorId = actor, wa_createdAt = now\<rparr>]\<rparr>)"

definition add_history :: "string \<Rightarrow> uid \<Rightarrow> wd_status option \<Rightarrow> wd_status \<Rightarrow> uid option \<Rightarrow> int \<Rightarrow> ('z wd_db_scheme, unit) act" where
  "add_history i u from to actor now = modifyA (\<lambda>s. s\<lparr>histories := histories s @
     [\<lparr>wh_requestId = i, wh_userId = u, wh_from = from, wh_to = to, wh_actorId = actor, wh_createdAt = now\<rparr>]\<rparr>)"

definition find_request :: "string \<Rightarrow> ('z wd_db_scheme) \<Rightarrow> wd_request option" where
  "find_request i s = List.find (\<lambda>q. wq_id q = i) (requests s)"

definition update_request :: "string \<Rightarrow> (wd_request \<Rightarrow> wd_request) \<Rightarrow> ('z wd_db_scheme, unit) act" where
  "update_request i f s =
     (if find_request i s = None then (Inl (OtherError ''P2025''), s)
      else (Inr (), s\<lparr>requests := map (\<lambda>q. if wq_id q = i then f q else q) (requests s)\<rparr>))"

text \<open>
  \<open>withdrawalRequest.create\<close> with an explicit \<open>id\<close>: the text must be a UUID for the column, and unused.
\<close>

definition insert_request :: "wd_env \<Rightarrow> wd_request \<Rightarrow> ('z wd_db_scheme, unit) act" where
  "insert_request env q s =
     (if \<not> we_uuid env (wq_id q) then (Inl (OtherError ''P2023''), s)
      else if find_request (wq_id q) s \<noteq> None then (Inl P2002, s)
      else (Inr (), s\<lparr>requests := requests s @ [q]\<rparr>))"

section \<open>Requesting\<close>

record wd_input =
  in_userId :: uid
  in_amountCoins :: int
  in_payoutMethod :: "string option"
  in_payoutDetails :: "string option"

definition wd_id :: "int \<Rightarrow> string" where
  "wd_id now = ''wd-'' @ show_nat (nat now)"

definition hold_key :: "string \<Rightarrow> string" where
  "hold_key i = ''withdrawal-hold:'' @ i"

definition hold_movement :: "wd_input \<Rightarrow> string \<Rightarrow> movement" where
  "hold_movement inp i =
     \<lparr>m_userId = in_userId inp, m_currency = DIAMOND, m_amount = of_int (toNumber (in_amountCoins inp)),
      m_reason = DIAMOND_WITHDRAWAL_RESERVE, m_key = hold_key i, m_referenceType = Some ''withdrawal_request'',
      m_referenceId = Some i, m_actorId = None\<rparr>"

definition net_payout :: "int \<Rightarrow> int \<Rightarrow> int" where
  "net_payout amountCoins fee = (if amountCoins > fee then amountCoins - fee else amountCoins)"

definition new_request :: "wd_input \<Rightarrow> string \<Rightarrow> int \<Rightarrow> nat \<Rightarrow> int \<Rightarrow> wd_request" where
  "new_request inp i fee txn now =
     \<lparr>wq_id = i, wq_userId = in_userId inp, wq_amountCoins = in_amountCoins inp, wq_processingFeeCoins = fee,
      wq_netPayoutAmountCoins = net_payout (in_amountCoins inp) fee,
      wq_payoutMethod = (case in_payoutMethod inp of None \<Rightarrow> ''BANK_TRANSFER'' | Some m \<Rightarrow> m),
      wq_payoutDetails = in_payoutDetails inp, wq_status = PENDING, wq_holdTxnId = Some txn,
      wq_payoutTxnId = None, wq_createdAt = now\<rparr>"

definition record_request :: "wd_env \<Rightarrow> wd_input \<Rightarrow> int \<Rightarrow> nat \<Rightarrow> int \<Rightarrow> string \<times> string \<Rightarrow> ('z wd_db_scheme, wd_request) act" where
  "record_request env inp fee txn now days =
     (let q = new_request inp (wd_id now) fee txn now
      in bindA (insert_request env q) (\<lambda>_.
         bindA (add_history (wq_id q) (in_userId inp) None PENDING (Some (in_userId inp)) now) (\<lambda>_.
         bindA (updateStatistics (in_userId inp) (in_amountCoins inp) Requested now days) (\<lambda>_.
         bindA (wd_logAudit ''WITHDRAWAL_REQUESTED'' (in_userId inp) (wq_id q) None now) (\<lambda>_.
         returnA q)))))"

definition requestWithdrawal ::
  "wd_env \<Rightarrow> wd_input \<Rightarrow> int \<Rightarrow> int \<Rightarrow> string \<times> string \<Rightarrow> ('z wd_db_scheme, wd_request) act" where
  "requestWithdrawal env inp now midnight days =
     bindA (validateWithdrawalRequest env (in_userId inp) (in_amountCoins inp) midnight) (\<lambda>(config, _).
     bindA (liftE (toBigInt (processingFeeCoins config))) (\<lambda>fee.
     bindA (debit (hold_movement inp (wd_id now)) False) (\<lambda>hold.
     record_request env inp fee (mr_transactionId hold) now days)))"

section \<open>Reviewing\<close>

definition refund_wd_key :: "string \<Rightarrow> string" where
  "refund_wd_key i = ''withdrawal-refund:'' @ i"

definition refund_wd_movement :: "wd_request \<Rightarrow> movement" where
  "refund_wd_movement q =
     \<lparr>m_userId = wq_userId q, m_currency = DIAMOND, m_amount = of_int (toNumber (wq_amountCoins q)),
      m_reason = DIAMOND_WITHDRAWAL_REVERSED, m_key = refund_wd_key (wq_id q),
      m_referenceType = Some ''withdrawal_rejection'', m_referenceId = Some (wq_id q), m_actorId = None\<rparr>"

fun decided :: "wd_action \<Rightarrow> wd_status" where
  "decided APPROVE = APPROVED"
| "decided REJECT = REJECTED"
| "decided CANCEL = CANCELLED"
| "decided REVIEW = UNDER_REVIEW"

definition terminal_status :: "wd_status \<Rightarrow> bool" where
  "terminal_status st \<longleftrightarrow> st \<in> {WD_COMPLETED, REJECTED, CANCELLED, FAILED}"

definition review_check :: "string \<Rightarrow> uid \<Rightarrow> wd_action \<Rightarrow> ('z wd_db_scheme, wd_request) act" where
  "review_check i reviewer action s =
     (case find_request i s of
        None \<Rightarrow> (Inl (BadRequest ''Withdrawal request not found''), s)
      | Some q \<Rightarrow>
          if action = CANCEL \<and> wq_userId q \<noteq> reviewer
          then (Inl (Forbidden ''You may only cancel your own withdrawal request''), s)
          else if terminal_status (wq_status q)
          then (Inl (BadRequest ''Cannot review request in terminal state''), s)
          else (Inr q, s))"

definition audit_action :: "wd_status \<Rightarrow> string" where
  "audit_action st =
     (case st of APPROVED \<Rightarrow> ''WITHDRAWAL_APPROVED'' | REJECTED \<Rightarrow> ''WITHDRAWAL_REJECTED''
      | CANCELLED \<Rightarrow> ''WITHDRAWAL_CANCELLED'' | _ \<Rightarrow> ''WITHDRAWAL_PROCESSING'')"

definition announce :: "wd_request \<Rightarrow> wd_status \<Rightarrow> string option \<Rightarrow> ('z wd_db_scheme, unit) act" where
  "announce q st reason =
     (case st of
        APPROVED \<Rightarrow> modifyA (\<lambda>s. s\<lparr>wd_bus := wd_bus s @
          [WithdrawalApproved (wq_id q) (wq_userId q) (toNumber (wq_amountCoins q))]\<rparr>)
      | REJECTED \<Rightarrow> modifyA (\<lambda>s. s\<lparr>wd_bus := wd_bus s @
          [WithdrawalRejected (wq_id q) (wq_userId q) (toNumber (wq_amountCoins q)) reason]\<rparr>)
      | _ \<Rightarrow> returnA ())"

definition review_commit ::
  "wd_request \<Rightarrow> uid \<Rightarrow> wd_action \<Rightarrow> string option \<Rightarrow> int \<Rightarrow> string \<times> string \<Rightarrow> ('z wd_db_scheme, wd_status \<times> wd_status) act" where
  "review_commit q reviewer action reason now days =
     (let st = decided action
      in bindA (if st = REJECTED \<or> st = CANCELLED
                then bindA (credit (refund_wd_movement q) False) (\<lambda>_.
                     updateStatistics (wq_userId q) (wq_amountCoins q) Rejected_request now days)
                else returnA ()) (\<lambda>_.
         bindA (update_request (wq_id q) (\<lambda>r. r\<lparr>wq_status := st\<rparr>)) (\<lambda>_.
         bindA (modifyA (\<lambda>s. s\<lparr>reviews := reviews s @ [\<lparr>wv_requestId = wq_id q, wv_reviewerId = reviewer,
                  wv_action = action, wv_reason = reason\<rparr>]\<rparr>)) (\<lambda>_.
         bindA (add_history (wq_id q) (wq_userId q) (Some (wq_status q)) st (Some reviewer) now) (\<lambda>_.
         bindA (wd_logAudit (audit_action st) (wq_userId q) (wq_id q) (Some reviewer) now) (\<lambda>_.
         bindA (announce q st reason) (\<lambda>_.
         returnA (wq_status q, st))))))))"

definition reviewWithdrawal ::
  "string \<Rightarrow> uid \<Rightarrow> wd_action \<Rightarrow> string option \<Rightarrow> int \<Rightarrow> string \<times> string \<Rightarrow> ('z wd_db_scheme, wd_status \<times> wd_status) act" where
  "reviewWithdrawal i reviewer action reason now days =
     bindA (review_check i reviewer action) (\<lambda>q. review_commit q reviewer action reason now days)"

section \<open>Paying out\<close>

definition exec_check :: "string \<Rightarrow> ('z wd_db_scheme, wd_request) act" where
  "exec_check i s =
     (case find_request i s of
        None \<Rightarrow> (Inl (BadRequest ''Withdrawal request not found''), s)
      | Some q \<Rightarrow>
          if wq_status q \<noteq> APPROVED \<and> wq_status q \<noteq> PROCESSING
          then (Inl (BadRequest ''Request must be APPROVED to execute payout''), s)
          else (Inr q, s))"

definition failure_key :: "string \<Rightarrow> string" where
  "failure_key i = ''withdrawal-failure-refund:'' @ i"

definition failure_movement :: "wd_request \<Rightarrow> movement" where
  "failure_movement q =
     \<lparr>m_userId = wq_userId q, m_currency = DIAMOND, m_amount = of_int (toNumber (wq_amountCoins q)),
      m_reason = DIAMOND_WITHDRAWAL_REVERSED, m_key = failure_key (wq_id q),
      m_referenceType = Some ''withdrawal_failure'', m_referenceId = Some (wq_id q), m_actorId = None\<rparr>"

definition payout_id :: "string option \<Rightarrow> int \<Rightarrow> string" where
  "payout_id given now = (case given of Some t \<Rightarrow> t | None \<Rightarrow> ''payout-tx-'' @ show_nat (nat now))"

text \<open>The body of the \<open>try\<close>: the first write puts the payout identifier into a UUID column.\<close>

definition complete_payout :: "wd_env \<Rightarrow> wd_request \<Rightarrow> string \<Rightarrow> int \<Rightarrow> string \<times> string \<Rightarrow> ('z wd_db_scheme, wd_status) act" where
  "complete_payout env q pid now days =
     bindA (guardA (we_uuid env pid) (OtherError ''P2023'')) (\<lambda>_.
     bindA (update_request (wq_id q) (\<lambda>r. r\<lparr>wq_status := WD_COMPLETED, wq_payoutTxnId := Some pid\<rparr>)) (\<lambda>_.
     bindA (add_history (wq_id q) (wq_userId q) (Some PROCESSING) WD_COMPLETED None now) (\<lambda>_.
     bindA (updateStatistics (wq_userId q) (wq_amountCoins q) Completed_payout now days) (\<lambda>_.
     bindA (wd_logAudit ''WITHDRAWAL_COMPLETED'' (wq_userId q) (wq_id q) None now) (\<lambda>_.
     returnA WD_COMPLETED)))))"

definition fail_payout :: "wd_request \<Rightarrow> int \<Rightarrow> err \<Rightarrow> ('z wd_db_scheme, wd_status) act" where
  "fail_payout q now e =
     bindA (credit (failure_movement q) False) (\<lambda>_.
     bindA (update_request (wq_id q) (\<lambda>r. r\<lparr>wq_status := FAILED\<rparr>)) (\<lambda>_.
     bindA (modifyA (\<lambda>s. s\<lparr>failures := failures s @ [\<lparr>wf_requestId = wq_id q,
              wf_errorCode = ''PAYOUT_EXECUTION_FAILED'', wf_error = e\<rparr>]\<rparr>)) (\<lambda>_.
     bindA (add_history (wq_id q) (wq_userId q) (Some PROCESSING) FAILED None now) (\<lambda>_.
     bindA (wd_logAudit ''WITHDRAWAL_FAILED'' (wq_userId q) (wq_id q) None now) (\<lambda>_.
     returnA FAILED)))))"

definition exec_commit ::
  "wd_env \<Rightarrow> wd_request \<Rightarrow> string option \<Rightarrow> int \<Rightarrow> string \<times> string \<Rightarrow> ('z wd_db_scheme, wd_status) act" where
  "exec_commit env q given now days =
     bindA (update_request (wq_id q) (\<lambda>r. r\<lparr>wq_status := PROCESSING\<rparr>)) (\<lambda>_.
     bindA (add_history (wq_id q) (wq_userId q) (Some (wq_status q)) PROCESSING None now) (\<lambda>_.
     bindA (wd_logAudit ''WITHDRAWAL_PROCESSING'' (wq_userId q) (wq_id q) None now) (\<lambda>_.
     catchA (complete_payout env q (payout_id given now) now days) (fail_payout q now))))"

definition executePayout ::
  "wd_env \<Rightarrow> string \<Rightarrow> string option \<Rightarrow> int \<Rightarrow> string \<times> string \<Rightarrow> ('z wd_db_scheme, wd_status) act" where
  "executePayout env i given now days = bindA (exec_check i) (\<lambda>q. exec_commit env q given now days)"

section \<open>Reads\<close>

record 'a page_of =
  pg_count :: nat
  pg_page :: int
  pg_limit :: int
  pg_totalPages :: int
  pg_items :: "'a list"

definition page_slice :: "int \<Rightarrow> int \<Rightarrow> 'a list \<Rightarrow> 'a page_of" where
  "page_slice page limit xs =
     \<lparr>pg_count = length xs, pg_page = page, pg_limit = limit,
      pg_totalPages = (int (length xs) + limit - 1) div limit,
      pg_items = take (nat limit) (drop (nat ((page - 1) * limit)) xs)\<rparr>"

definition getWithdrawalRequest :: "string \<Rightarrow> ('z wd_db_scheme) \<Rightarrow> wd_request option" where
  "getWithdrawalRequest i s = find_request i s"

definition getWithdrawalHistory ::
  "uid option \<Rightarrow> int option \<Rightarrow> int option \<Rightarrow> wd_status option \<Rightarrow> ('z wd_db_scheme) \<Rightarrow> wd_request page_of" where
  "getWithdrawalHistory u page limit st s =
     (let page' = max 1 (case page of None \<Rightarrow> 1 | Some p \<Rightarrow> p);
          limit' = min 100 (max 1 (case limit of None \<Rightarrow> 20 | Some l \<Rightarrow> l));
          rows = filter (\<lambda>q. (case u of None \<Rightarrow> True | Some v \<Rightarrow> wq_userId q = v) \<and>
                             (case st of None \<Rightarrow> True | Some x \<Rightarrow> wq_status q = x)) (requests s)
      in page_slice page' limit' (sort_key (\<lambda>q. - wq_createdAt q) rows))"

definition getRequestStateTransitions :: "string \<Rightarrow> ('z wd_db_scheme) \<Rightarrow> wd_history list" where
  "getRequestStateTransitions i s = sort_key wh_createdAt (filter (\<lambda>h. wh_requestId h = i) (histories s))"

record wd_summary =
  sm_totalRequests :: nat
  sm_pendingRequestsCount :: nat
  sm_totalCompletedCoins :: int
  sm_totalCompletedNetPayoutCoins :: int
  sm_totalPendingCoins :: int

definition getGlobalSummary :: "('z wd_db_scheme) \<Rightarrow> wd_summary" where
  "getGlobalSummary s =
     (let paid = filter (\<lambda>q. wq_status q = WD_COMPLETED) (requests s);
          waiting = filter (\<lambda>q. wq_status q \<in> {PENDING, UNDER_REVIEW, APPROVED, PROCESSING}) (requests s)
      in \<lparr>sm_totalRequests = length (requests s),
          sm_pendingRequestsCount = length (filter (\<lambda>q. wq_status q = PENDING) (requests s)),
          sm_totalCompletedCoins = sum_list (map wq_amountCoins paid),
          sm_totalCompletedNetPayoutCoins = sum_list (map wq_netPayoutAmountCoins paid),
          sm_totalPendingCoins = sum_list (map wq_amountCoins waiting)\<rparr>)"

definition getPendingReviewQueue :: "int \<Rightarrow> int \<Rightarrow> ('z wd_db_scheme) \<Rightarrow> wd_request page_of" where
  "getPendingReviewQueue page limit s =
     page_slice page limit (sort_key wq_createdAt (filter (\<lambda>q. wq_status q \<in> {PENDING, UNDER_REVIEW}) (requests s)))"

definition getAuditLogs :: "uid option \<Rightarrow> int \<Rightarrow> int \<Rightarrow> ('z wd_db_scheme) \<Rightarrow> wd_audit page_of" where
  "getAuditLogs u page limit s =
     page_slice page limit (sort_key (\<lambda>a. - wa_createdAt a)
       (filter (\<lambda>a. case u of None \<Rightarrow> True | Some v \<Rightarrow> wa_userId a = v) (wd_audits s)))"

end
