(* ===== verification/WithdrawalLaws.thy ===== *)
theory WithdrawalLaws
  imports Withdrawals
begin

text \<open>
  A withdrawal request holds the user's diamonds until it is decided: along every run of requests,
  reviews and payouts the diamonds of a user, what its live or paid requests hold and what was lost
  with requests the database refused add up to the same, and the recorded transitions of a request
  lead from its creation to its status. Both rest on one step, \<open>advance\<close>, of a request to its next
  status. \<open>U\<close> is the set of texts the database takes for a UUID column. The section on failures shows where the code
  leaves this: the request identifier, the payout identifier, and a cancellation during a payout.
\<close>

section \<open>Frames\<close>

lemma more_wd:
  fixes s s' :: "'z wd_db_scheme"
  assumes "wdb.more s' = wdb.more s"
  shows "requests s' = requests s" "histories s' = histories s"
  using assms by (cases s rule: wd_db.cases_scheme; cases s' rule: wd_db.cases_scheme; simp)+

lemma wd_updates [simp]:
  "user_balance (s\<lparr>requests := a\<rparr>) = user_balance s" "user_balance (s\<lparr>reviews := b\<rparr>) = user_balance s"
  "user_balance (s\<lparr>histories := c\<rparr>) = user_balance s" "user_balance (s\<lparr>failures := d\<rparr>) = user_balance s"
  "user_balance (s\<lparr>wd_audits := e\<rparr>) = user_balance s" "user_balance (s\<lparr>stats := f\<rparr>) = user_balance s"
  "user_balance (s\<lparr>wd_bus := g\<rparr>) = user_balance s"
  "wf_db (s\<lparr>requests := a\<rparr>) = wf_db s" "wf_db (s\<lparr>reviews := b\<rparr>) = wf_db s"
  "wf_db (s\<lparr>histories := c\<rparr>) = wf_db s" "wf_db (s\<lparr>failures := d\<rparr>) = wf_db s"
  "wf_db (s\<lparr>wd_audits := e\<rparr>) = wf_db s" "wf_db (s\<lparr>stats := f\<rparr>) = wf_db s" "wf_db (s\<lparr>wd_bus := g\<rparr>) = wf_db s"
  by (simp_all add: user_balance_def walletByUser_def wf_db_def fun_eq_iff)

lemma wd_updates_wallet [simp]:
  "user_status (s\<lparr>requests := a\<rparr>) = user_status s" "user_status (s\<lparr>histories := c\<rparr>) = user_status s"
  "user_status (s\<lparr>wd_audits := e\<rparr>) = user_status s" "user_status (s\<lparr>reviews := b\<rparr>) = user_status s"
  "user_status (s\<lparr>stats := f\<rparr>) = user_status s" "user_status (s\<lparr>wd_bus := g\<rparr>) = user_status s"
  "solvent (s\<lparr>requests := a\<rparr>) = solvent s" "solvent (s\<lparr>histories := c\<rparr>) = solvent s"
  "solvent (s\<lparr>wd_audits := e\<rparr>) = solvent s"
  by (simp_all add: user_status_def walletByUser_def solvent_def fun_eq_iff)

lemma wd_movement_sel [simp]:
  "m_userId (hold_movement inp i) = in_userId inp" "m_currency (hold_movement inp i) = DIAMOND"
  "m_amount (hold_movement inp i) = of_int (toNumber (in_amountCoins inp))" "m_key (hold_movement inp i) = hold_key i"
  "m_userId (refund_wd_movement q) = wq_userId q" "m_currency (refund_wd_movement q) = DIAMOND"
  "m_amount (refund_wd_movement q) = of_int (toNumber (wq_amountCoins q))"
  "m_key (refund_wd_movement q) = refund_wd_key (wq_id q)"
  "m_userId (failure_movement q) = wq_userId q" "m_currency (failure_movement q) = DIAMOND"
  "m_amount (failure_movement q) = of_int (toNumber (wq_amountCoins q))"
  "m_key (failure_movement q) = failure_key (wq_id q)"
  by (simp_all add: hold_movement_def refund_wd_movement_def failure_movement_def)

lemma wd_keys [simp]:
  "hold_key i = hold_key j \<longleftrightarrow> i = j" "refund_wd_key i = refund_wd_key j \<longleftrightarrow> i = j"
  "failure_key i = failure_key j \<longleftrightarrow> i = j"
  "hold_key i \<noteq> refund_wd_key j" "hold_key i \<noteq> failure_key j" "refund_wd_key i \<noteq> failure_key j"
  "refund_wd_key j \<noteq> hold_key i" "failure_key j \<noteq> hold_key i" "failure_key j \<noteq> refund_wd_key i"
  by (auto simp: hold_key_def refund_wd_key_def failure_key_def)

section \<open>The invariant\<close>

definition refunded_status :: "wd_status \<Rightarrow> bool" where
  "refunded_status st \<longleftrightarrow> st \<in> {REJECTED, CANCELLED, FAILED}"

text \<open>What a request takes out of its user's diamonds: its amount, unless it was refunded.\<close>

definition weight :: "uid \<Rightarrow> wd_request \<Rightarrow> int" where
  "weight u q = (if wq_userId q = u \<and> \<not> refunded_status (wq_status q) then wq_amountCoins q else 0)"

definition held :: "uid \<Rightarrow> ('z wd_db_scheme) \<Rightarrow> int" where
  "held u s = sum_list (map (weight u) (requests s))"

text \<open>
  A history is a walk: it starts with the creation as PENDING, each row starts where the one before
  ended, and none leaves a terminal status.
\<close>

fun walk :: "wd_status option \<Rightarrow> wd_history list \<Rightarrow> wd_status option option" where
  "walk at_st [] = Some at_st"
| "walk at_st (h # hs) =
     (if wh_from h = at_st \<and> (case at_st of None \<Rightarrow> wh_to h = PENDING | Some st \<Rightarrow> \<not> terminal_status st)
      then walk (Some (wh_to h)) hs else None)"

definition history_of :: "string \<Rightarrow> ('z wd_db_scheme) \<Rightarrow> wd_history list" where
  "history_of i s = filter (\<lambda>h. wh_requestId h = i) (histories s)"

text \<open>
  A request whose identifier the database takes has its hold in the ledger exactly when its row is
  stored; of an identifier it refuses only the hold can exist.
\<close>

definition wd_ok :: "(string \<Rightarrow> bool) \<Rightarrow> ('z wd_db_scheme) \<Rightarrow> bool" where
  "wd_ok U s \<longleftrightarrow> wf_db s \<and> distinct (map wq_id (requests s)) \<and>
     (\<forall>q \<in> set (requests s). 0 < wq_amountCoins q \<and> wq_amountCoins q \<le> 2 ^ 53) \<and>
     (\<forall>n. U (wd_id n) \<longrightarrow> (hold_key (wd_id n) \<in> dom (txns s) \<longleftrightarrow> find_request (wd_id n) s \<noteq> None)) \<and>
     (\<forall>i. refund_wd_key i \<in> dom (txns s) \<longrightarrow> map_option wq_status (find_request i s) \<in> {Some REJECTED, Some CANCELLED}) \<and>
     (\<forall>i. failure_key i \<in> dom (txns s) \<longrightarrow> map_option wq_status (find_request i s) = Some FAILED) \<and>
     (\<forall>i. walk None (history_of i s) = Some (map_option wq_status (find_request i s)))"

lemma find_request_Some: "find_request i s = Some q \<Longrightarrow> q \<in> set (requests s) \<and> wq_id q = i"
  by (auto simp: find_request_def find_Some_iff)

lemma find_map:
  assumes "\<And>q. wq_id (f q) = wq_id q"
  shows "List.find (\<lambda>q. wq_id q = j) (map (\<lambda>q. if wq_id q = i then f q else q) qs) =
    map_option (\<lambda>q. if wq_id q = i then f q else q) (List.find (\<lambda>q. wq_id q = j) qs)"
  by (induction qs) (auto simp: assms)

lemma sum_update:
  assumes "distinct (map k xs)" "x \<in> set xs"
  shows "sum_list (map g (map (\<lambda>y. if k y = k x then f y else y) xs)) = sum_list (map g xs) - g x + (g (f x) :: int)"
  using assms
proof (induction xs)
  case Nil
  then show ?case by simp
next
  case (Cons y xs)
  show ?case
  proof (cases "y = x")
    case True
    then have "map (\<lambda>y. if k y = k x then f y else y) xs = xs"
      using Cons.prems(1) by (auto intro!: map_idI simp: image_iff)
    then show ?thesis using True by (simp add: comp_def)
  next
    case False
    then have "x \<in> set xs" "k y \<noteq> k x" using Cons.prems by (auto simp: image_iff)
    then show ?thesis using Cons by simp
  qed
qed

lemma walk_append: "walk a (hs @ [h]) = Option.bind (walk a hs) (\<lambda>b. walk b [h])"
  by (induction hs arbitrary: a) auto

section \<open>One step of a request\<close>

definition refund_keys :: "wd_request \<Rightarrow> wd_status \<Rightarrow> string set" where
  "refund_keys q st = (if st \<in> {REJECTED, CANCELLED} then {refund_wd_key (wq_id q)}
     else if st = FAILED then {failure_key (wq_id q)} else {})"

definition refund_of :: "wd_request \<Rightarrow> wd_status \<Rightarrow> uid \<Rightarrow> currency \<Rightarrow> int" where
  "refund_of q st u c = (if u = wq_userId q \<and> c = DIAMOND \<and> refunded_status st then wq_amountCoins q else 0)"

definition keeps_request :: "(wd_request \<Rightarrow> wd_request) \<Rightarrow> wd_status \<Rightarrow> bool" where
  "keeps_request f st \<longleftrightarrow> (\<forall>q. wq_id (f q) = wq_id q \<and> wq_userId (f q) = wq_userId q \<and>
     wq_amountCoins (f q) = wq_amountCoins q \<and> wq_status (f q) = st)"

definition advance :: "wd_request \<Rightarrow> wd_status \<Rightarrow> ('z wd_db_scheme) \<Rightarrow> ('z wd_db_scheme) \<Rightarrow> bool" where
  "advance q st s s' \<longleftrightarrow> wf_db s' \<and>
     (\<exists>f. keeps_request f st \<and> requests s' = map (\<lambda>r. if wq_id r = wq_id q then f r else r) (requests s)) \<and>
     (\<exists>h. wh_requestId h = wq_id q \<and> wh_from h = Some (wq_status q) \<and> wh_to h = st \<and> histories s' = histories s @ [h]) \<and>
     dom (txns s') = refund_keys q st \<union> dom (txns s) \<and>
     user_balance s' = (\<lambda>u c. user_balance s u c + refund_of q st u c)"

lemma advance_find:
  assumes "advance q st s s'" "find_request (wq_id q) s = Some q"
  obtains q' where "find_request (wq_id q) s' = Some q'" "wq_status q' = st" "wq_userId q' = wq_userId q"
    "wq_amountCoins q' = wq_amountCoins q" "wq_id q' = wq_id q"
proof -
  obtain f where f: "keeps_request f st" "requests s' = map (\<lambda>r. if wq_id r = wq_id q then f r else r) (requests s)"
    using assms(1) unfolding advance_def by blast
  have fs: "wq_id (f r) = wq_id r" "wq_userId (f r) = wq_userId r" "wq_amountCoins (f r) = wq_amountCoins r"
    "wq_status (f r) = st" for r using f(1) by (simp_all add: keeps_request_def)
  have "find_request (wq_id q) s' = Some (f q)"
    using assms(2) find_map [of f, OF fs(1)] by (simp add: find_request_def f(2))
  then show thesis using that fs by simp
qed

lemma advance_ok:
  assumes ok: "wd_ok U s" and q: "find_request (wq_id q) s = Some q" and live: "\<not> terminal_status (wq_status q)"
    and adv: "advance q st s s'"
  shows "wd_ok U s'" "user_balance s' u DIAMOND + held u s' = user_balance s u DIAMOND + held u s"
    "c \<noteq> DIAMOND \<Longrightarrow> user_balance s' u c = user_balance s u c"
proof -
  obtain f h where f: "keeps_request f st" "requests s' = map (\<lambda>r. if wq_id r = wq_id q then f r else r) (requests s)"
    and h: "wh_requestId h = wq_id q" "wh_from h = Some (wq_status q)" "wh_to h = st" "histories s' = histories s @ [h]"
    and wf: "wf_db s'" and ks: "dom (txns s') = refund_keys q st \<union> dom (txns s)"
    and bal: "user_balance s' = (\<lambda>u c. user_balance s u c + refund_of q st u c)"
    using adv unfolding advance_def by blast
  have ids: "distinct (map wq_id (requests s))" and mem: "q \<in> set (requests s)"
    using ok find_request_Some [OF q] by (simp_all add: wd_ok_def)
  have fs: "wq_id (f r) = wq_id r" "wq_userId (f r) = wq_userId r" "wq_amountCoins (f r) = wq_amountCoins r"
    "wq_status (f r) = st" for r using f(1) by (simp_all add: keeps_request_def)
  have find: "find_request i s' = map_option (\<lambda>r. if wq_id r = wq_id q then f r else r) (find_request i s)" for i
    unfolding find_request_def f(2) by (rule find_map) (rule fs)
  have st: "map_option wq_status (find_request i s') =
      (if i = wq_id q then Some st else map_option wq_status (find_request i s))" for i
    using find_request_Some [of i s] q by (cases "find_request i s") (auto simp: find fs)
  have not_refunded: "\<not> refunded_status (wq_status q)" using live by (auto simp: terminal_status_def refunded_status_def)
  have "held u s' = held u s - weight u q + weight u (f q)"
    unfolding held_def f(2) by (rule sum_update [OF ids mem])
  then show "user_balance s' u DIAMOND + held u s' = user_balance s u DIAMOND + held u s"
    using not_refunded by (auto simp: weight_def fs bal refund_of_def)
  show "c \<noteq> DIAMOND \<Longrightarrow> user_balance s' u c = user_balance s u c" by (simp add: bal refund_of_def)
  have walks: "walk None (history_of i s') = Some (map_option wq_status (find_request i s'))" for i
  proof -
    have w: "walk None (history_of i s) = Some (map_option wq_status (find_request i s))" using ok by (simp add: wd_ok_def)
    show ?thesis
    proof (cases "i = wq_id q")
      case True
      have "history_of i s' = history_of i s @ [h]" using True h by (simp add: history_of_def)
      then show ?thesis using w True st [of i] q live h by (auto simp: walk_append)
    next
      case False
      then have "history_of i s' = history_of i s" using h by (simp add: history_of_def)
      then show ?thesis using w False st [of i] by simp
    qed
  qed
  have "map wq_id (requests s') = map wq_id (requests s)" by (simp add: f(2) fs)
  moreover have "\<forall>r \<in> set (requests s'). 0 < wq_amountCoins r \<and> wq_amountCoins r \<le> 2 ^ 53"
    using ok by (auto simp: f(2) fs wd_ok_def)
  moreover have "U (wd_id n) \<longrightarrow> (hold_key (wd_id n) \<in> dom (txns s') \<longleftrightarrow> find_request (wd_id n) s' \<noteq> None)" for n
  proof
    assume "U (wd_id n)"
    have "hold_key (wd_id n) \<in> dom (txns s') \<longleftrightarrow> hold_key (wd_id n) \<in> dom (txns s)" by (auto simp: ks refund_keys_def)
    also have "\<dots> \<longleftrightarrow> find_request (wd_id n) s \<noteq> None" using ok \<open>U (wd_id n)\<close> unfolding wd_ok_def by blast
    finally show "hold_key (wd_id n) \<in> dom (txns s') \<longleftrightarrow> find_request (wd_id n) s' \<noteq> None" by (simp add: find)
  qed
  moreover have "refund_wd_key i \<in> dom (txns s') \<longrightarrow> map_option wq_status (find_request i s') \<in> {Some REJECTED, Some CANCELLED}" for i
    using ok q live unfolding st ks by (fastforce simp: refund_keys_def wd_ok_def terminal_status_def split: if_splits)
  moreover have "failure_key i \<in> dom (txns s') \<longrightarrow> map_option wq_status (find_request i s') = Some FAILED" for i
    using ok q live unfolding st ks by (fastforce simp: refund_keys_def wd_ok_def terminal_status_def split: if_splits)
  ultimately show "wd_ok U s'" using wf walks ids unfolding wd_ok_def by simp
qed

definition untouched :: "('z wd_db_scheme) \<Rightarrow> ('z wd_db_scheme) \<Rightarrow> bool" where
  "untouched s s' \<longleftrightarrow> wf_db s' \<and> requests s' = requests s \<and> histories s' = histories s \<and> txns s' = txns s \<and>
     user_balance s' = user_balance s"

lemma untouched_ok:
  assumes "wd_ok U s" "untouched s s'"
  shows "wd_ok U s'" "held u s' = held u s" "user_balance s' = user_balance s"
  using assms by (simp_all add: wd_ok_def untouched_def held_def find_request_def history_of_def)

lemma thrown_untouched:
  fixes s :: "'z wd_db_scheme"
  assumes wf: "wf_db s" and run: "move ty m j s = (Inl e, s')"
  shows "untouched s s'"
  using move_thrown [OF wf run] more_wd [OF move_tables [OF wf run]] move_keeps(1) [OF wf run]
  by (simp add: untouched_def same_money_def)

section \<open>What the operations do\<close>

lemma refund_credit:
  fixes s :: "'z wd_db_scheme"
  assumes wf: "wf_db s" and amt: "0 < wq_amountCoins q" "wq_amountCoins q \<le> 2 ^ 53"
    and m: "m_userId m = wq_userId q" "m_currency m = DIAMOND" "m_amount m = of_int (toNumber (wq_amountCoins q))"
    and fresh: "m_key m \<notin> dom (txns s)" and run: "credit m False s = (Inr x, s1)"
  shows "wf_db s1" "requests s1 = requests s" "histories s1 = histories s"
    "dom (txns s1) = insert (m_key m) (dom (txns s))"
    "user_balance s1 = (\<lambda>u c. user_balance s u c + (if u = wq_userId q \<and> c = DIAMOND then wq_amountCoins q else 0))"
proof -
  have mv: "move CREDIT m False s = (Inr x, s1)" using run by (simp add: credit_def)
  have f: "txns s (m_key m) = None" using fresh by auto
  show "wf_db s1" by (rule move_keeps(1) [OF wf mv])
  show "requests s1 = requests s" "histories s1 = histories s" by (rule more_wd [OF move_tables [OF wf mv]])+
  show "dom (txns s1) = insert (m_key m) (dom (txns s))" by (rule move_keys [OF wf mv])
  show "user_balance s1 = (\<lambda>u c. user_balance s u c + (if u = wq_userId q \<and> c = DIAMOND then wq_amountCoins q else 0))"
    using move_effect(1) [OF wf f mv] amt by (simp add: m delta_def fun_eq_iff)
qed

lemma keeps_status [simp]: "keeps_request (\<lambda>r. r\<lparr>wq_status := st\<rparr>) st"
  "keeps_request (\<lambda>r. r\<lparr>wq_status := st, wq_payoutTxnId := p\<rparr>) st"
  by (simp_all add: keeps_request_def)

definition announcements :: "wd_request \<Rightarrow> wd_status \<Rightarrow> string option \<Rightarrow> wd_event list" where
  "announcements q st reason =
     (if st = APPROVED then [WithdrawalApproved (wq_id q) (wq_userId q) (toNumber (wq_amountCoins q))]
      else if st = REJECTED then [WithdrawalRejected (wq_id q) (wq_userId q) (toNumber (wq_amountCoins q)) reason]
      else [])"

lemma announce_eq: "announce q st reason = modifyA (\<lambda>s. s\<lparr>wd_bus := wd_bus s @ announcements q st reason\<rparr>)"
  by (cases st) (simp_all add: announce_def announcements_def modifyA_def returnA_def fun_eq_iff)

lemma advanceI:
  assumes "wf_db s'" "keeps_request f st" "requests s' = map (\<lambda>r. if wq_id r = wq_id q then f r else r) (requests s)"
    and "histories s' = histories s @ [\<lparr>wh_requestId = wq_id q, wh_userId = u, wh_from = Some (wq_status q), wh_to = st, wh_actorId = a, wh_createdAt = n\<rparr>]"
    and "dom (txns s') = refund_keys q st \<union> dom (txns s)"
    and "user_balance s' = (\<lambda>u c. user_balance s u c + refund_of q st u c)"
  shows "advance q st s s'"
proof -
  have "\<exists>h. wh_requestId h = wq_id q \<and> wh_from h = Some (wq_status q) \<and> wh_to h = st \<and> histories s' = histories s @ [h]"
    using assms(4) by (intro exI [of _ "\<lparr>wh_requestId = wq_id q, wh_userId = u, wh_from = Some (wq_status q), wh_to = st,
      wh_actorId = a, wh_createdAt = n\<rparr>"]) simp
  then show ?thesis using assms(1,2,3,5,6) unfolding advance_def by blast
qed

text \<open>The rows a decision writes, once the refund is through.\<close>

lemma review_rows:
  assumes find: "find_request (wq_id q) s = Some q"
    and run: "bindA (update_request (wq_id q) (\<lambda>r. r\<lparr>wq_status := st\<rparr>)) (\<lambda>_.
         bindA (modifyA (\<lambda>s. s\<lparr>reviews := reviews s @ [v]\<rparr>)) (\<lambda>_.
         bindA (add_history (wq_id q) (wq_userId q) (Some (wq_status q)) st a now) (\<lambda>_.
         bindA (wd_logAudit act (wq_userId q) (wq_id q) a now) (\<lambda>_.
         bindA (announce q st reason) (\<lambda>_. returnA (wq_status q, st)))))) s = (r, s')"
  shows "r = Inr (wq_status q, st)"
    "requests s' = map (\<lambda>r. if wq_id r = wq_id q then r\<lparr>wq_status := st\<rparr> else r) (requests s)"
    "histories s' = histories s @ [\<lparr>wh_requestId = wq_id q, wh_userId = wq_userId q, wh_from = Some (wq_status q),
       wh_to = st, wh_actorId = a, wh_createdAt = now\<rparr>]"
    "txns s' = txns s" "user_balance s' = user_balance s" "wf_db s' = wf_db s"
  using find run
  by (auto simp: bindA_def update_request_def modifyA_def add_history_def wd_logAudit_def returnA_def announce_eq)

lemma review_effect:
  fixes s :: "'z wd_db_scheme"
  assumes ok: "wd_ok U s" and q: "find_request (wq_id q) s = Some q" and live: "\<not> terminal_status (wq_status q)"
    and run: "review_commit q reviewer action reason now days s = (r, s')"
  shows "(r = Inr (wq_status q, decided action) \<and> advance q (decided action) s s') \<or> ((\<exists>e. r = Inl e) \<and> untouched s s')"
proof -
  let ?st = "decided action"
  have wf: "wf_db s" and amt: "0 < wq_amountCoins q" "wq_amountCoins q \<le> 2 ^ 53"
    using ok find_request_Some [OF q] by (auto simp: wd_ok_def)
  show ?thesis
  proof (cases "?st = REJECTED \<or> ?st = CANCELLED")
    case False
    then have "?st \<noteq> FAILED" "\<not> refunded_status ?st" by (cases action; simp add: refunded_status_def)+
    with False show ?thesis
      using run review_rows [OF q, of ?st] wf
      by (intro disjI1 conjI advanceI)
        (auto simp: review_commit_def Let_def refund_keys_def refund_of_def keeps_status
          intro: advanceI)
  next
    case True
    have fresh: "refund_wd_key (wq_id q) \<notin> dom (txns s)"
      using ok q live by (auto simp: wd_ok_def terminal_status_def)
    obtain x s1 where cr: "credit (refund_wd_movement q) False s = (x, s1)" by fastforce
    show ?thesis
    proof (cases x)
      case (Inl e)
      then have "r = Inl e \<and> s' = s1" using run cr True by (simp add: review_commit_def Let_def bindA_def)
      then show ?thesis using thrown_untouched [OF wf] cr Inl by (simp add: credit_def)
    next
      case (Inr y)
      note c = refund_credit [OF wf amt, of "refund_wd_movement q" y s1, simplified, OF fresh cr [unfolded Inr]]
      let ?s = "s1\<lparr>stats := fold (upsert_stat (wq_userId q) Rejected_request (wq_amountCoins q) now) (periods days) (stats s1)\<rparr>"
      have find1: "find_request (wq_id q) ?s = Some q" using q c(2) by (simp add: find_request_def)
      have "bindA (update_request (wq_id q) (\<lambda>r. r\<lparr>wq_status := ?st\<rparr>)) (\<lambda>_.
         bindA (modifyA (\<lambda>s. s\<lparr>reviews := reviews s @ [\<lparr>wv_requestId = wq_id q, wv_reviewerId = reviewer,
                  wv_action = action, wv_reason = reason\<rparr>]\<rparr>)) (\<lambda>_.
         bindA (add_history (wq_id q) (wq_userId q) (Some (wq_status q)) ?st (Some reviewer) now) (\<lambda>_.
         bindA (wd_logAudit (audit_action ?st) (wq_userId q) (wq_id q) (Some reviewer) now) (\<lambda>_.
         bindA (announce q ?st reason) (\<lambda>_. returnA (wq_status q, ?st)))))) ?s = (r, s')"
        using True run cr Inr
        by (auto simp: review_commit_def Let_def updateStatistics_def bindA_def [of "bindA _ _"] bindA_def [of "credit _ _"]
          modifyA_def)
      note rows = review_rows [OF find1 this]
      have "advance q ?st s s'"
        by (rule advanceI [of _ "\<lambda>r. r\<lparr>wq_status := ?st\<rparr>"])
          (use rows c True in \<open>auto simp: refund_keys_def refund_of_def refunded_status_def\<close>)
      then show ?thesis using rows(1) by blast
    qed
  qed
qed

lemma exec_effect:
  fixes s :: "'z wd_db_scheme"
  assumes ok: "wd_ok U s" and q: "find_request (wq_id q) s = Some q" and live: "\<not> terminal_status (wq_status q)"
    and run: "exec_commit env q given now days s = (r, s')"
  obtains s1 where "advance q PROCESSING s s1" "find_request (wq_id q) s1 = Some (q\<lparr>wq_status := PROCESSING\<rparr>)"
    "user_status s1 = user_status s" "solvent s1 = solvent s"
    "we_uuid env (payout_id given now) \<and> r = Inr WD_COMPLETED \<and> advance (q\<lparr>wq_status := PROCESSING\<rparr>) WD_COMPLETED s1 s' \<or>
     \<not> we_uuid env (payout_id given now) \<and>
       (r = Inr FAILED \<and> advance (q\<lparr>wq_status := PROCESSING\<rparr>) FAILED s1 s' \<or>
        (\<exists>e s0. credit (failure_movement q) False s0 = (Inl e, s') \<and> r = Inl e \<and> s0 = s1) \<and> untouched s1 s')"
proof -
  have wf: "wf_db s" and amt: "0 < wq_amountCoins q" "wq_amountCoins q \<le> 2 ^ 53"
    using ok find_request_Some [OF q] by (auto simp: wd_ok_def)
  let ?q = "q\<lparr>wq_status := PROCESSING\<rparr>" and ?pid = "payout_id given now"
  let ?s = "s\<lparr>requests := map (\<lambda>r. if wq_id r = wq_id q then r\<lparr>wq_status := PROCESSING\<rparr> else r) (requests s),
    histories := histories s @ [\<lparr>wh_requestId = wq_id q, wh_userId = wq_userId q, wh_from = Some (wq_status q),
       wh_to = PROCESSING, wh_actorId = None, wh_createdAt = now\<rparr>],
    wd_audits := wd_audits s @ [\<lparr>wa_action = ''WITHDRAWAL_PROCESSING'', wa_userId = wq_userId q, wa_requestId = wq_id q,
       wa_actorId = None, wa_createdAt = now\<rparr>]\<rparr>"
  have split: "catchA (complete_payout env q ?pid now days) (fail_payout q now) ?s = (r, s')"
    using run q by (simp add: exec_commit_def bindA_def update_request_def add_history_def wd_logAudit_def modifyA_def)
  have adv: "advance q PROCESSING s ?s"
    by (rule advanceI [of _ "\<lambda>r. r\<lparr>wq_status := PROCESSING\<rparr>"])
      (simp_all add: wf refund_keys_def refund_of_def refunded_status_def fun_eq_iff)
  have find: "find_request (wq_id q) ?s = Some ?q"
    using q find_map [of "\<lambda>r. r\<lparr>wq_status := PROCESSING\<rparr>" "wq_id q" "wq_id q" "requests s"]
    by (simp add: find_request_def)
  have st: "user_status ?s = user_status s" "solvent ?s = solvent s" by simp_all
  note ok1 = advance_ok(1) [OF ok q live adv]
  show thesis
  proof (cases "we_uuid env ?pid")
    case True
    have "r = Inr WD_COMPLETED \<and> advance ?q WD_COMPLETED ?s s'"
      using split True find
      by (auto simp: catchA_def complete_payout_def bindA_def guardA_def update_request_def add_history_def
        updateStatistics_def wd_logAudit_def modifyA_def returnA_def refund_keys_def refund_of_def refunded_status_def
        wf fun_eq_iff intro!: advanceI [of _ "\<lambda>r. r\<lparr>wq_status := WD_COMPLETED, wq_payoutTxnId := Some ?pid\<rparr>"])
    then show thesis using that [OF adv find st] True by blast
  next
    case False
    then have f: "fail_payout q now (OtherError ''P2023'') ?s = (r, s')"
      using split by (simp add: catchA_def complete_payout_def bindA_def guardA_def)
    have wf1: "wf_db ?s" using wf by simp
    have fresh: "failure_key (wq_id q) \<notin> dom (txns ?s)"
      using ok q live by (auto simp: wd_ok_def terminal_status_def)
    obtain x s2 where cr: "credit (failure_movement q) False ?s = (x, s2)" by fastforce
    show thesis
    proof (cases x)
      case (Inl e)
      then have "r = Inl e \<and> s' = s2" using f cr by (simp add: fail_payout_def bindA_def)
      moreover have "untouched ?s s2" using thrown_untouched [OF wf1] cr Inl by (simp add: credit_def)
      ultimately show thesis using that [OF adv find st] False cr Inl by blast
    next
      case (Inr y)
      note c = refund_credit [OF wf1 amt, of "failure_movement q" y s2, simplified, OF fresh [simplified] cr [unfolded Inr]]
      have find2: "find_request (wq_id q) s2 = Some ?q" using find c(2) by (simp add: find_request_def)
      have res: "r = Inr FAILED" "txns s' = txns s2" "user_balance s' = user_balance s2" "wf_db s' = wf_db s2"
        "requests s' = map (\<lambda>r. if wq_id r = wq_id q then r\<lparr>wq_status := FAILED\<rparr> else r) (requests s2)"
        "histories s' = histories s2 @ [\<lparr>wh_requestId = wq_id q, wh_userId = wq_userId q, wh_from = Some PROCESSING,
           wh_to = FAILED, wh_actorId = None, wh_createdAt = now\<rparr>]"
        using f cr Inr find2
        by (auto simp: fail_payout_def bindA_def update_request_def add_history_def wd_logAudit_def modifyA_def returnA_def)
      have "advance ?q FAILED ?s s'"
        by (rule advanceI [of _ "\<lambda>r. r\<lparr>wq_status := FAILED\<rparr>"])
          (simp_all add: res c refund_keys_def refund_of_def refunded_status_def fun_eq_iff)
      with res(1) have "r = Inr FAILED \<and> advance ?q FAILED ?s s'" by simp
      then show thesis using that [OF adv find st] False by blast
    qed
  qed
qed

section \<open>Requests\<close>

lemma liftE_state [simp]: "liftE x s = (case x of Inl e \<Rightarrow> (Inl e, s) | Inr a \<Rightarrow> (Inr a, s))"
  by (simp add: liftE_def throwA_def returnA_def split: sum.split)

lemma validate_state: "validateWithdrawalRequest env u a midnight s = (r, s') \<Longrightarrow> s' = s"
  by (auto simp: validateWithdrawalRequest_def Let_def bindA_def getsA_def guardA_def returnA_def
    split: if_splits sum.splits)

text \<open>A request reaches the wallet, or it changes nothing.\<close>

lemma request_run:
  assumes run: "requestWithdrawal env inp now midnight days s = (r, s')"
  obtains (refused) e where "r = Inl e" "s' = s"
  | (held_debit) fee d s1 where "debit (hold_movement inp (wd_id now)) False s = (d, s1)"
      "r = (case d of Inl e \<Rightarrow> Inl e | Inr x \<Rightarrow> fst (record_request env inp fee (mr_transactionId x) now days s1))"
      "s' = (case d of Inl e \<Rightarrow> s1 | Inr x \<Rightarrow> snd (record_request env inp fee (mr_transactionId x) now days s1))"
proof -
  obtain v s0 where v: "validateWithdrawalRequest env (in_userId inp) (in_amountCoins inp) midnight s = (v, s0)" by fastforce
  then have s0: "s0 = s" by (rule validate_state)
  show thesis
  proof (cases v)
    case (Inl e)
    then show thesis using refused [of e] run v s0 by (auto simp: requestWithdrawal_def bindA_def)
  next
    case (Inr cb)
    obtain c b where cb: "cb = (c, b)" by fastforce
    show thesis
    proof (cases "toBigInt (processingFeeCoins c)")
      case (Inl e)
      then show thesis using refused [of e] run v s0 Inr cb by (auto simp: requestWithdrawal_def bindA_def)
    next
      fix fee assume fee: "toBigInt (processingFeeCoins c) = Inr fee"
      obtain d s1 where d: "debit (hold_movement inp (wd_id now)) False s = (d, s1)" by fastforce
      have eq: "requestWithdrawal env inp now midnight days s =
          (case d of Inl e \<Rightarrow> (Inl e, s1) | Inr x \<Rightarrow> record_request env inp fee (mr_transactionId x) now days s1)"
        by (simp add: requestWithdrawal_def bindA_def v s0 Inr cb fee d split: sum.split)
      show thesis
        by (rule held_debit [OF d, of fee]) (use run eq in \<open>cases d; simp\<close>)+
    qed
  qed
qed

lemma record_request_eq:
  "record_request env inp fee txn now days s =
     (let q = new_request inp (wd_id now) fee txn now in
      if \<not> we_uuid env (wd_id now) then (Inl (OtherError ''P2023''), s)
      else if find_request (wd_id now) s \<noteq> None then (Inl P2002, s)
      else (Inr q, s\<lparr>requests := requests s @ [q],
        histories := histories s @ [\<lparr>wh_requestId = wd_id now, wh_userId = in_userId inp, wh_from = None,
          wh_to = PENDING, wh_actorId = Some (in_userId inp), wh_createdAt = now\<rparr>],
        stats := fold (upsert_stat (in_userId inp) Requested (in_amountCoins inp) now) (periods days) (stats s),
        wd_audits := wd_audits s @ [\<lparr>wa_action = ''WITHDRAWAL_REQUESTED'', wa_userId = in_userId inp,
          wa_requestId = wd_id now, wa_actorId = None, wa_createdAt = now\<rparr>]\<rparr>))"
  by (simp add: record_request_def insert_request_def new_request_def bindA_def add_history_def updateStatistics_def
    wd_logAudit_def modifyA_def returnA_def Let_def)

lemma walk_none: "walk a hs = Some None \<Longrightarrow> a = None \<and> hs = []"
proof (induction hs arbitrary: a)
  case Nil
  then show ?case by simp
next
  case (Cons h hs)
  then have "walk (Some (wh_to h)) hs = Some None" by (simp split: if_splits)
  then show ?case using Cons.IH by blast
qed

lemma find_snoc: "List.find P xs = None \<Longrightarrow> List.find P (xs @ [y]) = (if P y then Some y else None)"
  by (induction xs) (auto split: if_splits)

lemma find_snoc_other: "\<not> P y \<Longrightarrow> List.find P (xs @ [y]) = List.find P xs"
  by (induction xs) auto

lemma toNumber_nonpos: "n \<le> 0 \<Longrightarrow> toNumber n \<le> 0"
  by (auto simp: toNumber_def Let_def sgn_if)

text \<open>
  What a request costs its user for nothing: the hold it takes when the database refuses the
  identifier of its row.
\<close>

definition lost_hold :: "uid \<Rightarrow> wd_env \<Rightarrow> wd_input \<Rightarrow> int \<Rightarrow> ('z wd_db_scheme) \<Rightarrow> ('z wd_db_scheme) \<Rightarrow> int" where
  "lost_hold u env inp now s s' =
     (if in_userId inp = u \<and> \<not> we_uuid env (wd_id now) \<and> hold_key (wd_id now) \<notin> dom (txns s) \<and>
         hold_key (wd_id now) \<in> dom (txns s')
      then in_amountCoins inp else 0)"

text \<open>What a hold under a new key leaves: the amount is off the balance, its key is in the ledger.\<close>

definition hold_taken :: "wd_input \<Rightarrow> int \<Rightarrow> ('z wd_db_scheme) \<Rightarrow> ('z wd_db_scheme) \<Rightarrow> bool" where
  "hold_taken inp now s s1 \<longleftrightarrow> wf_db s1 \<and> requests s1 = requests s \<and> histories s1 = histories s \<and>
     0 < in_amountCoins inp \<and> in_amountCoins inp \<le> 2 ^ 53 \<and>
     hold_key (wd_id now) \<notin> dom (txns s) \<and> dom (txns s1) = insert (hold_key (wd_id now)) (dom (txns s)) \<and>
     (\<forall>v k. user_balance s1 v k = user_balance s v k - (if v = in_userId inp \<and> k = DIAMOND then in_amountCoins inp else 0))"

lemma hold_debit:
  fixes s :: "'z wd_db_scheme"
  assumes wf: "wf_db s" and small: "in_amountCoins inp \<le> 2 ^ 53" and new: "hold_key (wd_id now) \<notin> dom (txns s)"
    and mv: "move DEBIT (hold_movement inp (wd_id now)) False s = (Inr x, s1)"
  shows "hold_taken inp now s s1"
proof -
  have f: "txns s (m_key (hold_movement inp (wd_id now))) = None" using new by auto
  have pos: "0 < in_amountCoins inp"
    using move_effect(2) [OF wf f mv] toNumber_nonpos [of "in_amountCoins inp"] by force
  then have num: "toNumber (in_amountCoins inp) = in_amountCoins inp" using small by simp
  show ?thesis
    using more_wd [OF move_tables [OF wf mv]] move_keeps(1) [OF wf mv] move_keys [OF wf mv] pos small new
      move_effect(1) [OF wf f mv] num
    by (simp add: hold_taken_def delta_def)
qed

lemma hold_takenD:
  assumes "hold_taken inp now s s1"
  shows "wf_db s1" "requests s1 = requests s" "histories s1 = histories s" "0 < in_amountCoins inp" "in_amountCoins inp \<le> 2 ^ 53"
    "hold_key (wd_id now) \<notin> dom (txns s)" "dom (txns s1) = insert (hold_key (wd_id now)) (dom (txns s))"
    "user_balance s1 v k = user_balance s v k - (if v = in_userId inp \<and> k = DIAMOND then in_amountCoins inp else 0)"
  using assms by (simp_all add: hold_taken_def)

text \<open>A refused row leaves the hold and nothing else.\<close>

lemma refused_row:
  fixes s :: "'z wd_db_scheme"
  assumes ok: "wd_ok U s" and no: "\<not> U (wd_id now)" and hold: "hold_taken inp now s s1"
  shows "wd_ok U s1" "held u s1 = held u s"
proof -
  note h = hold_takenD [OF hold]
  show "wd_ok U s1"
    unfolding wd_ok_def
  proof (intro conjI)
    show "\<forall>n. U (wd_id n) \<longrightarrow> (hold_key (wd_id n) \<in> dom (txns s1)) = (find_request (wd_id n) s1 \<noteq> None)"
      using ok no unfolding wd_ok_def h(7) find_request_def h(2) by auto
  qed (use ok h(1) in \<open>auto simp: wd_ok_def h(2,3,7) find_request_def history_of_def\<close>)
  show "held u s1 = held u s" by (simp add: held_def h(2))
qed

text \<open>A stored row starts its walk and holds the amount.\<close>

lemma walk_starts:
  assumes ok: "wd_ok U s" and none: "find_request i s = None" and h: "wh_requestId h = i" "wh_from h = None" "wh_to h = PENDING"
    and s': "histories s' = histories s @ [h]"
    and find: "\<And>j. find_request j s' = (if j = i then Some q else find_request j s)" and q: "wq_status q = PENDING"
  shows "walk None (history_of j s') = Some (map_option wq_status (find_request j s'))"
proof -
  have w: "walk None (history_of j s) = Some (map_option wq_status (find_request j s))" using ok by (simp add: wd_ok_def)
  show ?thesis
  proof (cases "j = i")
    case True
    then have "history_of j s = []" using w none walk_none by fastforce
    then have "history_of j s' = [h]" using True h by (simp add: history_of_def s')
    then show ?thesis using True by (simp add: find q h)
  next
    case False
    then have "history_of j s' = history_of j s" using h by (simp add: history_of_def s')
    then show ?thesis using w False by (simp add: find)
  qed
qed

lemma stored_row:
  fixes s :: "'z wd_db_scheme"
  assumes ok: "wd_ok U s" and none: "find_request (wd_id now) s = None" and hold: "hold_taken inp now s s1"
    and run: "record_request env inp fee txn now days s1 = (r, s')" and takes: "we_uuid env (wd_id now)"
  shows "wd_ok U s'" "user_balance s' = user_balance s1"
    "held v s' = held v s + (if v = in_userId inp then in_amountCoins inp else 0)"
proof -
  let ?i = "wd_id now" and ?q = "new_request inp (wd_id now) fee txn now"
  note h = hold_takenD [OF hold]
  have "find_request ?i s1 = None" using none h(2) by (simp add: find_request_def)
  then have s': "requests s' = requests s @ [?q]" "txns s' = txns s1" "user_balance s' = user_balance s1" "wf_db s' = wf_db s1"
    "histories s' = histories s @ [\<lparr>wh_requestId = ?i, wh_userId = in_userId inp, wh_from = None, wh_to = PENDING,
       wh_actorId = Some (in_userId inp), wh_createdAt = now\<rparr>]"
    using run takes h(2,3) by (auto simp: record_request_eq Let_def)
  have q: "wq_id ?q = ?i" "wq_userId ?q = in_userId inp" "wq_amountCoins ?q = in_amountCoins inp" "wq_status ?q = PENDING"
    by (simp_all add: new_request_def)
  have find: "find_request j s' = (if j = ?i then Some ?q else find_request j s)" for j
    using none by (auto simp: find_request_def s' q find_snoc find_snoc_other)
  have nid: "?i \<notin> wq_id ` set (requests s)" using none by (auto simp: find_request_def find_None_iff)
  note keys = h(7) [folded s'(2)]
  show "wd_ok U s'"
    unfolding wd_ok_def
  proof (intro conjI)
    show "wf_db s'" using s' h(1) by simp
    show "distinct (map wq_id (requests s'))" using ok nid by (simp add: s' q wd_ok_def)
    show "\<forall>q \<in> set (requests s'). 0 < wq_amountCoins q \<and> wq_amountCoins q \<le> 2 ^ 53"
      using ok h(4,5) by (auto simp: s' q wd_ok_def)
    show "\<forall>n. U (wd_id n) \<longrightarrow> (hold_key (wd_id n) \<in> dom (txns s') \<longleftrightarrow> find_request (wd_id n) s' \<noteq> None)"
      using ok unfolding wd_ok_def keys find by auto
    show "\<forall>i. refund_wd_key i \<in> dom (txns s') \<longrightarrow> map_option wq_status (find_request i s') \<in> {Some REJECTED, Some CANCELLED}"
      "\<forall>i. failure_key i \<in> dom (txns s') \<longrightarrow> map_option wq_status (find_request i s') = Some FAILED"
      using ok none unfolding wd_ok_def keys find by auto
    show "\<forall>i. walk None (history_of i s') = Some (map_option wq_status (find_request i s'))"
      using walk_starts [OF ok none _ _ _ s'(5) find q(4)] by simp
  qed
  show "user_balance s' = user_balance s1" by (rule s')
  show "held v s' = held v s + (if v = in_userId inp then in_amountCoins inp else 0)"
    by (simp add: held_def s' weight_def q refunded_status_def)
qed

lemma request_effect:
  fixes s :: "'z wd_db_scheme"
  assumes ok: "wd_ok U s" and small: "in_amountCoins inp \<le> 2 ^ 53" and uuid: "we_uuid env = U"
    and run: "requestWithdrawal env inp now midnight days s = (r, s')"
  shows "wd_ok U s' \<and>
    user_balance s' u DIAMOND + held u s' + lost_hold u env inp now s s' = user_balance s u DIAMOND + held u s \<and>
    (c \<noteq> DIAMOND \<longrightarrow> user_balance s' u c = user_balance s u c)"
  using run
proof (cases rule: request_run)
  case (refused e)
  then show ?thesis using ok by (auto simp: lost_hold_def)
next
  case (held_debit fee d s1)
  let ?i = "wd_id now" and ?m = "hold_movement inp (wd_id now)"
  have wf: "wf_db s" using ok by (simp add: wd_ok_def)
  have mv: "move DEBIT ?m False s = (d, s1)" using held_debit(1) by (simp add: debit_def)
  show ?thesis
  proof (cases d)
    case (Inl e)
    then have "untouched s s1" using thrown_untouched [OF wf] mv by simp
    moreover then have "lost_hold u env inp now s s1 = 0" by (simp add: untouched_def lost_hold_def)
    ultimately show ?thesis using untouched_ok [OF ok, of s1] held_debit(3) Inl by simp
  next
    case (Inr x)
    note rec = held_debit(3) [unfolded Inr sum.case]
    consider (used) "hold_key ?i \<in> dom (txns s)" | (lost) "hold_key ?i \<notin> dom (txns s)" "\<not> U ?i"
      | (stored) "hold_key ?i \<notin> dom (txns s)" "U ?i" by blast
    then show ?thesis
    proof cases
      case used
      then obtain t where "txns s (m_key ?m) = Some t" by auto
      then have "s1 = s" using move_used mv by blast
      moreover have "U ?i \<longrightarrow> find_request ?i s \<noteq> None" using ok used unfolding wd_ok_def by blast
      moreover have "lost_hold u env inp now s s' = 0" using used by (simp add: lost_hold_def)
      ultimately show ?thesis using rec ok uuid by (simp add: record_request_eq Let_def)
    next
      case lost
      note hold = hold_debit [OF wf small lost(1) mv [unfolded Inr]]
      have "s' = s1" using rec lost(2) uuid by (simp add: record_request_eq Let_def)
      then show ?thesis
        using refused_row [OF ok lost(2) hold] hold_takenD(6-8) [OF hold] lost(2) uuid by (simp add: lost_hold_def)
    next
      case stored
      note hold = hold_debit [OF wf small stored(1) mv [unfolded Inr]]
      have none: "find_request ?i s = None" using ok stored unfolding wd_ok_def by blast
      obtain y where "record_request env inp fee (mr_transactionId x) now days s1 = (y, s')" using rec by (metis prod.collapse)
      note row = stored_row [OF ok none hold this]
      have "lost_hold u env inp now s s' = 0" using stored(2) uuid by (simp add: lost_hold_def)
      then show ?thesis using row hold_takenD(8) [OF hold] stored(2) uuid by simp
    qed
  qed
qed

end
