(* ===== verification/WithdrawalProperties.thy ===== *)
theory WithdrawalProperties
  imports WithdrawalLaws
begin

text \<open>
  The withdrawals over whole runs, the three failures of the module, and concrete runs that meet
  the hypotheses.
\<close>

section \<open>Runs\<close>

datatype wd_op =
    Ask wd_env wd_input int int "string \<times> string"
  | Decide string uid wd_action "string option" int "string \<times> string"
  | Payout wd_env string "string option" int "string \<times> string"

fun wd_step :: "wd_op \<Rightarrow> ('z wd_db_scheme) \<Rightarrow> ('z wd_db_scheme)" where
  "wd_step (Ask env inp now midnight days) s = snd (requestWithdrawal env inp now midnight days s)"
| "wd_step (Decide i reviewer action reason now days) s = snd (reviewWithdrawal i reviewer action reason now days s)"
| "wd_step (Payout env i given now days) s = snd (executePayout env i given now days s)"

definition wd_run :: "wd_op list \<Rightarrow> ('z wd_db_scheme) \<Rightarrow> ('z wd_db_scheme)" where
  "wd_run ops s = fold wd_step ops s"

text \<open>
  Amounts a double holds exactly, and one database: \<open>U\<close> are the texts its UUID columns take. Nothing
  is assumed of \<open>U\<close>; it may refuse the identifiers the module makes up.
\<close>

fun wd_allowed :: "(string \<Rightarrow> bool) \<Rightarrow> wd_op \<Rightarrow> bool" where
  "wd_allowed U (Ask env inp now midnight days) \<longleftrightarrow> in_amountCoins inp \<le> 2 ^ 53 \<and> we_uuid env = U"
| "wd_allowed U (Payout env i given now days) \<longleftrightarrow> we_uuid env = U"
| "wd_allowed U (Decide i reviewer action reason now days) \<longleftrightarrow> True"

text \<open>What a run costs a user for nothing: the holds of the requests the database refused.\<close>

fun lost_step :: "uid \<Rightarrow> wd_op \<Rightarrow> ('z wd_db_scheme) \<Rightarrow> int" where
  "lost_step u (Ask env inp now midnight days) s =
     lost_hold u env inp now s (wd_step (Ask env inp now midnight days) s)"
| "lost_step u (Decide i reviewer action reason now days) s = 0"
| "lost_step u (Payout env i given now days) s = 0"

fun lost_holds :: "uid \<Rightarrow> wd_op list \<Rightarrow> ('z wd_db_scheme) \<Rightarrow> int" where
  "lost_holds u [] s = 0"
| "lost_holds u (x # ops) s = lost_step u x s + lost_holds u ops (wd_step x s)"

definition settled :: "(string \<Rightarrow> bool) \<Rightarrow> ('z wd_db_scheme) \<Rightarrow> ('z wd_db_scheme) \<Rightarrow> bool" where
  "settled U s s' \<longleftrightarrow> (wd_ok U s \<longrightarrow> wd_ok U s' \<and>
     (\<forall>u. user_balance s' u DIAMOND + held u s' = user_balance s u DIAMOND + held u s) \<and>
     (\<forall>u c. c \<noteq> DIAMOND \<longrightarrow> user_balance s' u c = user_balance s u c))"

interpretation se: step_order "settled U" for U
  by unfold_locales (auto simp: settled_def)

lemma settled_advance:
  assumes "find_request (wq_id q) s = Some q" "\<not> terminal_status (wq_status q)" "advance q st s s'"
  shows "settled U s s'"
  using advance_ok assms unfolding settled_def by blast

lemma settled_untouched: "untouched s s' \<Longrightarrow> settled U s s'"
  using untouched_ok unfolding settled_def by metis

lemma review_check_Inr:
  "review_check i reviewer action s = (Inr q, s') \<longleftrightarrow> s' = s \<and> find_request i s = Some q \<and>
     \<not> terminal_status (wq_status q) \<and> (action = CANCEL \<longrightarrow> wq_userId q = reviewer)"
  by (auto simp: review_check_def split: option.splits)

lemma review_check_Inl: "review_check i reviewer action s = (Inl e, s') \<Longrightarrow> s' = s"
  by (auto simp: review_check_def split: option.splits if_splits)

lemma exec_check_Inr:
  "exec_check i s = (Inr q, s') \<longleftrightarrow> s' = s \<and> find_request i s = Some q \<and> wq_status q \<in> {APPROVED, PROCESSING}"
  by (auto simp: exec_check_def split: option.splits)

lemma exec_check_Inl: "exec_check i s = (Inl e, s') \<Longrightarrow> s' = s"
  by (auto simp: exec_check_def split: option.splits if_splits)

lemma settledI: "(wd_ok U s \<Longrightarrow> settled U s s') \<Longrightarrow> settled U s s'"
  by (auto simp: settled_def)

lemma settled_review: "se.ok U (reviewWithdrawal i reviewer action reason now days)"
proof (rule se.okI, rule settledI)
  fix s r and s' :: "'z wd_db_scheme"
  assume run: "reviewWithdrawal i reviewer action reason now days s = (r, s')" and ok: "wd_ok U s"
  obtain x s0 where ck: "review_check i reviewer action s = (x, s0)" by fastforce
  show "settled U s s'"
  proof (cases x)
    case (Inl e)
    then have "s' = s" using run ck review_check_Inl [of i reviewer action s e s0] by (simp add: reviewWithdrawal_def bindA_def)
    then show ?thesis by (simp add: se.refl_step)
  next
    case (Inr q)
    then have q: "find_request (wq_id q) s = Some q" "\<not> terminal_status (wq_status q)" "s0 = s"
      using ck find_request_Some by (auto simp: review_check_Inr)
    then have "review_commit q reviewer action reason now days s = (r, s')"
      using run ck Inr by (simp add: reviewWithdrawal_def bindA_def)
    from review_effect [OF ok q(1,2) this] show ?thesis using settled_advance [OF q(1,2)] settled_untouched by blast
  qed
qed

lemma processing_live [simp]: "\<not> terminal_status PROCESSING"
  by (simp add: terminal_status_def)

lemma settled_exec: "se.ok U (executePayout env i given now days)"
proof (rule se.okI, rule settledI)
  fix s r and s' :: "'z wd_db_scheme"
  assume run: "executePayout env i given now days s = (r, s')" and ok: "wd_ok U s"
  obtain x s0 where ck: "exec_check i s = (x, s0)" by fastforce
  show "settled U s s'"
  proof (cases x)
    case (Inl e)
    then have "s' = s" using run ck exec_check_Inl [of i s e s0] by (simp add: executePayout_def bindA_def)
    then show ?thesis by (simp add: se.refl_step)
  next
    case (Inr q)
    then have q: "find_request (wq_id q) s = Some q" "\<not> terminal_status (wq_status q)" "s0 = s"
      using ck find_request_Some by (auto simp: exec_check_Inr terminal_status_def)
    have "exec_commit env q given now days s = (r, s')"
      using run ck Inr q(3) by (simp add: executePayout_def bindA_def)
    with ok q(1,2) show ?thesis
    proof (cases rule: exec_effect)
      case (1 s1)
      have "settled U s s1" by (rule settled_advance [OF q(1,2) 1(1)])
      moreover have "settled U s1 s'"
      proof (cases "untouched s1 s'")
        case False
        then obtain st where "advance (q\<lparr>wq_status := PROCESSING\<rparr>) st s1 s'" using 1(5) by blast
        from settled_advance [OF _ _ this] show ?thesis by (simp add: 1(2))
      qed (rule settled_untouched)
      ultimately show ?thesis by (rule se.trans_step)
    qed
  qed
qed

lemma se_snd: "se.ok U m \<Longrightarrow> settled U s (snd (m s))"
  by (simp add: se.ok_def)

text \<open>A request settles too, up to what it loses.\<close>

definition books_kept :: "(string \<Rightarrow> bool) \<Rightarrow> ('z wd_db_scheme) \<Rightarrow> (uid \<Rightarrow> int) \<Rightarrow> ('z wd_db_scheme) \<Rightarrow> bool" where
  "books_kept U s l s' \<longleftrightarrow> wd_ok U s' \<and>
     (\<forall>u. user_balance s' u DIAMOND + held u s' + l u = user_balance s u DIAMOND + held u s) \<and>
     (\<forall>u c. c \<noteq> DIAMOND \<longrightarrow> user_balance s' u c = user_balance s u c)"

lemma books_kept_step:
  assumes "wd_ok U s" "wd_allowed U x"
  shows "books_kept U s (\<lambda>u. lost_step u x s) (wd_step x s)"
proof (cases x)
  case (Ask env inp now midnight days)
  then have small: "in_amountCoins inp \<le> 2 ^ 53" and uuid: "we_uuid env = U" using assms(2) by simp_all
  obtain r s' where run: "requestWithdrawal env inp now midnight days s = (r, s')" by fastforce
  show ?thesis using request_effect [OF assms(1) small uuid run] by (simp add: Ask run books_kept_def)
next
  case (Decide i reviewer action reason now days)
  then show ?thesis
    using se_snd [OF settled_review, of U s i reviewer action reason now days] assms(1)
    by (simp add: settled_def books_kept_def)
next
  case (Payout env i given now days)
  then show ?thesis
    using se_snd [OF settled_exec, of U s env i given now days] assms(1) by (simp add: settled_def books_kept_def)
qed

lemma books_kept_run:
  "wd_ok U s \<Longrightarrow> list_all (wd_allowed U) ops \<Longrightarrow> books_kept U s (\<lambda>u. lost_holds u ops s) (wd_run ops s)"
proof (induction ops arbitrary: s)
  case Nil
  then show ?case by (simp add: wd_run_def books_kept_def)
next
  case (Cons x ops)
  have a: "books_kept U s (\<lambda>u. lost_step u x s) (wd_step x s)" using Cons.prems by (simp add: books_kept_step)
  then have ok: "wd_ok U (wd_step x s)" by (simp add: books_kept_def)
  have b: "books_kept U (wd_step x s) (\<lambda>u. lost_holds u ops (wd_step x s)) (wd_run ops (wd_step x s))"
    using Cons.IH [OF ok] Cons.prems by simp
  have "user_balance (wd_run ops (wd_step x s)) u DIAMOND + held u (wd_run ops (wd_step x s)) +
      (lost_step u x s + lost_holds u ops (wd_step x s)) = user_balance s u DIAMOND + held u s" for u
    using a b unfolding books_kept_def by (metis (no_types, lifting) add.assoc add.commute)
  then show ?case using a b by (simp add: books_kept_def wd_run_def)
qed

lemma lost_nothing: "(\<And>n. U (wd_id n)) \<Longrightarrow> list_all (wd_allowed U) ops \<Longrightarrow> lost_holds u ops s = 0"
proof (induction ops arbitrary: s)
  case (Cons x ops)
  moreover have "lost_step u x s = 0" using Cons.prems by (cases x) (auto simp: lost_hold_def)
  ultimately show ?case by simp
qed simp


text \<open>
  C39: As long as requests, reviews and payouts run one after the other, the recorded transitions of
  each request form a walk: it starts with the creation as PENDING, each transition starts at the
  status the one before reached, none leaves a terminal status, and the last one reaches the status
  the request has. The database may take or refuse any identifier.
\<close>

theorem history_is_a_walk:
  assumes "wd_ok U s" "list_all (wd_allowed U) ops"
  shows "walk None (history_of i (wd_run ops s)) = Some (map_option wq_status (find_request i (wd_run ops s)))"
proof -
  have "wd_ok U (wd_run ops s)" using books_kept_run [OF assms] by (simp add: books_kept_def)
  then show ?thesis unfolding wd_ok_def by blast
qed

section \<open>Identifiers that are no UUIDs\<close>

text \<open>
  PostgreSQL reads a UUID from hexadecimal digits, hyphens and braces. The identifiers the module
  makes up, \<open>wd-\<close> and \<open>payout-tx-\<close> followed by the milliseconds, hold other letters, and the columns
  \<open>id\<close> and \<open>payoutTxnId\<close> of the requests are UUID columns (prisma/schema/withdrawals.prisma).
\<close>

definition uuid_text :: "string \<Rightarrow> bool" where
  "uuid_text t \<longleftrightarrow> list_all (\<lambda>c. c \<in> set ''0123456789abcdefABCDEF-{}'') t"

lemma made_up_ids: "\<not> uuid_text (wd_id now)" "\<not> uuid_text (payout_id None now)"
  by (simp_all add: uuid_text_def wd_id_def payout_id_def)

lemma debit_accepted:
  assumes wf: "wf_db s" and fresh: "txns s (m_key m) = None" and acc: "accepts s DEBIT m"
  obtains x s' where "debit m j s = (Inr x, s')"
proof -
  obtain r s' where run: "move DEBIT m j s = (r, s')" by fastforce
  from wf fresh run show thesis
  proof (cases rule: move_fresh)
    case (thrown e w)
    have "balance_of (m_currency m) w = user_balance s (m_userId m) (m_currency m)"
      using wallet_user_balance [OF wf_ensured [OF wf] thrown(4)] thrown(5) wf by simp
    then show thesis using thrown(6) acc ensured_status [OF wf thrown(4,5)] by (simp add: accepts_def)
  next
    case (effect w x)
    then show thesis using that run by (simp add: debit_def)
  qed
qed

text \<open>
  On a UUID column every withdrawal request whose validation and hold succeed throws when it
  stores its row: the diamonds have left the balance and no request exists that could ever return
  them.
\<close>

theorem requests_lose_their_hold:
  fixes s :: "'z wd_db_scheme"
  assumes wf: "wf_db s" and uuid: "\<And>t. we_uuid env t \<Longrightarrow> uuid_text t"
    and fresh: "txns s (hold_key (wd_id now)) = None"
    and valid: "validateWithdrawalRequest env (in_userId inp) (in_amountCoins inp) midnight s = (Inr (config, b), s)"
    and fee: "toBigInt (processingFeeCoins config) = Inr fee"
    and acc: "accepts s DEBIT (hold_movement inp (wd_id now))"
  shows "\<exists>s'. requestWithdrawal env inp now midnight days s = (Inl (OtherError ''P2023''), s') \<and>
    requests s' = requests s \<and>
    (\<forall>u c. user_balance s' u c = user_balance s u c -
       (if u = in_userId inp \<and> c = DIAMOND then toNumber (in_amountCoins inp) else 0))"
proof -
  let ?m = "hold_movement inp (wd_id now)"
  have f: "txns s (m_key ?m) = None" using fresh by simp
  obtain x s1 where d: "debit ?m False s = (Inr x, s1)" using debit_accepted [OF wf f acc] .
  then have mv: "move DEBIT ?m False s = (Inr x, s1)" by (simp add: debit_def)
  have "\<not> we_uuid env (wd_id now)" using uuid made_up_ids(1) by blast
  then have "requestWithdrawal env inp now midnight days s = (Inl (OtherError ''P2023''), s1)"
    by (simp add: requestWithdrawal_def bindA_def valid fee d record_request_eq Let_def)
  moreover have "requests s1 = requests s" by (rule more_wd(1) [OF move_tables [OF wf mv]])
  moreover have "user_balance s1 u c = user_balance s u c -
       (if u = in_userId inp \<and> c = DIAMOND then toNumber (in_amountCoins inp) else 0)" for u c
    using move_effect(1) [OF wf f mv, of u c] by (simp add: delta_def)
  ultimately show ?thesis by blast
qed

text \<open>
  A payout executed without a payout identifier makes one up that the UUID column refuses: an
  approved request ends FAILED and its diamonds go back to the user.
\<close>

theorem unnamed_payout_fails:
  fixes s :: "'z wd_db_scheme"
  assumes ok: "wd_ok U s" and sol: "solvent s" and uuid: "\<And>t. we_uuid env t \<Longrightarrow> uuid_text t"
    and q: "find_request i s = Some q" "wq_status q \<in> {APPROVED, PROCESSING}"
    and act: "user_status s (wq_userId q) = ACTIVE"
  shows "\<exists>s'. executePayout env i None now days s = (Inr FAILED, s') \<and>
    user_balance s' (wq_userId q) DIAMOND = user_balance s (wq_userId q) DIAMOND + wq_amountCoins q \<and>
    map_option wq_status (find_request i s') = Some FAILED"
proof -
  have i: "wq_id q = i" using find_request_Some [OF q(1)] by simp
  have f: "find_request (wq_id q) s = Some q" "\<not> terminal_status (wq_status q)" using q i by (auto simp: terminal_status_def)
  obtain r s' where run: "exec_commit env q None now days s = (r, s')" by fastforce
  have exec: "executePayout env i None now days s = (r, s')"
    using run q by (auto simp: executePayout_def bindA_def exec_check_def)
  from ok f run show ?thesis
  proof (cases rule: exec_effect)
    case (1 s1)
    have amt: "0 < wq_amountCoins q" "wq_amountCoins q \<le> 2 ^ 53" using ok find_request_Some [OF q(1)] by (auto simp: wd_ok_def)
    have wf1: "wf_db s1" using 1(1) by (simp add: advance_def)
    obtain y t where "credit (failure_movement q) False s1 = (Inr y, t)"
      using credit_ok [OF wf1, of "failure_movement q" False] 1(3,4) sol act amt by auto
    then have adv: "r = Inr FAILED" "advance (q\<lparr>wq_status := PROCESSING\<rparr>) FAILED s1 s'"
      using 1(5) uuid made_up_ids(2) by auto
    have "user_balance s' (wq_userId q) DIAMOND = user_balance s (wq_userId q) DIAMOND + wq_amountCoins q"
      using 1(1) adv(2) by (simp add: advance_def refund_of_def refunded_status_def)
    moreover obtain q' where "find_request (wq_id q) s' = Some q'" "wq_status q' = FAILED"
      using advance_find [OF adv(2)] 1(2) by auto
    ultimately show ?thesis using exec adv(1) i by simp
  qed
qed

section \<open>A cancellation during a payout\<close>

lemma exec_commit_found:
  assumes "find_request (wq_id q) s \<noteq> None" "we_uuid env (payout_id given now)"
  obtains s' where "exec_commit env q given now days s = (Inr WD_COMPLETED, s')" "user_balance s' = user_balance s"
    "map_option wq_status (find_request (wq_id q) s') = Some WD_COMPLETED"
proof -
  obtain q0 where q0: "find_request (wq_id q) s = Some q0" "wq_id q0 = wq_id q"
    using assms(1) find_request_Some by fastforce
  let ?s = "s\<lparr>requests := map (\<lambda>r. if wq_id r = wq_id q then r\<lparr>wq_status := PROCESSING\<rparr> else r) (requests s),
    histories := histories s @ [\<lparr>wh_requestId = wq_id q, wh_userId = wq_userId q, wh_from = Some (wq_status q),
       wh_to = PROCESSING, wh_actorId = None, wh_createdAt = now\<rparr>],
    wd_audits := wd_audits s @ [\<lparr>wa_action = ''WITHDRAWAL_PROCESSING'', wa_userId = wq_userId q, wa_requestId = wq_id q,
       wa_actorId = None, wa_createdAt = now\<rparr>]\<rparr>"
  let ?f = "\<lambda>r. r\<lparr>wq_status := WD_COMPLETED, wq_payoutTxnId := Some (payout_id given now)\<rparr>"
  have "find_request (wq_id q) ?s = Some (q0\<lparr>wq_status := PROCESSING\<rparr>)"
    using q0 find_map [of "\<lambda>r. r\<lparr>wq_status := PROCESSING\<rparr>" "wq_id q" "wq_id q" "requests s"] by (simp add: find_request_def)
  then obtain s' where s': "complete_payout env q (payout_id given now) now days ?s = (Inr WD_COMPLETED, s')"
    "user_balance s' = user_balance s" "requests s' = map (\<lambda>r. if wq_id r = wq_id q then ?f r else r) (requests ?s)"
    "List.find (\<lambda>r. wq_id r = wq_id q) (requests ?s) = Some (q0\<lparr>wq_status := PROCESSING\<rparr>)"
    using assms(2) by (auto simp: complete_payout_def bindA_def guardA_def update_request_def add_history_def
        updateStatistics_def wd_logAudit_def modifyA_def returnA_def find_request_def)
  have "exec_commit env q given now days s = (Inr WD_COMPLETED, s')"
    using q0 s'(1) by (simp add: exec_commit_def bindA_def update_request_def add_history_def wd_logAudit_def modifyA_def catchA_def)
  moreover have "map_option wq_status (find_request (wq_id q) s') = Some WD_COMPLETED"
    using find_map [of ?f "wq_id q" "wq_id q" "requests ?s"] s'(3,4) q0(2) by (simp add: find_request_def)
  ultimately show thesis using that s'(2) by blast
qed

text \<open>
  Review and payout take different locks. When the user cancels an approved request after the
  payout has read it and before the payout writes, the cancellation refunds the diamonds and the
  payout still completes: the request is paid and refunded.
\<close>

theorem cancel_during_payout_pays_twice:
  fixes s :: "'z wd_db_scheme"
  assumes ok: "wd_ok U s" and read: "exec_check i s = (Inr q, s)"
    and cancelled: "reviewWithdrawal i (wq_userId q) CANCEL reason now days s = (Inr r, s1)"
    and uuid: "we_uuid env (payout_id given now')"
  shows "\<exists>s2. exec_commit env q given now' days' s1 = (Inr WD_COMPLETED, s2) \<and>
    user_balance s2 (wq_userId q) DIAMOND = user_balance s (wq_userId q) DIAMOND + wq_amountCoins q \<and>
    map_option wq_status (find_request i s2) = Some WD_COMPLETED"
proof -
  have i: "find_request i s = Some q" "wq_id q = i" using read find_request_Some by (auto simp: exec_check_Inr)
  have q: "find_request (wq_id q) s = Some q" "\<not> terminal_status (wq_status q)"
    using i read by (auto simp: exec_check_Inr terminal_status_def)
  then have "review_commit q (wq_userId q) CANCEL reason now days s = (Inr r, s1)"
    using cancelled i by (simp add: reviewWithdrawal_def bindA_def review_check_def)
  then have adv: "advance q CANCELLED s s1" using review_effect [OF ok q] by fastforce
  then obtain q1 where "find_request (wq_id q) s1 = Some q1" using advance_find [OF adv q(1)] by blast
  then obtain s2 where "exec_commit env q given now' days' s1 = (Inr WD_COMPLETED, s2)" "user_balance s2 = user_balance s1"
    "map_option wq_status (find_request (wq_id q) s2) = Some WD_COMPLETED"
    using exec_commit_found [of q s1 env given now'] uuid by blast
  moreover have "user_balance s1 (wq_userId q) DIAMOND = user_balance s (wq_userId q) DIAMOND + wq_amountCoins q"
    using adv by (simp add: advance_def refund_of_def refunded_status_def)
  ultimately show ?thesis using i by auto
qed

section \<open>No overdraft\<close>

definition funds_ok :: "('z wdb_scheme) \<Rightarrow> bool" where
  "funds_ok s \<longleftrightarrow> wf_db s \<and> solvent s"

interpretation so: step_order "stable funds_ok"
  by (rule stable_order)

lemma soI: "(\<And>s r s'. m s = (r, s') \<Longrightarrow> wf_db s \<Longrightarrow> solvent s \<Longrightarrow> wf_db s' \<and> solvent s') \<Longrightarrow> so.ok m"
  by (rule so.okI) (auto simp: stable_def funds_ok_def)

lemma solvent_tables [simp]:
  "solvent (s\<lparr>reviews := b\<rparr>) = solvent s" "solvent (s\<lparr>failures := d\<rparr>) = solvent s"
  "solvent (s\<lparr>stats := f\<rparr>) = solvent s" "solvent (s\<lparr>wd_bus := g\<rparr>) = solvent s"
  by (simp_all add: solvent_def)

lemma so_wallet: "so.ok (credit m j)" "so.ok (debit m j)"
  using move_keeps(1,3) by (auto simp: credit_def debit_def intro!: soI)

lemma so_tables:
  "so.ok (insert_request env q)" "so.ok (update_request i f)" "so.ok (add_history i u old st actor now)"
  "so.ok (updateStatistics u n type now days)" "so.ok (wd_logAudit act u i actor now)" "so.ok (announce q st reason)"
  "so.ok (modifyA (\<lambda>s. s\<lparr>reviews := h s\<rparr>))" "so.ok (modifyA (\<lambda>s. s\<lparr>failures := g s\<rparr>))" "so.ok (liftE x)"
  "so.ok (validateWithdrawalRequest env u n midnight)" "so.ok (review_check i u act_r)" "so.ok (exec_check i)"
  by (rule soI, auto simp: insert_request_def update_request_def add_history_def updateStatistics_def wd_logAudit_def
      announce_eq modifyA_def review_check_def exec_check_def dest!: validate_state
      split: if_splits sum.splits option.splits)+

lemma so_ops:
  "so.ok (requestWithdrawal env inp now midnight days)" "so.ok (reviewWithdrawal i reviewer action reason now days)"
  "so.ok (executePayout env i given now days)"
  unfolding requestWithdrawal_def record_request_def reviewWithdrawal_def review_commit_def executePayout_def
    exec_commit_def complete_payout_def fail_payout_def Let_def split_def
  by (intro so.ok_bind so.ok_catch so.ok_if so.ok_pure so_wallet so_tables)+

lemma so_snd: "so.ok m \<Longrightarrow> stable funds_ok s (snd (m s))"
  by (simp add: so.ok_def)

lemma so_step: "stable funds_ok s (wd_step x s)"
  by (cases x) (auto intro!: so_snd so_ops)

section \<open>Concrete runs\<close>

text \<open>User 4 holds 5000 diamonds; the configuration is the built-in one, the policies are missing.\<close>

definition empty_wd :: wd_db where
  "empty_wd = wdb.extend init_db \<lparr>requests = [], reviews = [], histories = [], failures = [], wd_audits = [],
     stats = [], wd_bus = []\<rparr>"

definition diamonds_in :: movement where
  "diamonds_in = \<lparr>m_userId = 4, m_currency = DIAMOND, m_amount = 5000, m_reason = DIAMOND_GIFT_EARNING, m_key = ''k'',
     m_referenceType = None, m_referenceId = None, m_actorId = None\<rparr>"

definition rich :: wd_db where
  "rich = snd (credit diamonds_in False empty_wd)"

definition wd_world :: "(string \<Rightarrow> bool) \<Rightarrow> wd_env" where
  "wd_world uuid = \<lparr>we_get = (\<lambda>_. Inr None), we_policy = (\<lambda>_. Inl (NotFound ''Financial policy not found'')),
     we_account = (\<lambda>_. Some ''ACTIVE''), we_uuid = uuid\<rparr>"

definition ask_2000 :: wd_input where
  "ask_2000 = \<lparr>in_userId = 4, in_amountCoins = 2000, in_payoutMethod = None, in_payoutDetails = None\<rparr>"

abbreviation sample_days :: "string \<times> string" where
  "sample_days \<equiv> (''2026-01-05'', ''2026-01'')"

definition asked :: wd_db where
  "asked = wd_run [Ask (wd_world (\<lambda>_. True)) ask_2000 7 0 sample_days] rich"

definition approved :: wd_db where
  "approved = wd_run [Decide ''wd-7'' 9 APPROVE None 8 sample_days] asked"

lemma rich_ok: "wd_ok U rich" "wf_db rich" "solvent rich"
proof -
  have wf: "wf_db empty_wd" and sol: "solvent empty_wd"
    by (simp_all add: empty_wd_def wf_db_def solvent_def init_db_def wdb.defs)
  have "case fst (credit diamonds_in False empty_wd) of Inl _ \<Rightarrow> False | Inr _ \<Rightarrow> True" by code_simp
  then obtain x where mv: "move CREDIT diamonds_in False empty_wd = (Inr x, rich)"
    by (cases "fst (credit diamonds_in False empty_wd)") (auto simp: prod_eq_iff rich_def credit_def)
  show "wf_db rich" by (rule move_keeps(1) [OF wf mv])
  show "solvent rich" by (rule move_keeps(3) [OF wf mv sol])
  have keys: "dom (txns rich) = {''k''}"
    using move_keys [OF wf mv] by (simp add: diamonds_in_def empty_wd_def init_db_def wdb.defs)
  have "requests rich = []" "histories rich = []"
    using more_wd [OF move_tables [OF wf mv]] by (simp_all add: empty_wd_def wdb.defs)
  then show "wd_ok U rich"
    unfolding wd_ok_def keys using \<open>wf_db rich\<close>
    by (simp add: find_request_def history_of_def hold_key_def refund_wd_key_def failure_key_def)
qed

lemma run_ok: "wd_ok U s \<Longrightarrow> list_all (wd_allowed U) ops \<Longrightarrow> wd_ok U (wd_run ops s)"
  using books_kept_run [of U s ops] by (simp add: books_kept_def)

lemma asked_ok: "wd_ok (\<lambda>_. True) asked" "wd_ok (\<lambda>_. True) approved"
  unfolding approved_def asked_def
  by (intro run_ok rich_ok; simp add: ask_2000_def wd_world_def)+

lemma approved_solvent: "solvent approved"
proof -
  have "stable funds_ok rich asked" "stable funds_ok asked approved"
    using so_step [of rich] so_step [of asked] by (simp_all only: asked_def approved_def wd_run_def fold_simps)
  then show ?thesis using rich_ok(2,3) by (simp add: stable_def funds_ok_def)
qed


text \<open>A request that is there, with a UUID, approved and paid out on the schema of the repository.\<close>

definition row_id :: string where
  "row_id = ''8d3f0c1e-5b7a-4e2d-9c61-0a4b7f2e1d93''"

definition seeded :: wd_db where
  "seeded = rich\<lparr>requests := [new_request ask_2000 row_id 0 0 7],
     histories := [\<lparr>wh_requestId = row_id, wh_userId = 4, wh_from = None, wh_to = PENDING, wh_actorId = Some 4,
       wh_createdAt = 7\<rparr>]\<rparr>"

lemma seeded_ok: "wd_ok uuid_text seeded"
proof -
  have "wd_ok uuid_text rich" by (rule rich_ok)
  moreover have "txns rich (refund_wd_key row_id) = None" "txns rich (failure_key row_id) = None"
    "requests rich = []" "histories rich = []" by code_simp+
  ultimately show ?thesis
    by (auto simp: wd_ok_def seeded_def find_request_def history_of_def new_request_def ask_2000_def made_up_ids)
qed

theorem history_is_a_walk_witness:
  "walk None (history_of row_id (wd_run [Decide row_id 9 APPROVE None 8 sample_days,
     Payout (wd_world uuid_text) row_id (Some ''f1c2a9d4-77e0-4b58-8a36-2d9e61c0b7aa'') 9 sample_days] seeded)) = Some (Some WD_COMPLETED)"
proof -
  let ?ops = "[Decide row_id 9 APPROVE None 8 sample_days, Payout (wd_world uuid_text) row_id (Some ''f1c2a9d4-77e0-4b58-8a36-2d9e61c0b7aa'') 9 sample_days]"
  have "map_option wq_status (find_request row_id (wd_run ?ops seeded)) = Some WD_COMPLETED" by code_simp
  moreover have "list_all (wd_allowed uuid_text) ?ops" by (simp add: wd_world_def)
  ultimately show ?thesis using history_is_a_walk [OF seeded_ok, of ?ops row_id] by simp
qed

theorem requests_lose_their_hold_witness:
  "user_balance (snd (requestWithdrawal (wd_world uuid_text) ask_2000 7 0 sample_days rich)) 4 DIAMOND = 3000 \<and>
   requests (snd (requestWithdrawal (wd_world uuid_text) ask_2000 7 0 sample_days rich)) = []"
proof -
  let ?e = "wd_world uuid_text"
  have c: "txns rich (hold_key (wd_id 7)) = None" "accepts rich DEBIT (hold_movement ask_2000 (wd_id 7))"
    "user_balance rich 4 DIAMOND = 5000" "requests rich = []"
    "case fst (validateWithdrawalRequest ?e 4 2000 0 rich) of Inl _ \<Rightarrow> False
      | Inr (config, b) \<Rightarrow> toBigInt (processingFeeCoins config) = Inr 0" by code_simp+
  obtain r s where run: "validateWithdrawalRequest ?e 4 2000 0 rich = (r, s)" by fastforce
  then have "s = rich" by (rule validate_state)
  with run c(5) obtain config b where v: "validateWithdrawalRequest ?e 4 2000 0 rich = (Inr (config, b), rich)"
    "toBigInt (processingFeeCoins config) = Inr 0" by (cases r) auto
  have inp: "in_userId ask_2000 = 4" "in_amountCoins ask_2000 = 2000" by (simp_all add: ask_2000_def)
  have uuid: "\<And>t. we_uuid ?e t \<Longrightarrow> uuid_text t" by (simp add: wd_world_def)
  from requests_lose_their_hold [OF rich_ok(2) _ c(1), where env = ?e and inp = ask_2000 and midnight = 0 and config = config
      and b = b and fee = 0 and days = sample_days] uuid v c(2-4) inp
  show ?thesis by auto
qed

theorem unnamed_payout_fails_witness:
  "user_balance (snd (executePayout (wd_world uuid_text) ''wd-7'' None 9 sample_days approved)) 4 DIAMOND = 5000"
proof -
  have c: "map_option (\<lambda>q. (wq_status q, wq_userId q, wq_amountCoins q)) (find_request ''wd-7'' approved) = Some (APPROVED, 4, 2000)"
    "user_balance approved 4 DIAMOND = 3000" "user_status approved 4 = ACTIVE" by code_simp+
  then obtain q where q: "find_request ''wd-7'' approved = Some q" "wq_status q = APPROVED" "wq_userId q = 4" "wq_amountCoins q = 2000"
    by auto
  have uuid: "\<And>t. we_uuid (wd_world uuid_text) t \<Longrightarrow> uuid_text t" by (simp add: wd_world_def)
  from unnamed_payout_fails [OF asked_ok(2) approved_solvent _ q(1), where env = "wd_world uuid_text" and now = 9 and days = sample_days]
    uuid q c(2,3) show ?thesis by auto
qed

theorem cancel_during_payout_pays_twice_witness:
  "let s1 = snd (reviewWithdrawal ''wd-7'' 4 CANCEL None 9 sample_days approved) in
   case exec_check ''wd-7'' approved of
     (Inr q, _) \<Rightarrow> user_balance (snd (exec_commit (wd_world (\<lambda>_. True)) q (Some ''p'') 10 sample_days s1)) 4 DIAMOND = 5000
   | _ \<Rightarrow> False"
proof -
  have c: "map_option (\<lambda>q. (wq_status q, wq_userId q, wq_amountCoins q)) (find_request ''wd-7'' approved) = Some (APPROVED, 4, 2000)"
    "user_balance approved 4 DIAMOND = 3000"
    "case fst (reviewWithdrawal ''wd-7'' 4 CANCEL None 9 sample_days approved) of Inl _ \<Rightarrow> False | Inr _ \<Rightarrow> True" by code_simp+
  then obtain q where q: "find_request ''wd-7'' approved = Some q" "wq_status q = APPROVED" "wq_userId q = 4" "wq_amountCoins q = 2000"
    by auto
  then have read: "exec_check ''wd-7'' approved = (Inr q, approved)" by (simp add: exec_check_def)
  obtain r s1 where r: "reviewWithdrawal ''wd-7'' 4 CANCEL None 9 sample_days approved = (Inr r, s1)"
    using c(3) by (cases "reviewWithdrawal ''wd-7'' 4 CANCEL None 9 sample_days approved") (auto split: sum.splits)
  have "reviewWithdrawal ''wd-7'' (wq_userId q) CANCEL None 9 sample_days approved = (Inr r, s1)" using r q by simp
  from cancel_during_payout_pays_twice [OF asked_ok(2) read this, of "wd_world (\<lambda>_. True)" "Some ''p''" 10 sample_days]
  obtain s2 where "exec_commit (wd_world (\<lambda>_. True)) q (Some ''p'') 10 sample_days s1 = (Inr WD_COMPLETED, s2)"
    "user_balance s2 4 DIAMOND = 5000" using q c(2) by (auto simp: wd_world_def)
  then show ?thesis using read r by (simp add: Let_def)
qed

end
