(* ===== verification/Privacy.thy ===== *)
theory Privacy
  imports Prelude
begin

text \<open>
  Privacy (src/modules/privacy): who may see or reach whom. The tables are the settings, the
  preferences and the block edges; the check engine reads them through two cache-aside entries per
  user (src/infra/redis/cache.service.ts), the settings and the list of users in a block relationship.
  What the module asks of others is the record \<open>pv_env\<close>: the time to live of a cache entry in seconds,
  the social graph behind RELATIONSHIP_SERVICE, and the user rows \<open>listBlocked\<close> decorates its edges
  with. \<open>now\<close> is the clock in milliseconds.
\<close>

section \<open>Tables and cache\<close>

datatype privacy_level = EVERYONE | FRIENDS_ONLY | FOLLOWERS_ONLY | NOBODY

datatype privacy_action = VIEW_PROFILE | VIEW_ONLINE | VIEW_LAST_SEEN | MESSAGE | CALL | FRIEND_REQUEST

datatype settings_column =
    OnlineStatus | LastSeen | ProfileVisibility | CallPermission | MessagePermission | FriendRequestPermission

datatype preference_column = Searchable | ShowActivity | ReadReceipts | AllowTagging

type_synonym user_id = nat
type_synonym settings_row = "settings_column \<Rightarrow> privacy_level"
type_synonym preferences_row = "preference_column \<Rightarrow> bool"

record block_edge =
  be_blockerId :: user_id
  be_blockedId :: user_id
  be_reason :: "string option"
  be_createdAt :: int

datatype privacy_event =
    SettingsUpdated user_id "settings_column list"
  | PreferencesUpdated user_id "preference_column list"
  | UserBlocked user_id user_id
  | UserUnblocked user_id user_id

text \<open>A cache entry holds its value and the time it expires (\<open>None\<close>: never).\<close>

type_synonym 'a cached = "'a \<times> int option"

record privacy_db =
  settings_of :: "user_id \<Rightarrow> settings_row option"
  preferences_of :: "user_id \<Rightarrow> preferences_row option"
  blocks :: "block_edge list"
  settings_cache :: "user_id \<Rightarrow> settings_row cached option"
  block_cache :: "user_id \<Rightarrow> user_id list cached option"
  privacy_bus :: "privacy_event list"

record pv_env =
  pe_cacheTtl :: int
  pe_isFriend :: "user_id \<Rightarrow> user_id \<Rightarrow> bool"
  pe_isFollower :: "user_id \<Rightarrow> user_id \<Rightarrow> bool"
  pe_user :: "user_id \<Rightarrow> (string \<times> string option) option"
  pe_avatar :: "user_id \<Rightarrow> string option option"

text \<open>\<open>get\<close> sees an entry until it expires; \<open>set\<close> writes one with a time to live when that is positive.\<close>

definition cache_get :: "int \<Rightarrow> 'a cached option \<Rightarrow> 'a option" where
  "cache_get now c =
     (case c of None \<Rightarrow> None
      | Some (v, e) \<Rightarrow> (case e of None \<Rightarrow> Some v | Some t \<Rightarrow> if now < t then Some v else None))"

definition cache_entry :: "int \<Rightarrow> int \<Rightarrow> 'a \<Rightarrow> 'a cached" where
  "cache_entry now ttl v = (v, if 0 < ttl then Some (now + ttl * 1000) else None)"

section \<open>Repository\<close>

definition default_settings :: settings_row where
  "default_settings = (\<lambda>_. EVERYONE)"

definition default_preferences :: preferences_row where
  "default_preferences = (\<lambda>_. True)"

definition ensureSettings :: "user_id \<Rightarrow> ('z privacy_db_scheme, settings_row) act" where
  "ensureSettings u s =
     (case settings_of s u of
        Some row \<Rightarrow> (Inr row, s)
      | None \<Rightarrow> (Inr default_settings, s\<lparr>settings_of := (settings_of s)(u := Some default_settings)\<rparr>))"

definition patched :: "('c \<Rightarrow> 'v) \<Rightarrow> ('c \<Rightarrow> 'v option) \<Rightarrow> 'c \<Rightarrow> 'v" where
  "patched row data c = (case data c of None \<Rightarrow> row c | Some v \<Rightarrow> v)"

definition repo_updateSettings ::
  "user_id \<Rightarrow> (settings_column \<Rightarrow> privacy_level option) \<Rightarrow> ('z privacy_db_scheme, settings_row) act" where
  "repo_updateSettings u data s =
     (let row = patched (case settings_of s u of None \<Rightarrow> default_settings | Some r \<Rightarrow> r) data
      in (Inr row, s\<lparr>settings_of := (settings_of s)(u := Some row)\<rparr>))"

definition ensurePreferences :: "user_id \<Rightarrow> ('z privacy_db_scheme, preferences_row) act" where
  "ensurePreferences u s =
     (case preferences_of s u of
        Some row \<Rightarrow> (Inr row, s)
      | None \<Rightarrow> (Inr default_preferences, s\<lparr>preferences_of := (preferences_of s)(u := Some default_preferences)\<rparr>))"

definition repo_updatePreferences ::
  "user_id \<Rightarrow> (preference_column \<Rightarrow> bool option) \<Rightarrow> ('z privacy_db_scheme, preferences_row) act" where
  "repo_updatePreferences u data s =
     (let row = patched (case preferences_of s u of None \<Rightarrow> default_preferences | Some r \<Rightarrow> r) data
      in (Inr row, s\<lparr>preferences_of := (preferences_of s)(u := Some row)\<rparr>))"

definition is_edge :: "user_id \<Rightarrow> user_id \<Rightarrow> block_edge \<Rightarrow> bool" where
  "is_edge a b e \<longleftrightarrow> be_blockerId e = a \<and> be_blockedId e = b"

definition blockExists :: "user_id \<Rightarrow> user_id \<Rightarrow> ('z privacy_db_scheme) \<Rightarrow> bool" where
  "blockExists a b s \<longleftrightarrow> (\<exists>e \<in> set (blocks s). is_edge a b e)"

text \<open>The unique index on the edge makes a second insert throw P2002.\<close>

definition createBlock :: "user_id \<Rightarrow> user_id \<Rightarrow> string option \<Rightarrow> int \<Rightarrow> ('z privacy_db_scheme, unit) act" where
  "createBlock a b reason now s =
     (if blockExists a b s then (Inl P2002, s)
      else (Inr (), s\<lparr>blocks := blocks s @ [\<lparr>be_blockerId = a, be_blockedId = b, be_reason = reason,
                                               be_createdAt = now\<rparr>]\<rparr>))"

definition deleteBlock :: "user_id \<Rightarrow> user_id \<Rightarrow> ('z privacy_db_scheme, unit) act" where
  "deleteBlock a b = modifyA (\<lambda>s. s\<lparr>blocks := filter (\<lambda>e. \<not> is_edge a b e) (blocks s)\<rparr>)"

definition repo_listBlocked :: "user_id \<Rightarrow> ('z privacy_db_scheme) \<Rightarrow> block_edge list" where
  "repo_listBlocked a s = sort_key (\<lambda>e. - be_createdAt e) (filter (\<lambda>e. be_blockerId e = a) (blocks s))"

text \<open>A JavaScript \<open>Set\<close> filled in row order, read back in insertion order.\<close>

definition set_add :: "'a list \<Rightarrow> 'a \<Rightarrow> 'a list" where
  "set_add xs x = (if x \<in> set xs then xs else xs @ [x])"

definition blockRelationshipIds :: "user_id \<Rightarrow> ('z privacy_db_scheme) \<Rightarrow> user_id list" where
  "blockRelationshipIds u s =
     foldl set_add []
       (map (\<lambda>e. if be_blockerId e = u then be_blockedId e else be_blockerId e)
         (filter (\<lambda>e. be_blockerId e = u \<or> be_blockedId e = u) (blocks s)))"

section \<open>Settings and preferences\<close>

fun ACTION_LEVEL :: "privacy_action \<Rightarrow> settings_column" where
  "ACTION_LEVEL VIEW_PROFILE = ProfileVisibility"
| "ACTION_LEVEL VIEW_ONLINE = OnlineStatus"
| "ACTION_LEVEL VIEW_LAST_SEEN = LastSeen"
| "ACTION_LEVEL MESSAGE = MessagePermission"
| "ACTION_LEVEL CALL = CallPermission"
| "ACTION_LEVEL FRIEND_REQUEST = FriendRequestPermission"

definition action_keys :: "privacy_action list" where
  "action_keys = [VIEW_PROFILE, VIEW_ONLINE, VIEW_LAST_SEEN, MESSAGE, CALL, FRIEND_REQUEST]"

definition publish_privacy :: "privacy_event \<Rightarrow> ('z privacy_db_scheme, unit) act" where
  "publish_privacy e = modifyA (\<lambda>s. s\<lparr>privacy_bus := privacy_bus s @ [e]\<rparr>)"

definition getSettings :: "pv_env \<Rightarrow> user_id \<Rightarrow> int \<Rightarrow> ('z privacy_db_scheme, settings_row) act" where
  "getSettings env u now =
     bindA (getsA (\<lambda>s. cache_get now (settings_cache s u))) (\<lambda>cached.
       case cached of
         Some row \<Rightarrow> returnA row
       | None \<Rightarrow>
           bindA (ensureSettings u) (\<lambda>row.
           bindA (modifyA (\<lambda>s. s\<lparr>settings_cache :=
                    (settings_cache s)(u := Some (cache_entry now (pe_cacheTtl env) row))\<rparr>)) (\<lambda>_.
           returnA row)))"

definition updateSettings ::
  "user_id \<Rightarrow> (settings_column \<Rightarrow> privacy_level option) \<Rightarrow> ('z privacy_db_scheme, settings_row) act" where
  "updateSettings u patch =
     bindA (repo_updateSettings u patch) (\<lambda>row.
     bindA (modifyA (\<lambda>s. s\<lparr>settings_cache := (settings_cache s)(u := None)\<rparr>)) (\<lambda>_.
     bindA (publish_privacy (SettingsUpdated u
              (filter (\<lambda>c. patch c \<noteq> None) (map ACTION_LEVEL action_keys)))) (\<lambda>_.
     returnA row)))"

definition getPreferences :: "user_id \<Rightarrow> ('z privacy_db_scheme, preferences_row) act" where
  "getPreferences u = ensurePreferences u"

definition updatePreferences ::
  "user_id \<Rightarrow> (preference_column \<Rightarrow> bool option) \<Rightarrow> ('z privacy_db_scheme, preferences_row) act" where
  "updatePreferences u patch =
     bindA (repo_updatePreferences u patch) (\<lambda>row.
     bindA (publish_privacy (PreferencesUpdated u
              (filter (\<lambda>c. patch c \<noteq> None) [Searchable, ShowActivity, ReadReceipts, AllowTagging]))) (\<lambda>_.
     returnA row))"

section \<open>Blocking\<close>

definition invalidateBlock :: "user_id \<Rightarrow> user_id \<Rightarrow> ('z privacy_db_scheme, unit) act" where
  "invalidateBlock a b = modifyA (\<lambda>s. s\<lparr>block_cache := (block_cache s)(a := None, b := None)\<rparr>)"

definition block_user :: "user_id \<Rightarrow> user_id \<Rightarrow> string option \<Rightarrow> int \<Rightarrow> ('z privacy_db_scheme, unit) act" where
  "block_user a b reason now =
     bindA (guardA (a \<noteq> b) (Business ''CANNOT_BLOCK_SELF'')) (\<lambda>_.
     bindA (getsA (blockExists a b)) (\<lambda>found.
     bindA (guardA (\<not> found) (Business ''ALREADY_BLOCKED'')) (\<lambda>_.
     bindA (createBlock a b reason now) (\<lambda>_.
     bindA (invalidateBlock a b) (\<lambda>_.
     publish_privacy (UserBlocked a b))))))"

definition unblock_user :: "user_id \<Rightarrow> user_id \<Rightarrow> ('z privacy_db_scheme, unit) act" where
  "unblock_user a b =
     bindA (deleteBlock a b) (\<lambda>_.
     bindA (invalidateBlock a b) (\<lambda>_.
     publish_privacy (UserUnblocked a b)))"

record blocked_view =
  bv_userId :: user_id
  bv_reason :: "string option"
  bv_createdAt :: int
  bv_username :: string
  bv_fullName :: "string option"
  bv_avatarKey :: "string option"

definition listBlocked :: "pv_env \<Rightarrow> user_id \<Rightarrow> ('z privacy_db_scheme) \<Rightarrow> blocked_view list" where
  "listBlocked env a s =
     map (\<lambda>e. let detail = pe_user env (be_blockedId e); profile = pe_avatar env (be_blockedId e) in
        \<lparr>bv_userId = be_blockedId e, bv_reason = be_reason e, bv_createdAt = be_createdAt e,
         bv_username = (case detail of None \<Rightarrow> ''Unknown'' | Some (n, _) \<Rightarrow> n),
         bv_fullName = (case detail of None \<Rightarrow> None | Some (_, f) \<Rightarrow> f),
         bv_avatarKey = (case profile of None \<Rightarrow> None | Some k \<Rightarrow> k)\<rparr>)
       (repo_listBlocked a s)"

definition isBlocked :: "user_id \<Rightarrow> user_id \<Rightarrow> ('z privacy_db_scheme) \<Rightarrow> bool" where
  "isBlocked a b s = blockExists a b s"

text \<open>
  The cache-aside read, as its three round trips: the cache, the table, and the write of what the
  table said.
\<close>

definition block_fill :: "pv_env \<Rightarrow> user_id \<Rightarrow> int \<Rightarrow> user_id list \<Rightarrow> ('z privacy_db_scheme, unit) act" where
  "block_fill env u now ids = modifyA (\<lambda>s. s\<lparr>block_cache :=
     (block_cache s)(u := Some (cache_entry now (pe_cacheTtl env) ids))\<rparr>)"

definition blockedIdsFor :: "pv_env \<Rightarrow> user_id \<Rightarrow> int \<Rightarrow> ('z privacy_db_scheme, user_id list) act" where
  "blockedIdsFor env u now =
     bindA (getsA (\<lambda>s. cache_get now (block_cache s u))) (\<lambda>cached.
       case cached of
         Some ids \<Rightarrow> returnA ids
       | None \<Rightarrow>
           bindA (getsA (blockRelationshipIds u)) (\<lambda>ids.
           bindA (block_fill env u now ids) (\<lambda>_.
           returnA ids)))"

definition isBlockedEitherWay :: "pv_env \<Rightarrow> user_id \<Rightarrow> user_id \<Rightarrow> int \<Rightarrow> ('z privacy_db_scheme, bool) act" where
  "isBlockedEitherWay env a b now = bindA (blockedIdsFor env a now) (\<lambda>ids. returnA (b \<in> set ids))"

section \<open>The check engine\<close>

definition level_check :: "pv_env \<Rightarrow> user_id option \<Rightarrow> user_id \<Rightarrow> privacy_level \<Rightarrow> bool" where
  "level_check env viewer target lv =
     (case lv of
        EVERYONE \<Rightarrow> True
      | NOBODY \<Rightarrow> False
      | FRIENDS_ONLY \<Rightarrow> (case viewer of None \<Rightarrow> False | Some v \<Rightarrow> pe_isFriend env v target)
      | FOLLOWERS_ONLY \<Rightarrow> (case viewer of None \<Rightarrow> False | Some v \<Rightarrow> pe_isFollower env v target))"

definition privacy_check ::
  "pv_env \<Rightarrow> user_id option \<Rightarrow> user_id \<Rightarrow> privacy_action \<Rightarrow> int \<Rightarrow> ('z privacy_db_scheme, bool) act" where
  "privacy_check env viewer target action now =
     (if viewer = Some target then returnA True
      else
        bindA (case viewer of None \<Rightarrow> returnA False | Some v \<Rightarrow> isBlockedEitherWay env v target now) (\<lambda>blocked.
          if blocked then returnA False
          else
            bindA (getSettings env target now) (\<lambda>settings.
              returnA (level_check env viewer target (settings (ACTION_LEVEL action))))))"

section \<open>What the cache is for\<close>

text \<open>
  The reference: the answer read off the tables. The cache is coherent when every entry it would
  answer from agrees with the tables; the operations keep that, one after the other.
\<close>

definition edge_between :: "user_id \<Rightarrow> user_id \<Rightarrow> ('z privacy_db_scheme) \<Rightarrow> bool" where
  "edge_between a b s \<longleftrightarrow> blockExists a b s \<or> blockExists b a s"

definition settings_row_of :: "user_id \<Rightarrow> ('z privacy_db_scheme) \<Rightarrow> settings_row" where
  "settings_row_of u s = (case settings_of s u of None \<Rightarrow> default_settings | Some r \<Rightarrow> r)"

definition may :: "pv_env \<Rightarrow> user_id option \<Rightarrow> user_id \<Rightarrow> privacy_action \<Rightarrow> ('z privacy_db_scheme) \<Rightarrow> bool" where
  "may env viewer target action s \<longleftrightarrow>
     viewer = Some target \<or>
     (case viewer of None \<Rightarrow> True | Some v \<Rightarrow> \<not> edge_between v target s) \<and>
     level_check env viewer target (settings_row_of target s (ACTION_LEVEL action))"

definition coherent :: "('z privacy_db_scheme) \<Rightarrow> bool" where
  "coherent s \<longleftrightarrow>
     (\<forall>u ids e. block_cache s u = Some (ids, e) \<longrightarrow> set ids = set (blockRelationshipIds u s)) \<and>
     (\<forall>u row e. settings_cache s u = Some (row, e) \<longrightarrow> row = settings_row_of u s)"

lemma set_set_add [simp]: "set (set_add xs x) = insert x (set xs)"
  by (auto simp: set_add_def)

lemma set_fold_add: "set (foldl set_add acc xs) = set acc \<union> set xs"
  by (induction xs arbitrary: acc) auto

lemma relationship_ids:
  "b \<in> set (blockRelationshipIds a s) \<longleftrightarrow> edge_between a b s"
  unfolding blockRelationshipIds_def edge_between_def blockExists_def is_edge_def
  by (force simp: set_fold_add)

lemma relationship_set: "set (blockRelationshipIds a s) = {b. edge_between a b s}"
  using relationship_ids by auto

lemma cache_get_Some: "cache_get now c = Some v \<Longrightarrow> \<exists>e. c = Some (v, e)"
  by (auto simp: cache_get_def split: option.splits if_splits)

text \<open>What a run of one operation leaves: the tables the answer depends on.\<close>

definition same_tables :: "('z privacy_db_scheme) \<Rightarrow> ('z privacy_db_scheme) \<Rightarrow> bool" where
  "same_tables s s' \<longleftrightarrow> blocks s' = blocks s \<and> (\<forall>u. settings_row_of u s' = settings_row_of u s) \<and>
     privacy_db.more s' = privacy_db.more s"

lemma same_tables_order: "step_order same_tables"
  by unfold_locales (auto simp: same_tables_def)

lemma same_edges: "same_tables s s' \<Longrightarrow> edge_between a b s' = edge_between a b s"
  by (simp add: same_tables_def edge_between_def blockExists_def)

lemma same_may: "same_tables s s' \<Longrightarrow> may env v t a s' = may env v t a s"
  by (cases v) (simp_all add: may_def same_edges, simp_all add: same_tables_def)

lemma blockedIdsFor_run:
  assumes "coherent s"
  shows "\<exists>ids s'. blockedIdsFor env u now s = (Inr ids, s') \<and> set ids = {b. edge_between u b s} \<and>
    coherent s' \<and> same_tables s s'"
proof (cases "cache_get now (block_cache s u)")
  case None
  then show ?thesis using assms
    by (auto simp: blockedIdsFor_def block_fill_def act_defs coherent_def same_tables_def cache_entry_def
        relationship_set edge_between_def blockExists_def settings_row_of_def)
next
  case (Some ids)
  then obtain e where "block_cache s u = Some (ids, e)" by (auto dest: cache_get_Some)
  then have "set ids = {b. edge_between u b s}" using assms by (auto simp: coherent_def relationship_set)
  then show ?thesis using Some assms by (auto simp: blockedIdsFor_def act_defs same_tables_def)
qed

lemma getSettings_run:
  assumes "coherent s"
  shows "\<exists>s'. getSettings env u now s = (Inr (settings_row_of u s), s') \<and> coherent s' \<and> same_tables s s'"
proof (cases "cache_get now (settings_cache s u)")
  case None
  then show ?thesis using assms
    by (auto simp: getSettings_def ensureSettings_def act_defs coherent_def same_tables_def cache_entry_def
        relationship_set edge_between_def blockExists_def settings_row_of_def split: option.splits)
next
  case (Some row)
  then obtain e where "settings_cache s u = Some (row, e)" by (auto dest: cache_get_Some)
  then have "row = settings_row_of u s" using assms by (auto simp: coherent_def)
  then show ?thesis using Some assms by (auto simp: getSettings_def act_defs same_tables_def)
qed

lemma isBlockedEitherWay_run:
  assumes "coherent s"
  shows "\<exists>s'. isBlockedEitherWay env a b now s = (Inr (edge_between a b s), s') \<and> coherent s' \<and> same_tables s s'"
  using blockedIdsFor_run [OF assms, of env a now] by (auto simp: isBlockedEitherWay_def act_defs)

lemma privacy_check_run:
  assumes "coherent s"
  shows "\<exists>s'. privacy_check env viewer target action now s = (Inr (may env viewer target action s), s') \<and>
    coherent s' \<and> same_tables s s'"
proof (cases "viewer = Some target")
  case True
  then show ?thesis using assms by (auto simp: privacy_check_def may_def act_defs same_tables_def)
next
  case False
  show ?thesis
  proof (cases viewer)
    case None
    then show ?thesis using getSettings_run [OF assms, of env target now]
      by (auto simp: privacy_check_def may_def act_defs)
  next
    case (Some v)
    obtain s1 where b: "isBlockedEitherWay env v target now s = (Inr (edge_between v target s), s1)"
      "coherent s1" "same_tables s s1"
      using isBlockedEitherWay_run [OF assms] by blast
    obtain s2 where g: "getSettings env target now s1 = (Inr (settings_row_of target s1), s2)"
      "coherent s2" "same_tables s1 s2"
      using getSettings_run [OF b(2)] by blast
    have "same_tables s s2" by (rule step_order.trans_step [OF same_tables_order b(3) g(3)])
    moreover have "settings_row_of target s1 = settings_row_of target s"
      using b(3) by (simp add: same_tables_def)
    ultimately show ?thesis using b g False Some
      by (cases "edge_between v target s") (auto simp: privacy_check_def may_def act_defs)
  qed
qed

section \<open>Runs\<close>

datatype privacy_op =
    Op_check "user_id option" user_id privacy_action
  | Op_isBlocked user_id user_id
  | Op_getSettings user_id
  | Op_updateSettings user_id "settings_column \<Rightarrow> privacy_level option"
  | Op_getPreferences user_id
  | Op_updatePreferences user_id "preference_column \<Rightarrow> bool option"
  | Op_block user_id user_id "string option"
  | Op_unblock user_id user_id

fun do_privacy :: "pv_env \<Rightarrow> privacy_op \<times> int \<Rightarrow> ('z privacy_db_scheme) \<Rightarrow> ('z privacy_db_scheme)" where
  "do_privacy env (Op_check v t a, now) s = snd (privacy_check env v t a now s)"
| "do_privacy env (Op_isBlocked a b, now) s = snd (isBlockedEitherWay env a b now s)"
| "do_privacy env (Op_getSettings u, now) s = snd (getSettings env u now s)"
| "do_privacy env (Op_updateSettings u p, now) s = snd (updateSettings u p s)"
| "do_privacy env (Op_getPreferences u, now) s = snd (getPreferences u s)"
| "do_privacy env (Op_updatePreferences u p, now) s = snd (updatePreferences u p s)"
| "do_privacy env (Op_block a b r, now) s = snd (block_user a b r now s)"
| "do_privacy env (Op_unblock a b, now) s = snd (unblock_user a b s)"

definition privacy_run :: "pv_env \<Rightarrow> (privacy_op \<times> int) list \<Rightarrow> ('z privacy_db_scheme) \<Rightarrow> ('z privacy_db_scheme)" where
  "privacy_run env ops s = fold (do_privacy env) ops s"

lemma edge_elsewhere:
  assumes "set (blocks s') - {e. is_edge a b e} = set (blocks s) - {e. is_edge a b e}" "u \<noteq> a" "u \<noteq> b"
  shows "edge_between u c s' = edge_between u c s"
proof -
  have "blockExists x y s' = blockExists x y s" if "x \<noteq> a \<or> y \<noteq> b" for x y
    using assms(1) that unfolding blockExists_def is_edge_def by (blast dest: equalityD1 equalityD2)
  then show ?thesis using assms(2,3) by (auto simp: edge_between_def)
qed

lemma coherent_invalidated:
  assumes "coherent s" "set bs - {e. is_edge a b e} = set (blocks s) - {e. is_edge a b e}"
  shows "coherent (s\<lparr>blocks := bs, block_cache := (block_cache s)(a := None, b := None), privacy_bus := x\<rparr>)"
proof -
  let ?s = "s\<lparr>blocks := bs, block_cache := (block_cache s)(a := None, b := None), privacy_bus := x\<rparr>"
  have "edge_between u c ?s = edge_between u c s" if "u \<noteq> a" "u \<noteq> b" for u c
    by (rule edge_elsewhere [OF _ that]) (simp add: assms(2))
  then show ?thesis using assms(1)
    by (auto simp: coherent_def relationship_set settings_row_of_def)
qed

lemma coherent_block: "coherent s \<Longrightarrow> coherent (snd (block_user a b r now s))"
  by (auto simp: block_user_def createBlock_def invalidateBlock_def publish_privacy_def act_defs
      intro!: coherent_invalidated) (auto simp: is_edge_def)

lemma coherent_unblock: "coherent s \<Longrightarrow> coherent (snd (unblock_user a b s))"
  by (auto simp: unblock_user_def deleteBlock_def invalidateBlock_def publish_privacy_def act_defs
      intro!: coherent_invalidated)

lemma coherent_op: "coherent s \<Longrightarrow> coherent (do_privacy env x s)"
proof (induction env x s rule: do_privacy.induct)
  case (1 env v t a now s)
  then show ?case using privacy_check_run [of s env v t a now] by auto
next
  case (2 env a b now s)
  then show ?case using isBlockedEitherWay_run [of s env a b now] by auto
next
  case (3 env u now s)
  then show ?case using getSettings_run [of s env u now] by auto
next
  case (4 env u p now s)
  then show ?case
    by (auto simp: updateSettings_def repo_updateSettings_def publish_privacy_def act_defs Let_def coherent_def
        relationship_set edge_between_def blockExists_def settings_row_of_def)
next
  case (5 env u now s)
  then show ?case
    by (auto simp: getPreferences_def ensurePreferences_def coherent_def relationship_set edge_between_def
        blockExists_def settings_row_of_def split: option.splits)
next
  case (6 env u p now s)
  then show ?case
    by (auto simp: updatePreferences_def repo_updatePreferences_def publish_privacy_def act_defs Let_def coherent_def
        relationship_set edge_between_def blockExists_def settings_row_of_def)
next
  case (7 env a b r now s)
  then show ?case by (simp add: coherent_block)
next
  case (8 env a b now s)
  then show ?case by (simp add: coherent_unblock)
qed

lemma coherent_run: "coherent s \<Longrightarrow> coherent (privacy_run env ops s)"
  unfolding privacy_run_def by (induction ops arbitrary: s) (auto simp: coherent_op)

section \<open>The interface other modules rely on\<close>

text \<open>
  What a module that lets one user reach another asks first. The provider promises that, in a sound
  state, both questions are answered by the reference and change nothing the reference depends on.
\<close>

locale access_gate =
  fixes ask_blocked ask_allowed :: "user_id \<Rightarrow> user_id \<Rightarrow> ('s, bool) act"
    and blocked allowed :: "user_id \<Rightarrow> user_id \<Rightarrow> 's \<Rightarrow> bool"
    and sound :: "'s \<Rightarrow> bool"
    and same :: "'s \<Rightarrow> 's \<Rightarrow> bool"
  assumes same_step: "step_order same"
    and ask_blocked: "sound s \<Longrightarrow> \<exists>s'. ask_blocked a b s = (Inr (blocked a b s), s') \<and> sound s' \<and> same s s'"
    and ask_allowed: "sound s \<Longrightarrow> \<exists>s'. ask_allowed a b s = (Inr (allowed a b s), s') \<and> sound s' \<and> same s s'"
    and same_allowed: "same s s' \<Longrightarrow> allowed a b s' = allowed a b s"
begin

lemma gate_run:
  assumes "sound s"
  shows "\<exists>s'. bindA (ask_blocked a b) (\<lambda>x. bindA (guardA (\<not> x) e) (\<lambda>_. bindA (ask_allowed a b) (\<lambda>y. guardA y e'))) s =
      (if blocked a b s then Inl e else if allowed a b s then Inr () else Inl e', s') \<and> sound s' \<and> same s s'"
proof -
  obtain s1 where s1: "ask_blocked a b s = (Inr (blocked a b s), s1)" "sound s1" "same s s1"
    using ask_blocked [OF assms] by blast
  obtain s2 where s2: "ask_allowed a b s1 = (Inr (allowed a b s1), s2)" "sound s2" "same s1 s2"
    using ask_allowed [OF s1(2)] by blast
  have "same s s2" by (rule step_order.trans_step [OF same_step s1(3) s2(3)])
  then show ?thesis using s1 s2 same_allowed [OF s1(3), of a b] by (cases "blocked a b s") (auto simp: bindA_def guardA_def)
qed

lemma verdict_run:
  assumes "sound s"
  shows "\<exists>s'. bindA (ask_blocked a b) (\<lambda>x. if x then returnA p else bindA (ask_allowed a b) (\<lambda>y. returnA (if y then q else r))) s =
      (Inr (if blocked a b s then p else if allowed a b s then q else r), s') \<and> sound s' \<and> same s s'"
proof -
  obtain s1 where s1: "ask_blocked a b s = (Inr (blocked a b s), s1)" "sound s1" "same s s1"
    using ask_blocked [OF assms] by blast
  obtain s2 where s2: "ask_allowed a b s1 = (Inr (allowed a b s1), s2)" "sound s2" "same s1 s2"
    using ask_allowed [OF s1(2)] by blast
  have "same s s2" by (rule step_order.trans_step [OF same_step s1(3) s2(3)])
  then show ?thesis using s1 s2 same_allowed [OF s1(3), of a b] by (cases "blocked a b s") (auto simp: bindA_def returnA_def)
qed

end

interpretation privacy_gate: access_gate
  "\<lambda>a b. isBlockedEitherWay env a b now" "\<lambda>a b. privacy_check env (Some a) b action now"
  edge_between "\<lambda>a b. may env (Some a) b action" coherent same_tables
  for env now action
  by (intro access_gate.intro same_tables_order isBlockedEitherWay_run privacy_check_run same_may)

end
