(* ===== verification/Calls.thy ===== *)
theory Calls
  imports Privacy
begin

text \<open>
  Private calls (src/modules/calls): one row per call attempt, moved along its lifecycle by conditional
  updates. The tables extend the privacy database, whose check engine \<open>initiate\<close> consults. \<open>call_queue\<close>
  is what was asked of the deadline queue (BullMQ), \<open>call_bus\<close> what was published. The record
  \<open>call_env\<close> holds the configuration and what the module asks of others: profile cards, the profile
  search, the chat threads and the token generator of the media provider, and the milliseconds between the
  service reading its clock for a new row and the database stamping it. Every handler is written as
  its phases between database round trips: the check reads and refuses, the commit is the conditional
  update, the settling re-reads the row, publishes and answers. \<open>now\<close> is \<open>Date.now()\<close> in milliseconds.
\<close>

section \<open>Tables\<close>

datatype call_type = VOICE | VIDEO

datatype call_status =
  Ringing | Accepted | Connected | Ended | Rejected | Cancelled | Missed | Busy | Failed

datatype end_reason =
    Hangup | Declined | Cancelled_by_caller | Timeout | Callee_busy | Network | Failure

record call_row =
  cl_id :: nat
  cl_callerId :: user_id
  cl_calleeId :: user_id
  cl_type :: call_type
  cl_status :: call_status
  cl_zegoRoomId :: nat
  cl_clientId :: string
  cl_conversationId :: "nat option"
  cl_ringingExpiresAt :: int
  cl_acceptedAt :: "int option"
  cl_connectedAt :: "int option"
  cl_endedAt :: "int option"
  cl_endedBy :: "user_id option"
  cl_endReason :: "end_reason option"
  cl_durationSeconds :: int
  cl_createdAt :: int

record card =
  cd_userId :: user_id
  cd_username :: string
  cd_fullName :: "string option"
  cd_avatarUrl :: "string option"
  cd_equippedFrameUrl :: "string option"
  cd_verified :: bool
  cd_level :: int
  cd_vipLevel :: int

record call_view =
  cv_id :: nat
  cv_type :: call_type
  cv_status :: call_status
  cv_callerId :: user_id
  cv_calleeId :: user_id
  cv_peer :: card
  cv_isOutgoing :: bool
  cv_ringingExpiresAt :: int
  cv_acceptedAt :: "int option"
  cv_connectedAt :: "int option"
  cv_endedAt :: "int option"
  cv_endedBy :: "user_id option"
  cv_endReason :: "end_reason option"
  cv_durationSeconds :: int
  cv_conversationId :: "nat option"
  cv_createdAt :: int

text \<open>The views of an event, by recipient, in the order the object lists them.\<close>

type_synonym views = "(user_id \<times> call_view) list"

record addressed =
  ad_recipientIds :: "user_id list"
  ad_views :: views
  ad_callId :: nat

datatype call_event =
    CallInitiated addressed user_id user_id
  | CallAccepted addressed user_id
  | CallConnected addressed
  | CallRejected addressed user_id
  | CallCancelled addressed user_id
  | CallBusy addressed
  | CallMissed addressed
  | CallEnded addressed "user_id option" int
  | CallFailed addressed

datatype job_name = RING_TIMEOUT | CONNECT_TIMEOUT | REAP | Unknown_job string

record deadline_job =
  dj_callId :: nat
  dj_maxDuration :: bool

datatype queue_request =
    Queue_add job_name deadline_job string int
  | Queue_remove string

datatype socket_event =
    Call_incoming | Call_ringing | Call_accepted | Call_connected | Call_rejected | Call_cancelled
  | Call_busy | Call_missed | Call_ended | Call_failed

record push =
  pu_userId :: user_id
  pu_title :: string
  pu_body :: string
  pu_high :: bool
  pu_ttlSeconds :: "int option"
  pu_collapseKey :: string
  pu_data :: "(string \<times> string) list"

record missed_notice =
  mn_userId :: user_id
  mn_actorId :: user_id
  mn_entityId :: nat
  mn_callType :: call_type
  mn_callerName :: string

datatype notification = Push push | Missed_call missed_notice

record chat_log =
  lg_authorId :: user_id
  lg_conversationId :: nat
  lg_clientId :: string
  lg_callId :: nat
  lg_callType :: call_type
  lg_durationSeconds :: int
  lg_outcome :: string

record call_db = privacy_db +
  calls :: "call_row list"
  call_seq :: nat
  rates :: "user_id \<Rightarrow> int cached option"
  call_queue :: "queue_request list"
  call_bus :: "call_event list"
  call_sockets :: "(user_id \<times> socket_event \<times> call_view) list"
  notifications :: "notification list"
  chat_logs :: "chat_log list"

record zego_env =
  ze_dev :: bool
  ze_appId :: int
  ze_serverSecret :: string
  ze_expiry :: int
  ze_token04 :: "int \<Rightarrow> user_id \<Rightarrow> string \<Rightarrow> int \<Rightarrow> nat \<times> bool \<Rightarrow> string"

record call_env =
  ce_ringTimeoutSeconds :: int
  ce_maxDurationSeconds :: int
  ce_connectTimeoutSeconds :: int
  ce_insertDelay :: "nat \<Rightarrow> nat"
  ce_rateMax :: int
  ce_rateWindowSeconds :: int
  ce_writeChatLog :: bool
  ce_privacy :: pv_env
  ce_zego :: zego_env
  ce_getCards :: "user_id list \<Rightarrow> card list"
  ce_search :: "string \<Rightarrow> user_id \<Rightarrow> user_id list"
  ce_findDirect :: "user_id \<Rightarrow> user_id \<Rightarrow> err + nat option"
  ce_sendMessage :: "chat_log \<Rightarrow> err option"
  ce_notify :: "notification \<Rightarrow> err option"

section \<open>Repository\<close>

definition live_status :: "call_status \<Rightarrow> bool" where
  "live_status st \<longleftrightarrow> st \<in> {Ringing, Accepted, Connected}"

definition find_call :: "nat \<Rightarrow> ('z call_db_scheme) \<Rightarrow> call_row option" where
  "find_call i s = List.find (\<lambda>c. cl_id c = i) (calls s)"

definition in_call :: "user_id \<Rightarrow> call_row \<Rightarrow> bool" where
  "in_call u c \<longleftrightarrow> cl_callerId c = u \<or> cl_calleeId c = u"

definition findLiveForUser :: "user_id \<Rightarrow> ('z call_db_scheme) \<Rightarrow> call_row option" where
  "findLiveForUser u s =
     (case sort_key (\<lambda>c. - cl_createdAt c) (filter (\<lambda>c. live_status (cl_status c) \<and> in_call u c) (calls s)) of
        [] \<Rightarrow> None | c # _ \<Rightarrow> Some c)"

definition findByClientId :: "user_id \<Rightarrow> string \<Rightarrow> ('z call_db_scheme) \<Rightarrow> call_row option" where
  "findByClientId u k s = List.find (\<lambda>c. cl_callerId c = u \<and> cl_clientId c = k) (calls s)"

record initiate_input =
  ii_calleeId :: user_id
  ii_type :: call_type
  ii_clientId :: string

text \<open>The insert: the database draws the identifier, and refuses a second (caller, clientId).\<close>

definition insert_call :: "(nat \<Rightarrow> call_row) \<Rightarrow> ('z call_db_scheme, call_row) act" where
  "insert_call mk s =
     (let c = mk (call_seq s) in
      if findByClientId (cl_callerId c) (cl_clientId c) s \<noteq> None then (Inl P2002, s)
      else (Inr c, s\<lparr>calls := calls s @ [c], call_seq := Suc (call_seq s)\<rparr>))"

definition new_call :: "user_id \<Rightarrow> initiate_input \<Rightarrow> nat \<Rightarrow> int \<Rightarrow> int \<Rightarrow> nat \<Rightarrow> call_row" where
  "new_call u inp room expires now i =
     \<lparr>cl_id = i, cl_callerId = u, cl_calleeId = ii_calleeId inp, cl_type = ii_type inp,
      cl_status = Ringing, cl_zegoRoomId = room, cl_clientId = ii_clientId inp, cl_conversationId = None,
      cl_ringingExpiresAt = expires, cl_acceptedAt = None, cl_connectedAt = None, cl_endedAt = None,
      cl_endedBy = None, cl_endReason = None, cl_durationSeconds = 0, cl_createdAt = now\<rparr>"

definition create_call :: "user_id \<Rightarrow> initiate_input \<Rightarrow> nat \<Rightarrow> int \<Rightarrow> int \<Rightarrow> ('z call_db_scheme, call_row) act" where
  "create_call u inp room expires now =
     catchA (insert_call (new_call u inp room expires now))
       (\<lambda>e. if e = P2002
            then bindA (getsA (findByClientId u (ii_clientId inp))) (\<lambda>found.
                   case found of Some c \<Rightarrow> returnA c | None \<Rightarrow> throwA e)
            else throwA e)"

text \<open>
  The service reads its clock, \<open>called\<close>, before the insert; the database stamps the row, \<open>now\<close>.
\<close>

definition createBusy :: "user_id \<Rightarrow> initiate_input \<Rightarrow> nat \<Rightarrow> int \<Rightarrow> int \<Rightarrow> ('z call_db_scheme, call_row) act" where
  "createBusy u inp room called now =
     insert_call (\<lambda>i. (new_call u inp room called now i)
       \<lparr>cl_status := Busy, cl_endReason := Some Callee_busy, cl_endedAt := Some called\<rparr>)"

text \<open>\<open>updateMany\<close> with the legal source statuses in the WHERE clause; true when a row matched.\<close>

definition matches :: "nat \<Rightarrow> call_status list \<Rightarrow> call_row \<Rightarrow> bool" where
  "matches i sources c \<longleftrightarrow> cl_id c = i \<and> cl_status c \<in> set sources"

definition transition ::
  "nat \<Rightarrow> call_status list \<Rightarrow> (call_row \<Rightarrow> call_row) \<Rightarrow> ('z call_db_scheme, bool) act" where
  "transition i sources f s =
     (Inr (\<exists>c \<in> set (calls s). matches i sources c),
      s\<lparr>calls := map (\<lambda>c. if matches i sources c then f c else c) (calls s)\<rparr>)"

definition markAccepted :: "nat \<Rightarrow> int \<Rightarrow> ('z call_db_scheme, bool) act" where
  "markAccepted i now = transition i [Ringing] (\<lambda>c. c\<lparr>cl_status := Accepted, cl_acceptedAt := Some now\<rparr>)"

definition repo_markConnected :: "nat \<Rightarrow> int \<Rightarrow> ('z call_db_scheme, bool) act" where
  "repo_markConnected i now =
     transition i [Accepted] (\<lambda>c. c\<lparr>cl_status := Connected, cl_connectedAt := Some now\<rparr>)"

record terminate_input =
  ti_status :: call_status
  ti_endReason :: end_reason
  ti_endedBy :: "user_id option"
  ti_durationSeconds :: int

definition terminated :: "terminate_input \<Rightarrow> int \<Rightarrow> call_row \<Rightarrow> call_row" where
  "terminated t now c = c\<lparr>cl_status := ti_status t, cl_endReason := Some (ti_endReason t),
     cl_endedBy := ti_endedBy t, cl_endedAt := Some now, cl_durationSeconds := ti_durationSeconds t\<rparr>"

definition terminate :: "nat \<Rightarrow> call_status list \<Rightarrow> terminate_input \<Rightarrow> int \<Rightarrow> ('z call_db_scheme, bool) act" where
  "terminate i sources t now = transition i sources (terminated t now)"

definition setConversation :: "nat \<Rightarrow> nat \<Rightarrow> ('z call_db_scheme, unit) act" where
  "setConversation i conv s =
     (if find_call i s = None then (Inl (OtherError ''P2025''), s)
      else (Inr (), s\<lparr>calls := map (\<lambda>c. if cl_id c = i then c\<lparr>cl_conversationId := Some conv\<rparr> else c) (calls s)\<rparr>))"

datatype history_filter = ALL_CALLS | INCOMING | OUTGOING | MISSED_CALLS

definition historyWhere :: "user_id \<Rightarrow> history_filter \<Rightarrow> user_id list option \<Rightarrow> call_row \<Rightarrow> bool" where
  "historyWhere u flt peers c \<longleftrightarrow>
     (case flt of
        INCOMING \<Rightarrow> cl_calleeId c = u
      | OUTGOING \<Rightarrow> cl_callerId c = u
      | MISSED_CALLS \<Rightarrow> cl_calleeId c = u \<and> cl_status c \<in> {Missed, Busy}
      | ALL_CALLS \<Rightarrow> cl_callerId c = u \<or> cl_calleeId c = u) \<and>
     (case peers of None \<Rightarrow> True | Some ps \<Rightarrow> cl_callerId c \<in> set ps \<or> cl_calleeId c \<in> set ps)"

definition page_calls ::
  "user_id \<Rightarrow> int \<Rightarrow> int \<Rightarrow> history_filter \<Rightarrow> user_id list option \<Rightarrow> ('z call_db_scheme) \<Rightarrow> call_row list \<times> nat" where
  "page_calls u skip limit flt peers s =
     (let rows = filter (historyWhere u flt peers) (calls s)
      in (take (nat limit) (drop (nat skip) (sort_key (\<lambda>c. - cl_createdAt c) rows)), length rows))"

definition findExpiredRinging :: "int \<Rightarrow> nat \<Rightarrow> ('z call_db_scheme) \<Rightarrow> call_row list" where
  "findExpiredRinging now limit s =
     take limit (filter (\<lambda>c. cl_status c = Ringing \<and> cl_ringingExpiresAt c \<le> now) (calls s))"

definition at_or_before :: "int option \<Rightarrow> int \<Rightarrow> bool" where
  "at_or_before t before = (case t of None \<Rightarrow> False | Some x \<Rightarrow> x \<le> before)"

definition findStuckAccepted :: "int \<Rightarrow> nat \<Rightarrow> ('z call_db_scheme) \<Rightarrow> call_row list" where
  "findStuckAccepted before limit s =
     take limit (filter (\<lambda>c. cl_status c = Accepted \<and> at_or_before (cl_acceptedAt c) before) (calls s))"

definition findOverlongConnected :: "int \<Rightarrow> nat \<Rightarrow> ('z call_db_scheme) \<Rightarrow> call_row list" where
  "findOverlongConnected before limit s =
     take limit (filter (\<lambda>c. cl_status c = Connected \<and> at_or_before (cl_connectedAt c) before) (calls s))"

section \<open>Views\<close>

definition unknown_peer :: "user_id \<Rightarrow> card" where
  "unknown_peer u = \<lparr>cd_userId = u, cd_username = ''unknown'', cd_fullName = None, cd_avatarUrl = None,
     cd_equippedFrameUrl = None, cd_verified = False, cd_level = 0, cd_vipLevel = 0\<rparr>"

text \<open>A later card of the same user replaces an earlier one in the \<open>Map\<close>.\<close>

definition cards :: "call_env \<Rightarrow> user_id list \<Rightarrow> user_id \<Rightarrow> card option" where
  "cards env ids =
     (let unique = foldl set_add [] ids
      in if unique = [] then (\<lambda>_. None)
         else map_of (rev (map (\<lambda>c. (cd_userId c, c)) (ce_getCards env unique))))"

definition toView :: "call_row \<Rightarrow> user_id \<Rightarrow> (user_id \<Rightarrow> card option) \<Rightarrow> call_view" where
  "toView c viewer cs =
     (let outgoing = (cl_callerId c = viewer); peer = (if outgoing then cl_calleeId c else cl_callerId c)
      in \<lparr>cv_id = cl_id c, cv_type = cl_type c, cv_status = cl_status c, cv_callerId = cl_callerId c,
          cv_calleeId = cl_calleeId c,
          cv_peer = (case cs peer of Some cd \<Rightarrow> cd | None \<Rightarrow> unknown_peer peer),
          cv_isOutgoing = outgoing, cv_ringingExpiresAt = cl_ringingExpiresAt c,
          cv_acceptedAt = cl_acceptedAt c, cv_connectedAt = cl_connectedAt c, cv_endedAt = cl_endedAt c,
          cv_endedBy = cl_endedBy c, cv_endReason = cl_endReason c,
          cv_durationSeconds = cl_durationSeconds c, cv_conversationId = cl_conversationId c,
          cv_createdAt = cl_createdAt c\<rparr>)"

definition view :: "call_env \<Rightarrow> call_row \<Rightarrow> user_id \<Rightarrow> call_view" where
  "view env c viewer = toView c viewer (cards env [cl_callerId c, cl_calleeId c])"

definition bothViews :: "call_env \<Rightarrow> call_row \<Rightarrow> views" where
  "bothViews env c = [(cl_callerId c, view env c (cl_callerId c)), (cl_calleeId c, view env c (cl_calleeId c))]"

section \<open>Listeners\<close>

text \<open>
  The in-memory bus awaits its listeners (src/common/events/in-memory-event-bus.ts), so what they do is
  part of publishing: the socket listener routes each recipient its view, the chat log writes finished
  calls into an existing thread and swallows its errors, and the push listener asks the notification
  service, whose errors reach the publisher.
\<close>

fun payload :: "call_event \<Rightarrow> addressed" where
  "payload (CallInitiated ad _ _) = ad"
| "payload (CallAccepted ad _) = ad"
| "payload (CallConnected ad) = ad"
| "payload (CallRejected ad _) = ad"
| "payload (CallCancelled ad _) = ad"
| "payload (CallBusy ad) = ad"
| "payload (CallMissed ad) = ad"
| "payload (CallEnded ad _ _) = ad"
| "payload (CallFailed ad) = ad"

definition toUser :: "user_id \<Rightarrow> socket_event \<Rightarrow> views \<Rightarrow> (user_id \<times> socket_event \<times> call_view) list" where
  "toUser u e vs = (case map_of vs u of None \<Rightarrow> [] | Some v \<Rightarrow> [(u, e, v)])"

definition fanOut :: "socket_event \<Rightarrow> addressed \<Rightarrow> (user_id \<times> socket_event \<times> call_view) list" where
  "fanOut e ad = concat (map (\<lambda>u. toUser u e (ad_views ad)) (ad_recipientIds ad))"

fun deliveries :: "call_event \<Rightarrow> (user_id \<times> socket_event \<times> call_view) list" where
  "deliveries (CallInitiated ad caller callee) =
     toUser callee Call_incoming (ad_views ad) @ toUser caller Call_ringing (ad_views ad)"
| "deliveries (CallAccepted ad _) = fanOut Call_accepted ad"
| "deliveries (CallConnected ad) = fanOut Call_connected ad"
| "deliveries (CallRejected ad _) = fanOut Call_rejected ad"
| "deliveries (CallCancelled ad _) = fanOut Call_cancelled ad"
| "deliveries (CallBusy ad) = fanOut Call_busy ad"
| "deliveries (CallMissed ad) = fanOut Call_missed ad"
| "deliveries (CallEnded ad _ _) = fanOut Call_ended ad"
| "deliveries (CallFailed ad) = fanOut Call_failed ad"

definition peer_name :: "call_view \<Rightarrow> string" where
  "peer_name v = (case cd_fullName (cv_peer v) of Some n \<Rightarrow> n | None \<Rightarrow> cd_username (cv_peer v))"

definition collapseKey :: "nat \<Rightarrow> string" where
  "collapseKey i = ''call_'' @ show_nat i"

fun type_text :: "call_type \<Rightarrow> string" where
  "type_text VOICE = ''VOICE''"
| "type_text VIDEO = ''VIDEO''"

definition onIncoming :: "call_env \<Rightarrow> addressed \<Rightarrow> user_id \<Rightarrow> notification list" where
  "onIncoming env ad callee =
     (case map_of (ad_views ad) callee of
        None \<Rightarrow> []
      | Some v \<Rightarrow>
          [Push \<lparr>pu_userId = callee, pu_title = peer_name v,
             pu_body = (if cv_type v = VIDEO then ''Incoming video call'' else ''Incoming voice call''),
             pu_high = True, pu_ttlSeconds = Some (ce_ringTimeoutSeconds env),
             pu_collapseKey = collapseKey (ad_callId ad),
             pu_data = [(''type'', ''call_incoming''), (''callId'', show_nat (ad_callId ad)),
                        (''callType'', type_text (cv_type v)),
                        (''callerId'', show_nat (cd_userId (cv_peer v))), (''callerName'', peer_name v)] @
               (case cd_avatarUrl (cv_peer v) of
                  Some a \<Rightarrow> if a = [] then [] else [(''callerAvatar'', a)] | None \<Rightarrow> [])\<rparr>])"

definition callee_view :: "views \<Rightarrow> (call_view \<times> call_view) option" where
  "callee_view vs =
     (case vs of [] \<Rightarrow> None
      | (_, v) # _ \<Rightarrow> (case map_of vs (cv_calleeId v) of None \<Rightarrow> None | Some w \<Rightarrow> Some (v, w)))"

definition onMissed :: "addressed \<Rightarrow> notification list" where
  "onMissed ad =
     (case callee_view (ad_views ad) of
        None \<Rightarrow> []
      | Some (c, v) \<Rightarrow>
          [Missed_call \<lparr>mn_userId = cv_calleeId c, mn_actorId = cv_callerId c, mn_entityId = ad_callId ad,
             mn_callType = cv_type v, mn_callerName = peer_name v\<rparr>,
           Push \<lparr>pu_userId = cv_calleeId c, pu_title = peer_name v,
             pu_body = (if cv_type v = VIDEO then ''Missed video call'' else ''Missed voice call''),
             pu_high = False, pu_ttlSeconds = None, pu_collapseKey = collapseKey (ad_callId ad),
             pu_data = [(''type'', ''call_missed''), (''callId'', show_nat (ad_callId ad)),
                        (''callType'', type_text (cv_type v)), (''callerId'', show_nat (cv_callerId c))]\<rparr>])"

definition onCancelled :: "addressed \<Rightarrow> notification list" where
  "onCancelled ad =
     (case callee_view (ad_views ad) of
        None \<Rightarrow> []
      | Some (c, v) \<Rightarrow>
          [Push \<lparr>pu_userId = cv_calleeId c, pu_title = peer_name v, pu_body = ''Call cancelled'',
             pu_high = False, pu_ttlSeconds = Some 60, pu_collapseKey = collapseKey (ad_callId ad),
             pu_data = [(''type'', ''call_cancelled''), (''callId'', show_nat (ad_callId ad))]\<rparr>])"

fun notices :: "call_env \<Rightarrow> call_event \<Rightarrow> notification list" where
  "notices env (CallInitiated ad caller callee) = onIncoming env ad callee"
| "notices env (CallMissed ad) = onMissed ad"
| "notices env (CallCancelled ad u) = onCancelled ad"
| "notices env e = []"

definition notify :: "call_env \<Rightarrow> notification \<Rightarrow> ('z call_db_scheme, unit) act" where
  "notify env n s =
     (case ce_notify env n of
        Some e \<Rightarrow> (Inl e, s) | None \<Rightarrow> (Inr (), s\<lparr>notifications := notifications s @ [n]\<rparr>))"

fun outcomeOf :: "call_status \<Rightarrow> string" where
  "outcomeOf Ended = ''COMPLETED''"
| "outcomeOf Missed = ''MISSED''"
| "outcomeOf Rejected = ''DECLINED''"
| "outcomeOf Ringing = ''RINGING''"
| "outcomeOf Accepted = ''ACCEPTED''"
| "outcomeOf Connected = ''CONNECTED''"
| "outcomeOf Cancelled = ''CANCELLED''"
| "outcomeOf Busy = ''BUSY''"
| "outcomeOf Failed = ''FAILED''"

definition write_log :: "call_env \<Rightarrow> call_view \<Rightarrow> ('z call_db_scheme, unit) act" where
  "write_log env v =
     (case ce_findDirect env (cv_callerId v) (cv_calleeId v) of
        Inl e \<Rightarrow> throwA e
      | Inr None \<Rightarrow> returnA ()
      | Inr (Some conv) \<Rightarrow>
          (let m = \<lparr>lg_authorId = cv_callerId v, lg_conversationId = conv,
                    lg_clientId = ''call:'' @ show_nat (cv_id v), lg_callId = cv_id v,
                    lg_callType = cv_type v, lg_durationSeconds = cv_durationSeconds v,
                    lg_outcome = outcomeOf (cv_status v)\<rparr>
           in bindA (case ce_sendMessage env m of
                       Some e \<Rightarrow> throwA e
                     | None \<Rightarrow> modifyA (\<lambda>s. s\<lparr>chat_logs := chat_logs s @ [m]\<rparr>)) (\<lambda>_.
              setConversation (cv_id v) conv)))"

definition log_call :: "call_env \<Rightarrow> views \<Rightarrow> ('z call_db_scheme, unit) act" where
  "log_call env vs =
     (case vs of [] \<Rightarrow> returnA () | (_, v) # _ \<Rightarrow> catchA (write_log env v) (\<lambda>_. returnA ()))"

fun logged :: "call_event \<Rightarrow> bool" where
  "logged (CallEnded ad u d) = True"
| "logged (CallMissed ad) = True"
| "logged (CallRejected ad u) = True"
| "logged e = False"

definition publish_call :: "call_env \<Rightarrow> call_event \<Rightarrow> ('z call_db_scheme, unit) act" where
  "publish_call env e =
     bindA (modifyA (\<lambda>s. s\<lparr>call_bus := call_bus s @ [e], call_sockets := call_sockets s @ deliveries e\<rparr>)) (\<lambda>_.
     bindA (if ce_writeChatLog env \<and> logged e then log_call env (ad_views (payload e)) else returnA ()) (\<lambda>_.
     forA (notify env) (notices env e)))"

section \<open>Guards, tokens and deadline jobs\<close>

definition terminal :: "call_status \<Rightarrow> bool" where
  "terminal st \<longleftrightarrow> st \<noteq> Ringing \<and> st \<noteq> Accepted \<and> st \<noteq> Connected"

definition requireCall :: "nat \<Rightarrow> user_id \<Rightarrow> ('z call_db_scheme, call_row) act" where
  "requireCall i u =
     bindA (getsA (find_call i)) (\<lambda>found.
       case found of
         None \<Rightarrow> throwA (Business ''CALL_NOT_FOUND'')
       | Some c \<Rightarrow>
           bindA (guardA (cl_callerId c = u \<or> cl_calleeId c = u) (Business ''CALL_NOT_FOUND'')) (\<lambda>_. returnA c))"

definition invalidState :: "call_status \<Rightarrow> err" where
  "invalidState st = Business (if st = Busy then ''CALL_BUSY'' else ''CALL_INVALID_STATE'')"

definition assertCaller :: "call_row \<Rightarrow> user_id \<Rightarrow> ('s, unit) act" where
  "assertCaller c u = guardA (cl_callerId c = u) (Business ''CALL_NOT_PARTICIPANT'')"

definition assertCallee :: "call_row \<Rightarrow> user_id \<Rightarrow> ('s, unit) act" where
  "assertCallee c u = guardA (cl_calleeId c = u) (Business ''CALL_NOT_PARTICIPANT'')"

definition assertStatus :: "call_row \<Rightarrow> call_status list \<Rightarrow> ('s, unit) act" where
  "assertStatus c allowed = guardA (cl_status c \<in> set allowed) (invalidState (cl_status c))"

definition durationOf :: "call_row \<Rightarrow> int \<Rightarrow> int" where
  "durationOf c now =
     (case cl_connectedAt c of None \<Rightarrow> 0 | Some t \<Rightarrow> max 0 ((now - t + 500) div 1000))"

definition hasRealConfig :: "zego_env \<Rightarrow> bool" where
  "hasRealConfig z \<longleftrightarrow> ze_appId z \<noteq> 0 \<and> ze_serverSecret z \<noteq> []"

definition isConfigured :: "zego_env \<Rightarrow> bool" where
  "isConfigured z \<longleftrightarrow> (if ze_dev z then True else hasRealConfig z)"

definition buildRoomToken :: "zego_env \<Rightarrow> user_id \<Rightarrow> nat \<Rightarrow> bool \<Rightarrow> err + int \<times> string \<times> int" where
  "buildRoomToken z u room canPublish =
     (if \<not> hasRealConfig z
      then (if ze_dev z then Inr (1, ''mock_zego_token_for_dev'', 3600)
            else Inl (OtherError ''ZEGOCLOUD credentials are not configured''))
      else Inr (ze_appId z, ze_token04 z (ze_appId z) u (ze_serverSecret z) (ze_expiry z) (room, canPublish),
                ze_expiry z))"

definition assertRtcConfigured :: "call_env \<Rightarrow> ('s, unit) act" where
  "assertRtcConfigured env = guardA (isConfigured (ce_zego env)) (Business ''VOICE_NOT_CONFIGURED'')"

definition callStreamId :: "nat \<Rightarrow> user_id \<Rightarrow> string" where
  "callStreamId i u = ''call_'' @ show_nat i @ ''_'' @ show_nat u"

record credentials =
  cr_appId :: int
  cr_token :: string
  cr_zegoRoomId :: nat
  cr_streamId :: string
  cr_peerStreamId :: string
  cr_expiresInSeconds :: int

definition credentialsFor :: "call_env \<Rightarrow> call_row \<Rightarrow> user_id \<Rightarrow> ('s, credentials) act" where
  "credentialsFor env c u =
     (let peer = (if cl_callerId c = u then cl_calleeId c else cl_callerId c) in
      case buildRoomToken (ce_zego env) u (cl_zegoRoomId c) True of
        Inl e \<Rightarrow> throwA e
      | Inr (app, tok, ex) \<Rightarrow>
          returnA \<lparr>cr_appId = app, cr_token = tok, cr_zegoRoomId = cl_zegoRoomId c,
            cr_streamId = callStreamId (cl_id c) u, cr_peerStreamId = callStreamId (cl_id c) peer,
            cr_expiresInSeconds = ex\<rparr>)"

text \<open>\<open>views[userId]\<close> is undefined for a user the object does not list.\<close>

record session =
  se_call :: "call_view option"
  se_credentials :: "credentials option"

definition sessionFor :: "call_env \<Rightarrow> call_row \<Rightarrow> user_id \<Rightarrow> ('s, session) act" where
  "sessionFor env c u =
     (if terminal (cl_status c) then returnA \<lparr>se_call = Some (view env c u), se_credentials = None\<rparr>
      else bindA (credentialsFor env c u) (\<lambda>cr.
             returnA \<lparr>se_call = Some (view env c u), se_credentials = Some cr\<rparr>))"

definition ask_queue :: "queue_request list \<Rightarrow> ('z call_db_scheme, unit) act" where
  "ask_queue qs = modifyA (\<lambda>s. s\<lparr>call_queue := call_queue s @ qs\<rparr>)"

definition ring_job :: "nat \<Rightarrow> string" where "ring_job i = ''ring-'' @ show_nat i"
definition connect_job :: "nat \<Rightarrow> string" where "connect_job i = ''connect-'' @ show_nat i"
definition max_job :: "nat \<Rightarrow> string" where "max_job i = ''max-'' @ show_nat i"

definition armRingTimeout :: "call_row \<Rightarrow> int \<Rightarrow> ('z call_db_scheme, unit) act" where
  "armRingTimeout c now =
     ask_queue [Queue_add RING_TIMEOUT \<lparr>dj_callId = cl_id c, dj_maxDuration = False\<rparr> (ring_job (cl_id c))
                  (max 0 (cl_ringingExpiresAt c - now))]"

definition armConnectTimeout :: "call_env \<Rightarrow> call_row \<Rightarrow> ('z call_db_scheme, unit) act" where
  "armConnectTimeout env c =
     ask_queue [Queue_add CONNECT_TIMEOUT \<lparr>dj_callId = cl_id c, dj_maxDuration = False\<rparr> (connect_job (cl_id c))
                  (ce_connectTimeoutSeconds env * 1000)]"

definition armMaxDuration :: "call_env \<Rightarrow> call_row \<Rightarrow> ('z call_db_scheme, unit) act" where
  "armMaxDuration env c =
     ask_queue [Queue_add CONNECT_TIMEOUT \<lparr>dj_callId = cl_id c, dj_maxDuration = True\<rparr> (max_job (cl_id c))
                  (ce_maxDurationSeconds env * 1000)]"

definition disarm :: "nat \<Rightarrow> ('z call_db_scheme, unit) act" where
  "disarm i = ask_queue [Queue_remove (ring_job i), Queue_remove (connect_job i), Queue_remove (max_job i)]"

text \<open>\<open>INCR\<close> with the time to live set by the first increment of a window.\<close>

definition increment :: "user_id \<Rightarrow> int \<Rightarrow> int \<Rightarrow> ('z call_db_scheme, int) act" where
  "increment u ttl now s =
     (let old = (case cache_get now (rates s u) of None \<Rightarrow> 0 | Some n \<Rightarrow> n);
          value = old + 1;
          expiry = (if 0 < ttl \<and> value = 1 then Some (now + ttl * 1000)
                    else if cache_get now (rates s u) = None then None
                    else (case rates s u of None \<Rightarrow> None | Some (_, e) \<Rightarrow> e))
      in (Inr value, s\<lparr>rates := (rates s)(u := Some (value, expiry))\<rparr>))"

definition assertNotRateLimited :: "call_env \<Rightarrow> user_id \<Rightarrow> int \<Rightarrow> ('z call_db_scheme, unit) act" where
  "assertNotRateLimited env u now =
     bindA (increment u (ce_rateWindowSeconds env) now) (\<lambda>count.
     guardA (count \<le> ce_rateMax env) (Business ''CALL_RATE_LIMITED''))"

definition assertMayCall :: "call_env \<Rightarrow> user_id \<Rightarrow> user_id \<Rightarrow> int \<Rightarrow> ('z call_db_scheme, unit) act" where
  "assertMayCall env u callee now =
     bindA (isBlockedEitherWay (ce_privacy env) u callee now) (\<lambda>blocked.
     bindA (guardA (\<not> blocked) (Business ''CALL_BLOCKED'')) (\<lambda>_.
     bindA (privacy_check (ce_privacy env) (Some u) callee CALL now) (\<lambda>allowed.
     guardA allowed (Business ''CALL_NOT_ALLOWED''))))"

section \<open>Placing a call\<close>

text \<open>
  The check phase answers a session already decided (a retry), or whether the callee is busy.
\<close>

definition initiate_check ::
  "call_env \<Rightarrow> user_id \<Rightarrow> initiate_input \<Rightarrow> int \<Rightarrow> ('z call_db_scheme, session + bool) act" where
  "initiate_check env u inp now =
     bindA (guardA (u \<noteq> ii_calleeId inp) (Business ''CANNOT_CALL_SELF'')) (\<lambda>_.
     bindA (assertRtcConfigured env) (\<lambda>_.
     bindA (getsA (findByClientId u (ii_clientId inp))) (\<lambda>existing.
       case existing of
         Some c \<Rightarrow> bindA (sessionFor env c u) (\<lambda>ss. returnA (Inl ss))
       | None \<Rightarrow>
           bindA (assertNotRateLimited env u now) (\<lambda>_.
           bindA (assertMayCall env u (ii_calleeId inp) now) (\<lambda>_.
           bindA (getsA (findLiveForUser u)) (\<lambda>callerLive.
           bindA (guardA (callerLive = None) (Business ''CALL_ALREADY_ACTIVE'')) (\<lambda>_.
           bindA (getsA (findLiveForUser (ii_calleeId inp))) (\<lambda>calleeLive.
           returnA (Inr (calleeLive \<noteq> None))))))))))"

definition draw_uuid :: "('z call_db_scheme, nat) act" where
  "draw_uuid s = (Inr (call_seq s), s\<lparr>call_seq := Suc (call_seq s)\<rparr>)"

definition initiate_commit ::
  "call_env \<Rightarrow> user_id \<Rightarrow> initiate_input \<Rightarrow> bool \<Rightarrow> int \<Rightarrow> ('z call_db_scheme, call_row) act" where
  "initiate_commit env u inp busy now =
     bindA draw_uuid (\<lambda>room.
       let called = now - int (ce_insertDelay env room)
       in if busy then createBusy u inp room called now
          else create_call u inp room (called + ce_ringTimeoutSeconds env * 1000) now)"

definition initiate_settle ::
  "call_env \<Rightarrow> user_id \<Rightarrow> initiate_input \<Rightarrow> bool \<Rightarrow> call_row \<Rightarrow> int \<Rightarrow> ('z call_db_scheme, session) act" where
  "initiate_settle env u inp busy c now =
     (if busy
      then bindA (publish_call env (CallBusy \<lparr>ad_recipientIds = [u], ad_views = bothViews env c, ad_callId = cl_id c\<rparr>)) (\<lambda>_.
           returnA \<lparr>se_call = map_of (bothViews env c) u, se_credentials = None\<rparr>)
      else bindA (armRingTimeout c now) (\<lambda>_.
           bindA (publish_call env (CallInitiated
             \<lparr>ad_recipientIds = [u, ii_calleeId inp], ad_views = bothViews env c, ad_callId = cl_id c\<rparr>
             u (ii_calleeId inp))) (\<lambda>_.
           bindA (credentialsFor env c u) (\<lambda>cr.
           returnA \<lparr>se_call = map_of (bothViews env c) u, se_credentials = Some cr\<rparr>))))"

definition initiate ::
  "call_env \<Rightarrow> user_id \<Rightarrow> initiate_input \<Rightarrow> int \<Rightarrow> ('z call_db_scheme, session) act" where
  "initiate env u inp now =
     bindA (initiate_check env u inp now) (\<lambda>r.
       case r of
         Inl ss \<Rightarrow> returnA ss
       | Inr busy \<Rightarrow>
           bindA (initiate_commit env u inp busy now) (\<lambda>c. initiate_settle env u inp busy c now))"

section \<open>Answering\<close>

definition settle ::
  "call_env \<Rightarrow> nat \<Rightarrow> user_id \<Rightarrow> (addressed \<Rightarrow> call_row \<Rightarrow> call_event) \<Rightarrow> ('z call_db_scheme, call_view option) act" where
  "settle env i u mk =
     bindA (requireCall i u) (\<lambda>c.
     bindA (publish_call env (mk \<lparr>ad_recipientIds = [cl_callerId c, cl_calleeId c], ad_views = bothViews env c,
                              ad_callId = i\<rparr> c)) (\<lambda>_.
     bindA (disarm i) (\<lambda>_.
     returnA (map_of (bothViews env c) u))))"

definition accept_check :: "call_env \<Rightarrow> user_id \<Rightarrow> nat \<Rightarrow> ('z call_db_scheme, session option) act" where
  "accept_check env u i =
     bindA (requireCall i u) (\<lambda>c.
       if cl_status c = Accepted \<or> cl_status c = Connected
       then bindA (assertCallee c u) (\<lambda>_. bindA (sessionFor env c u) (\<lambda>ss. returnA (Some ss)))
       else bindA (assertCallee c u) (\<lambda>_. bindA (assertStatus c [Ringing]) (\<lambda>_. returnA None)))"

text \<open>A lost update re-reads the call and reports where it stands.\<close>

definition lost :: "user_id \<Rightarrow> nat \<Rightarrow> ('z call_db_scheme, 'a) act" where
  "lost u i = bindA (requireCall i u) (\<lambda>c. throwA (invalidState (cl_status c)))"

definition accept_commit :: "user_id \<Rightarrow> nat \<Rightarrow> int \<Rightarrow> ('z call_db_scheme, unit) act" where
  "accept_commit u i now = bindA (markAccepted i now) (\<lambda>won. if won then returnA () else lost u i)"

definition accept_settle :: "call_env \<Rightarrow> user_id \<Rightarrow> nat \<Rightarrow> ('z call_db_scheme, session) act" where
  "accept_settle env u i =
     bindA (requireCall i u) (\<lambda>c.
     bindA (armConnectTimeout env c) (\<lambda>_.
     bindA (publish_call env (CallAccepted \<lparr>ad_recipientIds = [cl_callerId c, cl_calleeId c],
              ad_views = bothViews env c, ad_callId = i\<rparr> u)) (\<lambda>_.
     bindA (credentialsFor env c u) (\<lambda>cr.
     returnA \<lparr>se_call = map_of (bothViews env c) u, se_credentials = Some cr\<rparr>))))"

definition accept :: "call_env \<Rightarrow> user_id \<Rightarrow> nat \<Rightarrow> int \<Rightarrow> ('z call_db_scheme, session) act" where
  "accept env u i now =
     bindA (accept_check env u i) (\<lambda>r.
       case r of Some ss \<Rightarrow> returnA ss
       | None \<Rightarrow> bindA (accept_commit u i now) (\<lambda>_. accept_settle env u i))"

definition reject_check :: "user_id \<Rightarrow> nat \<Rightarrow> ('z call_db_scheme, unit) act" where
  "reject_check u i =
     bindA (requireCall i u) (\<lambda>c. bindA (assertCallee c u) (\<lambda>_. assertStatus c [Ringing]))"

definition reject_commit :: "user_id \<Rightarrow> nat \<Rightarrow> int \<Rightarrow> ('z call_db_scheme, unit) act" where
  "reject_commit u i now =
     bindA (terminate i [Ringing] \<lparr>ti_status = Rejected, ti_endReason = Declined, ti_endedBy = Some u,
              ti_durationSeconds = 0\<rparr> now) (\<lambda>won. if won then returnA () else lost u i)"

definition reject_settle :: "call_env \<Rightarrow> user_id \<Rightarrow> nat \<Rightarrow> ('z call_db_scheme, call_view option) act" where
  "reject_settle env u i = settle env i u (\<lambda>ad _. CallRejected ad u)"

definition reject :: "call_env \<Rightarrow> user_id \<Rightarrow> nat \<Rightarrow> int \<Rightarrow> ('z call_db_scheme, call_view option) act" where
  "reject env u i now =
     bindA (reject_check u i) (\<lambda>_. bindA (reject_commit u i now) (\<lambda>_. reject_settle env u i))"

definition cancel_check :: "user_id \<Rightarrow> nat \<Rightarrow> ('z call_db_scheme, unit) act" where
  "cancel_check u i =
     bindA (requireCall i u) (\<lambda>c. bindA (assertCaller c u) (\<lambda>_. assertStatus c [Ringing]))"

definition cancel_commit :: "user_id \<Rightarrow> nat \<Rightarrow> int \<Rightarrow> ('z call_db_scheme, unit) act" where
  "cancel_commit u i now =
     bindA (terminate i [Ringing] \<lparr>ti_status = Cancelled, ti_endReason = Cancelled_by_caller,
              ti_endedBy = Some u, ti_durationSeconds = 0\<rparr> now) (\<lambda>won. if won then returnA () else lost u i)"

definition cancel_settle :: "call_env \<Rightarrow> user_id \<Rightarrow> nat \<Rightarrow> ('z call_db_scheme, call_view option) act" where
  "cancel_settle env u i = settle env i u (\<lambda>ad _. CallCancelled ad u)"

definition cancel :: "call_env \<Rightarrow> user_id \<Rightarrow> nat \<Rightarrow> int \<Rightarrow> ('z call_db_scheme, call_view option) act" where
  "cancel env u i now =
     bindA (cancel_check u i) (\<lambda>_. bindA (cancel_commit u i now) (\<lambda>_. cancel_settle env u i))"

section \<open>In the call\<close>

text \<open>A check that answers \<open>Some\<close> has the reply already; a commit that answers \<open>Some\<close> lost the update.\<close>

definition connect_check :: "call_env \<Rightarrow> user_id \<Rightarrow> nat \<Rightarrow> ('z call_db_scheme, call_view option) act" where
  "connect_check env u i =
     bindA (requireCall i u) (\<lambda>c.
       if cl_status c = Connected then returnA (Some (view env c u))
       else bindA (assertStatus c [Accepted]) (\<lambda>_. returnA None))"

definition connect_commit :: "call_env \<Rightarrow> user_id \<Rightarrow> nat \<Rightarrow> int \<Rightarrow> ('z call_db_scheme, call_view option) act" where
  "connect_commit env u i now =
     bindA (repo_markConnected i now) (\<lambda>won.
       if won then returnA None
       else bindA (requireCall i u) (\<lambda>c.
              if cl_status c = Connected then returnA (Some (view env c u))
              else throwA (invalidState (cl_status c))))"

definition connect_settle :: "call_env \<Rightarrow> user_id \<Rightarrow> nat \<Rightarrow> ('z call_db_scheme, call_view option) act" where
  "connect_settle env u i =
     bindA (requireCall i u) (\<lambda>c.
     bindA (armMaxDuration env c) (\<lambda>_.
     bindA (publish_call env (CallConnected \<lparr>ad_recipientIds = [cl_callerId c, cl_calleeId c],
              ad_views = bothViews env c, ad_callId = i\<rparr>)) (\<lambda>_.
     returnA (map_of (bothViews env c) u))))"

definition or_go_on :: "('s, 'a option) act \<Rightarrow> ('s, 'a option) act \<Rightarrow> ('s, 'a option) act" where
  "or_go_on m k = bindA m (\<lambda>r. case r of Some v \<Rightarrow> returnA (Some v) | None \<Rightarrow> k)"

definition markConnected :: "call_env \<Rightarrow> user_id \<Rightarrow> nat \<Rightarrow> int \<Rightarrow> ('z call_db_scheme, call_view option) act" where
  "markConnected env u i now =
     or_go_on (connect_check env u i) (or_go_on (connect_commit env u i now) (connect_settle env u i))"

definition hangup_from :: "call_status list" where
  "hangup_from = [Accepted, Connected]"

text \<open>
  A hang-up that finds the call ringing becomes a cancel or a reject; the plan keeps which of the
  three goes on, and the duration is computed from the row the check read.
\<close>

datatype end_plan = Plan_cancel | Plan_reject | Plan_hangup int

definition end_check :: "call_env \<Rightarrow> user_id \<Rightarrow> nat \<Rightarrow> int \<Rightarrow> ('z call_db_scheme, call_view + end_plan) act" where
  "end_check env u i now =
     bindA (requireCall i u) (\<lambda>c.
       if terminal (cl_status c) then returnA (Inl (view env c u))
       else if cl_status c = Ringing
       then if cl_callerId c = u then bindA (cancel_check u i) (\<lambda>_. returnA (Inr Plan_cancel))
            else bindA (reject_check u i) (\<lambda>_. returnA (Inr Plan_reject))
       else returnA (Inr (Plan_hangup (durationOf c now))))"

definition hangup_input :: "user_id option \<Rightarrow> int \<Rightarrow> terminate_input" where
  "hangup_input by_user d =
     \<lparr>ti_status = Ended, ti_endReason = Hangup, ti_endedBy = by_user, ti_durationSeconds = d\<rparr>"

definition lost_view :: "call_env \<Rightarrow> user_id \<Rightarrow> nat \<Rightarrow> ('z call_db_scheme, call_view option) act" where
  "lost_view env u i = bindA (requireCall i u) (\<lambda>c. returnA (Some (view env c u)))"

definition hangup_commit :: "call_env \<Rightarrow> user_id \<Rightarrow> nat \<Rightarrow> int \<Rightarrow> int \<Rightarrow> ('z call_db_scheme, call_view option) act" where
  "hangup_commit env u i d now =
     bindA (terminate i hangup_from (hangup_input (Some u) d) now) (\<lambda>won.
       if won then returnA None else lost_view env u i)"

definition hangup_settle :: "call_env \<Rightarrow> user_id \<Rightarrow> nat \<Rightarrow> ('z call_db_scheme, call_view option) act" where
  "hangup_settle env u i = settle env i u (\<lambda>ad c. CallEnded ad (Some u) (cl_durationSeconds c))"

fun end_commit :: "call_env \<Rightarrow> user_id \<Rightarrow> nat \<Rightarrow> end_plan \<Rightarrow> int \<Rightarrow> ('z call_db_scheme, call_view option) act" where
  "end_commit env u i Plan_cancel now = bindA (cancel_commit u i now) (\<lambda>_. returnA None)"
| "end_commit env u i Plan_reject now = bindA (reject_commit u i now) (\<lambda>_. returnA None)"
| "end_commit env u i (Plan_hangup d) now = hangup_commit env u i d now"

fun end_settle :: "call_env \<Rightarrow> user_id \<Rightarrow> nat \<Rightarrow> end_plan \<Rightarrow> ('z call_db_scheme, call_view option) act" where
  "end_settle env u i Plan_cancel = cancel_settle env u i"
| "end_settle env u i Plan_reject = reject_settle env u i"
| "end_settle env u i (Plan_hangup d) = hangup_settle env u i"

definition end_call :: "call_env \<Rightarrow> user_id \<Rightarrow> nat \<Rightarrow> int \<Rightarrow> ('z call_db_scheme, call_view option) act" where
  "end_call env u i now =
     bindA (end_check env u i now) (\<lambda>r.
       case r of Inl v \<Rightarrow> returnA (Some v)
       | Inr p \<Rightarrow> or_go_on (end_commit env u i p now) (end_settle env u i p))"

definition fail_check :: "call_env \<Rightarrow> user_id \<Rightarrow> nat \<Rightarrow> int \<Rightarrow> ('z call_db_scheme, call_view + int) act" where
  "fail_check env u i now =
     bindA (requireCall i u) (\<lambda>c.
       if terminal (cl_status c) then returnA (Inl (view env c u)) else returnA (Inr (durationOf c now)))"

definition fail_commit ::
  "call_env \<Rightarrow> user_id \<Rightarrow> nat \<Rightarrow> end_reason \<Rightarrow> int \<Rightarrow> int \<Rightarrow> ('z call_db_scheme, call_view option) act" where
  "fail_commit env u i reason d now =
     bindA (terminate i (Ringing # hangup_from) \<lparr>ti_status = Failed, ti_endReason = reason,
              ti_endedBy = Some u, ti_durationSeconds = d\<rparr> now) (\<lambda>won.
       if won then returnA None else lost_view env u i)"

definition fail_settle :: "call_env \<Rightarrow> user_id \<Rightarrow> nat \<Rightarrow> ('z call_db_scheme, call_view option) act" where
  "fail_settle env u i = settle env i u (\<lambda>ad _. CallFailed ad)"

definition fail_call ::
  "call_env \<Rightarrow> user_id \<Rightarrow> nat \<Rightarrow> end_reason \<Rightarrow> int \<Rightarrow> ('z call_db_scheme, call_view option) act" where
  "fail_call env u i reason now =
     bindA (fail_check env u i now) (\<lambda>r.
       case r of Inl v \<Rightarrow> returnA (Some v)
       | Inr d \<Rightarrow> or_go_on (fail_commit env u i reason d now) (fail_settle env u i))"

definition renewToken :: "call_env \<Rightarrow> user_id \<Rightarrow> nat \<Rightarrow> ('z call_db_scheme, credentials) act" where
  "renewToken env u i =
     bindA (requireCall i u) (\<lambda>c.
     bindA (guardA (\<not> terminal (cl_status c)) (invalidState (cl_status c))) (\<lambda>_.
     bindA (assertRtcConfigured env) (\<lambda>_.
     credentialsFor env c u)))"

section \<open>Reads\<close>

definition active_call :: "call_env \<Rightarrow> user_id \<Rightarrow> ('z call_db_scheme, session option) act" where
  "active_call env u =
     bindA (getsA (findLiveForUser u)) (\<lambda>found.
       case found of None \<Rightarrow> returnA None | Some c \<Rightarrow> bindA (sessionFor env c u) (\<lambda>ss. returnA (Some ss)))"

definition get_call :: "call_env \<Rightarrow> user_id \<Rightarrow> nat \<Rightarrow> ('z call_db_scheme, call_view) act" where
  "get_call env u i = bindA (requireCall i u) (\<lambda>c. returnA (view env c u))"

definition normalizePagination :: "int option \<Rightarrow> int option \<Rightarrow> int \<times> int \<times> int" where
  "normalizePagination page limit =
     (let p = max 1 (case page of None \<Rightarrow> 1 | Some x \<Rightarrow> x);
          l = min 100 (max 1 (case limit of None \<Rightarrow> 20 | Some x \<Rightarrow> x))
      in (p, l, (p - 1) * l))"

record 'a paginated =
  pa_items :: "'a list"
  pa_total :: nat
  pa_page :: int
  pa_limit :: int
  pa_totalPages :: int

definition buildPaginated :: "'a list \<Rightarrow> nat \<Rightarrow> int \<Rightarrow> int \<Rightarrow> 'a paginated" where
  "buildPaginated items count page limit =
     (let n = (int count + limit - 1) div limit
      in \<lparr>pa_items = items, pa_total = count, pa_page = page, pa_limit = limit,
          pa_totalPages = (if n = 0 then 1 else n)\<rparr>)"

definition call_history ::
  "call_env \<Rightarrow> user_id \<Rightarrow> int option \<Rightarrow> int option \<Rightarrow> history_filter \<Rightarrow> string option \<Rightarrow>
   ('z call_db_scheme) \<Rightarrow> call_view paginated" where
  "call_history env u page limit flt search s =
     (case normalizePagination page limit of (p, l, skip) \<Rightarrow>
      (let term = (case search of None \<Rightarrow> [] | Some x \<Rightarrow> trim x);
           peers = (if term = [] then None else Some (ce_search env term u))
       in case page_calls u skip l flt peers s of (rows, count) \<Rightarrow>
          (let cs = cards env (concat (map (\<lambda>c. [cl_callerId c, cl_calleeId c]) rows))
           in buildPaginated (map (\<lambda>c. toView c u cs) rows) count p l)))"

definition canCall :: "call_env \<Rightarrow> user_id \<Rightarrow> user_id \<Rightarrow> int \<Rightarrow> ('z call_db_scheme, bool \<times> string option) act" where
  "canCall env u target now =
     (if u = target then returnA (False, Some ''CANNOT_CALL_SELF'')
      else
        bindA (isBlockedEitherWay (ce_privacy env) u target now) (\<lambda>blocked.
          if blocked then returnA (False, Some ''CALL_BLOCKED'')
          else bindA (privacy_check (ce_privacy env) (Some u) target CALL now) (\<lambda>allowed.
            returnA (if allowed then (True, None) else (False, Some ''CALL_NOT_ALLOWED'')))))"

section \<open>Deadlines\<close>

text \<open>What a deadline does once its update won: re-read, publish.\<close>

definition announce_expiry ::
  "call_env \<Rightarrow> nat \<Rightarrow> (addressed \<Rightarrow> call_row \<Rightarrow> call_event) \<Rightarrow> ('z call_db_scheme, unit) act" where
  "announce_expiry env i mk =
     bindA (getsA (find_call i)) (\<lambda>found.
       case found of None \<Rightarrow> returnA ()
       | Some c \<Rightarrow> publish_call env (mk \<lparr>ad_recipientIds = [cl_callerId c, cl_calleeId c],
                                   ad_views = bothViews env c, ad_callId = i\<rparr> c))"

definition expireRinging_commit :: "nat \<Rightarrow> int \<Rightarrow> ('z call_db_scheme, bool) act" where
  "expireRinging_commit i now =
     terminate i [Ringing] \<lparr>ti_status = Missed, ti_endReason = Timeout, ti_endedBy = None,
       ti_durationSeconds = 0\<rparr> now"

definition expireRinging_settle :: "call_env \<Rightarrow> nat \<Rightarrow> ('z call_db_scheme, unit) act" where
  "expireRinging_settle env i = announce_expiry env i (\<lambda>ad _. CallMissed ad)"

definition when_won :: "('s, bool) act \<Rightarrow> ('s, unit) act \<Rightarrow> ('s, unit) act" where
  "when_won m k = bindA m (\<lambda>won. if won then k else returnA ())"

definition expireRinging :: "call_env \<Rightarrow> nat \<Rightarrow> int \<Rightarrow> ('z call_db_scheme, unit) act" where
  "expireRinging env i now = when_won (expireRinging_commit i now) (expireRinging_settle env i)"

definition expireConnecting_commit :: "nat \<Rightarrow> int \<Rightarrow> ('z call_db_scheme, bool) act" where
  "expireConnecting_commit i now =
     terminate i [Accepted] \<lparr>ti_status = Failed, ti_endReason = Network, ti_endedBy = None,
       ti_durationSeconds = 0\<rparr> now"

definition expireConnecting_settle :: "call_env \<Rightarrow> nat \<Rightarrow> ('z call_db_scheme, unit) act" where
  "expireConnecting_settle env i = announce_expiry env i (\<lambda>ad _. CallFailed ad)"

definition expireConnecting :: "call_env \<Rightarrow> nat \<Rightarrow> int \<Rightarrow> ('z call_db_scheme, unit) act" where
  "expireConnecting env i now = when_won (expireConnecting_commit i now) (expireConnecting_settle env i)"

definition expireConnected_check :: "nat \<Rightarrow> int \<Rightarrow> ('z call_db_scheme, int option) act" where
  "expireConnected_check i now =
     bindA (getsA (find_call i)) (\<lambda>found.
       returnA (case found of None \<Rightarrow> None
                | Some c \<Rightarrow> if cl_status c = Connected then Some (durationOf c now) else None))"

definition expireConnected_commit :: "nat \<Rightarrow> int \<Rightarrow> int \<Rightarrow> ('z call_db_scheme, bool) act" where
  "expireConnected_commit i d now = terminate i [Connected] (hangup_input None d) now"

definition expireConnected_settle :: "call_env \<Rightarrow> nat \<Rightarrow> ('z call_db_scheme, unit) act" where
  "expireConnected_settle env i = announce_expiry env i (\<lambda>ad c. CallEnded ad None (cl_durationSeconds c))"

definition expireConnected :: "call_env \<Rightarrow> nat \<Rightarrow> int \<Rightarrow> ('z call_db_scheme, unit) act" where
  "expireConnected env i now =
     bindA (expireConnected_check i now) (\<lambda>r.
       case r of None \<Rightarrow> returnA ()
       | Some d \<Rightarrow> when_won (expireConnected_commit i d now) (expireConnected_settle env i))"

definition reap_batch :: nat where "reap_batch = 100"

definition reap :: "call_env \<Rightarrow> int \<Rightarrow> ('z call_db_scheme, nat \<times> nat \<times> nat) act" where
  "reap env now =
     bindA (getsA (findExpiredRinging now reap_batch)) (\<lambda>ringing.
     bindA (forA (\<lambda>c. expireRinging env (cl_id c) now) ringing) (\<lambda>_.
     bindA (getsA (findStuckAccepted (now - ce_connectTimeoutSeconds env * 1000) reap_batch)) (\<lambda>stuck.
     bindA (forA (\<lambda>c. expireConnecting env (cl_id c) now) stuck) (\<lambda>_.
     bindA (getsA (findOverlongConnected (now - ce_maxDurationSeconds env * 1000) reap_batch)) (\<lambda>overlong.
     bindA (forA (\<lambda>c. expireConnected env (cl_id c) now) overlong) (\<lambda>_.
     returnA (length ringing, length stuck, length overlong)))))))"

datatype job_result = Settled nat | Reaped "nat \<times> nat \<times> nat" | Skipped string

fun handle_job :: "call_env \<Rightarrow> job_name \<Rightarrow> deadline_job \<Rightarrow> int \<Rightarrow> ('z call_db_scheme, job_result) act" where
  "handle_job env RING_TIMEOUT d now =
     bindA (expireRinging env (dj_callId d) now) (\<lambda>_. returnA (Settled (dj_callId d)))"
| "handle_job env CONNECT_TIMEOUT d now =
     bindA (if dj_maxDuration d then expireConnected env (dj_callId d) now
            else expireConnecting env (dj_callId d) now) (\<lambda>_. returnA (Settled (dj_callId d)))"
| "handle_job env REAP d now = bindA (reap env now) (\<lambda>r. returnA (Reaped r))"
| "handle_job env (Unknown_job n) d now = returnA (Skipped n)"

end
