(* ===== verification/CallRace.thy ===== *)
theory CallRace
  imports Calls
begin

text \<open>
  Requests and deadlines of calls that run at the same time. A request is its phases of the theory
  Calls, one phase a step; a schedule says whose phase runs next and how many milliseconds passed. The
  reads of one check phase are one step. The sweep is a sequence of deadlines, one per row it read.
\<close>

section \<open>Requests and their phases\<close>

datatype call_action = Do_accept | Do_reject | Do_cancel | Do_connect | Do_end | Do_fail end_reason

datatype call_request =
    Place user_id initiate_input
  | Act user_id nat call_action
  | Ring_deadline nat
  | Connect_deadline nat
  | Max_deadline nat

datatype call_move =
    Move_accept | Move_reject | Move_cancel | Move_connect | Move_hangup int | Move_fail end_reason int
  | Move_missed | Move_unconnected | Move_overlong int

datatype call_reply = Session session | View "call_view option" | No_reply

datatype stage =
    Waiting
  | Placing bool
  | Placed bool call_row
  | Committing call_move
  | Settling call_move
  | Over "err + call_reply"

definition reply_or :: "('s, 'a option) act \<Rightarrow> ('a \<Rightarrow> call_reply) \<Rightarrow> stage \<Rightarrow> ('s, stage) act" where
  "reply_or m f st = bindA m (\<lambda>r. returnA (case r of Some x \<Rightarrow> Over (Inr (f x)) | None \<Rightarrow> st))"

definition and_then :: "('s, 'a) act \<Rightarrow> ('a \<Rightarrow> stage) \<Rightarrow> ('s, stage) act" where
  "and_then m f = bindA m (\<lambda>x. returnA (f x))"

fun plan_move :: "end_plan \<Rightarrow> call_move" where
  "plan_move Plan_cancel = Move_cancel"
| "plan_move Plan_reject = Move_reject"
| "plan_move (Plan_hangup d) = Move_hangup d"

abbreviation over_view :: "call_view \<Rightarrow> stage" where
  "over_view v \<equiv> Over (Inr (View (Some v)))"

fun check_action :: "call_env \<Rightarrow> user_id \<Rightarrow> nat \<Rightarrow> call_action \<Rightarrow> int \<Rightarrow> ('z call_db_scheme, stage) act" where
  "check_action env u i Do_accept now = reply_or (accept_check env u i) Session (Committing Move_accept)"
| "check_action env u i Do_reject now = and_then (reject_check u i) (\<lambda>_. Committing Move_reject)"
| "check_action env u i Do_cancel now = and_then (cancel_check u i) (\<lambda>_. Committing Move_cancel)"
| "check_action env u i Do_connect now =
     reply_or (connect_check env u i) (\<lambda>v. View (Some v)) (Committing Move_connect)"
| "check_action env u i Do_end now =
     and_then (end_check env u i now) (\<lambda>r. case r of Inl v \<Rightarrow> over_view v | Inr p \<Rightarrow> Committing (plan_move p))"
| "check_action env u i (Do_fail reason) now =
     and_then (fail_check env u i now)
       (\<lambda>r. case r of Inl v \<Rightarrow> over_view v | Inr d \<Rightarrow> Committing (Move_fail reason d))"

fun commit_move :: "call_env \<Rightarrow> user_id \<Rightarrow> nat \<Rightarrow> call_move \<Rightarrow> int \<Rightarrow> ('z call_db_scheme, stage) act" where
  "commit_move env u i Move_accept now = and_then (accept_commit u i now) (\<lambda>_. Settling Move_accept)"
| "commit_move env u i Move_reject now = and_then (reject_commit u i now) (\<lambda>_. Settling Move_reject)"
| "commit_move env u i Move_cancel now = and_then (cancel_commit u i now) (\<lambda>_. Settling Move_cancel)"
| "commit_move env u i Move_connect now =
     reply_or (connect_commit env u i now) (\<lambda>v. View (Some v)) (Settling Move_connect)"
| "commit_move env u i (Move_hangup d) now =
     reply_or (hangup_commit env u i d now) (\<lambda>v. View (Some v)) (Settling (Move_hangup d))"
| "commit_move env u i (Move_fail reason d) now =
     reply_or (fail_commit env u i reason d now) (\<lambda>v. View (Some v)) (Settling (Move_fail reason d))"
| "commit_move env u i Move_missed now =
     and_then (expireRinging_commit i now) (\<lambda>won. if won then Settling Move_missed else Over (Inr No_reply))"
| "commit_move env u i Move_unconnected now =
     and_then (expireConnecting_commit i now) (\<lambda>won. if won then Settling Move_unconnected else Over (Inr No_reply))"
| "commit_move env u i (Move_overlong d) now =
     and_then (expireConnected_commit i d now)
       (\<lambda>won. if won then Settling (Move_overlong d) else Over (Inr No_reply))"

abbreviation over_settled :: "call_view option \<Rightarrow> stage" where
  "over_settled v \<equiv> Over (Inr (View v))"

fun settle_move :: "call_env \<Rightarrow> user_id \<Rightarrow> nat \<Rightarrow> call_move \<Rightarrow> ('z call_db_scheme, stage) act" where
  "settle_move env u i Move_accept = and_then (accept_settle env u i) (\<lambda>ss. Over (Inr (Session ss)))"
| "settle_move env u i Move_reject = and_then (reject_settle env u i) over_settled"
| "settle_move env u i Move_cancel = and_then (cancel_settle env u i) over_settled"
| "settle_move env u i Move_connect = and_then (connect_settle env u i) over_settled"
| "settle_move env u i (Move_hangup d) = and_then (hangup_settle env u i) over_settled"
| "settle_move env u i (Move_fail reason d) = and_then (fail_settle env u i) over_settled"
| "settle_move env u i Move_missed = and_then (expireRinging_settle env i) (\<lambda>_. Over (Inr No_reply))"
| "settle_move env u i Move_unconnected = and_then (expireConnecting_settle env i) (\<lambda>_. Over (Inr No_reply))"
| "settle_move env u i (Move_overlong d) = and_then (expireConnected_settle env i) (\<lambda>_. Over (Inr No_reply))"

fun target_call :: "call_request \<Rightarrow> nat" where
  "target_call (Place u inp) = 0"
| "target_call (Act u i a) = i"
| "target_call (Ring_deadline i) = i"
| "target_call (Connect_deadline i) = i"
| "target_call (Max_deadline i) = i"

fun actor :: "call_request \<Rightarrow> user_id" where
  "actor (Place u inp) = u"
| "actor (Act u i a) = u"
| "actor _ = 0"

fun check_request :: "call_env \<Rightarrow> call_request \<Rightarrow> int \<Rightarrow> ('z call_db_scheme, stage) act" where
  "check_request env (Place u inp) now =
     and_then (initiate_check env u inp now)
       (\<lambda>r. case r of Inl ss \<Rightarrow> Over (Inr (Session ss)) | Inr busy \<Rightarrow> Placing busy)"
| "check_request env (Act u i a) now = check_action env u i a now"
| "check_request env (Ring_deadline i) now = returnA (Committing Move_missed)"
| "check_request env (Connect_deadline i) now = returnA (Committing Move_unconnected)"
| "check_request env (Max_deadline i) now =
     and_then (expireConnected_check i now)
       (\<lambda>r. case r of None \<Rightarrow> Over (Inr No_reply) | Some d \<Rightarrow> Committing (Move_overlong d))"

fun placing_input :: "call_request \<Rightarrow> initiate_input option" where
  "placing_input (Place u inp) = Some inp"
| "placing_input _ = None"

fun stage_act :: "call_env \<Rightarrow> call_request \<Rightarrow> stage \<Rightarrow> int \<Rightarrow> ('z call_db_scheme, stage) act" where
  "stage_act env q Waiting now = check_request env q now"
| "stage_act env q (Placing busy) now =
     (case q of Place u inp \<Rightarrow> and_then (initiate_commit env u inp busy now) (Placed busy) | _ \<Rightarrow> returnA (Placing busy))"
| "stage_act env q (Placed busy c) now =
     (case q of
        Place u inp \<Rightarrow> and_then (initiate_settle env u inp busy c now) (\<lambda>ss. Over (Inr (Session ss)))
      | _ \<Rightarrow> returnA (Placed busy c))"
| "stage_act env q (Committing m) now = commit_move env (actor q) (target_call q) m now"
| "stage_act env q (Settling m) now = settle_move env (actor q) (target_call q) m"
| "stage_act env q (Over r) now = returnA (Over r)"

definition stage_step ::
  "call_env \<Rightarrow> call_request \<Rightarrow> stage \<Rightarrow> int \<Rightarrow> ('z call_db_scheme) \<Rightarrow> stage \<times> ('z call_db_scheme)" where
  "stage_step env q st now s =
     (case stage_act env q st now s of (Inl e, s') \<Rightarrow> (Over (Inl e), s') | (Inr st', s') \<Rightarrow> (st', s'))"

section \<open>Schedules\<close>

record 's call_world =
  requests_of :: "(call_request \<times> stage) list"
  time_of :: int
  db_of :: 's

definition world_step ::
  "call_env \<Rightarrow> nat \<times> nat \<Rightarrow> ('z call_db_scheme) call_world \<Rightarrow> ('z call_db_scheme) call_world" where
  "world_step env k w =
     (let now = time_of w + int (snd k) in
      if fst k < length (requests_of w)
      then (case requests_of w ! fst k of (q, st) \<Rightarrow>
             (case stage_step env q st now (db_of w) of (st', s') \<Rightarrow>
               \<lparr>requests_of = (requests_of w)[fst k := (q, st')], time_of = now, db_of = s'\<rparr>))
      else w\<lparr>time_of := now\<rparr>)"

definition call_schedule ::
  "call_env \<Rightarrow> (nat \<times> nat) list \<Rightarrow> ('z call_db_scheme) call_world \<Rightarrow> ('z call_db_scheme) call_world" where
  "call_schedule env ks w = fold (world_step env) ks w"

definition call_start :: "call_request list \<Rightarrow> int \<Rightarrow> ('z call_db_scheme) \<Rightarrow> ('z call_db_scheme) call_world" where
  "call_start qs now s = \<lparr>requests_of = map (\<lambda>q. (q, Waiting)) qs, time_of = now, db_of = s\<rparr>"

text \<open>A request alone does what its handler does.\<close>

lemma single_step [simp]:
  "world_step env (0, d) \<lparr>requests_of = [(q, st)], time_of = t, db_of = s\<rparr> =
     (case stage_step env q st (t + int d) s of (st', s') \<Rightarrow>
        \<lparr>requests_of = [(q, st')], time_of = t + int d, db_of = s'\<rparr>)"
  by (simp add: world_step_def split: prod.split)

lemma stage_step_over [simp]: "stage_step env q (Over r) now s = (Over r, s)"
  by (simp add: stage_step_def returnA_def)

definition alone ::
  "call_env \<Rightarrow> call_request \<Rightarrow> int \<Rightarrow> ('z call_db_scheme) \<Rightarrow> ('z call_db_scheme) call_world" where
  "alone env q now s = call_schedule env [(0, 0), (0, 0), (0, 0)] (call_start [q] now s)"

definition ends_as ::
  "(err + call_reply) \<times> ('z call_db_scheme) \<Rightarrow> call_request \<Rightarrow> int \<Rightarrow> ('z call_db_scheme) call_world" where
  "ends_as h q now = \<lparr>requests_of = [(q, Over (fst h))], time_of = now, db_of = snd h\<rparr>"

lemma alone_steps:
  "alone env q now s =
     (case stage_step env q Waiting now s of (st1, s1) \<Rightarrow>
        (case stage_step env q st1 now s1 of (st2, s2) \<Rightarrow>
           (case stage_step env q st2 now s2 of (st3, s3) \<Rightarrow>
              \<lparr>requests_of = [(q, st3)], time_of = now, db_of = s3\<rparr>)))"
  by (simp add: alone_def call_schedule_def call_start_def split: prod.split)

lemmas alone_unfold = alone_steps stage_step_def ends_as_def bindA_def returnA_def reply_or_def and_then_def
  or_go_on_def

lemma accept_alone:
  "alone env (Act u i Do_accept) now s =
     ends_as (bindA (accept env u i now) (\<lambda>r. returnA (Session r)) s) (Act u i Do_accept) now"
  by (auto simp: alone_unfold accept_def split: prod.split sum.split option.split)

lemma reject_alone:
  "alone env (Act u i Do_reject) now s =
     ends_as (bindA (reject env u i now) (\<lambda>r. returnA (View r)) s) (Act u i Do_reject) now"
  by (auto simp: alone_unfold reject_def split: prod.split sum.split option.split)

lemma cancel_alone:
  "alone env (Act u i Do_cancel) now s =
     ends_as (bindA (cancel env u i now) (\<lambda>r. returnA (View r)) s) (Act u i Do_cancel) now"
  by (auto simp: alone_unfold cancel_def split: prod.split sum.split option.split)

lemma connect_alone:
  "alone env (Act u i Do_connect) now s =
     ends_as (bindA (markConnected env u i now) (\<lambda>r. returnA (View r)) s) (Act u i Do_connect) now"
  by (auto simp: alone_unfold markConnected_def split: prod.split sum.split option.split)

lemma end_alone:
  "alone env (Act u i Do_end) now s =
     ends_as (bindA (end_call env u i now) (\<lambda>r. returnA (View r)) s) (Act u i Do_end) now"
proof (cases "end_check env u i now s")
  case (Pair r s1)
  show ?thesis
  proof (cases r)
    case (Inl e)
    then show ?thesis using Pair by (simp add: alone_unfold end_call_def)
  next
    case (Inr x)
    show ?thesis
    proof (cases x)
      case (Inl v)
      then show ?thesis using Pair Inr by (simp add: alone_unfold end_call_def)
    next
      case (Inr p)
      then show ?thesis using Pair \<open>r = Inr x\<close>
        by (cases p) (auto simp: alone_unfold end_call_def split: prod.split sum.split option.split)
    qed
  qed
qed

lemma fail_alone:
  "alone env (Act u i (Do_fail reason)) now s =
     ends_as (bindA (fail_call env u i reason now) (\<lambda>r. returnA (View r)) s) (Act u i (Do_fail reason)) now"
  by (auto simp: alone_unfold fail_call_def split: prod.split sum.split option.split)

lemma place_alone:
  "alone env (Place u inp) now s =
     ends_as (bindA (initiate env u inp now) (\<lambda>r. returnA (Session r)) s) (Place u inp) now"
  by (auto simp: alone_unfold initiate_def split: prod.split sum.split option.split)

lemma ring_alone:
  "alone env (Ring_deadline i) now s =
     ends_as (bindA (expireRinging env i now) (\<lambda>_. returnA No_reply) s) (Ring_deadline i) now"
  by (auto simp: alone_unfold expireRinging_def when_won_def split: prod.split sum.split option.split)

lemma connect_deadline_alone:
  "alone env (Connect_deadline i) now s =
     ends_as (bindA (expireConnecting env i now) (\<lambda>_. returnA No_reply) s) (Connect_deadline i) now"
  by (auto simp: alone_unfold expireConnecting_def when_won_def split: prod.split sum.split option.split)

lemma max_alone:
  "alone env (Max_deadline i) now s =
     ends_as (bindA (expireConnected env i now) (\<lambda>_. returnA No_reply) s) (Max_deadline i) now"
  by (auto simp: alone_unfold expireConnected_def when_won_def split: prod.split sum.split option.split)

end
