(* ===== verification/CallLaws.thy ===== *)
theory CallLaws
  imports CallRace
begin

text \<open>
  What no interleaving of requests and deadlines can break: the rows stay consistent, a call moves
  forward only, and it is announced as over at most once. The proof is one invariant over the world of
  CallRace; a commit is the only phase that moves a row, and a settling the only one that announces.
\<close>

section \<open>Rows\<close>

definition shape :: "call_row \<Rightarrow> bool" where
  "shape c =
     (case cl_status c of
        Ringing \<Rightarrow> cl_acceptedAt c = None \<and> cl_connectedAt c = None \<and> cl_endedBy c = None
      | Accepted \<Rightarrow> cl_acceptedAt c \<noteq> None \<and> cl_connectedAt c = None \<and> cl_endedBy c = None
      | Connected \<Rightarrow> cl_acceptedAt c \<noteq> None \<and> cl_connectedAt c \<noteq> None \<and> cl_endedBy c = None
      | Ended \<Rightarrow> cl_acceptedAt c \<noteq> None \<and> cl_endReason c = Some Hangup
      | Rejected \<Rightarrow> cl_acceptedAt c = None \<and> cl_endReason c = Some Declined \<and> cl_endedBy c = Some (cl_calleeId c)
      | Cancelled \<Rightarrow>
          cl_acceptedAt c = None \<and> cl_endReason c = Some Cancelled_by_caller \<and> cl_endedBy c = Some (cl_callerId c)
      | Missed \<Rightarrow> cl_acceptedAt c = None \<and> cl_endReason c = Some Timeout \<and> cl_endedBy c = None
      | Busy \<Rightarrow> cl_acceptedAt c = None \<and> cl_endReason c = Some Callee_busy \<and> cl_endedBy c = None
      | Failed \<Rightarrow> True)"

text \<open>
  The end of a busy row is read from the service's clock before the database stamps the row, so it
  is not after the creation; every other call ends after it was created.
\<close>

definition times_ok :: "int \<Rightarrow> call_row \<Rightarrow> bool" where
  "times_ok now c \<longleftrightarrow>
     cl_createdAt c \<le> now \<and>
     (\<forall>t. cl_acceptedAt c = Some t \<longrightarrow> cl_createdAt c \<le> t \<and> t \<le> now) \<and>
     (\<forall>t. cl_connectedAt c = Some t \<longrightarrow> t \<le> now \<and> (\<exists>a. cl_acceptedAt c = Some a \<and> a \<le> t)) \<and>
     (\<forall>t. cl_endedAt c = Some t \<longrightarrow>
        (if cl_status c = Busy then t \<le> cl_createdAt c else cl_createdAt c \<le> t) \<and> t \<le> now \<and>
        (\<forall>a. cl_acceptedAt c = Some a \<longrightarrow> a \<le> t) \<and> (\<forall>k. cl_connectedAt c = Some k \<longrightarrow> k \<le> t))"

definition duration_ok :: "call_row \<Rightarrow> bool" where
  "duration_ok c \<longleftrightarrow> 0 \<le> cl_durationSeconds c \<and>
     (case cl_endedAt c of None \<Rightarrow> cl_durationSeconds c = 0 | Some t \<Rightarrow> cl_durationSeconds c \<le> durationOf c t)"

definition row_ok :: "int \<Rightarrow> call_row \<Rightarrow> bool" where
  "row_ok now c \<longleftrightarrow> cl_callerId c \<noteq> cl_calleeId c \<and> shape c \<and> times_ok now c \<and> duration_ok c \<and>
     (cl_endedAt c \<noteq> None \<longleftrightarrow> terminal (cl_status c)) \<and> (cl_endReason c \<noteq> None \<longleftrightarrow> terminal (cl_status c))"

lemma durationOf_mono: "s \<le> t \<Longrightarrow> durationOf c s \<le> durationOf c t"
  by (auto simp: durationOf_def intro!: max.mono zdiv_mono1 split: option.split)

lemma durationOf_None [simp]: "cl_connectedAt c = None \<Longrightarrow> durationOf c t = 0"
  by (simp add: durationOf_def)

lemma durationOf_nonneg [simp]: "0 \<le> durationOf c t"
  by (auto simp: durationOf_def split: option.split)

lemma durationOf_cong: "cl_connectedAt c = cl_connectedAt c' \<Longrightarrow> durationOf c t = durationOf c' t"
  by (simp add: durationOf_def)

lemma row_ok_later: "row_ok now c \<Longrightarrow> now \<le> now' \<Longrightarrow> row_ok now' c"
  by (fastforce simp: row_ok_def times_ok_def)

lemma row_ok_conversation [simp]: "row_ok now (c\<lparr>cl_conversationId := v\<rparr>) = row_ok now c"
  by (simp add: row_ok_def times_ok_def duration_ok_def shape_def durationOf_def cong: option.case_cong call_status.case_cong)

fun leads_to :: "call_status \<Rightarrow> call_status \<Rightarrow> bool" where
  "leads_to Ringing st = (st \<noteq> Busy)"
| "leads_to Accepted st = (st \<in> {Accepted, Connected, Ended, Failed})"
| "leads_to Connected st = (st \<in> {Connected, Ended, Failed})"
| "leads_to st st' = (st' = st)"

lemma leads_to_refl [simp]: "leads_to st st"
  by (cases st) auto

lemma leads_to_trans: "leads_to a b \<Longrightarrow> leads_to b c \<Longrightarrow> leads_to a c"
  by (cases a; cases b) auto

definition same_call :: "call_row \<Rightarrow> call_row \<Rightarrow> bool" where
  "same_call c c' \<longleftrightarrow> cl_id c' = cl_id c \<and> cl_callerId c' = cl_callerId c \<and> cl_calleeId c' = cl_calleeId c \<and>
     cl_type c' = cl_type c \<and> cl_zegoRoomId c' = cl_zegoRoomId c \<and> cl_clientId c' = cl_clientId c \<and>
     cl_ringingExpiresAt c' = cl_ringingExpiresAt c \<and> cl_createdAt c' = cl_createdAt c"

text \<open>Only the chat thread of a settled call may still be filled in.\<close>

definition frozen :: "call_row \<Rightarrow> call_row \<Rightarrow> bool" where
  "frozen c c' \<longleftrightarrow> c'\<lparr>cl_conversationId := None\<rparr> = c\<lparr>cl_conversationId := None\<rparr>"

lemma frozen_status: "frozen c c' \<Longrightarrow> cl_status c' = cl_status c"
  unfolding frozen_def by (drule arg_cong [of _ _ cl_status]) simp

definition evolves :: "call_row \<Rightarrow> call_row \<Rightarrow> bool" where
  "evolves c c' \<longleftrightarrow> same_call c c' \<and> leads_to (cl_status c) (cl_status c') \<and>
     (cl_acceptedAt c \<noteq> None \<longrightarrow> cl_acceptedAt c' = cl_acceptedAt c) \<and>
     (cl_connectedAt c \<noteq> None \<longrightarrow> cl_connectedAt c' = cl_connectedAt c) \<and>
     (terminal (cl_status c) \<longrightarrow> frozen c c')"

lemma evolves_refl [simp]: "evolves c c"
  by (simp add: evolves_def same_call_def frozen_def)

lemma frozen_trans: "frozen a b \<Longrightarrow> frozen b c \<Longrightarrow> frozen a c"
  by (simp add: frozen_def)

lemma evolves_trans:
  assumes "evolves a b" "evolves b c"
  shows "evolves a c"
  unfolding evolves_def
proof (intro conjI impI)
  show "same_call a c" using assms by (simp add: evolves_def same_call_def)
  show "leads_to (cl_status a) (cl_status c)" using assms leads_to_trans unfolding evolves_def by blast
  show "cl_acceptedAt c = cl_acceptedAt a" if "cl_acceptedAt a \<noteq> None" using assms that unfolding evolves_def by metis
  show "cl_connectedAt c = cl_connectedAt a" if "cl_connectedAt a \<noteq> None" using assms that unfolding evolves_def by metis
  show "frozen a c" if "terminal (cl_status a)"
    using assms that frozen_trans frozen_status unfolding evolves_def by metis
qed

lemma evolves_conversation [simp]: "evolves c (c\<lparr>cl_conversationId := v\<rparr>)"
  by (simp add: evolves_def same_call_def frozen_def)

lemma evolves_terminal: "evolves c c' \<Longrightarrow> terminal (cl_status c) \<Longrightarrow> cl_status c' = cl_status c"
  by (simp add: evolves_def frozen_status)

text \<open>The rows of the table, each with what it became, before the rows that were added.\<close>

definition rows_evolve :: "call_row list \<Rightarrow> call_row list \<Rightarrow> bool" where
  "rows_evolve cs cs' \<longleftrightarrow> length cs \<le> length cs' \<and> (\<forall>k < length cs. evolves (cs ! k) (cs' ! k))"

definition evo :: "('z call_db_scheme) \<Rightarrow> ('z call_db_scheme) \<Rightarrow> bool" where
  "evo s s' \<longleftrightarrow> rows_evolve (calls s) (calls s') \<and> call_seq s \<le> call_seq s' \<and>
     (\<forall>k. length (calls s) \<le> k \<longrightarrow> k < length (calls s') \<longrightarrow> call_seq s \<le> cl_id (calls s' ! k))"

lemma evolves_id: "evolves c c' \<Longrightarrow> cl_id c' = cl_id c"
  by (simp add: evolves_def same_call_def frozen_def)

lemma evo_refl: "evo s s"
  by (simp add: evo_def rows_evolve_def)

lemma evo_trans:
  fixes s t u :: "'z call_db_scheme"
  assumes "evo s t" "evo t u"
  shows "evo s u"
  unfolding evo_def
proof (intro conjI allI impI)
  show "rows_evolve (calls s) (calls u)" unfolding rows_evolve_def
  proof (intro conjI allI impI)
    show "length (calls s) \<le> length (calls u)" using assms by (simp add: evo_def rows_evolve_def)
    fix k assume k: "k < length (calls s)"
    then have "evolves (calls s ! k) (calls t ! k)" "evolves (calls t ! k) (calls u ! k)"
      using assms by (auto simp: evo_def rows_evolve_def)
    then show "evolves (calls s ! k) (calls u ! k)" by (rule evolves_trans)
  qed
  show "call_seq s \<le> call_seq u" using assms by (simp add: evo_def)
  fix k assume k: "length (calls s) \<le> k" "k < length (calls u)"
  show "call_seq s \<le> cl_id (calls u ! k)"
  proof (cases "k < length (calls t)")
    case True
    then have "evolves (calls t ! k) (calls u ! k)" "call_seq s \<le> cl_id (calls t ! k)"
      using assms k by (auto simp: evo_def rows_evolve_def)
    then show ?thesis by (simp add: evolves_id)
  next
    case False
    then have "call_seq t \<le> cl_id (calls u ! k)" "call_seq s \<le> call_seq t" using assms k by (auto simp: evo_def)
    then show ?thesis by simp
  qed
qed

section \<open>Frames\<close>

text \<open>A check leaves the rows and the bus; what listeners do leaves all but the chat thread of a row.\<close>

definition quiet :: "('z call_db_scheme) \<Rightarrow> ('z call_db_scheme) \<Rightarrow> bool" where
  "quiet s s' \<longleftrightarrow> calls s' = calls s \<and> call_seq s' = call_seq s \<and> call_bus s' = call_bus s"

definition heard :: "('z call_db_scheme) \<Rightarrow> ('z call_db_scheme) \<Rightarrow> bool" where
  "heard s s' \<longleftrightarrow>
     map (\<lambda>c. c\<lparr>cl_conversationId := None\<rparr>) (calls s') = map (\<lambda>c. c\<lparr>cl_conversationId := None\<rparr>) (calls s) \<and>
     call_seq s' = call_seq s \<and> call_bus s' = call_bus s"

interpretation quiet: step_order quiet
  by unfold_locales (auto simp: quiet_def)

interpretation heard: step_order heard
  by unfold_locales (auto simp: heard_def)

lemma quiet_modify [intro]:
  "quiet.ok (block_fill env u now ids)" "quiet.ok (ensureSettings v)" "quiet.ok (increment u ttl now)"
  by (auto simp: quiet.ok_def quiet_def block_fill_def ensureSettings_def increment_def act_defs Let_def split: option.split)

lemma quiet_settings [intro]: "quiet.ok (getSettings env u now)"
  unfolding getSettings_def
  by (intro quiet.ok_bind quiet.ok_option quiet.ok_pure quiet_modify quiet.ok_modify) (simp add: quiet_def)

lemma quiet_blocked [intro]: "quiet.ok (isBlockedEitherWay env a b now)"
  unfolding isBlockedEitherWay_def blockedIdsFor_def
  by (intro quiet.ok_bind quiet.ok_option quiet.ok_pure quiet_modify)

lemma quiet_privacy [intro]: "quiet.ok (privacy_check env v t a now)"
  unfolding privacy_check_def
  by (intro quiet.ok_bind quiet.ok_if quiet.ok_option quiet.ok_pure quiet_settings quiet_blocked)

lemma quiet_require [intro]: "quiet.ok (requireCall i u)"
  unfolding requireCall_def by (intro quiet.ok_bind quiet.ok_option quiet.ok_pure)

lemma quiet_guards [intro]:
  "quiet.ok (assertCaller c u)" "quiet.ok (assertCallee c u)" "quiet.ok (assertStatus c l)"
  "quiet.ok (assertRtcConfigured env)"
  by (simp_all add: assertCaller_def assertCallee_def assertStatus_def assertRtcConfigured_def quiet.ok_pure)

lemma quiet_credentials [intro]: "quiet.ok (credentialsFor env c u)"
  by (auto simp: credentialsFor_def quiet.ok_def quiet_def act_defs Let_def split: sum.split prod.split)

lemma quiet_session [intro]: "quiet.ok (sessionFor env c u)"
  unfolding sessionFor_def by (intro quiet.ok_if quiet.ok_bind quiet.ok_pure quiet_credentials)

lemma quiet_limits [intro]: "quiet.ok (assertNotRateLimited env u now)" "quiet.ok (assertMayCall env u v now)"
  unfolding assertNotRateLimited_def assertMayCall_def
  by (intro quiet.ok_bind quiet.ok_pure quiet_modify quiet_blocked quiet_privacy)+

lemma quiet_initiate [intro]: "quiet.ok (initiate_check env u inp now)"
  unfolding initiate_check_def
  by (intro quiet.ok_bind quiet.ok_option quiet.ok_pure quiet_guards quiet_session quiet_limits)

lemma quiet_checks [intro]:
  "quiet.ok (accept_check env u i)" "quiet.ok (reject_check u i)" "quiet.ok (cancel_check u i)"
  "quiet.ok (connect_check env u i)" "quiet.ok (fail_check env u i now)" "quiet.ok (expireConnected_check i now)"
  unfolding accept_check_def reject_check_def cancel_check_def connect_check_def fail_check_def
    expireConnected_check_def
  by (intro quiet.ok_bind quiet.ok_if quiet.ok_pure quiet_require quiet_guards quiet_session)+

lemma quiet_end [intro]: "quiet.ok (end_check env u i now)"
  unfolding end_check_def by (intro quiet.ok_bind quiet.ok_if quiet.ok_pure quiet_require quiet_checks)

lemma quiet_lost [intro]: "quiet.ok (lost u i)" "quiet.ok (lost_view env u i)"
  unfolding lost_def lost_view_def by (intro quiet.ok_bind quiet.ok_pure quiet_require)+

lemma quiet_queue [intro]: "quiet.ok (ask_queue qs)"
  by (simp add: quiet.ok_def quiet_def ask_queue_def act_defs)

lemma heard_listeners:
  "heard.ok (forA (notify env) ns)" "heard.ok (setConversation i conv)"
proof -
  have "heard.ok (notify env n)" for n
    by (auto simp: heard.ok_def heard_def notify_def split: option.split)
  then show "heard.ok (forA (notify env) ns)" by (rule heard.ok_for)
  show "heard.ok (setConversation i conv)"
    by (auto simp: heard.ok_def heard_def setConversation_def comp_def intro!: map_cong)
qed

lemma heard_write: "heard.ok (write_log env v)"
proof -
  have m: "heard.ok (case x of None \<Rightarrow> modifyA (\<lambda>s. s\<lparr>chat_logs := chat_logs s @ [l]\<rparr>) | Some e \<Rightarrow> throwA e)" for x l
    by (cases x) (auto simp: heard.ok_def heard_def act_defs)
  show ?thesis unfolding write_log_def
    by (auto intro!: heard.ok_let heard.ok_bind m heard_listeners split: sum.split option.split)
qed

lemma heard_log: "heard.ok (log_call env vs)"
  unfolding log_call_def
  by (auto intro!: heard.ok_catch heard.ok_pure heard_write split: list.split)

definition speaks :: "call_event \<Rightarrow> ('z call_db_scheme) \<Rightarrow> ('z call_db_scheme) \<Rightarrow> bool" where
  "speaks e s s' \<longleftrightarrow> heard (s\<lparr>call_bus := call_bus s @ [e]\<rparr>) s'"

lemma publish_run:
  assumes "publish_call env e s = (r, s')"
  shows "speaks e s s'"
proof -
  let ?m = "bindA (if ce_writeChatLog env \<and> logged e then log_call env (ad_views (payload e)) else returnA ())
     (\<lambda>_. forA (notify env) (notices env e))"
  let ?s = "s\<lparr>call_bus := call_bus s @ [e], call_sockets := call_sockets s @ deliveries e\<rparr>"
  have "heard.ok ?m" by (intro heard.ok_bind heard.ok_if heard.ok_pure heard_log heard_listeners)
  moreover have "?m ?s = (r, s')" using assms unfolding publish_call_def by (simp add: modifyA_def bindA_def)
  ultimately have "heard ?s s'" by (rule heard.okD)
  then show ?thesis by (simp add: speaks_def heard_def)
qed

section \<open>What a phase does\<close>

definition call_key :: "call_row \<Rightarrow> user_id \<times> string" where
  "call_key c = (cl_callerId c, cl_clientId c)"

definition calls_ok :: "int \<Rightarrow> ('z call_db_scheme) \<Rightarrow> bool" where
  "calls_ok now s \<longleftrightarrow> distinct (map cl_id (calls s)) \<and> distinct (map call_key (calls s)) \<and>
     (\<forall>c \<in> set (calls s). cl_id c < call_seq s \<and> row_ok now c)"

definition ended :: "nat \<Rightarrow> ('z call_db_scheme) \<Rightarrow> bool" where
  "ended i s \<longleftrightarrow> (\<exists>c \<in> set (calls s). cl_id c = i \<and> terminal (cl_status c))"

fun final_event :: "call_event \<Rightarrow> bool" where
  "final_event (CallInitiated ad u v) = False"
| "final_event (CallAccepted ad u) = False"
| "final_event (CallConnected ad) = False"
| "final_event e = True"

definition finals :: "nat \<Rightarrow> ('z call_db_scheme) \<Rightarrow> nat" where
  "finals i s = length (filter (\<lambda>e. final_event e \<and> ad_callId (payload e) = i) (call_bus s))"

lemma calls_ok_later: "calls_ok now s \<Longrightarrow> now \<le> now' \<Longrightarrow> calls_ok now' s"
  by (auto simp: calls_ok_def intro: row_ok_later)

lemma quiet_facts:
  assumes "quiet s s'"
  shows "calls_ok now s' = calls_ok now s" "evo s s'" "ended j s' = ended j s" "finals j s' = finals j s"
  using assms by (simp_all add: quiet_def calls_ok_def evo_def rows_evolve_def ended_def finals_def)

lemma frozen_evolves: "frozen c c' \<Longrightarrow> evolves c c'"
  by (cases c; cases c') (auto simp: frozen_def evolves_def same_call_def)

lemma frozen_row_ok: "frozen c c' \<Longrightarrow> row_ok now c' = row_ok now c"
  unfolding frozen_def by (metis row_ok_conversation)

lemma heard_frozen:
  assumes "heard s s'"
  shows "length (calls s') = length (calls s)" "k < length (calls s) \<Longrightarrow> frozen (calls s ! k) (calls s' ! k)"
proof -
  show l: "length (calls s') = length (calls s)" using assms by (auto simp: heard_def dest: map_eq_imp_length_eq)
  show "frozen (calls s ! k) (calls s' ! k)" if "k < length (calls s)"
    using assms that l unfolding heard_def frozen_def by (metis nth_map)
qed

lemma map_heard:
  assumes "heard s s'" "\<And>c v. f (c\<lparr>cl_conversationId := v\<rparr>) = f c"
  shows "map f (calls s') = map f (calls s)"
proof -
  have "map f (map (\<lambda>c. c\<lparr>cl_conversationId := None\<rparr>) cs) = map f cs" for cs by (simp add: assms(2) comp_def)
  then show ?thesis using assms(1) unfolding heard_def by metis
qed

lemma ball_heard:
  assumes "heard s s'" "\<And>c v. P (c\<lparr>cl_conversationId := v\<rparr>) = P c"
  shows "(\<forall>c \<in> set (calls s'). P c) = (\<forall>c \<in> set (calls s). P c)"
proof -
  have "map P (calls s') = map P (calls s)" by (rule map_heard [OF assms])
  then have "set (map P (calls s')) = set (map P (calls s))" by (rule arg_cong)
  then show ?thesis by (metis (mono_tags, lifting) image_iff list.set_map)
qed

lemma heard_facts:
  assumes "heard s s'"
  shows "calls_ok now s' = calls_ok now s" "evo s s'" "ended j s' = ended j s" "call_seq s' = call_seq s"
    "call_bus s' = call_bus s"
proof -
  have m: "map cl_id (calls s') = map cl_id (calls s)" "map call_key (calls s') = map call_key (calls s)"
    by (rule map_heard [OF assms], simp add: call_key_def)+
  have b: "(\<forall>c \<in> set (calls s'). cl_id c < call_seq s \<and> row_ok now c) =
      (\<forall>c \<in> set (calls s). cl_id c < call_seq s \<and> row_ok now c)"
    by (rule ball_heard [OF assms]) simp
  have e: "(\<forall>c \<in> set (calls s'). \<not> (cl_id c = j \<and> terminal (cl_status c))) =
      (\<forall>c \<in> set (calls s). \<not> (cl_id c = j \<and> terminal (cl_status c)))"
    by (rule ball_heard [OF assms]) simp
  show q: "call_seq s' = call_seq s" "call_bus s' = call_bus s" using assms by (simp_all add: heard_def)
  show "calls_ok now s' = calls_ok now s" using m b q by (simp add: calls_ok_def)
  show "ended j s' = ended j s" using e unfolding ended_def by blast
  show "evo s s'" using heard_frozen [OF assms] q
    by (auto simp: evo_def rows_evolve_def intro: frozen_evolves)
qed

text \<open>\<open>said i b\<close>: at most one event was published, about call \<open>i\<close>, final exactly when \<open>b\<close>.\<close>

definition said :: "nat \<Rightarrow> bool \<Rightarrow> ('z call_db_scheme) \<Rightarrow> ('z call_db_scheme) \<Rightarrow> bool" where
  "said i b s s' \<longleftrightarrow> heard s (s'\<lparr>call_bus := call_bus s\<rparr>) \<and>
     (call_bus s' = call_bus s \<or>
      (\<exists>e. call_bus s' = call_bus s @ [e] \<and> ad_callId (payload e) = i \<and> final_event e = b))"

definition says :: "nat \<Rightarrow> bool \<Rightarrow> ('z call_db_scheme, 'a) act \<Rightarrow> bool" where
  "says i b m \<longleftrightarrow> (\<forall>s. said i b s (snd (m s)))"

lemma saysD: "says i b m \<Longrightarrow> m s = (r, s') \<Longrightarrow> said i b s s'"
  by (metis says_def snd_conv)

lemma saysI: "(\<And>s r s'. m s = (r, s') \<Longrightarrow> said i b s s') \<Longrightarrow> says i b m"
  by (metis says_def prod.collapse)

lemma said_facts:
  assumes "said i b s s'"
  shows "calls_ok now s' = calls_ok now s" "evo s s'" "ended j s' = ended j s"
    "finals j s' \<le> finals j s + (if b \<and> i = j then 1 else 0)"
proof -
  have h: "heard s (s'\<lparr>call_bus := call_bus s\<rparr>)" using assms by (simp add: said_def)
  show "calls_ok now s' = calls_ok now s" "ended j s' = ended j s"
    using heard_facts(1) [OF h, of now] heard_facts(3) [OF h, of j] by (auto simp: calls_ok_def ended_def)
  show "evo s s'" using heard_facts(2) [OF h] by (simp add: evo_def)
  show "finals j s' \<le> finals j s + (if b \<and> i = j then 1 else 0)" using assms by (auto simp: said_def finals_def)
qed

lemma says_quiet: "quiet.ok m \<Longrightarrow> says i b m"
  by (rule saysI) (auto simp: said_def heard_def dest!: quiet.okD simp: quiet_def)

lemma says_bind:
  assumes "quiet.ok m" "\<And>a. says i b (k a)"
  shows "says i b (bindA m k)"
proof (rule saysI)
  fix s r s' assume run: "bindA m k s = (r, s')"
  obtain x s1 where ms: "m s = (x, s1)" by fastforce
  have q: "quiet s s1" using assms(1) ms by (rule quiet.okD)
  show "said i b s s'"
  proof (cases x)
    case (Inl e)
    then show ?thesis using run ms q by (simp add: bindA_def said_def heard_def quiet_def)
  next
    case (Inr a)
    then have "k a s1 = (r, s')" using run ms by (simp add: bindA_def)
    then have "said i b s1 s'" using assms(2) saysD by blast
    then show ?thesis using q by (simp add: said_def heard_def quiet_def)
  qed
qed

lemma says_publish:
  assumes "ad_callId (payload e) = i" "final_event e = b" "\<And>a. quiet.ok (k a)"
  shows "says i b (bindA (publish_call env e) k)"
proof (rule saysI)
  fix s r s' assume run: "bindA (publish_call env e) k s = (r, s')"
  obtain x s1 where ps: "publish_call env e s = (x, s1)" by fastforce
  have sp: "speaks e s s1" using ps by (rule publish_run)
  have "quiet s1 s'"
  proof (cases x)
    case (Inl e')
    then show ?thesis using run ps quiet.refl_step by (auto simp: bindA_def)
  next
    case (Inr a)
    then have "k a s1 = (r, s')" using run ps by (simp add: bindA_def)
    then show ?thesis using assms(3) quiet.okD by blast
  qed
  then show "said i b s s'" using sp assms(1,2) by (auto simp: said_def heard_def speaks_def quiet_def)
qed

lemma says_publish_last:
  assumes "ad_callId (payload e) = i" "final_event e = b"
  shows "says i b (publish_call env e)"
proof (rule saysI)
  fix s r s' assume "publish_call env e s = (r, s')"
  then have "speaks e s s'" by (rule publish_run)
  then show "said i b s s'" using assms by (auto simp: said_def heard_def speaks_def)
qed

lemma says_settle:
  assumes "\<And>ad c. payload (mk ad c) = ad" "\<And>ad c. final_event (mk ad c)"
  shows "says i True (settle env i u mk)"
  unfolding settle_def disarm_def
  by (rule says_bind [OF quiet_require], rule says_publish)
     (auto simp: assms intro!: quiet.ok_bind quiet_queue quiet.ok_pure)

lemma says_expiry:
  assumes "\<And>ad c. payload (mk ad c) = ad" "\<And>ad c. final_event (mk ad c)"
  shows "says i True (announce_expiry env i mk)"
proof -
  have "says i True (case x of None \<Rightarrow> returnA ()
      | Some c \<Rightarrow> publish_call env (mk \<lparr>ad_recipientIds = [cl_callerId c, cl_calleeId c],
                                     ad_views = bothViews env c, ad_callId = i\<rparr> c))" for x
  proof (cases x)
    case None
    then show ?thesis by (simp add: says_quiet quiet.ok_pure)
  next
    case (Some c)
    then show ?thesis by (simp add: says_publish_last assms)
  qed
  then show ?thesis unfolding announce_expiry_def by (rule says_bind [OF quiet.ok_pure(4)])
qed

lemma says_connect: "says i False (accept_settle env u i)" "says i False (connect_settle env u i)"
  unfolding accept_settle_def connect_settle_def armConnectTimeout_def armMaxDuration_def
  by (rule says_bind [OF quiet_require], rule says_bind [OF quiet_queue], rule says_publish;
      auto intro!: quiet.ok_bind quiet_credentials quiet.ok_pure)+

lemma says_initiate: "says (cl_id c) busy (initiate_settle env u inp busy c now)"
proof (cases busy)
  case True
  then show ?thesis unfolding initiate_settle_def if_P [OF True]
    by (intro says_publish quiet.ok_pure) simp_all
next
  case False
  then show ?thesis unfolding initiate_settle_def if_not_P [OF False] armRingTimeout_def
    by (intro says_bind [OF quiet_queue] says_publish quiet.ok_bind quiet_credentials quiet.ok_pure) simp_all
qed

end
