(* ===== verification/CallOutcome.thy ===== *)
theory CallOutcome
  imports CallLaws
begin

text \<open>
  The commits of a call and the invariant of every schedule: a winning update moves one consistent row
  to a consistent one, and the requests that won a final update but have not announced it yet make up,
  with the final events on the bus, at most one per settled call.
\<close>

section \<open>Conditional updates\<close>

lemma transition_step:
  assumes ok: "calls_ok now s" and run: "transition i src f s = (Inr won, s')"
    and f: "\<And>c. c \<in> set (calls s) \<Longrightarrow> row_ok now c \<Longrightarrow> matches i src c \<Longrightarrow> row_ok now (f c) \<and> evolves c (f c)"
  shows "calls_ok now s'" "evo s s'" "finals j s' = finals j s" "\<not> won \<Longrightarrow> s' = s"
proof -
  define g where "g c = (if matches i src c then f c else c)" for c
  have s': "s' = s\<lparr>calls := map g (calls s)\<rparr>" and won: "won = (\<exists>c \<in> set (calls s). matches i src c)"
    using run by (auto simp: transition_def g_def [abs_def])
  have row: "row_ok now c" if "c \<in> set (calls s)" for c using ok that by (simp add: calls_ok_def)
  have g: "row_ok now (g c)" "evolves c (g c)" if "c \<in> set (calls s)" for c
    using f [OF that row [OF that]] row [OF that] by (simp_all add: g_def)
  then have id: "cl_id (g c) = cl_id c" "call_key (g c) = call_key c" if "c \<in> set (calls s)" for c
    using that by (auto simp: evolves_def same_call_def call_key_def)
  have m: "map cl_id (map g (calls s)) = map cl_id (calls s)" "map call_key (map g (calls s)) = map call_key (calls s)"
    using id by simp_all
  have "distinct (map cl_id (map g (calls s)))" "distinct (map call_key (map g (calls s)))"
    unfolding m using ok by (simp_all add: calls_ok_def)
  then show "calls_ok now s'" using ok g(1) id(1) by (simp add: calls_ok_def s')
  show "evo s s'" using g(2) by (auto simp: evo_def rows_evolve_def s')
  show "finals j s' = finals j s" by (simp add: finals_def s')
  show "s' = s" if "\<not> won"
  proof -
    have "map g (calls s) = calls s" using that won by (intro map_idI) (auto simp: g_def)
    then show ?thesis by (simp add: s')
  qed
qed

lemma transition_ended:
  assumes ok: "calls_ok now s" and run: "transition i src f s = (Inr True, s')"
    and src: "\<And>st. st \<in> set src \<Longrightarrow> \<not> terminal st"
    and f: "\<And>c. cl_id (f c) = cl_id c \<and> terminal (cl_status (f c))"
  shows "ended i s'" "\<not> ended i s"
proof -
  obtain c where c: "c \<in> set (calls s)" "matches i src c" using run by (auto simp: transition_def)
  then have "f c \<in> set (calls s')" using run by (auto simp: transition_def image_iff)
  then show "ended i s'" using f [of c] c(2) by (auto simp: ended_def matches_def)
  show "\<not> ended i s"
  proof
    assume "ended i s"
    then obtain d where d: "d \<in> set (calls s)" "cl_id d = i" "terminal (cl_status d)" by (auto simp: ended_def)
    have "inj_on cl_id (set (calls s))" using ok by (simp add: calls_ok_def distinct_map)
    then have "d = c" using c d by (auto simp: matches_def dest: inj_onD)
    then show False using c(2) d(3) src by (auto simp: matches_def)
  qed
qed

lemma accept_row:
  assumes "row_ok now c" "matches i [Ringing] c"
  shows "row_ok now (c\<lparr>cl_status := Accepted, cl_acceptedAt := Some now\<rparr>) \<and>
    evolves c (c\<lparr>cl_status := Accepted, cl_acceptedAt := Some now\<rparr>)"
  using assms
  by (auto simp: matches_def row_ok_def shape_def times_ok_def duration_ok_def terminal_def evolves_def
      same_call_def)

lemma connect_row:
  assumes "row_ok now c" "matches i [Accepted] c"
  shows "row_ok now (c\<lparr>cl_status := Connected, cl_connectedAt := Some now\<rparr>) \<and>
    evolves c (c\<lparr>cl_status := Connected, cl_connectedAt := Some now\<rparr>)"
  using assms
  by (auto simp: matches_def row_ok_def shape_def times_ok_def duration_ok_def terminal_def evolves_def
      same_call_def)

lemma live_source: "set src \<subseteq> {Ringing, Accepted, Connected} \<Longrightarrow> st \<in> set src \<Longrightarrow> \<not> terminal st"
  by (auto simp: terminal_def)

lemma terminate_row:
  assumes row: "row_ok now c" and m: "matches i src c" and src: "set src \<subseteq> {Ringing, Accepted, Connected}"
    and t: "terminal (ti_status t)" "leads_to (cl_status c) (ti_status t)" "shape (terminated t now c)"
      "0 \<le> ti_durationSeconds t" "ti_durationSeconds t \<le> durationOf c now"
  shows "row_ok now (terminated t now c) \<and> evolves c (terminated t now c)"
proof -
  have live: "\<not> terminal (cl_status c)" using m live_source [OF src] by (auto simp: matches_def)
  then have "cl_endedAt c = None" using row by (simp add: row_ok_def)
  moreover have "durationOf (terminated t now c) now = durationOf c now"
    by (rule durationOf_cong) (simp add: terminated_def)
  moreover have "ti_status t \<noteq> Busy" using t(2) live by (cases "cl_status c") (auto simp: terminal_def)
  ultimately show ?thesis using row t live
    by (auto simp: row_ok_def times_ok_def duration_ok_def evolves_def same_call_def terminated_def)
qed

text \<open>What a planned termination must satisfy when it is carried out.\<close>

definition sound_end :: "nat \<Rightarrow> call_status list \<Rightarrow> terminate_input \<Rightarrow> int \<Rightarrow> ('z call_db_scheme) \<Rightarrow> bool" where
  "sound_end i src t now s \<longleftrightarrow> set src \<subseteq> {Ringing, Accepted, Connected} \<and> terminal (ti_status t) \<and>
     (\<forall>c \<in> set (calls s). matches i src c \<longrightarrow> row_ok now c \<longrightarrow> leads_to (cl_status c) (ti_status t) \<and>
        shape (terminated t now c) \<and> 0 \<le> ti_durationSeconds t \<and> ti_durationSeconds t \<le> durationOf c now)"

definition newly :: "nat \<Rightarrow> ('z call_db_scheme) \<Rightarrow> ('z call_db_scheme) \<Rightarrow> nat" where
  "newly j s s' = (if ended j s' \<and> \<not> ended j s then 1 else 0)"

lemma terminate_step:
  assumes ok: "calls_ok now s" and run: "terminate i src t now s = (Inr won, s')" and t: "sound_end i src t now s"
  shows "calls_ok now s'" "evo s s'" "finals j s' = finals j s" "\<not> won \<Longrightarrow> s' = s"
    "won \<Longrightarrow> newly i s s' = 1"
proof -
  note tr = run [unfolded terminate_def]
  have sub: "set src \<subseteq> {Ringing, Accepted, Connected}" and fin: "terminal (ti_status t)"
    using t by (simp_all add: sound_end_def)
  have f: "row_ok now (terminated t now c) \<and> evolves c (terminated t now c)"
    if "c \<in> set (calls s)" "row_ok now c" "matches i src c" for c
  proof -
    have "leads_to (cl_status c) (ti_status t)" "shape (terminated t now c)" "0 \<le> ti_durationSeconds t"
      "ti_durationSeconds t \<le> durationOf c now"
      using t that unfolding sound_end_def by blast+
    then show ?thesis by (rule terminate_row [OF that(2,3) sub fin])
  qed
  show "calls_ok now s'" by (rule transition_step(1) [OF ok tr f])
  show "evo s s'" by (rule transition_step(2) [OF ok tr f])
  show "finals j s' = finals j s" by (rule transition_step(3) [OF ok tr f])
  show "\<not> won \<Longrightarrow> s' = s" by (rule transition_step(4) [OF ok tr f])
  show "newly i s s' = 1" if "won"
    using transition_ended [OF ok tr [unfolded eqTrueI [OF that]] live_source [OF sub]] fin
    by (simp add: newly_def terminated_def)
qed

section \<open>The invariant\<close>

fun final_move :: "call_move \<Rightarrow> bool" where
  "final_move Move_accept = False"
| "final_move Move_connect = False"
| "final_move m = True"

fun pending :: "nat \<Rightarrow> call_request \<times> stage \<Rightarrow> nat" where
  "pending j (q, Settling m) = (if final_move m \<and> target_call q = j then 1 else 0)"
| "pending j (q, Placed busy c) = (if busy \<and> cl_id c = j then 1 else 0)"
| "pending j _ = 0"

definition for_target :: "call_request \<Rightarrow> ('z call_db_scheme) \<Rightarrow> (call_row \<Rightarrow> bool) \<Rightarrow> bool" where
  "for_target q s P \<longleftrightarrow> target_call q < call_seq s \<and> (\<forall>c \<in> set (calls s). cl_id c = target_call q \<longrightarrow> P c)"

fun sound_stage :: "int \<Rightarrow> ('z call_db_scheme) \<Rightarrow> call_request \<times> stage \<Rightarrow> bool" where
  "sound_stage now s (q, Committing Move_reject) = for_target q s (\<lambda>c. cl_calleeId c = actor q)"
| "sound_stage now s (q, Committing Move_cancel) = for_target q s (\<lambda>c. cl_callerId c = actor q)"
| "sound_stage now s (q, Committing (Move_hangup d)) = (0 \<le> d \<and> for_target q s (\<lambda>c. d \<le> durationOf c now))"
| "sound_stage now s (q, Committing (Move_fail r d)) = (0 \<le> d \<and> for_target q s (\<lambda>c. d \<le> durationOf c now))"
| "sound_stage now s (q, Committing (Move_overlong d)) = (0 \<le> d \<and> for_target q s (\<lambda>c. d \<le> durationOf c now))"
| "sound_stage now s (Place u inp, Placing busy) = (u \<noteq> ii_calleeId inp)"
| "sound_stage now s _ = True"

definition announced :: "('z call_db_scheme) call_world \<Rightarrow> nat \<Rightarrow> nat" where
  "announced w j = finals j (db_of w) + sum_list (map (pending j) (requests_of w))"

definition world_ok :: "('z call_db_scheme) call_world \<Rightarrow> bool" where
  "world_ok w \<longleftrightarrow> calls_ok (time_of w) (db_of w) \<and>
     (\<forall>x \<in> set (requests_of w). sound_stage (time_of w) (db_of w) x) \<and>
     (\<forall>j. announced w j \<le> (if ended j (db_of w) then 1 else 0))"

text \<open>What one phase of request \<open>q\<close> in stage \<open>st\<close> must do.\<close>

definition good :: "int \<Rightarrow> call_request \<Rightarrow> stage \<Rightarrow> ('z call_db_scheme) \<Rightarrow> stage \<Rightarrow> ('z call_db_scheme) \<Rightarrow> bool" where
  "good now q st s st' s' \<longleftrightarrow> calls_ok now s' \<and> evo s s' \<and> sound_stage now s' (q, st') \<and>
     (\<forall>j. finals j s' + pending j (q, st') \<le> finals j s + pending j (q, st) + newly j s s')"

lemma good_quiet:
  assumes "calls_ok now s" "quiet s s'" "sound_stage now s' (q, st')" "\<And>j. pending j (q, st') = 0"
  shows "good now q st s st' s'"
  using assms quiet_facts [OF assms(2)] by (simp add: good_def)

lemma good_over: "calls_ok now s \<Longrightarrow> quiet s s' \<Longrightarrow> good now q st s (Over r) s'"
  by (rule good_quiet) auto

lemma good_said:
  assumes ok: "calls_ok now s" and sd: "said i b s s'" and p: "b \<Longrightarrow> pending i (q, st) = 1"
  shows "good now q st s (Over r) s'"
proof -
  have "finals j s' \<le> finals j s + pending j (q, st)" for j
    using said_facts(4) [OF sd, of j] p by (auto split: if_splits)
  then have "finals j s' \<le> finals j s + pending j (q, st) + newly j s s'" for j by (meson le_add1 le_trans)
  then show ?thesis using ok said_facts(1,2) [OF sd] by (simp add: good_def)
qed

lemma evo_row:
  assumes "evo s s'" "c' \<in> set (calls s')" "cl_id c' < call_seq s"
  shows "\<exists>c \<in> set (calls s). evolves c c'"
proof -
  obtain k where k: "k < length (calls s')" "calls s' ! k = c'" using assms(2) by (auto simp: in_set_conv_nth)
  have "k < length (calls s)"
  proof (rule ccontr)
    assume "\<not> k < length (calls s)"
    then have "call_seq s \<le> cl_id (calls s' ! k)" using assms(1) k(1) by (simp add: evo_def)
    then show False using assms(3) k(2) by simp
  qed
  then show ?thesis using assms(1) k by (auto simp: evo_def rows_evolve_def intro: nth_mem)
qed

lemma for_target_later:
  assumes "for_target q s P" "evo s s'" "\<And>c c'. evolves c c' \<Longrightarrow> P c \<Longrightarrow> c \<in> set (calls s) \<Longrightarrow> c' \<in> set (calls s') \<Longrightarrow> P' c'"
  shows "for_target q s' P'"
  unfolding for_target_def
proof (intro conjI ballI impI)
  show "target_call q < call_seq s'" using assms(1,2) by (auto simp: for_target_def evo_def)
  fix c' assume c': "c' \<in> set (calls s')" "cl_id c' = target_call q"
  then obtain c where "c \<in> set (calls s)" "evolves c c'"
    using evo_row [OF assms(2) c'(1)] assms(1) by (auto simp: for_target_def)
  then show "P' c'" using assms(1,3) c' by (auto simp: for_target_def evolves_id)
qed

lemma duration_later:
  assumes "evolves c c'" "d \<le> durationOf c now" "now \<le> now'"
  shows "d \<le> durationOf c' now'"
proof (cases "cl_connectedAt c = None")
  case True
  then show ?thesis using assms(2) by (intro order_trans [OF _ durationOf_nonneg]) simp
next
  case False
  then have "durationOf c' now' = durationOf c now'"
    using assms(1) by (intro durationOf_cong) (auto simp: evolves_def)
  then show ?thesis using assms(2) durationOf_mono [OF assms(3), of c] by simp
qed

lemma sound_later:
  assumes "sound_stage now s x" "evo s s'" "now \<le> now'"
  shows "sound_stage now' s' x"
  using assms
  by (cases "(now, s, x)" rule: sound_stage.cases)
     (auto elim!: for_target_later intro: duration_later simp: evolves_def same_call_def)

section \<open>Commits\<close>

fun end_input :: "user_id \<Rightarrow> call_move \<Rightarrow> terminate_input" where
  "end_input u Move_reject =
     \<lparr>ti_status = Rejected, ti_endReason = Declined, ti_endedBy = Some u, ti_durationSeconds = 0\<rparr>"
| "end_input u Move_cancel =
     \<lparr>ti_status = Cancelled, ti_endReason = Cancelled_by_caller, ti_endedBy = Some u, ti_durationSeconds = 0\<rparr>"
| "end_input u (Move_fail r d) =
     \<lparr>ti_status = Failed, ti_endReason = r, ti_endedBy = Some u, ti_durationSeconds = d\<rparr>"
| "end_input u Move_missed =
     \<lparr>ti_status = Missed, ti_endReason = Timeout, ti_endedBy = None, ti_durationSeconds = 0\<rparr>"
| "end_input u Move_unconnected =
     \<lparr>ti_status = Failed, ti_endReason = Network, ti_endedBy = None, ti_durationSeconds = 0\<rparr>"
| "end_input u (Move_overlong d) = hangup_input None d"
| "end_input u (Move_hangup d) = hangup_input (Some u) d"
| "end_input u m = hangup_input (Some u) 0"

fun end_sources :: "call_move \<Rightarrow> call_status list" where
  "end_sources (Move_hangup d) = hangup_from"
| "end_sources (Move_fail r d) = Ringing # hangup_from"
| "end_sources Move_unconnected = [Accepted]"
| "end_sources (Move_overlong d) = [Connected]"
| "end_sources m = [Ringing]"

fun update_of :: "nat \<Rightarrow> user_id \<Rightarrow> call_move \<Rightarrow> int \<Rightarrow> ('z call_db_scheme, bool) act" where
  "update_of i u Move_accept now = markAccepted i now"
| "update_of i u Move_connect now = repo_markConnected i now"
| "update_of i u m now = terminate i (end_sources m) (end_input u m) now"

definition stops :: "('z call_db_scheme, stage) act \<Rightarrow> bool" where
  "stops L \<longleftrightarrow> quiet.ok L \<and> (\<forall>s st s'. L s = (Inr st, s') \<longrightarrow> (\<exists>r. st = Over r))"

lemma lost_run: "\<exists>e. bindA (lost u i) k s = (Inl e, s)"
  by (auto simp: lost_def requireCall_def act_defs split: option.split)

lemma stops_lost: "stops (bindA (lost u i) k)"
  unfolding stops_def quiet.ok_def
proof (intro conjI allI impI)
  fix s
  show "quiet s (snd (bindA (lost u i) k s))" using lost_run [of u i k s] quiet.refl_step by auto
  show "\<exists>r. st = Over r" if "bindA (lost u i) k s = (Inr st, s')" for st s' using lost_run [of u i k s] that by auto
qed

lemma stops_reply: "stops (returnA (Over r))"
  by (auto simp: stops_def intro: quiet.ok_pure)

lemma returnA_if: "returnA (if b then x else y) = (if b then returnA x else returnA y)"
  by simp

lemma stops_over: "quiet.ok m \<Longrightarrow> stops (bindA m (\<lambda>x. returnA (Over (f x))))"
  by (auto simp: stops_def bindA_Inr intro!: quiet.ok_bind quiet.ok_pure)

lemma bindA_if: "bindA (if b then m else n) k = (if b then bindA m k else bindA n k)"
  by simp

lemma stops_view: "stops (bindA (lost_view env u i) (\<lambda>r. returnA (case r of Some x \<Rightarrow> Over (f x) | None \<Rightarrow> st)))"
proof -
  have "bindA (lost_view env u i) (\<lambda>r. returnA (case r of Some x \<Rightarrow> Over (f x) | None \<Rightarrow> st)) =
      bindA (requireCall i u) (\<lambda>c. returnA (Over (f (view env c u))))"
    by (simp add: lost_view_def bindA_assoc)
  then show ?thesis using stops_over [OF quiet_require] by metis
qed

lemma stops_connect: "stops (bindA (requireCall i u) (\<lambda>c. bindA
    (if cl_status c = Connected then returnA (Some (view env c u)) else throwA (invalidState (cl_status c)))
    (\<lambda>r. returnA (case r of Some x \<Rightarrow> Over (f x) | None \<Rightarrow> st))))"
  unfolding stops_def
  by (intro conjI quiet.ok_bind quiet_require quiet.ok_if quiet.ok_pure) (auto simp: bindA_Inr split: if_splits)

lemma commit_form:
  "\<exists>L :: ('z call_db_scheme, stage) act. stops L \<and> commit_move env u i m now =
     bindA (update_of i u m now) (\<lambda>won. if won then returnA (Settling m) else L)"
proof -
  have via: ?thesis if "stops L" "commit_move env u i m now =
      bindA (update_of i u m now) (\<lambda>won. if won then returnA (Settling m) else L)" for L :: "('z call_db_scheme, stage) act"
    using that by blast
  show ?thesis
  proof (cases m)
    case Move_accept
    show ?thesis by (rule via [OF stops_lost]) (simp add: Move_accept and_then_def reply_or_def bindA_assoc bindA_if accept_commit_def cong: if_cong)
  next
    case Move_reject
    show ?thesis by (rule via [OF stops_lost]) (simp add: Move_reject and_then_def reply_or_def bindA_assoc bindA_if reject_commit_def cong: if_cong)
  next
    case Move_cancel
    show ?thesis by (rule via [OF stops_lost]) (simp add: Move_cancel and_then_def reply_or_def bindA_assoc bindA_if cancel_commit_def cong: if_cong)
  next
    case Move_connect
    show ?thesis by (rule via [OF stops_connect]) (simp add: Move_connect and_then_def reply_or_def bindA_assoc bindA_if connect_commit_def cong: if_cong)
  next
    case (Move_hangup d)
    show ?thesis by (rule via [OF stops_view]) (simp add: Move_hangup and_then_def reply_or_def bindA_assoc bindA_if hangup_commit_def cong: if_cong)
  next
    case (Move_fail r d)
    show ?thesis by (rule via [OF stops_view]) (simp add: Move_fail and_then_def reply_or_def bindA_assoc bindA_if fail_commit_def cong: if_cong)
  next
    case Move_missed
    show ?thesis by (rule via [OF stops_reply]) (simp add: Move_missed and_then_def reply_or_def bindA_assoc bindA_if returnA_if expireRinging_commit_def cong: if_cong)
  next
    case Move_unconnected
    show ?thesis by (rule via [OF stops_reply]) (simp add: Move_unconnected and_then_def reply_or_def bindA_assoc bindA_if returnA_if expireConnecting_commit_def cong: if_cong)
  next
    case (Move_overlong d)
    show ?thesis by (rule via [OF stops_reply]) (simp add: Move_overlong and_then_def reply_or_def bindA_assoc bindA_if returnA_if expireConnected_commit_def cong: if_cong)
  qed
qed

lemma shape_terminated:
  assumes "row_ok now c" "matches i (end_sources m) c" "final_move m"
    "m = Move_reject \<longrightarrow> cl_calleeId c = u" "m = Move_cancel \<longrightarrow> cl_callerId c = u"
  shows "leads_to (cl_status c) (ti_status (end_input u m)) \<and> shape (terminated (end_input u m) now c)"
  using assms
  by (cases m) (auto simp: matches_def hangup_from_def hangup_input_def row_ok_def shape_def terminated_def)

lemma end_input_sel [simp]:
  "terminal (ti_status (end_input u m))"
  "set (end_sources m) \<subseteq> {Ringing, Accepted, Connected}"
  by (cases m; auto simp: terminal_def hangup_input_def hangup_from_def)+

lemma sound_commit:
  assumes "sound_stage now s (q, Committing m)" "final_move m"
  shows "sound_end (target_call q) (end_sources m) (end_input (actor q) m) now s"
  unfolding sound_end_def
proof (intro conjI ballI impI)
  show "set (end_sources m) \<subseteq> {Ringing, Accepted, Connected}" "terminal (ti_status (end_input (actor q) m))"
    by simp_all
  fix c assume c: "c \<in> set (calls s)" "matches (target_call q) (end_sources m) c" "row_ok now c"
  have "m = Move_reject \<longrightarrow> cl_calleeId c = actor q" "m = Move_cancel \<longrightarrow> cl_callerId c = actor q"
    using assms(1) c(1,2) by (auto simp: for_target_def matches_def)
  then show "leads_to (cl_status c) (ti_status (end_input (actor q) m))"
    "shape (terminated (end_input (actor q) m) now c)"
    using shape_terminated [OF c(3,2) assms(2)] by auto
  show "0 \<le> ti_durationSeconds (end_input (actor q) m)" "ti_durationSeconds (end_input (actor q) m) \<le> durationOf c now"
    using assms c by (cases m; auto simp: for_target_def matches_def hangup_input_def)+
qed

lemma update_final: "final_move m \<Longrightarrow> update_of i u m now = terminate i (end_sources m) (end_input u m) now"
  by (cases m) auto

lemma update_effect:
  assumes ok: "calls_ok now s" and run: "update_of (target_call q) (actor q) m now s = (r, s')"
    and sound: "sound_stage now s (q, Committing m)"
  shows "\<exists>won. r = Inr won \<and> calls_ok now s' \<and> evo s s' \<and> (\<forall>j. finals j s' = finals j s) \<and>
    (\<not> won \<longrightarrow> s' = s) \<and> (won \<longrightarrow> final_move m \<longrightarrow> newly (target_call q) s s' = 1)"
proof (cases "final_move m")
  case True
  have run': "terminate (target_call q) (end_sources m) (end_input (actor q) m) now s = (r, s')"
    using run update_final [OF True] by metis
  obtain won where r: "r = Inr won" using run' by (auto simp: terminate_def transition_def)
  note st = terminate_step [OF ok run' [unfolded r] sound_commit [OF sound True]]
  show ?thesis by (intro exI conjI allI impI) (rule r st | assumption)+
next
  case False
  then consider "m = Move_accept" | "m = Move_connect" by (cases m) auto
  then show ?thesis
  proof cases
    case 1
    obtain won where r: "r = Inr won"
      and tr: "transition (target_call q) [Ringing] (\<lambda>c. c\<lparr>cl_status := Accepted, cl_acceptedAt := Some now\<rparr>) s =
        (Inr won, s')" using run 1 by (auto simp: markAccepted_def transition_def)
    have f: "row_ok now (c\<lparr>cl_status := Accepted, cl_acceptedAt := Some now\<rparr>) \<and>
        evolves c (c\<lparr>cl_status := Accepted, cl_acceptedAt := Some now\<rparr>)"
      if "c \<in> set (calls s)" "row_ok now c" "matches (target_call q) [Ringing] c" for c
      using that(2,3) by (rule accept_row)
    note st = transition_step [OF ok tr f]
    show ?thesis by (intro exI conjI allI impI) (rule r st | assumption | (insert False, blast))+
  next
    case 2
    obtain won where r: "r = Inr won"
      and tr: "transition (target_call q) [Accepted] (\<lambda>c. c\<lparr>cl_status := Connected, cl_connectedAt := Some now\<rparr>) s =
        (Inr won, s')" using run 2 by (auto simp: repo_markConnected_def transition_def)
    have f: "row_ok now (c\<lparr>cl_status := Connected, cl_connectedAt := Some now\<rparr>) \<and>
        evolves c (c\<lparr>cl_status := Connected, cl_connectedAt := Some now\<rparr>)"
      if "c \<in> set (calls s)" "row_ok now c" "matches (target_call q) [Accepted] c" for c
      using that(2,3) by (rule connect_row)
    note st = transition_step [OF ok tr f]
    show ?thesis by (intro exI conjI allI impI) (rule r st | assumption | (insert False, blast))+
  qed
qed

lemma commit_good:
  fixes s s' :: "'z call_db_scheme"
  assumes ok: "calls_ok now s" and sound: "sound_stage now s (q, Committing m)"
    and run: "stage_step env q (Committing m) now s = (st', s')"
  shows "good now q (Committing m) s st' s'"
proof -
  obtain L :: "('z call_db_scheme, stage) act" where L: "stops L" and form: "commit_move env (actor q) (target_call q) m now =
      bindA (update_of (target_call q) (actor q) m now) (\<lambda>won. if won then returnA (Settling m) else L)"
    using commit_form by blast
  obtain r s1 where u: "update_of (target_call q) (actor q) m now s = (r, s1)" by fastforce
  obtain won where r: "r = Inr won" and e: "calls_ok now s1" "evo s s1" "\<forall>j. finals j s1 = finals j s"
    "\<not> won \<longrightarrow> s1 = s" "won \<longrightarrow> final_move m \<longrightarrow> newly (target_call q) s s1 = 1"
    using update_effect [OF ok u sound] by blast
  show ?thesis
  proof (cases won)
    case True
    then have "st' = Settling m" "s' = s1" using run u r by (simp_all add: stage_step_def form bindA_def returnA_def)
    then show ?thesis using e True by (auto simp: good_def)
  next
    case False
    then have L_run: "(case L s of (Inl e, s') \<Rightarrow> (Over (Inl e), s') | (Inr st', s') \<Rightarrow> (st', s')) = (st', s')"
      using run u r e(4) by (simp add: stage_step_def form bindA_def)
    obtain x s2 where x: "L s = (x, s2)" by fastforce
    have q: "quiet s s2" using L x quiet.okD unfolding stops_def by blast
    obtain y where "st' = Over y" "s' = s2" using L_run x L by (cases x) (auto simp: stops_def)
    then show ?thesis using good_over [OF ok q] by simp
  qed
qed

section \<open>Checks, settlings and placing\<close>

lemma settle_says: "says (target_call q) (final_move m) (settle_move env (actor q) (target_call q) m)"
proof -
  have t: "says i b (bindA k (\<lambda>x. returnA (f x)))" if "says i b k" for i b k f
  proof (rule saysI)
    fix s r s' assume "bindA k (\<lambda>x. returnA (f x)) s = (r, s')"
    then obtain x where "k s = (x, s')"
      by (cases "k s"; cases "fst (k s)") (auto simp: bindA_def returnA_def)
    then show "said i b s s'" using that saysD by blast
  qed
  show ?thesis
    by (cases m) (auto simp: and_then_def reject_settle_def cancel_settle_def hangup_settle_def fail_settle_def
        expireRinging_settle_def expireConnecting_settle_def expireConnected_settle_def
        intro!: t says_connect says_settle says_expiry)
qed

lemma settle_over: "settle_move env u i m s = (Inr st, s') \<Longrightarrow> \<exists>r. st = Over r"
  by (cases m) (auto simp: and_then_def bindA_Inr)

lemma settle_good:
  assumes ok: "calls_ok now s" and run: "stage_step env q (Settling m) now s = (st', s')"
  shows "good now q (Settling m) s st' s'"
proof -
  obtain x s1 where x: "settle_move env (actor q) (target_call q) m s = (x, s1)" by fastforce
  have sd: "said (target_call q) (final_move m) s s1" using settle_says x by (rule saysD)
  obtain r where st: "st' = Over r" "s' = s1"
  proof (cases x)
    case (Inl e)
    then have "st' = Over (Inl e)" "s' = s1" using run x by (simp_all add: stage_step_def)
    then show ?thesis by (rule that)
  next
    case (Inr y)
    then have "st' = y" "s' = s1" using run x by (simp_all add: stage_step_def)
    then show ?thesis using settle_over [OF x [unfolded Inr]] that by blast
  qed
  show ?thesis unfolding st by (rule good_said [OF ok sd]) simp
qed

lemma find_call_Some: "find_call i s = Some c \<Longrightarrow> c \<in> set (calls s) \<and> cl_id c = i"
  by (auto simp: find_call_def find_Some_iff)

lemma require_run:
  assumes "requireCall i u s = (Inr c, s')"
  shows "s' = s \<and> c \<in> set (calls s) \<and> cl_id c = i \<and> in_call u c"
  using assms
  by (auto simp: requireCall_def bindA_Inr find_call_def find_Some_iff in_call_def split: option.splits)

lemma only_row:
  assumes "calls_ok now s" "c \<in> set (calls s)" "cl_id c = target_call q" "P c"
  shows "for_target q s P"
proof -
  have "inj_on cl_id (set (calls s))" using assms(1) by (simp add: calls_ok_def distinct_map)
  then have same: "c' = c" if "c' \<in> set (calls s)" "cl_id c' = target_call q" for c'
    using inj_onD [OF \<open>inj_on cl_id (set (calls s))\<close>, of c' c] assms(2,3) that by simp
  have "target_call q < call_seq s" using assms(1,2) unfolding assms(3) [symmetric] by (simp add: calls_ok_def)
  then show ?thesis using same assms(4) unfolding for_target_def by blast
qed

definition checked :: "int \<Rightarrow> call_request \<Rightarrow> ('z call_db_scheme) \<Rightarrow> stage \<Rightarrow> bool" where
  "checked now q s st \<longleftrightarrow> sound_stage now s (q, st) \<and> (\<forall>j. pending j (q, st) = 0)"

lemma checked_over [simp]: "checked now q s (Over r)"
  by (simp add: checked_def)

lemma guards_Inr [simp]:
  "assertCaller c u s = (Inr x, s') \<longleftrightarrow> cl_callerId c = u \<and> s' = s"
  "assertCallee c u s = (Inr x, s') \<longleftrightarrow> cl_calleeId c = u \<and> s' = s"
  "assertStatus c l s = (Inr x, s') \<longleftrightarrow> cl_status c \<in> set l \<and> s' = s"
  by (auto simp: assertCaller_def assertCallee_def assertStatus_def)

definition fits :: "int \<Rightarrow> user_id \<Rightarrow> call_move \<Rightarrow> call_row \<Rightarrow> bool" where
  "fits now u m c \<longleftrightarrow>
     (case m of
        Move_reject \<Rightarrow> cl_calleeId c = u
      | Move_cancel \<Rightarrow> cl_callerId c = u
      | Move_hangup d \<Rightarrow> d = durationOf c now
      | Move_fail r d \<Rightarrow> d = durationOf c now
      | Move_overlong d \<Rightarrow> d = durationOf c now
      | _ \<Rightarrow> True)"

lemma checked_row:
  assumes "calls_ok now s" "c \<in> set (calls s)" "cl_id c = target_call q" "fits now (actor q) m c"
  shows "checked now q s (Committing m)"
  using assms(4) only_row [OF assms(1-3)] by (cases m) (simp_all add: checked_def fits_def)

lemma checked_action:
  assumes ok: "calls_ok now s" and run: "check_action env u i a now s = (Inr st, s')"
  shows "checked now (Act u i a) s st"
  using run
  by (cases a) (auto simp: reply_or_def and_then_def bindA_Inr accept_check_def reject_check_def cancel_check_def
        connect_check_def end_check_def fail_check_def fits_def split: if_splits option.splits dest!: require_run
        intro!: checked_row [OF ok])

lemma initiate_check_other: "initiate_check env u inp now s = (Inr x, s') \<Longrightarrow> u \<noteq> ii_calleeId inp"
  by (simp add: initiate_check_def bindA_Inr)

lemma checked_request:
  assumes ok: "calls_ok now s" and run: "check_request env q now s = (Inr st, s')"
  shows "checked now q s st"
proof (cases q)
  case (Place u inp)
  then obtain x where "initiate_check env u inp now s = (Inr x, s')"
    "st = (case x of Inl ss \<Rightarrow> Over (Inr (Session ss)) | Inr busy \<Rightarrow> Placing busy)"
    using run by (auto simp: and_then_def bindA_Inr)
  then show ?thesis using Place initiate_check_other [of env u inp now s x s']
    by (cases x) (simp_all add: checked_def)
next
  case (Act u i a)
  then show ?thesis using run checked_action [OF ok] by simp
next
  case (Max_deadline i)
  then show ?thesis using run
    by (auto simp: and_then_def bindA_Inr expireConnected_check_def fits_def
        split: option.splits if_splits dest!: find_call_Some intro!: checked_row [OF ok])
qed (use run in \<open>auto simp: checked_def\<close>)

lemma quiet_request: "quiet.ok (check_request env q now)"
proof -
  have r: "quiet.ok (bindA m (\<lambda>x. returnA (f x)))" if "quiet.ok m" for m f
    using that by (intro quiet.ok_bind quiet.ok_pure)
  have "quiet.ok (check_action env u i a now)" for u i a
    by (cases a) (auto simp: reply_or_def and_then_def intro!: r quiet_checks quiet_end)
  then show ?thesis
    by (cases q) (auto simp: and_then_def intro!: r quiet_checks quiet_initiate quiet.ok_pure)
qed

lemma check_good:
  assumes ok: "calls_ok now s" and run: "stage_step env q Waiting now s = (st', s')"
  shows "good now q Waiting s st' s'"
proof -
  obtain x s1 where x: "check_request env q now s = (x, s1)" by fastforce
  have qu: "quiet s s1" using quiet_request x by (rule quiet.okD)
  show ?thesis
  proof (cases x)
    case (Inl e)
    then have st: "st' = Over (Inl e)" "s' = s1" using run x by (simp_all add: stage_step_def)
    show ?thesis unfolding st by (rule good_over [OF ok qu])
  next
    case (Inr y)
    then have st: "st' = y" "s' = s1" using run x by (simp_all add: stage_step_def)
    have "checked now q s y" using checked_request [OF ok x [unfolded Inr]] .
    moreover have "evo s s1" using quiet_facts(2) [OF qu] .
    ultimately have "sound_stage now s1 (q, y)" "\<And>j. pending j (q, y) = 0"
      using sound_later [of now s "(q, y)" s1 now] by (auto simp: checked_def)
    then show ?thesis unfolding st by (intro good_quiet [OF ok qu])
  qed
qed

lemma fresh_row:
  assumes ok: "calls_ok now s" and run: "insert_call mk s = (Inr c, s')"
    and mk: "\<And>i. cl_id (mk i) = i \<and> row_ok now (mk i)"
  shows "calls_ok now s'" "evo s s'" "finals j s' = finals j s" "\<not> ended (cl_id c) s" "c \<in> set (calls s')"
proof -
  have c: "c = mk (call_seq s)" "findByClientId (cl_callerId c) (cl_clientId c) s = None"
    "s' = s\<lparr>calls := calls s @ [c], call_seq := Suc (call_seq s)\<rparr>"
    using run by (auto simp: insert_call_def Let_def split: if_splits)
  have id: "cl_id c = call_seq s" "row_ok now c" using mk c(1) by simp_all
  have old: "cl_id d < call_seq s \<and> row_ok now d" if "d \<in> set (calls s)" for d using ok that by (simp add: calls_ok_def)
  have key: "call_key c \<notin> call_key ` set (calls s)"
    using c(2) by (auto simp: findByClientId_def find_None_iff call_key_def)
  have ids: "cl_id c \<notin> cl_id ` set (calls s)" using old id by fastforce
  show "calls_ok now s'" using ok key ids id old by (auto simp: calls_ok_def c(3) less_Suc_eq)
  show "evo s s'" using id by (auto simp: evo_def rows_evolve_def c(3) nth_append)
  show "finals j s' = finals j s" by (simp add: finals_def c(3))
  show "\<not> ended (cl_id c) s" using ids unfolding ended_def by (metis image_eqI)
  show "c \<in> set (calls s')" by (simp add: c(3))
qed

lemma new_call_sel [simp]:
  "cl_id (new_call u inp room ex now i) = i" "cl_status (new_call u inp room ex now i) = Ringing"
  by (simp_all add: new_call_def)

lemma row_ok_new: "u \<noteq> ii_calleeId inp \<Longrightarrow> row_ok now (new_call u inp room ex now i)"
  by (simp add: new_call_def row_ok_def shape_def times_ok_def duration_ok_def terminal_def)

lemma row_ok_busy: "u \<noteq> ii_calleeId inp \<Longrightarrow> called \<le> now \<Longrightarrow>
    row_ok now ((new_call u inp room called now i)
      \<lparr>cl_status := Busy, cl_endReason := Some Callee_busy, cl_endedAt := Some called\<rparr>)"
  by (simp add: new_call_def row_ok_def shape_def times_ok_def duration_ok_def terminal_def)

definition drawn :: "('z call_db_scheme) \<Rightarrow> ('z call_db_scheme)" where
  "drawn s = s\<lparr>call_seq := Suc (call_seq s)\<rparr>"

lemma drawn_facts:
  assumes "calls_ok now s"
  shows "calls_ok now (drawn s)" "evo s (drawn s)" "finals j (drawn s) = finals j s" "ended j (drawn s) = ended j s"
  using assms
  by (auto simp: drawn_def calls_ok_def evo_def rows_evolve_def finals_def ended_def)

lemma create_call_cases:
  assumes "create_call u inp room ex now s = (Inr c, s')"
  shows "insert_call (new_call u inp room ex now) s = (Inr c, s') \<or> s' = s"
  using assms by (auto simp: create_call_def insert_call_def act_defs Let_def split: if_splits option.splits)

lemma create_call_throws: "create_call u inp room ex now s = (Inl e, s') \<Longrightarrow> s' = s"
  by (auto simp: create_call_def insert_call_def act_defs Let_def split: if_splits option.splits)

lemma commit_throws:
  "initiate_commit env u inp busy now s = (Inl e, s') \<Longrightarrow> s' = drawn s"
  by (auto simp: initiate_commit_def draw_uuid_def bindA_def drawn_def createBusy_def insert_call_def Let_def
      dest!: create_call_throws split: if_splits)

lemma place_good:
  fixes s s' :: "'z call_db_scheme"
  assumes ok: "calls_ok now s" and sound: "sound_stage now s (Place u inp, Placing busy)"
    and run: "stage_step env (Place u inp) (Placing busy) now s = (st', s')"
  shows "good now (Place u inp) (Placing busy) s st' s'"
proof -
  have other: "u \<noteq> ii_calleeId inp" using sound by simp
  obtain x s1 where x: "initiate_commit env u inp busy now s = (x, s1)" by fastforce
  note dr = drawn_facts [OF ok]
  let ?called = "now - int (ce_insertDelay env (call_seq s))"
  show ?thesis
  proof (cases x)
    case (Inl e)
    then have st: "st' = Over (Inl e)" "s' = drawn s"
      using run x commit_throws [OF x [unfolded Inl]] by (simp_all add: stage_step_def and_then_def bindA_def)
    show ?thesis unfolding st using dr by (simp add: good_def)
  next
    case (Inr c)
    then have st: "st' = Placed busy c" "s' = s1" using run x by (simp_all add: stage_step_def and_then_def bindA_def returnA_def)
    show ?thesis
    proof (cases busy)
      case True
      then have ins: "insert_call (\<lambda>i. (new_call u inp (call_seq s) ?called now i)
          \<lparr>cl_status := Busy, cl_endReason := Some Callee_busy, cl_endedAt := Some ?called\<rparr>) (drawn s) = (Inr c, s1)"
        using x Inr by (simp add: initiate_commit_def draw_uuid_def bindA_def drawn_def createBusy_def Let_def)
      have "?called \<le> now" by simp
      note fr = fresh_row [OF dr(1) ins, simplified, OF row_ok_busy [OF other this]]
      have "terminal (cl_status c)" using ins
        by (auto simp: insert_call_def Let_def terminal_def split: if_splits)
      then have e: "ended (cl_id c) s1" "\<not> ended (cl_id c) s" using fr(4,5) dr(4) by (auto simp: ended_def)
      have "pending j (Place u inp, Placed busy c) \<le> newly j s s1" for j using e by (auto simp: newly_def)
      then show ?thesis unfolding st good_def using fr(1-3) dr(3) evo_trans [OF dr(2) fr(2)] by simp
    next
      case False
      then have cr: "create_call u inp (call_seq s) (?called + ce_ringTimeoutSeconds env * 1000) now (drawn s) = (Inr c, s1)"
        using x Inr by (simp add: initiate_commit_def draw_uuid_def bindA_def drawn_def Let_def)
      from create_call_cases [OF cr] show ?thesis
      proof
        assume ins: "insert_call (new_call u inp (call_seq s) (?called + ce_ringTimeoutSeconds env * 1000) now) (drawn s)
          = (Inr c, s1)"
        note fr = fresh_row [OF dr(1) ins, simplified, OF row_ok_new [OF other]]
        show ?thesis unfolding st good_def using fr(1-3) dr(3) evo_trans [OF dr(2) fr(2)] False by simp
      next
        assume "s1 = drawn s"
        then show ?thesis unfolding st good_def using dr False by simp
      qed
    qed
  qed
qed

lemma placed_good:
  assumes ok: "calls_ok now s" and run: "stage_step env (Place u inp) (Placed busy c) now s = (st', s')"
  shows "good now (Place u inp) (Placed busy c) s st' s'"
proof -
  obtain x s1 where x: "initiate_settle env u inp busy c now s = (x, s1)" by fastforce
  have sd: "said (cl_id c) busy s s1" using says_initiate x by (rule saysD)
  have "\<exists>r. st' = Over r" "s' = s1"
    using run x by (auto simp: stage_step_def and_then_def bindA_def returnA_def split: sum.splits)
  then show ?thesis using good_said [OF ok sd] by auto
qed

lemma step_good:
  assumes ok: "calls_ok now s" and sound: "sound_stage now s (q, st)"
    and run: "stage_step env q st now s = (st', s')"
  shows "good now q st s st' s'"
proof -
  have stay: "good now q st s st s" using ok sound by (simp add: good_def evo_refl)
  show ?thesis
  proof (cases st)
    case Waiting
    then show ?thesis using check_good ok run by blast
  next
    case (Placing busy)
    then show ?thesis using place_good ok sound run stay by (cases q) (auto simp: stage_step_def returnA_def)
  next
    case (Placed busy c)
    then show ?thesis using placed_good ok run stay by (cases q) (auto simp: stage_step_def returnA_def)
  next
    case (Committing m)
    then show ?thesis using commit_good ok sound run by blast
  next
    case (Settling m)
    then show ?thesis using settle_good ok run by blast
  next
    case (Over r)
    then show ?thesis using run stay by simp
  qed
qed

section \<open>Every schedule\<close>

lemma ended_evo:
  assumes "evo s s'" "ended j s"
  shows "ended j s'"
proof -
  obtain k where k: "k < length (calls s)" "cl_id (calls s ! k) = j" "terminal (cl_status (calls s ! k))"
    using assms(2) by (auto simp: ended_def in_set_conv_nth)
  then have "evolves (calls s ! k) (calls s' ! k)" "k < length (calls s')"
    using assms(1) by (auto simp: evo_def rows_evolve_def)
  then show ?thesis using k evolves_terminal evolves_id unfolding ended_def by (metis nth_mem)
qed

lemma sum_list_update_nat:
  "k < length xs \<Longrightarrow> sum_list (map f (xs[k := y])) + f (xs ! k) = sum_list (map f xs) + (f y :: nat)"
  by (induction xs arbitrary: k) (auto split: nat.split simp: nth_Cons)

lemma world_step_ok:
  assumes w: "world_ok w"
  shows "world_ok (world_step env kd w)" "evo (db_of w) (db_of (world_step env kd w))"
proof -
  obtain k d where kd: "kd = (k, d)" by fastforce
  let ?now = "time_of w + int d"
  have ok: "calls_ok ?now (db_of w)" using w by (auto simp: world_ok_def intro: calls_ok_later)
  have sound: "sound_stage ?now (db_of w) x" if "x \<in> set (requests_of w)" for x
    using w that sound_later [OF _ evo_refl, of "time_of w" "db_of w" x ?now] by (auto simp: world_ok_def)
  have "world_ok (world_step env kd w) \<and> evo (db_of w) (db_of (world_step env kd w))"
  proof (cases "k < length (requests_of w)")
    case False
    then show ?thesis using w ok sound by (simp add: kd world_step_def world_ok_def announced_def evo_refl)
  next
    case True
    obtain q st where x: "requests_of w ! k = (q, st)" by fastforce
    obtain st' s' where run: "stage_step env q st ?now (db_of w) = (st', s')" by fastforce
    have mem: "(q, st) \<in> set (requests_of w)" using True x by (metis nth_mem)
    have g: "good ?now q st (db_of w) st' s'" by (rule step_good [OF ok sound [OF mem] run])
    have w': "world_step env kd w = \<lparr>requests_of = (requests_of w)[k := (q, st')], time_of = ?now, db_of = s'\<rparr>"
      using True x run by (simp add: kd world_step_def)
    have evo: "evo (db_of w) s'" using g by (simp add: good_def)
    have "sound_stage ?now s' y" if y: "y \<in> set ((requests_of w)[k := (q, st')])" for y
    proof -
      have "y = (q, st') \<or> y \<in> set (requests_of w)"
        using y set_update_subset_insert [of "requests_of w" k "(q, st')"] by blast
      then show ?thesis
      proof
        assume "y = (q, st')"
        then show ?thesis using g by (simp add: good_def)
      next
        assume "y \<in> set (requests_of w)"
        from sound_later [OF sound [OF this] evo order_refl] show ?thesis .
      qed
    qed
    moreover have "announced \<lparr>requests_of = (requests_of w)[k := (q, st')], time_of = ?now, db_of = s'\<rparr> j \<le>
        (if ended j s' then 1 else 0)" for j
    proof -
      have sum: "sum_list (map (pending j) ((requests_of w)[k := (q, st')])) + pending j (q, st) =
          sum_list (map (pending j) (requests_of w)) + pending j (q, st')"
        using sum_list_update_nat [OF True, of "pending j" "(q, st')"] x by simp
      have "finals j s' + pending j (q, st') \<le> finals j (db_of w) + pending j (q, st) + newly j (db_of w) s'"
        using g by (simp add: good_def)
      moreover have "announced w j \<le> (if ended j (db_of w) then 1 else 0)" using w by (simp add: world_ok_def)
      moreover have "(if ended j (db_of w) then 1 else 0) + newly j (db_of w) s' = (if ended j s' then 1 else 0)"
        using ended_evo [OF evo, of j] by (auto simp: newly_def)
      ultimately show ?thesis using sum unfolding announced_def call_world.select_convs by linarith
    qed
    ultimately show ?thesis using g by (simp add: w' world_ok_def good_def)
  qed
  then show "world_ok (world_step env kd w)" "evo (db_of w) (db_of (world_step env kd w))" by simp_all
qed

lemma schedule_ok:
  assumes "world_ok w"
  shows "world_ok (call_schedule env ks w) \<and> evo (db_of w) (db_of (call_schedule env ks w))"
  using assms
proof (induction ks arbitrary: w)
  case Nil
  then show ?case by (simp add: call_schedule_def evo_refl)
next
  case (Cons kd ks)
  note st = world_step_ok [OF Cons.prems, of env kd]
  have "world_ok (call_schedule env ks (world_step env kd w)) \<and>
      evo (db_of (world_step env kd w)) (db_of (call_schedule env ks (world_step env kd w)))"
    by (rule Cons.IH [OF st(1)])
  then show ?case using evo_trans [OF st(2)] by (simp add: call_schedule_def)
qed

text \<open>A table from which calls start: consistent rows, and no final event about a call that is not over.\<close>

definition settled_once :: "('z call_db_scheme) \<Rightarrow> bool" where
  "settled_once s \<longleftrightarrow> (\<forall>j. finals j s \<le> (if ended j s then 1 else 0))"

lemma start_ok: "calls_ok now s \<Longrightarrow> settled_once s \<Longrightarrow> world_ok (call_start qs now s)"
  by (simp add: world_ok_def call_start_def announced_def settled_once_def comp_def)

end
