(* ===== verification/CallRuns.thy ===== *)
theory CallRuns
  imports CallOutcome
begin

text \<open>
  Calls whose requests do not overlap: each handler runs to its end before the next. Then a user is in
  at most one live call, because \<open>initiate\<close> checks both users and nothing else makes a live row. The
  second part is what the deadlines and the sweep do to the statuses of the table.
\<close>

section \<open>Handlers one after the other\<close>

fun do_request :: "call_env \<Rightarrow> call_request \<Rightarrow> int \<Rightarrow> ('z call_db_scheme) \<Rightarrow> ('z call_db_scheme)" where
  "do_request env (Place u inp) now s = snd (initiate env u inp now s)"
| "do_request env (Act u i Do_accept) now s = snd (accept env u i now s)"
| "do_request env (Act u i Do_reject) now s = snd (reject env u i now s)"
| "do_request env (Act u i Do_cancel) now s = snd (cancel env u i now s)"
| "do_request env (Act u i Do_connect) now s = snd (markConnected env u i now s)"
| "do_request env (Act u i Do_end) now s = snd (end_call env u i now s)"
| "do_request env (Act u i (Do_fail r)) now s = snd (fail_call env u i r now s)"
| "do_request env (Ring_deadline i) now s = snd (expireRinging env i now s)"
| "do_request env (Connect_deadline i) now s = snd (expireConnecting env i now s)"
| "do_request env (Max_deadline i) now s = snd (expireConnected env i now s)"

fun call_run :: "call_env \<Rightarrow> (call_request \<times> nat) list \<Rightarrow> int \<Rightarrow> ('z call_db_scheme) \<Rightarrow> ('z call_db_scheme)" where
  "call_run env [] now s = s"
| "call_run env ((q, d) # qs) now s = call_run env qs (now + int d) (do_request env q (now + int d) s)"

lemma snd_bind_return: "snd (bindA m (\<lambda>x. returnA (f x)) s) = snd (m s)"
  by (auto simp: bindA_def returnA_def split: prod.split sum.split)

lemma do_request_alone: "do_request env q now s = db_of (alone env q now s)"
proof (cases q)
  case (Act u i a)
  then show ?thesis
    by (cases a) (simp_all add: accept_alone reject_alone cancel_alone connect_alone end_alone fail_alone ends_as_def
        snd_bind_return)
qed (simp_all add: place_alone ring_alone connect_deadline_alone max_alone ends_as_def snd_bind_return)

lemma do_request_ok:
  assumes "calls_ok now s" "settled_once s"
  shows "calls_ok now (do_request env q now s)" "settled_once (do_request env q now s)"
    "evo s (do_request env q now s)"
proof -
  let ?w = "alone env q now s"
  have st: "db_of (call_start [q] now s) = s" "time_of ?w = now"
    by (simp add: call_start_def) (simp add: alone_steps split: prod.split)
  have w: "world_ok ?w \<and> evo s (db_of ?w)" using schedule_ok [OF start_ok [OF assms]] st(1) unfolding alone_def by metis
  then show "calls_ok now (do_request env q now s)" "evo s (do_request env q now s)"
    using st(2) by (auto simp: world_ok_def do_request_alone)
  have "finals j (db_of ?w) \<le> (if ended j (db_of ?w) then 1 else 0)" for j
    using w unfolding world_ok_def announced_def by (metis le_add1 le_trans)
  then show "settled_once (do_request env q now s)" by (simp add: settled_once_def do_request_alone)
qed

section \<open>One live call a user\<close>

definition live_row :: "user_id \<Rightarrow> call_row \<Rightarrow> bool" where
  "live_row u c \<longleftrightarrow> live_status (cl_status c) \<and> in_call u c"

definition exclusive :: "('z call_db_scheme) \<Rightarrow> bool" where
  "exclusive s \<longleftrightarrow> (\<forall>u. length (filter (live_row u) (calls s)) \<le> 1)"

lemma live_terminal: "live_status st \<longleftrightarrow> \<not> terminal st"
  by (auto simp: live_status_def terminal_def)

lemma evolves_live: "evolves c c' \<Longrightarrow> live_row u c' \<Longrightarrow> live_row u c"
  using evolves_terminal [of c c'] by (auto simp: live_row_def live_terminal in_call_def evolves_def same_call_def)

lemma filter_evolve:
  "length cs = length cs' \<Longrightarrow> (\<And>k. k < length cs \<Longrightarrow> P (cs' ! k) \<Longrightarrow> P (cs ! k)) \<Longrightarrow>
    length (filter P cs') \<le> length (filter P cs)"
proof (induction cs arbitrary: cs')
  case (Cons c cs)
  then obtain d ds where d: "cs' = d # ds" by (cases cs') auto
  have "length (filter P ds) \<le> length (filter P cs)"
    using Cons.prems(1) Cons.prems(2) [of "Suc _"] by (intro Cons.IH) (auto simp: d)
  then show ?case using Cons.prems(2) [of 0] by (auto simp: d)
qed simp

lemma rows_evolve_live:
  assumes "rows_evolve cs cs'" "length cs' = length cs"
  shows "length (filter (live_row u) cs') \<le> length (filter (live_row u) cs)"
  using assms by (intro filter_evolve) (auto simp: rows_evolve_def intro: evolves_live)

lemma quiet_length: "quiet s s' \<Longrightarrow> length (calls s') = length (calls s)"
  by (simp add: quiet_def)

lemma said_length: "said i b s s' \<Longrightarrow> length (calls s') = length (calls s)"
  using heard_frozen(1) by (fastforce simp: said_def)

lemma commit_length:
  fixes s s' :: "'z call_db_scheme"
  assumes "commit_move env u i m now s = (r, s')"
  shows "length (calls s') = length (calls s)"
proof -
  obtain L :: "('z call_db_scheme, stage) act" where L: "stops L" and form: "commit_move env u i m now =
      bindA (update_of i u m now) (\<lambda>won. if won then returnA (Settling m) else L)"
    using commit_form by blast
  obtain won s1 where u: "update_of i u m now s = (Inr won, s1)" "length (calls s1) = length (calls s)"
    by (cases m) (auto simp: markAccepted_def repo_markConnected_def terminate_def transition_def)
  show ?thesis
  proof (cases won)
    case True
    then show ?thesis using assms u by (simp add: form bindA_def returnA_def)
  next
    case False
    then have "L s1 = (r, s')" using assms u by (simp add: form bindA_def)
    then have "quiet s1 s'" using L quiet.okD unfolding stops_def by blast
    from quiet_length [OF this] show ?thesis using u(2) by simp
  qed
qed

lemma stage_length:
  assumes "stage_step env q st now s = (st', s')" "\<And>u inp. q \<noteq> Place u inp"
  shows "length (calls s') = length (calls s)"
proof -
  obtain x s1 where x: "stage_act env q st now s = (x, s1)" by fastforce
  then have s1: "s' = s1" using assms(1) by (auto simp: stage_step_def split: sum.splits)
  show ?thesis
  proof (cases st)
    case Waiting
    then show ?thesis using quiet.okD [OF quiet_request, of env q now s x s1] x s1 by (simp add: quiet_length)
  next
    case (Placing b)
    then show ?thesis using assms(2) x s1 by (cases q) (auto simp: returnA_def)
  next
    case (Placed b c)
    then show ?thesis using assms(2) x s1 by (cases q) (auto simp: returnA_def)
  next
    case (Committing m)
    then show ?thesis using x s1 by (simp add: commit_length)
  next
    case (Settling m)
    then have "settle_move env (actor q) (target_call q) m s = (x, s1)" using x by simp
    from said_length [OF saysD [OF settle_says this]] show ?thesis using s1 by simp
  next
    case (Over r)
    then show ?thesis using x s1 by (simp add: returnA_def)
  qed
qed

lemma alone_length:
  assumes "\<And>u inp. q \<noteq> Place u inp"
  shows "length (calls (db_of (alone env q now s))) = length (calls s)"
proof -
  obtain st1 s1 where 1: "stage_step env q Waiting now s = (st1, s1)" by fastforce
  obtain st2 s2 where 2: "stage_step env q st1 now s1 = (st2, s2)" by fastforce
  obtain st3 s3 where 3: "stage_step env q st2 now s2 = (st3, s3)" by fastforce
  show ?thesis using stage_length [OF 1 assms] stage_length [OF 2 assms] stage_length [OF 3 assms]
    by (simp add: alone_steps 1 2 3)
qed

lemma no_live: "findLiveForUser u s = None \<Longrightarrow> filter (live_row u) (calls s) = []"
  by (auto simp: findLiveForUser_def live_row_def filter_empty_conv dest!: arg_cong [of "sort_key _ _" _ set]
      split: list.splits)

lemma initiate_check_free:
  assumes "initiate_check env u inp now s = (Inr (Inr busy), s')"
  shows "findLiveForUser u s' = None" "busy \<longleftrightarrow> findLiveForUser (ii_calleeId inp) s' \<noteq> None" "u \<noteq> ii_calleeId inp"
  using assms
  by (auto simp: initiate_check_def assertRtcConfigured_def bindA_Inr split: option.splits)

text \<open>What \<open>initiate\<close> does to the rows: nothing, or one new row of the two users.\<close>

lemma initiate_rows:
  fixes s :: "'z call_db_scheme"
  assumes ex: "exclusive s"
  shows "exclusive (snd (initiate env u inp now s))"
proof -
  have keep: "exclusive s'" if "rows_evolve (calls s) (calls s')" "length (calls s') = length (calls s)"
    for s' :: "'z call_db_scheme"
    using ex rows_evolve_live [OF that] unfolding exclusive_def by (meson le_trans)
  obtain x s1 where c: "initiate_check env u inp now s = (x, s1)" by fastforce
  have q: "quiet s s1" using quiet_initiate c by (rule quiet.okD)
  then have cs: "calls s1 = calls s" by (simp add: quiet_def)
  show ?thesis
  proof (cases "\<exists>busy. x = Inr (Inr busy)")
    case False
    then have "snd (initiate env u inp now s) = s1"
      using c by (auto simp: initiate_def bindA_def returnA_def split: sum.splits)
    then show ?thesis using ex cs by (simp add: exclusive_def)
  next
    case True
    then obtain busy where x: "x = Inr (Inr busy)" by blast
    note free = initiate_check_free [OF c [unfolded x]]
    obtain y s2 where i: "initiate_commit env u inp busy now s1 = (y, s2)" by fastforce
    have end_rows: "exclusive s2 \<Longrightarrow> ?thesis"
    proof -
      assume e: "exclusive s2"
      show ?thesis
      proof (cases y)
        case (Inl e)
        then show ?thesis using c x i \<open>exclusive s2\<close> by (simp add: initiate_def bindA_def)
      next
        case (Inr r)
        obtain z s3 where z: "initiate_settle env u inp busy r now s2 = (z, s3)" by fastforce
        have sd: "said (cl_id r) busy s2 s3" using says_initiate z by (rule saysD)
        have "rows_evolve (calls s2) (calls s3)" using said_facts(2) [OF sd] by (simp add: evo_def)
        from rows_evolve_live [OF this said_length [OF sd]] have "exclusive s3"
          using e unfolding exclusive_def by (meson le_trans)
        then show ?thesis using c x i Inr z by (simp add: initiate_def bindA_def)
      qed
    qed
    have new: "\<exists>c. calls s2 = calls s @ [c] \<and> in_call u c \<and> (\<forall>v. in_call v c \<longrightarrow> v = u \<or> v = ii_calleeId inp) \<and>
        (live_status (cl_status c) \<longleftrightarrow> \<not> busy) \<or> calls s2 = calls s"
      using i cs by (auto simp: initiate_commit_def draw_uuid_def createBusy_def create_call_def insert_call_def new_call_def
          in_call_def live_status_def act_defs Let_def split: if_splits option.splits)
    then show ?thesis
    proof (elim exE disjE conjE)
      fix c assume n: "calls s2 = calls s @ [c]" "\<forall>v. in_call v c \<longrightarrow> v = u \<or> v = ii_calleeId inp"
        "live_status (cl_status c) \<longleftrightarrow> \<not> busy"
      have "filter (live_row v) (calls s) = []" if "live_row v c" for v
        using that n(2,3) no_live [OF free(1)] no_live [of "ii_calleeId inp" s1] free(2) cs
        by (auto simp: live_row_def)
      then have "exclusive s2" using ex by (auto simp: exclusive_def n(1))
      then show ?thesis by (rule end_rows)
    next
      assume "calls s2 = calls s"
      then have "exclusive s2" using ex by (simp add: exclusive_def)
      then show ?thesis by (rule end_rows)
    qed
  qed
qed

lemma exclusive_request:
  assumes "calls_ok now s" "settled_once s" "exclusive s"
  shows "exclusive (do_request env q now s)"
proof (cases "\<exists>u inp. q = Place u inp")
  case True
  then show ?thesis using initiate_rows [OF assms(3)] by auto
next
  case False
  have "length (calls (do_request env q now s)) = length (calls s)"
    using alone_length [of q env now s] False by (simp add: do_request_alone)
  moreover have "rows_evolve (calls s) (calls (do_request env q now s))"
    using do_request_ok(3) [OF assms(1,2), of env q] by (simp add: evo_def)
  ultimately show ?thesis using assms(3) rows_evolve_live [of "calls s" "calls (do_request env q now s)"]
    unfolding exclusive_def by (meson le_trans)
qed

lemma call_run_ok:
  assumes "calls_ok now s" "settled_once s" "exclusive s"
  shows "exclusive (call_run env qs now s)"
  using assms
proof (induction env qs now s rule: call_run.induct)
  case (2 env q d qs now s)
  have ok: "calls_ok (now + int d) s" using 2(2) by (rule calls_ok_later) simp
  show ?case
    using 2(1) [OF do_request_ok(1,2) [OF ok 2(3)] exclusive_request [OF ok 2(3,4)]] by simp
qed simp

section \<open>The sweep\<close>

text \<open>Rows up to their chat thread, which the chat-log listener may fill in on the way.\<close>

abbreviation strip :: "call_row \<Rightarrow> call_row" where
  "strip c \<equiv> c\<lparr>cl_conversationId := None\<rparr>"

definition stripped :: "('z call_db_scheme) \<Rightarrow> call_row list" where
  "stripped s = map strip (calls s)"

definition calm :: "call_env \<Rightarrow> bool" where
  "calm env \<longleftrightarrow> (\<forall>n. ce_notify env n = None)"

lemma forA_calm: "calm env \<Longrightarrow> \<exists>s'. forA (notify env) ns s = (Inr (), s')"
  by (induction ns arbitrary: s) (auto simp: calm_def notify_def act_defs)

lemma log_returns: "\<exists>s'. log_call env vs s = (Inr (), s')"
proof (cases vs)
  case Nil
  then show ?thesis by (simp add: log_call_def returnA_def)
next
  case (Cons p ps)
  obtain u v where "p = (u, v)" by fastforce
  moreover obtain r s1 where "write_log env v s = (r, s1)" by fastforce
  ultimately show ?thesis using Cons by (cases r) (auto simp: log_call_def catchA_def returnA_def)
qed

lemma publish_calm:
  assumes "calm env"
  shows "\<exists>s'. publish_call env e s = (Inr (), s') \<and> stripped s' = stripped s"
proof -
  let ?s = "s\<lparr>call_bus := call_bus s @ [e], call_sockets := call_sockets s @ deliveries e\<rparr>"
  obtain s1 where l: "(if ce_writeChatLog env \<and> logged e then log_call env (ad_views (payload e)) else returnA ()) ?s
      = (Inr (), s1)" using log_returns [of env "ad_views (payload e)" ?s]
    by (cases "ce_writeChatLog env \<and> logged e") (auto simp: returnA_def)
  obtain s2 where "forA (notify env) (notices env e) s1 = (Inr (), s2)" using forA_calm [OF assms] by blast
  then have p: "publish_call env e s = (Inr (), s2)" using l by (simp add: publish_call_def modifyA_def bindA_def)
  moreover have "stripped s2 = stripped s"
    using publish_run [OF p] by (simp add: speaks_def heard_def stripped_def)
  ultimately show ?thesis by blast
qed

lemma announce_calm:
  assumes "calm env"
  shows "\<exists>s'. announce_expiry env i mk s = (Inr (), s') \<and> stripped s' = stripped s"
proof (cases "find_call i s")
  case None
  then show ?thesis by (simp add: announce_expiry_def act_defs)
next
  case (Some c)
  then show ?thesis using publish_calm [OF assms] by (simp add: announce_expiry_def act_defs)
qed

lemma matches_strip [simp]: "matches i src (strip c) = matches i src c"
  by (simp add: matches_def)

lemma terminated_strip: "strip (terminated t now c) = terminated t now (strip c)"
  by (simp add: terminated_def)

lemma expire_calm:
  assumes "calm env"
  shows "\<exists>s'. when_won (terminate i src t now) (announce_expiry env i mk) s = (Inr (), s') \<and>
    stripped s' = map (\<lambda>c. if matches i src c then terminated t now c else c) (stripped s)"
proof -
  obtain won s1 where tr: "terminate i src t now s = (Inr won, s1)" by (simp add: terminate_def transition_def)
  have st: "stripped s1 = map (\<lambda>c. if matches i src c then terminated t now c else c) (stripped s)"
    using tr by (auto simp: terminate_def transition_def stripped_def terminated_strip)
  show ?thesis
  proof (cases won)
    case True
    then show ?thesis using tr st announce_calm [OF assms, of i mk s1] by (auto simp: when_won_def bindA_def)
  next
    case False
    then show ?thesis using tr st by (simp add: when_won_def bindA_def returnA_def)
  qed
qed

text \<open>One kind of deadline applied to a list of rows, one after the other.\<close>

definition settles :: "('z call_db_scheme, unit) act \<Rightarrow> nat \<Rightarrow> call_status \<Rightarrow> (call_row \<Rightarrow> call_row) \<Rightarrow> bool" where
  "settles m i st g \<longleftrightarrow> (\<forall>s. distinct (map cl_id (calls s)) \<longrightarrow> (\<exists>s'. m s = (Inr (), s') \<and>
     stripped s' = map (\<lambda>c. if cl_id c = i \<and> cl_status c = st then g c else c) (stripped s)))"

lemma ids_stripped: "map cl_id (stripped s) = map cl_id (calls s)"
  by (simp add: stripped_def comp_def)

lemma settles_all:
  fixes s :: "'z call_db_scheme"
  assumes step: "\<And>c :: call_row. settles (f c :: ('z call_db_scheme, unit) act) (cl_id c) st g"
    and g: "\<And>c. cl_id (g c) = cl_id c \<and> cl_status (g c) \<noteq> st"
    and dist: "distinct (map cl_id (calls s))"
  shows "\<exists>s'. forA f cs s = (Inr (), s') \<and>
    stripped s' = map (\<lambda>c. if cl_id c \<in> cl_id ` set cs \<and> cl_status c = st then g c else c) (stripped s) \<and>
    distinct (map cl_id (calls s'))"
  using dist
proof (induction cs arbitrary: s)
  case Nil
  then show ?case by (simp add: returnA_def)
next
  case (Cons x cs)
  obtain s1 where s1: "f x s = (Inr (), s1)"
    "stripped s1 = map (\<lambda>c. if cl_id c = cl_id x \<and> cl_status c = st then g c else c) (stripped s)"
    using step [of x] Cons.prems unfolding settles_def by blast
  have "map cl_id (stripped s1) = map cl_id (stripped s)" using g by (simp add: s1(2))
  then have "distinct (map cl_id (calls s1))" using Cons.prems ids_stripped by metis
  from Cons.IH [OF this] obtain s2 where s2: "forA f cs s1 = (Inr (), s2)"
    "stripped s2 = map (\<lambda>c. if cl_id c \<in> cl_id ` set cs \<and> cl_status c = st then g c else c) (stripped s1)"
    "distinct (map cl_id (calls s2))" by blast
  have "stripped s2 = map (\<lambda>c. if cl_id c \<in> cl_id ` set (x # cs) \<and> cl_status c = st then g c else c) (stripped s)"
    unfolding s2(2) s1(2) map_map by (rule map_cong) (use g in auto)
  then show ?case using s1(1) s2(1,3) by (simp add: bindA_def)
qed

definition missed_input :: terminate_input where
  "missed_input = \<lparr>ti_status = Missed, ti_endReason = Timeout, ti_endedBy = None, ti_durationSeconds = 0\<rparr>"

definition unconnected_input :: terminate_input where
  "unconnected_input = \<lparr>ti_status = Failed, ti_endReason = Network, ti_endedBy = None, ti_durationSeconds = 0\<rparr>"

lemma matches_one [simp]: "matches i [st] c \<longleftrightarrow> cl_id c = i \<and> cl_status c = st"
  by (simp add: matches_def)

lemma settles_ringing: "calm env \<Longrightarrow> settles (expireRinging env i now) i Ringing (terminated missed_input now)"
  unfolding settles_def expireRinging_def expireRinging_commit_def expireRinging_settle_def missed_input_def [symmetric]
    matches_one [symmetric]
  by (intro allI impI expire_calm)

lemma settles_accepted:
  "calm env \<Longrightarrow> settles (expireConnecting env i now) i Accepted (terminated unconnected_input now)"
  unfolding settles_def expireConnecting_def expireConnecting_commit_def expireConnecting_settle_def
    unconnected_input_def [symmetric] matches_one [symmetric]
  by (intro allI impI expire_calm)

lemma find_call_strip:
  assumes "distinct (map cl_id (calls s))" "find_call i s = Some c" "d \<in> set (stripped s)" "cl_id d = i"
  shows "d = strip c"
proof -
  obtain e where e: "e \<in> set (calls s)" "d = strip e" using assms(3) by (auto simp: stripped_def)
  then have "cl_id e = cl_id c" using assms(2,4) find_call_Some by fastforce
  then have "e = c" using assms(1,2) e(1) find_call_Some [OF assms(2)] by (auto simp: distinct_map dest: inj_onD)
  then show ?thesis using e(2) by simp
qed

lemma find_call_None: "find_call i s = None \<Longrightarrow> d \<in> set (stripped s) \<Longrightarrow> cl_id d \<noteq> i"
  by (auto simp: find_call_def find_None_iff stripped_def)

definition overlong :: "int \<Rightarrow> call_row \<Rightarrow> call_row" where
  "overlong now c = terminated (hangup_input None (durationOf c now)) now c"

lemma settles_connected:
  assumes "calm env"
  shows "settles (expireConnected env i now) i Connected (overlong now)"
  unfolding settles_def
proof (intro allI impI)
  fix s :: "'z call_db_scheme" assume dist: "distinct (map cl_id (calls s))"
  show "\<exists>s'. expireConnected env i now s = (Inr (), s') \<and> stripped s' =
      map (\<lambda>c. if cl_id c = i \<and> cl_status c = Connected then overlong now c else c) (stripped s)"
  proof (cases "find_call i s")
    case None
    then have "map (\<lambda>c. if cl_id c = i \<and> cl_status c = Connected then overlong now c else c) (stripped s) = stripped s"
      by (intro map_idI) (auto dest: find_call_None)
    then show ?thesis using None by (simp add: expireConnected_def expireConnected_check_def act_defs)
  next
    case (Some c)
    note row = find_call_strip [OF dist Some]
    show ?thesis
    proof (cases "cl_status c = Connected")
      case False
      then have "map (\<lambda>c. if cl_id c = i \<and> cl_status c = Connected then overlong now c else c) (stripped s) = stripped s"
        using row by (intro map_idI) fastforce
      then show ?thesis using Some False by (simp add: expireConnected_def expireConnected_check_def act_defs)
    next
      case True
      let ?t = "hangup_input None (durationOf c now)"
      obtain s' where s': "when_won (terminate i [Connected] ?t now) (expireConnected_settle env i) s = (Inr (), s')"
        "stripped s' = map (\<lambda>c. if matches i [Connected] c then terminated ?t now c else c) (stripped s)"
        using expire_calm [OF assms, of i "[Connected]" ?t now "\<lambda>ad c. CallEnded ad None (cl_durationSeconds c)" s]
        unfolding expireConnected_settle_def by blast
      have "terminated ?t now d = overlong now d" if "d \<in> set (stripped s)" "cl_id d = i" for d
        unfolding overlong_def row [OF that] by (simp add: durationOf_def)
      then have "stripped s' = map (\<lambda>c. if cl_id c = i \<and> cl_status c = Connected then overlong now c else c) (stripped s)"
        unfolding s'(2) by (auto simp: matches_def intro!: map_cong)
      moreover have "expireConnected env i now s = (Inr (), s')"
        using s'(1) Some True
        by (simp add: expireConnected_def expireConnected_check_def expireConnected_commit_def act_defs)
      ultimately show ?thesis by blast
    qed
  qed
qed

definition late_ring :: "int \<Rightarrow> call_row \<Rightarrow> bool" where
  "late_ring now c \<longleftrightarrow> cl_status c = Ringing \<and> cl_ringingExpiresAt c \<le> now"

definition late_connect :: "call_env \<Rightarrow> int \<Rightarrow> call_row \<Rightarrow> bool" where
  "late_connect env now c \<longleftrightarrow>
     cl_status c = Accepted \<and> at_or_before (cl_acceptedAt c) (now - ce_connectTimeoutSeconds env * 1000)"

definition late_end :: "call_env \<Rightarrow> int \<Rightarrow> call_row \<Rightarrow> bool" where
  "late_end env now c \<longleftrightarrow>
     cl_status c = Connected \<and> at_or_before (cl_connectedAt c) (now - ce_maxDurationSeconds env * 1000)"

definition reaped_row :: "call_env \<Rightarrow> int \<Rightarrow> call_row \<Rightarrow> call_row" where
  "reaped_row env now c =
     (if late_ring now c then terminated missed_input now c
      else if late_connect env now c then terminated unconnected_input now c
      else if late_end env now c then overlong now c
      else c)"

definition overdue :: "(call_row \<Rightarrow> bool) \<Rightarrow> ('z call_db_scheme) \<Rightarrow> nat" where
  "overdue P s = length (filter P (stripped s))"

lemma taken_ids:
  assumes P: "\<And>c. P (strip c) = P c" and dist: "distinct (map cl_id (calls s))" and few: "overdue P s \<le> n"
    and d: "d \<in> set (stripped s)"
  shows "cl_id d \<in> cl_id ` set (take n (filter P (calls s))) \<longleftrightarrow> P d"
proof -
  have "length (filter P (calls s)) = overdue P s"
    by (simp add: overdue_def stripped_def filter_map comp_def P)
  then have t: "take n (filter P (calls s)) = filter P (calls s)" using few by simp
  obtain c where c: "c \<in> set (calls s)" "d = strip c" using d by (auto simp: stripped_def)
  have same: "e = c" if "e \<in> set (calls s)" "cl_id e = cl_id c" for e
    using dist that c(1) by (auto simp: distinct_map dest: inj_onD)
  have id: "cl_id d = cl_id c" "P d = P c" using c(2) P by simp_all
  show ?thesis unfolding t id
  proof
    assume "cl_id c \<in> cl_id ` set (filter P (calls s))"
    then obtain e where "e \<in> set (calls s)" "P e" "cl_id e = cl_id c" by auto
    then show "P c" using same by metis
  next
    assume "P c"
    then show "cl_id c \<in> cl_id ` set (filter P (calls s))" using c(1) by simp
  qed
qed

lemma taken_map:
  assumes P: "\<And>c. P (strip c) = P c" and st: "\<And>c. P c \<Longrightarrow> cl_status c = st"
    and dist: "distinct (map cl_id (calls s))" and few: "overdue P s \<le> n"
  shows "map (\<lambda>c. if cl_id c \<in> cl_id ` set (take n (filter P (calls s))) \<and> cl_status c = st then g c else c) (stripped s) =
    map (\<lambda>c. if P c then g c else c) (stripped s)"
  using taken_ids [OF P dist few] st by (intro map_cong) auto

lemma late_strip [simp]:
  "late_ring now (strip c) = late_ring now c" "late_connect env now (strip c) = late_connect env now c"
  "late_end env now (strip c) = late_end env now c"
  by (simp_all add: late_ring_def late_connect_def late_end_def)

lemma late_after [simp]:
  "\<not> late_connect env now (terminated missed_input now c)" "\<not> late_end env now (terminated missed_input now c)"
  "\<not> late_end env now (terminated unconnected_input now c)"
  by (simp_all add: late_connect_def late_end_def terminated_def missed_input_def unconnected_input_def)

lemma late_exclusive:
  "late_ring now c \<Longrightarrow> \<not> late_connect env now c" "late_ring now c \<Longrightarrow> \<not> late_end env now c"
  "late_connect env now c \<Longrightarrow> \<not> late_end env now c"
  by (auto simp: late_ring_def late_connect_def late_end_def)

lemma overdue_after:
  assumes "stripped s' = map (\<lambda>c. if P c then g c else c) (stripped s)" "\<And>c. P c \<Longrightarrow> \<not> Q (g c)" "\<And>c. P c \<Longrightarrow> \<not> Q c"
  shows "overdue Q s' = overdue Q s"
proof -
  have "length (filter Q (map (\<lambda>c. if P c then g c else c) cs)) = length (filter Q cs)" for cs
    by (induction cs) (use assms(2,3) in auto)
  then show ?thesis by (simp add: overdue_def assms(1))
qed

lemma batch:
  fixes s :: "'z call_db_scheme"
  assumes calm: "\<And>c :: call_row. settles (f c :: ('z call_db_scheme, unit) act) (cl_id c) st g"
    and g: "\<And>c. cl_id (g c) = cl_id c \<and> cl_status (g c) \<noteq> st"
    and P: "\<And>c. P (strip c) = P c" "\<And>c. P c \<Longrightarrow> cl_status c = st"
    and dist: "distinct (map cl_id (calls s))" and few: "overdue P s \<le> n"
  shows "\<exists>s'. forA f (take n (filter P (calls s))) s = (Inr (), s') \<and>
    stripped s' = map (\<lambda>c. if P c then g c else c) (stripped s) \<and> distinct (map cl_id (calls s'))"
  using settles_all [OF calm g dist, of "take n (filter P (calls s))"] taken_map [OF P dist few] by auto

lemma sent_ids [simp]:
  "cl_id (terminated t now c) = cl_id c" "cl_status (terminated missed_input now c) = Missed"
  "cl_status (terminated unconnected_input now c) = Failed" "cl_id (overlong now c) = cl_id c"
  "cl_status (overlong now c) = Ended"
  by (simp_all add: terminated_def missed_input_def unconnected_input_def overlong_def hangup_input_def)

lemma reap_run:
  fixes s :: "'z call_db_scheme"
  assumes calm: "calm env" and dist: "distinct (map cl_id (calls s))"
    and few: "overdue (late_ring now) s \<le> reap_batch" "overdue (late_connect env now) s \<le> reap_batch"
      "overdue (late_end env now) s \<le> reap_batch"
  shows "\<exists>n s'. reap env now s = (Inr n, s') \<and> stripped s' = map (reaped_row env now) (stripped s)"
proof -
  have lists: "findExpiredRinging now n = (\<lambda>s :: 'z call_db_scheme. take n (filter (late_ring now) (calls s)))"
    "findStuckAccepted (now - ce_connectTimeoutSeconds env * 1000) n =
      (\<lambda>s :: 'z call_db_scheme. take n (filter (late_connect env now) (calls s)))"
    "findOverlongConnected (now - ce_maxDurationSeconds env * 1000) n =
      (\<lambda>s :: 'z call_db_scheme. take n (filter (late_end env now) (calls s)))" for n
    by (simp_all add: fun_eq_iff findExpiredRinging_def findStuckAccepted_def findOverlongConnected_def
        late_ring_def [abs_def] late_connect_def [abs_def] late_end_def [abs_def])
  let ?g1 = "terminated missed_input now" and ?g2 = "terminated unconnected_input now" and ?g3 = "overlong now"
  obtain s1 where s1: "forA (\<lambda>c. expireRinging env (cl_id c) now) (take reap_batch (filter (late_ring now) (calls s))) s
      = (Inr (), s1)" "stripped s1 = map (\<lambda>c. if late_ring now c then ?g1 c else c) (stripped s)"
      "distinct (map cl_id (calls s1))"
    using batch [OF settles_ringing [OF calm] _ _ _ dist few(1)] by (auto simp: late_ring_def)
  have n2: "overdue (late_connect env now) s1 = overdue (late_connect env now) s"
    and n3: "overdue (late_end env now) s1 = overdue (late_end env now) s"
    using overdue_after [OF s1(2)] late_exclusive by auto
  obtain s2 where s2: "forA (\<lambda>c. expireConnecting env (cl_id c) now)
      (take reap_batch (filter (late_connect env now) (calls s1))) s1 = (Inr (), s2)"
      "stripped s2 = map (\<lambda>c. if late_connect env now c then ?g2 c else c) (stripped s1)"
      "distinct (map cl_id (calls s2))"
    using batch [OF settles_accepted [OF calm] _ _ _ s1(3) few(2) [folded n2]] by (auto simp: late_connect_def)
  have n4: "overdue (late_end env now) s2 = overdue (late_end env now) s1"
    using overdue_after [OF s2(2)] late_exclusive by auto
  obtain s3 where s3: "forA (\<lambda>c. expireConnected env (cl_id c) now)
      (take reap_batch (filter (late_end env now) (calls s2))) s2 = (Inr (), s3)"
      "stripped s3 = map (\<lambda>c. if late_end env now c then ?g3 c else c) (stripped s2)"
    using batch [OF settles_connected [OF calm] _ _ _ s2(3) few(3) [folded n3, folded n4]] by (auto simp: late_end_def)
  have "stripped s3 = map (reaped_row env now) (stripped s)"
    unfolding s3(2) s2(2) s1(2) map_map
    by (rule map_cong) (use late_exclusive in \<open>auto simp: reaped_row_def\<close>)
  moreover have "\<exists>n. reap env now s = (Inr n, s3)"
    using s1(1) s2(1) s3(1) by (simp add: reap_def lists bindA_def getsA_def returnA_def)
  ultimately show ?thesis by blast
qed

text \<open>With the notification service down, the first deadline that has someone to notify ends the sweep.\<close>

lemma missed_notices:
  "\<exists>n ns. notices env (CallMissed \<lparr>ad_recipientIds = rs, ad_views = bothViews env c, ad_callId = i\<rparr>) = n # ns"
  by (auto simp: onMissed_def callee_view_def bothViews_def view_def toView_def Let_def)

lemma publish_down:
  assumes "\<And>n. ce_notify env n = Some e" "notices env ev = n # ns"
  shows "\<exists>s'. publish_call env ev s = (Inl e, s') \<and> stripped s' = stripped s"
proof -
  let ?s = "s\<lparr>call_bus := call_bus s @ [ev], call_sockets := call_sockets s @ deliveries ev\<rparr>"
  obtain s1 where l: "(if ce_writeChatLog env \<and> logged ev then log_call env (ad_views (payload ev)) else returnA ()) ?s
      = (Inr (), s1)" using log_returns [of env "ad_views (payload ev)" ?s]
    by (cases "ce_writeChatLog env \<and> logged ev") (auto simp: returnA_def)
  have p: "publish_call env ev s = (Inl e, s1)"
    using l assms by (simp add: publish_call_def modifyA_def bindA_def notify_def)
  moreover have "stripped s1 = stripped s"
    using publish_run [OF p] by (simp add: speaks_def heard_def stripped_def)
  ultimately show ?thesis by blast
qed

lemma find_transition:
  assumes "find_call i s = Some c" "\<And>c. cl_id (f c) = cl_id c"
  shows "find_call i (s\<lparr>calls := map (\<lambda>c. if matches i src c then f c else c) (calls s)\<rparr>) =
    Some (if matches i src c then f c else c)"
proof -
  have "List.find (\<lambda>c. cl_id c = i) cs = Some c \<Longrightarrow>
      List.find (\<lambda>c. cl_id c = i) (map (\<lambda>c. if matches i src c then f c else c) cs) =
      Some (if matches i src c then f c else c)" for cs
    by (induction cs) (auto simp: assms(2) split: if_splits)
  then show ?thesis using assms(1) by (simp add: find_call_def)
qed

lemma expire_down:
  assumes down: "\<And>n. ce_notify env n = Some e" and row: "find_call i s = Some c" "cl_status c = Ringing"
  shows "\<exists>s'. expireRinging env i now s = (Inl e, s') \<and>
    stripped s' = map (\<lambda>c. if cl_id c = i \<and> cl_status c = Ringing then terminated missed_input now c else c) (stripped s)"
proof -
  let ?s = "s\<lparr>calls := map (\<lambda>c. if matches i [Ringing] c then terminated missed_input now c else c) (calls s)\<rparr>"
  have won: "expireRinging_commit i now s = (Inr True, ?s)"
    using find_call_Some [OF row(1)] row(2)
    by (auto simp: expireRinging_commit_def terminate_def transition_def missed_input_def)
  have f: "find_call i ?s = Some (terminated missed_input now c)"
    using find_transition [OF row(1), of "terminated missed_input now" "[Ringing]"] find_call_Some [OF row(1)] row(2) by simp
  let ?d = "terminated missed_input now c"
  let ?ev = "CallMissed \<lparr>ad_recipientIds = [cl_callerId ?d, cl_calleeId ?d], ad_views = bothViews env ?d, ad_callId = i\<rparr>"
  obtain n ns where "notices env ?ev = n # ns" using missed_notices by blast
  then obtain s' where p: "publish_call env ?ev ?s = (Inl e, s')" "stripped s' = stripped ?s"
    using publish_down [OF down] by blast
  have "stripped ?s = map (\<lambda>c. if cl_id c = i \<and> cl_status c = Ringing then terminated missed_input now c else c) (stripped s)"
    by (auto simp: stripped_def terminated_strip)
  then show ?thesis using won f p
    by (simp add: expireRinging_def when_won_def expireRinging_settle_def announce_expiry_def bindA_def getsA_def)
qed

section \<open>Retries\<close>

lemma call_run_evo:
  assumes "calls_ok now s" "settled_once s"
  shows "\<exists>t. calls_ok t (call_run env qs now s) \<and> evo s (call_run env qs now s)"
  using assms
proof (induction env qs now s rule: call_run.induct)
  case (1 env now s)
  then show ?case by (auto simp: evo_refl)
next
  case (2 env q d qs now s)
  have ok: "calls_ok (now + int d) s" using 2(2) by (rule calls_ok_later) simp
  note st = do_request_ok [OF ok 2(3), of env q]
  show ?case using 2(1) [OF st(1,2)] evo_trans [OF st(3)] by auto
qed

lemma evo_key:
  assumes "evo s s'" "c \<in> set (calls s)"
  shows "\<exists>c' \<in> set (calls s'). cl_id c' = cl_id c \<and> call_key c' = call_key c"
proof -
  obtain k where k: "k < length (calls s)" "calls s ! k = c" using assms(2) by (auto simp: in_set_conv_nth)
  then have "evolves c (calls s' ! k)" "k < length (calls s')" using assms(1) by (auto simp: evo_def rows_evolve_def)
  then show ?thesis by (auto simp: evolves_def same_call_def call_key_def intro!: bexI [of _ "calls s' ! k"])
qed

lemma find_key:
  assumes "calls_ok now s" "c \<in> set (calls s)" "call_key c = (u, k)"
  shows "findByClientId u k s = Some c"
proof (cases "findByClientId u k s")
  case None
  then show ?thesis using assms(2,3) by (auto simp: findByClientId_def find_None_iff call_key_def)
next
  case (Some d)
  then have "d \<in> set (calls s)" "call_key d = (u, k)" by (auto simp: findByClientId_def find_Some_iff call_key_def)
  moreover have "inj_on call_key (set (calls s))" using assms(1) by (simp add: calls_ok_def distinct_map)
  ultimately have "d = c" using assms(2,3) inj_onD [of call_key "set (calls s)" d c] by simp
  then show ?thesis using Some by simp
qed

lemma session_run:
  assumes "isConfigured (ce_zego env)"
  shows "\<exists>ss. sessionFor env c u s = (Inr ss, s) \<and> se_call ss = Some (view env c u)"
  using assms
  by (auto simp: sessionFor_def credentialsFor_def buildRoomToken_def isConfigured_def act_defs Let_def split: if_splits)

lemma initiate_again:
  assumes "u \<noteq> ii_calleeId inp" "isConfigured (ce_zego env)" "findByClientId u (ii_clientId inp) s = Some c"
  shows "\<exists>ss. initiate env u inp now s = (Inr ss, s) \<and> map_option cv_id (se_call ss) = Some (cl_id c)"
  using assms session_run [OF assms(2), of c u s]
  by (auto simp: initiate_def initiate_check_def assertRtcConfigured_def bindA_def guardA_def getsA_def returnA_def
      view_def toView_def Let_def)

lemma initiate_check_guards:
  "initiate_check env u inp now s = (Inr x, s') \<Longrightarrow> u \<noteq> ii_calleeId inp \<and> isConfigured (ce_zego env)"
  by (simp add: initiate_check_def assertRtcConfigured_def bindA_Inr)

lemma commit_row:
  assumes "initiate_commit env u inp busy now s = (Inr c, s')"
  shows "c \<in> set (calls s') \<and> call_key c = (u, ii_clientId inp) \<and> cl_callerId c = u"
  using assms
  by (auto simp: initiate_commit_def draw_uuid_def createBusy_def create_call_def insert_call_def new_call_def call_key_def
      findByClientId_def find_Some_iff act_defs Let_def split: if_splits option.splits)

lemma initiate_row:
  assumes "initiate env u inp now s = (Inr ss, s')"
  shows "u \<noteq> ii_calleeId inp \<and> isConfigured (ce_zego env) \<and>
    (\<exists>c \<in> set (calls s'). call_key c = (u, ii_clientId inp) \<and> map_option cv_id (se_call ss) = Some (cl_id c))"
proof -
  obtain x s1 where c: "initiate_check env u inp now s = (Inr x, s1)"
    using assms by (auto simp: initiate_def bindA_Inr)
  note gd = initiate_check_guards [OF c]
  show ?thesis
  proof (cases x)
    case (Inl y)
    then have y: "y = ss" "s' = s1" using assms c by (auto simp: initiate_def bindA_Inr)
    have "\<exists>r. findByClientId u (ii_clientId inp) s = Some r \<and> sessionFor env r u s = (Inr ss, s1)"
      using c Inl y by (auto simp: initiate_check_def assertRtcConfigured_def bindA_Inr split: option.splits)
    then obtain r where r: "findByClientId u (ii_clientId inp) s = Some r" "sessionFor env r u s = (Inr ss, s1)" by blast
    have "s1 = s" "se_call ss = Some (view env r u)" using r(2) session_run [of env r u s] gd by auto
    moreover have "r \<in> set (calls s)" "call_key r = (u, ii_clientId inp)"
      using r(1) by (auto simp: findByClientId_def find_Some_iff call_key_def)
    ultimately show ?thesis using gd y by (auto simp: view_def toView_def Let_def intro!: bexI [of _ r])
  next
    case (Inr busy)
    then obtain r s2 where r: "initiate_commit env u inp busy now s1 = (Inr r, s2)"
      "initiate_settle env u inp busy r now s2 = (Inr ss, s')"
      using assms c by (auto simp: initiate_def bindA_Inr)
    note row = commit_row [OF r(1)]
    have sd: "said (cl_id r) busy s2 s'" using says_initiate r(2) by (rule saysD)
    obtain r' where r': "r' \<in> set (calls s')" "cl_id r' = cl_id r" "call_key r' = call_key r"
      using evo_key [OF said_facts(2) [OF sd]] row by blast
    have "se_call ss = map_of (bothViews env r) u"
      using r(2) by (auto simp: initiate_settle_def bindA_Inr split: if_splits)
    moreover have "map_of (bothViews env r) u = Some (view env r u)" using row by (simp add: bothViews_def)
    ultimately have "map_option cv_id (se_call ss) = Some (cl_id r')"
      using r'(2) by (simp add: view_def toView_def Let_def)
    then show ?thesis using gd r' row by auto
  qed
qed

section \<open>Answering\<close>

lemma accept_settle_calm:
  assumes "calm env" "isConfigured (ce_zego env)" "find_call i s = Some c" "cl_calleeId c = u"
  shows "\<exists>ss cr s'. accept_settle env u i s = (Inr ss, s') \<and> se_credentials ss = Some cr \<and>
    cr_zegoRoomId cr = cl_zegoRoomId c \<and> stripped s' = stripped s"
proof -
  let ?job = "Queue_add CONNECT_TIMEOUT \<lparr>dj_callId = cl_id c, dj_maxDuration = False\<rparr> (connect_job (cl_id c))
    (ce_connectTimeoutSeconds env * 1000)"
  let ?s = "s\<lparr>call_queue := call_queue s @ [?job]\<rparr>"
  let ?e = "CallAccepted \<lparr>ad_recipientIds = [cl_callerId c, cl_calleeId c], ad_views = bothViews env c, ad_callId = i\<rparr> u"
  obtain s' where p: "publish_call env ?e ?s = (Inr (), s')" "stripped s' = stripped ?s"
    using publish_calm [OF assms(1), of ?e ?s] by blast
  have "\<exists>cr. credentialsFor env c u s' = (Inr cr, s') \<and> cr_zegoRoomId cr = cl_zegoRoomId c"
    using assms(2)
    by (cases "hasRealConfig (ce_zego env)")
       (simp_all add: credentialsFor_def buildRoomToken_def isConfigured_def returnA_def Let_def split: if_splits)
  then obtain cr where cr: "credentialsFor env c u s' = (Inr cr, s')" "cr_zegoRoomId cr = cl_zegoRoomId c" by blast
  have "accept_settle env u i s = (Inr \<lparr>se_call = map_of (bothViews env c) u, se_credentials = Some cr\<rparr>, s')"
    using assms(3,4) p(1) cr(1)
    by (simp add: accept_settle_def requireCall_def armConnectTimeout_def ask_queue_def bindA_def getsA_def guardA_def
        modifyA_def returnA_def)
  then show ?thesis using cr(2) p(2) by (auto simp: stripped_def)
qed

lemma find_stripped:
  assumes "stripped s' = stripped s"
  shows "map_option strip (find_call i s') = map_option strip (find_call i s)"
proof -
  have "map_option strip (List.find (\<lambda>c. cl_id c = i) cs) = List.find (\<lambda>c. cl_id c = i) (map strip cs)" for cs
    by (induction cs) auto
  then show ?thesis using assms by (simp add: find_call_def stripped_def)
qed

section \<open>Who may be called\<close>

lemma assertMayCall_run:
  assumes "coherent s"
  shows "\<exists>s'. assertMayCall env u v now s =
      (if edge_between u v s then Inl (Business ''CALL_BLOCKED'')
       else if may (ce_privacy env) (Some u) v CALL s then Inr () else Inl (Business ''CALL_NOT_ALLOWED''), s') \<and>
    coherent s' \<and> same_tables s s'"
  unfolding assertMayCall_def
  by (rule privacy_gate.gate_run [OF assms])

definition call_verdict :: "call_env \<Rightarrow> user_id \<Rightarrow> user_id \<Rightarrow> ('z call_db_scheme) \<Rightarrow> string option" where
  "call_verdict env u v s =
     (if edge_between u v s then Some ''CALL_BLOCKED''
      else if may (ce_privacy env) (Some u) v CALL s then None
      else Some ''CALL_NOT_ALLOWED'')"

lemma canCall_run:
  assumes "coherent s" "u \<noteq> v"
  shows "\<exists>s'. canCall env u v now s = (Inr (call_verdict env u v s = None, call_verdict env u v s), s') \<and>
    coherent s' \<and> same_tables s s'"
proof -
  obtain s' where "canCall env u v now s =
      (Inr (if edge_between u v s then (False, Some ''CALL_BLOCKED'')
        else if may (ce_privacy env) (Some u) v CALL s then (True, None) else (False, Some ''CALL_NOT_ALLOWED'')), s')"
    "coherent s'" "same_tables s s'"
    using privacy_gate.verdict_run [OF assms(1), of "ce_privacy env" u v now "(False, Some ''CALL_BLOCKED'')" CALL]
    unfolding canCall_def using assms(2) by fastforce
  then show ?thesis by (auto simp: call_verdict_def)
qed

lemma increment_frame:
  assumes "assertNotRateLimited env u now s = (r, s1)"
  shows "coherent s1 = coherent s" "edge_between a b s1 = edge_between a b s" "may pe x b act s1 = may pe x b act s"
proof -
  obtain f where s1: "s1 = s\<lparr>rates := f\<rparr>"
    using assms by (auto simp: assertNotRateLimited_def increment_def bindA_def guardA_def Let_def split: if_splits)
  have row: "settings_row_of w s1 = settings_row_of w s" for w
    by (simp add: s1 settings_row_of_def)
  have edge: "edge_between v w s1 = edge_between v w s" for v w
    by (simp add: s1 edge_between_def blockExists_def)
  then show "edge_between a b s1 = edge_between a b s" by blast
  show "coherent s1 = coherent s"
    by (simp add: coherent_def relationship_set row edge) (simp add: s1)
  show "may pe x b act s1 = may pe x b act s"
    by (simp add: may_def row edge split: option.split)
qed

lemma initiate_refused:
  assumes ok: "coherent s" and v: "call_verdict env u (ii_calleeId inp) s = Some code" and other: "u \<noteq> ii_calleeId inp"
    and rtc: "isConfigured (ce_zego env)" and fresh: "findByClientId u (ii_clientId inp) s = None"
    and rate: "fst (assertNotRateLimited env u now s) = Inr ()"
  shows "\<exists>s'. initiate env u inp now s = (Inl (Business code), s') \<and> calls s' = calls s"
proof -
  obtain s1 where s1: "assertNotRateLimited env u now s = (Inr (), s1)" using rate by (metis prod.collapse)
  note fr = increment_frame [OF s1]
  obtain s2 where "assertMayCall env u (ii_calleeId inp) now s1 =
      (if edge_between u (ii_calleeId inp) s1 then Inl (Business ''CALL_BLOCKED'')
       else if may (ce_privacy env) (Some u) (ii_calleeId inp) CALL s1 then Inr ()
       else Inl (Business ''CALL_NOT_ALLOWED''), s2)" using assertMayCall_run fr(1) ok by blast
  then have "assertMayCall env u (ii_calleeId inp) now s1 = (Inl (Business code), s2)"
    using v fr(2,3) by (auto simp: call_verdict_def split: if_splits)
  then have c: "initiate_check env u inp now s = (Inl (Business code), s2)"
    using other rtc fresh s1
    by (simp add: initiate_check_def assertRtcConfigured_def bindA_def guardA_def getsA_def)
  then have "calls s2 = calls s" using quiet.okD [OF quiet_initiate c] by (simp add: quiet_def)
  then show ?thesis using c by (simp add: initiate_def bindA_def)
qed

end
