(* ===== verification/CallProperties.thy ===== *)
theory CallProperties
  imports CallRuns
begin

text \<open>
  The properties of privacy and calls: what the cached check engine answers and how a racing read can
  outlive a block; that a call is decided once, stays consistent, and that its user is in one call at a
  time as long as requests do not overlap; what the sweep settles; and where overlapping requests break
  the rules the module states.
\<close>

section \<open>Privacy\<close>

text \<open>
  C34: Along every run of checks, settings changes, blocks and unblocks that starts with a coherent
  cache, the check engine answers exactly what the tables say, whatever the cache holds: a block in
  either direction refuses, otherwise the level of the action decides.
\<close>

theorem check_reads_tables:
  assumes "coherent s"
  shows "\<exists>s'. privacy_check env viewer target action now (privacy_run env ops s) =
    (Inr (may env viewer target action (privacy_run env ops s)), s') \<and> same_tables (privacy_run env ops s) s'"
  using privacy_check_run [OF coherent_run [OF assms]] by blast

definition empty_privacy :: privacy_db where
  "empty_privacy = \<lparr>settings_of = (\<lambda>_. None), preferences_of = (\<lambda>_. None), blocks = [],
     settings_cache = (\<lambda>_. None), block_cache = (\<lambda>_. None), privacy_bus = []\<rparr>"

definition lonely :: pv_env where
  "lonely = \<lparr>pe_cacheTtl = 300, pe_isFriend = (\<lambda>_ _. False), pe_isFollower = (\<lambda>_ _. False),
     pe_user = (\<lambda>_. None), pe_avatar = (\<lambda>_. None)\<rparr>"

lemma empty_coherent: "coherent empty_privacy"
  by (simp add: coherent_def empty_privacy_def)

lemma check_reads_tables_witness:
  "\<exists>s'. privacy_check lonely (Some 1) 2 CALL 10
      (privacy_run lonely [(Op_check (Some 1) 2 CALL, 0), (Op_block 2 1 None, 5)] empty_privacy) = (Inr False, s')"
proof -
  let ?s = "privacy_run lonely [(Op_check (Some 1) 2 CALL, 0), (Op_block 2 1 None, 5)] empty_privacy"
  have "may lonely (Some 1) 2 CALL ?s = False" by code_simp
  then show ?thesis
    using check_reads_tables [OF empty_coherent, of lonely "Some 1" 2 CALL 10
        "[(Op_check (Some 1) 2 CALL, 0), (Op_block 2 1 None, 5)]"] by metis
qed

text \<open>
  The cache-aside read of a caller whose table read comes before a block and whose cache write comes
  after the block's invalidation.
\<close>

definition read_around_block ::
  "pv_env \<Rightarrow> user_id \<Rightarrow> user_id \<Rightarrow> string option \<Rightarrow> int \<Rightarrow> ('z privacy_db_scheme, unit) act" where
  "read_around_block env a b reason now =
     bindA (getsA (blockRelationshipIds a)) (\<lambda>ids.
     bindA (block_user b a reason now) (\<lambda>_.
     block_fill env a now ids))"

text \<open>
  A block placed while the blocked user's list is being read from the table is invisible until the
  cache entry expires: the edge is stored, the check still answers what it answered before.
\<close>

theorem block_outlived_by_cache:
  assumes free: "\<not> edge_between a b s" "a \<noteq> b" and ttl: "0 < pe_cacheTtl env"
    and later: "now \<le> later" "later < now + pe_cacheTtl env * 1000"
    and default: "settings_of s b = None" "settings_cache s b = None"
  shows "\<exists>s'. read_around_block env a b reason now s = (Inr (), s') \<and> blockExists b a s' \<and>
    fst (isBlockedEitherWay env a b later s') = Inr False \<and>
    fst (privacy_check env (Some a) b action later s') = Inr True"
proof -
  have no: "\<not> blockExists b a s" "b \<notin> set (blockRelationshipIds a s)"
    using free(1) by (simp_all add: relationship_ids) (simp add: edge_between_def)
  then show ?thesis using free(2) ttl later default
    by (auto simp: read_around_block_def block_user_def createBlock_def invalidateBlock_def publish_privacy_def
        block_fill_def isBlockedEitherWay_def blockedIdsFor_def privacy_check_def getSettings_def ensureSettings_def
        cache_get_def cache_entry_def level_check_def default_settings_def blockExists_def is_edge_def act_defs)
qed

lemma block_outlived_by_cache_witness:
  "\<exists>s'. read_around_block lonely 1 2 None 0 empty_privacy = (Inr (), s') \<and> blockExists 2 1 s' \<and>
    fst (isBlockedEitherWay lonely 1 2 299999 s') = Inr False \<and>
    fst (privacy_check lonely (Some 1) 2 CALL 299999 s') = Inr True"
  by (rule block_outlived_by_cache)
     (simp_all add: edge_between_def blockExists_def empty_privacy_def lonely_def)

text \<open>
  The pre-flight answer tells what placing the call would do: it is the verdict of the tables, and
  when it refuses, a placement that gets past the other guards throws with the same code and leaves the
  calls as they were.
\<close>

theorem pre_flight_predicts_refusal:
  assumes "coherent s" "u \<noteq> ii_calleeId inp" "call_verdict env u (ii_calleeId inp) s = Some code"
    "isConfigured (ce_zego env)" "findByClientId u (ii_clientId inp) s = None"
    "fst (assertNotRateLimited env u now s) = Inr ()"
  shows "fst (canCall env u (ii_calleeId inp) now s) = Inr (False, Some code) \<and>
    (\<exists>s'. initiate env u inp now s = (Inl (Business code), s') \<and> calls s' = calls s)"
proof -
  obtain s' where "canCall env u (ii_calleeId inp) now s = (Inr (False, Some code), s')"
    using canCall_run [OF assms(1,2), of env now] assms(3) by auto
  then show ?thesis using initiate_refused [OF assms(1,3,2,4-6)] by simp
qed

section \<open>A call is decided once\<close>

text \<open>
  C13: However requests and deadlines interleave, every call moves forward only: between any two points
  of a schedule its status follows the lifecycle, its timestamps stay once set, a settled row keeps
  every field but the chat thread, and at most one event tells that it is over, none before it is.
\<close>

theorem calls_settle_once:
  assumes "calls_ok now s" "settled_once s"
  shows "rows_evolve (calls (db_of (call_schedule env ks (call_start qs now s))))
      (calls (db_of (call_schedule env (ks @ ks') (call_start qs now s)))) \<and>
    (\<forall>i. finals i (db_of (call_schedule env ks (call_start qs now s))) \<le>
       (if ended i (db_of (call_schedule env ks (call_start qs now s))) then 1 else 0))"
proof -
  let ?w = "call_schedule env ks (call_start qs now s)"
  have w: "world_ok ?w" using schedule_ok [OF start_ok [OF assms]] by blast
  have "call_schedule env (ks @ ks') (call_start qs now s) = call_schedule env ks' ?w"
    by (simp add: call_schedule_def)
  moreover have "evo (db_of ?w) (db_of (call_schedule env ks' ?w))" using schedule_ok [OF w] by blast
  moreover have "finals i (db_of ?w) \<le> (if ended i (db_of ?w) then 1 else 0)" for i
    using w by (auto simp: world_ok_def announced_def dest: spec [of _ i])
  ultimately show ?thesis by (simp add: evo_def)
qed

definition sample_env :: call_env where
  "sample_env = \<lparr>ce_ringTimeoutSeconds = 45, ce_maxDurationSeconds = 14400, ce_connectTimeoutSeconds = 30,
     ce_insertDelay = (\<lambda>_. 0), ce_rateMax = 10, ce_rateWindowSeconds = 60, ce_writeChatLog = True, ce_privacy = lonely,
     ce_zego = \<lparr>ze_dev = False, ze_appId = 7, ze_serverSecret = ''s'', ze_expiry = 3600,
       ze_token04 = (\<lambda>_ _ _ _ _. ''t'')\<rparr>,
     ce_getCards = (\<lambda>_. []), ce_search = (\<lambda>_ _. []), ce_findDirect = (\<lambda>_ _. Inr None),
     ce_sendMessage = (\<lambda>_. None), ce_notify = (\<lambda>_. None)\<rparr>"

definition no_calls :: call_db where
  "no_calls = \<lparr>settings_of = (\<lambda>_. None), preferences_of = (\<lambda>_. None), blocks = [],
     settings_cache = (\<lambda>_. None), block_cache = (\<lambda>_. None), privacy_bus = [],
     calls = [], call_seq = 0, rates = (\<lambda>_. None), call_queue = [], call_bus = [], call_sockets = [],
     notifications = [], chat_logs = []\<rparr>"

definition to_user :: "user_id \<Rightarrow> string \<Rightarrow> initiate_input" where
  "to_user v k = \<lparr>ii_calleeId = v, ii_type = VOICE, ii_clientId = k\<rparr>"

definition ringing_db :: call_db where
  "ringing_db = snd (initiate sample_env 1 (to_user 2 ''first'') 0 no_calls)"

lemma no_calls_ok: "calls_ok now no_calls" "settled_once no_calls"
  by (simp_all add: calls_ok_def no_calls_def settled_once_def finals_def)

lemma pre_flight_predicts_refusal_witness:
  "\<exists>s'. initiate sample_env 1 (to_user 2 ''first'') 0 (snd (block_user 2 1 None 0 no_calls)) =
    (Inl (Business ''CALL_BLOCKED''), s') \<and> calls s' = calls (snd (block_user 2 1 None 0 no_calls))"
proof -
  let ?s = "snd (block_user 2 1 None 0 no_calls)"
  have "coherent ?s" by (rule coherent_block) (simp add: coherent_def no_calls_def)
  moreover have "call_verdict sample_env 1 (ii_calleeId (to_user 2 ''first'')) ?s = Some ''CALL_BLOCKED''"
    "isConfigured (ce_zego sample_env)" "findByClientId 1 (ii_clientId (to_user 2 ''first'')) ?s = None"
    "fst (assertNotRateLimited sample_env 1 0 ?s) = Inr ()" by code_simp+
  ultimately show ?thesis
    using pre_flight_predicts_refusal [of ?s 1 "to_user 2 ''first''" sample_env "''CALL_BLOCKED''" 0]
    by (simp add: to_user_def)
qed

text \<open>The caller cancels while the callee answers: both pass their check, the second update finds the call gone.\<close>

lemma calls_settle_once_witness:
  "finals 1 (db_of (call_schedule sample_env
      [(0, 0), (0, 0), (0, 0), (1, 1), (2, 1), (2, 1), (1, 1), (2, 1), (1, 1)]
      (call_start [Place 1 (to_user 2 ''first''), Act 2 1 Do_accept, Act 1 1 Do_cancel] 0 no_calls))) \<le> 1"
  using calls_settle_once [OF no_calls_ok, of sample_env
      "[(0, 0), (0, 0), (0, 0), (1, 1), (2, 1), (2, 1), (1, 1), (2, 1), (1, 1)]"
      "[Place 1 (to_user 2 ''first''), Act 2 1 Do_accept, Act 1 1 Do_cancel]" 0 "[]", THEN conjunct2, THEN spec, of 1]
  by (auto split: if_splits)

text \<open>
  C14: In every schedule every row is well formed: the fields its status calls for are set and no others,
  its times are in order and not in the future - a busy row ends at the instant its request is
  prepared, before the database stamps it -, and its duration is zero unless it connected and never
  more than the seconds between connecting and ending.
\<close>

theorem call_rows_well_formed:
  assumes "calls_ok now s" "settled_once s" "c \<in> set (calls (db_of (call_schedule env ks (call_start qs now s))))"
  shows "row_ok (time_of (call_schedule env ks (call_start qs now s))) c \<and>
    0 \<le> cl_durationSeconds c \<and> (cl_connectedAt c = None \<longrightarrow> cl_durationSeconds c = 0) \<and>
    (\<forall>k t. cl_connectedAt c = Some k \<longrightarrow> cl_endedAt c = Some t \<longrightarrow> 1000 * cl_durationSeconds c \<le> t - k + 500)"
proof -
  let ?w = "call_schedule env ks (call_start qs now s)"
  have "world_ok ?w" using schedule_ok [OF start_ok [OF assms(1,2)]] by blast
  then have r: "row_ok (time_of ?w) c" using assms(3) by (auto simp: world_ok_def calls_ok_def)
  then have d: "duration_ok c" by (simp add: row_ok_def)
  then have "cl_connectedAt c = None \<longrightarrow> cl_durationSeconds c = 0"
    by (auto simp: duration_ok_def split: option.splits)
  moreover have "1000 * cl_durationSeconds c \<le> t - k + 500"
    if "cl_connectedAt c = Some k" "cl_endedAt c = Some t" for k t
  proof -
    have "k \<le> t" using r that by (auto simp: row_ok_def times_ok_def)
    moreover have "cl_durationSeconds c \<le> max 0 ((t - k + 500) div 1000)"
      using d that by (simp add: duration_ok_def durationOf_def)
    ultimately show ?thesis by linarith
  qed
  ultimately show ?thesis using r d by (auto simp: duration_ok_def)
qed

text \<open>Ten seconds of a connected call, hung up by the caller.\<close>

definition talked :: "call_db call_world" where
  "talked = call_schedule sample_env
     [(0, 0), (0, 0), (0, 0), (1, 5000), (1, 0), (1, 0), (2, 1000), (2, 0), (2, 0), (3, 10000), (3, 0), (3, 0)]
     (call_start [Place 1 (to_user 2 ''first''), Act 2 1 Do_accept, Act 2 1 Do_connect, Act 1 1 Do_end] 0 no_calls)"

lemma talked_row: "time_of talked = 16000" "length (calls (db_of talked)) = 1"
  by code_simp+

lemma call_rows_well_formed_witness:
  "row_ok 16000 (calls (db_of talked) ! 0) \<and> cl_durationSeconds (calls (db_of talked) ! 0) = 10"
proof -
  have m: "calls (db_of talked) ! 0 \<in> set (calls (db_of talked))" using talked_row(2) by simp
  have "row_ok (time_of talked) (calls (db_of talked) ! 0)"
    using call_rows_well_formed [OF no_calls_ok m [unfolded talked_def]] unfolding talked_def by blast
  moreover have "cl_durationSeconds (calls (db_of talked) ! 0) = 10" by code_simp
  ultimately show ?thesis by (simp add: talked_row)
qed

section \<open>One call at a time\<close>

text \<open>
  C15: As long as requests and deadlines run one after the other, no user is ever in two live calls.
\<close>

theorem one_live_call_each:
  assumes "calls_ok now s" "settled_once s" "exclusive s"
  shows "length (filter (live_row u) (calls (call_run env qs now s))) \<le> 1"
  using call_run_ok [OF assms] by (simp add: exclusive_def)

lemma no_calls_exclusive: "exclusive no_calls"
  by (simp add: exclusive_def no_calls_def)

lemma one_live_call_each_witness:
  "length (filter (live_row 2) (calls (call_run sample_env
     [(Place 1 (to_user 2 ''first''), 0), (Act 2 1 Do_accept, 1), (Place 3 (to_user 2 ''second''), 1)] 0 no_calls))) \<le> 1"
  by (rule one_live_call_each [OF no_calls_ok no_calls_exclusive])

text \<open>
  Two overlapping placements that both found everyone free put the callee, or a caller with two
  devices, into two live calls: the check and the insert are not one step and nothing else stops it.
\<close>

theorem overlapping_calls_double_book:
  assumes first: "initiate_check env a ia now s = (Inr (Inr False), s1)"
    and second: "initiate_check env b ib now s1 = (Inr (Inr False), s2)"
    and keys: "(a, ii_clientId ia) \<noteq> (b, ii_clientId ib)"
    and shared: "v = ii_calleeId ia \<or> v = a" "v = ii_calleeId ib \<or> v = b"
  shows "2 \<le> length (filter (live_row v) (calls (db_of
    (call_schedule env [(0, 0), (1, 0), (0, 0), (1, 0)] (call_start [Place a ia, Place b ib] now s)))))"
proof -
  let ?ex = "\<lambda>room. now - int (ce_insertDelay env room) + ce_ringTimeoutSeconds env * 1000"
  have q: "calls s1 = calls s" "calls s2 = calls s"
    using quiet.okD [OF quiet_initiate first] quiet.okD [OF quiet_initiate second] by (simp_all add: quiet_def)
  have f: "findByClientId a (ii_clientId ia) s2 = None" "findByClientId b (ii_clientId ib) s2 = None"
    using first second q by (auto simp: initiate_check_def assertRtcConfigured_def bindA_Inr findByClientId_def split: option.splits)
  define c where "c = new_call a ia (call_seq s2) (?ex (call_seq s2)) now (Suc (call_seq s2))"
  define d where "d = new_call b ib (Suc (Suc (call_seq s2))) (?ex (Suc (Suc (call_seq s2)))) now (Suc (Suc (Suc (call_seq s2))))"
  let ?s3 = "s2\<lparr>calls := calls s2 @ [c], call_seq := Suc (Suc (call_seq s2))\<rparr>"
  let ?s4 = "?s3\<lparr>calls := calls ?s3 @ [d], call_seq := Suc (Suc (Suc (Suc (call_seq s2))))\<rparr>"
  have c3: "initiate_commit env a ia False now s2 = (Inr c, ?s3)" using f(1)
    by (simp add: initiate_commit_def draw_uuid_def create_call_def insert_call_def c_def new_call_def findByClientId_def
        act_defs Let_def)
  have "findByClientId b (ii_clientId ib) ?s3 = None" using f(2) keys
    by (auto simp: findByClientId_def find_None_iff c_def new_call_def)
  then have c4: "initiate_commit env b ib False now ?s3 = (Inr d, ?s4)"
    by (simp add: initiate_commit_def draw_uuid_def create_call_def insert_call_def d_def new_call_def findByClientId_def
        act_defs Let_def)
  have "db_of (call_schedule env [(0, 0), (1, 0), (0, 0), (1, 0)] (call_start [Place a ia, Place b ib] now s)) = ?s4"
    by (simp add: call_schedule_def call_start_def world_step_def stage_step_def and_then_def bindA_def returnA_def
        first second c3 c4)
  moreover have "live_row v c" "live_row v d" using shared
    by (auto simp: live_row_def live_status_def in_call_def c_def d_def new_call_def)
  ultimately show ?thesis by simp
qed

lemma overlapping_calls_double_book_witness:
  "2 \<le> length (filter (live_row 3) (calls (db_of (call_schedule sample_env [(0, 0), (1, 0), (0, 0), (1, 0)]
     (call_start [Place 1 (to_user 3 ''one''), Place 2 (to_user 3 ''two'')] 0 no_calls)))))"
proof -
  let ?s1 = "snd (initiate_check sample_env 1 (to_user 3 ''one'') 0 no_calls)"
  let ?s2 = "snd (initiate_check sample_env 2 (to_user 3 ''two'') 0 ?s1)"
  have ok: "fst (initiate_check sample_env 1 (to_user 3 ''one'') 0 no_calls) = Inr (Inr False)"
    "fst (initiate_check sample_env 2 (to_user 3 ''two'') 0 ?s1) = Inr (Inr False)" by code_simp+
  show ?thesis
  proof (rule overlapping_calls_double_book)
    show "initiate_check sample_env 1 (to_user 3 ''one'') 0 no_calls = (Inr (Inr False), ?s1)"
      using ok(1) by (metis prod.collapse)
    show "initiate_check sample_env 2 (to_user 3 ''two'') 0 ?s1 = (Inr (Inr False), ?s2)"
      using ok(2) by (metis prod.collapse)
  qed (simp_all add: to_user_def)
qed

text \<open>
  C32: Placing a call again with the client key of a call already placed, at any time and whatever has
  become of the call since, answers that call and changes nothing: no second row, no second ring, no
  rate token.
\<close>

theorem placed_call_retry_is_free:
  assumes "calls_ok now s" "settled_once s" "initiate env u inp now s = (Inr ss, s')"
  shows "\<exists>again. initiate env u inp later (call_run env qs now s') = (Inr again, call_run env qs now s') \<and>
    map_option cv_id (se_call again) = map_option cv_id (se_call ss)"
proof -
  have s': "s' = do_request env (Place u inp) now s" using assms(3) by simp
  note ok = do_request_ok [OF assms(1,2), of env "Place u inp", folded s']
  obtain c where c: "u \<noteq> ii_calleeId inp" "isConfigured (ce_zego env)" "c \<in> set (calls s')"
    "call_key c = (u, ii_clientId inp)" "map_option cv_id (se_call ss) = Some (cl_id c)"
    using initiate_row [OF assms(3)] by blast
  obtain t where t: "calls_ok t (call_run env qs now s')" "evo s' (call_run env qs now s')"
    using call_run_evo [OF ok(1,2)] by blast
  obtain d where d: "d \<in> set (calls (call_run env qs now s'))" "cl_id d = cl_id c" "call_key d = call_key c"
    using evo_key [OF t(2) c(3)] by blast
  have "findByClientId u (ii_clientId inp) (call_run env qs now s') = Some d"
    using find_key [OF t(1) d(1)] c(4) d(3) by simp
  from initiate_again [OF c(1,2) this, of later] show ?thesis unfolding c(5) d(2) .
qed

lemma placed_call_retry_is_free_witness:
  "\<exists>again. initiate sample_env 1 (to_user 2 ''first'') 90000 (call_run sample_env [(Act 2 1 Do_reject, 500)] 0 ringing_db) =
    (Inr again, call_run sample_env [(Act 2 1 Do_reject, 500)] 0 ringing_db) \<and> map_option cv_id (se_call again) = Some 1"
proof -
  obtain ss where i: "initiate sample_env 1 (to_user 2 ''first'') 0 no_calls = (Inr ss, ringing_db)"
    "map_option cv_id (se_call ss) = Some 1"
  proof -
    have "case fst (initiate sample_env 1 (to_user 2 ''first'') 0 no_calls) of
        Inl e \<Rightarrow> False | Inr ss \<Rightarrow> map_option cv_id (se_call ss) = Some 1" by code_simp
    then show ?thesis using that
      by (cases "initiate sample_env 1 (to_user 2 ''first'') 0 no_calls") (auto simp: ringing_db_def split: sum.splits)
  qed
  show ?thesis
    using placed_call_retry_is_free [OF no_calls_ok i(1), of 90000 "[(Act 2 1 Do_reject, 500)]"] unfolding i(2) .
qed

section \<open>Deadlines\<close>

text \<open>
  C33: With working notifications and at most a batch of each kind, one sweep settles exactly the overdue
  calls: those ringing past their window as MISSED, those accepted and not connected in time as FAILED,
  those connected past the ceiling as ENDED with their duration; no other row changes.
\<close>

theorem sweep_settles_overdue:
  assumes "calm env" "distinct (map cl_id (calls s))" "overdue (late_ring now) s \<le> reap_batch"
    "overdue (late_connect env now) s \<le> reap_batch" "overdue (late_end env now) s \<le> reap_batch"
  shows "\<exists>n s'. reap env now s = (Inr n, s') \<and> stripped s' = map (reaped_row env now) (stripped s)"
  by (rule reap_run [OF assms])

lemma sweep_settles_overdue_witness:
  "\<exists>n s'. reap sample_env 45000 ringing_db = (Inr n, s') \<and> map cl_status (stripped s') = [Missed]"
proof -
  have "calm sample_env" by (simp add: calm_def sample_env_def)
  moreover have "distinct (map cl_id (calls ringing_db))" "overdue (late_ring 45000) ringing_db \<le> reap_batch"
    "overdue (late_connect sample_env 45000) ringing_db \<le> reap_batch"
    "overdue (late_end sample_env 45000) ringing_db \<le> reap_batch" by code_simp+
  ultimately obtain n s' where "reap sample_env 45000 ringing_db = (Inr n, s')"
    "stripped s' = map (reaped_row sample_env 45000) (stripped ringing_db)"
    using sweep_settles_overdue by blast
  moreover have "map cl_status (map (reaped_row sample_env 45000) (stripped ringing_db)) = [Missed]" by code_simp
  ultimately show ?thesis by metis
qed

text \<open>
  With the notification service failing, a sweep throws at the first ringing call it settles, and
  every other overdue call stays live.
\<close>

theorem failed_notice_stops_sweep:
  assumes down: "\<And>n. ce_notify env n = Some e" and ids: "distinct (map cl_id (calls s))"
    and late: "filter (late_ring now) (calls s) = c # cs"
  shows "\<exists>s'. reap env now s = (Inl e, s') \<and>
    stripped s' = map (\<lambda>d. if cl_id d = cl_id c then terminated missed_input now d else d) (stripped s)"
proof -
  have c: "c \<in> set (calls s)" "cl_status c = Ringing"
    using arg_cong [OF late, of set] by (auto simp: late_ring_def)
  obtain d where d: "find_call (cl_id c) s = Some d"
    using c(1) by (cases "find_call (cl_id c) s") (auto simp: find_call_def find_None_iff)
  then have "d = c" using ids c(1) find_call_Some [OF d] by (auto simp: distinct_map dest: inj_onD)
  then obtain s' where s': "expireRinging env (cl_id c) now s = (Inl e, s')"
    "stripped s' = map (\<lambda>d. if cl_id d = cl_id c \<and> cl_status d = Ringing then terminated missed_input now d else d) (stripped s)"
    using expire_down [OF down, of "cl_id c" s d] d c(2) by blast
  have "findExpiredRinging now reap_batch s = c # take 99 cs"
    using late by (simp add: findExpiredRinging_def late_ring_def [abs_def] reap_batch_def)
  then have "reap env now s = (Inl e, s')" using s'(1) by (simp add: reap_def bindA_def getsA_def)
  moreover have "stripped s' = map (\<lambda>d. if cl_id d = cl_id c then terminated missed_input now d else d) (stripped s)"
    unfolding s'(2)
  proof (rule map_cong)
    fix x assume "x \<in> set (stripped s)"
    then have "x = strip c" if "cl_id x = cl_id c" using find_call_strip [OF ids d _ that] \<open>d = c\<close> by simp
    then show "(if cl_id x = cl_id c \<and> cl_status x = Ringing then terminated missed_input now x else x) =
        (if cl_id x = cl_id c then terminated missed_input now x else x)" using c(2) by auto
  qed simp
  ultimately show ?thesis by blast
qed

definition push_down :: call_env where
  "push_down = sample_env\<lparr>ce_notify := (\<lambda>_. Some (OtherError ''push''))\<rparr>"

definition two_ringing :: call_db where
  "two_ringing = snd (initiate sample_env 3 (to_user 4 ''second'') 0 ringing_db)"

lemma failed_notice_stops_sweep_witness:
  "\<exists>s'. reap push_down 45000 two_ringing = (Inl (OtherError ''push''), s') \<and>
    map cl_status (stripped s') = [Missed, Ringing]"
proof -
  let ?late = "filter (late_ring 45000) (calls two_ringing)"
  have l: "?late = hd ?late # tl ?late" by (rule list.collapse [symmetric]) code_simp
  have dn: "ce_notify push_down n = Some (OtherError ''push'')" for n by (simp add: push_down_def)
  have "distinct (map cl_id (calls two_ringing))" by code_simp
  from failed_notice_stops_sweep [OF dn this l]
  obtain s' where s': "reap push_down 45000 two_ringing = (Inl (OtherError ''push''), s')"
    "stripped s' = map (\<lambda>d. if cl_id d = cl_id (hd ?late) then terminated missed_input 45000 d else d) (stripped two_ringing)"
    by blast
  have "cl_id (hd ?late) = 1" by code_simp
  then have "map cl_status (stripped s') =
      map (\<lambda>(i, st). if i = 1 then Missed else st) (map (\<lambda>d. (cl_id d, cl_status d)) (stripped two_ringing))"
    unfolding s'(2) map_map by (intro map_cong) auto
  also have "map (\<lambda>d. (cl_id d, cl_status d)) (stripped two_ringing) = [(1, Ringing), (3, Ringing)]" by code_simp
  finally show ?thesis using s'(1) by auto
qed

text \<open>
  An answer that wins its update, and is overtaken by the caller's hang-up before it re-reads the
  row, hands the callee a token for the room of a call that is over and arms its connect deadline.
\<close>

theorem answer_hands_out_dead_room:
  assumes row: "find_call i s = Some c" "cl_status c = Ringing" "cl_callerId c = v" "cl_calleeId c = u"
    and rtc: "isConfigured (ce_zego env)" and calm: "calm env"
  shows "\<exists>ss cr d. snd (requests_of (call_schedule env [(0, 0), (0, 0), (1, 0), (1, 0), (0, 0)]
      (call_start [Act u i Do_accept, Act v i Do_end] now s)) ! 0) = Over (Inr (Session ss)) \<and>
    se_credentials ss = Some cr \<and> cr_zegoRoomId cr = cl_zegoRoomId c \<and>
    find_call i (db_of (call_schedule env [(0, 0), (0, 0), (1, 0), (1, 0), (0, 0)]
      (call_start [Act u i Do_accept, Act v i Do_end] now s))) = Some d \<and> cl_status d = Ended"
proof -
  let ?accept = "\<lambda>c. c\<lparr>cl_status := Accepted, cl_acceptedAt := Some now\<rparr>"
  let ?t = "hangup_input (Some v) (durationOf (?accept c) now)"
  let ?d = "terminated ?t now (?accept c)"
  define s1 where "s1 = s\<lparr>calls := map (\<lambda>c. if matches i [Ringing] c then ?accept c else c) (calls s)\<rparr>"
  define s2 where "s2 = s1\<lparr>calls := map (\<lambda>c. if matches i hangup_from c then terminated ?t now c else c) (calls s1)\<rparr>"
  have id: "cl_id c = i" "c \<in> set (calls s)" using find_call_Some [OF row(1)] by auto
  have f1: "find_call i s1 = Some (?accept c)"
    using find_transition [OF row(1), of ?accept "[Ringing]"] id(1) row(2) by (simp add: s1_def)
  have f2: "find_call i s2 = Some ?d"
    using find_transition [OF f1, of "terminated ?t now" hangup_from] id(1)
    by (simp add: s2_def matches_def hangup_from_def)
  have a1: "stage_step env (Act u i Do_accept) Waiting now s = (Committing Move_accept, s)"
    using row by (simp add: stage_step_def reply_or_def accept_check_def requireCall_def assertCallee_def assertStatus_def
        bindA_def getsA_def guardA_def returnA_def)
  have "markAccepted i now s = (Inr True, s1)"
    using id row(2) by (auto simp: markAccepted_def transition_def s1_def)
  then have a2: "stage_step env (Act u i Do_accept) (Committing Move_accept) now s = (Settling Move_accept, s1)"
    by (simp add: stage_step_def and_then_def accept_commit_def bindA_def returnA_def)
  have b1: "stage_step env (Act v i Do_end) Waiting now s1 = (Committing (Move_hangup (durationOf (?accept c) now)), s1)"
    using f1 row(3) by (simp add: stage_step_def and_then_def end_check_def requireCall_def terminal_def bindA_def
        getsA_def guardA_def returnA_def)
  have "?accept c \<in> set (calls s1)" using find_call_Some [OF f1] by simp
  then have "\<exists>c \<in> set (calls s1). matches i hangup_from c"
    using id(1) by (intro bexI [of _ "?accept c"]) (simp_all add: matches_def hangup_from_def)
  then have "terminate i hangup_from ?t now s1 = (Inr True, s2)" unfolding terminate_def transition_def s2_def by simp
  then have b2: "stage_step env (Act v i Do_end) (Committing (Move_hangup (durationOf (?accept c) now))) now s1 =
      (Settling (Move_hangup (durationOf (?accept c) now)), s2)"
    by (simp add: stage_step_def reply_or_def hangup_commit_def bindA_def returnA_def)
  have "cl_calleeId ?d = u" "cl_zegoRoomId ?d = cl_zegoRoomId c" using row(4) by (simp_all add: terminated_def)
  then obtain ss cr s3 where a3: "accept_settle env u i s2 = (Inr ss, s3)" "se_credentials ss = Some cr"
    "cr_zegoRoomId cr = cl_zegoRoomId c" "stripped s3 = stripped s2"
    using accept_settle_calm [OF calm rtc f2] by metis
  have b3: "stage_step env (Act u i Do_accept) (Settling Move_accept) now s2 = (Over (Inr (Session ss)), s3)"
    using a3(1) by (simp add: stage_step_def and_then_def bindA_def returnA_def)
  obtain d where d: "find_call i s3 = Some d" "strip d = strip ?d"
    using find_stripped [OF a3(4), of i] unfolding f2 by (cases "find_call i s3") auto
  have "cl_status d = Ended" using arg_cong [OF d(2), of cl_status] by (simp add: terminated_def hangup_input_def)
  moreover have "call_schedule env [(0, 0), (0, 0), (1, 0), (1, 0), (0, 0)]
      (call_start [Act u i Do_accept, Act v i Do_end] now s) =
    \<lparr>requests_of = [(Act u i Do_accept, Over (Inr (Session ss))),
       (Act v i Do_end, Settling (Move_hangup (durationOf (?accept c) now)))], time_of = now, db_of = s3\<rparr>"
    by (simp add: call_schedule_def call_start_def world_step_def a1 a2 b1 b2 b3 del: stage_step_over)
  ultimately show ?thesis using a3(2,3) d(1) by auto
qed

lemma answer_hands_out_dead_room_witness:
  "\<exists>ss cr d. snd (requests_of (call_schedule sample_env [(0, 0), (0, 0), (1, 0), (1, 0), (0, 0)]
      (call_start [Act 2 1 Do_accept, Act 1 1 Do_end] 100 ringing_db)) ! 0) = Over (Inr (Session ss)) \<and>
    se_credentials ss = Some cr \<and> cr_zegoRoomId cr = 0 \<and>
    find_call 1 (db_of (call_schedule sample_env [(0, 0), (0, 0), (1, 0), (1, 0), (0, 0)]
      (call_start [Act 2 1 Do_accept, Act 1 1 Do_end] 100 ringing_db))) = Some d \<and> cl_status d = Ended"
proof -
  let ?c = "the (find_call 1 ringing_db)"
  have row: "find_call 1 ringing_db = Some ?c" by (rule option.collapse [symmetric]) code_simp
  have c: "cl_status ?c = Ringing" "cl_callerId ?c = 1" "cl_calleeId ?c = 2" "cl_zegoRoomId ?c = 0" by code_simp+
  have rtc: "isConfigured (ce_zego sample_env)" by code_simp
  have calm: "calm sample_env" by (simp add: calm_def sample_env_def)
  show ?thesis using answer_hands_out_dead_room [OF row c(1,2,3) rtc calm, of 100] unfolding c(4) .
qed

end
