(* ===== verification/Backpack.thy ===== *)
theory Backpack
  imports WalletLaws
begin

text \<open>
  The backpack (src/modules/backpack): a user's items of rewards and cosmetics. A grant is idempotent on
  its \<open>grantKey\<close> and merges into an unexpired item of the same reference; equipping keeps one equipped
  item per type under the user's lock; a transfer moves an item or merges it into the recipient's. The
  tables extend the wallet's, because rewards are granted in the transactions that pay coins. Times
  are milliseconds; \<open>now\<close> is the clock. The profile cache these handlers invalidate and the item metadata
  are not modelled; the reads are in BackpackListing.
\<close>

section \<open>Tables\<close>

datatype item_type = FRAME | THEME | ENTRANCE_EFFECT | BADGE | DECORATION | OTHER_ITEM

datatype item_source =
    FROM_AGENCY | FROM_TREASURE_BOX | FROM_ROCKET | FROM_GIFT | FROM_EVENT | FROM_ATTENDANCE
  | FROM_ADMIN | FROM_PURCHASE

record item =
  it_id :: nat
  it_userId :: uid
  it_type :: item_type
  it_refId :: "nat option"
  it_name :: string
  it_source :: item_source
  it_quantity :: int
  it_equipped :: bool
  it_transferable :: bool
  it_grantKey :: string
  it_acquiredAt :: int
  it_expiresAt :: "int option"

record item_log =
  il_userId :: uid
  il_action :: string
  il_itemId :: "nat option"

record cosmetic =
  cs_id :: nat
  cs_type :: item_type
  cs_name :: string
  cs_mediaUrl :: string
  cs_thumbnailUrl :: "string option"
  cs_price :: int
  cs_enabled :: bool
  cs_isPremium :: bool

record user_cosmetic =
  uc_id :: nat
  uc_userId :: uid
  uc_cosmeticId :: nat
  uc_equipped :: bool
  uc_expiresAt :: "int option"

datatype item_event =
    ItemGranted uid nat item_type string item_source
  | ItemEquipped uid nat item_type
  | ItemUnequipped uid nat item_type
  | ItemTransferred uid uid nat nat

record item_db = wdb +
  items :: "item list"
  item_logs :: "item_log list"
  cosmetics :: "cosmetic list"
  user_cosmetics :: "user_cosmetic list"
  item_bus :: "item_event list"

section \<open>Repository\<close>

lemma find_app: "List.find P (xs @ ys) = (case List.find P xs of None \<Rightarrow> List.find P ys | Some x \<Rightarrow> Some x)"
  by (induction xs) auto

definition item_by :: "nat \<Rightarrow> ('z item_db_scheme) \<Rightarrow> item option" where
  "item_by i s = List.find (\<lambda>it. it_id it = i) (items s)"

definition unexpired :: "int \<Rightarrow> int option \<Rightarrow> bool" where
  "unexpired now e \<longleftrightarrow> (case e of None \<Rightarrow> True | Some t \<Rightarrow> now < t)"

definition findByGrantKey :: "string \<Rightarrow> ('z item_db_scheme) \<Rightarrow> item option" where
  "findByGrantKey k s = List.find (\<lambda>it. it_grantKey it = k) (items s)"

definition findByUserIdAndRefId :: "uid \<Rightarrow> nat \<Rightarrow> int \<Rightarrow> ('z item_db_scheme) \<Rightarrow> item option" where
  "findByUserIdAndRefId u r now s =
     (case sort_key (\<lambda>it. - it_acquiredAt it)
         (filter (\<lambda>it. it_userId it = u \<and> it_refId it = Some r \<and> unexpired now (it_expiresAt it)) (items s)) of
        [] \<Rightarrow> None | it # _ \<Rightarrow> Some it)"

definition updateItem :: "nat \<Rightarrow> (item \<Rightarrow> item) \<Rightarrow> ('z item_db_scheme, item) act" where
  "updateItem i f s =
     (case item_by i s of
        None \<Rightarrow> (Inl (OtherError ''P2025''), s)
      | Some it \<Rightarrow> (Inr (f it), s\<lparr>items := map (\<lambda>x. if it_id x = i then f x else x) (items s)\<rparr>))"

definition deleteItem :: "nat \<Rightarrow> ('z item_db_scheme, unit) act" where
  "deleteItem i s =
     (case item_by i s of
        None \<Rightarrow> (Inl (OtherError ''P2025''), s)
      | Some it \<Rightarrow> (Inr (), s\<lparr>items := filter (\<lambda>x. it_id x \<noteq> i) (items s)\<rparr>))"

text \<open>The unique \<open>grantKey\<close> makes a second insert throw.\<close>

definition create_item :: "item \<Rightarrow> ('z item_db_scheme, item) act" where
  "create_item it s =
     (if findByGrantKey (it_grantKey it) s \<noteq> None then (Inl P2002, s)
      else let row = it\<lparr>it_id := next_id s\<rparr>
           in (Inr row, s\<lparr>items := items s @ [row], next_id := Suc (next_id s)\<rparr>))"

definition log_item :: "uid \<Rightarrow> string \<Rightarrow> nat option \<Rightarrow> ('z item_db_scheme, unit) act" where
  "log_item u action i = modifyA (\<lambda>s. s\<lparr>item_logs := item_logs s @
     [\<lparr>il_userId = u, il_action = action, il_itemId = i\<rparr>]\<rparr>)"

definition publish_item :: "item_event \<Rightarrow> ('z item_db_scheme, unit) act" where
  "publish_item e = modifyA (\<lambda>s. s\<lparr>item_bus := item_bus s @ [e]\<rparr>)"

text \<open>The catalogue entry and the item every user has: the default frame, equipped when no frame is.\<close>

definition DEFAULT_FRAME :: nat where
  "DEFAULT_FRAME = 0"

definition default_frame_key :: "uid \<Rightarrow> string" where
  "default_frame_key u = ''default-pink-frame:'' @ show_nat u"

definition ensureDefaultPinkFrame :: "uid \<Rightarrow> int \<Rightarrow> ('z item_db_scheme, unit) act" where
  "ensureDefaultPinkFrame u now =
     bindA (modifyA (\<lambda>s. if \<exists>c \<in> set (cosmetics s). cs_id c = DEFAULT_FRAME then s
       else s\<lparr>cosmetics := cosmetics s @ [\<lparr>cs_id = DEFAULT_FRAME, cs_type = FRAME, cs_name = ''Default Pink Frame'',
              cs_mediaUrl = ''default_pink_frame'', cs_thumbnailUrl = Some ''default_pink_frame'', cs_price = 0,
              cs_enabled = True, cs_isPremium = False\<rparr>]\<rparr>)) (\<lambda>_.
     bindA (getsA (findByGrantKey (default_frame_key u))) (\<lambda>found.
     if found \<noteq> None then returnA ()
     else bindA (getsA (\<lambda>s. \<exists>it \<in> set (items s). it_userId it = u \<and> it_type it = FRAME \<and> it_equipped it)) (\<lambda>active.
          bindA (create_item \<lparr>it_id = 0, it_userId = u, it_type = FRAME, it_refId = Some DEFAULT_FRAME,
              it_name = ''Default Pink Frame'', it_source = FROM_ADMIN, it_quantity = 1, it_equipped = \<not> active,
              it_transferable = False, it_grantKey = default_frame_key u, it_acquiredAt = now,
              it_expiresAt = None\<rparr>) (\<lambda>_. returnA ()))))"

definition getItem :: "nat \<Rightarrow> int \<Rightarrow> ('z item_db_scheme, item option) act" where
  "getItem i now =
     bindA (getsA (item_by i)) (\<lambda>found.
     case found of
       None \<Rightarrow> returnA None
     | Some it \<Rightarrow> bindA (ensureDefaultPinkFrame (it_userId it) now) (\<lambda>_. returnA (Some it)))"

definition mirrored :: "item_type \<Rightarrow> bool" where
  "mirrored ty \<longleftrightarrow> ty \<in> {FRAME, THEME, ENTRANCE_EFFECT}"

definition setEquipped :: "nat \<Rightarrow> bool \<Rightarrow> ('z item_db_scheme, unit) act" where
  "setEquipped i on =
     bindA (updateItem i (\<lambda>it. it\<lparr>it_equipped := on\<rparr>)) (\<lambda>it.
     case it_refId it of
       None \<Rightarrow> returnA ()
     | Some r \<Rightarrow>
         if mirrored (it_type it)
         then modifyA (\<lambda>s. s\<lparr>user_cosmetics := map (\<lambda>u. if uc_userId u = it_userId it \<and> uc_cosmeticId u = r
                then u\<lparr>uc_equipped := on\<rparr> else u) (user_cosmetics s)\<rparr>)
         else returnA ())"

definition unequipType :: "uid \<Rightarrow> item_type \<Rightarrow> ('z item_db_scheme, unit) act" where
  "unequipType u ty =
     bindA (modifyA (\<lambda>s. s\<lparr>items := map (\<lambda>it. if it_userId it = u \<and> it_type it = ty
       then it\<lparr>it_equipped := False\<rparr> else it) (items s)\<rparr>)) (\<lambda>_.
     if mirrored ty
     then modifyA (\<lambda>s. s\<lparr>user_cosmetics := map (\<lambda>c. if uc_userId c = u \<and>
            uc_cosmeticId c \<in> cs_id ` set (filter (\<lambda>k. cs_type k = ty) (cosmetics s))
            then c\<lparr>uc_equipped := False\<rparr> else c) (user_cosmetics s)\<rparr>)
     else returnA ())"

text \<open>
  The two writes of the mirror are each followed by \<open>.catch(() => null)\<close>: a reference without a row of the
  catalogue, which the foreign key refuses, leaves no row.
\<close>

definition syncUserCosmeticsOnTransfer ::
  "uid \<Rightarrow> uid \<Rightarrow> nat \<Rightarrow> int option \<Rightarrow> ('z item_db_scheme, unit) act" where
  "syncUserCosmeticsOnTransfer u v r expires =
     bindA (modifyA (\<lambda>s. s\<lparr>user_cosmetics :=
       filter (\<lambda>c. \<not> (uc_userId c = u \<and> uc_cosmeticId c = r)) (user_cosmetics s)\<rparr>)) (\<lambda>_.
     modifyA (\<lambda>s. if \<exists>c \<in> set (user_cosmetics s). uc_userId c = v \<and> uc_cosmeticId c = r
       then s\<lparr>user_cosmetics := map (\<lambda>c. if uc_userId c = v \<and> uc_cosmeticId c = r
              then c\<lparr>uc_expiresAt := expires\<rparr> else c) (user_cosmetics s)\<rparr>
       else if r \<notin> cs_id ` set (cosmetics s) then s
       else s\<lparr>user_cosmetics := user_cosmetics s @ [\<lparr>uc_id = next_id s, uc_userId = v, uc_cosmeticId = r,
              uc_equipped = False, uc_expiresAt = expires\<rparr>], next_id := Suc (next_id s)\<rparr>))"

definition transfer_item :: "nat \<Rightarrow> uid \<Rightarrow> ('z item_db_scheme, item) act" where
  "transfer_item i v = updateItem i (\<lambda>it. it\<lparr>it_userId := v, it_equipped := False, it_transferable := False,
     it_source := FROM_GIFT\<rparr>)"

definition ownsRef :: "uid \<Rightarrow> nat \<Rightarrow> int \<Rightarrow> ('z item_db_scheme, bool) act" where
  "ownsRef u r now =
     bindA (if r = DEFAULT_FRAME then ensureDefaultPinkFrame u now else returnA ()) (\<lambda>_.
     getsA (\<lambda>s. (\<exists>it \<in> set (items s). it_userId it = u \<and> it_refId it = Some r \<and> unexpired now (it_expiresAt it)) \<or>
       (\<exists>c \<in> set (user_cosmetics s). uc_userId c = u \<and> uc_cosmeticId c = r \<and> unexpired now (uc_expiresAt c))))"

section \<open>Service\<close>

text \<open>\<open>gi_expiresAt\<close>: \<open>None\<close> is undefined, \<open>Some None\<close> is null.\<close>

record grant_input =
  gi_userId :: uid
  gi_type :: item_type
  gi_name :: string
  gi_source :: item_source
  gi_refId :: "nat option"
  gi_quantity :: "int option"
  gi_transferable :: "bool option"
  gi_grantKey :: string
  gi_expiresAt :: "int option option"

definition or_one :: "int option \<Rightarrow> int" where
  "or_one q = (case q of None \<Rightarrow> 1 | Some n \<Rightarrow> n)"

definition merged_expiry :: "int option option \<Rightarrow> int option \<Rightarrow> int \<Rightarrow> int option" where
  "merged_expiry given old now =
     (if given = Some None \<or> old = None then None
      else case given of
        None \<Rightarrow> old
      | Some None \<Rightarrow> None
      | Some (Some t) \<Rightarrow>
          (case old of
             None \<Rightarrow> None
           | Some e \<Rightarrow> Some ((if now < e then e else now) + (if 0 < t - now then t - now else 0))))"

definition fresh_item :: "grant_input \<Rightarrow> int \<Rightarrow> item" where
  "fresh_item inp now =
     \<lparr>it_id = 0, it_userId = gi_userId inp, it_type = gi_type inp, it_refId = gi_refId inp, it_name = gi_name inp,
      it_source = gi_source inp, it_quantity = or_one (gi_quantity inp), it_equipped = False,
      it_transferable = (gi_transferable inp = Some True), it_grantKey = gi_grantKey inp, it_acquiredAt = now,
      it_expiresAt = (case gi_expiresAt inp of None \<Rightarrow> None | Some e \<Rightarrow> e)\<rparr>"

definition grant_merged :: "grant_input \<Rightarrow> item \<Rightarrow> int \<Rightarrow> ('z item_db_scheme, nat \<times> bool) act" where
  "grant_merged inp old now =
     bindA (updateItem (it_id old) (\<lambda>it. it\<lparr>it_expiresAt := merged_expiry (gi_expiresAt inp) (it_expiresAt old) now,
         it_transferable := (if gi_source inp = FROM_GIFT \<or> gi_transferable inp = Some False then False
                             else it_transferable old),
         it_quantity := it_quantity old + or_one (gi_quantity inp)\<rparr>)) (\<lambda>row.
     bindA (log_item (gi_userId inp) ''granted'' (Some (it_id row))) (\<lambda>_.
     bindA (publish_item (ItemGranted (it_userId row) (it_id row) (it_type row) (it_name row) (gi_source inp))) (\<lambda>_.
     returnA (it_id row, True))))"

definition grant :: "grant_input \<Rightarrow> int \<Rightarrow> ('z item_db_scheme, nat \<times> bool) act" where
  "grant inp now =
     bindA (getsA (findByGrantKey (gi_grantKey inp))) (\<lambda>byKey.
     case byKey of
       Some it \<Rightarrow> returnA (it_id it, True)
     | None \<Rightarrow>
         bindA (getsA (\<lambda>s. Option.bind (gi_refId inp) (\<lambda>r. findByUserIdAndRefId (gi_userId inp) r now s))) (\<lambda>owned.
         case owned of
           Some old \<Rightarrow> grant_merged inp old now
         | None \<Rightarrow>
             bindA (create_item (fresh_item inp now)) (\<lambda>row.
             bindA (log_item (gi_userId inp) ''granted'' (Some (it_id row))) (\<lambda>_.
             bindA (publish_item (ItemGranted (it_userId row) (it_id row) (it_type row) (it_name row) (it_source row))) (\<lambda>_.
             returnA (it_id row, False))))))"

definition ownedItem :: "uid \<Rightarrow> nat \<Rightarrow> int \<Rightarrow> ('z item_db_scheme, item) act" where
  "ownedItem u i now =
     bindA (getItem i now) (\<lambda>found.
     case found of
       None \<Rightarrow> throwA (Business ''BACKPACK_ITEM_NOT_FOUND'')
     | Some it \<Rightarrow> bindA (guardA (it_userId it = u) (Business ''BACKPACK_ITEM_NOT_FOUND'')) (\<lambda>_. returnA it))"

definition EQUIPPABLE_TYPES :: "item_type list" where
  "EQUIPPABLE_TYPES = [FRAME, THEME, ENTRANCE_EFFECT, BADGE]"

definition equip :: "uid \<Rightarrow> nat \<Rightarrow> int \<Rightarrow> ('z item_db_scheme, unit) act" where
  "equip u i now =
     bindA (ownedItem u i now) (\<lambda>it.
     bindA (guardA (it_type it \<in> set EQUIPPABLE_TYPES) (Business ''BACKPACK_ITEM_NOT_EQUIPPABLE'')) (\<lambda>_.
     bindA (guardA (unexpired now (it_expiresAt it)) (Business ''BACKPACK_ITEM_EXPIRED'')) (\<lambda>_.
     bindA (unequipType u (it_type it)) (\<lambda>_.
     bindA (setEquipped i True) (\<lambda>_.
     bindA (log_item u ''equipped'' (Some i)) (\<lambda>_.
     publish_item (ItemEquipped u i (it_type it))))))))"

definition unequip :: "uid \<Rightarrow> nat \<Rightarrow> int \<Rightarrow> ('z item_db_scheme, unit) act" where
  "unequip u i now =
     bindA (ownedItem u i now) (\<lambda>it.
     bindA (setEquipped i False) (\<lambda>_.
     bindA (log_item u ''unequipped'' (Some i)) (\<lambda>_.
     publish_item (ItemUnequipped u i (it_type it)))))"

definition transferred_expiry :: "int option \<Rightarrow> int option \<Rightarrow> int \<Rightarrow> int option" where
  "transferred_expiry given old now =
     (case (given, old) of
        (Some t, Some e) \<Rightarrow> Some ((if now < e then e else now) + (if 0 < t - now then t - now else 0))
      | _ \<Rightarrow> None)"

definition transfer_logs :: "uid \<Rightarrow> uid \<Rightarrow> nat \<Rightarrow> nat \<Rightarrow> ('z item_db_scheme, unit) act" where
  "transfer_logs u v i j =
     bindA (log_item u ''transferred_out'' (Some i)) (\<lambda>_.
     bindA (log_item v ''transferred_in'' (Some j)) (\<lambda>_.
     publish_item (ItemTransferred u v i j)))"

definition transfer_merged :: "uid \<Rightarrow> uid \<Rightarrow> item \<Rightarrow> item \<Rightarrow> nat \<Rightarrow> int \<Rightarrow> ('z item_db_scheme, unit) act" where
  "transfer_merged u v it old r now =
     (let e = transferred_expiry (it_expiresAt it) (it_expiresAt old) now
      in bindA (updateItem (it_id old) (\<lambda>x. x\<lparr>it_expiresAt := e, it_transferable := False,
             it_source := FROM_GIFT, it_quantity := it_quantity old + it_quantity it\<rparr>)) (\<lambda>_.
         bindA (deleteItem (it_id it)) (\<lambda>_.
         bindA (syncUserCosmeticsOnTransfer u v r e) (\<lambda>_.
         transfer_logs u v (it_id it) (it_id old)))))"

definition transfer :: "uid \<Rightarrow> nat \<Rightarrow> uid \<Rightarrow> int \<Rightarrow> ('z item_db_scheme, unit) act" where
  "transfer u i v now =
     bindA (guardA (u \<noteq> v) (Business ''CANNOT_TRANSFER_SELF'')) (\<lambda>_.
     bindA (ownedItem u i now) (\<lambda>it.
     bindA (guardA (it_transferable it) (Business ''BACKPACK_ITEM_NOT_TRANSFERABLE'')) (\<lambda>_.
     bindA (guardA (unexpired now (it_expiresAt it)) (Business ''BACKPACK_ITEM_EXPIRED'')) (\<lambda>_.
     case it_refId it of
       Some r \<Rightarrow>
         bindA (getsA (findByUserIdAndRefId v r now)) (\<lambda>owned.
         case owned of
           Some old \<Rightarrow> transfer_merged u v it old r now
         | None \<Rightarrow>
             bindA (transfer_item i v) (\<lambda>moved.
             bindA (syncUserCosmeticsOnTransfer u v r (it_expiresAt it)) (\<lambda>_.
             transfer_logs u v i (it_id moved))))
     | None \<Rightarrow>
         bindA (transfer_item i v) (\<lambda>moved.
         transfer_logs u v i (it_id moved))))))"

end
