(* ===== verification/BackpackListing.thy ===== *)
theory BackpackListing
  imports Backpack
begin

text \<open>
  Reading a backpack (backpack.repository.ts, listItems and findEquippedByType). A listing first copies the
  user's live cosmetics into items and cleans the items up: expired ones, ones whose catalogue entry is gone
  or disabled, and older duplicates are deleted. \<open>localUrl\<close> tells of an item's identifier whether the media URL in its
  metadata is a local one, since the metadata is not modelled. Rows of a query without an order come in
  the order of their insertion; names are ASCII.
\<close>

section \<open>Cosmetics into items\<close>

definition user_cosmetic_key :: "nat \<Rightarrow> string" where
  "user_cosmetic_key i = ''user-cosmetic:'' @ show_nat i"

definition cosmetic_by :: "nat \<Rightarrow> ('z item_db_scheme) \<Rightarrow> cosmetic option" where
  "cosmetic_by r s = List.find (\<lambda>c. cs_id c = r) (cosmetics s)"

definition live_cosmetics :: "uid \<Rightarrow> int \<Rightarrow> ('z item_db_scheme) \<Rightarrow> (user_cosmetic \<times> cosmetic) list" where
  "live_cosmetics u now s =
     List.map_filter (\<lambda>uc. case cosmetic_by (uc_cosmeticId uc) s of
         None \<Rightarrow> None
       | Some c \<Rightarrow> if uc_userId uc = u \<and> cs_enabled c \<and> unexpired now (uc_expiresAt uc) then Some (uc, c) else None)
     (user_cosmetics s)"

definition item_of_cosmetic :: "uid \<Rightarrow> user_cosmetic \<Rightarrow> ('z item_db_scheme) \<Rightarrow> item option" where
  "item_of_cosmetic u uc s = List.find (\<lambda>it. it_userId it = u \<and>
     (it_grantKey it = user_cosmetic_key (uc_id uc) \<or> it_refId it = Some (uc_cosmeticId uc))) (items s)"

definition sync_cosmetic :: "uid \<Rightarrow> int \<Rightarrow> user_cosmetic \<times> cosmetic \<Rightarrow> ('z item_db_scheme, unit) act" where
  "sync_cosmetic u now = (\<lambda>(uc, c).
     bindA (getsA (item_of_cosmetic u uc)) (\<lambda>existing.
     case existing of
       None \<Rightarrow> bindA (create_item \<lparr>it_id = 0, it_userId = u, it_type = cs_type c, it_refId = Some (uc_cosmeticId uc),
           it_name = cs_name c, it_source = FROM_PURCHASE, it_quantity = 1, it_equipped = uc_equipped uc,
           it_transferable = True, it_grantKey = user_cosmetic_key (uc_id uc), it_acquiredAt = now,
           it_expiresAt = uc_expiresAt uc\<rparr>) (\<lambda>_. returnA ())
     | Some old \<Rightarrow> bindA (updateItem (it_id old) (\<lambda>it. it\<lparr>it_name := cs_name c, it_equipped := uc_equipped uc,
           it_expiresAt := uc_expiresAt uc, it_transferable := (it_source old \<noteq> FROM_GIFT)\<rparr>)) (\<lambda>_. returnA ())))"

section \<open>Clean-up\<close>

definition lower_char :: "char \<Rightarrow> char" where
  "lower_char c = (if 65 \<le> (of_char c :: nat) \<and> (of_char c :: nat) \<le> 90 then char_of ((of_char c :: nat) + 32) else c)"

text \<open>By reference, or by name and type without one; of two items with one key the later is kept.\<close>

definition dedup_key :: "item \<Rightarrow> nat + string \<times> item_type" where
  "dedup_key it = (case it_refId it of Some r \<Rightarrow> Inl r | None \<Rightarrow> Inr (trim (map lower_char (it_name it)), it_type it))"

fun duplicates :: "(nat + string \<times> item_type \<Rightarrow> nat option) \<Rightarrow> item list \<Rightarrow> nat list" where
  "duplicates seen [] = []"
| "duplicates seen (it # its) =
     (case seen (dedup_key it) of None \<Rightarrow> [] | Some prev \<Rightarrow> [prev]) @ duplicates (seen(dedup_key it \<mapsto> it_id it)) its"

definition quietly :: "('s, 'a) act \<Rightarrow> ('s, unit) act" where
  "quietly m = catchA (bindA m (\<lambda>_. returnA ())) (\<lambda>_. returnA ())"

definition clean_item :: "(nat \<Rightarrow> bool) \<Rightarrow> int \<Rightarrow> nat list \<Rightarrow> item \<Rightarrow> ('z item_db_scheme, unit) act" where
  "clean_item localUrl now duplicateIds it =
     (if \<not> unexpired now (it_expiresAt it) then quietly (deleteItem (it_id it))
      else bindA (getsA (\<lambda>s. case it_refId it of
             Some r \<Rightarrow> if r = DEFAULT_FRAME then None else Some (cosmetic_by r s)
           | None \<Rightarrow> None)) (\<lambda>entry.
        if case entry of Some (Some c) \<Rightarrow> \<not> cs_enabled c | Some None \<Rightarrow> True | None \<Rightarrow> False
        then quietly (deleteItem (it_id it))
        else if it_id it \<in> set duplicateIds then quietly (deleteItem (it_id it))
        else bindA (if it_source it \<noteq> FROM_GIFT \<and> \<not> it_transferable it
                    then quietly (updateItem (it_id it) (\<lambda>x. x\<lparr>it_transferable := True\<rparr>)) else returnA ()) (\<lambda>_.
             case entry of
               Some (Some c) \<Rightarrow>
                 if localUrl (it_id it) then quietly (updateItem (it_id it) (\<lambda>x. x\<lparr>it_name := cs_name c\<rparr>)) else returnA ()
             | _ \<Rightarrow> returnA ())))"

definition ensureUserCosmeticsSynced :: "(nat \<Rightarrow> bool) \<Rightarrow> uid \<Rightarrow> int \<Rightarrow> ('z item_db_scheme, unit) act" where
  "ensureUserCosmeticsSynced localUrl u now =
     bindA (getsA (live_cosmetics u now)) (\<lambda>userCosmetics.
     bindA (forA (sync_cosmetic u now) userCosmetics) (\<lambda>_.
     bindA (getsA (\<lambda>s. sort_key it_acquiredAt (filter (\<lambda>it. it_userId it = u) (items s)))) (\<lambda>allBackpackItems.
     forA (clean_item localUrl now (duplicates Map.empty allBackpackItems)) allBackpackItems)))"

section \<open>Reads\<close>

record list_query =
  lq_skip :: nat
  lq_take :: nat
  lq_type :: "item_type option"
  lq_equipped :: "bool option"

definition listed :: "uid \<Rightarrow> list_query \<Rightarrow> int \<Rightarrow> item \<Rightarrow> bool" where
  "listed u q now it \<longleftrightarrow> it_userId it = u \<and> unexpired now (it_expiresAt it) \<and>
     (case lq_type q of None \<Rightarrow> True | Some ty \<Rightarrow> it_type it = ty) \<and>
     (case lq_equipped q of None \<Rightarrow> True | Some b \<Rightarrow> it_equipped it = b)"

definition listItems :: "(nat \<Rightarrow> bool) \<Rightarrow> uid \<Rightarrow> list_query \<Rightarrow> int \<Rightarrow> ('z item_db_scheme, item list \<times> nat) act" where
  "listItems localUrl u q now =
     bindA (ensureDefaultPinkFrame u now) (\<lambda>_.
     bindA (ensureUserCosmeticsSynced localUrl u now) (\<lambda>_.
     getsA (\<lambda>s. let rows = filter (listed u q now) (items s)
       in (take (lq_take q) (drop (lq_skip q) (sort_key (\<lambda>it. - it_acquiredAt it) rows)), length rows))))"

text \<open>
  What is on: identifier, reference and name of the equipped item, or of the equipped cosmetic when no item is. The
  catalogue has no type OTHER; the query of one throws.
\<close>

definition findEquippedByType ::
  "uid \<Rightarrow> item_type \<Rightarrow> int \<Rightarrow> ('z item_db_scheme, (nat \<times> nat option \<times> string) option) act" where
  "findEquippedByType u ty now =
     bindA (ensureDefaultPinkFrame u now) (\<lambda>_.
     bindA (getsA (\<lambda>s. List.find (\<lambda>it. it_userId it = u \<and> it_type it = ty \<and> it_equipped it \<and> unexpired now (it_expiresAt it))
       (items s))) (\<lambda>bpItem.
     case bpItem of
       Some it \<Rightarrow> returnA (Some (it_id it, it_refId it, it_name it))
     | None \<Rightarrow>
         bindA (guardA (ty \<noteq> OTHER_ITEM) (OtherError ''PrismaClientValidationError'')) (\<lambda>_.
         getsA (\<lambda>s. Option.bind
           (List.find (\<lambda>uc. uc_userId uc = u \<and> uc_equipped uc \<and> unexpired now (uc_expiresAt uc) \<and>
              map_option cs_type (cosmetic_by (uc_cosmeticId uc) s) = Some ty) (user_cosmetics s))
           (\<lambda>uc. map_option (\<lambda>c. (uc_id uc, Some (uc_cosmeticId uc), cs_name c)) (cosmetic_by (uc_cosmeticId uc) s))))))"

end
