(* ===== verification/BackpackLaws.thy ===== *)
theory BackpackLaws
  imports BackpackListing
begin

text \<open>
  What the backpack keeps: identifiers stay unique and a user has at most one equipped item of a type, whatever is
  granted, equipped, taken off, moved or shown. A listing keeps this as long as the cosmetics it copies are on
  only where their items are; otherwise it can put two items of a type on. A grant that creates its item is
  idempotent; a grant that merged into an owned one is not.
\<close>

section \<open>One equipped item per type\<close>

definition equipped_of :: "uid \<Rightarrow> item_type \<Rightarrow> item list \<Rightarrow> item list" where
  "equipped_of u ty its = filter (\<lambda>it. it_userId it = u \<and> it_type it = ty \<and> it_equipped it) its"

definition items_ok :: "('z item_db_scheme) \<Rightarrow> bool" where
  "items_ok s \<longleftrightarrow> distinct (map it_id (items s)) \<and> (\<forall>it\<in>set (items s). it_id it < next_id s) \<and>
     (\<forall>u ty. length (equipped_of u ty (items s)) \<le> 1)"

definition keeps_items :: "('z item_db_scheme) \<Rightarrow> ('z item_db_scheme) \<Rightarrow> bool" where
  "keeps_items s s' \<longleftrightarrow> (items_ok s \<longrightarrow> items_ok s')"

interpretation backpack: step_order keeps_items
  by unfold_locales (simp_all add: keeps_items_def)

lemma equipped_map:
  assumes "\<And>it. it_equipped (g it) \<Longrightarrow> it_equipped it \<and> it_userId (g it) = it_userId it \<and> it_type (g it) = it_type it"
  shows "length (equipped_of u ty (map g its)) \<le> length (equipped_of u ty its)"
  using assms by (induction its) (fastforce simp: equipped_of_def)+

lemma items_ok_map:
  assumes "items_ok s" "items s' = map g (items s)" "next_id s \<le> next_id s'" "\<And>it. it_id (g it) = it_id it"
    "\<And>it. it_equipped (g it) \<Longrightarrow> it_equipped it \<and> it_userId (g it) = it_userId it \<and> it_type (g it) = it_type it"
  shows "items_ok s'"
proof -
  have "length (equipped_of u ty (items s')) \<le> 1" for u ty
    using equipped_map [OF assms(5), of u ty "items s"] assms(1,2) by (auto simp: items_ok_def intro: le_trans)
  moreover have "map it_id (items s') = map it_id (items s)" using assms(2,4) by simp
  moreover have "\<forall>it\<in>set (items s'). it_id it < next_id s'"
    using assms(1-4) by (auto simp: items_ok_def intro: less_le_trans)
  ultimately show ?thesis using assms(1) unfolding items_ok_def by simp
qed

lemma items_ok_same: "items s' = items s \<Longrightarrow> next_id s \<le> next_id s' \<Longrightarrow> items_ok s \<Longrightarrow> items_ok s'"
  by (rule items_ok_map [where g = id]) simp_all

lemma items_ok_filter:
  assumes "items_ok s" "items s' = filter P (items s)" "next_id s' = next_id s"
  shows "items_ok s'"
proof -
  have "equipped_of u ty (items s') = filter P (equipped_of u ty (items s))" for u ty
    by (simp add: assms(2) equipped_of_def conj_commute)
  then have "length (equipped_of u ty (items s')) \<le> 1" for u ty
    using assms(1) by (metis items_ok_def le_trans length_filter_le)
  then show ?thesis using assms by (auto simp: items_ok_def distinct_map_filter)
qed

lemma items_ok_create:
  assumes "items_ok s" "items s' = items s @ [it]" "it_id it = next_id s" "next_id s' = Suc (next_id s)"
    "it_equipped it \<Longrightarrow> equipped_of (it_userId it) (it_type it) (items s) = []"
  shows "items_ok s'"
  using assms by (auto simp: items_ok_def equipped_of_def less_Suc_eq)

section \<open>The operations\<close>

lemma item_byD: "item_by i s = Some it \<Longrightarrow> it \<in> set (items s) \<and> it_id it = i"
  by (auto simp: item_by_def find_Some_iff)

lemma items_update:
  assumes "\<And>it. it_id (f it) = it_id it"
    "\<And>it. it_equipped (f it) \<Longrightarrow> it_equipped it \<and> it_userId (f it) = it_userId it \<and> it_type (f it) = it_type it"
  shows "backpack.ok (updateItem i f)"
proof (rule backpack.okI)
  fix s r s' assume run: "updateItem i f s = (r, s')"
  show "keeps_items s s'" unfolding keeps_items_def
  proof
    assume ok: "items_ok s"
    show "items_ok s'"
    proof (cases "item_by i s")
      case None
      then show ?thesis using run ok by (simp add: updateItem_def)
    next
      case (Some it)
      then have s': "s' = s\<lparr>items := map (\<lambda>x. if it_id x = i then f x else x) (items s)\<rparr>"
        using run by (simp add: updateItem_def)
      show ?thesis
        by (rule items_ok_map [OF ok, where g = "\<lambda>x. if it_id x = i then f x else x"])
          (use assms in \<open>auto simp: s' split: if_splits\<close>)
    qed
  qed
qed

lemma items_kept:
  "backpack.ok (log_item u a x)" "backpack.ok (publish_item ev)" "backpack.ok (syncUserCosmeticsOnTransfer u v r e)"
  by (auto simp: backpack.ok_def keeps_items_def log_item_def publish_item_def syncUserCosmeticsOnTransfer_def bindA_def
      modifyA_def Let_def elim!: items_ok_same [rotated 2])

lemma items_delete: "backpack.ok (deleteItem i)"
  by (auto simp: backpack.ok_def keeps_items_def deleteItem_def split: option.split elim!: items_ok_filter)

lemma items_create: "\<not> it_equipped it \<Longrightarrow> backpack.ok (create_item it)"
  by (auto simp: backpack.ok_def keeps_items_def create_item_def Let_def elim!: items_ok_create [where it = "it\<lparr>it_id := _\<rparr>"])

lemma items_grant: "backpack.ok (grant inp now)"
  unfolding grant_def grant_merged_def
  by (auto intro!: backpack.ok_bind backpack.ok_option items_kept items_update items_create simp: fresh_item_def
      split: if_splits)

lemma no_equipped_frame:
  "\<not> (\<exists>it\<in>set its. it_userId it = u \<and> it_type it = ty \<and> it_equipped it) \<Longrightarrow> equipped_of u ty its = []"
  by (auto simp: equipped_of_def filter_empty_conv)

lemma items_default: "backpack.ok (ensureDefaultPinkFrame u now)"
proof (rule backpack.okI)
  fix s r s' assume run: "ensureDefaultPinkFrame u now s = (r, s')"
  show "keeps_items s s'" unfolding keeps_items_def
  proof
    assume ok: "items_ok s"
    define s1 where "s1 = (if \<exists>c \<in> set (cosmetics s). cs_id c = DEFAULT_FRAME then s
       else s\<lparr>cosmetics := cosmetics s @ [\<lparr>cs_id = DEFAULT_FRAME, cs_type = FRAME, cs_name = ''Default Pink Frame'',
              cs_mediaUrl = ''default_pink_frame'', cs_thumbnailUrl = Some ''default_pink_frame'', cs_price = 0,
              cs_enabled = True, cs_isPremium = False\<rparr>]\<rparr>)"
    have ok1: "items_ok s1" using ok by (auto simp: s1_def elim!: items_ok_same [rotated 2])
    show "items_ok s'"
      using run ok1 no_equipped_frame [of "items s1" u FRAME]
      by (auto simp: ensureDefaultPinkFrame_def bindA_def modifyA_def getsA_def returnA_def s1_def [symmetric]
          create_item_def Let_def split: if_splits elim!: items_ok_create)
  qed
qed

lemma items_getItem: "backpack.ok (getItem i now)" "backpack.ok (ownedItem u i now)" "backpack.ok (ownsRef u r now)"
  unfolding getItem_def ownedItem_def ownsRef_def
  by (auto intro!: backpack.ok_bind backpack.ok_option backpack.ok_if items_default)

lemma items_transfer: "backpack.ok (transfer u i v now)"
  unfolding transfer_def transfer_merged_def transfer_item_def transfer_logs_def Let_def
  by (auto intro!: backpack.ok_bind backpack.ok_option items_kept items_update items_delete items_getItem)

lemma items_setEquipped_off: "backpack.ok (setEquipped i False)"
proof -
  have "backpack.ok (modifyA (\<lambda>s. s\<lparr>user_cosmetics := f s\<rparr>))" for f :: "'z item_db_scheme \<Rightarrow> user_cosmetic list"
    by (rule backpack.ok_modify) (auto simp: keeps_items_def elim!: items_ok_same [rotated 2])
  then show ?thesis unfolding setEquipped_def
    by (auto intro!: backpack.ok_bind backpack.ok_option backpack.ok_if items_update)
qed

lemma items_unequip: "backpack.ok (unequip u i now)"
  unfolding unequip_def by (auto intro!: backpack.ok_bind items_getItem items_setEquipped_off items_kept)

lemma unequipType_items:
  assumes "unequipType u ty s = (r, s')"
  shows "items s' = map (\<lambda>it. if it_userId it = u \<and> it_type it = ty then it\<lparr>it_equipped := False\<rparr> else it) (items s)"
    "next_id s' = next_id s" "r = Inr ()"
  using assms by (auto simp: unequipType_def bindA_def modifyA_def returnA_def split: if_splits)

lemma setEquipped_items:
  assumes "setEquipped i True s = (Inr (), s')"
  shows "items s' = map (\<lambda>it. if it_id it = i then it\<lparr>it_equipped := True\<rparr> else it) (items s)" "next_id s' = next_id s"
  using assms by (auto simp: setEquipped_def updateItem_def bindA_def modifyA_def returnA_def split: option.splits if_splits)

lemma getItem_items:
  assumes "getItem i now s = (Inr (Some it), s')" "items_ok s"
  shows "items_ok s'" "it \<in> set (items s')" "it_id it = i"
proof -
  show "items_ok s'" using backpack.okD [OF items_getItem(1) assms(1)] assms(2) by (simp add: keeps_items_def)
  have it: "item_by i s = Some it" "ensureDefaultPinkFrame (it_userId it) now s = (Inr (), s')"
    using assms(1) by (auto simp: getItem_def bindA_Inr split: option.splits)
  have "set (items s) \<subseteq> set (items s')"
    using it(2) by (auto simp: ensureDefaultPinkFrame_def bindA_def modifyA_def getsA_def returnA_def create_item_def
        Let_def split: if_splits)
  then show "it \<in> set (items s')" "it_id it = i" using item_byD [OF it(1)] by auto
qed

lemma filter_key: "distinct (map k xs) \<Longrightarrow> x \<in> set xs \<Longrightarrow> filter (\<lambda>y. k y = k x) xs = [x]"
  by (induction xs) (auto simp: filter_empty_conv image_iff)

lemma find_by_key: "distinct (map k xs) \<Longrightarrow> x \<in> set xs \<Longrightarrow> List.find (\<lambda>y. k y = k x) xs = Some x"
  by (induction xs) (auto simp: image_iff)

lemma filter_map_cong:
  "(\<And>x. x \<in> set xs \<Longrightarrow> P (h x) \<longleftrightarrow> Q x) \<Longrightarrow> (\<And>x. x \<in> set xs \<Longrightarrow> Q x \<Longrightarrow> h x = g x) \<Longrightarrow>
     filter P (map h xs) = map g (filter Q xs)"
  by (induction xs) auto

text \<open>Exactly the equipped item stays on among those of its type.\<close>

lemma equip_one:
  assumes "items_ok s" "it \<in> set (items s)" "it_userId it = u" "it_type it = ty"
    "unequipType u ty s = (Inr (), s1)" "setEquipped (it_id it) True s1 = (r, s')"
  shows "r = Inr ()" "items_ok s'" "equipped_of u ty (items s') = [it\<lparr>it_equipped := True\<rparr>]"
proof -
  let ?f = "\<lambda>x. if it_userId x = u \<and> it_type x = ty then x\<lparr>it_equipped := False\<rparr> else x"
  let ?g = "\<lambda>x. if it_id x = it_id it then x\<lparr>it_equipped := True\<rparr> else x"
  note off = unequipType_items [OF assms(5)]
  have ids: "distinct (map it_id (items s))" using assms(1) by (simp add: items_ok_def)
  have same: "x = it" if "x \<in> set (items s)" "it_id x = it_id it" for x
    using that assms(2) ids by (metis distinct_map inj_onD)
  have "item_by (it_id it) s1 \<noteq> None"
  proof -
    have "it_id it \<in> it_id ` set (items s1)" using assms(2) unfolding off(1) set_map image_image
      by (auto simp: image_iff intro!: bexI [where x = it])
    then show ?thesis by (auto simp: item_by_def find_None_iff image_iff)
  qed
  then show r: "r = Inr ()"
    using assms(6) by (auto simp: setEquipped_def updateItem_def bindA_def modifyA_def returnA_def
        split: option.splits if_splits)
  note on = setEquipped_items [OF assms(6) [unfolded r]]
  have it': "items s' = map (?g \<circ> ?f) (items s)" using on off by simp
  have here: "equipped_of u ty (items s') = map (\<lambda>x. x\<lparr>it_equipped := True\<rparr>) (filter (\<lambda>x. it_id x = it_id it) (items s))"
    unfolding equipped_of_def it' by (rule filter_map_cong) (use assms(3,4) same in \<open>auto split: if_splits\<close>)
  then show e: "equipped_of u ty (items s') = [it\<lparr>it_equipped := True\<rparr>]" using filter_key [OF ids assms(2)] by simp
  have "equipped_of v t (items s') = map id (equipped_of v t (items s))" if "(v, t) \<noteq> (u, ty)" for v t
    unfolding equipped_of_def it' by (rule filter_map_cong) (use that assms(3,4) same in \<open>auto split: if_splits\<close>)
  then have "length (equipped_of v t (items s')) \<le> 1" for v t
    using e assms(1) by (cases "(v, t) = (u, ty)") (auto simp: items_ok_def)
  moreover have m: "map it_id (items s') = map it_id (items s)" unfolding it' by simp
  moreover have "\<forall>i\<in>set (map it_id (items s)). i < next_id s" using assms(1) by (simp add: items_ok_def)
  then have "\<forall>x\<in>set (items s'). it_id x < next_id s'" unfolding m [symmetric] by (simp add: on(2) off(2))
  ultimately show "items_ok s'" using ids unfolding items_ok_def by simp
qed

lemma equip_run:
  assumes "equip u i now s = (Inr (), s')" "items_ok s"
  obtains it where "items_ok s'" "it_id it = i" "it_type it \<in> set EQUIPPABLE_TYPES" "unexpired now (it_expiresAt it)"
    "equipped_of u (it_type it) (items s') = [it\<lparr>it_equipped := True\<rparr>]" "it_userId it = u"
proof -
  obtain it s0 s1 s2 where it: "getItem i now s = (Inr (Some it), s0)" "it_userId it = u"
    and g: "it_type it \<in> set EQUIPPABLE_TYPES" "unexpired now (it_expiresAt it)"
    and s1: "unequipType u (it_type it) s0 = (Inr (), s1)" and s2: "setEquipped i True s1 = (Inr (), s2)"
    and same: "items s' = items s2" "next_id s' = next_id s2"
    using assms(1) by (auto simp: equip_def ownedItem_def bindA_Inr log_item_def publish_item_def modifyA_def throwA_def
        split: option.splits)
  note o = getItem_items [OF it(1) assms(2)]
  note e = equip_one [OF o(1,2) it(2) refl s1 s2 [folded o(3)]]
  show thesis
    using that [OF _ o(3) g _ it(2)] e(2,3) items_ok_same [OF same(1) _ e(2)] same by simp
qed

lemma items_equip: "backpack.ok (equip u i now)"
proof (rule backpack.okI)
  fix s r s' assume run: "equip u i now s = (r, s')"
  show "keeps_items s s'" unfolding keeps_items_def
  proof
    assume ok: "items_ok s"
    show "items_ok s'"
    proof (cases r)
      case (Inr x)
      then show ?thesis using equip_run run ok by (cases x) blast
    next
      case (Inl e)
      show ?thesis
      proof (cases "\<exists>it s0. ownedItem u i now s = (Inr it, s0) \<and> it_type it \<in> set EQUIPPABLE_TYPES \<and>
          unexpired now (it_expiresAt it)")
        case False
        then obtain x s0 where o: "ownedItem u i now s = (x, s0)" "s' = s0"
          using run Inl by (cases "ownedItem u i now s"; cases "fst (ownedItem u i now s)")
            (auto simp: equip_def bindA_def guardA_def split: if_splits)
        then show ?thesis using backpack.okD [OF items_getItem(2) o(1)] ok by (simp add: keeps_items_def)
      next
        case True
        then obtain it s0 where it: "ownedItem u i now s = (Inr it, s0)" "it_type it \<in> set EQUIPPABLE_TYPES"
          "unexpired now (it_expiresAt it)" by blast
        then have g: "getItem i now s = (Inr (Some it), s0)" "it_userId it = u"
          by (auto simp: ownedItem_def bindA_Inr throwA_def split: option.splits)
        note o = getItem_items [OF g(1) ok]
        obtain s1 where s1: "unequipType u (it_type it) s0 = (Inr (), s1)"
          using unequipType_items(3) [of u "it_type it" s0] by (cases "unequipType u (it_type it) s0") auto
        obtain q s2 where s2: "setEquipped i True s1 = (q, s2)" by fastforce
        from equip_one(1) [OF o(1,2) g(2) refl s1 s2 [folded o(3)]] it s1 s2 run Inl
        have False by (simp add: equip_def bindA_def guardA_def log_item_def publish_item_def modifyA_def)
        then show ?thesis ..
      qed
    qed
  qed
qed

section \<open>Listings\<close>

text \<open>What identifies an item; no step of a listing changes it.\<close>

definition face :: "item \<Rightarrow> nat \<times> uid \<times> item_type \<times> nat option \<times> string" where
  "face it = (it_id it, it_userId it, it_type it, it_refId it, it_grantKey it)"

definition on_ids :: "('z item_db_scheme) \<Rightarrow> nat set" where
  "on_ids s = it_id ` set (filter it_equipped (items s))"

text \<open>Items are kept, possibly with new ones after them, and none is on that was not.\<close>

definition dims :: "('z item_db_scheme) \<Rightarrow> ('z item_db_scheme) \<Rightarrow> bool" where
  "dims s s' \<longleftrightarrow> (\<exists>new. map face (items s') = map face (items s) @ new) \<and> distinct (map it_id (items s')) \<and>
     (\<forall>it\<in>set (items s'). it_id it < next_id s') \<and> on_ids s' \<subseteq> on_ids s"

lemma equipped_ids: "set (map it_id (equipped_of u ty (items s))) = it_id ` {it \<in> set (items s). it_userId it = u \<and> it_type it = ty \<and> it_equipped it}"
  by (auto simp: equipped_of_def)

lemma dims_ok:
  assumes ok: "items_ok s" and d: "dims s s'"
  shows "items_ok s'"
proof -
  obtain new where new: "map face (items s') = map face (items s) @ new" using d by (auto simp: dims_def)
  have ids: "distinct (map it_id (items s'))" using d by (simp add: dims_def)
  have "length (equipped_of u ty (items s')) \<le> 1" for u ty
  proof -
    have sub: "it_id ` set (equipped_of u ty (items s')) \<subseteq> it_id ` set (equipped_of u ty (items s))"
    proof
      fix i assume "i \<in> it_id ` set (equipped_of u ty (items s'))"
      then obtain it where it: "it \<in> set (items s')" "it_id it = i" "it_userId it = u" "it_type it = ty" "it_equipped it"
        by (auto simp: equipped_of_def)
      then have "i \<in> on_ids s'" by (auto simp: on_ids_def)
      then obtain old where old: "old \<in> set (items s)" "it_id old = i" "it_equipped old"
        using d by (auto simp: dims_def on_ids_def)
      have "face old \<in> face ` set (items s')" using old(1) new by (metis list.set_map UnI1 imageI set_append)
      then obtain old' where old': "old' \<in> set (items s')" "face old' = face old" by auto
      then have "it_id old' = it_id it" using old(2) it(2) by (simp add: face_def)
      then have "old' = it" using old'(1) it(1) ids by (metis distinct_map inj_onD)
      then have "it_userId old = u" "it_type old = ty" using old'(2) it(3,4) by (simp_all add: face_def)
      then show "i \<in> it_id ` set (equipped_of u ty (items s))" using old by (auto simp: equipped_of_def)
    qed
    have "distinct (map it_id (equipped_of u ty (items s')))"
      using ids by (simp add: equipped_of_def distinct_map_filter)
    then have "length (equipped_of u ty (items s')) = card (it_id ` set (equipped_of u ty (items s')))"
      by (metis distinct_card length_map list.set_map)
    also have "\<dots> \<le> card (it_id ` set (equipped_of u ty (items s)))" using sub by (intro card_mono) auto
    also have "\<dots> \<le> length (equipped_of u ty (items s))" by (metis card_length length_map list.set_map)
    also have "\<dots> \<le> 1" using ok by (simp add: items_ok_def)
    finally show ?thesis .
  qed
  then show ?thesis using d by (simp add: items_ok_def dims_def)
qed

lemma find_face:
  assumes "map face xs' = map face xs @ new" "\<And>x. P x = Q (face x)" "List.find P xs = Some it"
  obtains it' where "List.find P xs' = Some it'" "it_id it' = it_id it"
proof -
  have m: "map_option face (List.find P zs) = List.find Q (map face zs)" for zs
    by (induction zs) (simp_all add: assms(2))
  have "List.find Q (map face xs) = Some (face it)" using m [of xs, symmetric] assms(3) by simp
  then have "List.find Q (map face xs') = Some (face it)" using assms(1) by (simp add: find_app)
  then have "map_option face (List.find P xs') = Some (face it)" using m [of xs'] by simp
  then show thesis using that by (auto simp: face_def)
qed

lemma item_of_later:
  assumes "dims s s'" "item_of_cosmetic u uc s = Some it"
  obtains it' where "item_of_cosmetic u uc s' = Some it'" "it_id it' = it_id it"
proof -
  let ?P = "\<lambda>it. it_userId it = u \<and> (it_grantKey it = user_cosmetic_key (uc_id uc) \<or> it_refId it = Some (uc_cosmeticId uc))"
  let ?Q = "\<lambda>(i, v, ty, r, k). v = u \<and> (k = user_cosmetic_key (uc_id uc) \<or> r = Some (uc_cosmeticId uc))"
  obtain new where new: "map face (items s') = map face (items s) @ new" using assms(1) by (auto simp: dims_def)
  have q: "?P x = ?Q (face x)" for x by (simp add: face_def)
  obtain it' where "List.find ?P (items s') = Some it'" "it_id it' = it_id it"
    using find_face [OF new q assms(2) [unfolded item_of_cosmetic_def]] .
  then show thesis using that unfolding item_of_cosmetic_def by blast
qed

text \<open>Every cosmetic that is on has an item, which is on.\<close>

definition shown_by_items :: "uid \<Rightarrow> (user_cosmetic \<times> cosmetic) list \<Rightarrow> ('z item_db_scheme) \<Rightarrow> bool" where
  "shown_by_items u ucs s \<longleftrightarrow> (\<forall>(uc, c)\<in>set ucs. uc_equipped uc \<longrightarrow>
     (case item_of_cosmetic u uc s of None \<Rightarrow> False | Some it \<Rightarrow> it_equipped it))"

lemma dims_map:
  assumes d: "dims s t" and items: "items t' = map g (items t)" and nid: "next_id t' = next_id t"
    and face: "\<And>x. face (g x) = face x" and on: "\<And>x. x \<in> set (items t) \<Longrightarrow> it_equipped (g x) \<Longrightarrow> it_id x \<in> on_ids s"
  shows "dims s t'"
proof -
  have id: "it_id (g x) = it_id x" for x using face [of x] by (simp add: face_def)
  have "map face (items t') = map face (items t)" "map it_id (items t') = map it_id (items t)"
    by (simp_all add: items face id)
  moreover have "on_ids t' \<subseteq> on_ids s" using on by (auto simp: on_ids_def [of t'] items id)
  moreover have "\<forall>i\<in>it_id ` set (items t'). i < next_id t'"
    using d calculation(2) by (metis (no_types, lifting) dims_def imageE list.set_map nid)
  ultimately show ?thesis using d unfolding dims_def by simp
qed

lemma sync_step:
  assumes d: "dims s t" and shown: "shown_by_items u [(uc, c)] s" and run: "sync_cosmetic u now (uc, c) t = (r, t')"
  shows "dims s t'"
proof (cases "item_of_cosmetic u uc t")
  case (Some old)
  have mem: "old \<in> set (items t)" using Some by (auto simp: item_of_cosmetic_def find_Some_iff)
  let ?f = "\<lambda>it. it\<lparr>it_name := cs_name c, it_equipped := uc_equipped uc, it_expiresAt := uc_expiresAt uc,
    it_transferable := (it_source old \<noteq> FROM_GIFT)\<rparr>"
  let ?g = "\<lambda>x. if it_id x = it_id old then ?f x else x"
  have "item_by (it_id old) t = Some old"
    unfolding item_by_def using find_by_key [of it_id "items t"] mem d by (simp add: dims_def)
  then have t': "items t' = map ?g (items t)" "next_id t' = next_id t"
    using run Some by (auto simp: sync_cosmetic_def bindA_def getsA_def updateItem_def returnA_def)
  have on: "it_id old \<in> on_ids s" if "uc_equipped uc"
  proof -
    obtain it where it: "item_of_cosmetic u uc s = Some it" "it_equipped it"
      using shown \<open>uc_equipped uc\<close> by (auto simp: shown_by_items_def split: option.splits)
    then have "it_id old = it_id it" using item_of_later [OF d it(1)] Some by auto
    moreover have "it \<in> set (items s)" using it(1) by (auto simp: item_of_cosmetic_def find_Some_iff)
    ultimately show ?thesis using it(2) by (auto simp: on_ids_def)
  qed
  have old_on: "it_id x \<in> on_ids s" if "x \<in> set (items t)" "it_equipped x" for x
    using that d by (auto simp: dims_def on_ids_def)
  show ?thesis
    by (rule dims_map [OF d t']) (use on old_on in \<open>auto simp: face_def split: if_splits\<close>)
next
  case None
  have off: "\<not> uc_equipped uc"
  proof
    assume "uc_equipped uc"
    then obtain it where "item_of_cosmetic u uc s = Some it"
      using shown by (auto simp: shown_by_items_def split: option.splits)
    from item_of_later [OF d this] None show False by auto
  qed
  show ?thesis
  proof (cases "t' = t")
    case False
    then obtain row where t': "items t' = items t @ [row]" "it_id row = next_id t" "next_id t' = Suc (next_id t)"
      "\<not> it_equipped row"
      using run None off
      by (auto simp: sync_cosmetic_def bindA_def getsA_def create_item_def Let_def returnA_def split: if_splits)
    have old: "\<forall>it\<in>set (items t). it_id it < next_id t" using d by (simp add: dims_def)
    then have "distinct (map it_id (items t'))" using d by (auto simp: t' dims_def)
    moreover have "\<forall>it\<in>set (items t'). it_id it < next_id t'" using old by (auto simp: t' less_Suc_eq)
    moreover have "on_ids t' = on_ids t" by (simp add: on_ids_def t')
    ultimately show ?thesis using d by (auto simp: dims_def t')
  qed (simp add: d)
qed

lemma sync_all:
  "dims s t \<Longrightarrow> shown_by_items u ucs s \<Longrightarrow> forA (sync_cosmetic u now) ucs t = (r, t') \<Longrightarrow> dims s t'"
proof (induction ucs arbitrary: t)
  case Nil
  then show ?case by (simp add: returnA_def)
next
  case (Cons x ucs)
  obtain uc c where x: "x = (uc, c)" by fastforce
  obtain q t1 where st: "sync_cosmetic u now x t = (q, t1)" by fastforce
  have d1: "dims s t1" using sync_step [OF Cons.prems(1) _ st [unfolded x]] Cons.prems(2) by (simp add: shown_by_items_def x)
  show ?case
  proof (cases q)
    case (Inl e)
    then show ?thesis using Cons.prems(3) st d1 by (simp add: bindA_def)
  next
    case (Inr y)
    then have "forA (sync_cosmetic u now) ucs t1 = (r, t')" using Cons.prems(3) st by (simp add: bindA_def)
    then show ?thesis using Cons.IH [OF d1] Cons.prems(2) by (simp add: shown_by_items_def)
  qed
qed

lemma quietly_ok: "backpack.ok m \<Longrightarrow> backpack.ok (quietly m)"
  unfolding quietly_def by (intro backpack.ok_catch backpack.ok_bind backpack.ok_pure)

lemma items_clean: "backpack.ok (clean_item localUrl now ds it)"
  unfolding clean_item_def
  by (intro backpack.ok_bind backpack.ok_if backpack.ok_pure quietly_ok items_delete items_update)
    (auto intro!: backpack.ok_if quietly_ok items_update split: option.split)

text \<open>What a listing of \<open>u\<close> needs: the cosmetics it copies are on only where their items are.\<close>

definition mirrors :: "uid \<Rightarrow> int \<Rightarrow> ('z item_db_scheme) \<Rightarrow> bool" where
  "mirrors u now s \<longleftrightarrow> (let s0 = snd (ensureDefaultPinkFrame u now s) in shown_by_items u (live_cosmetics u now s0) s0)"

lemma items_synced:
  assumes ok: "items_ok s" and m: "shown_by_items u (live_cosmetics u now s) s"
    and run: "ensureUserCosmeticsSynced localUrl u now s = (r, s')"
  shows "items_ok s'"
proof -
  obtain q s1 where sync: "forA (sync_cosmetic u now) (live_cosmetics u now s) s = (q, s1)" by fastforce
  have "dims s s" using ok by (simp add: dims_def items_ok_def)
  then have ok1: "items_ok s1" using sync_all [OF _ m sync] dims_ok [OF ok] by blast
  show ?thesis
  proof (cases q)
    case (Inl e)
    then show ?thesis using run sync ok1 by (simp add: ensureUserCosmeticsSynced_def bindA_def getsA_def)
  next
    case (Inr x)
    let ?its = "sort_key it_acquiredAt (filter (\<lambda>it. it_userId it = u) (items s1))"
    have "forA (clean_item localUrl now (duplicates Map.empty ?its)) ?its s1 = (r, s')"
      using run sync Inr by (simp add: ensureUserCosmeticsSynced_def bindA_def getsA_def)
    from backpack.okD [OF backpack.ok_for [OF items_clean] this] ok1 show ?thesis by (simp add: keeps_items_def)
  qed
qed

lemma items_listed:
  assumes ok: "items_ok s" and m: "mirrors u now s" and run: "listItems localUrl u q now s = (r, s')"
  shows "items_ok s'"
proof -
  obtain x s0 where d: "ensureDefaultPinkFrame u now s = (x, s0)" by fastforce
  have ok0: "items_ok s0" using backpack.okD [OF items_default d] ok by (simp add: keeps_items_def)
  obtain y s1 where y: "ensureUserCosmeticsSynced localUrl u now s0 = (y, s1)" by fastforce
  have "items_ok s1" using items_synced [OF ok0 _ y] m d by (simp add: mirrors_def Let_def)
  then show ?thesis using run d y ok0 by (cases x; cases y) (auto simp: listItems_def bindA_def getsA_def)
qed

lemma items_shown: "backpack.ok (findEquippedByType u ty now)"
  unfolding findEquippedByType_def by (intro backpack.ok_bind items_default backpack.ok_pure backpack.ok_option)

section \<open>Runs\<close>

datatype backpack_op =
    Grant grant_input int
  | Equip uid nat int
  | Unequip uid nat int
  | Transfer uid nat uid int
  | Owns uid nat int
  | Get_item nat int
  | Show_equipped uid item_type int
  | List_items "nat \<Rightarrow> bool" uid list_query int

fun backpack_step :: "backpack_op \<Rightarrow> ('z item_db_scheme) \<Rightarrow> ('z item_db_scheme)" where
  "backpack_step (Grant inp now) s = snd (grant inp now s)"
| "backpack_step (Equip u i now) s = snd (equip u i now s)"
| "backpack_step (Unequip u i now) s = snd (unequip u i now s)"
| "backpack_step (Transfer u i v now) s = snd (transfer u i v now s)"
| "backpack_step (Owns u r now) s = snd (ownsRef u r now s)"
| "backpack_step (Get_item i now) s = snd (getItem i now s)"
| "backpack_step (Show_equipped u ty now) s = snd (findEquippedByType u ty now s)"
| "backpack_step (List_items localUrl u q now) s = snd (listItems localUrl u q now s)"

definition backpack_run :: "backpack_op list \<Rightarrow> ('z item_db_scheme) \<Rightarrow> ('z item_db_scheme)" where
  "backpack_run ops s = fold backpack_step ops s"

lemma items_ok_after: "backpack.ok m \<Longrightarrow> items_ok s \<Longrightarrow> items_ok (snd (m s))"
  by (simp add: backpack.ok_def keeps_items_def)

text \<open>Every listing of a run meets what it needs.\<close>

fun mirrored_step :: "backpack_op \<Rightarrow> ('z item_db_scheme) \<Rightarrow> bool" where
  "mirrored_step (List_items localUrl u q now) s = mirrors u now s"
| "mirrored_step x s = True"

fun mirrored_run :: "backpack_op list \<Rightarrow> ('z item_db_scheme) \<Rightarrow> bool" where
  "mirrored_run [] s = True"
| "mirrored_run (x # ops) s = (mirrored_step x s \<and> mirrored_run ops (backpack_step x s))"

lemma backpack_step_ok: "items_ok s \<Longrightarrow> mirrored_step x s \<Longrightarrow> items_ok (backpack_step x s)"
proof (cases x)
  case (List_items localUrl u q now)
  moreover assume "items_ok s" "mirrored_step x s"
  ultimately show ?thesis using items_listed [of s u now localUrl q] by (simp add: prod_eq_iff)
qed (simp_all add: items_ok_after items_grant items_equip items_unequip items_transfer items_getItem items_shown)

lemma backpack_run_ok: "items_ok s \<Longrightarrow> mirrored_run ops s \<Longrightarrow> items_ok (backpack_run ops s)"
  by (induction ops arbitrary: s) (auto simp: backpack_run_def backpack_step_ok)

section \<open>Grants again\<close>

text \<open>How much of a reference a user has.\<close>

definition owned_quantity :: "uid \<Rightarrow> nat \<Rightarrow> ('z item_db_scheme) \<Rightarrow> int" where
  "owned_quantity u r s =
     sum_list (map (\<lambda>it. if it_userId it = u \<and> it_refId it = Some r then it_quantity it else 0) (items s))"

lemma sum_list_row:
  fixes g h :: "'a \<Rightarrow> int"
  assumes "distinct (map k xs)" "x \<in> set xs"
  shows "sum_list (map (\<lambda>y. if k y = k x then g y else h y) xs) = sum_list (map h xs) + g x - h x"
  using assms
proof (induction xs)
  case (Cons y ys)
  show ?case
  proof (cases "y = x")
    case True
    then have "\<forall>z\<in>set ys. k z \<noteq> k x" using Cons.prems(1) by (auto simp: image_iff)
    then have "map (\<lambda>y. if k y = k x then g y else h y) ys = map h ys" by (intro map_cong refl) simp
    then show ?thesis using True by (simp only: list.map sum_list.Cons) simp
  next
    case False
    then have "k y \<noteq> k x" using Cons.prems by (auto simp: image_iff)
    then show ?thesis using Cons False by simp
  qed
qed simp

lemma findOwned:
  "findByUserIdAndRefId u r now s = Some it \<Longrightarrow>
     it \<in> set (items s) \<and> it_userId it = u \<and> it_refId it = Some r \<and> unexpired now (it_expiresAt it)"
  "findByUserIdAndRefId u r now s = None \<longleftrightarrow>
     (\<forall>it\<in>set (items s). \<not> (it_userId it = u \<and> it_refId it = Some r \<and> unexpired now (it_expiresAt it)))"
proof -
  let ?xs = "sort_key (\<lambda>it. - it_acquiredAt it)
    (filter (\<lambda>it. it_userId it = u \<and> it_refId it = Some r \<and> unexpired now (it_expiresAt it)) (items s))"
  have "set ?xs = {it \<in> set (items s). it_userId it = u \<and> it_refId it = Some r \<and> unexpired now (it_expiresAt it)}"
    by auto
  then show "findByUserIdAndRefId u r now s = Some it \<Longrightarrow>
      it \<in> set (items s) \<and> it_userId it = u \<and> it_refId it = Some r \<and> unexpired now (it_expiresAt it)"
    "findByUserIdAndRefId u r now s = None \<longleftrightarrow>
      (\<forall>it\<in>set (items s). \<not> (it_userId it = u \<and> it_refId it = Some r \<and> unexpired now (it_expiresAt it)))"
    unfolding findByUserIdAndRefId_def by (cases ?xs; force split: list.splits)+
qed

lemma merged_unexpired: "unexpired now e \<Longrightarrow> unexpired now (merged_expiry given e now)"
  by (auto simp: merged_expiry_def unexpired_def split: option.splits)

lemma grant_merged_effect:
  assumes ok: "items_ok s" and old: "findByUserIdAndRefId (gi_userId inp) r now s = Some old"
  obtains s' where "grant_merged inp old now s = (Inr (it_id old, True), s')"
    "owned_quantity (gi_userId inp) r s' = owned_quantity (gi_userId inp) r s + or_one (gi_quantity inp)"
    "map it_grantKey (items s') = map it_grantKey (items s)" "findByUserIdAndRefId (gi_userId inp) r now s' \<noteq> None"
proof -
  note o = findOwned(1) [OF old]
  have ids: "distinct (map it_id (items s))" using ok by (simp add: items_ok_def)
  define f :: "item \<Rightarrow> item" where "f = (\<lambda>it. it\<lparr>it_expiresAt := merged_expiry (gi_expiresAt inp) (it_expiresAt old) now,
         it_transferable := (if gi_source inp = FROM_GIFT \<or> gi_transferable inp = Some False then False
                             else it_transferable old),
         it_quantity := it_quantity old + or_one (gi_quantity inp)\<rparr>)"
  have f: "it_id (f it) = it_id it" "it_userId (f it) = it_userId it" "it_refId (f it) = it_refId it"
    "it_grantKey (f it) = it_grantKey it" "it_quantity (f it) = it_quantity old + or_one (gi_quantity inp)"
    "it_expiresAt (f it) = merged_expiry (gi_expiresAt inp) (it_expiresAt old) now" for it
    by (simp_all add: f_def)
  have by_id: "item_by (it_id old) s = Some old"
    unfolding item_by_def using find_by_key [OF ids conjunct1 [OF o]] .
  obtain s' where run: "grant_merged inp old now s = (Inr (it_id old, True), s')"
    and it': "items s' = map (\<lambda>x. if it_id x = it_id old then f x else x) (items s)"
    using by_id by (simp add: grant_merged_def updateItem_def f_def [symmetric] f bindA_def log_item_def publish_item_def
        modifyA_def returnA_def)
  have "owned_quantity (gi_userId inp) r s' = owned_quantity (gi_userId inp) r s + or_one (gi_quantity inp)"
    using sum_list_row [OF ids conjunct1 [OF o],
        of "\<lambda>it. if it_userId it = gi_userId inp \<and> it_refId it = Some r then it_quantity (f it) else 0"
           "\<lambda>it. if it_userId it = gi_userId inp \<and> it_refId it = Some r then it_quantity it else 0"] o
    by (simp add: owned_quantity_def it' f comp_def if_distrib cong: if_cong)
  moreover have "map it_grantKey (items s') = map it_grantKey (items s)" by (simp add: it' f)
  moreover have "f old \<in> set (items s')" using o unfolding it' by force
  then have "findByUserIdAndRefId (gi_userId inp) r now s' \<noteq> None"
    using o merged_unexpired [of now "it_expiresAt old" "gi_expiresAt inp"] f unfolding findOwned(2) by metis
  ultimately show thesis using that run by blast
qed

text \<open>
  C20: Whatever is granted, equipped, taken off, moved, fetched, shown or listed, a user has at most one equipped
  item of a type, and equipping that returns leaves exactly that item, unexpired, on among those of its type. A
  listing copies the user's cosmetics into items: it is covered when every live cosmetic that is on has an item that
  is on; see \<open>listing_equips_two\<close> for the other case.
\<close>

theorem one_equipped_item:
  assumes "items_ok s" "mirrored_run ops s"
  shows "length (equipped_of u ty (items (backpack_run ops s))) \<le> 1 \<and>
    (\<forall>i now s'. equip u i now (backpack_run ops s) = (Inr (), s') \<longrightarrow>
       (\<exists>it. it_id it = i \<and> it_userId it = u \<and> unexpired now (it_expiresAt it) \<and>
         equipped_of u (it_type it) (items s') = [it\<lparr>it_equipped := True\<rparr>]))"
proof -
  have ok: "items_ok (backpack_run ops s)" using backpack_run_ok [OF assms] .
  moreover have "\<exists>it. it_id it = i \<and> it_userId it = u \<and> unexpired now (it_expiresAt it) \<and>
      equipped_of u (it_type it) (items s') = [it\<lparr>it_equipped := True\<rparr>]"
    if "equip u i now (backpack_run ops s) = (Inr (), s')" for i now s'
    using equip_run [OF that ok] by blast
  ultimately show ?thesis by (auto simp: items_ok_def)
qed

lemma findByGrantKey_None: "findByGrantKey k s = None \<longleftrightarrow> k \<notin> set (map it_grantKey (items s))"
  by (auto simp: findByGrantKey_def find_None_iff)

text \<open>
  Granting again under the same key answers the item that the first grant created and changes nothing;
  but when the first grant was merged into an item the user owned, its key is not kept, and the repetition
  adds the quantity once more.
\<close>

theorem grant_again:
  assumes "items_ok s" "findByGrantKey (gi_grantKey inp) s = None" "gi_refId inp = Some r"
  shows "case findByUserIdAndRefId (gi_userId inp) r now s of
      None \<Rightarrow> \<exists>i s1. grant inp now s = (Inr (i, False), s1) \<and> (\<forall>later. grant inp later s1 = (Inr (i, True), s1))
    | Some old \<Rightarrow> \<exists>j s1 s2. grant inp now s = (Inr (it_id old, True), s1) \<and> grant inp now s1 = (Inr (j, True), s2) \<and>
        owned_quantity (gi_userId inp) r s2 = owned_quantity (gi_userId inp) r s + 2 * or_one (gi_quantity inp)"
proof (cases "findByUserIdAndRefId (gi_userId inp) r now s")
  case None
  let ?row = "(fresh_item inp now)\<lparr>it_id := next_id s\<rparr>"
  have "create_item (fresh_item inp now) s = (Inr ?row, s\<lparr>items := items s @ [?row], next_id := Suc (next_id s)\<rparr>)"
    using assms(2) by (simp add: create_item_def Let_def fresh_item_def)
  then obtain s1 where s1: "grant inp now s = (Inr (next_id s, False), s1)" "items s1 = items s @ [?row]"
    using None assms(2,3) by (simp add: grant_def bindA_def getsA_def log_item_def publish_item_def modifyA_def returnA_def)
  then have "findByGrantKey (gi_grantKey inp) s1 = Some ?row"
    using assms(2) by (simp add: findByGrantKey_def find_app fresh_item_def)
  with s1(1) have "\<exists>s1. grant inp now s = (Inr (next_id s, False), s1) \<and> findByGrantKey (gi_grantKey inp) s1 = Some ?row"
    by blast
  then show ?thesis using None by (auto simp: grant_def bindA_def getsA_def returnA_def)
next
  case (Some old)
  obtain s1 where s1: "grant_merged inp old now s = (Inr (it_id old, True), s1)"
    "owned_quantity (gi_userId inp) r s1 = owned_quantity (gi_userId inp) r s + or_one (gi_quantity inp)"
    "map it_grantKey (items s1) = map it_grantKey (items s)" "findByUserIdAndRefId (gi_userId inp) r now s1 \<noteq> None"
    using grant_merged_effect [OF assms(1) Some] .
  have g1: "grant inp now s = (Inr (it_id old, True), s1)"
    using assms(2,3) Some s1(1) by (simp add: grant_def bindA_def getsA_def)
  then have ok: "items_ok s1" using items_ok_after [OF items_grant assms(1), of inp now] by simp
  obtain old2 where old2: "findByUserIdAndRefId (gi_userId inp) r now s1 = Some old2" using s1(4) by blast
  obtain s2 where s2: "grant_merged inp old2 now s1 = (Inr (it_id old2, True), s2)"
    "owned_quantity (gi_userId inp) r s2 = owned_quantity (gi_userId inp) r s1 + or_one (gi_quantity inp)"
    using grant_merged_effect [OF ok old2] by blast
  have "findByGrantKey (gi_grantKey inp) s1 = None" using assms(2) s1(3) by (simp only: findByGrantKey_None not_False_eq_True)
  then have "grant inp now s1 = (Inr (it_id old2, True), s2)"
    using assms(3) old2 s2(1) by (simp add: grant_def bindA_def getsA_def)
  then show ?thesis using Some g1 s1(2) s2(2) by auto
qed

section \<open>A wardrobe\<close>

definition bare_backpack :: item_db where
  "bare_backpack = wdb.extend init_db \<lparr>items = [], item_logs = [], cosmetics = [], user_cosmetics = [], item_bus = []\<rparr>"

definition frame_grant :: "string \<Rightarrow> grant_input" where
  "frame_grant k = \<lparr>gi_userId = 4, gi_type = FRAME, gi_name = ''Bronze Profile Frame'', gi_source = FROM_TREASURE_BOX,
     gi_refId = Some 9, gi_quantity = None, gi_transferable = Some True, gi_grantKey = k, gi_expiresAt = None\<rparr>"

lemma bare_backpack_ok: "items_ok bare_backpack"
  by (simp add: items_ok_def equipped_of_def bare_backpack_def wdb.defs)

definition silver_frame :: cosmetic where
  "silver_frame = \<lparr>cs_id = 9, cs_type = FRAME, cs_name = ''Silver Frame'', cs_mediaUrl = ''s'', cs_thumbnailUrl = None,
     cs_price = 0, cs_enabled = True, cs_isPremium = False\<rparr>"

text \<open>A backpack whose user put on a free frame of the catalogue, which has no item yet.\<close>

definition worn :: item_db where
  "worn = bare_backpack\<lparr>cosmetics := [silver_frame],
     user_cosmetics := [\<lparr>uc_id = 1, uc_userId = 4, uc_cosmeticId = 9, uc_equipped = True, uc_expiresAt = None\<rparr>]\<rparr>"

definition all_items :: list_query where
  "all_items = \<lparr>lq_skip = 0, lq_take = 20, lq_type = None, lq_equipped = None\<rparr>"

text \<open>
  The first listing gives the default frame, on because no item is, and then copies the worn frame, on as well: two
  equipped frames.
\<close>

theorem listing_equips_two:
  "items_ok worn \<and> (let s' = snd (listItems (\<lambda>_. False) 4 all_items 10 worn) in
     map it_name (equipped_of 4 FRAME (items s')) = [''Default Pink Frame'', ''Silver Frame''])"
proof
  show "items_ok worn" by (simp add: items_ok_def equipped_of_def worn_def bare_backpack_def wdb.defs)
  show "let s' = snd (listItems (\<lambda>_. False) 4 all_items 10 worn) in
     map it_name (equipped_of 4 FRAME (items s')) = [''Default Pink Frame'', ''Silver Frame'']" by code_simp
qed

text \<open>
  The clean-up makes every item that was no gift transferable, the default frame too: its user can give it away, and
  since it keeps its key no later read gives the user another one.
\<close>

theorem default_frame_given_away:
  "map it_userId (items (backpack_run [List_items (\<lambda>_. False) 4 all_items 10, Transfer 4 1 5 20,
     Show_equipped 4 FRAME 30] bare_backpack)) = [5]"
  by code_simp

text \<open>A frame of the catalogue is given away, put on by its new owner, and listed.\<close>

definition dressing :: "backpack_op list" where
  "dressing = [Grant (frame_grant ''a'') 10, Transfer 4 1 5 20, Equip 5 1 30, List_items (\<lambda>_. False) 5 all_items 40]"

theorem one_equipped_item_witness:
  "length (equipped_of 5 FRAME (items (backpack_run dressing (bare_backpack\<lparr>cosmetics := [silver_frame]\<rparr>)))) \<le> 1 \<and>
   map (\<lambda>it. (it_userId it, it_equipped it)) (items (backpack_run dressing (bare_backpack\<lparr>cosmetics := [silver_frame]\<rparr>))) =
     [(5, True), (4, True), (5, False)]"
proof -
  let ?s = "bare_backpack\<lparr>cosmetics := [silver_frame]\<rparr>"
  have ok: "items_ok ?s" by (simp add: items_ok_def equipped_of_def bare_backpack_def wdb.defs)
  have m: "mirrored_run dressing ?s" by code_simp
  have "map (\<lambda>it. (it_userId it, it_equipped it)) (items (backpack_run dressing ?s)) = [(5, True), (4, True), (5, False)]"
    by code_simp
  then show ?thesis using one_equipped_item [OF ok m, of 5 FRAME] by blast
qed

theorem grant_again_witness:
  "owned_quantity 4 9 (backpack_run [Grant (frame_grant ''a'') 10, Grant (frame_grant ''b'') 20,
     Grant (frame_grant ''b'') 20] bare_backpack) = 3"
proof -
  let ?s = "backpack_run [Grant (frame_grant ''a'') 10] bare_backpack"
  have c: "findByGrantKey ''b'' ?s = None" "owned_quantity 4 9 ?s = 1"
    "case findByUserIdAndRefId 4 9 20 ?s of None \<Rightarrow> False | Some _ \<Rightarrow> True" by code_simp+
  have g: "gi_grantKey (frame_grant ''b'') = ''b''" "gi_refId (frame_grant ''b'') = Some 9" "gi_userId (frame_grant ''b'') = 4"
    "gi_quantity (frame_grant ''b'') = None" by (simp_all add: frame_grant_def)
  have "items_ok ?s" by (rule backpack_run_ok [OF bare_backpack_ok]) simp
  from grant_again [OF this, of "frame_grant ''b''" 9 20] c show ?thesis
    by (auto simp: g or_one_def backpack_run_def split: option.splits)
qed

end
