(* ===== verification/Treasure.thy ===== *)
theory Treasure
  imports Backpack
begin

text \<open>
  Treasure boxes (src/modules/treasure-boxes): a room's daily session of five boxes. Gifts fill the
  current box; a full box opens, its best contributors get the configured rewards, and the next box
  becomes the current one. The code fills the boxes in two places: \<open>processTreasureContribution\<close> inside the
  transaction of an audio-room gift (treasure.service.ts), which returns what overflows to the sender,
  and \<open>applyGiftProgress\<close> with \<open>handleGiftSent\<close> for every sent-gift event of audio and video rooms
  (treasure-progress.service.ts, treasure-event.service.ts). The tables extend the backpack's and the
  wallet's. Audio-room answers are \<open>troom_env\<close>; times are milliseconds. Where PostgreSQL leaves the order of
  equal sums open, the model keeps the order of the first contribution.
\<close>

section \<open>Tables\<close>

datatype tsession_status = TS_ACTIVE | TS_COMPLETED | TS_CANCELLED | TS_DRAFT | TS_PAUSED | TS_CLOSED | TS_ARCHIVED

datatype tbox_status = TB_PENDING | TB_ACTIVE | TB_OPENED | TB_UNLOCKING

datatype reward_kind = RK_COINS | RK_ITEM

record reward_entry =
  rw_rank :: nat
  rw_kind :: reward_kind
  rw_coins :: "int option"
  rw_itemType :: "item_type option"
  rw_itemName :: "string option"
  rw_itemRefId :: "nat option"
  rw_transferable :: "bool option"

record box_config =
  bc_level :: nat
  bc_threshold :: int
  bc_rewards :: "reward_entry list"
  bc_enabled :: bool

record tsession =
  ts_id :: nat
  ts_roomId :: nat
  ts_contextType :: string
  ts_startedBy :: uid
  ts_status :: tsession_status
  ts_currentLevel :: nat
  ts_createdAt :: int
  ts_completedAt :: "int option"

text \<open>A contributor with the rank and the amount the opened box keeps of it.\<close>

type_synonym ranked = "nat \<times> uid \<times> int"

record tbox =
  tb_id :: nat
  tb_sessionId :: nat
  tb_roomId :: nat
  tb_level :: nat
  tb_threshold :: int
  tb_progress :: int
  tb_status :: tbox_status
  tb_topGifters :: "ranked list option"
  tb_openedAt :: "int option"

record contribution =
  tc_boxId :: nat
  tc_sessionId :: nat
  tc_roomId :: nat
  tc_userId :: uid
  tc_amount :: int
  tc_giftTxnId :: "nat option"
  tc_createdAt :: int

record distributed =
  di_userId :: uid
  di_rank :: nat
  di_kind :: reward_kind
  di_coins :: "int option"
  di_itemType :: "item_type option"
  di_itemName :: "string option"
  di_walletTxnId :: "nat option"
  di_itemId :: "nat option"

record treward =
  tr_sessionId :: nat
  tr_boxId :: nat
  tr_roomId :: nat
  tr_level :: nat
  tr_given :: distributed

datatype room_event =
    SessionStarted nat nat nat int
  | TreasureProgress nat nat nat int int "ranked list"
  | BoxOpened nat nat nat "ranked list" "distributed list" "nat option"
  | SessionCompleted nat nat
  | CounterUpdated nat uid int int
  | GiftRefunded nat uid uid nat nat string int int

record treasure_audit =
  ta_action :: string
  ta_roomId :: "nat option"
  ta_boxId :: "nat option"
  ta_actorId :: "uid option"

record treasure_db = item_db +
  box_configs :: "box_config list"
  tsessions :: "tsession list"
  tboxes :: "tbox list"
  contributions :: "contribution list"
  trewards :: "treward list"
  room_counter :: "nat \<Rightarrow> int"
  user_counter :: "uid \<Rightarrow> int"
  room_counter_cache :: "nat \<Rightarrow> int option"
  user_counter_cache :: "uid \<Rightarrow> int option"
  treasure_audits :: "treasure_audit list"
  room_bus :: "room_event list"

record troom_env =
  tr_ownerId :: "nat \<Rightarrow> uid option"
  tr_isRoomLive :: "nat \<Rightarrow> bool"
  tr_isManager :: "nat \<Rightarrow> uid \<Rightarrow> bool"

definition TREASURE_BOX_COUNT :: nat where
  "TREASURE_BOX_COUNT = 5"

definition DAY :: int where
  "DAY = 86400000"

definition today_start :: "int \<Rightarrow> int" where
  "today_start now = now div DAY * DAY"

section \<open>Repository\<close>

definition enabled_configs :: "('z treasure_db_scheme) \<Rightarrow> box_config list" where
  "enabled_configs s = sort_key bc_level (filter bc_enabled (box_configs s))"

definition config_of :: "nat \<Rightarrow> ('z treasure_db_scheme) \<Rightarrow> box_config option" where
  "config_of l s = List.find (\<lambda>c. bc_level c = l) (box_configs s)"

definition config_at :: "box_config list \<Rightarrow> nat \<Rightarrow> box_config option" where
  "config_at cs l = List.find (\<lambda>c. bc_level c = l) cs"

definition active_session :: "nat \<Rightarrow> ('z treasure_db_scheme) \<Rightarrow> tsession option" where
  "active_session room s = List.find (\<lambda>t. ts_roomId t = room \<and> ts_status t = TS_ACTIVE) (tsessions s)"

definition completed_since :: "nat \<Rightarrow> int \<Rightarrow> ('z treasure_db_scheme) \<Rightarrow> tsession option" where
  "completed_since room t0 s =
     List.find (\<lambda>t. ts_roomId t = room \<and> ts_status t = TS_COMPLETED \<and> t0 \<le> ts_createdAt t) (tsessions s)"

definition session_by :: "nat \<Rightarrow> ('z treasure_db_scheme) \<Rightarrow> tsession option" where
  "session_by i s = List.find (\<lambda>t. ts_id t = i) (tsessions s)"

definition box_by_level :: "nat \<Rightarrow> nat \<Rightarrow> ('z treasure_db_scheme) \<Rightarrow> tbox option" where
  "box_by_level i l s = List.find (\<lambda>b. tb_sessionId b = i \<and> tb_level b = l) (tboxes s)"

definition create_session :: "nat \<Rightarrow> uid \<Rightarrow> string \<Rightarrow> int \<Rightarrow> ('z treasure_db_scheme, tsession) act" where
  "create_session room u ctx now s =
     (let t = \<lparr>ts_id = next_id s, ts_roomId = room, ts_contextType = ctx, ts_startedBy = u, ts_status = TS_ACTIVE,
               ts_currentLevel = 1, ts_createdAt = now, ts_completedAt = None\<rparr>
      in (Inr t, s\<lparr>tsessions := tsessions s @ [t], next_id := Suc (next_id s)\<rparr>))"

definition update_session :: "nat \<Rightarrow> (tsession \<Rightarrow> tsession) \<Rightarrow> ('z treasure_db_scheme, unit) act" where
  "update_session i f s =
     (if session_by i s = None then (Inl (OtherError ''P2025''), s)
      else (Inr (), s\<lparr>tsessions := map (\<lambda>t. if ts_id t = i then f t else t) (tsessions s)\<rparr>))"

definition finish_session :: "nat \<Rightarrow> tsession_status \<Rightarrow> int \<Rightarrow> ('z treasure_db_scheme, unit) act" where
  "finish_session i st now = update_session i (\<lambda>t. t\<lparr>ts_status := st, ts_completedAt := Some now\<rparr>)"

definition set_level :: "nat \<Rightarrow> nat \<Rightarrow> ('z treasure_db_scheme, unit) act" where
  "set_level i l = update_session i (\<lambda>t. t\<lparr>ts_currentLevel := l\<rparr>)"

text \<open>The pair of session and level is unique.\<close>

definition create_box :: "nat \<Rightarrow> nat \<Rightarrow> nat \<Rightarrow> int \<Rightarrow> tbox_status \<Rightarrow> ('z treasure_db_scheme, tbox) act" where
  "create_box i room l threshold st s =
     (if box_by_level i l s \<noteq> None then (Inl P2002, s)
      else let b = \<lparr>tb_id = next_id s, tb_sessionId = i, tb_roomId = room, tb_level = l, tb_threshold = threshold,
                    tb_progress = 0, tb_status = st, tb_topGifters = None, tb_openedAt = None\<rparr>
           in (Inr b, s\<lparr>tboxes := tboxes s @ [b], next_id := Suc (next_id s)\<rparr>))"

definition update_box :: "nat \<Rightarrow> nat \<Rightarrow> (tbox \<Rightarrow> tbox) \<Rightarrow> ('z treasure_db_scheme, tbox) act" where
  "update_box i l f s =
     (case box_by_level i l s of
        None \<Rightarrow> (Inl (OtherError ''P2025''), s)
      | Some b \<Rightarrow> (Inr (f b), s\<lparr>tboxes := map (\<lambda>c. if tb_sessionId c = i \<and> tb_level c = l then f c else c) (tboxes s)\<rparr>))"

definition add_contribution ::
  "tbox \<Rightarrow> nat \<Rightarrow> uid \<Rightarrow> int \<Rightarrow> nat option \<Rightarrow> int \<Rightarrow> ('z treasure_db_scheme, unit) act" where
  "add_contribution b room u amt g now = modifyA (\<lambda>s. s\<lparr>contributions := contributions s @
     [\<lparr>tc_boxId = tb_id b, tc_sessionId = tb_sessionId b, tc_roomId = room, tc_userId = u, tc_amount = amt,
       tc_giftTxnId = g, tc_createdAt = now\<rparr>]\<rparr>)"

definition gave_to :: "nat \<Rightarrow> uid \<Rightarrow> contribution list \<Rightarrow> int" where
  "gave_to b u cs = sum_list (map tc_amount (filter (\<lambda>c. tc_boxId c = b \<and> tc_userId c = u) cs))"

definition contributors :: "nat \<Rightarrow> contribution list \<Rightarrow> uid list" where
  "contributors b cs = rev (remdups (rev (map tc_userId (filter (\<lambda>c. tc_boxId c = b) cs))))"

definition topContributors :: "nat \<Rightarrow> nat \<Rightarrow> ('z treasure_db_scheme) \<Rightarrow> ranked list" where
  "topContributors b n s =
     (let us = take n (sort_key (\<lambda>u. - gave_to b u (contributions s)) (contributors b (contributions s)))
      in zip [1..<Suc (length us)] (map (\<lambda>u. (u, gave_to b u (contributions s))) us))"

definition create_reward :: "nat \<Rightarrow> nat \<Rightarrow> nat \<Rightarrow> nat \<Rightarrow> distributed \<Rightarrow> ('z treasure_db_scheme, unit) act" where
  "create_reward i b room l d = modifyA (\<lambda>s. s\<lparr>trewards := trewards s @
     [\<lparr>tr_sessionId = i, tr_boxId = b, tr_roomId = room, tr_level = l, tr_given = d\<rparr>]\<rparr>)"

definition incrementRoomContribution :: "nat \<Rightarrow> int \<Rightarrow> ('z treasure_db_scheme, int) act" where
  "incrementRoomContribution room amt s =
     (let t = room_counter s room + amt in (Inr t, s\<lparr>room_counter := (room_counter s)(room := t)\<rparr>))"

definition incrementUserContribution :: "uid \<Rightarrow> int \<Rightarrow> ('z treasure_db_scheme, int) act" where
  "incrementUserContribution u amt s =
     (let t = user_counter s u + amt in (Inr t, s\<lparr>user_counter := (user_counter s)(u := t)\<rparr>))"

definition publish_room :: "room_event \<Rightarrow> ('z treasure_db_scheme, unit) act" where
  "publish_room e = modifyA (\<lambda>s. s\<lparr>room_bus := room_bus s @ [e]\<rparr>)"

definition audit_treasure ::
  "string \<Rightarrow> nat option \<Rightarrow> nat option \<Rightarrow> uid option \<Rightarrow> ('z treasure_db_scheme, unit) act" where
  "audit_treasure a room b u = modifyA (\<lambda>s. s\<lparr>treasure_audits := treasure_audits s @
     [\<lparr>ta_action = a, ta_roomId = room, ta_boxId = b, ta_actorId = u\<rparr>]\<rparr>)"


section \<open>Rewards\<close>

text \<open>reward-distributor.service.ts; \<open>joined\<close> says that the caller passed its transaction.\<close>

record distribution_input =
  dn_recipients :: "(nat \<times> uid) list"
  dn_prefix :: string
  dn_walletReason :: reason
  dn_source :: item_source
  dn_referenceType :: string
  dn_referenceId :: nat

definition coins_movement :: "distribution_input \<Rightarrow> uid \<Rightarrow> nat \<Rightarrow> int \<Rightarrow> movement" where
  "coins_movement inp u rank c =
     \<lparr>m_userId = u, m_currency = GOLD, m_amount = of_int c, m_reason = dn_walletReason inp,
      m_key = dn_prefix inp @ '':r'' @ show_nat rank @ '':coins'', m_referenceType = Some (dn_referenceType inp),
      m_referenceId = Some (show_nat (dn_referenceId inp)), m_actorId = None\<rparr>"

definition item_grant :: "distribution_input \<Rightarrow> uid \<Rightarrow> reward_entry \<Rightarrow> item_type \<Rightarrow> string \<Rightarrow> grant_input" where
  "item_grant inp u rw ty name =
     \<lparr>gi_userId = u, gi_type = ty, gi_name = name, gi_source = dn_source inp, gi_refId = rw_itemRefId rw,
      gi_quantity = None, gi_transferable = Some (rw_transferable rw = Some True),
      gi_grantKey = dn_prefix inp @ '':r'' @ show_nat (rw_rank rw) @ '':item'', gi_expiresAt = None\<rparr>"

definition give_one ::
  "distribution_input \<Rightarrow> bool \<Rightarrow> int \<Rightarrow> reward_entry \<Rightarrow> ('z treasure_db_scheme, distributed list) act" where
  "give_one inp joined now rw =
     (case map_of (dn_recipients inp) (rw_rank rw) of
        None \<Rightarrow> returnA []
      | Some u \<Rightarrow>
          (case (rw_kind rw, rw_coins rw, rw_itemType rw, rw_itemName rw) of
             (RK_COINS, Some c, _, _) \<Rightarrow>
               if 0 < c
               then bindA (credit (coins_movement inp u (rw_rank rw) c) joined) (\<lambda>res.
                    returnA [\<lparr>di_userId = u, di_rank = rw_rank rw, di_kind = RK_COINS, di_coins = Some c,
                              di_itemType = None, di_itemName = None,
                              di_walletTxnId = Some (mr_transactionId res), di_itemId = None\<rparr>])
               else returnA []
           | (RK_ITEM, _, Some ty, Some name) \<Rightarrow>
               if name \<noteq> []
               then bindA (grant (item_grant inp u rw ty name) now) (\<lambda>(i, _).
                    returnA [\<lparr>di_userId = u, di_rank = rw_rank rw, di_kind = RK_ITEM, di_coins = None,
                              di_itemType = Some ty, di_itemName = Some name, di_walletTxnId = None,
                              di_itemId = Some i\<rparr>])
               else returnA []
           | _ \<Rightarrow> returnA []))"

fun distribute ::
  "distribution_input \<Rightarrow> bool \<Rightarrow> int \<Rightarrow> reward_entry list \<Rightarrow> ('z treasure_db_scheme, distributed list) act" where
  "distribute inp joined now [] = returnA []"
| "distribute inp joined now (rw # rws) =
     bindA (give_one inp joined now rw) (\<lambda>ds.
     bindA (distribute inp joined now rws) (\<lambda>rest. returnA (ds @ rest)))"

definition box_input :: "string \<Rightarrow> nat \<Rightarrow> ranked list \<Rightarrow> distribution_input" where
  "box_input tag b tops =
     \<lparr>dn_recipients = map (\<lambda>(r, u, _). (r, u)) tops, dn_prefix = tag @ show_nat b, dn_walletReason = TREASURE_BOX,
      dn_source = FROM_TREASURE_BOX, dn_referenceType = ''treasure_box'', dn_referenceId = b\<rparr>"

section \<open>Sessions\<close>

definition create_level :: "nat \<Rightarrow> nat \<Rightarrow> box_config list \<Rightarrow> nat \<Rightarrow> ('z treasure_db_scheme, unit) act" where
  "create_level room i cs l =
     (case config_at cs l of
        None \<Rightarrow> throwA (OtherError ''TypeError'')
      | Some c \<Rightarrow> bindA (create_box i room l (bc_threshold c) (if l = 1 then TB_ACTIVE else TB_PENDING)) (\<lambda>_. returnA ()))"

definition create_ladder :: "nat \<Rightarrow> uid \<Rightarrow> box_config list \<Rightarrow> int \<Rightarrow> ('z treasure_db_scheme, tsession) act" where
  "create_ladder room u cs now =
     bindA (create_session room u ''AUDIO_ROOM'' now) (\<lambda>t.
     bindA (forA (create_level room (ts_id t) cs) [1..<Suc TREASURE_BOX_COUNT]) (\<lambda>_.
     returnA t))"

definition first_threshold :: "box_config list \<Rightarrow> int" where
  "first_threshold cs = (case config_at cs 1 of None \<Rightarrow> 0 | Some c \<Rightarrow> toNumber (bc_threshold c))"

text \<open>The session a contribution goes to: today's, opened in the same transaction when there is none yet.\<close>

definition session_for_gift ::
  "nat \<Rightarrow> uid \<Rightarrow> int \<Rightarrow> ('z treasure_db_scheme, tsession option \<times> room_event list) act" where
  "session_for_gift room sender now =
     bindA (getsA (active_session room)) (\<lambda>found.
     bindA (case found of
         None \<Rightarrow> returnA None
       | Some t \<Rightarrow>
           if ts_createdAt t < today_start now
           then bindA (finish_session (ts_id t) TS_COMPLETED now) (\<lambda>_. returnA None)
           else returnA (Some t)) (\<lambda>current.
     case current of
       Some t \<Rightarrow> returnA (Some t, [])
     | None \<Rightarrow>
         bindA (getsA (completed_since room (today_start now))) (\<lambda>over.
         if over \<noteq> None then returnA (None, [])
         else bindA (getsA enabled_configs) (\<lambda>cs.
              if length cs < TREASURE_BOX_COUNT then returnA (None, [])
              else bindA (create_ladder room sender cs now) (\<lambda>t.
                   returnA (Some t, [SessionStarted room (ts_id t) 1 (first_threshold cs)]))))))"


section \<open>A contribution inside the gift's transaction\<close>

text \<open>Opening the full box: its snapshot, and the rewards of its level for its ranked contributors.\<close>

definition open_box ::
  "nat \<Rightarrow> nat \<Rightarrow> tbox \<Rightarrow> ranked list \<Rightarrow> int \<Rightarrow> ('z treasure_db_scheme, distributed list) act" where
  "open_box i room b tops now =
     bindA (update_box i (tb_level b) (\<lambda>x. x\<lparr>tb_status := TB_OPENED, tb_topGifters := Some tops,
         tb_openedAt := Some now\<rparr>)) (\<lambda>_.
     bindA (getsA (config_of (tb_level b))) (\<lambda>cfg.
     bindA (distribute (box_input ''treasure:'' (tb_id b) tops) True now
         (case cfg of None \<Rightarrow> [] | Some c \<Rightarrow> bc_rewards c)) (\<lambda>ds.
     bindA (forA (create_reward i (tb_id b) room (tb_level b)) ds) (\<lambda>_.
     returnA ds))))"

text \<open>One turn of the loop: it ends with what it accepted and refunds, or goes on with what remains.\<close>

datatype turn =
    Stop int int "room_event list"
  | Again int int "room_event list"

definition advance_box :: "nat \<Rightarrow> nat \<Rightarrow> ('z treasure_db_scheme, tbox) act" where
  "advance_box i l =
     bindA (set_level i (Suc l)) (\<lambda>_.
     update_box i (Suc l) (\<lambda>x. x\<lparr>tb_status := TB_ACTIVE\<rparr>))"

definition fill_box ::
  "nat \<Rightarrow> nat \<Rightarrow> uid \<Rightarrow> nat \<Rightarrow> int \<Rightarrow> tbox \<Rightarrow> int \<Rightarrow> ('z treasure_db_scheme, turn) act" where
  "fill_box i room u g now b remaining =
     (let needed = tb_threshold b - tb_progress b;
          added = (if needed \<le> remaining then needed else remaining)
      in bindA (add_contribution b room u added (Some g) now) (\<lambda>_.
         bindA (update_box i (tb_level b) (\<lambda>x. x\<lparr>tb_progress := tb_progress x + added\<rparr>)) (\<lambda>b'.
         bindA (getsA (topContributors (tb_id b) 3)) (\<lambda>tops.
         let step = TreasureProgress room i (tb_level b) (toNumber (tb_progress b')) (toNumber (tb_threshold b')) tops
         in if tb_progress b' < tb_threshold b' then returnA (Again added (remaining - added) [step])
            else bindA (open_box i room b tops now) (\<lambda>ds.
                 if TREASURE_BOX_COUNT \<le> tb_level b
                 then bindA (finish_session i TS_COMPLETED now) (\<lambda>_.
                      returnA (Stop added (remaining - added)
                        [step, BoxOpened room i (tb_level b) tops ds None, SessionCompleted room i]))
                 else bindA (advance_box i (tb_level b)) (\<lambda>nb.
                      returnA (Again added (remaining - added)
                        [step, BoxOpened room i (tb_level b) tops ds (Some (Suc (tb_level b))),
                         TreasureProgress room i (Suc (tb_level b)) (toNumber (tb_progress nb))
                           (toNumber (tb_threshold nb)) []])))))))"

definition pour_turn ::
  "nat \<Rightarrow> nat \<Rightarrow> uid \<Rightarrow> nat \<Rightarrow> int \<Rightarrow> int \<Rightarrow> ('z treasure_db_scheme, turn) act" where
  "pour_turn i room u g now remaining =
     bindA (getsA (session_by i)) (\<lambda>fresh.
     case fresh of
       None \<Rightarrow> returnA (Stop 0 remaining [])
     | Some t \<Rightarrow>
         if ts_status t \<noteq> TS_ACTIVE then returnA (Stop 0 remaining [])
         else bindA (getsA (box_by_level i (ts_currentLevel t))) (\<lambda>found.
              case found of
                None \<Rightarrow> returnA (Stop 0 remaining [])
              | Some b \<Rightarrow>
                  if tb_status b \<noteq> TB_ACTIVE then returnA (Stop 0 remaining [])
                  else if tb_threshold b - tb_progress b \<le> 0
                  then if TREASURE_BOX_COUNT \<le> tb_level b then returnA (Stop 0 remaining [])
                       else bindA (advance_box i (ts_currentLevel t)) (\<lambda>_. returnA (Again 0 remaining []))
                  else fill_box i room u g now b remaining))"

section \<open>The loop ends\<close>

text \<open>
  Every turn that goes on either raises the session's level, which stays below five, or leaves less.
  Paying rewards touches nothing but the wallet and the backpack.
\<close>

definition same_client :: "('z wdb_scheme) \<Rightarrow> ('z wdb_scheme) \<Rightarrow> bool" where
  "same_client s s' \<longleftrightarrow> wdb.more s' = wdb.more s"

interpretation wallet_only: step_order same_client
  by unfold_locales (simp_all add: same_client_def)

lemma same_client_tables:
  "wallet_only.ok (createWallet u ty)" "wallet_only.ok (ensureWallet u)" "wallet_only.ok (putWallet i f)"
  "wallet_only.ok (createTxn mk)" "wallet_only.ok (appendLedgerEntry e)" "wallet_only.ok (publishMovement ev)"
  "wallet_only.ok (findUniqueOrThrow u)"
  by (auto simp: wallet_only.ok_def same_client_def createWallet_def ensureWallet_def putWallet_def createTxn_def
      appendLedgerEntry_def publishMovement_def findUniqueOrThrow_def bindA_def returnA_def Let_def
      split: option.split)

lemma same_client_transaction: "wallet_only.ok m \<Longrightarrow> wallet_only.ok (transaction m)"
  by (auto simp: wallet_only.ok_def same_client_def transaction_def rollback_def split: prod.split sum.split)
     (metis snd_conv)

lemma same_client_move: "wallet_only.ok (move ty m j)"
  unfolding move_def move_run_def replay_def publish_def validateEconomyStatus_def applyMovement_def Let_def
  by (auto intro!: wallet_only.ok_bind wallet_only.ok_if wallet_only.ok_option same_client_tables
      same_client_transaction)

definition same_treasure :: "('z treasure_db_scheme) \<Rightarrow> ('z treasure_db_scheme) \<Rightarrow> bool" where
  "same_treasure s s' \<longleftrightarrow> item_db.more s' = item_db.more s"

interpretation reward_only: step_order same_treasure
  by unfold_locales (simp_all add: same_treasure_def)

lemma same_treasure_sel:
  "same_treasure s s' \<Longrightarrow> tsessions s' = tsessions s \<and> tboxes s' = tboxes s \<and> contributions s' = contributions s \<and>
     box_configs s' = box_configs s \<and> trewards s' = trewards s \<and> room_bus s' = room_bus s \<and>
     room_counter s' = room_counter s \<and> user_counter s' = user_counter s"
  by (cases s; cases s') (auto simp: same_treasure_def)


lemma same_client_same_treasure: "same_client s s' \<Longrightarrow> same_treasure s s'"
  by (cases s; cases s') (auto simp: same_client_def same_treasure_def)

lemma same_treasure_credit: "reward_only.ok (credit m j)"
  unfolding reward_only.ok_def credit_def
  using same_client_move [of CREDIT m j] same_client_same_treasure by (auto simp: wallet_only.ok_def)

lemma same_treasure_items:
  "reward_only.ok (create_item it)" "reward_only.ok (updateItem i f)" "reward_only.ok (log_item u a x)"
  "reward_only.ok (publish_item ev)"
  by (auto simp: reward_only.ok_def same_treasure_def create_item_def updateItem_def log_item_def publish_item_def
      modifyA_def Let_def split: option.split)

lemma same_treasure_grant: "reward_only.ok (grant inp now)"
  unfolding grant_def grant_merged_def
  by (auto intro!: reward_only.ok_bind reward_only.ok_option same_treasure_items)

lemma same_treasure_give: "reward_only.ok (give_one inp j now rw)"
  unfolding give_one_def
  by (cases "rw_kind rw") (auto intro!: reward_only.ok_bind same_treasure_credit same_treasure_grant
      split: option.split prod.split)

lemma same_treasure_distribute: "reward_only.ok (distribute inp j now rws)"
  by (induction rws) (auto intro!: reward_only.ok_bind same_treasure_give)


lemma find_update:
  assumes "\<And>x. key (f x) = key x"
  shows "List.find (\<lambda>x. key x = k) (map (\<lambda>x. if key x = j then f x else x) xs) =
     (if k = j then map_option f (List.find (\<lambda>x. key x = k) xs) else List.find (\<lambda>x. key x = k) xs)"
  using assms by (induction xs) auto

lemma session_update:
  assumes "\<And>t. ts_id (f t) = ts_id t" "update_session j f s = (Inr (), s')"
  shows "session_by i s' = (if i = j then map_option f (session_by i s) else session_by i s)"
  using assms(2) find_update [of ts_id f i j "tsessions s", OF assms(1)]
  by (auto simp: update_session_def session_by_def split: if_splits)

definition level_of :: "nat \<Rightarrow> ('z treasure_db_scheme) \<Rightarrow> nat" where
  "level_of i s = (case session_by i s of None \<Rightarrow> 0 | Some t \<Rightarrow> ts_currentLevel t)"

lemma level_set_level:
  assumes "set_level i l s = (Inr (), s')"
  shows "level_of i s' = l" "session_by i s \<noteq> None"
proof -
  show some: "session_by i s \<noteq> None" using assms by (auto simp: set_level_def update_session_def split: if_splits)
  show "level_of i s' = l"
    using session_update [OF _ assms [unfolded set_level_def], of i] some
    by (auto simp: level_of_def split: option.split)
qed

text \<open>The steps of a turn that write no session.\<close>

definition same_sessions :: "('z treasure_db_scheme) \<Rightarrow> ('z treasure_db_scheme) \<Rightarrow> bool" where
  "same_sessions s s' \<longleftrightarrow> tsessions s' = tsessions s"

interpretation no_session: step_order same_sessions
  by unfold_locales (simp_all add: same_sessions_def)

lemma no_session_steps:
  "no_session.ok (add_contribution b room u amt g now)" "no_session.ok (update_box i l f)"
  "no_session.ok (create_reward i bi room l d)" "no_session.ok (publish_room e)"
  by (auto simp: no_session.ok_def same_sessions_def add_contribution_def update_box_def create_reward_def
      publish_room_def modifyA_def split: option.split)

lemma no_session_distribute: "no_session.ok (distribute inp j now rws)"
  using same_treasure_distribute [of inp j now rws]
  by (auto simp: no_session.ok_def reward_only.ok_def same_sessions_def dest: same_treasure_sel)

lemma no_session_open: "no_session.ok (open_box i room b tops now)"
  unfolding open_box_def
  by (auto intro!: no_session.ok_bind no_session.ok_for no_session_steps no_session_distribute)

lemma same_sessions_level: "same_sessions s s' \<Longrightarrow> level_of i s' = level_of i s"
  by (simp add: same_sessions_def level_of_def session_by_def)

lemma advance_level:
  assumes "advance_box i l s = (Inr b, s')"
  shows "level_of i s' = Suc l"
proof -
  obtain s1 where s1: "set_level i (Suc l) s = (Inr (), s1)"
    and b: "update_box i (Suc l) (\<lambda>x. x\<lparr>tb_status := TB_ACTIVE\<rparr>) s1 = (Inr b, s')"
    using assms by (auto simp: advance_box_def bindA_Inr)
  have "same_sessions s1 s'" using no_session.okD [OF no_session_steps(2) b] .
  then show ?thesis using same_sessions_level level_set_level(1) [OF s1] by metis
qed

lemma bindA_InrE:
  assumes "bindA m k s = (Inr b, s')"
  obtains a s1 where "m s = (Inr a, s1)" "k a s1 = (Inr b, s')"
  using assms bindA_Inr by metis

text \<open>The runs of a filling turn: it ends within the box, with the last box, or goes on with the next.\<close>

lemma fill_box_run:
  assumes run: "fill_box i room u g now b remaining s = (Inr out, s')"
    and a: "a = (if tb_threshold b - tb_progress b \<le> remaining then tb_threshold b - tb_progress b else remaining)"
  obtains s1 b1 s2 ev where "add_contribution b room u a (Some g) now s = (Inr (), s1)"
      "update_box i (tb_level b) (\<lambda>x. x\<lparr>tb_progress := tb_progress x + a\<rparr>) s1 = (Inr b1, s2)"
      "tb_progress b1 < tb_threshold b1" "out = Again a (remaining - a) ev" "s' = s2"
  | s1 b1 s2 tops ds s3 ev where "add_contribution b room u a (Some g) now s = (Inr (), s1)"
      "update_box i (tb_level b) (\<lambda>x. x\<lparr>tb_progress := tb_progress x + a\<rparr>) s1 = (Inr b1, s2)"
      "tb_threshold b1 \<le> tb_progress b1" "open_box i room b tops now s2 = (Inr ds, s3)" "5 \<le> tb_level b"
      "finish_session i TS_COMPLETED now s3 = (Inr (), s')" "out = Stop a (remaining - a) ev"
  | s1 b1 s2 tops ds s3 ev nb where "add_contribution b room u a (Some g) now s = (Inr (), s1)"
      "update_box i (tb_level b) (\<lambda>x. x\<lparr>tb_progress := tb_progress x + a\<rparr>) s1 = (Inr b1, s2)"
      "tb_threshold b1 \<le> tb_progress b1" "open_box i room b tops now s2 = (Inr ds, s3)" "tb_level b < 5"
      "advance_box i (tb_level b) s3 = (Inr nb, s')" "out = Again a (remaining - a) ev"
proof -
  note r0 = run [unfolded fill_box_def Let_def a [symmetric] TREASURE_BOX_COUNT_def]
  from r0 show thesis
  proof (elim bindA_InrE)
    fix x s1 b1 s2 tops s2'
    assume s1: "add_contribution b room u a (Some g) now s = (Inr x, s1)"
      and s2: "update_box i (tb_level b) (\<lambda>x. x\<lparr>tb_progress := tb_progress x + a\<rparr>) s1 = (Inr b1, s2)"
      and g: "getsA (topContributors (tb_id b) 3) s2 = (Inr tops, s2')"
      and r: "(if tb_progress b1 < tb_threshold b1
        then returnA (Again a (remaining - a)
               [TreasureProgress room i (tb_level b) (toNumber (tb_progress b1)) (toNumber (tb_threshold b1)) tops])
        else bindA (open_box i room b tops now) (\<lambda>ds.
          if 5 \<le> tb_level b
          then bindA (finish_session i TS_COMPLETED now) (\<lambda>_.
            returnA (Stop a (remaining - a)
              [TreasureProgress room i (tb_level b) (toNumber (tb_progress b1)) (toNumber (tb_threshold b1)) tops,
               BoxOpened room i (tb_level b) tops ds None, SessionCompleted room i]))
          else bindA (advance_box i (tb_level b)) (\<lambda>nb.
            returnA (Again a (remaining - a)
              [TreasureProgress room i (tb_level b) (toNumber (tb_progress b1)) (toNumber (tb_threshold b1)) tops,
               BoxOpened room i (tb_level b) tops ds (Some (Suc (tb_level b))),
               TreasureProgress room i (Suc (tb_level b)) (toNumber (tb_progress nb)) (toNumber (tb_threshold nb)) []])))) s2'
        = (Inr out, s')"
    have s2': "s2' = s2" using g by simp
    have s1': "add_contribution b room u a (Some g) now s = (Inr (), s1)" using s1 by simp
    show thesis
    proof (cases "tb_progress b1 < tb_threshold b1")
      case True
      then show thesis using that(1) [OF s1' s2] r s2' by simp
    next
      case False
      then obtain ds s3 where o: "open_box i room b tops now s2 = (Inr ds, s3)"
        and r3: "(if 5 \<le> tb_level b
          then bindA (finish_session i TS_COMPLETED now) (\<lambda>_.
            returnA (Stop a (remaining - a)
              [TreasureProgress room i (tb_level b) (toNumber (tb_progress b1)) (toNumber (tb_threshold b1)) tops,
               BoxOpened room i (tb_level b) tops ds None, SessionCompleted room i]))
          else bindA (advance_box i (tb_level b)) (\<lambda>nb.
            returnA (Again a (remaining - a)
              [TreasureProgress room i (tb_level b) (toNumber (tb_progress b1)) (toNumber (tb_threshold b1)) tops,
               BoxOpened room i (tb_level b) tops ds (Some (Suc (tb_level b))),
               TreasureProgress room i (Suc (tb_level b)) (toNumber (tb_progress nb)) (toNumber (tb_threshold nb)) []]))) s3
          = (Inr out, s')"
        using r s2' by (auto elim: bindA_InrE)
      show thesis
      proof (cases "5 \<le> tb_level b")
        case True
        then show thesis
          using that(2) [OF s1' s2 _ o True] r3 False by (auto elim!: bindA_InrE)
      next
        case not5: False
        then show thesis
          using that(3) [OF s1' s2 _ o] r3 False by (auto elim!: bindA_InrE)
      qed
    qed
  qed
qed

lemma fill_box_again:
  assumes run: "fill_box i room u g now b remaining s = (Inr (Again a r ev), s')"
    and room_left: "0 < tb_threshold b - tb_progress b" and "0 < remaining"
  shows "r < remaining" "level_of i s' = level_of i s \<or> tb_level b < 5 \<and> level_of i s' = Suc (tb_level b)"
proof -
  have same: "level_of i s2 = level_of i s"
    if "add_contribution b room u n (Some g) now s = (Inr (), s1)" "update_box i (tb_level b) f s1 = (Inr b1, s2)"
    for n f s1 b1 s2
    using no_session.okD [OF no_session_steps(1) that(1)] no_session.okD [OF no_session_steps(2) that(2)]
      same_sessions_level by metis
  have "r < remaining \<and> (level_of i s' = level_of i s \<or> tb_level b < 5 \<and> level_of i s' = Suc (tb_level b))"
    using run refl
  proof (cases rule: fill_box_run)
    case 1
    then show ?thesis using same [OF 1(1,2)] room_left assms(3) by (auto split: if_splits)
  next
    case 3
    then show ?thesis using advance_level [OF 3(6)] room_left assms(3) by (auto split: if_splits)
  qed simp
  then show "r < remaining" "level_of i s' = level_of i s \<or> tb_level b < 5 \<and> level_of i s' = Suc (tb_level b)"
    by auto
qed

lemma box_by_level_level: "box_by_level i l s = Some b \<Longrightarrow> tb_sessionId b = i \<and> tb_level b = l"
  unfolding box_by_level_def find_Some_iff by auto

lemma pour_turn_again:
  assumes run: "pour_turn i room u g now remaining s = (Inr (Again a r ev), s')" and pos: "0 < remaining"
  shows "level_of i s' = level_of i s \<and> r < remaining \<or>
         level_of i s < 5 \<and> level_of i s' = Suc (level_of i s)"
proof -
  obtain t where t: "session_by i s = Some t"
    using run by (auto simp: pour_turn_def bindA_def getsA_def returnA_def split: option.splits)
  then have lt: "level_of i s = ts_currentLevel t" by (simp add: level_of_def)
  obtain b where b: "box_by_level i (ts_currentLevel t) s = Some b"
    using run t by (auto simp: pour_turn_def bindA_def getsA_def returnA_def split: option.splits if_splits)
  note lb = box_by_level_level [OF b]
  show ?thesis
  proof (cases "tb_threshold b - tb_progress b \<le> 0")
    case True
    then show ?thesis
      using run t b lb lt advance_level [of i "ts_currentLevel t" s]
      by (auto simp: pour_turn_def getsA_def bindA_def returnA_def TREASURE_BOX_COUNT_def
          split: if_splits prod.splits sum.splits)
  next
    case False
    then have "fill_box i room u g now b remaining s = (Inr (Again a r ev), s')"
      using run t b by (auto simp: pour_turn_def getsA_def bindA_def returnA_def split: if_splits)
    from fill_box_again [OF this _ pos] False show ?thesis using lb lt by auto
  qed
qed

function pour ::
  "nat \<Rightarrow> nat \<Rightarrow> uid \<Rightarrow> nat \<Rightarrow> int \<Rightarrow> int \<Rightarrow> ('z treasure_db_scheme, int \<times> int \<times> room_event list) act" where
  "pour i room u g now remaining s =
     (if remaining \<le> 0 then (Inr (0, 0, []), s)
      else case pour_turn i room u g now remaining s of
        (Inl e, s') \<Rightarrow> (Inl e, s')
      | (Inr (Stop a r ev), s') \<Rightarrow> (Inr (a, r, ev), s')
      | (Inr (Again a rest ev), s') \<Rightarrow>
          (case pour i room u g now rest s' of
             (Inl e, s'') \<Rightarrow> (Inl e, s'')
           | (Inr (a', r', ev'), s'') \<Rightarrow> (Inr (a + a', r', ev @ ev'), s'')))"
  by pat_completeness auto

termination pour
proof (relation "(\<lambda>(i, room, u, g, now, rem, s). 5 - level_of i s) <*mlex*>
    measure (\<lambda>(i, room, u, g, now, rem, s). nat rem)", goal_cases)
  case 1
  show ?case by (intro wf_mlex wf_measure)
next
  case 2
  then show ?case by (auto simp: mlex_prod_def dest!: pour_turn_again [OF sym])
qed

declare pour.simps [simp del]


section \<open>Contributions\<close>

text \<open>
  What the contribution returns to the gift: the amounts, the events to publish after the commit, and
  the totals its \<open>postCommit\<close> writes to the cache.
\<close>

record contribution_result =
  co_accepted :: int
  co_refund :: int
  co_events :: "room_event list"
  co_totals :: "(int \<times> int) option"

definition already_contributed :: "nat \<Rightarrow> ('z treasure_db_scheme) \<Rightarrow> contribution option" where
  "already_contributed g s = List.find (\<lambda>c. tc_giftTxnId c = Some g) (contributions s)"

definition processTreasureContribution ::
  "nat \<Rightarrow> uid \<Rightarrow> uid \<Rightarrow> int \<Rightarrow> nat \<Rightarrow> int \<Rightarrow> ('z treasure_db_scheme, contribution_result) act" where
  "processTreasureContribution room sender receiver amt g now =
     bindA (getsA (already_contributed g)) (\<lambda>dup.
     if dup \<noteq> None then returnA \<lparr>co_accepted = 0, co_refund = 0, co_events = [], co_totals = None\<rparr>
     else bindA (session_for_gift room sender now) (\<lambda>(current, started).
          bindA (incrementRoomContribution room amt) (\<lambda>rt.
          bindA (incrementUserContribution receiver amt) (\<lambda>ut.
          let counted = started @ [CounterUpdated room receiver (toNumber rt) (toNumber ut)]
          in case current of
               None \<Rightarrow> returnA \<lparr>co_accepted = amt, co_refund = 0, co_events = counted, co_totals = Some (rt, ut)\<rparr>
             | Some t \<Rightarrow>
                 bindA (pour (ts_id t) room sender g now amt) (\<lambda>(a, r, ev).
                 returnA \<lparr>co_accepted = toNumber a, co_refund = toNumber r, co_events = counted @ ev,
                          co_totals = Some (rt, ut)\<rparr>)))))"

definition sync_counters :: "nat \<Rightarrow> uid \<Rightarrow> (int \<times> int) option \<Rightarrow> ('z treasure_db_scheme, unit) act" where
  "sync_counters room receiver totals =
     (case totals of
        None \<Rightarrow> returnA ()
      | Some (rt, ut) \<Rightarrow> modifyA (\<lambda>s. s\<lparr>room_counter_cache := (room_counter_cache s)(room := Some (toNumber rt)),
            user_counter_cache := (user_counter_cache s)(receiver := Some (toNumber ut))\<rparr>))"

section \<open>Progress from the sent-gift event\<close>

definition PRD_BOX_THRESHOLDS :: "int list" where
  "PRD_BOX_THRESHOLDS = [15000, 60000, 120000, 300000, 500000]"

definition default_threshold :: "nat \<Rightarrow> int" where
  "default_threshold l = (if 1 \<le> l \<and> l \<le> 5 then PRD_BOX_THRESHOLDS ! (l - 1) else 15000)"

definition getLevelThreshold :: "nat \<Rightarrow> ('z treasure_db_scheme) \<Rightarrow> int" where
  "getLevelThreshold l s =
     (case config_of l s of
        None \<Rightarrow> default_threshold l
      | Some c \<Rightarrow> if bc_threshold c \<noteq> 0 then bc_threshold c else default_threshold l)"

definition getLevelRewards :: "nat \<Rightarrow> ('z treasure_db_scheme) \<Rightarrow> reward_entry list" where
  "getLevelRewards l s = (case config_of l s of None \<Rightarrow> [] | Some c \<Rightarrow> bc_rewards c)"

definition getAllLevelConfigs :: "('z treasure_db_scheme) \<Rightarrow> (nat \<times> int) list" where
  "getAllLevelConfigs s =
     (case enabled_configs s of
        [] \<Rightarrow> map (\<lambda>l. (l, default_threshold l)) [1, 2, 3, 4, 5]
      | cs \<Rightarrow> map (\<lambda>c. (bc_level c, bc_threshold c)) cs)"

definition getOrCreateActiveSession ::
  "nat \<Rightarrow> string \<Rightarrow> int \<Rightarrow> ('z treasure_db_scheme, tsession option) act" where
  "getOrCreateActiveSession room ctx now =
     bindA (getsA (active_session room)) (\<lambda>found.
     case found of
       Some t \<Rightarrow> returnA (Some t)
     | None \<Rightarrow>
         bindA (getsA (completed_since room (today_start now))) (\<lambda>over.
         if over \<noteq> None then returnA None
         else bindA (create_session room 0 ctx now) (\<lambda>t.
              bindA (getsA getAllLevelConfigs) (\<lambda>cs.
              bindA (forA (\<lambda>(l, th). bindA (create_box (ts_id t) room l th (if l = 1 then TB_ACTIVE else TB_PENDING))
                  (\<lambda>_. returnA ())) cs) (\<lambda>_.
              returnA (Some t))))))"

record progress_result =
  pr_sessionId :: "nat option"
  pr_appliedAmount :: int
  pr_refundAmount :: int
  pr_completedBoxes :: "(nat \<times> nat \<times> int) list"
  pr_activeBox :: "tbox option"
  pr_sessionCompleted :: bool

definition no_progress :: "nat option \<Rightarrow> progress_result" where
  "no_progress i = \<lparr>pr_sessionId = i, pr_appliedAmount = 0, pr_refundAmount = 0, pr_completedBoxes = [],
     pr_activeBox = None, pr_sessionCompleted = False\<rparr>"

definition box_at :: "nat \<Rightarrow> nat \<Rightarrow> nat \<Rightarrow> ('z treasure_db_scheme, tbox) act" where
  "box_at i room l =
     bindA (getsA (box_by_level i l)) (\<lambda>found.
     case found of
       Some b \<Rightarrow> returnA b
     | None \<Rightarrow> bindA (getsA (getLevelThreshold l)) (\<lambda>th. create_box i room l th TB_ACTIVE))"

definition unlock_box :: "nat \<Rightarrow> nat \<Rightarrow> nat \<Rightarrow> ('z treasure_db_scheme, unit) act" where
  "unlock_box i room l =
     bindA (getsA (box_by_level i l)) (\<lambda>found.
     if found \<noteq> None then bindA (update_box i l (\<lambda>x. x\<lparr>tb_status := TB_ACTIVE\<rparr>)) (\<lambda>_. returnA ())
     else bindA (getsA (getLevelThreshold l)) (\<lambda>th. bindA (create_box i room l th TB_ACTIVE) (\<lambda>_. returnA ())))"

text \<open>The loop: the boxes it completed, the level it stopped at, the refund, and whether the session ended.\<close>

function fill_levels ::
  "nat \<Rightarrow> nat \<Rightarrow> uid \<Rightarrow> nat option \<Rightarrow> bool \<Rightarrow> int \<Rightarrow> nat \<Rightarrow> int \<Rightarrow>
     ('z treasure_db_scheme, (nat \<times> nat \<times> int) list \<times> nat \<times> int \<times> bool) act" where
  "fill_levels i room u g ranked now l remaining =
     (if remaining \<le> 0 \<or> TREASURE_BOX_COUNT < l then returnA ([], l, 0, False)
      else bindA (box_at i room l) (\<lambda>b.
        let needed = tb_threshold b - tb_progress b
        in if needed \<le> remaining
           then bindA (update_box i l (\<lambda>x. x\<lparr>tb_progress := tb_threshold b, tb_status := TB_OPENED,
                    tb_openedAt := Some now\<rparr>)) (\<lambda>_.
                bindA (if 0 < needed \<and> ranked then add_contribution b room u needed g now else returnA ()) (\<lambda>_.
                if TREASURE_BOX_COUNT < Suc l
                then bindA (finish_session i TS_COMPLETED now) (\<lambda>_.
                     returnA ([(tb_id b, l, tb_threshold b)], Suc l, (if 0 < remaining - needed then remaining - needed else 0), True))
                else bindA (unlock_box i room (Suc l)) (\<lambda>_.
                     bindA (set_level i (Suc l)) (\<lambda>_.
                     bindA (fill_levels i room u g ranked now (Suc l) (remaining - needed)) (\<lambda>(done, l', r, fin).
                     returnA ((tb_id b, l, tb_threshold b) # done, l', r, fin))))))
           else bindA (update_box i l (\<lambda>x. x\<lparr>tb_progress := tb_progress b + remaining, tb_status := TB_ACTIVE\<rparr>)) (\<lambda>_.
                bindA (if ranked then add_contribution b room u remaining g now else returnA ()) (\<lambda>_.
                returnA ([], l, 0, False)))))"
  by pat_completeness auto

termination fill_levels
  by (relation "measure (\<lambda>(i, room, u, g, ranked, now, l, remaining). 6 - l)")
     (auto simp: TREASURE_BOX_COUNT_def)

declare fill_levels.simps [simp del]

definition applyGiftProgress ::
  "nat \<Rightarrow> uid \<Rightarrow> int \<Rightarrow> nat option \<Rightarrow> string \<Rightarrow> bool \<Rightarrow> int \<Rightarrow> ('z treasure_db_scheme, progress_result) act" where
  "applyGiftProgress room u amt g ctx ranked now =
     bindA (guardA (0 < amt) (OtherError ''Progress amount must be greater than zero'')) (\<lambda>_.
     bindA (getsA (\<lambda>s. Option.bind g (\<lambda>i. already_contributed i s))) (\<lambda>dup.
     case dup of
       Some c \<Rightarrow> returnA (no_progress (Some (tc_sessionId c)))
     | None \<Rightarrow>
         bindA (getsA (completed_since room (today_start now))) (\<lambda>over.
         case over of
           Some t \<Rightarrow> returnA (no_progress (Some (ts_id t)))
         | None \<Rightarrow>
             bindA (getOrCreateActiveSession room ctx now) (\<lambda>current.
             case current of
               None \<Rightarrow> returnA (no_progress None)
             | Some t \<Rightarrow>
                 bindA (fill_levels (ts_id t) room u g ranked now (ts_currentLevel t) amt) (\<lambda>(done, l, refund, fin).
                 bindA (getsA (\<lambda>s. if fin \<or> TREASURE_BOX_COUNT < l then None else box_by_level (ts_id t) l s)) (\<lambda>b.
                 returnA \<lparr>pr_sessionId = Some (ts_id t), pr_appliedAmount = amt - refund, pr_refundAmount = refund,
                          pr_completedBoxes = done, pr_activeBox = b, pr_sessionCompleted = fin\<rparr>))))))"

end
