(* ===== verification/TreasureEvents.thy ===== *)
theory TreasureEvents
  imports Treasure
begin

text \<open>
  The rest of the treasure module: the handler of a sent gift and the item rewards of the boxes it
  completes (treasure-event.service.ts, treasure-distribution.service.ts), the life of a session
  (treasure.service.ts, treasure-reset.service.ts), and the listener that feeds it
  (listeners/treasure-gift.listener.ts). The announcement text and the champions cache are not modelled.
\<close>

section \<open>Item rewards\<close>

definition level_name :: "nat \<Rightarrow> string" where
  "level_name l = (if l = 0 then ''Exclusive''
     else [''Bronze'', ''Silver'', ''Gold'', ''Platinum'', ''Diamond''] ! min (l - 1) 4)"

definition ranked_item :: "nat \<Rightarrow> nat \<Rightarrow> reward_entry" where
  "ranked_item l rank =
     \<lparr>rw_rank = rank, rw_kind = RK_ITEM, rw_coins = None,
      rw_itemType = Some (if rank = 1 then THEME else if rank = 2 then FRAME else BADGE),
      rw_itemName = Some (level_name l @ (if rank = 1 then '' Entry Theme'' else if rank = 2 then '' Profile Frame''
        else '' Contributor Badge'')),
      rw_itemRefId = None, rw_transferable = None\<rparr>"

definition inventory_rewards :: "nat \<Rightarrow> reward_entry list \<Rightarrow> reward_entry list" where
  "inventory_rewards l rws =
     map (\<lambda>r. if rw_kind r = RK_COINS then ranked_item l (rw_rank r) else r)
       (if rws = [] then [ranked_item l 1, ranked_item l 2, ranked_item l 3] else rws)"

definition distributeBoxRewards ::
  "nat \<Rightarrow> nat \<Rightarrow> nat \<Rightarrow> nat \<Rightarrow> int \<Rightarrow> ('z treasure_db_scheme, distributed list) act" where
  "distributeBoxRewards i b room l now =
     bindA (getsA (topContributors b 3)) (\<lambda>tops.
     if tops = [] then returnA []
     else bindA (getsA (getLevelRewards l)) (\<lambda>rws.
          bindA (distribute (box_input ''tb-open:'' b tops) False now (inventory_rewards l rws)) (\<lambda>ds.
          let given = map (\<lambda>d. d\<lparr>di_kind := RK_ITEM, di_coins := None, di_walletTxnId := None\<rparr>) ds
          in bindA (forA (create_reward i b room l) given) (\<lambda>_. returnA given))))"

section \<open>A sent gift\<close>

record gift_sent =
  gs_transactionId :: nat
  gs_senderId :: uid
  gs_receiverId :: uid
  gs_contextType :: string
  gs_contextId :: nat
  gs_totalCoinValue :: int

definition box5_refund :: "gift_sent \<Rightarrow> nat \<Rightarrow> int \<Rightarrow> movement" where
  "box5_refund p i r =
     \<lparr>m_userId = gs_senderId p, m_currency = GOLD, m_amount = of_int (toNumber r), m_reason = GIFT_REFUND,
      m_key = ''refund:treasure:box5:'' @ show_nat i @ CHR '':'' # show_nat (gs_transactionId p),
      m_referenceType = Some ''TREASURE_BOX_5_REFUND'', m_referenceId = Some (show_nat i), m_actorId = None\<rparr>"

definition completed_box :: "nat \<Rightarrow> nat \<Rightarrow> int \<Rightarrow> nat \<times> nat \<times> int \<Rightarrow> ('z treasure_db_scheme, unit) act" where
  "completed_box i room now = (\<lambda>(b, l, th).
     bindA (audit_treasure ''TREASURE_BOX_COMPLETED'' (Some room) (Some b) None) (\<lambda>_.
     bindA (distributeBoxRewards i b room l now) (\<lambda>ds.
     bindA (audit_treasure ''TREASURE_REWARD_DISTRIBUTED'' (Some room) (Some b) None) (\<lambda>_.
     bindA (getsA (topContributors b 3)) (\<lambda>tops.
     publish_room (BoxOpened room i l tops ds (if l < 5 then Some (Suc l) else None)))))))"

definition handleGiftSent :: "gift_sent \<Rightarrow> int \<Rightarrow> ('z treasure_db_scheme, unit) act" where
  "handleGiftSent p now =
     (if gs_totalCoinValue p \<le> 0 then returnA ()
      else bindA (applyGiftProgress (gs_contextId p) (gs_senderId p) (gs_totalCoinValue p) (Some (gs_transactionId p))
             (gs_contextType p) (gs_receiverId p \<noteq> gs_senderId p) now) (\<lambda>res.
           bindA (if 0 < pr_refundAmount res
                  then catchA (bindA (credit (box5_refund p (case pr_sessionId res of None \<Rightarrow> 0 | Some i \<Rightarrow> i)
                           (pr_refundAmount res)) False) (\<lambda>_. returnA ())) (\<lambda>_. returnA ())
                  else returnA ()) (\<lambda>_.
           bindA (audit_treasure ''TREASURE_PROGRESS_UPDATED'' (Some (gs_contextId p)) None None) (\<lambda>_.
           bindA (case (pr_activeBox res, pr_sessionId res) of
               (Some b, Some i) \<Rightarrow>
                 bindA (getsA (topContributors (tb_id b) 3)) (\<lambda>tops.
                 publish_room (TreasureProgress (gs_contextId p) i (tb_level b) (toNumber (tb_progress b))
                   (toNumber (tb_threshold b)) tops))
             | _ \<Rightarrow> returnA ()) (\<lambda>_.
           bindA (case pr_sessionId res of
               None \<Rightarrow> returnA ()
             | Some i \<Rightarrow> forA (completed_box i (gs_contextId p) now) (pr_completedBoxes res)) (\<lambda>_.
           case pr_sessionId res of
             Some i \<Rightarrow> if pr_sessionCompleted res then publish_room (SessionCompleted (gs_contextId p) i) else returnA ()
           | None \<Rightarrow> returnA ()))))))"

text \<open>The listener hears the gifts of the two kinds of room, and logs what the handler throws.\<close>

definition on_gift_sent :: "gift_sent \<Rightarrow> int \<Rightarrow> ('z treasure_db_scheme, unit) act" where
  "on_gift_sent p now =
     (if gs_contextType p = ''AUDIO_ROOM'' \<or> gs_contextType p = ''VIDEO_ROOM''
      then catchA (handleGiftSent p now) (\<lambda>_. returnA ()) else returnA ())"

section \<open>The life of a session\<close>

text \<open>A room without an owner yields \<open>'system'\<close>, which the UUID column \<open>startedBy\<close> refuses.\<close>

definition start_today :: "troom_env \<Rightarrow> nat \<Rightarrow> uid option \<Rightarrow> int \<Rightarrow> ('z treasure_db_scheme, tsession option) act" where
  "start_today env room ownerId now =
     bindA (getsA (completed_since room (today_start now))) (\<lambda>over.
     if over \<noteq> None then returnA None
     else bindA (getsA enabled_configs) (\<lambda>cs.
          if length (remdups (map bc_level cs)) < TREASURE_BOX_COUNT then returnA None
          else case (case ownerId of Some u \<Rightarrow> Some u | None \<Rightarrow> tr_ownerId env room) of
                 None \<Rightarrow> throwA (OtherError ''P2023'')
               | Some u \<Rightarrow>
                   bindA (create_ladder room u cs now) (\<lambda>t.
                   bindA (publish_room (SessionStarted room (ts_id t) 1 (first_threshold cs))) (\<lambda>_.
                   bindA (publish_room (TreasureProgress room (ts_id t) 1 0 (first_threshold cs) [])) (\<lambda>_.
                   returnA (Some t))))))"

definition autoStartTodaySession ::
  "troom_env \<Rightarrow> nat \<Rightarrow> uid option \<Rightarrow> int \<Rightarrow> ('z treasure_db_scheme, tsession option) act" where
  "autoStartTodaySession env room ownerId now =
     bindA (getsA (active_session room)) (\<lambda>found.
     case found of
       Some t \<Rightarrow>
         if today_start now \<le> ts_createdAt t then returnA (Some t)
         else bindA (finish_session (ts_id t) TS_COMPLETED now) (\<lambda>_. start_today env room ownerId now)
     | None \<Rightarrow> start_today env room ownerId now)"

definition getActiveSession ::
  "troom_env \<Rightarrow> nat \<Rightarrow> int \<Rightarrow> ('z treasure_db_scheme, (nat \<times> nat \<times> int \<times> int) option) act" where
  "getActiveSession env room now =
     bindA (autoStartTodaySession env room None now) (\<lambda>found.
     case found of
       None \<Rightarrow> returnA None
     | Some t \<Rightarrow>
         bindA (getsA (box_by_level (ts_id t) (ts_currentLevel t))) (\<lambda>b.
         returnA (Some (ts_id t, ts_currentLevel t,
           (case b of None \<Rightarrow> 0 | Some x \<Rightarrow> toNumber (tb_progress x)),
           (case b of None \<Rightarrow> 0 | Some x \<Rightarrow> toNumber (tb_threshold x))))))"

definition assert_manager :: "troom_env \<Rightarrow> nat \<Rightarrow> uid \<Rightarrow> ('z treasure_db_scheme, unit) act" where
  "assert_manager env room u = guardA (tr_isManager env room u) (Business ''TREASURE_NOT_AUTHORIZED'')"

definition startSession :: "troom_env \<Rightarrow> uid \<Rightarrow> nat \<Rightarrow> int \<Rightarrow> ('z treasure_db_scheme, tsession) act" where
  "startSession env u room now =
     bindA (assert_manager env room u) (\<lambda>_.
     bindA (guardA (tr_isRoomLive env room) (Business ''ROOM_ENDED'')) (\<lambda>_.
     bindA (getsA enabled_configs) (\<lambda>cs.
     bindA (guardA (TREASURE_BOX_COUNT \<le> length (remdups (map bc_level cs))) (Business ''TREASURE_CONFIG_INCOMPLETE'')) (\<lambda>_.
     bindA (autoStartTodaySession env room (Some u) now) (\<lambda>found.
     case found of
       None \<Rightarrow> throwA (Business ''TREASURE_SESSION_EXISTS'')
     | Some t \<Rightarrow> returnA t)))))"

definition cancelSession :: "troom_env \<Rightarrow> uid \<Rightarrow> nat \<Rightarrow> int \<Rightarrow> ('z treasure_db_scheme, unit) act" where
  "cancelSession env u room now =
     bindA (assert_manager env room u) (\<lambda>_.
     bindA (getsA (active_session room)) (\<lambda>found.
     case found of
       None \<Rightarrow> throwA (Business ''TREASURE_SESSION_NOT_FOUND'')
     | Some t \<Rightarrow>
         bindA (finish_session (ts_id t) TS_CANCELLED now) (\<lambda>_.
         publish_room (SessionCompleted room (ts_id t)))))"

definition archiveStaleActiveSessions :: "int \<Rightarrow> ('z treasure_db_scheme, nat) act" where
  "archiveStaleActiveSessions now =
     bindA (getsA (\<lambda>s. filter (\<lambda>t. ts_status t = TS_ACTIVE \<and> ts_createdAt t < today_start now) (tsessions s))) (\<lambda>stale.
     bindA (forA (\<lambda>t. finish_session (ts_id t) TS_COMPLETED now) stale) (\<lambda>_.
     returnA (length stale)))"

text \<open>The actor of an audit row is a UUID column; \<open>logAudit\<close> swallows the error of any other text.\<close>

datatype audit_actor = No_actor | By_user uid | By_text string

definition logAudit_as ::
  "string \<Rightarrow> nat option \<Rightarrow> nat option \<Rightarrow> audit_actor \<Rightarrow> ('z treasure_db_scheme, unit) act" where
  "logAudit_as a room b actor =
     (case actor of
        No_actor \<Rightarrow> audit_treasure a room b None
      | By_user u \<Rightarrow> audit_treasure a room b (Some u)
      | By_text _ \<Rightarrow> returnA ())"

definition resetRoomTreasure :: "nat \<Rightarrow> audit_actor \<Rightarrow> int \<Rightarrow> ('z treasure_db_scheme, nat option) act" where
  "resetRoomTreasure room actor now =
     bindA (getsA (\<lambda>s. filter (\<lambda>t. ts_roomId t = room \<and> ts_status t = TS_ACTIVE) (tsessions s))) (\<lambda>active.
     bindA (forA (\<lambda>t. finish_session (ts_id t) TS_ARCHIVED now) active) (\<lambda>_.
     bindA (getOrCreateActiveSession room ''AUDIO_ROOM'' now) (\<lambda>fresh.
     bindA (logAudit_as ''TREASURE_RESET'' (Some room) None actor) (\<lambda>_.
     returnA (map_option ts_id fresh)))))"

definition performFleetDailyReset :: "int \<Rightarrow> ('z treasure_db_scheme, nat) act" where
  "performFleetDailyReset now =
     bindA (getsA (\<lambda>s. filter (\<lambda>t. ts_status t = TS_ACTIVE \<and> ts_createdAt t < now - DAY) (tsessions s))) (\<lambda>stale.
     bindA (forA (\<lambda>t. bindA (resetRoomTreasure (ts_roomId t) (By_text ''SYSTEM_DAILY_RESET'') now) (\<lambda>_. returnA ())) stale) (\<lambda>_.
     returnA (length stale)))"

end
