(* ===== verification/TreasureLaws.thy ===== *)
theory TreasureLaws
  imports TreasureEvents
begin

text \<open>
  What the boxes are: one container. A session whose boxes have the thresholds \<open>th 1 .. th 5\<close> and hold \<open>w\<close> coins
  in all stands in exactly one way (\<open>stands\<close>): the boxes fill from the first on, the first that is not full is the
  current one, and the session is completed when \<open>w\<close> reaches the total. Both ways the code fills boxes are shown to
  be the operation \<open>w \<mapsto> min total (w + amount)\<close> of the container, and to return the overflow.
\<close>

section \<open>The container\<close>

definition below :: "(nat \<Rightarrow> int) \<Rightarrow> nat \<Rightarrow> int" where
  "below th l = sum_list (map th [1..<l])"

definition capacity :: "(nat \<Rightarrow> int) \<Rightarrow> int" where
  "capacity th = below th 6"

definition held :: "(nat \<Rightarrow> int) \<Rightarrow> int \<Rightarrow> nat \<Rightarrow> int" where
  "held th w l = max 0 (min (th l) (w - below th l))"

definition box_state :: "(nat \<Rightarrow> int) \<Rightarrow> int \<Rightarrow> nat \<Rightarrow> tbox_status" where
  "box_state th w l =
     (if below th (Suc l) \<le> w then TB_OPENED else if below th l \<le> w then TB_ACTIVE else TB_PENDING)"

definition good_thresholds :: "(nat \<Rightarrow> int) \<Rightarrow> bool" where
  "good_thresholds th \<longleftrightarrow> (\<forall>l. 0 < th l)"

text \<open>The level a session with \<open>w\<close> coins is at.\<close>

definition at_level :: "(nat \<Rightarrow> int) \<Rightarrow> int \<Rightarrow> nat \<Rightarrow> bool" where
  "at_level th w c \<longleftrightarrow> 1 \<le> c \<and> c \<le> 5 \<and> below th c \<le> w \<and> (w < capacity th \<longrightarrow> w < below th (Suc c)) \<and>
     (capacity th \<le> w \<longrightarrow> c = 5)"

definition stands :: "nat \<Rightarrow> (nat \<Rightarrow> int) \<Rightarrow> int \<Rightarrow> ('z treasure_db_scheme) \<Rightarrow> bool" where
  "stands i th w s \<longleftrightarrow>
     0 \<le> w \<and> w \<le> capacity th \<and>
     (\<exists>t. session_by i s = Some t \<and> ts_status t = (if w < capacity th then TS_ACTIVE else TS_COMPLETED) \<and>
        at_level th w (ts_currentLevel t)) \<and>
     (\<forall>l. 1 \<le> l \<and> l \<le> 5 \<longrightarrow> (\<exists>b. box_by_level i l s = Some b \<and> tb_threshold b = th l \<and>
        tb_progress b = held th w l \<and> tb_status b = box_state th w l))"

lemma below_Suc: "1 \<le> l \<Longrightarrow> below th (Suc l) = below th l + th l"
  by (simp add: below_def)

lemma below_one [simp]: "below th 1 = 0" "below th (Suc 0) = 0"
  by (simp_all add: below_def)

lemma below_strict:
  assumes "good_thresholds th" "1 \<le> l" "l < k"
  shows "below th l < below th k"
  using assms(3)
proof (induction k)
  case (Suc k)
  then show ?case
    using assms(1,2) below_Suc [of k th]
    by (cases "l = k") (auto simp: good_thresholds_def less_Suc_eq intro: less_trans add_strict_increasing2)
qed simp

lemma below_mono:
  assumes "good_thresholds th" "1 \<le> l" "l \<le> k"
  shows "below th l \<le> below th k"
  using below_strict [OF assms(1,2)] assms(3) by (cases "l = k") (auto simp: less_imp_le)

text \<open>Two contents that agree about a box leave it as it is.\<close>

lemma held_lower:
  assumes "good_thresholds th" "1 \<le> l" "l < c" "below th c \<le> w"
  shows "held th w l = th l" "box_state th w l = TB_OPENED"
proof -
  have "below th l + th l \<le> w" using below_mono [OF assms(1), of "Suc l" c] below_Suc [OF assms(2)] assms by simp
  then show "held th w l = th l" "box_state th w l = TB_OPENED"
    using assms(1,2) below_Suc [OF assms(2), of th] by (auto simp: held_def box_state_def good_thresholds_def less_imp_le)
qed

lemma held_higher:
  assumes "good_thresholds th" "1 \<le> l" "w < below th l"
  shows "held th w l = 0" "box_state th w l = TB_PENDING"
proof -
  have "\<not> below th (Suc l) \<le> w" using below_strict [OF assms(1,2), of "Suc l"] assms(3) by simp
  then show "held th w l = 0" "box_state th w l = TB_PENDING"
    using assms by (auto simp: held_def box_state_def good_thresholds_def)
qed

lemma held_current:
  assumes "1 \<le> l" "below th l \<le> w" "w < below th (Suc l)"
  shows "held th w l = w - below th l" "box_state th w l = TB_ACTIVE"
  using assms below_Suc [OF assms(1), of th] by (auto simp: held_def box_state_def)

section \<open>Updates of the tables\<close>

lemma box_update:
  assumes f: "\<And>b. tb_sessionId (f b) = tb_sessionId b \<and> tb_level (f b) = tb_level b"
    and run: "update_box i l f s = (Inr b', s')"
  shows "box_by_level j k s' = (if j = i \<and> k = l then map_option f (box_by_level j k s) else box_by_level j k s)"
    and "map_option f (box_by_level i l s) = Some b'" "tsessions s' = tsessions s"
    and "contributions s' = contributions s" "box_configs s' = box_configs s"
proof -
  have "List.find (\<lambda>x. tb_sessionId x = j \<and> tb_level x = k)
      (map (\<lambda>c. if tb_sessionId c = i \<and> tb_level c = l then f c else c) xs) =
      (if j = i \<and> k = l then map_option f (List.find (\<lambda>x. tb_sessionId x = j \<and> tb_level x = k) xs)
       else List.find (\<lambda>x. tb_sessionId x = j \<and> tb_level x = k) xs)" for xs
    using f by (induction xs) auto
  then show "box_by_level j k s' = (if j = i \<and> k = l then map_option f (box_by_level j k s) else box_by_level j k s)"
    using run by (auto simp: update_box_def box_by_level_def split: option.splits)
  show "map_option f (box_by_level i l s) = Some b'" "tsessions s' = tsessions s"
    "contributions s' = contributions s" "box_configs s' = box_configs s"
    using run by (auto simp: update_box_def split: option.splits)
qed

lemma boxes_same: "tboxes s' = tboxes s \<Longrightarrow> box_by_level i l s' = box_by_level i l s"
  by (simp add: box_by_level_def)

lemma sessions_same: "tsessions s' = tsessions s \<Longrightarrow> session_by i s' = session_by i s"
  by (simp add: session_by_def)


lemma distribute_same: "distribute inp j now rws s = (r, s') \<Longrightarrow> same_treasure s s'"
  by (rule reward_only.okD [OF same_treasure_distribute])

lemma distribute_frame:
  assumes "distribute inp j now rws s = (r, s')"
  shows "tsessions s' = tsessions s" "tboxes s' = tboxes s" "contributions s' = contributions s"
    "box_configs s' = box_configs s"
  using same_treasure_sel [OF distribute_same [OF assms]] by simp_all

lemma create_rewards_frame:
  assumes "forA (create_reward i b room l) ds s = (r, s')"
  shows "tsessions s' = tsessions s \<and> tboxes s' = tboxes s \<and> contributions s' = contributions s \<and>
    box_configs s' = box_configs s \<and> r = Inr ()"
  using assms
  by (induction ds arbitrary: s) (auto simp: create_reward_def modifyA_def bindA_def returnA_def)

definition opened :: "ranked list \<Rightarrow> int \<Rightarrow> tbox \<Rightarrow> tbox" where
  "opened tops now x = x\<lparr>tb_status := TB_OPENED, tb_topGifters := Some tops, tb_openedAt := Some now\<rparr>"

lemma opened_sel [simp]:
  "tb_sessionId (opened tops now x) = tb_sessionId x" "tb_level (opened tops now x) = tb_level x"
  "tb_threshold (opened tops now x) = tb_threshold x" "tb_progress (opened tops now x) = tb_progress x"
  "tb_status (opened tops now x) = TB_OPENED" "tb_id (opened tops now x) = tb_id x"
  by (simp_all add: opened_def)

lemma open_box_effect:
  assumes "open_box i room b tops now s = (Inr ds, s')"
  shows "box_by_level i k s' = (if k = tb_level b then map_option (opened tops now) (box_by_level i k s)
      else box_by_level i k s)"
    and "tsessions s' = tsessions s" "box_configs s' = box_configs s" "contributions s' = contributions s"
proof -
  obtain b' s1 s2 where s1: "update_box i (tb_level b) (opened tops now) s = (Inr b', s1)"
    and s2: "distribute (box_input ''treasure:'' (tb_id b) tops) True now
        (case config_of (tb_level b) s1 of None \<Rightarrow> [] | Some c \<Rightarrow> bc_rewards c) s1 = (Inr ds, s2)"
    and s3: "forA (create_reward i (tb_id b) room (tb_level b)) ds s2 = (Inr (), s')"
    using assms by (auto simp: open_box_def bindA_Inr opened_def [abs_def])
  have keep: "\<And>b. tb_sessionId (opened tops now b) = tb_sessionId b \<and> tb_level (opened tops now b) = tb_level b" by simp
  note u = box_update [OF keep s1]
  note d = distribute_frame [OF s2] and c = create_rewards_frame [OF s3]
  have "box_by_level i k s' = box_by_level i k s1" by (rule boxes_same) (use d c in simp)
  then show "box_by_level i k s' = (if k = tb_level b then map_option (opened tops now) (box_by_level i k s)
      else box_by_level i k s)" using u(1) [of i k] by simp
  show "tsessions s' = tsessions s" "box_configs s' = box_configs s" "contributions s' = contributions s"
    using u(3-5) d c by simp_all
qed

lemma set_level_effect:
  assumes "set_level i l s = (Inr (), s')"
  shows "session_by i s' = map_option (\<lambda>t. t\<lparr>ts_currentLevel := l\<rparr>) (session_by i s)" "tboxes s' = tboxes s"
    "contributions s' = contributions s" "box_configs s' = box_configs s"
  using assms session_update [OF _ assms [unfolded set_level_def], of i]
  by (auto simp: set_level_def update_session_def split: if_splits)

lemma finish_effect:
  assumes "finish_session i st now s = (Inr (), s')"
  shows "session_by i s' = map_option (\<lambda>t. t\<lparr>ts_status := st, ts_completedAt := Some now\<rparr>) (session_by i s)"
    "tboxes s' = tboxes s" "contributions s' = contributions s" "box_configs s' = box_configs s"
  using assms session_update [OF _ assms [unfolded finish_session_def], of i]
  by (auto simp: finish_session_def update_session_def split: if_splits)

lemma advance_effect:
  assumes "advance_box i l s = (Inr b, s')"
  shows "session_by i s' = map_option (\<lambda>t. t\<lparr>ts_currentLevel := Suc l\<rparr>) (session_by i s)"
    and "box_by_level i k s' = (if k = Suc l then map_option (\<lambda>x. x\<lparr>tb_status := TB_ACTIVE\<rparr>) (box_by_level i k s)
      else box_by_level i k s)"
    and "contributions s' = contributions s" "box_configs s' = box_configs s"
proof -
  obtain s1 where s1: "set_level i (Suc l) s = (Inr (), s1)"
    and b: "update_box i (Suc l) (\<lambda>x. x\<lparr>tb_status := TB_ACTIVE\<rparr>) s1 = (Inr b, s')"
    using assms by (auto simp: advance_box_def bindA_Inr)
  note u = box_update [OF _ b] and v = set_level_effect [OF s1]
  show "session_by i s' = map_option (\<lambda>t. t\<lparr>ts_currentLevel := Suc l\<rparr>) (session_by i s)"
    using sessions_same [OF u(3)] v(1) by simp
  show "box_by_level i k s' = (if k = Suc l then map_option (\<lambda>x. x\<lparr>tb_status := TB_ACTIVE\<rparr>) (box_by_level i k s)
      else box_by_level i k s)"
    using u(1) [of i k] boxes_same [OF v(2)] by simp
  show "contributions s' = contributions s" "box_configs s' = box_configs s" using u(4,5) v(3,4) by auto
qed

section \<open>One turn is a step of the container\<close>

lemma standsD:
  assumes "stands i th w s"
  obtains t where "session_by i s = Some t" "ts_status t = (if w < capacity th then TS_ACTIVE else TS_COMPLETED)"
    "at_level th w (ts_currentLevel t)"
  using assms by (auto simp: stands_def)

lemma stands_box:
  assumes "stands i th w s" "1 \<le> l" "l \<le> 5"
  obtains b where "box_by_level i l s = Some b" "tb_threshold b = th l" "tb_progress b = held th w l"
    "tb_status b = box_state th w l"
  using assms by (auto simp: stands_def)

text \<open>Filling within the current box changes that box and the status of the next.\<close>

lemma stands_after:
  assumes th: "good_thresholds th" and st: "stands i th w s" and c: "at_level th w c" and more: "w < capacity th"
    and w': "w < w'" "w' \<le> below th (Suc c)"
    and session: "session_by i s' = Some t"
      "ts_status t = (if w' < capacity th then TS_ACTIVE else TS_COMPLETED)" "at_level th w' (ts_currentLevel t)"
    and frame: "\<And>k. k \<noteq> c \<Longrightarrow> k \<noteq> Suc c \<Longrightarrow> box_by_level i k s' = box_by_level i k s"
    and cur: "box_by_level i c s' = Some b" "tb_threshold b = th c" "tb_progress b = w' - below th c"
      "tb_status b = (if w' = below th (Suc c) then TB_OPENED else TB_ACTIVE)"
    and nxt: "c < 5 \<Longrightarrow> \<exists>n. box_by_level i (Suc c) s' = Some n \<and> tb_threshold n = th (Suc c) \<and> tb_progress n = 0 \<and>
      tb_status n = (if w' = below th (Suc c) then TB_ACTIVE else TB_PENDING)"
  shows "stands i th w' s'"
proof -
  have c5: "1 \<le> c" "c \<le> 5" "below th c \<le> w" using c by (auto simp: at_level_def)
  have cap: "w' \<le> capacity th"
    using w' below_mono [OF th, of "Suc c" 6] c5 by (simp add: capacity_def)
  have "\<exists>x. box_by_level i l s' = Some x \<and> tb_threshold x = th l \<and> tb_progress x = held th w' l \<and>
      tb_status x = box_state th w' l" if l: "1 \<le> l" "l \<le> 5" for l
  proof -
    consider "l < c" | "l = c" | "l = Suc c" | "Suc c < l" by linarith
    then show ?thesis
    proof cases
      case 1
      obtain x where x: "box_by_level i l s = Some x" "tb_threshold x = th l" "tb_progress x = held th w l"
        "tb_status x = box_state th w l" using stands_box [OF st l] .
      note a = held_lower [OF th l(1) 1, of w] and b = held_lower [OF th l(1) 1, of w']
      show ?thesis using x frame [of l] 1 a b c5 w' by simp
    next
      case 2
      show ?thesis
      proof (cases "w' = below th (Suc c)")
        case True
        then show ?thesis
          using held_lower [OF th l(1), of "Suc c" w'] cur 2 below_Suc [OF l(1)] by simp
      next
        case False
        then have "w' < below th (Suc l)" using w' 2 by simp
        with held_current [OF l(1), of th w'] show ?thesis using cur 2 c5 w' False by simp
      qed
    next
      case 3
      then obtain n where n: "box_by_level i (Suc c) s' = Some n" "tb_threshold n = th (Suc c)" "tb_progress n = 0"
        "tb_status n = (if w' = below th (Suc c) then TB_ACTIVE else TB_PENDING)" using nxt l by auto
      show ?thesis
      proof (cases "w' = below th (Suc c)")
        case True
        have "w' < below th (Suc l)" using True below_strict [OF th, of "Suc c" "Suc l"] 3 by simp
        with held_current [OF l(1), of th w'] show ?thesis using n 3 True by simp
      next
        case False
        then have "w' < below th l" using w' 3 by simp
        with held_higher [OF th l(1)] show ?thesis using n 3 False by simp
      qed
    next
      case 4
      obtain x where x: "box_by_level i l s = Some x" "tb_threshold x = th l" "tb_progress x = held th w l"
        "tb_status x = box_state th w l" using stands_box [OF st l] .
      have "w' < below th l" using w' below_strict [OF th, of "Suc c" l] 4 by simp
      then show ?thesis
        using x frame [of l] 4 held_higher [OF th l(1), of w] held_higher [OF th l(1), of w'] w' by simp
    qed
  qed
  moreover have "0 \<le> w'" using st w' by (simp add: stands_def)
  ultimately show ?thesis using session cap by (auto simp: stands_def)
qed

lemma at_level_next:
  assumes "good_thresholds th" "1 \<le> c" "c < 5" "w' = below th (Suc c)"
  shows "at_level th w' (Suc c)" "w' < capacity th"
  using assms below_strict [of th "Suc c" 6] below_strict [of th "Suc c" "Suc (Suc c)"]
  by (auto simp: at_level_def capacity_def)


lemma add_contribution_frame:
  assumes "add_contribution b room u amt g now s = (r, s')"
  shows "r = Inr ()" "tsessions s' = tsessions s" "tboxes s' = tboxes s" "box_configs s' = box_configs s"
  using assms by (auto simp: add_contribution_def modifyA_def)

lemma stands_current:
  assumes th: "good_thresholds th" and st: "stands i th w s" and more: "w < capacity th"
    and s: "session_by i s = Some t"
  obtains b where "box_by_level i (ts_currentLevel t) s = Some b" "tb_level b = ts_currentLevel t"
    "tb_threshold b = th (ts_currentLevel t)" "tb_progress b = w - below th (ts_currentLevel t)" "tb_status b = TB_ACTIVE"
    "at_level th w (ts_currentLevel t)" "ts_status t = TS_ACTIVE"
    "tb_threshold b - tb_progress b = below th (Suc (ts_currentLevel t)) - w"
    "w < below th (Suc (ts_currentLevel t))"
proof -
  have c: "at_level th w (ts_currentLevel t)" "ts_status t = TS_ACTIVE"
    using st more s by (auto simp: stands_def)
  then have l: "1 \<le> ts_currentLevel t" "ts_currentLevel t \<le> 5" "below th (ts_currentLevel t) \<le> w"
    "w < below th (Suc (ts_currentLevel t))" using more by (auto simp: at_level_def)
  obtain b where b: "box_by_level i (ts_currentLevel t) s = Some b" "tb_threshold b = th (ts_currentLevel t)"
    "tb_progress b = held th w (ts_currentLevel t)" "tb_status b = box_state th w (ts_currentLevel t)"
    using stands_box [OF st l(1,2)] .
  show thesis
    using that [OF b(1)] b box_by_level_level [OF b(1)] c l held_current [OF l(1,3,4)] below_Suc [OF l(1), of th] by simp
qed

definition fill_step :: "int \<Rightarrow> tbox \<Rightarrow> tbox" where
  "fill_step n x = x\<lparr>tb_progress := tb_progress x + n\<rparr>"

lemma fill_step_sel [simp]:
  "tb_sessionId (fill_step n x) = tb_sessionId x" "tb_level (fill_step n x) = tb_level x"
  "tb_threshold (fill_step n x) = tb_threshold x" "tb_progress (fill_step n x) = tb_progress x + n"
  "tb_status (fill_step n x) = tb_status x" "tb_id (fill_step n x) = tb_id x"
  by (simp_all add: fill_step_def)

text \<open>A turn with coins left moves them into the current box and, when it is full, to the next.\<close>

lemma turn_stands:
  assumes th: "good_thresholds th" and st: "stands i th w s" and more: "w < capacity th" and pos: "0 < remaining"
    and run: "pour_turn i room u g now remaining s = (Inr out, s')"
  shows "\<exists>a ev. 0 < a \<and> a \<le> remaining \<and> stands i th (w + a) s' \<and>
    (w + a < capacity th \<and> out = Again a (remaining - a) ev \<or> w + a = capacity th \<and> out = Stop a (remaining - a) ev)"
proof -
  obtain t where t: "session_by i s = Some t" using st by (rule standsD)
  obtain b where b: "box_by_level i (ts_currentLevel t) s = Some b" and lb: "tb_level b = ts_currentLevel t"
    and bt: "tb_threshold b = th (ts_currentLevel t)" "tb_progress b = w - below th (ts_currentLevel t)"
      "tb_status b = TB_ACTIVE"
    and lev: "at_level th w (ts_currentLevel t)" and act: "ts_status t = TS_ACTIVE"
    and need: "tb_threshold b - tb_progress b = below th (Suc (ts_currentLevel t)) - w"
      "w < below th (Suc (ts_currentLevel t))"
    using stands_current [OF th st more t] .
  let ?c = "ts_currentLevel t"
  let ?n = "below th (Suc ?c) - w"
  define a where "a = (if ?n \<le> remaining then ?n else remaining)"
  have a: "0 < a" "a \<le> remaining" "w + a \<le> below th (Suc ?c)" "w < w + a"
    using need pos by (auto simp: a_def)
  have c: "1 \<le> ?c" "?c \<le> 5" "below th ?c \<le> w" using lev by (auto simp: at_level_def)
  have fill: "fill_box i room u g now b remaining s = (Inr out, s')"
    using run t b act bt(3) need by (auto simp: pour_turn_def bindA_def getsA_def returnA_def)
  obtain s1 b1 s2 where s1: "add_contribution b room u a (Some g) now s = (Inr (), s1)"
    and s2: "update_box i ?c (fill_step a) s1 = (Inr b1, s2)"
    and rest: "(tb_progress b1 < tb_threshold b1 \<and> (\<exists>ev. out = Again a (remaining - a) ev) \<and> s' = s2) \<or>
      (tb_threshold b1 \<le> tb_progress b1 \<and> (\<exists>tops ds s3. open_box i room b tops now s2 = (Inr ds, s3) \<and>
        (?c = 5 \<and> (\<exists>ev. out = Stop a (remaining - a) ev) \<and> finish_session i TS_COMPLETED now s3 = (Inr (), s') \<or>
         ?c < 5 \<and> (\<exists>ev. out = Again a (remaining - a) ev) \<and> (\<exists>nb. advance_box i ?c s3 = (Inr nb, s')))))"
    using fill a_def [folded need(1)]
  proof (cases rule: fill_box_run)
    case (1 s1 b1 s2 ev)
    then show ?thesis by (intro that [of s1 b1 s2]) (auto simp: fill_step_def [abs_def] lb)
  next
    case (2 s1 b1 s2 tops ds s3 ev)
    then show ?thesis using c(2) by (intro that [of s1 b1 s2]) (auto simp: fill_step_def [abs_def] lb)
  next
    case (3 s1 b1 s2 tops ds s3 ev nb)
    then show ?thesis by (intro that [of s1 b1 s2]) (auto simp: fill_step_def [abs_def] lb)
  qed
  note f1 = add_contribution_frame [OF s1]
  have keep: "\<And>x. tb_sessionId (fill_step a x) = tb_sessionId x \<and> tb_level (fill_step a x) = tb_level x" by simp
  note u = box_update [OF keep s2]
  have b1: "b1 = fill_step a b" using u(2) b boxes_same [OF f1(3)] by simp
  have boxes2: "box_by_level i k s2 = (if k = ?c then map_option (fill_step a) (box_by_level i k s)
      else box_by_level i k s)" for k using u(1) [of i k] boxes_same [OF f1(3)] by simp
  have ses2: "session_by i s2 = Some t" using sessions_same [OF u(3)] sessions_same [OF f1(2)] t by simp
  have nxt: "\<exists>n. box_by_level i (Suc ?c) s = Some n \<and> tb_threshold n = th (Suc ?c) \<and> tb_progress n = 0 \<and>
      tb_status n = TB_PENDING" if "?c < 5"
    using stands_box [OF st, of "Suc ?c"] held_higher [OF th _ need(2)] that by fastforce
  show ?thesis
  proof (cases "w + a = below th (Suc ?c)")
    case False
    then have lt: "w + a < below th (Suc ?c)" using a by simp
    then have cap: "w + a < capacity th" using below_mono [OF th, of "Suc ?c" 6] c by (simp add: capacity_def)
    have lev': "at_level th (w + a) ?c" using lt cap c a by (auto simp: at_level_def)
    obtain ev where s': "s' = s2" "out = Again a (remaining - a) ev"
      using rest b1 bt lt below_Suc [OF c(1), of th] by auto
    have "stands i th (w + a) s2"
      by (rule stands_after [where b = "fill_step a b", OF th st lev more a(4,3) ses2])
        (use act cap lev' boxes2 b bt lt nxt in auto)
    then show ?thesis using a cap s' by blast
  next
    case True
    then have full: "tb_threshold b1 \<le> tb_progress b1" using b1 bt below_Suc [OF c(1), of th] by simp
    obtain tops ds s3 where s3: "open_box i room b tops now s2 = (Inr ds, s3)"
      and fin: "?c = 5 \<and> (\<exists>ev. out = Stop a (remaining - a) ev) \<and> finish_session i TS_COMPLETED now s3 = (Inr (), s') \<or>
         ?c < 5 \<and> (\<exists>ev. out = Again a (remaining - a) ev) \<and> (\<exists>nb. advance_box i ?c s3 = (Inr nb, s'))"
      using rest full by auto
    note o = open_box_effect [OF s3, unfolded lb]
    have ses3: "session_by i s3 = Some t" using sessions_same [OF o(2)] ses2 by simp
    have boxes3: "box_by_level i k s3 = (if k = ?c then Some (opened tops now (fill_step a b)) else box_by_level i k s)" for k
      unfolding o(1) [of k] boxes2 using b by simp
    from fin show ?thesis
    proof (elim disjE conjE exE)
      fix ev assume c5: "?c = 5" and out: "out = Stop a (remaining - a) ev"
        and f: "finish_session i TS_COMPLETED now s3 = (Inr (), s')"
      note e = finish_effect [OF f]
      have cap: "w + a = capacity th" using True c5 by (simp add: capacity_def)
      have "stands i th (w + a) s'"
        by (rule stands_after [where b = "opened tops now (fill_step a b)", OF th st lev more a(4,3), of s' "t\<lparr>ts_status := TS_COMPLETED, ts_completedAt := Some now\<rparr>"])
          (use e ses3 boxes3 boxes_same [OF e(2)] cap lev a c5 bt True in \<open>auto simp: at_level_def\<close>)
      then show ?thesis using a cap out by blast
    next
      fix ev nb assume c5: "?c < 5" and out: "out = Again a (remaining - a) ev"
        and f: "advance_box i ?c s3 = (Inr nb, s')"
      note e = advance_effect [OF f]
      note lev' = at_level_next [OF th c(1) c5 True]
      have "stands i th (w + a) s'"
        by (rule stands_after [where b = "opened tops now (fill_step a b)", OF th st lev more a(4,3), of s' "t\<lparr>ts_currentLevel := Suc ?c\<rparr>"])
          (use e ses3 boxes3 lev' act nxt [OF c5] bt True in auto)
      then show ?thesis using a lev' out by blast
    qed
  qed
qed

theorem pour_is_container:
  assumes "good_thresholds th" "stands i th w s" "w < capacity th" "0 \<le> amt"
    "pour i room u g now amt s = (Inr (a, r, ev), s')"
  shows "stands i th (min (capacity th) (w + amt)) s'" "a = min (capacity th - w) amt" "r = amt - a"
proof -
  have "stands i th (min (capacity th) (w + amt)) s' \<and> a = min (capacity th - w) amt \<and> r = amt - a"
    using assms(2-5)
  proof (induction i room u g now amt s arbitrary: w a r ev s' rule: pour.induct)
    case (1 i room u g now remaining s)
    show ?case
    proof (cases "remaining \<le> 0")
      case True
      then have "remaining = 0" "a = 0" "r = 0" "s' = s"
        using "1.prems" by (simp_all add: pour.simps [of i room u g now 0 s])
      then show ?thesis using "1.prems" by simp
    next
      case False
      obtain x s1 where turn: "pour_turn i room u g now remaining s = (x, s1)" by fastforce
      then obtain out where x: "x = Inr out"
        using "1.prems"(4) False by (cases x) (auto simp: pour.simps [of i room u g now remaining s])
      obtain d e where d: "0 < d" "d \<le> remaining" "stands i th (w + d) s1"
        and o: "w + d < capacity th \<and> out = Again d (remaining - d) e \<or> w + d = capacity th \<and> out = Stop d (remaining - d) e"
        using turn_stands [OF assms(1) "1.prems"(1,2) _ turn [unfolded x]] False by auto
      from o show ?thesis
      proof
        assume o: "w + d = capacity th \<and> out = Stop d (remaining - d) e"
        then have "a = d" "r = remaining - d" "s' = s1"
          using "1.prems"(4) turn x False by (auto simp: pour.simps [of i room u g now remaining s])
        then show ?thesis using d o by auto
      next
        assume o: "w + d < capacity th \<and> out = Again d (remaining - d) e"
        then obtain a' r' ev' where rest: "pour i room u g now (remaining - d) s1 = (Inr (a', r', ev'), s')"
          and "a = d + a'" "r = r'"
          using "1.prems"(4) turn x False
          by (auto simp: pour.simps [of i room u g now remaining s] split: prod.splits sum.splits)
        moreover have "stands i th (min (capacity th) (w + d + (remaining - d))) s' \<and>
            a' = min (capacity th - (w + d)) (remaining - d) \<and> r' = (remaining - d) - a'"
          using "1.IH" [OF False turn [symmetric] x, of d "remaining - d" e "w + d"] o d rest by simp
        ultimately show ?thesis by auto
      qed
    qed
  qed
  then show "stands i th (min (capacity th) (w + amt)) s'" "a = min (capacity th - w) amt" "r = amt - a" by blast+
qed


section \<open>The event's loop is the same container\<close>

lemma create_box_absent: "box_by_level i l s \<noteq> None \<Longrightarrow> create_box i room l n st s = (Inl P2002, s)"
  by (simp add: create_box_def)

lemma box_at_present: "box_by_level i l s = Some b \<Longrightarrow> box_at i room l s = (Inr b, s)"
  by (simp add: box_at_def bindA_def getsA_def returnA_def)

lemma unlock_present:
  "box_by_level i l s = Some b \<Longrightarrow>
     unlock_box i room l s = bindA (update_box i l (\<lambda>x. x\<lparr>tb_status := TB_ACTIVE\<rparr>)) (\<lambda>_. returnA ()) s"
  by (simp add: unlock_box_def bindA_def getsA_def)

definition topped :: "int \<Rightarrow> int \<Rightarrow> tbox \<Rightarrow> tbox" where
  "topped n now x = x\<lparr>tb_progress := n, tb_status := TB_OPENED, tb_openedAt := Some now\<rparr>"

definition part_filled :: "int \<Rightarrow> tbox \<Rightarrow> tbox" where
  "part_filled n x = x\<lparr>tb_progress := n, tb_status := TB_ACTIVE\<rparr>"

lemma topped_sel [simp]:
  "tb_sessionId (topped n now x) = tb_sessionId x" "tb_level (topped n now x) = tb_level x"
  "tb_threshold (topped n now x) = tb_threshold x" "tb_progress (topped n now x) = n"
  "tb_status (topped n now x) = TB_OPENED" "tb_id (topped n now x) = tb_id x"
  "tb_sessionId (part_filled n x) = tb_sessionId x" "tb_level (part_filled n x) = tb_level x"
  "tb_threshold (part_filled n x) = tb_threshold x" "tb_progress (part_filled n x) = n"
  "tb_status (part_filled n x) = TB_ACTIVE" "tb_id (part_filled n x) = tb_id x"
  by (simp_all add: topped_def part_filled_def)

text \<open>The write of a contribution row, made or not, is a frame for the boxes.\<close>

lemma maybe_contribution:
  assumes "(if q then add_contribution b room u n g now else returnA ()) s = (x, s')"
  shows "x = Inr ()" "tsessions s' = tsessions s" "tboxes s' = tboxes s"
  using assms by (auto simp: add_contribution_def modifyA_def returnA_def split: if_splits)

lemma bindA_run: "m s = (Inr a, s') \<Longrightarrow> bindA m k s = k a s'"
  by (simp add: bindA_def)

lemma fill_levels_is_container:
  fixes s :: "'a treasure_db_scheme"
  assumes th: "good_thresholds th"
  shows "stands i th w s \<Longrightarrow> w < capacity th \<Longrightarrow> 0 \<le> remaining \<Longrightarrow> level_of i s = l \<Longrightarrow>
    \<exists>done l' s'. fill_levels i room u g ranked now l remaining s =
        (Inr (done, l', max 0 (w + remaining - capacity th), capacity th \<le> w + remaining), s') \<and>
      stands i th (min (capacity th) (w + remaining)) s'"
proof (induction i room u g ranked now l remaining arbitrary: w s rule: fill_levels.induct)
  case (1 i room u g ranked now l remaining)
  obtain t where t: "session_by i s = Some t" using "1.prems"(1) by (rule standsD)
  have lt: "ts_currentLevel t = l" using "1.prems"(4) t by (simp add: level_of_def)
  obtain b where b: "box_by_level i l s = Some b" and lb: "tb_level b = l"
    and bt: "tb_threshold b = th l" "tb_progress b = w - below th l" "tb_status b = TB_ACTIVE"
    and lev: "at_level th w l" and act: "ts_status t = TS_ACTIVE"
    and need: "tb_threshold b - tb_progress b = below th (Suc l) - w" "w < below th (Suc l)"
    using stands_current [OF th "1.prems"(1,2) t] lt by metis
  have c: "1 \<le> l" "l \<le> 5" "below th l \<le> w" using lev by (auto simp: at_level_def)
  let ?n = "below th (Suc l) - w"
  show ?case
  proof (cases "remaining = 0")
    case True
    then show ?thesis
      using "1.prems" by (auto simp: fill_levels.simps [of i room u g ranked now l 0] returnA_def)
  next
    case False
    then have pos: "0 < remaining" using "1.prems"(3) by simp
    have guards: "\<not> (remaining \<le> 0 \<or> TREASURE_BOX_COUNT < l)" using pos c by (simp add: TREASURE_BOX_COUNT_def)
    have nxt: "\<exists>n. box_by_level i (Suc l) s = Some n \<and> tb_threshold n = th (Suc l) \<and> tb_progress n = 0 \<and>
        tb_status n = TB_PENDING" if "l < 5"
      using stands_box [OF "1.prems"(1), of "Suc l"] held_higher [OF th _ need(2)] that by fastforce
    show ?thesis
    proof (cases "?n \<le> remaining")
      case False
      define s1 where "s1 = snd (update_box i l (part_filled (w - below th l + remaining)) s)"
      have u1: "update_box i l (part_filled (w - below th l + remaining)) s =
          (Inr (part_filled (w - below th l + remaining) b), s1)"
        using b by (simp add: s1_def update_box_def)
      obtain x s2 where s2: "(if ranked then add_contribution b room u remaining g now else returnA ()) s1 = (x, s2)"
        by fastforce
      note m = maybe_contribution [OF s2]
      have keep: "\<And>y. tb_sessionId (part_filled (w - below th l + remaining) y) = tb_sessionId y \<and>
          tb_level (part_filled (w - below th l + remaining) y) = tb_level y" by simp
      note u = box_update [OF keep u1]
      have run: "fill_levels i room u g ranked now l remaining s = (Inr ([], l, 0, False), s2)"
        using pos c False need(1) box_at_present [OF b] u1 s2 m(1) bt(2)
        by (simp add: fill_levels.simps [of i room u g ranked now l remaining] TREASURE_BOX_COUNT_def bindA_def
            returnA_def Let_def part_filled_def [abs_def])
      have lt2: "w + remaining < below th (Suc l)" using False by simp
      then have cap: "w + remaining < capacity th" using below_mono [OF th, of "Suc l" 6] c by (simp add: capacity_def)
      have ses: "session_by i s2 = Some t" using sessions_same [OF u(3)] sessions_same [OF m(2)] t by simp
      have boxes: "box_by_level i k s2 = (if k = l then Some (part_filled (w - below th l + remaining) b)
          else box_by_level i k s)" for k
        unfolding boxes_same [OF m(3)] u(1) using b by simp
      have "stands i th (w + remaining) s2"
        by (rule stands_after [where b = "part_filled (w - below th l + remaining) b" and t = t,
              OF th "1.prems"(1) lev "1.prems"(2) _ _ ses])
          (use act cap lt2 lev c boxes bt nxt pos lt in \<open>auto simp: at_level_def\<close>)
      then show ?thesis using run cap by auto
    next
      case full: True
      define s1 where "s1 = snd (update_box i l (topped (tb_threshold b) now) s)"
      have u1: "update_box i l (topped (tb_threshold b) now) s = (Inr (topped (tb_threshold b) now b), s1)"
        using b by (simp add: s1_def update_box_def)
      obtain x s2 where s2: "(if 0 < ?n \<and> ranked then add_contribution b room u ?n g now else returnA ()) s1 = (x, s2)"
        by fastforce
      note m = maybe_contribution [OF s2]
      have keep: "\<And>y. tb_sessionId (topped (tb_threshold b) now y) = tb_sessionId y \<and> tb_level (topped (tb_threshold b) now y) = tb_level y"
        by simp
      note u = box_update [OF keep u1]
      have ses: "session_by i s2 = Some t" using sessions_same [OF u(3)] sessions_same [OF m(2)] t by simp
      have boxes: "box_by_level i k s2 = (if k = l then Some (topped (tb_threshold b) now b) else box_by_level i k s)" for k
        unfolding boxes_same [OF m(3)] u(1) using b by simp
      let ?w = "below th (Suc l)"
      have r1: "bindA (box_at i room l) k s = k b s" for k :: "tbox \<Rightarrow> ('a treasure_db_scheme, (nat \<times> nat \<times> int) list \<times> nat \<times> int \<times> bool) act"
        by (rule bindA_run) (rule box_at_present [OF b])
      have r2: "bindA (update_box i l (\<lambda>x. x\<lparr>tb_progress := tb_threshold b, tb_status := TB_OPENED, tb_openedAt := Some now\<rparr>)) k s =
          k (topped (tb_threshold b) now b) s1" for k :: "tbox \<Rightarrow> ('a treasure_db_scheme, (nat \<times> nat \<times> int) list \<times> nat \<times> int \<times> bool) act"
        by (rule bindA_run) (use u1 in \<open>simp only: topped_def [abs_def]\<close>)
      have r3: "bindA (if 0 < ?n \<and> ranked then add_contribution b room u ?n g now else returnA ()) k s1 = k () s2"
        for k :: "unit \<Rightarrow> ('a treasure_db_scheme, (nat \<times> nat \<times> int) list \<times> nat \<times> int \<times> bool) act"
        by (rule bindA_run) (rule s2 [unfolded m(1)])
      have prefix: "fill_levels i room u g ranked now l remaining s =
        (if 5 < Suc l
         then bindA (finish_session i TS_COMPLETED now) (\<lambda>_.
              returnA ([(tb_id b, l, tb_threshold b)], Suc l, (if 0 < remaining - ?n then remaining - ?n else 0), True)) s2
         else bindA (unlock_box i room (Suc l)) (\<lambda>_.
              bindA (set_level i (Suc l)) (\<lambda>_.
              bindA (fill_levels i room u g ranked now (Suc l) (remaining - ?n)) (\<lambda>(done, l', r, fin).
              returnA ((tb_id b, l, tb_threshold b) # done, l', r, fin)))) s2)"
        using full
        by (simp only: fill_levels.simps [of i room u g ranked now l remaining]
            guards [unfolded TREASURE_BOX_COUNT_def] if_False Let_def need(1)
            r1 if_True r2 r3 TREASURE_BOX_COUNT_def) (simp split: if_split)
      show ?thesis
      proof (cases "l = 5")
        case True
        define s3 where "s3 = snd (finish_session i TS_COMPLETED now s2)"
        have f: "finish_session i TS_COMPLETED now s2 = (Inr (), s3)"
          using ses by (simp add: s3_def finish_session_def update_session_def)
        note e = finish_effect [OF f]
        have cap: "?w = capacity th" using True by (simp add: capacity_def)
        have "stands i th ?w s3"
          by (rule stands_after [where b = "topped (tb_threshold b) now b" and t = "t\<lparr>ts_status := TS_COMPLETED, ts_completedAt := Some now\<rparr>",
                OF th "1.prems"(1) lev "1.prems"(2) need(2)])
            (use e ses boxes boxes_same [OF e(2)] cap lev c True bt lt below_Suc [OF c(1), of th] need(2) in \<open>auto simp: at_level_def\<close>)
        then show ?thesis using prefix f True cap full by (auto simp: bindA_def returnA_def)
      next
        case False
        then have c5: "l < 5" using c by simp
        obtain n where n: "box_by_level i (Suc l) s2 = Some n" using nxt [OF c5] boxes [of "Suc l"] by auto
        define s3 where "s3 = snd (update_box i (Suc l) (\<lambda>x. x\<lparr>tb_status := TB_ACTIVE\<rparr>) s2)"
        have s3: "update_box i (Suc l) (\<lambda>x. x\<lparr>tb_status := TB_ACTIVE\<rparr>) s2 = (Inr (n\<lparr>tb_status := TB_ACTIVE\<rparr>), s3)"
          using n by (simp add: s3_def update_box_def)
        have keep2: "\<And>y. tb_sessionId (y\<lparr>tb_status := TB_ACTIVE\<rparr>) = tb_sessionId y \<and>
            tb_level (y\<lparr>tb_status := TB_ACTIVE\<rparr>) = tb_level y" by simp
        note v = box_update [OF keep2 s3]
        define s4 where "s4 = snd (set_level i (Suc l) s3)"
        have s4: "set_level i (Suc l) s3 = (Inr (), s4)"
          using sessions_same [OF v(3)] ses by (simp add: s4_def set_level_def update_session_def)
        note e = set_level_effect [OF s4]
        note lev' = at_level_next [OF th c(1) c5 refl]
        have ses4: "session_by i s4 = Some (t\<lparr>ts_currentLevel := Suc l\<rparr>)"
          unfolding e(1) sessions_same [OF v(3)] using ses by simp
        have boxes4: "box_by_level i k s4 = (if k = Suc l then Some (n\<lparr>tb_status := TB_ACTIVE\<rparr>)
            else if k = l then Some (topped (tb_threshold b) now b) else box_by_level i k s)" for k
          unfolding boxes_same [OF e(2)] v(1) using boxes [of k] n by simp
        have ns: "tb_threshold n = th (Suc l) \<and> tb_progress n = 0" using nxt [OF c5] n boxes [of "Suc l"] by auto
        have st4: "stands i th ?w s4"
          by (rule stands_after [where b = "topped (tb_threshold b) now b", OF th "1.prems"(1) lev "1.prems"(2) need(2) _ ses4])
            (use boxes4 lev' act ns bt lt below_Suc [OF c(1), of th] in auto)
        have rest: "0 \<le> remaining - ?n" "level_of i s4 = Suc l" using full ses4 by (auto simp: level_of_def)
        have "\<exists>done l' s'. fill_levels i room u g ranked now (Suc l) (remaining - ?n) s4 =
            (Inr (done, l', max 0 (?w + (remaining - ?n) - capacity th), capacity th \<le> ?w + (remaining - ?n)), s') \<and>
          stands i th (min (capacity th) (?w + (remaining - ?n))) s'"
          using "1.IH" [OF guards refl, of b ?w s4] full c5 st4 lev'(2) rest need(1)
          by (simp add: TREASURE_BOX_COUNT_def)
        then obtain bs l2 s5 where r: "fill_levels i room u g ranked now (Suc l) (remaining - ?n) s4 =
            (Inr (bs, l2, max 0 (w + remaining - capacity th), capacity th \<le> w + remaining), s5)"
          "stands i th (min (capacity th) (w + remaining)) s5" by (auto simp: algebra_simps)
        then show ?thesis
          using prefix c5 unlock_present [OF n] s3 s4 by (auto simp: bindA_def returnA_def)
      qed
    qed
  qed
qed

end
