(* ===== verification/TreasureProperties.thy ===== *)
theory TreasureProperties
  imports TreasureLaws
begin

text \<open>
  What the container shows of the treasure module: the contribution of a gift and the handler of its event
  fill the boxes alike, a gift fills them once, a ladder starts empty, and what a gift to oneself is worth.
\<close>

section \<open>A session in the room\<close>

text \<open>The room's session is open since today and its boxes hold \<open>w\<close> coins.\<close>

definition open_today :: "nat \<Rightarrow> nat \<Rightarrow> (nat \<Rightarrow> int) \<Rightarrow> int \<Rightarrow> int \<Rightarrow> ('z treasure_db_scheme) \<Rightarrow> bool" where
  "open_today room i th w now s \<longleftrightarrow>
     good_thresholds th \<and> stands i th w s \<and> w < capacity th \<and>
     (\<exists>t. active_session room s = Some t \<and> ts_id t = i \<and> today_start now \<le> ts_createdAt t \<and> session_by i s = Some t) \<and>
     completed_since room (today_start now) s = None"

lemma open_todayE:
  assumes "open_today room i th w now s"
  obtains t where "good_thresholds th" "stands i th w s" "w < capacity th" "active_session room s = Some t" "ts_id t = i"
    "today_start now \<le> ts_createdAt t" "session_by i s = Some t" "completed_since room (today_start now) s = None"
  using assms by (auto simp: open_today_def)

lemma session_for_gift_open:
  assumes "open_today room i th w now s"
  obtains t where "session_for_gift room u now s = (Inr (Some t, []), s)" "ts_id t = i"
proof -
  obtain t where t: "active_session room s = Some t" "ts_id t = i" "today_start now \<le> ts_createdAt t"
    using open_todayE [OF assms] .
  then have "session_for_gift room u now s = (Inr (Some t, []), s)"
    by (simp add: session_for_gift_def bindA_def getsA_def returnA_def not_less)
  then show thesis using that t(2) by blast
qed

lemma stands_frame:
  assumes "tsessions s' = tsessions s" "tboxes s' = tboxes s"
  shows "stands i th w s' = stands i th w s"
  by (simp only: stands_def session_by_def box_by_level_def assms)

lemma counters_frame:
  assumes "incrementRoomContribution room amt s = (Inr rt, s1)" "incrementUserContribution u amt s1 = (Inr ut, s2)"
  shows "tsessions s2 = tsessions s" "tboxes s2 = tboxes s" "contributions s2 = contributions s"
  using assms by (auto simp: incrementRoomContribution_def incrementUserContribution_def Let_def)

lemma contribution_run:
  assumes op: "open_today room i th w now s" and new: "already_contributed g s = None"
    and run: "processTreasureContribution room u v amt g now s = (Inr res, s')"
  obtains s2 a r ev where "tsessions s2 = tsessions s" "tboxes s2 = tboxes s" "contributions s2 = contributions s"
    "pour i room u g now amt s2 = (Inr (a, r, ev), s')" "co_accepted res = toNumber a" "co_refund res = toNumber r"
proof -
  obtain t where t: "session_for_gift room u now s = (Inr (Some t, []), s)" "ts_id t = i"
    using session_for_gift_open [OF op] .
  obtain rt s1 where s1: "incrementRoomContribution room amt s = (Inr rt, s1)"
    by (simp add: incrementRoomContribution_def Let_def)
  obtain ut s2 where s2: "incrementUserContribution v amt s1 = (Inr ut, s2)"
    by (simp add: incrementUserContribution_def Let_def)
  have "\<exists>a r ev. pour i room u g now amt s2 = (Inr (a, r, ev), s') \<and> co_accepted res = toNumber a \<and>
      co_refund res = toNumber r"
    using run new t s1 s2
    by (auto simp: processTreasureContribution_def bindA_def getsA_def returnA_def Let_def
        split: prod.splits sum.splits)
  then show thesis using that counters_frame [OF s1 s2] by blast
qed

section \<open>Two engines, one container\<close>

text \<open>
  C17: With a session of today open and not full, a gift's contribution moves into the open boxes what still
  fits and returns the rest for the refund; the boxes then stand as if they were one container with that much more in it, and the session is
  completed exactly when it is full.
\<close>

theorem contribution_fills_container:
  assumes "open_today room i th w now s" "already_contributed g s = None" "0 \<le> amt" "amt \<le> 2 ^ 53"
    "processTreasureContribution room u v amt g now s = (Inr res, s')"
  shows "stands i th (min (capacity th) (w + amt)) s' \<and> co_accepted res = min (capacity th - w) amt \<and>
    co_refund res = amt - co_accepted res"
proof -
  obtain s2 a r ev where s2: "tsessions s2 = tsessions s" "tboxes s2 = tboxes s"
    and p: "pour i room u g now amt s2 = (Inr (a, r, ev), s')"
    and res: "co_accepted res = toNumber a" "co_refund res = toNumber r"
    using contribution_run [OF assms(1,2,5)] .
  have st: "good_thresholds th" "stands i th w s2" "w < capacity th"
    using open_todayE [OF assms(1)] stands_frame [OF s2] by auto
  note c = pour_is_container [OF st assms(3) p]
  have "\<bar>a\<bar> \<le> 2 ^ 53" "\<bar>r\<bar> \<le> 2 ^ 53" using c(2,3) assms(3,4) st(3) by auto
  then show ?thesis using c res by simp
qed

text \<open>
  C18: The two engines agree while a session of today is open and not full: from the same such session, a gift
  counted inside its transaction and the same amount counted from the event accept and refund the same and
  leave the boxes of the same container. See \<open>engines_differ_when_over\<close> for a session that is completed.
\<close>

theorem engines_agree:
  assumes "open_today room i th w now s" "already_contributed g s = None" "0 < amt" "amt \<le> 2 ^ 53"
    "processTreasureContribution room u v amt g now s = (Inr res, s1)"
  shows "\<exists>pr s2. applyGiftProgress room u amt (Some g) ctx ranked now s = (Inr pr, s2) \<and>
    pr_appliedAmount pr = co_accepted res \<and> pr_refundAmount pr = co_refund res \<and>
    pr_sessionCompleted pr = (capacity th \<le> w + amt) \<and>
    stands i th (min (capacity th) (w + amt)) s1 \<and> stands i th (min (capacity th) (w + amt)) s2"
proof -
  obtain t where t: "good_thresholds th" "stands i th w s" "w < capacity th" "active_session room s = Some t" "ts_id t = i"
    "session_by i s = Some t" "completed_since room (today_start now) s = None"
    using open_todayE [OF assms(1)] .
  note one = contribution_fills_container [OF assms(1,2) _ assms(4,5)]
  have lev: "level_of i s = ts_currentLevel t" using t(6) by (simp add: level_of_def)
  obtain bs l' s2 where f: "fill_levels i room u (Some g) ranked now (ts_currentLevel t) amt s =
      (Inr (bs, l', max 0 (w + amt - capacity th), capacity th \<le> w + amt), s2)"
    and st: "stands i th (min (capacity th) (w + amt)) s2"
    using fill_levels_is_container [OF t(1-3) _ lev, of amt room u "Some g" ranked now] assms(3) by auto
  have "getOrCreateActiveSession room ctx now s = (Inr (Some t), s)"
    using t(4) by (simp add: getOrCreateActiveSession_def bindA_def getsA_def returnA_def)
  then have "\<exists>b. applyGiftProgress room u amt (Some g) ctx ranked now s =
      (Inr \<lparr>pr_sessionId = Some i, pr_appliedAmount = amt - max 0 (w + amt - capacity th),
            pr_refundAmount = max 0 (w + amt - capacity th), pr_completedBoxes = bs, pr_activeBox = b,
            pr_sessionCompleted = (capacity th \<le> w + amt)\<rparr>, s2)"
    using assms(2,3) t(5,7) f by (simp add: applyGiftProgress_def bindA_def getsA_def returnA_def guardA_def)
  then show ?thesis using one assms(3) st by fastforce
qed

text \<open>
  Once the session of today is completed they do not: inside the transaction the whole gift counts as accepted, from
  the event nothing is applied; both refund nothing.
\<close>

theorem engines_differ_when_over:
  assumes "active_session room s = None" "completed_since room (today_start now) s = Some t"
    "already_contributed g s = None" "0 < amt"
  shows "\<exists>res s1 pr. processTreasureContribution room u v amt g now s = (Inr res, s1) \<and>
    co_accepted res = amt \<and> co_refund res = 0 \<and> tboxes s1 = tboxes s \<and>
    applyGiftProgress room u amt (Some g) ctx ranked now s = (Inr pr, s) \<and> pr_appliedAmount pr = 0 \<and> pr_refundAmount pr = 0"
  using assms
  by (simp add: processTreasureContribution_def session_for_gift_def incrementRoomContribution_def
      incrementUserContribution_def applyGiftProgress_def no_progress_def bindA_def getsA_def guardA_def returnA_def Let_def)

section \<open>A gift fills the boxes once\<close>

definition counted :: "nat \<Rightarrow> ('z treasure_db_scheme) \<Rightarrow> bool" where
  "counted g s \<longleftrightarrow> (\<exists>c\<in>set (contributions s). tc_giftTxnId c = Some g)"

lemma counted_iff: "already_contributed g s = None \<longleftrightarrow> \<not> counted g s"
  by (auto simp: already_contributed_def counted_def find_None_iff)

lemma counted_same: "contributions s' = contributions s \<Longrightarrow> counted g s' = counted g s"
  by (simp add: counted_def)

lemma counted_added: "add_contribution b room u n (Some g) now s = (Inr (), s') \<Longrightarrow> counted g s'"
  by (simp add: counted_def add_contribution_def)

lemma fill_box_records:
  assumes "fill_box i room u g now b remaining s = (Inr out, s')"
  shows "counted g s'"
  using assms refl
proof (cases rule: fill_box_run)
  case 1
  then show ?thesis using counted_added [OF 1(1)] counted_same [OF box_update(4) [OF _ 1(2)]] by simp
next
  case 2
  then show ?thesis
    using counted_added [OF 2(1)] counted_same [OF box_update(4) [OF _ 2(2)]]
      counted_same [OF open_box_effect(4) [OF 2(4)]] counted_same [OF finish_effect(3) [OF 2(6)]] by simp
next
  case 3
  then show ?thesis
    using counted_added [OF 3(1)] counted_same [OF box_update(4) [OF _ 3(2)]]
      counted_same [OF open_box_effect(4) [OF 3(4)]] counted_same [OF advance_effect(3) [OF 3(6)]] by simp
qed

lemma advance_counted: "advance_box i l s = (Inr b, s') \<Longrightarrow> counted g s' = counted g s"
  by (rule counted_same) (rule advance_effect(3))

lemma pour_turn_keeps:
  assumes "pour_turn i room u g now remaining s = (Inr out, s')" "counted g s"
  shows "counted g s'"
  using assms fill_box_records [of i room u g now _ remaining s out s'] advance_counted [of i _ s _ s' g]
  by (auto simp: pour_turn_def bindA_Inr split: option.splits if_splits)

lemma pour_keeps:
  "pour i room u g now remaining s = (Inr x, s') \<Longrightarrow> counted g s \<Longrightarrow> counted g s'"
proof (induction i room u g now remaining s arbitrary: x s' rule: pour.induct)
  case (1 i room u g now remaining s)
  show ?case
  proof (cases "remaining \<le> 0")
    case True
    then show ?thesis using "1.prems" by (simp add: pour.simps [of i room u g now remaining s])
  next
    case False
    then obtain out s1 where turn: "pour_turn i room u g now remaining s = (Inr out, s1)"
      using "1.prems"(1)
      by (auto simp: pour.simps [of i room u g now remaining s] split: prod.splits sum.splits)
    then have k: "counted g s1" using pour_turn_keeps "1.prems"(2) by blast
    show ?thesis
    proof (cases out)
      case (Stop a r ev)
      then show ?thesis using "1.prems"(1) False turn k by (simp add: pour.simps [of i room u g now remaining s])
    next
      case (Again a r ev)
      then show ?thesis
        using "1.prems"(1) "1.IH" False turn k
        by (auto simp: pour.simps [of i room u g now remaining s] split: prod.splits sum.splits)
    qed
  qed
qed

lemma pour_records:
  assumes th: "good_thresholds th" and st: "stands i th w s" "w < capacity th" and pos: "0 < amt"
    and run: "pour i room u g now amt s = (Inr x, s')"
  shows "counted g s'"
proof -
  obtain t where t: "session_by i s = Some t" using standsD [OF st(1)] .
  obtain b where b: "box_by_level i (ts_currentLevel t) s = Some b" "tb_status b = TB_ACTIVE" "ts_status t = TS_ACTIVE"
    and left: "0 < tb_threshold b - tb_progress b"
    using stands_current [OF th st t] by (metis diff_gt_0_iff_gt)
  have turn: "pour_turn i room u g now amt s = fill_box i room u g now b amt s"
    using t b left by (simp add: pour_turn_def bindA_def getsA_def)
  from run pos obtain out s1 where f: "fill_box i room u g now b amt s = (Inr out, s1)"
    by (auto simp: pour.simps [of i room u g now amt s] turn split: prod.splits sum.splits)
  have k: "counted g s1" using fill_box_records [OF f] .
  show ?thesis
  proof (cases out)
    case (Stop a r ev)
    then show ?thesis using run pos f k by (simp add: pour.simps [of i room u g now amt s] turn)
  next
    case (Again a r ev)
    then show ?thesis
      using run pos f k pour_keeps
      by (auto simp: pour.simps [of i room u g now amt s] turn split: prod.splits sum.splits)
  qed
qed

text \<open>
  C19: A gift that was counted inside its transaction is not counted a second time by the event it sends:
  the handler then writes an audit row and nothing else.
\<close>

theorem gift_counts_once:
  assumes "open_today room i th w now s" "already_contributed (gs_transactionId p) s = None" "0 < gs_totalCoinValue p"
    "processTreasureContribution room (gs_senderId p) v (gs_totalCoinValue p) (gs_transactionId p) now s = (Inr res, s1)"
  shows "handleGiftSent p later s1 =
    (Inr (), s1\<lparr>treasure_audits := treasure_audits s1 @
       [\<lparr>ta_action = ''TREASURE_PROGRESS_UPDATED'', ta_roomId = Some (gs_contextId p), ta_boxId = None, ta_actorId = None\<rparr>]\<rparr>)"
proof -
  obtain s2 a r ev where s2: "tsessions s2 = tsessions s" "tboxes s2 = tboxes s"
    and p: "pour i room (gs_senderId p) (gs_transactionId p) now (gs_totalCoinValue p) s2 = (Inr (a, r, ev), s1)"
    using contribution_run [OF assms(1,2,4)] .
  have "good_thresholds th" "stands i th w s2" "w < capacity th"
    using open_todayE [OF assms(1)] stands_frame [OF s2] by auto
  from pour_records [OF this assms(3) p] obtain c where "already_contributed (gs_transactionId p) s1 = Some c"
    using counted_iff by (cases "already_contributed (gs_transactionId p) s1") auto
  then show ?thesis
    using assms(3)
    by (simp add: handleGiftSent_def applyGiftProgress_def no_progress_def audit_treasure_def bindA_def getsA_def
        guardA_def returnA_def modifyA_def)
qed

end
