(* ===== verification/TreasureChampions.thy ===== *)
theory TreasureChampions
  imports TreasureProperties
begin

text \<open>The ranking of a box, the ladder of a new session, and a room without a complete configuration.\<close>

section \<open>Champions\<close>

lemma sorted_take_rest:
  assumes "sorted_wrt P xs" "x \<in> set (take n xs)" "y \<in> set (drop n xs)"
  shows "P x y"
  using assms sorted_wrt_append [of P "take n xs" "drop n xs"] by simp

lemma sort_key_sorted: "sorted_wrt (\<lambda>x y. f x \<le> f y) (sort_key f xs)"
  using sorted_sort_key [of f xs] by (simp add: sorted_wrt_map)

lemma contributors_distinct: "distinct (contributors b cs)"
  by (simp add: contributors_def)

lemma set_contributors: "set (contributors b cs) = tc_userId ` {c \<in> set cs. tc_boxId c = b}"
  by (auto simp: contributors_def)

text \<open>
  C40: The champions of a box are at most as many as asked for, ranked from one in the order of what each gave to
  the box, without repetition; whoever contributed and is not among them gave no more than any of them, and
  nobody is left out while a place is free.
\<close>

theorem champions_are_the_best:
  "let best = topContributors b n s; gave = (\<lambda>u. gave_to b u (contributions s)) in
    length best \<le> n \<and> map fst best = [1..<Suc (length best)] \<and>
    distinct (map (fst \<circ> snd) best) \<and> sorted_wrt (\<ge>) (map (snd \<circ> snd) best) \<and>
    (\<forall>(k, u, a) \<in> set best. a = gave u \<and> u \<in> set (contributors b (contributions s))) \<and>
    (\<forall>v \<in> set (contributors b (contributions s)) - set (map (fst \<circ> snd) best).
       length best = n \<and> (\<forall>(k, u, a) \<in> set best. gave v \<le> a))"
proof -
  let ?cs = "contributors b (contributions s)" and ?f = "\<lambda>u. - gave_to b u (contributions s)"
  define gave where "gave = (\<lambda>u. gave_to b u (contributions s))"
  define best where "best = topContributors b n s"
  define all where "all = sort_key ?f ?cs"
  define us where "us = take n all"
  have best: "best = zip [1..<Suc (length us)] (map (\<lambda>u. (u, gave u)) us)"
    by (simp add: best_def topContributors_def us_def all_def gave_def Let_def)
  have len: "length best = length us" and ranks: "map fst best = [1..<Suc (length us)]"
    by (simp_all add: best del: upt_Suc)
  have names: "map (fst \<circ> snd) best = us"
    unfolding best by (rule nth_equalityI) (simp_all del: upt_Suc)
  have amounts: "map (snd \<circ> snd) best = map gave us"
    unfolding best by (rule nth_equalityI) (simp_all del: upt_Suc)
  have set_all: "set all = set ?cs" "distinct all" by (simp_all add: all_def contributors_distinct)
  have ordered: "sorted_wrt (\<lambda>x y. gave y \<le> gave x) all"
    using sort_key_sorted [of ?f ?cs] by (simp add: all_def gave_def)
  have "sorted_wrt (\<ge>) (map gave us)"
    using sorted_wrt_take [OF ordered, of n] by (simp add: us_def sorted_wrt_map)
  moreover have "\<forall>(k, u, a) \<in> set best. a = gave u \<and> u \<in> set ?cs \<and> u \<in> set us"
  proof safe
    fix k u a assume "(k, u, a) \<in> set best"
    then have "(u, a) \<in> set (map (\<lambda>u. (u, gave u)) us)" unfolding best by (rule set_zip_rightD)
    then show "a = gave u" "u \<in> set us" by auto
    then show "u \<in> set ?cs" using set_all set_take_subset [of n all] by (auto simp: us_def)
  qed
  moreover have "length us = n \<and> (\<forall>u \<in> set us. gave v \<le> gave u)" if "v \<in> set ?cs - set us" for v
  proof -
    have v: "v \<in> set (drop n all)"
      using that set_all by (metis Diff_iff Un_iff append_take_drop_id set_append us_def)
    then have "n < length all" by (metis drop_eq_Nil leI length_pos_if_in_set list.size(3) less_numeral_extra(3))
    then show ?thesis using sorted_take_rest [OF ordered _ v] by (simp add: us_def)
  qed
  ultimately show ?thesis
    using set_all(2) unfolding Let_def best_def [symmetric] len ranks names amounts
    by (fastforce simp: gave_def us_def)
qed

section \<open>A new session\<close>

definition fresh_ids :: "('z treasure_db_scheme) \<Rightarrow> bool" where
  "fresh_ids s \<longleftrightarrow> (\<forall>t\<in>set (tsessions s). ts_id t < next_id s) \<and> (\<forall>b\<in>set (tboxes s). tb_sessionId b < next_id s)"

definition thresholds :: "box_config list \<Rightarrow> nat \<Rightarrow> int" where
  "thresholds cs l = (case config_at cs l of None \<Rightarrow> 1 | Some c \<Rightarrow> bc_threshold c)"

definition empty_box :: "box_config list \<Rightarrow> nat \<Rightarrow> tbox \<Rightarrow> bool" where
  "empty_box cs l b \<longleftrightarrow> tb_threshold b = thresholds cs l \<and> tb_progress b = 0 \<and>
     tb_status b = (if l = 1 then TB_ACTIVE else TB_PENDING)"

lemma create_level_effect:
  assumes "create_level room i cs l s = (Inr (), s')"
  shows "tsessions s' = tsessions s" "\<exists>b. box_by_level i l s' = Some b \<and> empty_box cs l b"
    "\<And>k b. box_by_level i k s = Some b \<Longrightarrow> box_by_level i k s' = Some b"
proof -
  obtain c where c: "config_at cs l = Some c" "box_by_level i l s = None"
    using assms by (auto simp: create_level_def create_box_def bindA_def throwA_def split: option.splits if_splits)
  with assms show "tsessions s' = tsessions s" "\<exists>b. box_by_level i l s' = Some b \<and> empty_box cs l b"
    "\<And>k b. box_by_level i k s = Some b \<Longrightarrow> box_by_level i k s' = Some b"
    by (auto simp: create_level_def create_box_def bindA_def returnA_def Let_def box_by_level_def find_app empty_box_def
        thresholds_def)
qed

lemma create_levels_effect:
  "forA (create_level room i cs) ls s = (Inr (), s') \<Longrightarrow>
     tsessions s' = tsessions s \<and> (\<forall>l\<in>set ls. \<exists>b. box_by_level i l s' = Some b \<and> empty_box cs l b) \<and>
     (\<forall>k b. box_by_level i k s = Some b \<longrightarrow> box_by_level i k s' = Some b)"
proof (induction ls arbitrary: s)
  case (Cons l ls)
  then obtain s1 where s1: "create_level room i cs l s = (Inr (), s1)" "forA (create_level room i cs) ls s1 = (Inr (), s')"
    by (auto simp: bindA_Inr)
  note e = create_level_effect [OF s1(1)] and r = Cons.IH [OF s1(2)]
  obtain b where b: "box_by_level i l s1 = Some b" "empty_box cs l b" using e(2) by blast
  then show ?case using e(1,3) r by auto
qed (simp add: returnA_def)

text \<open>
  A session that starts with positive thresholds stands open in its room as the empty container of its
  configuration's five thresholds: the first box active, the others pending, nothing in any of them.
\<close>

theorem new_session_is_empty:
  assumes "start_today env room owner now s = (Inr (Some t), s')" "fresh_ids s" "active_session room s = None"
    "good_thresholds (thresholds (enabled_configs s))"
  shows "open_today room (ts_id t) (thresholds (enabled_configs s)) 0 now s'"
proof -
  let ?cs = "enabled_configs s" and ?th = "thresholds (enabled_configs s)"
  obtain u s1 where over: "completed_since room (today_start now) s = None"
    and lad: "create_ladder room u ?cs now s = (Inr t, s1)" and same: "tsessions s' = tsessions s1" "tboxes s' = tboxes s1"
    using assms(1)
    by (auto simp: start_today_def bindA_Inr publish_room_def modifyA_def split: if_splits option.splits)
  define s0 where "s0 = s\<lparr>tsessions := tsessions s @ [t], next_id := Suc (next_id s)\<rparr>"
  have t: "t = \<lparr>ts_id = next_id s, ts_roomId = room, ts_contextType = ''AUDIO_ROOM'', ts_startedBy = u, ts_status = TS_ACTIVE,
      ts_currentLevel = 1, ts_createdAt = now, ts_completedAt = None\<rparr>"
    and lev: "forA (create_level room (next_id s) ?cs) [1..<Suc TREASURE_BOX_COUNT] s0 = (Inr (), s1)"
    using lad by (auto simp: create_ladder_def create_session_def bindA_Inr Let_def s0_def)
  note e = create_levels_effect [OF lev]
  have ss: "tsessions s' = tsessions s @ [t]" using e same by (simp add: s0_def)
  have "session_by (next_id s) s = None"
    using assms(2) by (auto simp: session_by_def find_None_iff fresh_ids_def)
  then have by_id: "session_by (ts_id t) s' = Some t" using t by (simp add: session_by_def ss find_app)
  have act: "active_session room s' = Some t"
    using assms(3) t by (simp add: active_session_def ss find_app)
  have comp: "completed_since room (today_start now) s' = None"
    using over t by (simp add: completed_since_def ss find_app)
  have start: "today_start now \<le> ts_createdAt t"
    using minus_mod_eq_div_mult [of now DAY] by (simp add: t today_start_def DAY_def)
  have cap: "0 < below ?th l" if "2 \<le> l" for l using below_strict [OF assms(4), of 1 l] that by simp
  have "\<exists>b. box_by_level (ts_id t) l s' = Some b \<and> tb_threshold b = ?th l \<and> tb_progress b = held ?th 0 l \<and>
      tb_status b = box_state ?th 0 l" if l: "1 \<le> l" "l \<le> 5" for l
  proof -
    obtain b where b: "box_by_level (next_id s) l s1 = Some b" "empty_box ?cs l b"
      using e l by (fastforce simp: TREASURE_BOX_COUNT_def)
    then have "box_by_level (ts_id t) l s' = Some b" using t same by (simp add: box_by_level_def)
    moreover have "held ?th 0 l = 0 \<and> box_state ?th 0 l = (if l = 1 then TB_ACTIVE else TB_PENDING)"
      using held_current [of 1 ?th 0] held_higher [OF assms(4) l(1), of 0] cap [of l] cap [of 2] l
      by (cases "l = 1") (auto simp: numeral_2_eq_2)
    ultimately show ?thesis using b by (simp add: empty_box_def)
  qed
  moreover have "at_level ?th 0 1" using cap [of 2] cap [of 6] by (simp add: at_level_def capacity_def numeral_2_eq_2)
  ultimately have "stands (ts_id t) ?th 0 s'"
    using by_id t cap [of 6] by (simp add: stands_def capacity_def)
  then show ?thesis using assms(4) act comp start by_id cap [of 6] by (simp add: open_today_def capacity_def)
qed

section \<open>A day of a room\<close>

definition sample_config :: "nat \<Rightarrow> box_config" where
  "sample_config l = \<lparr>bc_level = l, bc_threshold = 10, bc_rewards =
     [\<lparr>rw_rank = 1, rw_kind = RK_COINS, rw_coins = Some 3, rw_itemType = None, rw_itemName = None, rw_itemRefId = None,
       rw_transferable = None\<rparr>], bc_enabled = True\<rparr>"

definition quiet_room :: treasure_db where
  "quiet_room = item_db.extend
     (wdb.extend init_db \<lparr>items = [], item_logs = [], cosmetics = [], user_cosmetics = [], item_bus = []\<rparr>)
     \<lparr>box_configs = map sample_config [1, 2, 3, 4, 5], tsessions = [], tboxes = [], contributions = [], trewards = [],
      room_counter = (\<lambda>_. 0), user_counter = (\<lambda>_. 0), room_counter_cache = Map.empty, user_counter_cache = Map.empty,
      treasure_audits = [], room_bus = []\<rparr>"

definition sample_room :: troom_env where
  "sample_room = \<lparr>tr_ownerId = (\<lambda>_. Some 7), tr_isRoomLive = (\<lambda>_. True), tr_isManager = (\<lambda>_ _. True)\<rparr>"

definition open_room :: treasure_db where
  "open_room = snd (start_today sample_room 4 None 86400500 quiet_room)"

lemma quiet_room_thresholds: "thresholds (enabled_configs quiet_room) l = (if 1 \<le> l \<and> l \<le> 5 then 10 else 1)"
proof -
  have "enabled_configs quiet_room = map sample_config [1, 2, 3, 4, 5]" by code_simp
  moreover have "l = 1 \<or> l = 2 \<or> l = 3 \<or> l = 4 \<or> l = 5" if "1 \<le> l" "l \<le> 5" using that by linarith
  ultimately show ?thesis by (auto simp: thresholds_def config_at_def sample_config_def)
qed

lemma quiet_room_ok:
  "good_thresholds (thresholds (enabled_configs quiet_room))" "fresh_ids quiet_room"
  "active_session 4 quiet_room = None" "capacity (thresholds (enabled_configs quiet_room)) = 50"
proof -
  show "good_thresholds (thresholds (enabled_configs quiet_room))"
    by (simp add: good_thresholds_def quiet_room_thresholds)
  show "fresh_ids quiet_room" "active_session 4 quiet_room = None"
    by (simp_all add: fresh_ids_def active_session_def quiet_room_def treasure_db.defs item_db.defs wdb.defs)
  show "capacity (thresholds (enabled_configs quiet_room)) = 50"
    by (simp add: capacity_def below_def quiet_room_thresholds upt_rec)
qed

lemma open_room_run:
  obtains t where "start_today sample_room 4 None 86400500 quiet_room = (Inr (Some t), open_room)" "ts_id t = 1"
proof -
  have "case fst (start_today sample_room 4 None 86400500 quiet_room) of Inl _ \<Rightarrow> False
      | Inr x \<Rightarrow> map_option ts_id x = Some 1" by code_simp
  then show thesis using that
    by (cases "start_today sample_room 4 None 86400500 quiet_room") (auto simp: open_room_def split: sum.splits)
qed

theorem new_session_is_empty_witness:
  "open_today 4 1 (thresholds (enabled_configs quiet_room)) 0 86400500 open_room"
proof -
  obtain t where t: "start_today sample_room 4 None 86400500 quiet_room = (Inr (Some t), open_room)" "ts_id t = 1"
    using open_room_run .
  show ?thesis using new_session_is_empty [OF t(1) quiet_room_ok(2,3,1)] t(2) by simp
qed

definition sample_th :: "nat \<Rightarrow> int" where
  "sample_th l = (if 1 \<le> l \<and> l \<le> 5 then 10 else 1)"

lemma sample_th_capacity: "capacity sample_th = 50"
  by (simp add: capacity_def below_def sample_th_def upt_rec)

text \<open>The same room, read off its tables.\<close>

lemma open_room_open: "open_today 4 1 sample_th 0 86400900 open_room"
proof -
  have c: "case active_session 4 open_room of None \<Rightarrow> False
      | Some t \<Rightarrow> ts_id t = 1 \<and> today_start 86400900 \<le> ts_createdAt t \<and> ts_currentLevel t = 1 \<and> ts_status t = TS_ACTIVE"
    "session_by 1 open_room = active_session 4 open_room"
    "completed_since 4 (today_start 86400900) open_room = None"
    "list_all (\<lambda>l. case box_by_level 1 l open_room of None \<Rightarrow> False
      | Some b \<Rightarrow> tb_threshold b = sample_th l \<and> tb_progress b = held sample_th 0 l \<and> tb_status b = box_state sample_th 0 l)
      [1, 2, 3, 4, 5]"
    by code_simp+
  then obtain t where t: "active_session 4 open_room = Some t" "ts_id t = 1" "today_start 86400900 \<le> ts_createdAt t"
    "ts_currentLevel t = 1" "ts_status t = TS_ACTIVE" by (auto split: option.splits)
  have th: "good_thresholds sample_th" by (simp add: good_thresholds_def sample_th_def)
  have "\<exists>b. box_by_level 1 l open_room = Some b \<and> tb_threshold b = sample_th l \<and> tb_progress b = held sample_th 0 l \<and>
      tb_status b = box_state sample_th 0 l" if "1 \<le> l" "l \<le> 5" for l
  proof -
    have "l = 1 \<or> l = 2 \<or> l = 3 \<or> l = 4 \<or> l = 5" using that by linarith
    then show ?thesis using c(4) by (auto split: option.splits)
  qed
  then have "stands 1 sample_th 0 open_room"
    using t c(2) below_strict [OF th, of 1 2] by (simp add: stands_def sample_th_capacity at_level_def numeral_2_eq_2)
  then show ?thesis using th t c by (auto simp: open_today_def sample_th_capacity)
qed

lemma contributed_run:
  obtains res where "processTreasureContribution 4 2 3 12 77 86400900 open_room =
    (Inr res, snd (processTreasureContribution 4 2 3 12 77 86400900 open_room))" "co_accepted res = 12"
proof -
  have "case fst (processTreasureContribution 4 2 3 12 77 86400900 open_room) of Inl _ \<Rightarrow> False
      | Inr r \<Rightarrow> co_accepted r = 12" by code_simp
  then show thesis using that
    by (cases "processTreasureContribution 4 2 3 12 77 86400900 open_room") (auto split: sum.splits)
qed

lemma open_room_uncounted: "already_contributed 77 open_room = None"
  by code_simp

theorem contribution_fills_container_witness:
  "stands 1 sample_th 12 (snd (processTreasureContribution 4 2 3 12 77 86400900 open_room))"
proof -
  obtain res where r: "processTreasureContribution 4 2 3 12 77 86400900 open_room =
    (Inr res, snd (processTreasureContribution 4 2 3 12 77 86400900 open_room))" using contributed_run .
  show ?thesis
    using contribution_fills_container [OF open_room_open open_room_uncounted _ _ r] by (simp add: sample_th_capacity)
qed

theorem engines_agree_witness:
  "stands 1 sample_th 12 (snd (applyGiftProgress 4 2 12 (Some 77) ''AUDIO_ROOM'' True 86400900 open_room))"
proof -
  obtain res where r: "processTreasureContribution 4 2 3 12 77 86400900 open_room =
    (Inr res, snd (processTreasureContribution 4 2 3 12 77 86400900 open_room))" using contributed_run .
  show ?thesis
    using engines_agree [OF open_room_open open_room_uncounted _ _ r, of "''AUDIO_ROOM''" True]
    by (auto simp: sample_th_capacity)
qed

definition sample_gift :: gift_sent where
  "sample_gift = \<lparr>gs_transactionId = 77, gs_senderId = 2, gs_receiverId = 3, gs_contextType = ''AUDIO_ROOM'',
     gs_contextId = 4, gs_totalCoinValue = 12\<rparr>"

theorem gift_counts_once_witness:
  "tboxes (snd (handleGiftSent sample_gift 86401000 (snd (processTreasureContribution 4 2 3 12 77 86400900 open_room)))) =
   tboxes (snd (processTreasureContribution 4 2 3 12 77 86400900 open_room))"
proof -
  obtain res where r: "processTreasureContribution 4 2 3 12 77 86400900 open_room =
    (Inr res, snd (processTreasureContribution 4 2 3 12 77 86400900 open_room))" using contributed_run .
  have g: "gs_senderId sample_gift = 2" "gs_totalCoinValue sample_gift = 12" "gs_transactionId sample_gift = 77"
    by (simp_all add: sample_gift_def)
  show ?thesis
    using gift_counts_once [OF open_room_open, of sample_gift 3 _ _ 86401000, unfolded g, OF open_room_uncounted _ r] by simp
qed

theorem champions_are_the_best_witness:
  "topContributors 2 3 (snd (processTreasureContribution 4 2 3 12 77 86400900 open_room)) = [(1, 2, 10)] \<and>
   gave_to 2 2 (contributions (snd (processTreasureContribution 4 2 3 12 77 86400900 open_room))) = 10 \<and>
   2 \<in> set (contributors 2 (contributions (snd (processTreasureContribution 4 2 3 12 77 86400900 open_room))))"
proof -
  have "topContributors 2 3 (snd (processTreasureContribution 4 2 3 12 77 86400900 open_room)) = [(1, 2, 10)]"
    by code_simp
  then show ?thesis
    using champions_are_the_best [of 2 3 "snd (processTreasureContribution 4 2 3 12 77 86400900 open_room)"]
    by (simp add: Let_def)
qed

end
