(* ===== verification/Gifts.thy ===== *)
theory Gifts
  imports TreasureEvents
begin

text \<open>
  Gifts (src/modules/gifts): one debit of the sender, one credit of diamonds and perhaps of cashback per
  receiver, one immutable row per receiver, in one transaction under the wallets' locks; what a gift does to
  the place it is sent in is the handler of its context (audio-rooms, chat). The tables extend the treasure
  boxes'. What other modules answer is \<open>gift_env\<close>; \<open>rolls\<close> are the two draws of a lucky gift; times are milliseconds.
  Percentages are whole numbers, as the columns that record them are, and amounts are small enough for the
  quotients by one hundred to be exact (below \<open>2 ^ 50\<close> before the division). A gift is asked for by its identifier,
  which the DTO demands. The retention of the leaderboards, metadata and batch identifiers are not modelled.
\<close>

section \<open>Tables\<close>

datatype gift_type =
  G_STATIC | G_ANIMATED | G_COMBO | G_LUCKY | G_FESTIVAL | G_PREMIUM | G_LIMITED_EDITION | G_PROFILE_FRAME

datatype gift_context =
  IN_AUDIO_ROOM | IN_VIDEO_ROOM | IN_LIVE_STREAM | IN_PRIVATE_CHAT | IN_PK_BATTLE | IN_MULTI_HOST_BATTLE | IN_EVENT | IN_GAME

record gift =
  gf_id :: nat
  gf_name :: string
  gf_type :: gift_type
  gf_coinValue :: int
  gf_thumbnailUrl :: "string option"
  gf_animationUrl :: "string option"
  gf_minVipLevel :: int
  gf_comboEnabled :: bool
  gf_comboWindowSeconds :: int
  gf_luckyMultipliers :: "int list"
  gf_luckyWinChanceBp :: int
  gf_enabled :: bool
  gf_ttlValue :: "int option"
  gf_ttlUnit :: "string option"

record gift_txn =
  gt_id :: nat
  gt_senderId :: uid
  gt_receiverId :: uid
  gt_giftId :: nat
  gt_giftType :: gift_type
  gt_contextType :: gift_context
  gt_contextId :: nat
  gt_quantity :: int
  gt_comboTier :: int
  gt_unitCoinValue :: int
  gt_totalCoinValue :: int
  gt_creatorEarnings :: int
  gt_cashbackAmount :: int
  gt_appliedEarningsPct :: int
  gt_appliedCashbackPct :: int
  gt_luckyMultiplier :: int
  gt_isLuckyWin :: bool
  gt_senderExp :: int
  gt_receiverExp :: int
  gt_idempotencyKey :: string
  gt_senderWalletTxnId :: nat
  gt_receiverWalletTxnId :: "nat option"
  gt_createdAt :: int

datatype gift_event =
    GiftSent gift_txn string
  | GiftReceived gift_txn string
  | GiftCombo gift_context nat uid nat int
  | GiftLuckyWin gift_context nat uid nat int int

datatype gift_job =
    Job_gift_sent nat
  | Job_gift_received uid uid nat nat
  | Job_gift_ranking nat nat
  | Job_gift_analytics nat uid uid int

text \<open>A Redis counter: its value and the time it expires.\<close>

type_synonym counter = "int \<times> int option"

datatype board = GIFTER | RECEIVER | FANS

datatype board_scope = GLOBAL | ROOM nat | CREATOR uid

datatype board_period = DAILY | WEEKLY | MONTHLY | ALL_TIME

record gift_db = treasure_db +
  gifts :: "gift list"
  gift_txns :: "gift_txn list"
  combos :: "nat \<times> uid \<times> nat \<Rightarrow> counter option"
  rates :: "uid \<Rightarrow> counter option"
  boards :: "board \<times> board_scope \<times> string \<times> uid \<Rightarrow> int"
  gift_bus :: "gift_event list"
  gift_jobs :: "gift_job list"

text \<open>
  What the module reads elsewhere: the configuration (\<open>None\<close> where a setting is absent, no number, or its read
  fails), the wealth level, the resolver of media keys, and the rooms, users, conversations and blocks.
\<close>

record gift_env =
  ge_earningsPercent :: "int option"
  ge_cashbackPercent :: "int option"
  ge_cashbackThreshold :: "int option"
  ge_senderExpPerCoin :: rat
  ge_receiverExpPerCoin :: rat
  ge_rateMax :: int
  ge_rateWindowSeconds :: int
  ge_level :: "uid \<Rightarrow> int"
  ge_resolve :: "string \<Rightarrow> string"
  ge_isRoomLive :: "nat \<Rightarrow> bool"
  ge_isMember :: "nat \<Rightarrow> uid \<Rightarrow> bool"
  ge_everMember :: "nat \<Rightarrow> uid \<Rightarrow> bool"
  ge_userExists :: "uid \<Rightarrow> bool"
  ge_conversation :: "uid \<Rightarrow> nat \<Rightarrow> err + (bool \<times> bool \<times> uid)"
  ge_blockedEitherWay :: "uid \<Rightarrow> uid \<Rightarrow> bool"

section \<open>Repository\<close>

definition gift_by :: "nat \<Rightarrow> ('z gift_db_scheme) \<Rightarrow> gift option" where
  "gift_by i s = List.find (\<lambda>g. gf_id g = i) (gifts s)"

definition findTxnByIdempotencyKey :: "string \<Rightarrow> ('z gift_db_scheme) \<Rightarrow> gift_txn option" where
  "findTxnByIdempotencyKey k s = List.find (\<lambda>t. gt_idempotencyKey t = k) (gift_txns s)"

definition drawId :: "('z wdb_scheme, nat) act" where
  "drawId s = (Inr (next_id s), s\<lparr>next_id := Suc (next_id s)\<rparr>)"

text \<open>The unique \<open>idempotencyKey\<close> makes a second insert throw.\<close>

definition createTransaction :: "gift_txn \<Rightarrow> ('z gift_db_scheme, gift_txn) act" where
  "createTransaction t s =
     (if findTxnByIdempotencyKey (gt_idempotencyKey t) s \<noteq> None then (Inl P2002, s)
      else (Inr t, s\<lparr>gift_txns := gift_txns s @ [t]\<rparr>))"

text \<open>\<open>cache.increment\<close>: the first write of a counter sets its expiry.\<close>

definition counter_ticked :: "counter option \<Rightarrow> int \<Rightarrow> int \<Rightarrow> counter" where
  "counter_ticked c ttlSeconds now =
     (case c of
        Some (n, e) \<Rightarrow>
          if unexpired now e then (n + 1, e) else (1, if 0 < ttlSeconds then Some (now + ttlSeconds * 1000) else None)
      | None \<Rightarrow> (1, if 0 < ttlSeconds then Some (now + ttlSeconds * 1000) else None))"

definition comboTick :: "nat \<Rightarrow> uid \<Rightarrow> nat \<Rightarrow> int \<Rightarrow> int \<Rightarrow> ('z gift_db_scheme, int) act" where
  "comboTick ctx u g window now s =
     (let c = counter_ticked (combos s (ctx, u, g)) window now in (Inr (fst c), s\<lparr>combos := (combos s)((ctx, u, g) \<mapsto> c)\<rparr>))"

definition hitRateLimit :: "uid \<Rightarrow> int \<Rightarrow> int \<Rightarrow> int \<Rightarrow> ('z gift_db_scheme, bool) act" where
  "hitRateLimit u most window now s =
     (let c = counter_ticked (rates s u) window now in (Inr (most < fst c), s\<lparr>rates := (rates s)(u \<mapsto> c)\<rparr>))"

definition addLeaderboardScore ::
  "board \<Rightarrow> board_scope \<Rightarrow> string \<Rightarrow> uid \<Rightarrow> int \<Rightarrow> ('z gift_db_scheme, unit) act" where
  "addLeaderboardScore b sc bucket u amt = modifyA (\<lambda>s. s\<lparr>boards := (boards s)((b, sc, bucket, u) :=
     boards s (b, sc, bucket, u) + amt)\<rparr>)"

definition sumContextCoinsInRange :: "gift_context \<Rightarrow> nat \<Rightarrow> int \<Rightarrow> int \<Rightarrow> ('z gift_db_scheme) \<Rightarrow> int" where
  "sumContextCoinsInRange ty ctx from until s =
     sum_list (map gt_totalCoinValue (filter (\<lambda>t. gt_contextType t = ty \<and> gt_contextId t = ctx \<and>
       from \<le> gt_createdAt t \<and> gt_createdAt t \<le> until) (gift_txns s)))"

section \<open>Leaderboards\<close>

text \<open>The civil date (year, month, day) of a day number, day 0 being 1970-01-01, and back.\<close>

definition civil :: "int \<Rightarrow> int \<times> int \<times> int" where
  "civil d =
     (let z = d + 719468;
          era = z div 146097;
          doe = z mod 146097;
          yoe = (doe - doe div 1460 + doe div 36524 - doe div 146096) div 365;
          doy = doe - (365 * yoe + yoe div 4 - yoe div 100);
          mp = (5 * doy + 2) div 153;
          m = (if mp < 10 then mp + 3 else mp - 9)
      in (yoe + era * 400 + (if m \<le> 2 then 1 else 0), m, doy - (153 * mp + 2) div 5 + 1))"

definition day_of :: "int \<Rightarrow> int \<Rightarrow> int \<Rightarrow> int" where
  "day_of y m d =
     (let y' = (if m \<le> 2 then y - 1 else y);
          yoe = y' mod 400;
          doy = (153 * (if 2 < m then m - 3 else m + 9) + 2) div 5 + d - 1
      in y' div 400 * 146097 + (yoe * 365 + yoe div 4 - yoe div 100 + doy) - 719468)"

text \<open>The ISO number of the weekday: Monday is 1.\<close>

definition dayNum :: "int \<Rightarrow> int" where
  "dayNum d = (d + 3) mod 7 + 1"

definition pad :: "int \<Rightarrow> string" where
  "pad n = (if length (show_int n) < 2 then CHR ''0'' # show_int n else show_int n)"

definition isoDate :: "int \<Rightarrow> string" where
  "isoDate d = (case civil d of (y, m, dd) \<Rightarrow> show_int y @ ''-'' @ pad m @ ''-'' @ pad dd)"

definition isoWeek :: "int \<Rightarrow> string" where
  "isoWeek d =
     (let thursday = d + 4 - dayNum d;
          y = fst (civil thursday);
          week = (thursday - day_of y 1 1 + 1 + 6) div 7
      in show_int y @ ''-W'' @ pad week)"

definition bucket :: "board_period \<Rightarrow> int \<Rightarrow> string" where
  "bucket p now =
     (let d = now div DAY
      in case p of
           DAILY \<Rightarrow> isoDate d
         | WEEKLY \<Rightarrow> isoWeek d
         | MONTHLY \<Rightarrow> (case civil d of (y, m, _) \<Rightarrow> show_int y @ ''-'' @ pad m)
         | ALL_TIME \<Rightarrow> ''all'')"

definition periodStart :: "board_period \<Rightarrow> int \<Rightarrow> int option" where
  "periodStart p now =
     (let d = now div DAY
      in case p of
           DAILY \<Rightarrow> Some (d * DAY)
         | WEEKLY \<Rightarrow> Some ((d - dayNum d + 1) * DAY)
         | MONTHLY \<Rightarrow> (case civil d of (y, m, _) \<Rightarrow> Some (day_of y m 1 * DAY))
         | ALL_TIME \<Rightarrow> None)"

definition record_period ::
  "nat \<Rightarrow> uid \<Rightarrow> uid \<Rightarrow> int \<Rightarrow> int \<Rightarrow> int \<Rightarrow> board_period \<Rightarrow> ('z gift_db_scheme, unit) act" where
  "record_period ctx sender receiver giftValue earned now p =
     bindA (forA (\<lambda>sc.
         bindA (addLeaderboardScore GIFTER sc (bucket p now) sender giftValue) (\<lambda>_.
         addLeaderboardScore RECEIVER sc (bucket p now) receiver earned)) [GLOBAL, ROOM ctx]) (\<lambda>_.
     addLeaderboardScore FANS (CREATOR receiver) (bucket p now) sender giftValue)"

definition record_boards :: "nat \<Rightarrow> uid \<Rightarrow> uid \<Rightarrow> int \<Rightarrow> int \<Rightarrow> int \<Rightarrow> ('z gift_db_scheme, unit) act" where
  "record_boards ctx sender receiver giftValue earned now =
     forA (record_period ctx sender receiver giftValue earned now) [DAILY, WEEKLY, MONTHLY, ALL_TIME]"

section \<open>Contexts\<close>

record gift_request =
  rq_contextType :: gift_context
  rq_contextId :: nat
  rq_senderId :: uid
  rq_receiverIds :: "uid list"
  rq_gift :: gift
  rq_quantity :: int

record gift_send = gift_request +
  rq_transactionId :: nat
  rq_idempotencyKey :: string
  rq_totalCoinValue :: int

record send_effects =
  se_acceptedAmount :: int
  se_refundAmount :: int
  se_events :: "room_event list"
  se_postCommit :: "(nat \<times> uid \<times> (int \<times> int)) option"

record 'z gift_handler =
  gh_maxReceivers :: nat
  gh_validate :: "gift_request \<Rightarrow> ('z gift_db_scheme, unit) act"
  gh_onSend :: "(gift_send \<Rightarrow> ('z gift_db_scheme, send_effects) act) option"

definition defaultHandler :: "'z gift_handler" where
  "defaultHandler = \<lparr>gh_maxReceivers = 100, gh_validate = (\<lambda>_. returnA ()), gh_onSend = None\<rparr>"

definition chat_validate :: "gift_env \<Rightarrow> gift_request \<Rightarrow> ('z gift_db_scheme, unit) act" where
  "chat_validate env rq =
     bindA (guardA (length (rq_receiverIds rq) \<le> 1) (Business ''GIFT_TOO_MANY_RECEIVERS'')) (\<lambda>_.
     let u = rq_senderId rq;
         v = hd (rq_receiverIds rq);
         blocked = v \<noteq> u \<and> ge_blockedEitherWay env u v
     in if rq_contextId rq = v then guardA (\<not> blocked) (Business ''GIFT_RECEIVER_INVALID'')
        else case ge_conversation env u (rq_contextId rq) of
               Inl e \<Rightarrow> throwA e
             | Inr (isRequest, isPendingOutbound, peer) \<Rightarrow>
                 bindA (guardA (\<not> (isRequest \<or> isPendingOutbound)) (Business ''GIFT_CONTEXT_INVALID'')) (\<lambda>_.
                 bindA (guardA (v = u \<or> v = peer) (Business ''GIFT_RECEIVER_INVALID'')) (\<lambda>_.
                 guardA (\<not> blocked) (Business ''GIFT_RECEIVER_INVALID''))))"

definition chatHandler :: "gift_env \<Rightarrow> 'z gift_handler" where
  "chatHandler env = \<lparr>gh_maxReceivers = 1, gh_validate = chat_validate env, gh_onSend = None\<rparr>"

definition room_validate :: "gift_env \<Rightarrow> gift_request \<Rightarrow> ('z gift_db_scheme, unit) act" where
  "room_validate env rq =
     bindA (guardA (length (rq_receiverIds rq) \<le> 1) (Business ''GIFT_TOO_MANY_RECEIVERS'')) (\<lambda>_.
     bindA (guardA (ge_isRoomLive env (rq_contextId rq)) (Business ''GIFT_CONTEXT_INVALID'')) (\<lambda>_.
     bindA (guardA (ge_isMember env (rq_contextId rq) (rq_senderId rq)) (Business ''NOT_ROOM_MEMBER'')) (\<lambda>_.
     let v = hd (rq_receiverIds rq)
     in guardA (ge_everMember env (rq_contextId rq) v \<and> ge_userExists env v) (Business ''GIFT_RECEIVER_INVALID''))))"

text \<open>\<open>HOST_REWARD_RATE\<close> is zero, so that the credit of the host is never reached.\<close>

definition overflow_refund :: "gift_send \<Rightarrow> int \<Rightarrow> movement" where
  "overflow_refund rq r =
     \<lparr>m_userId = rq_senderId rq, m_currency = GOLD, m_amount = of_int r, m_reason = GIFT_REFUND,
      m_key = ''gift-refund:'' @ rq_idempotencyKey rq, m_referenceType = Some ''gift'',
      m_referenceId = Some (show_nat (rq_transactionId rq)), m_actorId = Some (rq_senderId rq)\<rparr>"

definition room_onSend :: "int \<Rightarrow> gift_send \<Rightarrow> ('z gift_db_scheme, send_effects) act" where
  "room_onSend now rq =
     (let v = hd (rq_receiverIds rq);
          room = rq_contextId rq
      in bindA (processTreasureContribution room (rq_senderId rq) v (rq_totalCoinValue rq) (rq_transactionId rq) now) (\<lambda>co.
         let eff = \<lparr>se_acceptedAmount = co_accepted co, se_refundAmount = co_refund co, se_events = co_events co,
                    se_postCommit = map_option (\<lambda>t. (room, v, t)) (co_totals co)\<rparr>
         in if 0 < co_refund co
            then bindA (credit (overflow_refund rq (co_refund co)) True) (\<lambda>_.
                 returnA (eff\<lparr>se_events := co_events co @ [GiftRefunded (rq_transactionId rq) (rq_senderId rq) v room
                   (gf_id (rq_gift rq)) (gf_name (rq_gift rq)) (co_refund co) now]\<rparr>))
            else returnA eff))"

definition roomHandler :: "gift_env \<Rightarrow> int \<Rightarrow> 'z gift_handler" where
  "roomHandler env now = \<lparr>gh_maxReceivers = 1, gh_validate = room_validate env, gh_onSend = Some (room_onSend now)\<rparr>"

text \<open>The registry; the handler of video rooms is an argument.\<close>

definition handlerFor :: "gift_env \<Rightarrow> 'z gift_handler \<Rightarrow> int \<Rightarrow> gift_context \<Rightarrow> 'z gift_handler" where
  "handlerFor env video now c =
     (case c of
        IN_AUDIO_ROOM \<Rightarrow> roomHandler env now
      | IN_VIDEO_ROOM \<Rightarrow> video
      | IN_PRIVATE_CHAT \<Rightarrow> chatHandler env
      | _ \<Rightarrow> defaultHandler)"

end
