(* ===== verification/GiftSend.thy ===== *)
theory GiftSend
  imports Gifts
begin

text \<open>
  \<open>GiftService.sendGiftBatch\<close> (src/modules/gifts/services/gift.service.ts), in the three parts the code runs
  apart: the checks and the quote before the locks (\<open>send_check\<close>), the transaction under the locks of the
  wallets and of the context (\<open>send_commit\<close>), and the leaderboards, events and jobs after it (\<open>afterSend\<close>). Another
  request may run between them.
\<close>

section \<open>The quote\<close>

record gift_dto =
  gd_giftId :: nat
  gd_receiverIds :: "uid list"
  gd_contextType :: gift_context
  gd_contextId :: nat
  gd_quantity :: int
  gd_idempotencyKey :: "string option"

record gift_rules =
  gr_earningsPercent :: int
  gr_cashbackPercent :: int
  gr_cashbackThreshold :: int

record gift_quote =
  gq_key :: string
  gq_gift :: gift
  gq_receivers :: "uid list"
  gq_comboTier :: int
  gq_multiplier :: int
  gq_win :: bool
  gq_rules :: gift_rules
  gq_perReceiver :: int
  gq_senderExp :: int
  gq_receiverExp :: int
  gq_txnId :: nat

text \<open>\<open>[...new Set(xs)]\<close> keeps the first of equal elements.\<close>

definition unique :: "'a list \<Rightarrow> 'a list" where
  "unique xs = rev (remdups (rev xs))"

definition or_int :: "int \<Rightarrow> int option \<Rightarrow> int" where
  "or_int d x = (case x of None \<Rightarrow> d | Some n \<Rightarrow> n)"

definition settlementRules :: "gift_env \<Rightarrow> gift_rules" where
  "settlementRules env =
     (let earn = or_int 50 (ge_earningsPercent env)
      in \<lparr>gr_earningsPercent = (if 0 < earn then earn else 50), gr_cashbackPercent = or_int 10 (ge_cashbackPercent env),
          gr_cashbackThreshold = or_int 1000 (ge_cashbackThreshold env)\<rparr>)"

text \<open>\<open>roll\<close> is \<open>randomInt(0, 10000)\<close>, \<open>pick n\<close> is \<open>randomInt(0, n)\<close>.\<close>

definition rollLucky :: "gift \<Rightarrow> int \<Rightarrow> (nat \<Rightarrow> nat) \<Rightarrow> int \<times> bool" where
  "rollLucky g roll pick =
     (if gf_type g \<noteq> G_LUCKY \<or> gf_luckyMultipliers g = [] \<or> gf_luckyWinChanceBp g \<le> 0 then (1, False)
      else if roll < gf_luckyWinChanceBp g
      then (max 1 (gf_luckyMultipliers g ! pick (length (gf_luckyMultipliers g))), True)
      else (1, False))"

definition ledgerKeyFor :: "string \<Rightarrow> uid list \<Rightarrow> uid \<Rightarrow> string" where
  "ledgerKeyFor k rs r = (if 1 < length rs then k @ CHR '':'' # show_nat r else k)"

definition gift_key :: "string option \<Rightarrow> ('z wdb_scheme, string) act" where
  "gift_key k =
     (let given = (case k of None \<Rightarrow> [] | Some x \<Rightarrow> trim x)
      in if given = [] then bindA drawId (\<lambda>i. returnA (''gift:'' @ show_nat i)) else returnA given)"

definition quote ::
  "gift_env \<Rightarrow> uid \<Rightarrow> gift_dto \<Rightarrow> gift \<Rightarrow> string \<Rightarrow> uid list \<Rightarrow> int \<times> (nat \<Rightarrow> nat) \<Rightarrow> int \<Rightarrow>
     ('z gift_db_scheme, gift_quote) act" where
  "quote env u dto g k rs rolls now =
     bindA (hitRateLimit u (ge_rateMax env) (ge_rateWindowSeconds env) now) (\<lambda>hit.
     bindA (guardA (\<not> hit) (Business ''GIFT_RATE_LIMITED'')) (\<lambda>_.
     bindA (if gf_comboEnabled g then comboTick (gd_contextId dto) u (gf_id g) (gf_comboWindowSeconds g) now
            else returnA 1) (\<lambda>tier.
     let (mult, win) = rollLucky g (fst rolls) (snd rolls);
         each = gf_coinValue g * gd_quantity dto * mult
     in bindA drawId (\<lambda>i.
        returnA \<lparr>gq_key = k, gq_gift = g, gq_receivers = rs, gq_comboTier = tier, gq_multiplier = mult, gq_win = win,
          gq_rules = settlementRules env, gq_perReceiver = each,
          gq_senderExp = \<lfloor>of_int (toNumber each) * ge_senderExpPerCoin env\<rfloor>,
          gq_receiverExp = \<lfloor>of_int (toNumber each) * ge_receiverExpPerCoin env\<rfloor>, gq_txnId = i\<rparr>))))"

text \<open>What precedes the locks: an earlier row of the key, or a quote.\<close>

definition send_check ::
  "gift_env \<Rightarrow> 'z gift_handler \<Rightarrow> uid \<Rightarrow> gift_dto \<Rightarrow> int \<times> (nat \<Rightarrow> nat) \<Rightarrow> int \<Rightarrow>
     ('z gift_db_scheme, gift_txn + gift_quote) act" where
  "send_check env h u dto rolls now =
     (let rs = unique (gd_receiverIds dto)
      in bindA (guardA (rs \<noteq> []) (Business ''GIFT_RECEIVER_INVALID'')) (\<lambda>_.
         bindA (getsA (gift_by (gd_giftId dto))) (\<lambda>found.
         case found of
           None \<Rightarrow> throwA (NotFound ''Gift not found'')
         | Some g \<Rightarrow>
             bindA (guardA (gf_enabled g) (Business ''GIFT_DISABLED'')) (\<lambda>_.
             bindA (guardA (\<not> (0 < gf_minVipLevel g \<and> ge_level env u < gf_minVipLevel g)) (Business ''GIFT_VIP_RESTRICTED'')) (\<lambda>_.
             bindA (gift_key (gd_idempotencyKey dto)) (\<lambda>k.
             bindA (getsA (findTxnByIdempotencyKey (ledgerKeyFor k rs (hd rs)))) (\<lambda>prior.
             case prior of
               Some t \<Rightarrow> returnA (Inl t)
             | None \<Rightarrow>
                 bindA (guardA (length rs \<le> gh_maxReceivers h) (Business ''GIFT_TOO_MANY_RECEIVERS'')) (\<lambda>_.
                 bindA (gh_validate h \<lparr>rq_contextType = gd_contextType dto, rq_contextId = gd_contextId dto,
                     rq_senderId = u, rq_receiverIds = rs, rq_gift = g, rq_quantity = gd_quantity dto\<rparr>) (\<lambda>_.
                 bindA (quote env u dto g k rs rolls now) (\<lambda>q. returnA (Inr q)))))))))))"

section \<open>The transaction\<close>

definition gq_each :: "gift_quote \<Rightarrow> int" where
  "gq_each q = toNumber (gq_perReceiver q)"

definition gq_earnings :: "gift_quote \<Rightarrow> int" where
  "gq_earnings q =
     (if gr_earningsPercent (gq_rules q) = 100 then gq_each q
      else gq_each q * gr_earningsPercent (gq_rules q) div 100)"

definition gq_cashback :: "gift_quote \<Rightarrow> int" where
  "gq_cashback q =
     (if gr_cashbackThreshold (gq_rules q) \<le> gq_each q then gq_each q * gr_cashbackPercent (gq_rules q) div 100 else 0)"

definition gift_debit :: "uid \<Rightarrow> gift_quote \<Rightarrow> movement" where
  "gift_debit u q =
     \<lparr>m_userId = u, m_currency = GOLD, m_amount = of_int (gq_each q * int (length (gq_receivers q))),
      m_reason = GIFT_SEND, m_key = ''gift-debit:'' @ gq_key q, m_referenceType = Some ''gift'', m_referenceId = None,
      m_actorId = Some u\<rparr>"

definition gift_earning :: "uid \<Rightarrow> gift_quote \<Rightarrow> uid \<Rightarrow> movement" where
  "gift_earning u q r =
     \<lparr>m_userId = r, m_currency = DIAMOND, m_amount = of_int (gq_earnings q), m_reason = GIFT_RECEIVE,
      m_key = ''gift-credit-earnings:'' @ gq_key q @ CHR '':'' # show_nat r, m_referenceType = Some ''gift'',
      m_referenceId = None, m_actorId = Some u\<rparr>"

definition gift_cashback :: "uid \<Rightarrow> gift_quote \<Rightarrow> uid \<Rightarrow> movement" where
  "gift_cashback u q r =
     \<lparr>m_userId = r, m_currency = GOLD, m_amount = of_int (gq_cashback q), m_reason = GIFT_RECEIVE,
      m_key = ''gift-credit-available:'' @ gq_key q @ CHR '':'' # show_nat r, m_referenceType = Some ''gift'',
      m_referenceId = None, m_actorId = Some u\<rparr>"

definition gift_row :: "uid \<Rightarrow> gift_dto \<Rightarrow> gift_quote \<Rightarrow> nat \<Rightarrow> nat option \<Rightarrow> int \<Rightarrow> uid \<Rightarrow> nat \<Rightarrow> gift_txn" where
  "gift_row u dto q debited credited now r i =
     \<lparr>gt_id = i, gt_senderId = u, gt_receiverId = r, gt_giftId = gf_id (gq_gift q), gt_giftType = gf_type (gq_gift q),
      gt_contextType = gd_contextType dto, gt_contextId = gd_contextId dto, gt_quantity = gd_quantity dto,
      gt_comboTier = gq_comboTier q, gt_unitCoinValue = gf_coinValue (gq_gift q), gt_totalCoinValue = gq_perReceiver q,
      gt_creatorEarnings = gq_earnings q, gt_cashbackAmount = gq_cashback q,
      gt_appliedEarningsPct = gr_earningsPercent (gq_rules q), gt_appliedCashbackPct = gr_cashbackPercent (gq_rules q),
      gt_luckyMultiplier = gq_multiplier q, gt_isLuckyWin = gq_win q, gt_senderExp = gq_senderExp q,
      gt_receiverExp = gq_receiverExp q, gt_idempotencyKey = ledgerKeyFor (gq_key q) (gq_receivers q) r,
      gt_senderWalletTxnId = debited, gt_receiverWalletTxnId = credited, gt_createdAt = now\<rparr>"

text \<open>A gift that is a profile frame: the catalogue's entry of its name, for as long as the gift says.\<close>

definition frame_duration :: "gift \<Rightarrow> int option" where
  "frame_duration g =
     (let ttl = or_int 0 (gf_ttlValue g);
          unit_name = map upper (case gf_ttlUnit g of None \<Rightarrow> ''DAYS'' | Some x \<Rightarrow> if x = [] then ''DAYS'' else x)
      in if 0 < ttl
         then Some (if unit_name = ''SECONDS'' then ttl * 1000
                    else if unit_name = ''MINUTES'' then ttl * 60 * 1000
                    else if unit_name = ''HOURS'' then ttl * 60 * 60 * 1000
                    else ttl * 24 * 60 * 60 * 1000)
         else None)"

definition resolved :: "gift_env \<Rightarrow> string option \<Rightarrow> string option" where
  "resolved env k = (case k of None \<Rightarrow> None | Some x \<Rightarrow> if x = [] then None else Some (ge_resolve env x))"

definition frame_media :: "gift_env \<Rightarrow> gift \<Rightarrow> string" where
  "frame_media env g =
     (case resolved env (gf_animationUrl g) of
        Some a \<Rightarrow> a
      | None \<Rightarrow> (case resolved env (gf_thumbnailUrl g) of Some x \<Rightarrow> x | None \<Rightarrow> ''default_pink_frame''))"

definition frame_cosmetic :: "gift_env \<Rightarrow> gift \<Rightarrow> ('z gift_db_scheme, nat) act" where
  "frame_cosmetic env g s =
     (case List.find (\<lambda>c. cs_type c = FRAME \<and> cs_name c = gf_name g) (cosmetics s) of
        Some c \<Rightarrow> (Inr (cs_id c), s)
      | None \<Rightarrow> (Inr (next_id s), s\<lparr>cosmetics := cosmetics s @ [\<lparr>cs_id = next_id s, cs_type = FRAME, cs_name = gf_name g,
            cs_mediaUrl = frame_media env g, cs_thumbnailUrl = resolved env (gf_thumbnailUrl g),
            cs_price = gf_coinValue g, cs_enabled = True, cs_isPremium = True\<rparr>], next_id := Suc (next_id s)\<rparr>))"

definition longer :: "int option \<Rightarrow> int \<Rightarrow> int option \<Rightarrow> int option" where
  "longer duration now old =
     (case (duration, old) of
        (None, _) \<Rightarrow> None
      | (Some d, None) \<Rightarrow> None
      | (Some d, Some e) \<Rightarrow> Some ((if now < e then e else now) + d))"

definition give_frame :: "gift_env \<Rightarrow> gift \<Rightarrow> uid \<Rightarrow> int \<Rightarrow> ('z gift_db_scheme, unit) act" where
  "give_frame env g r now =
     bindA (frame_cosmetic env g) (\<lambda>c.
     modifyA (\<lambda>s. if \<exists>u \<in> set (user_cosmetics s). uc_userId u = r \<and> uc_cosmeticId u = c
       then s\<lparr>user_cosmetics := map (\<lambda>u. if uc_userId u = r \<and> uc_cosmeticId u = c
              then u\<lparr>uc_expiresAt := longer (frame_duration g) now (uc_expiresAt u)\<rparr> else u) (user_cosmetics s)\<rparr>
       else s\<lparr>user_cosmetics := user_cosmetics s @ [\<lparr>uc_id = next_id s, uc_userId = r, uc_cosmeticId = c,
              uc_equipped = False, uc_expiresAt = map_option (\<lambda>d. now + d) (frame_duration g)\<rparr>],
              next_id := Suc (next_id s)\<rparr>))"

definition settle_one ::
  "gift_env \<Rightarrow> uid \<Rightarrow> gift_dto \<Rightarrow> gift_quote \<Rightarrow> nat \<Rightarrow> int \<Rightarrow> uid \<Rightarrow> ('z gift_db_scheme, gift_txn) act" where
  "settle_one env u dto q debited now r =
     bindA (if 0 < gq_earnings q
            then bindA (credit (gift_earning u q r) True) (\<lambda>c. returnA (Some (mr_transactionId c)))
            else returnA None) (\<lambda>credited.
     bindA (if 0 < gq_cashback q then bindA (credit (gift_cashback u q r) True) (\<lambda>_. returnA ()) else returnA ()) (\<lambda>_.
     bindA (if 1 < length (gq_receivers q) then drawId else returnA (gq_txnId q)) (\<lambda>i.
     bindA (createTransaction (gift_row u dto q debited credited now r i)) (\<lambda>t.
     bindA (if gf_type (gq_gift q) = G_PROFILE_FRAME then give_frame env (gq_gift q) r now else returnA ()) (\<lambda>_.
     returnA t)))))"

fun settle_all ::
  "gift_env \<Rightarrow> uid \<Rightarrow> gift_dto \<Rightarrow> gift_quote \<Rightarrow> nat \<Rightarrow> int \<Rightarrow> uid list \<Rightarrow> ('z gift_db_scheme, gift_txn list) act" where
  "settle_all env u dto q debited now [] = returnA []"
| "settle_all env u dto q debited now (r # rs) =
     bindA (settle_one env u dto q debited now r) (\<lambda>t.
     bindA (settle_all env u dto q debited now rs) (\<lambda>ts. returnA (t # ts)))"

text \<open>What was published on the bus before a throw stays published.\<close>

definition gift_transaction :: "('z gift_db_scheme, 'a) act \<Rightarrow> ('z gift_db_scheme, 'a) act" where
  "gift_transaction m s =
     (case m s of (Inl e, s') \<Rightarrow> (Inl e, (rollback s s')\<lparr>item_bus := item_bus s'\<rparr>) | (Inr a, s') \<Rightarrow> (Inr a, s'))"

definition routed :: "gift_dto \<Rightarrow> uid \<Rightarrow> gift_quote \<Rightarrow> gift_send" where
  "routed dto u q =
     \<lparr>rq_contextType = gd_contextType dto, rq_contextId = gd_contextId dto, rq_senderId = u,
      rq_receiverIds = gq_receivers q, rq_gift = gq_gift q, rq_quantity = gd_quantity dto,
      rq_transactionId = gq_txnId q, rq_idempotencyKey = gq_key q,
      rq_totalCoinValue = gq_each q * int (length (gq_receivers q))\<rparr>"

definition routing :: "'z gift_handler \<Rightarrow> gift_send \<Rightarrow> ('z gift_db_scheme, send_effects) act" where
  "routing h rq =
     (case gh_onSend h of
        Some f \<Rightarrow> f rq
      | None \<Rightarrow> returnA \<lparr>se_acceptedAmount = rq_totalCoinValue rq, se_refundAmount = 0, se_events = [],
          se_postCommit = None\<rparr>)"

definition send_body ::
  "gift_env \<Rightarrow> 'z gift_handler \<Rightarrow> uid \<Rightarrow> gift_dto \<Rightarrow> gift_quote \<Rightarrow> int \<Rightarrow>
     ('z gift_db_scheme, gift_txn list \<times> send_effects option) act" where
  "send_body env h u dto q now =
     bindA (getsA (findTxnByIdempotencyKey (ledgerKeyFor (gq_key q) (gq_receivers q) (hd (gq_receivers q))))) (\<lambda>prior.
     case prior of
       Some t \<Rightarrow> returnA ([t], None)
     | None \<Rightarrow>
         bindA (debit (gift_debit u q) True) (\<lambda>d.
         bindA (routing h (routed dto u q)) (\<lambda>eff.
         bindA (settle_all env u dto q (mr_transactionId d) now (gq_receivers q)) (\<lambda>rows.
         returnA (rows, Some eff)))))"

definition send_commit ::
  "gift_env \<Rightarrow> 'z gift_handler \<Rightarrow> uid \<Rightarrow> gift_dto \<Rightarrow> gift_quote \<Rightarrow> int \<Rightarrow>
     ('z gift_db_scheme, gift_txn list \<times> send_effects option) act" where
  "send_commit env h u dto q now = gift_transaction (send_body env h u dto q now)"

section \<open>After the commit\<close>

definition publish_gift :: "gift_event \<Rightarrow> ('z gift_db_scheme, unit) act" where
  "publish_gift e = modifyA (\<lambda>s. s\<lparr>gift_bus := gift_bus s @ [e]\<rparr>)"

definition enqueue_gift :: "gift_job \<Rightarrow> ('z gift_db_scheme, unit) act" where
  "enqueue_gift j = modifyA (\<lambda>s. s\<lparr>gift_jobs := gift_jobs s @ [j]\<rparr>)"

definition afterSend :: "gift \<Rightarrow> int \<Rightarrow> gift_txn \<Rightarrow> ('z gift_db_scheme, unit) act" where
  "afterSend g now t =
     bindA (record_boards (gt_contextId t) (gt_senderId t) (gt_receiverId t) (toNumber (gt_totalCoinValue t))
       (toNumber (gt_creatorEarnings t)) now) (\<lambda>_.
     bindA (publish_gift (GiftSent t (gf_name g))) (\<lambda>_.
     bindA (publish_gift (GiftReceived t (gf_name g))) (\<lambda>_.
     bindA (if 1 < gt_comboTier t
            then publish_gift (GiftCombo (gt_contextType t) (gt_contextId t) (gt_senderId t) (gt_giftId t) (gt_comboTier t))
            else returnA ()) (\<lambda>_.
     bindA (if gt_isLuckyWin t
            then publish_gift (GiftLuckyWin (gt_contextType t) (gt_contextId t) (gt_senderId t) (gt_giftId t)
                   (gt_luckyMultiplier t) (toNumber (gt_totalCoinValue t)))
            else returnA ()) (\<lambda>_.
     forA enqueue_gift [Job_gift_sent (gt_id t), Job_gift_received (gt_receiverId t) (gt_senderId t) (gt_giftId t) (gt_id t),
       Job_gift_ranking (gt_id t) (gt_contextId t),
       Job_gift_analytics (gt_id t) (gt_senderId t) (gt_receiverId t) (toNumber (gt_totalCoinValue t))])))))"

definition send_after ::
  "gift \<Rightarrow> int \<Rightarrow> gift_txn list \<times> send_effects option \<Rightarrow> ('z gift_db_scheme, unit) act" where
  "send_after g now = (\<lambda>(rows, eff).
     bindA (forA (afterSend g now) rows) (\<lambda>_.
     case eff of
       None \<Rightarrow> returnA ()
     | Some x \<Rightarrow>
         bindA (forA publish_room (se_events x)) (\<lambda>_.
         case se_postCommit x of
           None \<Rightarrow> returnA ()
         | Some (room, v, totals) \<Rightarrow> sync_counters room v (Some totals))))"

definition sendGiftBatch ::
  "gift_env \<Rightarrow> 'z gift_handler \<Rightarrow> uid \<Rightarrow> gift_dto \<Rightarrow> int \<times> (nat \<Rightarrow> nat) \<Rightarrow> int \<Rightarrow> ('z gift_db_scheme, gift_txn list) act" where
  "sendGiftBatch env h u dto rolls now =
     bindA (send_check env h u dto rolls now) (\<lambda>checked.
     case checked of
       Inl t \<Rightarrow> returnA [t]
     | Inr q \<Rightarrow>
         bindA (send_commit env h u dto q now) (\<lambda>out.
         bindA (send_after (gq_gift q) now out) (\<lambda>_. returnA (fst out))))"

text \<open>\<open>sendGift\<close>: one receiver.\<close>

definition sendGift ::
  "gift_env \<Rightarrow> 'z gift_handler \<Rightarrow> uid \<Rightarrow> gift_dto \<Rightarrow> uid \<Rightarrow> int \<times> (nat \<Rightarrow> nat) \<Rightarrow> int \<Rightarrow> ('z gift_db_scheme, gift_txn) act" where
  "sendGift env h u dto r rolls now =
     bindA (sendGiftBatch env h u (dto\<lparr>gd_receiverIds := [r]\<rparr>) rolls now) (\<lambda>ts. returnA (hd ts))"

end
