(* ===== verification/GiftLaws.thy ===== *)
theory GiftLaws
  imports GiftSend TreasureProperties
begin

text \<open>
  What a gift moves. The steps that only write rows are one \<open>step_order\<close> (\<open>no_money\<close>); a settlement of one
  receiver moves exactly its shares; a whole batch is the debit and the shares of its receivers.
\<close>

section \<open>Steps that move no money\<close>

definition same_balances :: "('z wdb_scheme) \<Rightarrow> ('z wdb_scheme) \<Rightarrow> bool" where
  "same_balances s s' \<longleftrightarrow> user_balance s' = user_balance s \<and> txns s' = txns s \<and> (wf_db s \<longrightarrow> wf_db s')"

interpretation no_money: step_order same_balances
  by unfold_locales (simp_all add: same_balances_def)

lemma same_balancesI:
  assumes "wallets s' = wallets s" "wallet_of s' = wallet_of s" "txns s' = txns s" "ledger s' = ledger s"
    "next_id s \<le> next_id s'"
  shows "same_balances s s'"
proof -
  have "wf_db s \<Longrightarrow> wf_db s'" using assms by (auto simp: wf_db_def) (meson less_le_trans)+
  then show ?thesis using assms by (simp add: same_balances_def user_balance_def [abs_def] walletByUser_def)
qed

lemma no_moneyI:
  assumes "\<And>s. wallets (snd (m s)) = wallets s" "\<And>s. wallet_of (snd (m s)) = wallet_of s"
    "\<And>s. txns (snd (m s)) = txns s" "\<And>s. ledger (snd (m s)) = ledger s" "\<And>s. next_id s \<le> next_id (snd (m s))"
  shows "no_money.ok m"
  unfolding no_money.ok_def using assms by (intro allI same_balancesI) auto

lemma no_money_rows:
  "no_money.ok drawId" "no_money.ok (createTransaction t)" "no_money.ok (comboTick c u g w now)"
  "no_money.ok (hitRateLimit u m w now)" "no_money.ok (addLeaderboardScore b sc k u n)" "no_money.ok (publish_gift e)"
  "no_money.ok (enqueue_gift j)" "no_money.ok (frame_cosmetic env gf)"
  by (intro no_moneyI; simp add: drawId_def createTransaction_def comboTick_def hitRateLimit_def Let_def
      addLeaderboardScore_def publish_gift_def enqueue_gift_def frame_cosmetic_def modifyA_def split: option.split)+

lemma no_money_modify:
  assumes "\<And>s. wallets (f s) = wallets s" "\<And>s. wallet_of (f s) = wallet_of s" "\<And>s. txns (f s) = txns s"
    "\<And>s. ledger (f s) = ledger s" "\<And>s. next_id s \<le> next_id (f s)"
  shows "no_money.ok (modifyA f)"
  by (rule no_moneyI) (simp_all add: modifyA_def assms)

lemma no_money_frame: "no_money.ok (give_frame env g r now)"
  unfolding give_frame_def by (intro no_money.ok_bind no_money_rows no_money_modify) auto

section \<open>The shares of a receiver\<close>

text \<open>What a receiver of the quote gets, per currency.\<close>

definition share :: "gift_quote \<Rightarrow> currency \<Rightarrow> int" where
  "share q c = (if c = DIAMOND then max 0 (gq_earnings q) else if c = GOLD then max 0 (gq_cashback q) else 0)"

definition share_keys :: "uid \<Rightarrow> gift_quote \<Rightarrow> uid \<Rightarrow> string set" where
  "share_keys u q r = {m_key (gift_earning u q r), m_key (gift_cashback u q r)}"

definition gift_cost :: "gift_quote \<Rightarrow> int" where
  "gift_cost q = gq_each q * int (length (gq_receivers q))"

lemma gift_movement_sel [simp]:
  "m_userId (gift_earning u q r) = r" "m_currency (gift_earning u q r) = DIAMOND"
  "m_amount (gift_earning u q r) = of_int (gq_earnings q)"
  "m_userId (gift_cashback u q r) = r" "m_currency (gift_cashback u q r) = GOLD"
  "m_amount (gift_cashback u q r) = of_int (gq_cashback q)"
  "m_userId (gift_debit u q) = u" "m_currency (gift_debit u q) = GOLD"
  "m_amount (gift_debit u q) = of_int (gift_cost q)"
  by (simp_all add: gift_earning_def gift_cashback_def gift_debit_def gift_cost_def)

lemma gift_keys_differ [simp]:
  "m_key (gift_earning u q r) \<noteq> m_key (gift_cashback u q r')" "m_key (gift_cashback u q r) \<noteq> m_key (gift_earning u q r')"
  "m_key (gift_earning u q r) = m_key (gift_earning u q r') \<longleftrightarrow> r = r'"
  "m_key (gift_cashback u q r) = m_key (gift_cashback u q r') \<longleftrightarrow> r = r'"
  "m_key (gift_debit u q) \<noteq> m_key (gift_earning u q r)" "m_key (gift_debit u q) \<noteq> m_key (gift_cashback u q r)"
  by (simp_all add: gift_earning_def gift_cashback_def gift_debit_def)

lemma credit_effect:
  assumes "wf_db s" "txns s (m_key m) = None" "credit m j s = (Inr x, s')"
  shows "user_balance s' v c = user_balance s v c + (if v = m_userId m \<and> c = m_currency m then \<lfloor>m_amount m\<rfloor> else 0)"
    "dom (txns s') = insert (m_key m) (dom (txns s))" "wf_db s'" "wdb.more s' = wdb.more s"
  using move_effect(1,6,7) [OF assms(1,2) assms(3) [unfolded credit_def]] move_keeps(1) [OF assms(1) assms(3) [unfolded credit_def]]
  by (auto simp: delta_def)

lemma debit_effect:
  assumes "wf_db s" "txns s (m_key m) = None" "debit m j s = (Inr x, s')"
  shows "user_balance s' v c = user_balance s v c - (if v = m_userId m \<and> c = m_currency m then \<lfloor>m_amount m\<rfloor> else 0)"
    "dom (txns s') = insert (m_key m) (dom (txns s))" "wf_db s'" "wdb.more s' = wdb.more s"
  using move_effect(1,6,7) [OF assms(1,2) assms(3) [unfolded debit_def]] move_keeps(1) [OF assms(1) assms(3) [unfolded debit_def]]
  by (auto simp: delta_def)

text \<open>A credit that is only made when it is positive.\<close>

lemma maybe_credit:
  assumes wf: "wf_db s" and new: "txns s (m_key m) = None" and amt: "m_amount m = of_int n"
    and run: "(if 0 < n then bindA (credit m True) (\<lambda>c. returnA (f c)) else returnA d) s = (Inr x, s')"
  shows "user_balance s' v c = user_balance s v c + (if v = m_userId m \<and> c = m_currency m then max 0 n else 0)"
    "dom (txns s') \<subseteq> insert (m_key m) (dom (txns s))" "wf_db s'" "wdb.more s' = wdb.more s"
proof -
  have "user_balance s' v c = user_balance s v c + (if v = m_userId m \<and> c = m_currency m then max 0 n else 0) \<and>
    dom (txns s') \<subseteq> insert (m_key m) (dom (txns s)) \<and> wf_db s' \<and> wdb.more s' = wdb.more s"
  proof (cases "0 < n")
    case True
    then obtain y where "credit m True s = (Inr y, s')" using run by (auto simp: bindA_Inr)
    from credit_effect [OF wf new this] True amt show ?thesis by auto
  qed (use run wf in auto)
  then show "user_balance s' v c = user_balance s v c + (if v = m_userId m \<and> c = m_currency m then max 0 n else 0)"
    "dom (txns s') \<subseteq> insert (m_key m) (dom (txns s))" "wf_db s'" "wdb.more s' = wdb.more s" by auto
qed


text \<open>
  \<open>gives u q rs s s'\<close>: every one of the receivers \<open>rs\<close> got its share between \<open>s\<close> and \<open>s'\<close>, nobody else got or
  lost anything, and no keys were used but theirs.
\<close>

definition gives :: "uid \<Rightarrow> gift_quote \<Rightarrow> uid list \<Rightarrow> ('z wdb_scheme) \<Rightarrow> ('z wdb_scheme) \<Rightarrow> bool" where
  "gives u q rs s s' \<longleftrightarrow> wf_db s' \<and>
     (\<forall>v c. user_balance s' v c = user_balance s v c + (if v \<in> set rs then share q c else 0)) \<and>
     dom (txns s') \<subseteq> dom (txns s) \<union> (\<Union>r\<in>set rs. share_keys u q r)"

definition new_shares :: "uid \<Rightarrow> gift_quote \<Rightarrow> uid list \<Rightarrow> ('z wdb_scheme) \<Rightarrow> bool" where
  "new_shares u q rs s \<longleftrightarrow> distinct rs \<and> (\<forall>r\<in>set rs. share_keys u q r \<inter> dom (txns s) = {})"

lemma share_keys_apart: "r \<noteq> r' \<Longrightarrow> share_keys u q r \<inter> share_keys u q r' = {}"
  by (auto simp: share_keys_def)

lemma gives_then:
  assumes "gives u q [r] s s1" "gives u q rs s1 s2" "r \<notin> set rs"
  shows "gives u q (r # rs) s s2"
  using assms by (auto simp: gives_def iff del: domIff)

lemma new_shares_after:
  assumes "gives u q [r] s s1" "new_shares u q (r # rs) s"
  shows "new_shares u q rs s1"
  unfolding new_shares_def
proof (intro conjI ballI)
  show "distinct rs" using assms(2) by (simp add: new_shares_def)
  fix r' assume r': "r' \<in> set rs"
  then have "share_keys u q r \<inter> share_keys u q r' = {}" "share_keys u q r' \<inter> dom (txns s) = {}"
    using assms(2) share_keys_apart [of r r' u q] by (auto simp: new_shares_def)
  moreover have "dom (txns s1) \<subseteq> dom (txns s) \<union> share_keys u q r" using assms(1) by (simp add: gives_def)
  ultimately show "share_keys u q r' \<inter> dom (txns s1) = {}" by blast
qed

lemma gift_txns_more: "wdb.more s' = wdb.more s \<Longrightarrow> gift_txns s' = gift_txns s" for s :: "'z gift_db_scheme"
  by (cases s; cases s') simp

lemma frame_gift_txns: "gift_txns (snd (give_frame env g r now s)) = gift_txns s"
  by (simp add: give_frame_def frame_cosmetic_def bindA_def modifyA_def split: option.split)

lemma move_gift_txns: "move ty m j s = (r, s') \<Longrightarrow> gift_txns s' = gift_txns s" for s :: "'z gift_db_scheme"
  by (rule gift_txns_more) (use wallet_only.okD [OF same_client_move] in \<open>simp add: same_client_def\<close>)

text \<open>The row a receiver gets, in every run.\<close>

definition row_of :: "uid \<Rightarrow> gift_dto \<Rightarrow> gift_quote \<Rightarrow> nat \<Rightarrow> int \<Rightarrow> uid \<Rightarrow> gift_txn \<Rightarrow> bool" where
  "row_of u dto q d now r t \<longleftrightarrow> (\<exists>c i. t = gift_row u dto q d c now r i)"

lemma settle_one_row:
  assumes "settle_one env u dto q d now r s = (Inr t, s')"
  shows "gift_txns s' = gift_txns s @ [t]" "row_of u dto q d now r t" "findTxnByIdempotencyKey (gt_idempotencyKey t) s = None"
proof -
  obtain cr s1 s2 i s3 s4 where
    earn: "(if 0 < gq_earnings q then bindA (credit (gift_earning u q r) True) (\<lambda>c. returnA (Some (mr_transactionId c)))
        else returnA None) s = (Inr cr, s1)" and
    cash: "(if 0 < gq_cashback q then bindA (credit (gift_cashback u q r) True) (\<lambda>_. returnA ()) else returnA ()) s1 =
        (Inr (), s2)" and
    id: "(if 1 < length (gq_receivers q) then drawId else returnA (gq_txnId q)) s2 = (Inr i, s3)" and
    row: "createTransaction (gift_row u dto q d cr now r i) s3 = (Inr t, s4)" and
    frame: "(if gf_type (gq_gift q) = G_PROFILE_FRAME then give_frame env (gq_gift q) r now else returnA ()) s4 = (Inr (), s')"
    using assms unfolding settle_one_def by (auto simp: bindA_Inr)
  have g: "gift_txns s3 = gift_txns s" using earn cash id
    by (auto simp: bindA_Inr drawId_def credit_def dest!: move_gift_txns split: if_splits)
  moreover have "gift_txns s' = gift_txns s4" using frame frame_gift_txns [of env "gq_gift q" r now s4]
    by (auto split: if_splits)
  ultimately show "gift_txns s' = gift_txns s @ [t]" using row by (auto simp: createTransaction_def split: if_splits)
  show "row_of u dto q d now r t" "findTxnByIdempotencyKey (gt_idempotencyKey t) s = None"
    using row g by (auto simp: createTransaction_def findTxnByIdempotencyKey_def row_of_def split: if_splits)
qed

lemma settle_all_rows:
  "settle_all env u dto q d now rs s = (Inr ts, s') \<Longrightarrow>
     gift_txns s' = gift_txns s @ ts \<and> list_all2 (row_of u dto q d now) rs ts"
proof (induction rs arbitrary: s ts)
  case (Cons r rs)
  then obtain t s1 ts' where "settle_one env u dto q d now r s = (Inr t, s1)"
    "settle_all env u dto q d now rs s1 = (Inr ts', s')" "ts = t # ts'"
    by (auto simp: bindA_Inr)
  with settle_one_row [OF this(1)] Cons.IH [OF this(2)] show ?case by simp
qed simp

lemma same_balances_gives: "same_balances s s' \<Longrightarrow> gives u q rs s0 s \<Longrightarrow> gives u q rs s0 s'"
  by (simp add: same_balances_def gives_def)

lemma no_money_refl [simp]: "same_balances s s"
  by (simp add: same_balances_def)

lemmas no_money_steps = no_money.okD [OF no_money_rows(1)] no_money.okD [OF no_money_rows(2)] no_money.okD [OF no_money_frame]

lemma settle_one_effect:
  assumes wf: "wf_db s" and new: "new_shares u q [r] s" and run: "settle_one env u dto q d now r s = (Inr t, s')"
  shows "gives u q [r] s s'"
proof -
  obtain cr s1 s2 i s3 s4 where
    earn: "(if 0 < gq_earnings q then bindA (credit (gift_earning u q r) True) (\<lambda>c. returnA (Some (mr_transactionId c)))
        else returnA None) s = (Inr cr, s1)" and
    cash: "(if 0 < gq_cashback q then bindA (credit (gift_cashback u q r) True) (\<lambda>_. returnA ()) else returnA ()) s1 =
        (Inr (), s2)" and
    rest: "(if 1 < length (gq_receivers q) then drawId else returnA (gq_txnId q)) s2 = (Inr i, s3)"
      "createTransaction (gift_row u dto q d cr now r i) s3 = (Inr t, s4)"
      "(if gf_type (gq_gift q) = G_PROFILE_FRAME then give_frame env (gq_gift q) r now else returnA ()) s4 = (Inr (), s')"
    using run unfolding settle_one_def by (auto simp: bindA_Inr)
  have k1: "txns s (m_key (gift_earning u q r)) = None" and k2: "m_key (gift_cashback u q r) \<notin> dom (txns s)"
    using new by (auto simp: new_shares_def share_keys_def)
  note e1 = maybe_credit [OF wf k1 _ earn]
  have k3: "txns s1 (m_key (gift_cashback u q r)) = None" using e1(2) k2 by (auto simp: dom_def)
  note e2 = maybe_credit [OF e1(3) k3 _ cash]
  have "gives u q [r] s s2"
    using e1 e2 by (auto simp: gives_def share_def share_keys_def iff del: domIff)
  moreover have "same_balances s2 s3" "same_balances s3 s4" "same_balances s4 s'"
    using rest by (auto split: if_splits dest: no_money_steps)
  ultimately show ?thesis using same_balances_gives by blast
qed

lemma settle_all_gives:
  assumes "settle_all env u dto q d now rs s = (Inr ts, s')" "wf_db s" "new_shares u q rs s"
  shows "gives u q rs s s'"
  using assms
proof (induction rs arbitrary: s ts)
  case Nil
  then show ?case by (simp add: gives_def)
next
  case (Cons r rs)
  then obtain t s1 ts' where one: "settle_one env u dto q d now r s = (Inr t, s1)"
    and rest: "settle_all env u dto q d now rs s1 = (Inr ts', s')"
    by (auto simp: bindA_Inr)
  have n1: "new_shares u q [r] s" and r: "r \<notin> set rs" using Cons.prems(3) by (auto simp: new_shares_def)
  note e = settle_one_effect [OF Cons.prems(2) n1 one]
  have "wf_db s1" using e by (simp add: gives_def)
  from Cons.IH [OF rest this new_shares_after [OF e Cons.prems(3)]] gives_then [OF e _ r]
  show ?case by simp
qed

section \<open>The debit\<close>

definition new_gift :: "uid \<Rightarrow> gift_quote \<Rightarrow> ('z wdb_scheme) \<Rightarrow> bool" where
  "new_gift u q s \<longleftrightarrow> txns s (m_key (gift_debit u q)) = None \<and> new_shares u q (gq_receivers q) s"

lemma debit_for_gift:
  assumes "wf_db s" "new_gift u q s" "debit (gift_debit u q) j s = (Inr x, s')"
  shows "user_balance s' v c = user_balance s v c - (if v = u \<and> c = GOLD then gift_cost q else 0)"
    "wf_db s'" "wdb.more s' = wdb.more s" "new_shares u q (gq_receivers q) s'" "gift_cost q \<le> user_balance s u GOLD"
    "dom (txns s') = insert (m_key (gift_debit u q)) (dom (txns s))"
proof -
  have k: "txns s (m_key (gift_debit u q)) = None" using assms(2) by (simp add: new_gift_def)
  note e = debit_effect [OF assms(1) k assms(3)]
  show "user_balance s' v c = user_balance s v c - (if v = u \<and> c = GOLD then gift_cost q else 0)"
    "wf_db s'" "wdb.more s' = wdb.more s" "dom (txns s') = insert (m_key (gift_debit u q)) (dom (txns s))"
    using e by auto
  show "new_shares u q (gq_receivers q) s'"
    using assms(2) e(2) by (auto simp: new_gift_def new_shares_def share_keys_def iff del: domIff)
  show "gift_cost q \<le> user_balance s u GOLD"
    using move_effect(3) [OF assms(1) k assms(3) [unfolded debit_def]] by (simp add: delta_def)
qed

end
