(* ===== verification/GiftRooms.thy ===== *)
theory GiftRooms
  imports GiftLaws
begin

text \<open>
  The handlers of the contexts. What the service needs of one is the locale \<open>gift_context\<close>: its \<open>onSend\<close> leaves
  the tables of the gifts alone and the books well formed. The three handlers of the code that are modelled
  are instances; the one of audio rooms, whose \<open>onSend\<close> fills the treasure boxes, by the step order \<open>room_step\<close>.
\<close>

section \<open>What filling boxes does to the books\<close>

definition items_only :: "('z treasure_db_scheme) \<Rightarrow> bool" where
  "items_only s \<longleftrightarrow> (\<forall>c\<in>set (box_configs s). \<forall>rw\<in>set (bc_rewards c). rw_kind rw = RK_ITEM)"

definition room_step :: "('z treasure_db_scheme) \<Rightarrow> ('z treasure_db_scheme) \<Rightarrow> bool" where
  "room_step s s' \<longleftrightarrow> treasure_db.more s' = treasure_db.more s \<and> box_configs s' = box_configs s \<and> (wf_db s \<longrightarrow> wf_db s') \<and>
     (items_only s \<longrightarrow> same_balances s s')"

lemma items_only_same: "box_configs s' = box_configs s \<Longrightarrow> items_only s' = items_only s"
  by (simp add: items_only_def)

interpretation in_room: step_order room_step
proof unfold_locales
  fix s t u :: "'a treasure_db_scheme"
  assume "room_step s t" "room_step t u"
  then show "room_step s u"
    using items_only_same [of t s] no_money.trans_step [of s t u] by (auto simp: room_step_def)
qed (simp add: room_step_def)

lemma room_same_tables:
  assumes "treasure_db.more s' = treasure_db.more s" "box_configs s' = box_configs s" "same_balances s s'"
  shows "room_step s s'"
  using assms by (simp add: room_step_def same_balances_def)

lemma room_modifyI:
  assumes "\<And>s. treasure_db.more (snd (m s)) = treasure_db.more s" "\<And>s. box_configs (snd (m s)) = box_configs s"
    "no_money.ok m"
  shows "in_room.ok m"
  unfolding in_room.ok_def using assms by (auto simp: no_money.ok_def intro: room_same_tables)

lemma room_rows:
  "in_room.ok (update_session i sf)" "in_room.ok (update_box i l bf)" "in_room.ok (create_session room u ctx now)"
  "in_room.ok (create_box i room l th st)" "in_room.ok (add_contribution b room u amt g now)"
  "in_room.ok (create_reward i bx room l d)" "in_room.ok (incrementRoomContribution room amt)"
  "in_room.ok (incrementUserContribution u amt)"
  by (intro room_modifyI no_moneyI; simp add: update_session_def update_box_def create_session_def create_box_def
      add_contribution_def create_reward_def incrementRoomContribution_def incrementUserContribution_def modifyA_def Let_def
      split: option.split)+

lemma room_publish: "in_room.ok (publish_room e)"
  by (intro room_modifyI no_moneyI) (simp_all add: publish_room_def modifyA_def)

lemma room_items:
  "in_room.ok (create_item it)" "in_room.ok (updateItem i f)" "in_room.ok (log_item u a x)" "in_room.ok (publish_item ev)"
  by (intro room_modifyI no_moneyI; simp add: create_item_def updateItem_def log_item_def publish_item_def modifyA_def Let_def
      split: option.split)+

lemma room_grant: "in_room.ok (grant inp now)"
  unfolding grant_def grant_merged_def
  by (auto intro!: in_room.ok_bind in_room.ok_option room_items)

lemma same_treasure_room: "same_treasure s s' \<Longrightarrow> treasure_db.more s' = treasure_db.more s \<and> box_configs s' = box_configs s"
  by (cases s; cases s') (auto simp: same_treasure_def)

text \<open>Paying coins keeps the books well formed; only rewards that are items leave the balances alone.\<close>

definition wf_step :: "('z wdb_scheme) \<Rightarrow> ('z wdb_scheme) \<Rightarrow> bool" where
  "wf_step s s' \<longleftrightarrow> (wf_db s \<longrightarrow> wf_db s')"

interpretation well: step_order wf_step
  by unfold_locales (auto simp: wf_step_def)

lemma well_credit: "well.ok (credit m j)"
  unfolding credit_def wf_step_def well.ok_def using move_keeps(1) surjective_pairing by blast

lemma well_grant: "well.ok (grant inp now :: ('z treasure_db_scheme, nat \<times> bool) act)"
  using room_grant [of inp now, where 'a = 'z] by (auto simp: well.ok_def in_room.ok_def wf_step_def room_step_def)

lemma well_give: "well.ok (give_one inp j now rw :: ('z treasure_db_scheme, distributed list) act)"
  unfolding give_one_def
  by (cases "rw_kind rw") (auto intro!: well.ok_bind well_grant well_credit split: option.split prod.split)

lemma well_distribute: "well.ok (distribute inp j now rws :: ('z treasure_db_scheme, distributed list) act)"
  by (induction rws) (auto intro!: well.ok_bind well_give)

lemma room_give: "rw_kind rw = RK_ITEM \<Longrightarrow> in_room.ok (give_one inp j now rw)"
  unfolding give_one_def by (auto intro!: in_room.ok_bind room_grant split: option.split prod.split)

lemma room_distribute_items: "\<forall>rw\<in>set rws. rw_kind rw = RK_ITEM \<Longrightarrow> in_room.ok (distribute inp j now rws)"
  by (induction rws) (auto intro!: in_room.ok_bind room_give)

lemma find_in: "List.find P xs = Some x \<Longrightarrow> x \<in> set xs"
  by (auto simp: find_Some_iff)

lemma room_pay_level:
  "in_room.ok (\<lambda>s. distribute inp j now (case config_of l s of None \<Rightarrow> [] | Some c \<Rightarrow> bc_rewards c) s)"
  unfolding in_room.ok_def
proof
  fix s :: "'a treasure_db_scheme"
  let ?rws = "case config_of l s of None \<Rightarrow> [] | Some c \<Rightarrow> bc_rewards c"
  have t: "same_treasure s (snd (distribute inp j now ?rws s))"
    by (rule reward_only.okD [OF same_treasure_distribute surjective_pairing])
  have w: "wf_step s (snd (distribute inp j now ?rws s))"
    by (rule well.okD [OF well_distribute surjective_pairing])
  have "same_balances s (snd (distribute inp j now ?rws s))" if "items_only s"
  proof -
    have "\<forall>rw\<in>set ?rws. rw_kind rw = RK_ITEM"
      using that 
      by (auto simp: items_only_def config_of_def split: option.splits dest!: sym [of "Some _"] find_in)
    then have "in_room.ok (distribute inp j now ?rws :: ('a treasure_db_scheme, distributed list) act)"
      by (rule room_distribute_items)
    from in_room.okD [OF this surjective_pairing] show ?thesis using that by (simp add: room_step_def)
  qed
  then show "room_step s (snd (distribute inp j now ?rws s))"
    using same_treasure_room [OF t] w by (simp add: room_step_def wf_step_def)
qed

lemma bindA_getsA_at: "bindA (getsA f) (\<lambda>c. bindA (m c) k) = bindA (\<lambda>s. m (f s) s) k"
  by (simp add: fun_eq_iff bindA_def getsA_def)

lemma room_open: "in_room.ok (open_box i room b tops now)"
  unfolding open_box_def bindA_getsA_at
  by (auto intro!: in_room.ok_bind in_room.ok_for room_rows room_pay_level)

lemma room_advance: "in_room.ok (advance_box i l)" "in_room.ok (finish_session i st now)"
  unfolding advance_box_def set_level_def finish_session_def by (auto intro!: in_room.ok_bind room_rows)

lemma room_turn: "in_room.ok (pour_turn i room u g now rest)"
  unfolding pour_turn_def fill_box_def Let_def
  by (auto intro!: in_room.ok_bind in_room.ok_option in_room.ok_if room_advance room_open room_rows)

lemma room_pour: "room_step s (snd (pour i room u g now rest s))"
proof (induction i room u g now rest s rule: pour.induct)
  case (1 i room u g now rest s)
  obtain x s1 where t: "pour_turn i room u g now rest s = (x, s1)" by fastforce
  have s1: "room_step s s1" using in_room.okD [OF room_turn t] .
  show ?case
  proof (cases "rest \<le> 0 \<or> (\<forall>a r ev. x \<noteq> Inr (Again a r ev))")
    case True
    then show ?thesis using t s1 in_room.refl_step
      by (subst pour.simps) (auto split: sum.split turn.split)
  next
    case False
    then obtain a r ev where x: "x = Inr (Again a r ev)" and pos: "\<not> rest \<le> 0" by auto
    have "room_step s1 (snd (pour i room u g now r s1))" using 1 pos t x by auto
    then show ?thesis using in_room.trans_step [OF s1] t x pos
      by (subst pour.simps) (auto split: sum.split prod.split)
  qed
qed

lemma room_session: "in_room.ok (session_for_gift room u now)"
  unfolding session_for_gift_def create_ladder_def create_level_def
  by (auto intro!: in_room.ok_bind in_room.ok_option in_room.ok_if in_room.ok_for room_advance room_rows)

lemma room_contribution: "in_room.ok (processTreasureContribution room u v amt g now)"
  unfolding processTreasureContribution_def Let_def
  by (auto intro!: in_room.ok_bind in_room.ok_option in_room.ok_if room_session room_rows
      simp: in_room.ok_def [of "pour i room u g now amt" for i] room_pour split: prod.split)

text \<open>What a handler may touch: the tables of its context and the books.\<close>

definition context_step :: "('z treasure_db_scheme) \<Rightarrow> ('z treasure_db_scheme) \<Rightarrow> bool" where
  "context_step s s' \<longleftrightarrow> treasure_db.more s' = treasure_db.more s \<and> (wf_db s \<longrightarrow> wf_db s')"

interpretation routing_ok: step_order context_step
  by unfold_locales (auto simp: context_step_def)

lemma routed_credit: "routing_ok.ok (credit m j :: ('z treasure_db_scheme, movement_result) act)"
proof (rule routing_ok.okI)
  fix s s' :: "'z treasure_db_scheme" and r assume run: "credit m j s = (r, s')"
  have "treasure_db.more s' = treasure_db.more s"
    using same_treasure_room [OF reward_only.okD [OF same_treasure_credit run]] by simp
  then show "context_step s s'" using well.okD [OF well_credit run] by (simp add: context_step_def wf_step_def)
qed

lemma routed_contribution: "routing_ok.ok (processTreasureContribution room u v amt g now)"
proof (rule routing_ok.okI)
  fix s s' :: "'a treasure_db_scheme" and r assume "processTreasureContribution room u v amt g now s = (r, s')"
  from in_room.okD [OF room_contribution this] show "context_step s s'" by (simp add: context_step_def room_step_def)
qed

lemma routed_on_send: "routing_ok.ok (room_onSend now rq)"
  unfolding room_onSend_def Let_def by (auto intro!: routing_ok.ok_bind routing_ok.ok_if routed_contribution routed_credit)

section \<open>The interface\<close>

lemma send_bodyE:
  assumes "send_body env h u dto q now s = (Inr (rows, Some eff), s')"
  obtains d s1 s2 where
    "findTxnByIdempotencyKey (ledgerKeyFor (gq_key q) (gq_receivers q) (hd (gq_receivers q))) s = None"
    "debit (gift_debit u q) True s = (Inr d, s1)" "routing h (routed dto u q) s1 = (Inr eff, s2)"
    "settle_all env u dto q (mr_transactionId d) now (gq_receivers q) s2 = (Inr rows, s')"
  using assms unfolding send_body_def by (auto simp: bindA_Inr split: option.splits)

lemma send_commit_Inr: "send_commit env h u dto q now s = (Inr x, s') \<longleftrightarrow> send_body env h u dto q now s = (Inr x, s')"
  by (auto simp: send_commit_def gift_transaction_def split: prod.splits sum.splits)

locale gift_context =
  fixes h :: "'z gift_handler"
  assumes on_send: "gh_onSend h = Some f \<Longrightarrow> f rq s = (r, s') \<Longrightarrow> context_step s s'"
begin

lemma routing_step:
  assumes "routing h rq s = (r, s')"
  shows "context_step s s'"
  using assms on_send routing_ok.refl_step by (auto simp: routing_def returnA_def split: option.splits)

lemma sent_rows:
  assumes "send_body env h u dto q now s = (Inr (rows, Some eff), s')"
  obtains d where "gift_txns s' = gift_txns s @ rows" "list_all2 (row_of u dto q d now) (gq_receivers q) rows"
    "findTxnByIdempotencyKey (ledgerKeyFor (gq_key q) (gq_receivers q) (hd (gq_receivers q))) s = None"
  using assms
proof (rule send_bodyE)
  fix d s1 s2
  assume r: "findTxnByIdempotencyKey (ledgerKeyFor (gq_key q) (gq_receivers q) (hd (gq_receivers q))) s = None"
    "debit (gift_debit u q) True s = (Inr d, s1)" "routing h (routed dto u q) s1 = (Inr eff, s2)"
    "settle_all env u dto q (mr_transactionId d) now (gq_receivers q) s2 = (Inr rows, s')"
  have "gift_txns s1 = gift_txns s" using move_gift_txns r(2) by (simp add: debit_def)
  moreover have "gift_txns s2 = gift_txns s1"
    using routing_step [OF r(3)] by (cases s1; cases s2) (simp add: context_step_def)
  ultimately show thesis using that [of "mr_transactionId d"] settle_all_rows [OF r(4)] r(1) by simp
qed

end

interpretation no_routing: gift_context defaultHandler
  by unfold_locales (simp add: defaultHandler_def)

interpretation chat_routing: gift_context "chatHandler env" for env
  by unfold_locales (simp add: chatHandler_def)

interpretation room_routing: gift_context "roomHandler env now" for env now
  by unfold_locales (auto simp: roomHandler_def intro: routing_ok.okD [OF routed_on_send])

lemma handlers_keep: "c \<noteq> IN_VIDEO_ROOM \<Longrightarrow> gift_context (handlerFor env video now c)"
  by (cases c) (simp_all add: handlerFor_def no_routing.gift_context_axioms chat_routing.gift_context_axioms
      room_routing.gift_context_axioms)

end
