(* ===== verification/GiftProperties.thy ===== *)
theory GiftProperties
  imports GiftRooms
begin

text \<open>
  What sending a gift promises: it moves exactly what the quote says, it is charged once however often it is
  sent, and in an audio room the sender pays for what the boxes take.
\<close>

section \<open>Settlement\<close>

text \<open>What a send takes from the sender: its cost, or nothing when its debit replays one of the same key.\<close>

definition charge :: "uid \<Rightarrow> gift_quote \<Rightarrow> ('z wdb_scheme) \<Rightarrow> int" where
  "charge u q s = (if txns s (m_key (gift_debit u q)) = None then gift_cost q else 0)"

lemma debit_or_replay:
  assumes "wf_db s" "new_shares u q (gq_receivers q) s" "debit (gift_debit u q) j s = (Inr x, s')"
  shows "user_balance s' v c = user_balance s v c - (if v = u \<and> c = GOLD then charge u q s else 0)"
    "wf_db s'" "wdb.more s' = wdb.more s" "new_shares u q (gq_receivers q) s'"
proof -
  have "user_balance s' v c = user_balance s v c - (if v = u \<and> c = GOLD then charge u q s else 0) \<and>
    wf_db s' \<and> wdb.more s' = wdb.more s \<and> new_shares u q (gq_receivers q) s'"
  proof (cases "txns s (m_key (gift_debit u q))")
    case None
    then have "new_gift u q s" using assms(2) by (simp add: new_gift_def)
    from debit_for_gift [OF assms(1) this assms(3)] None show ?thesis by (simp add: charge_def)
  next
    case (Some t)
    then have "s' = s" using move_used assms(3) unfolding debit_def by blast
    then show ?thesis using assms Some by (simp add: charge_def)
  qed
  then show "user_balance s' v c = user_balance s v c - (if v = u \<and> c = GOLD then charge u q s else 0)"
    "wf_db s'" "wdb.more s' = wdb.more s" "new_shares u q (gq_receivers q) s'"
    by blast+
qed

lemma send_parts:
  assumes "send_commit env h u dto q now s = (Inr (rows, Some eff), s')" "gh_onSend h = None" "wf_db s"
    "new_shares u q (gq_receivers q) s"
  obtains d s1 where "debit (gift_debit u q) True s = (Inr d, s1)"
    "settle_all env u dto q (mr_transactionId d) now (gq_receivers q) s1 = (Inr rows, s')" "gives u q (gq_receivers q) s1 s'"
proof -
  from assms(1) have run: "send_body env h u dto q now s = (Inr (rows, Some eff), s')" by (simp add: send_commit_Inr)
  then obtain d s1 s2 where d: "debit (gift_debit u q) True s = (Inr d, s1)"
    and r: "routing h (routed dto u q) s1 = (Inr eff, s2)"
    and st: "settle_all env u dto q (mr_transactionId d) now (gq_receivers q) s2 = (Inr rows, s')" by (rule send_bodyE)
  have s2: "s2 = s1" using r assms(2) by (simp add: routing_def)
  note e = debit_or_replay [OF assms(3,4) d]
  show thesis using that [OF d st [unfolded s2] settle_all_gives [OF st [unfolded s2] e(2,4)]] .
qed

text \<open>
  C6: A gift whose context routes no coins, to receivers whose shares were not paid under its key, gives every
  receiver its share when it goes through, records one row per receiver and changes nobody else's balance. Under
  a new debit key the sender, who had it, pays the cost; under a key that was debited before - the same client
  key sent to other receivers - the sender pays nothing and the receivers get their shares all the same.
\<close>

theorem gift_settles_exactly:
  assumes "send_commit env h u dto q now s = (Inr (rows, Some eff), s')" "gh_onSend h = None" "wf_db s"
    "new_shares u q (gq_receivers q) s"
  shows "(\<forall>v c. user_balance s' v c = user_balance s v c -
      (if v = u \<and> c = GOLD \<and> txns s (m_key (gift_debit u q)) = None then gift_cost q else 0) +
      (if v \<in> set (gq_receivers q) then share q c else 0)) \<and>
    (txns s (m_key (gift_debit u q)) = None \<longrightarrow> gift_cost q \<le> user_balance s u GOLD) \<and>
    gift_txns s' = gift_txns s @ rows \<and> map gt_receiverId rows = gq_receivers q \<and>
    (\<forall>t\<in>set rows. gt_senderId t = u \<and> gt_totalCoinValue t = gq_perReceiver q \<and> gt_creatorEarnings t = gq_earnings q \<and>
       gt_cashbackAmount t = gq_cashback q)"
proof -
  obtain d s1 where d: "debit (gift_debit u q) True s = (Inr d, s1)"
    and st: "settle_all env u dto q (mr_transactionId d) now (gq_receivers q) s1 = (Inr rows, s')"
    and g: "gives u q (gq_receivers q) s1 s'" using send_parts [OF assms] .
  note e = debit_or_replay [OF assms(3,4) d] and w = settle_all_rows [OF st]
  have "gift_txns s1 = gift_txns s" using e(3) by (rule gift_txns_more)
  moreover have "map gt_receiverId rows = gq_receivers q"
    using w by (auto simp: list_all2_conv_all_nth row_of_def gift_row_def intro!: nth_equalityI)
  moreover have "\<forall>t\<in>set rows. \<exists>r. row_of u dto q (mr_transactionId d) now r t"
    using w by (metis list_all2_conv_all_nth in_set_conv_nth)
  then have "\<forall>t\<in>set rows. gt_senderId t = u \<and> gt_totalCoinValue t = gq_perReceiver q \<and> gt_creatorEarnings t = gq_earnings q \<and>
       gt_cashbackAmount t = gq_cashback q" by (auto simp: row_of_def gift_row_def)
  moreover have "gift_cost q \<le> user_balance s u GOLD" if "txns s (m_key (gift_debit u q)) = None"
    using that assms(4) debit_for_gift(5) [OF assms(3) _ d] by (simp add: new_gift_def)
  ultimately show ?thesis using e(1) g w by (auto simp: gives_def charge_def)
qed

section \<open>Charged once\<close>

lemma first_row:
  assumes "findTxnByIdempotencyKey k s = None" "gift_txns s' = gift_txns s @ t # ts" "gt_idempotencyKey t = k"
  shows "findTxnByIdempotencyKey k s' = Some t"
  using assms by (auto simp: findTxnByIdempotencyKey_def find_app)


section \<open>A gift in an audio room\<close>

text \<open>The steps that leave the sessions and boxes alone.\<close>

definition same_boxes :: "('z treasure_db_scheme) \<Rightarrow> ('z treasure_db_scheme) \<Rightarrow> bool" where
  "same_boxes s s' \<longleftrightarrow> tsessions s' = tsessions s \<and> tboxes s' = tboxes s"

interpretation still: step_order same_boxes
  by unfold_locales (simp_all add: same_boxes_def)

lemma still_credit: "still.ok (credit m j :: ('z treasure_db_scheme, movement_result) act)"
  by (rule still.okI) (auto simp: same_boxes_def dest!: reward_only.okD [OF same_treasure_credit] same_treasure_sel)

lemma still_rows: "still.ok drawId" "still.ok (createTransaction t)" "still.ok (give_frame env g r now)"
  by (auto simp: still.ok_def same_boxes_def drawId_def createTransaction_def give_frame_def frame_cosmetic_def bindA_def
      modifyA_def split: option.split)

lemma still_settle_one: "still.ok (settle_one env u dto q d now r)"
  unfolding settle_one_def by (auto intro!: still.ok_bind still.ok_if still_credit still_rows)

lemma still_settle: "still.ok (settle_all env u dto q d now rs)"
  by (induction rs) (auto intro!: still.ok_bind still_settle_one)

lemma same_tables_open:
  assumes "tsessions s' = tsessions s" "tboxes s' = tboxes s"
  shows "open_today room i th w now s' = open_today room i th w now s"
  using assms by (simp add: open_today_def stands_def session_by_def box_by_level_def active_session_def completed_since_def)

lemma same_client_boxes:
  assumes "wdb.more s' = wdb.more s"
  shows "open_today room i th w now s' = open_today room i th w now s" "already_contributed g s' = already_contributed g s"
    "items_only s' = items_only s"
proof -
  have "tsessions s' = tsessions s" "tboxes s' = tboxes s" "contributions s' = contributions s" "box_configs s' = box_configs s"
    using assms by (cases s; cases s'; simp)+
  then show "open_today room i th w now s' = open_today room i th w now s" "already_contributed g s' = already_contributed g s"
    "items_only s' = items_only s"
    by (simp_all add: same_tables_open [of s' s] already_contributed_def items_only_def)
qed

lemma refund_key [simp]:
  "m_key (overflow_refund rq x) \<notin> share_keys u q r" "m_key (overflow_refund rq x) \<noteq> m_key (gift_debit u q)"
  "m_userId (overflow_refund rq x) = rq_senderId rq" "m_currency (overflow_refund rq x) = GOLD"
  "m_amount (overflow_refund rq x) = of_int x"
  by (simp_all add: share_keys_def overflow_refund_def gift_earning_def gift_cashback_def gift_debit_def)

lemma room_routing_effect:
  assumes run: "room_onSend now rq s = (Inr eff, s')" and rs: "rq_receiverIds rq = [v]" and wf: "wf_db s" and io: "items_only s"
    and op: "open_today (rq_contextId rq) i th w now s" and new: "already_contributed (rq_transactionId rq) s = None"
    and amt: "0 \<le> rq_totalCoinValue rq" "rq_totalCoinValue rq \<le> 2 ^ 53"
    and key: "m_key (overflow_refund rq 0) \<notin> dom (txns s)"
  shows "wf_db s'" "dom (txns s') \<subseteq> insert (m_key (overflow_refund rq 0)) (dom (txns s))"
    "stands i th (min (capacity th) (w + rq_totalCoinValue rq)) s'"
    "user_balance s' x c = user_balance s x c +
      (if x = rq_senderId rq \<and> c = GOLD then rq_totalCoinValue rq - min (capacity th - w) (rq_totalCoinValue rq) else 0)"
proof -
  obtain co s1 where co: "processTreasureContribution (rq_contextId rq) (rq_senderId rq) v (rq_totalCoinValue rq)
      (rq_transactionId rq) now s = (Inr co, s1)"
    and pay: "(if 0 < co_refund co then \<exists>y. credit (overflow_refund rq (co_refund co)) True s1 = (Inr y, s') else s' = s1)"
    using run rs unfolding room_onSend_def by (auto simp: bindA_Inr Let_def split: if_splits)
  have b: "same_balances s s1" "wf_db s1"
    using in_room.okD [OF room_contribution co] io wf by (auto simp: room_step_def)
  note f = contribution_fills_container [OF op new amt co]
  have k: "m_key (overflow_refund rq n) = m_key (overflow_refund rq 0)" for n by (simp add: overflow_refund_def)
  have new1: "txns s1 (m_key (overflow_refund rq (co_refund co))) = None"
    using key b(1) k [of "co_refund co"] by (auto simp: same_balances_def domIff)
  have still: "same_boxes s1 s'" using pay
    by (auto split: if_splits dest: still.okD [OF still_credit] intro: still.refl_step)
  show "stands i th (min (capacity th) (w + rq_totalCoinValue rq)) s'"
    using f still stands_frame [of s' s1] by (simp add: same_boxes_def)
  have "wf_db s' \<and> dom (txns s') \<subseteq> insert (m_key (overflow_refund rq 0)) (dom (txns s1)) \<and>
    user_balance s' x c = user_balance s1 x c + (if x = rq_senderId rq \<and> c = GOLD then co_refund co else 0)"
  proof (cases "0 < co_refund co")
    case True
    then obtain y where "credit (overflow_refund rq (co_refund co)) True s1 = (Inr y, s')" using pay by auto
    from credit_effect [OF b(2) new1 this] k [of "co_refund co"] show ?thesis by auto
  next
    case False
    then show ?thesis using pay b(2) f by auto
  qed
  then show "wf_db s'" "dom (txns s') \<subseteq> insert (m_key (overflow_refund rq 0)) (dom (txns s))"
    "user_balance s' x c = user_balance s x c +
      (if x = rq_senderId rq \<and> c = GOLD then rq_totalCoinValue rq - min (capacity th - w) (rq_totalCoinValue rq) else 0)"
    using b(1) f by (auto simp: same_balances_def)
qed

text \<open>
  C8: A gift under a new key, to one receiver in an audio room with an open session of today whose boxes are not all
  full and give items only: the sender pays for what the boxes take, no more, the receiver gets its share of
  the whole gift, and the boxes hold that much more.
\<close>

theorem room_gift_pays_for_boxes:
  assumes "send_commit env (roomHandler env now) u dto q now s = (Inr (rows, Some eff), s')" "wf_db s" "new_gift u q s"
    "gq_receivers q = [v]" "txns s (m_key (overflow_refund (routed dto u q) 0)) = None" "items_only s"
    "open_today (gd_contextId dto) i th w now s" "already_contributed (gq_txnId q) s = None"
    "0 \<le> gq_each q" "gq_each q \<le> 2 ^ 53"
  shows "stands i th (min (capacity th) (w + gq_each q)) s' \<and>
    (\<forall>x c. user_balance s' x c = user_balance s x c -
      (if x = u \<and> c = GOLD then min (capacity th - w) (gq_each q) else 0) + (if x = v then share q c else 0))"
proof -
  from assms(1) have run: "send_body env (roomHandler env now) u dto q now s = (Inr (rows, Some eff), s')"
    by (simp add: send_commit_Inr)
  then obtain d s1 s2 where d: "debit (gift_debit u q) True s = (Inr d, s1)"
    and r: "routing (roomHandler env now) (routed dto u q) s1 = (Inr eff, s2)"
    and st: "settle_all env u dto q (mr_transactionId d) now (gq_receivers q) s2 = (Inr rows, s')" by (rule send_bodyE)
  have on: "room_onSend now (routed dto u q) s1 = (Inr eff, s2)" using r by (simp add: routing_def roomHandler_def)
  note e = debit_for_gift [OF assms(2,3) d]
  have sel: "rq_receiverIds (routed dto u q) = [v]" "rq_contextId (routed dto u q) = gd_contextId dto"
    "rq_transactionId (routed dto u q) = gq_txnId q" "rq_totalCoinValue (routed dto u q) = gq_each q"
    "rq_senderId (routed dto u q) = u" "gift_cost q = gq_each q"
    using assms(4) by (simp_all add: routed_def gift_cost_def)
  have key: "m_key (overflow_refund (routed dto u q) 0) \<notin> dom (txns s1)" using e(6) assms(5) by auto
  note sb = same_client_boxes [OF e(3)]
  have "items_only s1" "open_today (rq_contextId (routed dto u q)) i th w now s1"
    "already_contributed (rq_transactionId (routed dto u q)) s1 = None"
    using assms(6-8) sb sel by simp_all
  note f = room_routing_effect [OF on sel(1) e(2) this _ _ key, unfolded sel, OF assms(9,10)]
  have "new_shares u q (gq_receivers q) s2"
    using e(4) f(2) refund_key(1) [of "routed dto u q" 0 u q] unfolding new_shares_def by blast
  then have g: "gives u q [v] s2 s'" using settle_all_gives [OF st f(1)] assms(4) by simp
  have "same_boxes s2 s'" using st by (rule still.okD [OF still_settle])
  then have "stands i th (min (capacity th) (w + gq_each q)) s'" using f(3) stands_frame [of s' s2] by (simp add: same_boxes_def)
  then show ?thesis using g f(4) e(1) sel(6) by (simp add: gives_def)
qed

end
