(* ===== verification/GiftLiveness.thy ===== *)
theory GiftLiveness
  imports GiftProperties
begin

text \<open>
  A gift goes through: the order \<open>sound_books\<close> keeps the wallets sound and their statuses, so that every credit of the
  settlement finds what it needs, and the keys of the rows are apart.
\<close>

section \<open>Sound wallets\<close>

definition sound_books :: "('z wdb_scheme) \<Rightarrow> bool" where
  "sound_books s \<longleftrightarrow> wf_db s \<and> solvent s"

definition sound_step :: "('z wdb_scheme) \<Rightarrow> ('z wdb_scheme) \<Rightarrow> bool" where
  "sound_step s s' \<longleftrightarrow> (sound_books s \<longrightarrow> sound_books s' \<and> user_status s' = user_status s)"

interpretation safe: step_order sound_step
  by unfold_locales (auto simp: sound_step_def)

lemma safe_move: "safe.ok (move ty m j)"
  by (rule safe.okI) (auto simp: sound_step_def sound_books_def fun_eq_iff dest: move_keeps move_status)

lemma safe_rowsI:
  assumes "\<And>s. wallets (snd (m s)) = wallets s" "\<And>s. wallet_of (snd (m s)) = wallet_of s"
    "\<And>s. txns (snd (m s)) = txns s" "\<And>s. ledger (snd (m s)) = ledger s" "\<And>s. next_id s \<le> next_id (snd (m s))"
  shows "safe.ok m"
  unfolding safe.ok_def
proof
  fix s
  have "wf_db s \<longrightarrow> wf_db (snd (m s))" using no_moneyI [of m, OF assms] by (simp add: no_money.ok_def same_balances_def)
  then show "sound_step s (snd (m s))"
    using assms by (simp add: sound_step_def sound_books_def solvent_def user_status_def [abs_def] walletByUser_def)
qed

lemma safe_rows: "safe.ok drawId" "safe.ok (createTransaction t)" "safe.ok (give_frame env g r now)"
  by (intro safe_rowsI; simp add: drawId_def createTransaction_def give_frame_def frame_cosmetic_def bindA_def modifyA_def
      split: option.split)+

lemma safe_settle_one: "safe.ok (settle_one env u dto q d now r)"
  unfolding settle_one_def credit_def by (auto intro!: safe.ok_bind safe.ok_if safe_move safe_rows)

section \<open>Every step of a settlement returns\<close>

definition returns :: "('s, 'a) act \<Rightarrow> 's \<Rightarrow> bool" where
  "returns m s \<longleftrightarrow> (\<exists>a s'. m s = (Inr a, s'))"

lemma returnsI: "m s = (Inr a, s') \<Longrightarrow> returns m s"
  by (auto simp: returns_def)

lemma returns_bind: "returns m s \<Longrightarrow> (\<And>a s'. m s = (Inr a, s') \<Longrightarrow> returns (k a) s') \<Longrightarrow> returns (bindA m k) s"
  by (auto simp: returns_def bindA_def)

lemma returns_return [simp]: "returns (returnA a) s"
  by (simp add: returns_def)

lemma returns_credit: "sound_books s \<Longrightarrow> user_status s (m_userId m) = ACTIVE \<Longrightarrow> m_amount m = of_int n \<Longrightarrow> 0 < n \<Longrightarrow>
    returns (credit m j) s"
  by (rule credit_ok [of s m j]) (auto simp: sound_books_def isInteger_def intro: returnsI)

definition free_key :: "gift_quote \<Rightarrow> uid \<Rightarrow> ('z gift_db_scheme) \<Rightarrow> bool" where
  "free_key q r s \<longleftrightarrow> findTxnByIdempotencyKey (ledgerKeyFor (gq_key q) (gq_receivers q) r) s = None"

lemma free_key_same: "gift_txns s' = gift_txns s \<Longrightarrow> free_key q r s' = free_key q r s"
  by (simp add: free_key_def findTxnByIdempotencyKey_def)

lemma settle_one_returns:
  assumes "sound_books s" "user_status s r = ACTIVE" "free_key q r s"
  shows "returns (settle_one env u dto q d now r) s"
proof -
  let ?earn = "if 0 < gq_earnings q then bindA (credit (gift_earning u q r) True) (\<lambda>c. returnA (Some (mr_transactionId c)))
        else returnA None"
  let ?cash = "if 0 < gq_cashback q then bindA (credit (gift_cashback u q r) True) (\<lambda>_. returnA ()) else returnA ()"
  let ?rest = "\<lambda>cr. bindA (if 1 < length (gq_receivers q) then drawId else returnA (gq_txnId q)) (\<lambda>i.
     bindA (createTransaction (gift_row u dto q d cr now r i)) (\<lambda>t.
     bindA (if gf_type (gq_gift q) = G_PROFILE_FRAME then give_frame env (gq_gift q) r now else returnA ()) (\<lambda>_.
     returnA t)))"
  have step: "sound_books s2 \<and> user_status s2 r = ACTIVE \<and> gift_txns s2 = gift_txns s1"
    if "credit m True s1 = (Inr x, s2)" "sound_books s1" "user_status s1 r = ACTIVE" for m x and s1 s2 :: "'a gift_db_scheme"
    using safe.okD [OF safe_move that(1) [unfolded credit_def]] move_gift_txns [OF that(1) [unfolded credit_def]] that(2,3)
    by (simp add: sound_step_def)
  have earn: "returns ?earn s"
    using assms by (auto intro!: returns_bind returns_credit [of _ _ "gq_earnings q"])
  have mid: "sound_books s1 \<and> user_status s1 r = ACTIVE \<and> gift_txns s1 = gift_txns s" if "?earn s = (Inr cr, s1)" for cr s1
    using that step assms(1,2) by (auto simp: bindA_Inr split: if_splits)
  have cash: "returns ?cash s1" if "?earn s = (Inr cr, s1)" for cr s1
    using mid [OF that] by (auto intro!: returns_bind returns_credit [of _ _ "gq_cashback q"])
  have rest: "returns (?rest cr) s2" if "?earn s = (Inr cr, s1)" "?cash s1 = (Inr (), s2)" for cr s1 s2
  proof -
    have "gift_txns s2 = gift_txns s" using mid [OF that(1)] that(2) step by (auto simp: bindA_Inr split: if_splits)
    then have free: "free_key q r s2" using assms(3) by (simp add: free_key_def findTxnByIdempotencyKey_def)
    have "gt_idempotencyKey (gift_row u dto q d cr now r i) = ledgerKeyFor (gq_key q) (gq_receivers q) r" for i
      by (simp add: gift_row_def)
    then show ?thesis using free
      by (auto simp: returns_def bindA_def drawId_def returnA_def createTransaction_def free_key_def give_frame_def
          findTxnByIdempotencyKey_def frame_cosmetic_def modifyA_def split: option.split)
  qed
  show ?thesis
    unfolding settle_one_def
  proof (rule returns_bind [OF earn], rule returns_bind)
    fix cr s1 x s2
    assume e: "?earn s = (Inr cr, s1)"
    then show "returns ?cash s1" by (rule cash)
    assume "?cash s1 = (Inr x, s2)"
    then show "returns (?rest cr) s2" using rest [OF e] by simp
  qed
qed

lemma ledgerKeyFor_inj:
  assumes "r \<in> set rs" "r' \<in> set rs" "r \<noteq> r'"
  shows "ledgerKeyFor k rs r \<noteq> ledgerKeyFor k rs r'"
proof -
  have "1 < length rs" using assms by (cases rs; cases "tl rs") auto
  then show ?thesis using assms(3) by (simp add: ledgerKeyFor_def)
qed

lemma settle_all_returns:
  assumes "sound_books s" "distinct rs" "set rs \<subseteq> set (gq_receivers q)" "\<forall>r\<in>set rs. user_status s r = ACTIVE \<and> free_key q r s"
  shows "returns (settle_all env u dto q d now rs) s"
  using assms
proof (induction rs arbitrary: s)
  case (Cons r rs)
  have "returns (settle_one env u dto q d now r) s" using Cons.prems by (intro settle_one_returns) auto
  moreover have "returns (settle_all env u dto q d now rs) s1" if one: "settle_one env u dto q d now r s = (Inr t, s1)" for t s1
  proof (rule Cons.IH)
    have ok: "sound_books s1" "user_status s1 = user_status s"
      using safe.okD [OF safe_settle_one one] Cons.prems(1) by (simp_all add: sound_step_def)
    then show "sound_books s1" by simp
    note row = settle_one_row [OF one]
    have "free_key q r' s1" if "r' \<in> set rs" for r'
    proof -
      have "ledgerKeyFor (gq_key q) (gq_receivers q) r \<noteq> ledgerKeyFor (gq_key q) (gq_receivers q) r'"
        using that Cons.prems(2,3) by (intro ledgerKeyFor_inj) auto
      then show ?thesis using row(1,2) that Cons.prems(4)
        by (auto simp: free_key_def findTxnByIdempotencyKey_def find_app row_of_def gift_row_def)
    qed
    then show "\<forall>r\<in>set rs. user_status s1 r = ACTIVE \<and> free_key q r s1" using ok Cons.prems(4) by simp
  qed (use Cons.prems in auto)
  ultimately show ?case by (auto intro!: returns_bind)
qed simp

section \<open>A gift goes through\<close>

lemma debit_returns:
  assumes wf: "wf_db s" and fresh: "txns s (m_key m) = None" and ok: "accepts s DEBIT m"
  shows "returns (debit m j) s"
proof -
  obtain r s' where run: "move DEBIT m j s = (r, s')" by fastforce
  from wf fresh run show ?thesis
  proof (cases rule: move_fresh)
    case (thrown e w)
    have "balance_of (m_currency m) w = user_balance s (m_userId m) (m_currency m)"
      using wallet_user_balance [OF wf_ensured [OF wf] thrown(4)] thrown(5) wf by simp
    then show ?thesis using thrown(6) ok ensured_status [OF wf thrown(4,5)] by (simp add: accepts_def)
  next
    case (effect w x)
    then show ?thesis using run by (auto simp: debit_def returns_def)
  qed
qed

text \<open>
  C9: A gift of a positive cost commits when the economy is open, the sender can pay and its wallet and those
  of the receivers are active, the key is new, and its context routes no coins.
\<close>

theorem gift_goes_through:
  assumes "wf_db s" "solvent s" "\<not> economyFrozen s" "walletEnabled s" "gh_onSend h = None"
    "user_status s u = ACTIVE" "0 < gift_cost q" "gift_cost q \<le> user_balance s u GOLD"
    "txns s (m_key (gift_debit u q)) = None" "distinct (gq_receivers q)"
    "\<forall>r\<in>set (gq_receivers q). user_status s r = ACTIVE \<and>
       findTxnByIdempotencyKey (ledgerKeyFor (gq_key q) (gq_receivers q) r) s = None"
  shows "\<exists>rows eff s'. send_commit env h u dto q now s = (Inr (rows, Some eff), s')"
proof -
  have ne: "gq_receivers q \<noteq> []" using assms(7) by (auto simp: gift_cost_def)
  have "accepts s DEBIT (gift_debit u q)"
    using assms(3,4,6-8) by (simp add: accepts_def delta_def isInteger_def)
  then obtain d s1 where d: "debit (gift_debit u q) True s = (Inr d, s1)"
    using debit_returns [OF assms(1,9), of True] by (auto simp: returns_def)
  have s1: "sound_books s1" "user_status s1 = user_status s" "gift_txns s1 = gift_txns s"
    using safe.okD [OF safe_move d [unfolded debit_def]] move_gift_txns [OF d [unfolded debit_def]] assms(1,2)
    by (simp_all add: sound_step_def sound_books_def)
  have "\<forall>r\<in>set (gq_receivers q). user_status s1 r = ACTIVE \<and> free_key q r s1"
    using assms(11) s1(2,3) by (simp add: free_key_def findTxnByIdempotencyKey_def)
  then obtain rows s' where "settle_all env u dto q (mr_transactionId d) now (gq_receivers q) s1 = (Inr rows, s')"
    using settle_all_returns [OF s1(1) assms(10) subset_refl, of env u dto "mr_transactionId d" now]
    by (auto simp: returns_def)
  moreover have "findTxnByIdempotencyKey (ledgerKeyFor (gq_key q) (gq_receivers q) (hd (gq_receivers q))) s = None"
    using assms(11) ne by simp
  ultimately have "\<exists>eff. send_body env h u dto q now s = (Inr (rows, Some eff), s')"
    using d assms(5) by (simp add: send_body_def bindA_def getsA_def routing_def returnA_def)
  then show ?thesis by (auto simp: send_commit_Inr)
qed

end
