(* ===== verification/GiftSamples.thy ===== *)
theory GiftSamples
  imports GiftLiveness TreasureChampions
begin

text \<open>The properties of the gifts at work: a shop with one rose, a topped_up sender, and a room with open boxes.\<close>

section \<open>A shop\<close>

definition rose :: gift where
  "rose = \<lparr>gf_id = 3, gf_name = ''Rose'', gf_type = G_STATIC, gf_coinValue = 20, gf_thumbnailUrl = None, gf_animationUrl = None,
     gf_minVipLevel = 0, gf_comboEnabled = False, gf_comboWindowSeconds = 0, gf_luckyMultipliers = [],
     gf_luckyWinChanceBp = 0, gf_enabled = True, gf_ttlValue = None, gf_ttlUnit = None\<rparr>"

definition gift_shop :: "treasure_db \<Rightarrow> gift_db" where
  "gift_shop r = treasure_db.extend r \<lparr>gifts = [rose], gift_txns = [], combos = Map.empty, rates = Map.empty,
     boards = (\<lambda>_. 0), gift_bus = [], gift_jobs = []\<rparr>"

definition topup :: movement where
  "topup = \<lparr>m_userId = 7, m_currency = GOLD, m_amount = 5000, m_reason = CASINO_REFUND, m_key = ''topup'',
     m_referenceType = None, m_referenceId = None, m_actorId = None\<rparr>"

definition topped_up :: "treasure_db \<Rightarrow> gift_db" where
  "topped_up r = snd (credit topup True (gift_shop r))"

definition gift_env_sample :: gift_env where
  "gift_env_sample = \<lparr>ge_earningsPercent = None, ge_cashbackPercent = None, ge_cashbackThreshold = None,
     ge_senderExpPerCoin = 1, ge_receiverExpPerCoin = 1, ge_rateMax = 30, ge_rateWindowSeconds = 10,
     ge_level = (\<lambda>_. 0), ge_resolve = id, ge_isRoomLive = (\<lambda>_. True), ge_isMember = (\<lambda>_ _. True),
     ge_everMember = (\<lambda>_ _. True), ge_userExists = (\<lambda>_. True), ge_conversation = (\<lambda>_ _. Inl (Business [])),
     ge_blockedEitherWay = (\<lambda>_ _. False)\<rparr>"

definition gift_dto_sample :: "uid list \<Rightarrow> gift_dto" where
  "gift_dto_sample rs = \<lparr>gd_giftId = 3, gd_receiverIds = rs, gd_contextType = IN_PK_BATTLE, gd_contextId = 4, gd_quantity = 1,
     gd_idempotencyKey = Some '' tap ''\<rparr>"

definition sample_quote :: "uid list \<Rightarrow> int \<Rightarrow> gift_quote" where
  "sample_quote rs v = \<lparr>gq_key = ''tap'', gq_gift = rose, gq_receivers = rs, gq_comboTier = 1, gq_multiplier = 1,
     gq_win = False, gq_rules = settlementRules gift_env_sample, gq_perReceiver = v, gq_senderExp = v, gq_receiverExp = v,
     gq_txnId = 77\<rparr>"

lemma gift_shop_tables:
  "tsessions (gift_shop r) = tsessions r" "tboxes (gift_shop r) = tboxes r" "contributions (gift_shop r) = contributions r"
  "box_configs (gift_shop r) = box_configs r" "wallets (gift_shop r) = wallets r" "wallet_of (gift_shop r) = wallet_of r"
  "txns (gift_shop r) = txns r" "ledger (gift_shop r) = ledger r" "next_id (gift_shop r) = next_id r"
  by (simp_all add: gift_shop_def treasure_db.defs)

lemma topped_up_sound:
  assumes "wf_db r" "solvent r"
  shows "wf_db (topped_up r)" "solvent (topped_up r)"
proof -
  have s: "wf_db (gift_shop r)" "solvent (gift_shop r)" using assms unfolding wf_db_def solvent_def gift_shop_tables by blast+
  note k = move_keeps [OF s(1) surjective_pairing, of CREDIT topup True]
  show "wf_db (topped_up r)" "solvent (topped_up r)" using k(1,3) s(2) by (simp_all only: topped_up_def credit_def)
qed

lemma quiet_room_sound: "wf_db quiet_room" "solvent quiet_room"
  by (simp_all add: quiet_room_def init_db_def wf_db_def solvent_def treasure_db.defs item_db.defs wdb.defs)

lemma shares_free:
  assumes "distinct (gq_receivers q)" "txns s (m_key (gift_debit u q)) = None"
    "\<forall>r\<in>set (gq_receivers q). txns s (m_key (gift_earning u q r)) = None \<and> txns s (m_key (gift_cashback u q r)) = None"
  shows "new_gift u q s"
  using assms by (auto simp: new_gift_def new_shares_def share_keys_def)

definition shop :: gift_db where
  "shop = topped_up quiet_room"

lemma shop_ready: "new_gift 7 (sample_quote [8, 9] 2000) shop"
proof (rule shares_free)
  have "list_all (\<lambda>r. txns shop (m_key (gift_earning 7 (sample_quote [8, 9] 2000) r)) = None \<and>
      txns shop (m_key (gift_cashback 7 (sample_quote [8, 9] 2000) r)) = None) [8, 9]" by code_simp
  then show "\<forall>r\<in>set (gq_receivers (sample_quote [8, 9] 2000)). txns shop (m_key (gift_earning 7 (sample_quote [8, 9] 2000) r)) = None \<and>
      txns shop (m_key (gift_cashback 7 (sample_quote [8, 9] 2000) r)) = None"
    by (simp add: sample_quote_def)
  show "txns shop (m_key (gift_debit 7 (sample_quote [8, 9] 2000))) = None" by code_simp
qed (simp add: sample_quote_def)

definition sent :: "gift_db" where
  "sent = snd (send_commit gift_env_sample defaultHandler 7 (gift_dto_sample [8, 9]) (sample_quote [8, 9] 2000) 500 shop)"

lemma sent_run:
  obtains rows eff where "send_commit gift_env_sample defaultHandler 7 (gift_dto_sample [8, 9]) (sample_quote [8, 9] 2000) 500 shop =
    (Inr (rows, Some eff), sent)" "map gt_idempotencyKey rows = [''tap:8'', ''tap:9'']"
proof -
  have "case fst (send_commit gift_env_sample defaultHandler 7 (gift_dto_sample [8, 9]) (sample_quote [8, 9] 2000) 500 shop) of
      Inr (rows, Some eff) \<Rightarrow> map gt_idempotencyKey rows = [''tap:8'', ''tap:9''] | _ \<Rightarrow> False" by code_simp
  then show thesis using that
    by (cases "send_commit gift_env_sample defaultHandler 7 (gift_dto_sample [8, 9]) (sample_quote [8, 9] 2000) 500 shop")
      (auto simp: sent_def split: sum.splits option.splits prod.splits)
qed

lemma sent_figures:
  "user_balance shop 7 GOLD = 5000" "user_balance shop 8 DIAMOND = 0" "gift_cost (sample_quote [8, 9] 2000) = 4000"
  "share (sample_quote [8, 9] 2000) DIAMOND = 1000" "share (sample_quote [8, 9] 2000) GOLD = 200"
  "\<not> economyFrozen shop" "walletEnabled shop" "user_status shop 7 = ACTIVE" "user_status shop 8 = ACTIVE"
  "user_status shop 9 = ACTIVE" "findTxnByIdempotencyKey (ledgerKeyFor ''tap'' [8, 9] 8) shop = None"
  "findTxnByIdempotencyKey (ledgerKeyFor ''tap'' [8, 9] 9) shop = None"
  by code_simp+

lemma sample_receivers [simp]: "gq_receivers (sample_quote rs v) = rs" "gq_key (sample_quote rs v) = ''tap''"
  by (simp_all add: sample_quote_def)

text \<open>The same client key, sent to two others: nobody pays.\<close>

definition resent :: gift_db where
  "resent = snd (send_commit gift_env_sample defaultHandler 7 (gift_dto_sample [10, 11]) (sample_quote [10, 11] 2000) 600 sent)"

lemma resent_ready: "new_shares 7 (sample_quote [10, 11] 2000) [10, 11] sent"
  "txns sent (m_key (gift_debit 7 (sample_quote [10, 11] 2000))) \<noteq> None"
proof -
  have "list_all (\<lambda>r. txns sent (m_key (gift_earning 7 (sample_quote [10, 11] 2000) r)) = None \<and>
      txns sent (m_key (gift_cashback 7 (sample_quote [10, 11] 2000) r)) = None) [10, 11]" by code_simp
  then show "new_shares 7 (sample_quote [10, 11] 2000) [10, 11] sent"
    by (auto simp: new_shares_def share_keys_def)
  have "case txns sent (m_key (gift_debit 7 (sample_quote [10, 11] 2000))) of None \<Rightarrow> False | Some _ \<Rightarrow> True" by code_simp
  then show "txns sent (m_key (gift_debit 7 (sample_quote [10, 11] 2000))) \<noteq> None" by (auto split: option.splits)
qed

lemma resent_run:
  obtains rows eff where "send_commit gift_env_sample defaultHandler 7 (gift_dto_sample [10, 11]) (sample_quote [10, 11] 2000) 600 sent =
    (Inr (rows, Some eff), resent)"
proof -
  have "case fst (send_commit gift_env_sample defaultHandler 7 (gift_dto_sample [10, 11]) (sample_quote [10, 11] 2000) 600 sent) of
      Inr (rows, Some eff) \<Rightarrow> True | _ \<Rightarrow> False" by code_simp
  then show thesis using that
    by (cases "send_commit gift_env_sample defaultHandler 7 (gift_dto_sample [10, 11]) (sample_quote [10, 11] 2000) 600 sent")
      (auto simp: resent_def split: sum.splits option.splits prod.splits)
qed

theorem gift_settles_exactly_witness:
  "user_balance sent 7 GOLD = 1000 \<and> user_balance sent 8 DIAMOND = 1000 \<and>
   user_balance sent 7 DIAMOND = user_balance shop 7 DIAMOND \<and>
   user_balance resent 7 GOLD = 1000 \<and> user_balance resent 10 DIAMOND = user_balance sent 10 DIAMOND + 1000"
proof -
  obtain rows eff where r: "send_commit gift_env_sample defaultHandler 7 (gift_dto_sample [8, 9]) (sample_quote [8, 9] 2000) 500 shop =
    (Inr (rows, Some eff), sent)" using sent_run .
  obtain rows' eff' where r': "send_commit gift_env_sample defaultHandler 7 (gift_dto_sample [10, 11]) (sample_quote [10, 11] 2000) 600 sent =
    (Inr (rows', Some eff'), resent)" using resent_run .
  have h: "gh_onSend (defaultHandler :: unit gift_handler) = None" by (simp add: defaultHandler_def)
  have wf: "wf_db shop" using topped_up_sound(1) [OF quiet_room_sound] by (simp add: shop_def)
  have new: "new_shares 7 (sample_quote [8, 9] 2000) (gq_receivers (sample_quote [8, 9] 2000)) shop"
    "txns shop (m_key (gift_debit 7 (sample_quote [8, 9] 2000))) = None" using shop_ready by (simp_all add: new_gift_def)
  have first: "wf_db sent" using send_parts [OF r h wf new(1)] by (auto simp: gives_def)
  have s: "user_balance sent 7 GOLD = 1000" "user_balance sent 8 DIAMOND = 1000" "user_balance sent 7 DIAMOND = user_balance shop 7 DIAMOND"
    using gift_settles_exactly [OF r h wf new(1)] new(2) by (simp_all add: sent_figures)
  moreover have "new_shares 7 (sample_quote [10, 11] 2000) (gq_receivers (sample_quote [10, 11] 2000)) sent" using resent_ready(1) by simp
  note again = gift_settles_exactly [OF r' h first this, THEN conjunct1, rule_format]
  have "share (sample_quote [10, 11] 2000) DIAMOND = 1000" by code_simp
  then have "user_balance resent 7 GOLD = 1000" "user_balance resent 10 DIAMOND = user_balance sent 10 DIAMOND + 1000"
    using again [of 7 GOLD] again [of 10 DIAMOND] resent_ready(2) s(1) by simp_all
  ultimately show ?thesis by simp
qed


theorem gift_goes_through_witness:
  "\<exists>rows eff s'. send_commit gift_env_sample defaultHandler 7 (gift_dto_sample [8, 9]) (sample_quote [8, 9] 2000) 500 shop =
     (Inr (rows, Some eff), s')"
proof (rule gift_goes_through)
  show "wf_db shop" "solvent shop" unfolding shop_def by (rule topped_up_sound [OF quiet_room_sound])+
  show "txns shop (m_key (gift_debit 7 (sample_quote [8, 9] 2000))) = None" using shop_ready by (simp add: new_gift_def)
qed (simp_all add: sent_figures defaultHandler_def)

section \<open>A room of item rewards\<close>

definition item_room :: treasure_db where
  "item_room = open_room\<lparr>box_configs := map (\<lambda>c. c\<lparr>bc_rewards := []\<rparr>) (box_configs open_room)\<rparr>"

lemma room_start: "in_room.ok (start_today env room own now)"
  unfolding start_today_def create_ladder_def create_level_def
  by (auto intro!: in_room.ok_bind in_room.ok_option in_room.ok_if in_room.ok_for room_rows room_publish)

lemma item_room_ok: "wf_db item_room" "open_today 4 1 sample_th 0 86400900 item_room" "items_only item_room"
  "already_contributed 77 item_room = None"
proof -
  have "wf_db open_room"
    using in_room.okD [OF room_start [of sample_room 4 None 86400500] surjective_pairing, of quiet_room] quiet_room_sound(1)
    by (simp add: room_step_def open_room_def)
  then show "wf_db item_room" by (simp add: item_room_def wf_db_def)
  show "open_today 4 1 sample_th 0 86400900 item_room"
    using open_room_open same_tables_open [of item_room open_room] by (simp add: item_room_def)
  show "items_only item_room" by (auto simp: items_only_def item_room_def)
  show "already_contributed 77 item_room = None"
    using open_room_uncounted by (simp add: already_contributed_def item_room_def)
qed

definition gift_room :: gift_db where
  "gift_room = topped_up item_room"

lemma gift_room_ok: "wf_db gift_room" "open_today 4 1 sample_th 0 86400900 gift_room" "items_only gift_room"
  "already_contributed 77 gift_room = None"
proof -
  have s: "wf_db (gift_shop item_room)" using item_room_ok(1) unfolding wf_db_def gift_shop_tables .
  show "wf_db gift_room"
    using move_keeps(1) [OF s surjective_pairing, of CREDIT topup True] by (simp only: gift_room_def topped_up_def credit_def)
  have m: "wdb.more gift_room = wdb.more (gift_shop item_room)"
    using wallet_only.okD [OF same_client_move [of CREDIT topup True] surjective_pairing, of "gift_shop item_room"]
    by (simp only: gift_room_def topped_up_def credit_def same_client_def)
  show "open_today 4 1 sample_th 0 86400900 gift_room"
    using item_room_ok(2) same_tables_open [of "gift_shop item_room" item_room]
    by (simp add: same_client_boxes [OF m] gift_shop_tables)
  show "items_only gift_room" "already_contributed 77 gift_room = None"
    using item_room_ok(3,4) unfolding same_client_boxes(2,3) [OF m]
    by (simp_all add: items_only_def already_contributed_def gift_shop_tables)
qed

definition poured :: gift_db where
  "poured = snd (send_commit gift_env_sample (roomHandler gift_env_sample 86400900) 7 (gift_dto_sample [8]) (sample_quote [8] 60) 86400900 gift_room)"

lemma poured_run:
  obtains rows eff where
    "send_commit gift_env_sample (roomHandler gift_env_sample 86400900) 7 (gift_dto_sample [8]) (sample_quote [8] 60) 86400900 gift_room =
      (Inr (rows, Some eff), poured)"
proof -
  have "case fst (send_commit gift_env_sample (roomHandler gift_env_sample 86400900) 7 (gift_dto_sample [8]) (sample_quote [8] 60) 86400900
      gift_room) of Inr (rows, Some eff) \<Rightarrow> True | _ \<Rightarrow> False" by code_simp
  then show thesis using that
    by (cases "send_commit gift_env_sample (roomHandler gift_env_sample 86400900) 7 (gift_dto_sample [8]) (sample_quote [8] 60) 86400900 gift_room")
      (auto simp: poured_def split: sum.splits option.splits prod.splits)
qed

lemma gift_room_ready: "new_gift 7 (sample_quote [8] 60) gift_room"
proof (rule shares_free)
  show "txns gift_room (m_key (gift_debit 7 (sample_quote [8] 60))) = None" by code_simp
  have "txns gift_room (m_key (gift_earning 7 (sample_quote [8] 60) 8)) = None"
    "txns gift_room (m_key (gift_cashback 7 (sample_quote [8] 60) 8)) = None" by code_simp+
  then show "\<forall>r\<in>set (gq_receivers (sample_quote [8] 60)). txns gift_room (m_key (gift_earning 7 (sample_quote [8] 60) r)) = None \<and>
      txns gift_room (m_key (gift_cashback 7 (sample_quote [8] 60) r)) = None" by simp
qed simp

text \<open>A gift of sixty coins to boxes that hold fifty costs fifty, and its receiver earns half of sixty.\<close>

theorem room_gift_pays_for_boxes_witness:
  "stands 1 sample_th 50 poured \<and> user_balance poured 7 GOLD = 4950 \<and> user_balance poured 8 DIAMOND = 30"
proof -
  obtain rows eff where r:
    "send_commit gift_env_sample (roomHandler gift_env_sample 86400900) 7 (gift_dto_sample [8]) (sample_quote [8] 60) 86400900 gift_room =
      (Inr (rows, Some eff), poured)" using poured_run .
  have k: "txns gift_room (m_key (overflow_refund (routed (gift_dto_sample [8]) 7 (sample_quote [8] 60)) 0)) = None"
    "gd_contextId (gift_dto_sample [8]) = 4" "gq_txnId (sample_quote [8] 60) = 77" "gq_each (sample_quote [8] 60) = 60"
    "user_balance gift_room 7 GOLD = 5000" "user_balance gift_room 8 DIAMOND = 0" "share (sample_quote [8] 60) DIAMOND = 30"
    by code_simp+
  show ?thesis
    using room_gift_pays_for_boxes [OF r gift_room_ok(1) gift_room_ready _ k(1) gift_room_ok(3), unfolded k(2-4),
        OF _ gift_room_ok(2,4)]
    by (simp add: sample_th_capacity k(5-7))
qed

end
