(* ===== verification/Attendance.thy ===== *)
theory Attendance
  imports WalletLaws
begin

text \<open>
  Attendance (src/modules/attendance): the daily reward. A claim reads the user's streak, decides which rung of
  the thirty-day ladder the calendar day is worth, pays its coins and records the claim in one transaction, and
  then asks for experience and a cosmetic. The tables extend the wallet's. A calendar date \<open>YYYY-MM-DD\<close> is its day
  number, whose text determines it; \<open>ae_local\<close> is the time-zone database: the local date of an instant.
  Times are milliseconds. The per-user lock can expire while a claim runs, so a claim is cut into what it
  reads (\<open>claim_check\<close>) and what it writes (\<open>claim_commit\<close>, \<open>claim_grants\<close>).
\<close>

section \<open>Tables\<close>

record rung =
  ru_day :: nat
  ru_coins :: int
  ru_currency :: currency
  ru_expAmount :: "int option"
  ru_cosmeticId :: "nat option"

record user_attendance =
  ua_currentDay :: nat
  ua_cycleCount :: nat
  ua_lastClaimDayKey :: "int option"
  ua_lastClaimAt :: "int option"
  ua_lastClaimTimezone :: "string option"
  ua_totalClaims :: nat

record attendance_claim =
  ac_userId :: uid
  ac_day :: nat
  ac_cycle :: nat
  ac_dayKey :: int
  ac_coins :: int
  ac_currency :: currency
  ac_expAmount :: "int option"
  ac_cosmeticId :: "nat option"
  ac_timezone :: string
  ac_claimedAt :: int

record att_db = wdb +
  rungs :: "rung list"
  attendances :: "uid \<Rightarrow> user_attendance option"
  att_claims :: "attendance_claim list"
  exp_asked :: "(uid \<times> int \<times> string) list"
  cosmetics_asked :: "(uid \<times> nat \<times> string) list"

text \<open>The configuration, the profile's country, the time zones, and what the experience and cosmetics modules answer.\<close>

record att_env =
  ae_enabled :: "bool option"
  ae_minHours :: "rat option"
  ae_country :: "uid \<Rightarrow> string option"
  ae_local :: "string \<Rightarrow> int \<Rightarrow> int"
  ae_expFails :: "uid \<Rightarrow> bool"
  ae_cosmetic :: "uid \<Rightarrow> nat \<Rightarrow> err + nat option"

section \<open>The calendar\<close>

definition HOUR :: int where
  "HOUR = 60 * 60 * 1000"

definition MINUTE :: int where
  "MINUTE = 60000"

definition MAX_PROBE_HOURS :: nat where
  "MAX_PROBE_HOURS = 27"

definition previousDayKey :: "int \<Rightarrow> int" where
  "previousDayKey d = d - 1"

fun probe_hours :: "(int \<Rightarrow> int) \<Rightarrow> int \<Rightarrow> nat \<Rightarrow> int \<Rightarrow> int option" where
  "probe_hours local today 0 cursor = None"
| "probe_hours local today (Suc n) cursor =
     (if local (cursor + HOUR) \<noteq> today then Some (cursor + HOUR) else probe_hours local today n (cursor + HOUR))"

function probe_minutes :: "(int \<Rightarrow> int) \<Rightarrow> int \<Rightarrow> int \<Rightarrow> int \<Rightarrow> int" where
  "probe_minutes local today lower cursor =
     (if lower < cursor
      then if local (lower + MINUTE) \<noteq> today then lower + MINUTE else probe_minutes local today (lower + MINUTE) cursor
      else cursor)"
  by pat_completeness auto

termination probe_minutes
  by (relation "measure (\<lambda>(_, _, lower, cursor). nat (cursor - lower))") (auto simp: MINUTE_def)

declare probe_minutes.simps [simp del]

definition nextBoundary :: "att_env \<Rightarrow> int \<Rightarrow> string \<Rightarrow> ('s, int) act" where
  "nextBoundary env now z =
     (let today = ae_local env z now
      in case probe_hours (ae_local env z) today MAX_PROBE_HOURS now of
           None \<Rightarrow> throwA (OtherError ''no calendar-day change found'')
         | Some cursor \<Rightarrow> returnA (probe_minutes (ae_local env z) today (cursor - HOUR) cursor))"

definition COUNTRY_TIMEZONES :: "(string \<times> string) list" where
  "COUNTRY_TIMEZONES =
     [(''IN'', ''Asia/Kolkata''), (''US'', ''America/New_York''), (''GB'', ''Europe/London''), (''AE'', ''Asia/Dubai''),
      (''SA'', ''Asia/Riyadh''), (''PK'', ''Asia/Karachi''), (''BD'', ''Asia/Dhaka''), (''LK'', ''Asia/Colombo''),
      (''NP'', ''Asia/Kathmandu''), (''ID'', ''Asia/Jakarta''), (''MY'', ''Asia/Kuala_Lumpur''), (''SG'', ''Asia/Singapore''),
      (''PH'', ''Asia/Manila''), (''TH'', ''Asia/Bangkok''), (''VN'', ''Asia/Ho_Chi_Minh''), (''CN'', ''Asia/Shanghai''),
      (''JP'', ''Asia/Tokyo''), (''KR'', ''Asia/Seoul''), (''AU'', ''Australia/Sydney''), (''NZ'', ''Pacific/Auckland''),
      (''CA'', ''America/Toronto''), (''BR'', ''America/Sao_Paulo''), (''MX'', ''America/Mexico_City''), (''DE'', ''Europe/Berlin''),
      (''FR'', ''Europe/Paris''), (''ES'', ''Europe/Madrid''), (''IT'', ''Europe/Rome''), (''NL'', ''Europe/Amsterdam''),
      (''TR'', ''Europe/Istanbul''), (''RU'', ''Europe/Moscow''), (''EG'', ''Africa/Cairo''), (''NG'', ''Africa/Lagos''),
      (''KE'', ''Africa/Nairobi''), (''ZA'', ''Africa/Johannesburg'')]"

definition resolveTimezone :: "string option \<Rightarrow> string" where
  "resolveTimezone country =
     (case country of
        None \<Rightarrow> ''UTC''
      | Some c \<Rightarrow> (case map_of COUNTRY_TIMEZONES (map upper (trim c)) of None \<Rightarrow> ''UTC'' | Some z \<Rightarrow> z))"

definition timezoneFor :: "att_env \<Rightarrow> uid \<Rightarrow> string" where
  "timezoneFor env u = resolveTimezone (ae_country env u)"

section \<open>The streak\<close>

definition ATTENDANCE_CYCLE_LENGTH :: nat where
  "ATTENDANCE_CYCLE_LENGTH = 30"

datatype streak_outcome = ALREADY_CLAIMED | CLAIMABLE (so_day: nat) (so_cycle: nat) (so_reset: bool)

definition resolve_streak :: "int \<Rightarrow> int option \<Rightarrow> nat \<Rightarrow> nat \<Rightarrow> streak_outcome" where
  "resolve_streak today lastKey day cycle =
     (if lastKey = Some today then ALREADY_CLAIMED
      else if lastKey \<noteq> Some (previousDayKey today) then CLAIMABLE 1 cycle (lastKey \<noteq> None)
      else if ATTENDANCE_CYCLE_LENGTH \<le> day then CLAIMABLE 1 (cycle + 1) False
      else CLAIMABLE (day + 1) cycle False)"

definition streak_of :: "user_attendance option \<Rightarrow> int \<Rightarrow> streak_outcome" where
  "streak_of st today =
     (case st of
        None \<Rightarrow> resolve_streak today None 0 0
      | Some a \<Rightarrow> resolve_streak today (ua_lastClaimDayKey a) (ua_currentDay a) (ua_cycleCount a))"

definition day_of_state :: "user_attendance option \<Rightarrow> nat" where
  "day_of_state st = (case st of None \<Rightarrow> 0 | Some a \<Rightarrow> ua_currentDay a)"

definition cycle_of_state :: "user_attendance option \<Rightarrow> nat" where
  "cycle_of_state st = (case st of None \<Rightarrow> 0 | Some a \<Rightarrow> ua_cycleCount a)"

section \<open>Repository\<close>

definition getRung :: "nat \<Rightarrow> ('z att_db_scheme) \<Rightarrow> rung option" where
  "getRung d s = List.find (\<lambda>r. ru_day r = d) (rungs s)"

definition getLadder :: "('z att_db_scheme) \<Rightarrow> rung list" where
  "getLadder s = sort_key ru_day (rungs s)"

definition claim_of :: "uid \<Rightarrow> int \<Rightarrow> ('z att_db_scheme) \<Rightarrow> attendance_claim option" where
  "claim_of u d s = List.find (\<lambda>c. ac_userId c = u \<and> ac_dayKey c = d) (att_claims s)"

text \<open>The pair of user and date is unique.\<close>

definition recordClaim :: "attendance_claim \<Rightarrow> ('z att_db_scheme, unit) act" where
  "recordClaim c s =
     (if claim_of (ac_userId c) (ac_dayKey c) s \<noteq> None then (Inl P2002, s)
      else (Inr (), s\<lparr>att_claims := att_claims s @ [c],
        attendances := (attendances s)(ac_userId c \<mapsto>
          \<lparr>ua_currentDay = ac_day c, ua_cycleCount = ac_cycle c, ua_lastClaimDayKey = Some (ac_dayKey c),
           ua_lastClaimAt = Some (ac_claimedAt c), ua_lastClaimTimezone = Some (ac_timezone c),
           ua_totalClaims = (case attendances s (ac_userId c) of None \<Rightarrow> 1 | Some a \<Rightarrow> Suc (ua_totalClaims a))\<rparr>)\<rparr>))"

section \<open>A claim\<close>

definition attendanceIdempotencyKey :: "uid \<Rightarrow> int \<Rightarrow> string \<Rightarrow> string" where
  "attendanceIdempotencyKey u d kind = ''attendance:'' @ show_nat u @ CHR '':'' # show_int d @ CHR '':'' # kind"

record attendance_result =
  cr_claimed :: bool
  cr_day :: nat
  cr_cycle :: nat
  cr_coins :: int
  cr_expAwarded :: "int option"
  cr_cosmeticId :: "nat option"
  cr_streakReset :: bool
  cr_nextClaimAt :: int

definition not_claimed :: "user_attendance option \<Rightarrow> int \<Rightarrow> attendance_result" where
  "not_claimed st next =
     \<lparr>cr_claimed = False, cr_day = day_of_state st, cr_cycle = cycle_of_state st, cr_coins = 0, cr_expAwarded = None,
      cr_cosmeticId = None, cr_streakReset = False, cr_nextClaimAt = next\<rparr>"

definition or_twenty :: "rat option \<Rightarrow> rat" where
  "or_twenty h = (case h of None \<Rightarrow> 20 | Some x \<Rightarrow> x)"

definition assertIntervalElapsed :: "att_env \<Rightarrow> user_attendance option \<Rightarrow> string \<Rightarrow> int \<Rightarrow> ('s, unit) act" where
  "assertIntervalElapsed env st z now =
     (case st of
        None \<Rightarrow> returnA ()
      | Some a \<Rightarrow>
          (case (ua_lastClaimAt a, ua_lastClaimTimezone a) of
             (Some t, Some z') \<Rightarrow>
               if z' = [] \<or> z' = z then returnA ()
               else guardA (\<not> of_int (now - t) / 3600000 < or_twenty (ae_minHours env)) (OtherError ''Conflict'')
           | _ \<Rightarrow> returnA ()))"

text \<open>What the check found: the rung to pay, and the state it read.\<close>

record claim_plan =
  cp_userId :: uid
  cp_zone :: string
  cp_now :: int
  cp_today :: int
  cp_state :: "user_attendance option"
  cp_day :: nat
  cp_cycle :: nat
  cp_reset :: bool
  cp_rung :: rung

definition claim_check :: "att_env \<Rightarrow> uid \<Rightarrow> string \<Rightarrow> int \<Rightarrow> ('z att_db_scheme, attendance_result + claim_plan) act" where
  "claim_check env u z now =
     (let today = ae_local env z now
      in bindA (getsA (\<lambda>s. attendances s u)) (\<lambda>st.
         case streak_of st today of
           ALREADY_CLAIMED \<Rightarrow> bindA (nextBoundary env now z) (\<lambda>b. returnA (Inl (not_claimed st b)))
         | CLAIMABLE d c reset \<Rightarrow>
             bindA (assertIntervalElapsed env st z now) (\<lambda>_.
             bindA (getsA (getRung d)) (\<lambda>found.
             case found of
               None \<Rightarrow> throwA (OtherError ''Attendance ladder is missing a day'')
             | Some r \<Rightarrow> returnA (Inr \<lparr>cp_userId = u, cp_zone = z, cp_now = now, cp_today = today, cp_state = st,
                 cp_day = d, cp_cycle = c, cp_reset = reset, cp_rung = r\<rparr>)))))"

definition reward_movement :: "claim_plan \<Rightarrow> movement" where
  "reward_movement p =
     \<lparr>m_userId = cp_userId p, m_currency = ru_currency (cp_rung p), m_amount = of_int (ru_coins (cp_rung p)),
      m_reason = ATTENDANCE_REWARD, m_key = attendanceIdempotencyKey (cp_userId p) (cp_today p) ''coins'',
      m_referenceType = Some ''attendance_claim'', m_referenceId = None, m_actorId = None\<rparr>"

definition claim_row :: "claim_plan \<Rightarrow> attendance_claim" where
  "claim_row p =
     \<lparr>ac_userId = cp_userId p, ac_day = cp_day p, ac_cycle = cp_cycle p, ac_dayKey = cp_today p,
      ac_coins = ru_coins (cp_rung p), ac_currency = ru_currency (cp_rung p), ac_expAmount = ru_expAmount (cp_rung p),
      ac_cosmeticId = ru_cosmeticId (cp_rung p), ac_timezone = cp_zone p, ac_claimedAt = cp_now p\<rparr>"

text \<open>The transaction; a row of the same day that is already there means that the day has been claimed.\<close>

definition claim_commit :: "claim_plan \<Rightarrow> ('z att_db_scheme, bool) act" where
  "claim_commit p =
     catchA
       (bindA (transaction (bindA (credit (reward_movement p) True) (\<lambda>_. recordClaim (claim_row p)))) (\<lambda>_. returnA True))
       (\<lambda>e. if e = P2002 then returnA False else throwA e)"

text \<open>What an exception here costs is logged and lost: the coins are paid.\<close>

definition award_exp :: "att_env \<Rightarrow> claim_plan \<Rightarrow> ('z att_db_scheme, int option) act" where
  "award_exp env p =
     (case ru_expAmount (cp_rung p) of
        Some n \<Rightarrow>
          if 0 < n
          then bindA (modifyA (\<lambda>s. s\<lparr>exp_asked := exp_asked s @
                 [(cp_userId p, n, attendanceIdempotencyKey (cp_userId p) (cp_today p) ''exp'')]\<rparr>)) (\<lambda>_.
               returnA (if ae_expFails env (cp_userId p) then None else Some n))
          else returnA None
      | None \<Rightarrow> returnA None)"

definition grant_cosmetic :: "att_env \<Rightarrow> claim_plan \<Rightarrow> ('z att_db_scheme, nat option) act" where
  "grant_cosmetic env p =
     (case ru_cosmeticId (cp_rung p) of
        Some c \<Rightarrow>
          bindA (modifyA (\<lambda>s. s\<lparr>cosmetics_asked := cosmetics_asked s @
            [(cp_userId p, c, attendanceIdempotencyKey (cp_userId p) (cp_today p) ''cosmetic'')]\<rparr>)) (\<lambda>_.
          returnA (case ae_cosmetic env (cp_userId p) c of Inl _ \<Rightarrow> None | Inr x \<Rightarrow> x))
      | None \<Rightarrow> returnA None)"

definition claim_finish :: "att_env \<Rightarrow> claim_plan \<Rightarrow> ('z att_db_scheme, attendance_result) act" where
  "claim_finish env p =
     bindA (claim_commit p) (\<lambda>paid.
     if \<not> paid then bindA (nextBoundary env (cp_now p) (cp_zone p)) (\<lambda>b. returnA (not_claimed (cp_state p) b))
     else bindA (award_exp env p) (\<lambda>x.
          bindA (grant_cosmetic env p) (\<lambda>g.
          bindA (nextBoundary env (cp_now p) (cp_zone p)) (\<lambda>b.
          returnA \<lparr>cr_claimed = True, cr_day = cp_day p, cr_cycle = cp_cycle p, cr_coins = ru_coins (cp_rung p),
            cr_expAwarded = x, cr_cosmeticId = g, cr_streakReset = cp_reset p, cr_nextClaimAt = b\<rparr>))))"

definition claim_begin :: "att_env \<Rightarrow> uid \<Rightarrow> int \<Rightarrow> ('z att_db_scheme, attendance_result + claim_plan) act" where
  "claim_begin env u now =
     bindA (guardA (ae_enabled env \<noteq> Some False) (Forbidden ''Attendance rewards are currently disabled.'')) (\<lambda>_.
     claim_check env u (timezoneFor env u) now)"

definition claim_attendance :: "att_env \<Rightarrow> uid \<Rightarrow> int \<Rightarrow> ('z att_db_scheme, attendance_result) act" where
  "claim_attendance env u now =
     bindA (claim_begin env u now) (\<lambda>checked.
     case checked of Inl r \<Rightarrow> returnA r | Inr p \<Rightarrow> claim_finish env p)"

record attendance_status =
  as_currentDay :: nat
  as_cycleCount :: nat
  as_claimableToday :: bool
  as_nextDay :: "nat option"
  as_timezone :: string
  as_nextClaimAt :: int
  as_ladder :: "rung list"

definition getStatus :: "att_env \<Rightarrow> uid \<Rightarrow> int \<Rightarrow> ('z att_db_scheme, attendance_status) act" where
  "getStatus env u now =
     (let z = timezoneFor env u; today = ae_local env z now
      in bindA (getsA (\<lambda>s. attendances s u)) (\<lambda>st.
         bindA (getsA getLadder) (\<lambda>ladder.
         bindA (nextBoundary env now z) (\<lambda>b.
         returnA \<lparr>as_currentDay = day_of_state st, as_cycleCount = cycle_of_state st,
           as_claimableToday = (streak_of st today \<noteq> ALREADY_CLAIMED),
           as_nextDay = (case streak_of st today of ALREADY_CLAIMED \<Rightarrow> None | CLAIMABLE d _ _ \<Rightarrow> Some d),
           as_timezone = z, as_nextClaimAt = b, as_ladder = ladder\<rparr>))))"

section \<open>The ladder\<close>

definition seed_rung :: "nat \<Rightarrow> int \<times> int option" where
  "seed_rung d =
     (if d = 1 then (100, None)
      else if d = 2 then (150, None)
      else if d = 3 then (200, None)
      else if d \<le> 6 then (250, None)
      else if d = 7 then (500, Some 100)
      else if d \<le> 14 then (300, None)
      else if d = 15 then (1000, Some 250)
      else if d \<le> 29 then (400, None)
      else (2500, Some 500))"

definition ATTENDANCE_LADDER_SEED :: "rung list" where
  "ATTENDANCE_LADDER_SEED = map (\<lambda>d. \<lparr>ru_day = d, ru_coins = fst (seed_rung d), ru_currency = GAME,
     ru_expAmount = snd (seed_rung d), ru_cosmeticId = None\<rparr>) [1..<31]"

definition seed_ladder :: "('z att_db_scheme, unit) act" where
  "seed_ladder = forA (\<lambda>r. modifyA (\<lambda>s. if getRung (ru_day r) s = None then s\<lparr>rungs := rungs s @ [r]\<rparr> else s))
     ATTENDANCE_LADDER_SEED"

end
