(* ===== verification/AttendanceLaws.thy ===== *)
theory AttendanceLaws
  imports Attendance
begin

text \<open>
  What attendance promises: the next day is found to the minute, everything paid is recorded once per user and
  calendar day however claims overlap, and a user who comes back every day climbs the ladder.
\<close>

section \<open>The next day\<close>

lemma hour_minutes: "MINUTE dvd HOUR"
  by (simp add: HOUR_def MINUTE_def)

lemma probe_hours_Some:
  "probe_hours local today n c = Some x \<Longrightarrow> local c = today \<Longrightarrow>
     c + HOUR \<le> x \<and> x \<le> c + int n * HOUR \<and> MINUTE dvd x - c \<and> local x \<noteq> today \<and> local (x - HOUR) = today"
proof (induction n arbitrary: c)
  case (Suc n)
  show ?case
  proof (cases "local (c + HOUR) = today")
    case True
    then have "probe_hours local today n (c + HOUR) = Some x" using Suc.prems(1) by simp
    note ih = Suc.IH [OF this True]
    have "x - c = (x - (c + HOUR)) + HOUR" by simp
    then have "MINUTE dvd x - c" using ih hour_minutes dvd_add by metis
    then show ?thesis using ih by (simp add: HOUR_def algebra_simps)
  next
    case False
    then show ?thesis using Suc.prems hour_minutes by (auto simp: HOUR_def)
  qed
qed simp

lemma probe_hours_None:
  "probe_hours local today n c = None \<Longrightarrow> 1 \<le> j \<Longrightarrow> j \<le> n \<Longrightarrow> local (c + int j * HOUR) = today"
proof (induction n arbitrary: c j)
  case (Suc n)
  have step: "local (c + HOUR) = today" "probe_hours local today n (c + HOUR) = None"
    using Suc.prems(1) by (auto split: if_splits)
  show ?case
  proof (cases "j = 1")
    case False
    then have "local ((c + HOUR) + int (j - 1) * HOUR) = today" using Suc.IH [OF step(2), of "j - 1"] Suc.prems by simp
    moreover have "(c + HOUR) + int (j - 1) * HOUR = c + int j * HOUR" using Suc.prems(2) by (simp add: of_nat_diff algebra_simps)
    ultimately show ?thesis by (simp only:)
  qed (use step in simp)
qed simp

lemma probe_minutes_at:
  assumes "lower < cursor" "MINUTE dvd cursor - lower" "local cursor \<noteq> today" "local lower = today"
  shows "lower < probe_minutes local today lower cursor \<and> probe_minutes local today lower cursor \<le> cursor \<and>
    MINUTE dvd probe_minutes local today lower cursor - lower \<and>
    local (probe_minutes local today lower cursor) \<noteq> today \<and> local (probe_minutes local today lower cursor - MINUTE) = today"
  using assms
proof (induction local today lower cursor rule: probe_minutes.induct)
  case (1 local today lower cursor)
  have le: "lower + MINUTE \<le> cursor" using zdvd_imp_le [OF 1(3)] 1(2) by simp
  show ?case
  proof (cases "local (lower + MINUTE) = today")
    case False
    then show ?thesis using 1(2,5) le by (simp add: probe_minutes.simps [of local today lower] MINUTE_def)
  next
    case True
    then have ne: "lower + MINUTE < cursor" using le 1(4) by (cases "lower + MINUTE = cursor") auto
    have d: "MINUTE dvd cursor - (lower + MINUTE)" using 1(3) by (metis diff_diff_eq dvd_diff_left_iff dvd_refl)
    let ?b = "probe_minutes local today (lower + MINUTE) cursor"
    have p: "probe_minutes local today lower cursor = ?b"
      using True 1(2) by (simp add: probe_minutes.simps [of local today lower])
    have ih: "lower + MINUTE < ?b \<and> ?b \<le> cursor \<and> MINUTE dvd ?b - (lower + MINUTE) \<and> local ?b \<noteq> today \<and>
        local (?b - MINUTE) = today"
      using 1(1) [OF 1(2) _ ne d 1(4) True] True by simp
    then have "MINUTE dvd ?b - (lower + MINUTE)" by blast
    from dvd_add [OF this dvd_refl] have "MINUTE dvd (?b - (lower + MINUTE)) + MINUTE" .
    moreover have "(?b - (lower + MINUTE)) + MINUTE = ?b - lower" by simp
    ultimately have "MINUTE dvd ?b - lower" by (simp only:)
    then show ?thesis using ih unfolding p by (simp add: MINUTE_def)
  qed
qed

text \<open>
  C12: The next claim is announced for a whole number of minutes later, on another local date than today's, one
  minute after an instant of today: never early, and less than a minute late. The search ends, and fails only when
  no hour of the next twenty-seven falls on another date.
\<close>

theorem next_boundary_to_the_minute:
  "case nextBoundary env now z s of
     (Inr b, s') \<Rightarrow> s' = s \<and> now < b \<and> b \<le> now + 27 * HOUR \<and> MINUTE dvd b - now \<and>
       ae_local env z b \<noteq> ae_local env z now \<and> ae_local env z (b - MINUTE) = ae_local env z now
   | (Inl e, s') \<Rightarrow> s' = s \<and> (\<forall>j \<in> {1..27}. ae_local env z (now + int j * HOUR) = ae_local env z now)"
proof (cases "probe_hours (ae_local env z) (ae_local env z now) MAX_PROBE_HOURS now")
  case None
  then show ?thesis
    using probe_hours_None [OF None] by (auto simp: nextBoundary_def throwA_def MAX_PROBE_HOURS_def)
next
  case (Some x)
  note h = probe_hours_Some [OF Some refl]
  define b where "b = probe_minutes (ae_local env z) (ae_local env z now) (x - HOUR) x"
  have "x - HOUR < x" "MINUTE dvd x - (x - HOUR)" using hour_minutes by (simp_all add: HOUR_def)
  note m = probe_minutes_at [OF this, of "ae_local env z" "ae_local env z now", folded b_def]
  have "b - now = (b - (x - HOUR)) + (x - now) - HOUR" by simp
  then have "MINUTE dvd b - now" using h m hour_minutes by (metis dvd_add dvd_diff)
  then show ?thesis
    using h m by (simp add: nextBoundary_def Some returnA_def Let_def b_def [symmetric]) (simp add: MAX_PROBE_HOURS_def HOUR_def)
qed

section \<open>Claims\<close>

lemma attendance_key [simp]:
  "attendanceIdempotencyKey u d k = attendanceIdempotencyKey u' d' k' \<longleftrightarrow> u = u' \<and> d = d' \<and> k = k'"
  by (simp add: attendanceIdempotencyKey_def)

definition coins_key :: "uid \<Rightarrow> int \<Rightarrow> string" where
  "coins_key u d = attendanceIdempotencyKey u d ''coins''"

definition paid_out :: "uid \<Rightarrow> currency \<Rightarrow> attendance_claim list \<Rightarrow> int" where
  "paid_out u c cs = sum_list (map ac_coins (filter (\<lambda>x. ac_userId x = u \<and> ac_currency x = c) cs))"

definition claimed_day :: "uid \<Rightarrow> int \<Rightarrow> ('z att_db_scheme) \<Rightarrow> bool" where
  "claimed_day u d s \<longleftrightarrow> (u, d) \<in> set (map (\<lambda>c. (ac_userId c, ac_dayKey c)) (att_claims s))"

lemma claim_of_iff: "claim_of u d s = None \<longleftrightarrow> \<not> claimed_day u d s"
  by (auto simp: claim_of_def claimed_day_def find_None_iff)

text \<open>The books of attendance: every key stored belongs to a claim, and everything paid is claimed.\<close>

definition att_ok :: "(uid \<Rightarrow> currency \<Rightarrow> int) \<Rightarrow> ('z att_db_scheme) \<Rightarrow> bool" where
  "att_ok start s \<longleftrightarrow> wf_db s \<and> distinct (map (\<lambda>c. (ac_userId c, ac_dayKey c)) (att_claims s)) \<and>
     (\<forall>u d. coins_key u d \<in> dom (txns s) \<longleftrightarrow> claimed_day u d s) \<and>
     (\<forall>u c. user_balance s u c = start u c + paid_out u c (att_claims s))"

lemma att_more:
  assumes "wdb.more s' = wdb.more s"
  shows "att_claims s' = att_claims s" "attendances s' = attendances s" "rungs s' = rungs s"
  using assms by (cases s; cases s'; simp)+

lemma reward_sel [simp]:
  "m_key (reward_movement p) = coins_key (cp_userId p) (cp_today p)" "m_userId (reward_movement p) = cp_userId p"
  "m_currency (reward_movement p) = ru_currency (cp_rung p)" "m_amount (reward_movement p) = of_int (ru_coins (cp_rung p))"
  by (simp_all add: reward_movement_def coins_key_def)

lemma claim_row_sel [simp]:
  "ac_userId (claim_row p) = cp_userId p" "ac_dayKey (claim_row p) = cp_today p" "ac_coins (claim_row p) = ru_coins (cp_rung p)"
  "ac_currency (claim_row p) = ru_currency (cp_rung p)" "ac_day (claim_row p) = cp_day p" "ac_cycle (claim_row p) = cp_cycle p"
  "ac_timezone (claim_row p) = cp_zone p" "ac_claimedAt (claim_row p) = cp_now p"
  by (simp_all add: claim_row_def)

text \<open>A commit either pays and records a day that was not claimed, or changes nothing of this.\<close>

lemma claim_commit_cases:
  assumes ok: "att_ok start s" and run: "claim_commit p s = (r, s')"
  obtains (paid) s1 x where "r = Inr True" "\<not> claimed_day (cp_userId p) (cp_today p) s"
      "credit (reward_movement p) True s = (Inr x, s1)" "recordClaim (claim_row p) s1 = (Inr (), s')"
  | (not_paid) "r \<noteq> Inr True" "same_money s s'"
proof -
  have wf: "wf_db s" using ok by (simp add: att_ok_def)
  let ?body = "bindA (credit (reward_movement p) True) (\<lambda>_. recordClaim (claim_row p))"
  obtain b s1 where body: "?body s = (b, s1)" by fastforce
  show thesis
  proof (cases b)
    case (Inl e)
    have next_le: "next_id s \<le> next_id s1"
      using body Inl move_keeps(4) [OF wf] unfolding credit_def
      by (auto simp: bindA_Inl recordClaim_def split: if_splits)
    have "transaction ?body s = (Inl e, rollback s s1)" using body Inl by (auto simp: transaction_Inl)
    then have "claim_commit p s = ((if e = P2002 then Inr False else Inl e), rollback s s1)"
      by (simp add: claim_commit_def catchA_def bindA_def returnA_def throwA_def)
    then show thesis using not_paid run same_money_rollback [OF next_le] by (auto split: if_splits)
  next
    case (Inr y)
    then obtain x s2 where cr: "credit (reward_movement p) True s = (Inr x, s2)"
      and rec: "recordClaim (claim_row p) s2 = (Inr (), s1)" using body by (auto simp: bindA_Inr)
    have "bindA (transaction ?body) (\<lambda>_. returnA True) s = (Inr True, s1)" using cr rec by (auto simp: bindA_Inr)
    then have "claim_commit p s = (Inr True, s1)" by (simp add: claim_commit_def catchA_def)
    then have c: "r = Inr True" "s' = s1" using run by auto
    have "att_claims s2 = att_claims s" using att_more move_tables [OF wf cr [unfolded credit_def]] by blast
    then have "\<not> claimed_day (cp_userId p) (cp_today p) s"
      using rec by (auto simp: recordClaim_def claim_of_iff claimed_day_def split: if_splits)
    then show thesis using paid c cr rec by simp
  qed
qed

lemma same_money_att_ok: "same_money s s' \<Longrightarrow> att_ok start s \<Longrightarrow> att_ok start s'"
  using att_more [of s' s] by (auto simp: same_money_def att_ok_def claimed_day_def)

lemma commit_pays:
  assumes ok: "att_ok start s" and new: "\<not> claimed_day (cp_userId p) (cp_today p) s"
    and cr: "credit (reward_movement p) True s = (Inr x, s1)" and rec: "recordClaim (claim_row p) s1 = (Inr (), s')"
  shows "att_ok start s'" "att_claims s' = att_claims s @ [claim_row p]" "user_status s' = user_status s" "rungs s' = rungs s"
proof -
  have wf: "wf_db s" and key: "txns s (m_key (reward_movement p)) = None"
    using ok new by (auto simp: att_ok_def)
  note m = move_effect [OF wf key cr [unfolded credit_def]] and k = move_keeps(1) [OF wf cr [unfolded credit_def]]
    and st = move_status [OF wf cr [unfolded credit_def]]
  note t = att_more [OF m(7)]
  have s': "s' = s1\<lparr>att_claims := att_claims s @ [claim_row p], attendances := attendances s'\<rparr>"
    using rec t by (auto simp: recordClaim_def split: if_splits)
  show claims: "att_claims s' = att_claims s @ [claim_row p]" by (subst s') simp
  show "rungs s' = rungs s" using t(3) by (subst s') simp
  have bal: "user_balance s' = user_balance s1" "txns s' = txns s1" "wf_db s'" "user_status s' = user_status s1"
    using k by (subst s'; simp add: user_balance_def user_status_def walletByUser_def wf_db_def fun_eq_iff)+
  show "user_status s' = user_status s" using st bal(4) by (simp add: fun_eq_iff)
  show "att_ok start s'"
    using ok new bal m(1,6) claims unfolding att_ok_def
    by (auto simp: claimed_day_def paid_out_def delta_def coins_key_def iff del: domIff)
qed

section \<open>Overlapping claims\<close>

text \<open>
  Claims in flight: each begins (reads and decides) and finishes at any later time, under any configuration and
  clock; one that is finished twice is a request that ran twice.
\<close>

datatype att_step = Begin_claim att_env uid int | Finish_claim att_env nat

fun att_do :: "att_step \<Rightarrow> ('z att_db_scheme) \<times> claim_plan list \<Rightarrow> ('z att_db_scheme) \<times> claim_plan list" where
  "att_do (Begin_claim env u now) (s, ps) =
     (case claim_begin env u now s of (Inr (Inr p), s') \<Rightarrow> (s', ps @ [p]) | (_, s') \<Rightarrow> (s', ps))"
| "att_do (Finish_claim env i) (s, ps) = (if i < length ps then (snd (claim_finish env (ps ! i) s), ps) else (s, ps))"

definition att_run :: "att_step list \<Rightarrow> ('z att_db_scheme) \<times> claim_plan list \<Rightarrow> ('z att_db_scheme) \<times> claim_plan list" where
  "att_run steps w = fold att_do steps w"

interpretation kept: step_order "stable (att_ok start)" for start :: "uid \<Rightarrow> currency \<Rightarrow> int"
  by (rule stable_order)

lemma kept_boundary: "kept.ok start (nextBoundary env now z)"
  unfolding nextBoundary_def Let_def by (auto split: option.split)

lemma kept_begin: "kept.ok start (claim_begin env u now)"
  unfolding claim_begin_def claim_check_def assertIntervalElapsed_def Let_def
  by (auto intro!: kept.ok_bind kept_boundary split: option.split streak_outcome.split)

lemma kept_commit: "kept.ok start (claim_commit p)"
proof (rule kept.okI)
  fix s s' :: "'a att_db_scheme" and r
  assume run: "claim_commit p s = (r, s')"
  show "stable (att_ok start) s s'"
    unfolding stable_def
  proof
    assume ok: "att_ok start s"
    from ok run show "att_ok start s'"
      by (cases rule: claim_commit_cases) (auto intro: commit_pays(1) [OF ok] same_money_att_ok [OF _ ok])
  qed
qed

lemma att_ok_asked:
  "att_ok start (s\<lparr>exp_asked := xs\<rparr>) = att_ok start s" "att_ok start (s\<lparr>cosmetics_asked := ys\<rparr>) = att_ok start s"
  by (simp_all add: att_ok_def claimed_day_def wf_db_def user_balance_def walletByUser_def)

lemma kept_asked: "kept.ok start (award_exp env p)" "kept.ok start (grant_cosmetic env p)"
  unfolding award_exp_def grant_cosmetic_def
  by (auto intro!: kept.ok_bind kept.ok_modify simp: stable_def att_ok_asked split: option.split)

lemma kept_finish: "kept.ok start (claim_finish env p)"
  unfolding claim_finish_def by (auto intro!: kept.ok_bind kept.ok_if kept_commit kept_boundary kept_asked)

lemma att_do_ok: "att_ok start s \<Longrightarrow> att_do st (s, ps) = (s', ps') \<Longrightarrow> att_ok start s'"
proof (cases st)
  case (Begin_claim env u now)
  assume "att_ok start s" "att_do st (s, ps) = (s', ps')"
  moreover obtain r s1 where run: "claim_begin env u now s = (r, s1)" by fastforce
  moreover have "stable (att_ok start) s s1" using kept.okD [OF kept_begin run] .
  ultimately show ?thesis using Begin_claim by (auto simp: stable_def split: sum.splits)
next
  case (Finish_claim env i)
  assume "att_ok start s" "att_do st (s, ps) = (s', ps')"
  moreover have "stable (att_ok start) s (snd (claim_finish env (ps ! i) s))"
    using kept.okD [OF kept_finish surjective_pairing] .
  ultimately show ?thesis using Finish_claim by (auto simp: stable_def split: if_splits)
qed

lemma att_run_ok: "att_ok start s \<Longrightarrow> att_run steps (s, ps) = (s', ps') \<Longrightarrow> att_ok start s'"
proof (induction steps arbitrary: s ps)
  case (Cons st steps)
  obtain s1 ps1 where one: "att_do st (s, ps) = (s1, ps1)" by fastforce
  then have "att_run steps (s1, ps1) = (s', ps')" using Cons.prems(2) by (simp add: att_run_def)
  from Cons.IH [OF att_do_ok [OF Cons.prems(1) one] this] show ?case .
qed (simp add: att_run_def)

text \<open>
  C10: However claims overlap, at whatever times, in whatever zones and with whatever changes of the configuration,
  a user has at most one claim per calendar date, and attendance has paid each user, in each currency, exactly the
  coins of the recorded claims.
\<close>

theorem attendance_pays_claims:
  assumes "wf_db s" "att_claims s = []" "\<forall>u d. coins_key u d \<notin> dom (txns s)" "att_run steps (s, []) = (s', ps)"
  shows "distinct (map (\<lambda>c. (ac_userId c, ac_dayKey c)) (att_claims s')) \<and>
    (\<forall>u c. user_balance s' u c = user_balance s u c + paid_out u c (att_claims s'))"
proof -
  have "att_ok (user_balance s) s" using assms(1-3) by (simp add: att_ok_def claimed_day_def paid_out_def)
  from att_run_ok [OF this assms(4)] show ?thesis by (simp add: att_ok_def)
qed

end
