(* ===== verification/AttendanceStreak.thy ===== *)
theory AttendanceStreak
  imports AttendanceLaws
begin

text \<open>A user who comes back every day: the state after \<open>k\<close> claims, one more claim, and a whole streak.\<close>

section \<open>After k claims\<close>

definition ladder_full :: "('z att_db_scheme) \<Rightarrow> bool" where
  "ladder_full s \<longleftrightarrow> (\<forall>d\<in>{1..30}. \<exists>r. getRung d s = Some r \<and> 0 < ru_coins r)"

text \<open>What the claim of the \<open>i\<close>-th day in a row pays in a currency.\<close>

definition reward_on :: "rung list \<Rightarrow> nat \<Rightarrow> currency \<Rightarrow> int" where
  "reward_on rs i c =
     (case List.find (\<lambda>r. ru_day r = i mod 30 + 1) rs of None \<Rightarrow> 0 | Some r \<Rightarrow> if ru_currency r = c then ru_coins r else 0)"

definition on_streak :: "uid \<Rightarrow> string \<Rightarrow> int \<Rightarrow> nat \<Rightarrow> user_attendance option \<Rightarrow> bool" where
  "on_streak u z d0 k st \<longleftrightarrow>
     (if k = 0 then st = None
      else \<exists>a. st = Some a \<and> ua_currentDay a = (k - 1) mod 30 + 1 \<and> ua_cycleCount a = (k - 1) div 30 \<and>
        ua_lastClaimDayKey a = Some (d0 + int k - 1) \<and> ua_lastClaimTimezone a = Some z)"

definition streak_ready :: "(uid \<Rightarrow> currency \<Rightarrow> int) \<Rightarrow> uid \<Rightarrow> string \<Rightarrow> int \<Rightarrow> nat \<Rightarrow> ('z att_db_scheme) \<Rightarrow> bool" where
  "streak_ready start u z d0 k s \<longleftrightarrow> att_ok start s \<and> solvent s \<and> user_status s u = ACTIVE \<and> ladder_full s \<and>
     on_streak u z d0 k (attendances s u) \<and> (\<forall>i\<ge>k. \<not> claimed_day u (d0 + int i) s)"

lemma streak_next:
  assumes "on_streak u z d0 k st"
  shows "streak_of st (d0 + int k) = CLAIMABLE (k mod 30 + 1) (k div 30) False"
proof (cases k)
  case 0
  then show ?thesis using assms by (simp add: on_streak_def streak_of_def resolve_streak_def)
next
  case (Suc j)
  then obtain a where a: "st = Some a" "ua_currentDay a = j mod 30 + 1" "ua_cycleCount a = j div 30"
    "ua_lastClaimDayKey a = Some (d0 + int j)" using assms by (auto simp: on_streak_def)
  have st: "streak_of st (d0 + int k) = (if 30 \<le> j mod 30 + 1 then CLAIMABLE 1 (j div 30 + 1) False
      else CLAIMABLE (j mod 30 + 1 + 1) (j div 30) False)"
    using a Suc by (simp add: streak_of_def resolve_streak_def previousDayKey_def ATTENDANCE_CYCLE_LENGTH_def)
  show ?thesis
  proof (cases "j mod 30 = 29")
    case True
    then have "Suc j mod 30 = 0" "Suc j div 30 = j div 30 + 1" by (simp_all add: mod_Suc div_Suc)
    then show ?thesis using st True Suc by simp
  next
    case False
    moreover have "j mod 30 < 30" by simp
    ultimately have m: "Suc j mod 30 = j mod 30 + 1" "Suc j div 30 = j div 30" "\<not> 30 \<le> j mod 30 + 1"
      by (simp_all add: mod_Suc div_Suc)
    then show ?thesis using st Suc by (simp only: if_False m)
  qed
qed

lemma same_zone_passes:
  "on_streak u z d0 k st \<Longrightarrow> assertIntervalElapsed env st z now s = (Inr (), s)"
  by (cases "k = 0") (auto simp: on_streak_def assertIntervalElapsed_def returnA_def split: option.split)

definition next_day_found :: "att_env \<Rightarrow> string \<Rightarrow> int \<Rightarrow> bool" where
  "next_day_found env z now \<longleftrightarrow> (\<exists>j\<in>{1..27}. ae_local env z (now + int j * HOUR) \<noteq> ae_local env z now)"

lemma boundary_returns:
  assumes "next_day_found env z now"
  obtains b where "nextBoundary env now z s = (Inr b, s)"
proof (cases "probe_hours (ae_local env z) (ae_local env z now) MAX_PROBE_HOURS now")
  case None
  then show thesis using probe_hours_None [OF None] assms by (auto simp: next_day_found_def MAX_PROBE_HOURS_def)
next
  case (Some x)
  then show thesis using that by (simp add: nextBoundary_def Let_def returnA_def)
qed

section \<open>One more day\<close>

lemma asked_frame:
  assumes "award_exp env p s = (r, s')"
  shows "\<exists>x. r = Inr x \<and> (\<exists>xs. s' = s\<lparr>exp_asked := xs\<rparr>)"
  using assms by (auto simp: award_exp_def bindA_def modifyA_def returnA_def split: option.splits if_splits)
    (metis att_db.surjective att_db.update_convs(4))+

lemma cosmetic_frame:
  assumes "grant_cosmetic env p s = (r, s')"
  shows "\<exists>x. r = Inr x \<and> (\<exists>xs. s' = s\<lparr>cosmetics_asked := xs\<rparr>)"
  using assms by (auto simp: grant_cosmetic_def bindA_def modifyA_def returnA_def split: option.splits if_splits)
    (metis att_db.surjective att_db.update_convs(5))+

lemma asked_irrelevant:
  "streak_ready start u z d0 k (s\<lparr>exp_asked := xs\<rparr>) = streak_ready start u z d0 k s"
  "streak_ready start u z d0 k (s\<lparr>cosmetics_asked := ys\<rparr>) = streak_ready start u z d0 k s"
  by (simp_all add: streak_ready_def att_ok_asked solvent_def user_status_def walletByUser_def ladder_full_def getRung_def
      claimed_day_def)

lemma commit_streak:
  assumes ready: "streak_ready start u z d0 k s" and p: "cp_userId p = u" "cp_zone p = z" "cp_today p = d0 + int k"
    "cp_day p = k mod 30 + 1" "cp_cycle p = k div 30" and r: "getRung (k mod 30 + 1) s = Some (cp_rung p)"
  obtains s' where "claim_commit p s = (Inr True, s')" "streak_ready start u z d0 (Suc k) s'"
    "att_claims s' = att_claims s @ [claim_row p]" "rungs s' = rungs s"
proof -
  have ok: "att_ok start s" and wf: "wf_db s" and free: "\<not> claimed_day (cp_userId p) (cp_today p) s"
    using ready p by (auto simp: streak_ready_def att_ok_def)
  have "0 < ru_coins (cp_rung p)"
    using ready r by (auto simp: streak_ready_def ladder_full_def dest!: bspec [of _ _ "k mod 30 + 1"])
  then obtain x s1 where cr: "credit (reward_movement p) True s = (Inr x, s1)"
    using credit_ok [OF wf, of "reward_movement p" True] ready p by (auto simp: streak_ready_def)
  have keep: "att_claims s1 = att_claims s" "attendances s1 = attendances s"
    using att_more move_tables [OF wf cr [unfolded credit_def]] by blast+
  obtain s' where rec: "recordClaim (claim_row p) s1 = (Inr (), s')"
    using free keep claim_of_iff [of "cp_userId p" "cp_today p" s] by (auto simp: recordClaim_def claim_of_def)
  have run: "claim_commit p s = (Inr True, s')"
    using cr rec by (simp add: claim_commit_def catchA_def bindA_def transaction_def returnA_def)
  note c = commit_pays [OF ok free cr rec]
  have sol: "solvent s'"
  proof -
    have "solvent s1" using move_keeps(3) [OF wf cr [unfolded credit_def]] ready by (simp add: streak_ready_def)
    then show ?thesis using rec by (auto simp: recordClaim_def solvent_def split: if_splits)
  qed
  have "on_streak u z d0 (Suc k) (attendances s' u)"
    using rec p by (auto simp: recordClaim_def on_streak_def claim_row_def split: if_splits)
  moreover have "\<not> claimed_day u (d0 + int i) s'" if "Suc k \<le> i" for i
    using ready that p c(2) by (auto simp: streak_ready_def claimed_day_def)
  ultimately have "streak_ready start u z d0 (Suc k) s'"
    using c sol ready by (simp add: streak_ready_def ladder_full_def getRung_def)
  then show thesis using that run c(2,4) by blast
qed

lemma claim_streak:
  assumes ready: "streak_ready start u (timezoneFor env u) d0 k s" and on: "ae_enabled env \<noteq> Some False"
    and day: "ae_local env (timezoneFor env u) now = d0 + int k" and more: "next_day_found env (timezoneFor env u) now"
  obtains res s' where "claim_attendance env u now s = (Inr res, s')" "streak_ready start u (timezoneFor env u) d0 (Suc k) s'"
    "cr_claimed res" "cr_day res = k mod 30 + 1" "cr_cycle res = k div 30" "\<not> cr_streakReset res" "rungs s' = rungs s"
    "\<forall>c. user_balance s' u c = user_balance s u c + reward_on (rungs s) k c"
proof -
  let ?z = "timezoneFor env u"
  obtain r where r: "getRung (k mod 30 + 1) s = Some r"
    using ready by (auto simp: streak_ready_def ladder_full_def dest!: bspec [of _ _ "k mod 30 + 1"])
  define p where "p = \<lparr>cp_userId = u, cp_zone = ?z, cp_now = now, cp_today = d0 + int k, cp_state = attendances s u,
    cp_day = k mod 30 + 1, cp_cycle = k div 30, cp_reset = False, cp_rung = r\<rparr>"
  have p: "cp_userId p = u" "cp_zone p = ?z" "cp_now p = now" "cp_today p = d0 + int k" "cp_day p = k mod 30 + 1"
    "cp_cycle p = k div 30" "cp_rung p = r" "\<not> cp_reset p" by (simp_all add: p_def)
  have streak: "on_streak u ?z d0 k (attendances s u)" using ready by (simp add: streak_ready_def)
  have started: "claim_begin env u now s = (Inr (Inr p), s)"
    using on day streak_next [OF streak] same_zone_passes [OF streak, of env now s] r
    by (simp add: claim_begin_def claim_check_def Let_def bindA_def getsA_def guardA_def returnA_def p_def)
  obtain s1 where c: "claim_commit p s = (Inr True, s1)" "streak_ready start u ?z d0 (Suc k) s1"
      "att_claims s1 = att_claims s @ [claim_row p]" "rungs s1 = rungs s"
    using commit_streak [OF ready p(1,2,4-6)] r p(7) by auto
  obtain x xs where x: "award_exp env p s1 = (Inr x, s1\<lparr>exp_asked := xs\<rparr>)"
    using asked_frame [OF surjective_pairing, of env p s1] by (metis prod.collapse)
  obtain g ys where g: "grant_cosmetic env p (s1\<lparr>exp_asked := xs\<rparr>) = (Inr g, s1\<lparr>exp_asked := xs, cosmetics_asked := ys\<rparr>)"
    using cosmetic_frame [OF surjective_pairing, of env p "s1\<lparr>exp_asked := xs\<rparr>"] by (metis prod.collapse)
  let ?s = "s1\<lparr>exp_asked := xs, cosmetics_asked := ys\<rparr>"
  obtain b where b: "nextBoundary env now ?z ?s = (Inr b, ?s)" using boundary_returns [OF more] .
  have run: "claim_attendance env u now s = (Inr \<lparr>cr_claimed = True, cr_day = cp_day p, cr_cycle = cp_cycle p, cr_coins = ru_coins r,
      cr_expAwarded = x, cr_cosmeticId = g, cr_streakReset = cp_reset p, cr_nextClaimAt = b\<rparr>, ?s)"
    using started c(1) x g b p by (simp add: claim_attendance_def claim_finish_def bindA_def returnA_def)
  have bal: "user_balance ?s u c = user_balance s u c + reward_on (rungs s) k c" for c
  proof -
    have b1: "user_balance ?s = user_balance s1" by (simp add: user_balance_def walletByUser_def fun_eq_iff)
    have "user_balance s u c = start u c + paid_out u c (att_claims s)" "user_balance s1 u c = start u c + paid_out u c (att_claims s1)"
      using ready c(2) by (simp_all add: streak_ready_def att_ok_def)
    then show ?thesis using b1 c(3) p r by (simp add: paid_out_def reward_on_def getRung_def)
  qed
  show thesis
    by (rule that [OF run]) (use c p bal in \<open>simp_all add: asked_irrelevant\<close>)
qed

section \<open>A streak\<close>

fun claim_days :: "att_env \<Rightarrow> uid \<Rightarrow> int list \<Rightarrow> ('z att_db_scheme, attendance_result list) act" where
  "claim_days env u [] = returnA []"
| "claim_days env u (t # ts) = bindA (claim_attendance env u t) (\<lambda>r. bindA (claim_days env u ts) (\<lambda>rs. returnA (r # rs)))"

lemma streak_from:
  assumes "streak_ready start u (timezoneFor env u) d0 k s" "ae_enabled env \<noteq> Some False"
    "\<forall>i<length ts. ae_local env (timezoneFor env u) (ts ! i) = d0 + int (k + i)"
    "\<forall>t\<in>set ts. next_day_found env (timezoneFor env u) t"
  shows "\<exists>rs s'. claim_days env u ts s = (Inr rs, s') \<and> list_all cr_claimed rs \<and>
    map cr_day rs = map (\<lambda>i. i mod 30 + 1) [k..<k + length ts] \<and> map cr_cycle rs = map (\<lambda>i. i div 30) [k..<k + length ts] \<and>
    (\<forall>c. user_balance s' u c = user_balance s u c + (\<Sum>i\<leftarrow>[k..<k + length ts]. reward_on (rungs s) i c))"
  using assms
proof (induction ts arbitrary: k s)
  case Nil
  then show ?case by (simp add: returnA_def)
next
  case (Cons t ts)
  have day: "ae_local env (timezoneFor env u) t = d0 + int k" and more: "next_day_found env (timezoneFor env u) t"
    using Cons.prems(3) [THEN spec, of 0] Cons.prems(4) by auto
  obtain res s1 where one: "claim_attendance env u t s = (Inr res, s1)" "streak_ready start u (timezoneFor env u) d0 (Suc k) s1"
    "cr_claimed res" "cr_day res = k mod 30 + 1" "cr_cycle res = k div 30" "rungs s1 = rungs s"
    "\<forall>c. user_balance s1 u c = user_balance s u c + reward_on (rungs s) k c"
    using claim_streak [OF Cons.prems(1,2) day more] .
  have "\<forall>i<length ts. ae_local env (timezoneFor env u) (ts ! i) = d0 + int (Suc k + i)"
    using Cons.prems(3) by fastforce
  from Cons.IH [OF one(2) Cons.prems(2) this] Cons.prems(4)
  obtain rs s' where rest: "claim_days env u ts s1 = (Inr rs, s')" "list_all cr_claimed rs"
    "map cr_day rs = map (\<lambda>i. i mod 30 + 1) [Suc k..<Suc k + length ts]"
    "map cr_cycle rs = map (\<lambda>i. i div 30) [Suc k..<Suc k + length ts]"
    "\<forall>c. user_balance s' u c = user_balance s1 u c + (\<Sum>i\<leftarrow>[Suc k..<Suc k + length ts]. reward_on (rungs s1) i c)"
    by auto
  have up: "[k..<k + length (t # ts)] = k # [Suc k..<Suc k + length ts]" by (simp add: upt_conv_Cons del: upt_Suc)
  have "claim_days env u (t # ts) s = (Inr (res # rs), s')"
    using one(1) rest(1) by (simp add: bindA_def returnA_def)
  then show ?case unfolding up using one rest(2-5) by auto
qed


section \<open>A month\<close>

definition att_start :: att_db where
  "att_start = wdb.extend init_db \<lparr>rungs = ATTENDANCE_LADDER_SEED, attendances = Map.empty, att_claims = [], exp_asked = [],
     cosmetics_asked = []\<rparr>"

definition utc_env :: att_env where
  "utc_env = \<lparr>ae_enabled = None, ae_minHours = None, ae_country = (\<lambda>_. None), ae_local = (\<lambda>z t. t div (24 * HOUR)),
     ae_expFails = (\<lambda>_. False), ae_cosmetic = (\<lambda>_ _. Inr None)\<rparr>"

definition month :: "int list" where
  "month = map (\<lambda>i. int i * (24 * HOUR) + HOUR) [0..<31]"

lemma att_start_ok: "wf_db att_start" "solvent att_start" "user_status att_start 7 = ACTIVE" "attendances att_start 7 = None"
  "att_claims att_start = []" "\<forall>u d. coins_key u d \<notin> dom (txns att_start)"
  by (simp_all add: att_start_def wdb.defs init_db_def wf_db_def solvent_def user_status_def walletByUser_def)

lemma att_start_ladder: "ladder_full att_start"
proof -
  have "list_all (\<lambda>d. case getRung d att_start of None \<Rightarrow> False | Some r \<Rightarrow> 0 < ru_coins r) [1..<31]" by code_simp
  then have "case getRung d att_start of None \<Rightarrow> False | Some r \<Rightarrow> 0 < ru_coins r" if "d \<in> {1..30}" for d
    using that by (simp add: list_all_iff)
  then show ?thesis by (fastforce simp: ladder_full_def split: option.splits)
qed

lemma month_days: "\<forall>i<length month. ae_local utc_env z (month ! i) = 0 + int i" "\<forall>t\<in>set month. next_day_found utc_env z t"
proof -
  show "\<forall>i<length month. ae_local utc_env z (month ! i) = 0 + int i"
    by (auto simp: month_def utc_env_def HOUR_def)
  have "ae_local utc_env z (t + int 24 * HOUR) \<noteq> ae_local utc_env z t" for t
    by (simp add: utc_env_def HOUR_def)
  then show "\<forall>t\<in>set month. next_day_found utc_env z t"
    unfolding next_day_found_def by (intro ballI bexI [of _ 24]) auto
qed


text \<open>From an hour past midnight the search finds the next midnight.\<close>

theorem next_boundary_to_the_minute_witness:
  "\<exists>b. nextBoundary utc_env HOUR ''UTC'' att_start = (Inr b, att_start) \<and> 24 * HOUR \<le> b \<and> b < 24 * HOUR + MINUTE"
proof -
  have "ae_local utc_env ''UTC'' (HOUR + int 24 * HOUR) \<noteq> ae_local utc_env ''UTC'' HOUR"
    by (simp add: utc_env_def HOUR_def)
  then have "next_day_found utc_env ''UTC'' HOUR" unfolding next_day_found_def by (intro bexI [of _ 24]) auto
  then obtain b where run: "nextBoundary utc_env HOUR ''UTC'' att_start = (Inr b, att_start)" by (rule boundary_returns)
  moreover have "24 * HOUR \<le> b \<and> b < 24 * HOUR + MINUTE"
    using next_boundary_to_the_minute [where env = utc_env and now = HOUR and z = "''UTC''" and s = att_start] run
    by (auto simp: utc_env_def HOUR_def MINUTE_def)
  ultimately show ?thesis by blast
qed

text \<open>Two claims of one day overlap, and one of them finishes twice.\<close>

definition overlapping_claims :: "att_step list" where
  "overlapping_claims = [Begin_claim utc_env 7 HOUR, Begin_claim utc_env 7 (HOUR + 1), Finish_claim utc_env 1,
     Finish_claim utc_env 0, Finish_claim utc_env 1]"

theorem attendance_pays_claims_witness:
  "user_balance (fst (att_run overlapping_claims (att_start, []))) 7 GAME = 100 \<and>
   length (att_claims (fst (att_run overlapping_claims (att_start, [])))) = 1"
proof -
  let ?w = "att_run overlapping_claims (att_start, [])"
  have rows: "map (\<lambda>c. (ac_userId c, ac_currency c, ac_coins c)) (att_claims (fst ?w)) = [(7, GAME, 100)]" by code_simp
  then have "paid_out 7 GAME (att_claims (fst ?w)) = 100" by (auto simp: paid_out_def)
  moreover have "user_balance att_start 7 GAME = 0"
    by (simp add: att_start_def wdb.defs init_db_def user_balance_def walletByUser_def)
  ultimately show ?thesis
    using attendance_pays_claims [OF att_start_ok(1,5,6), of overlapping_claims "fst ?w" "snd ?w"] rows
    by (auto simp: map_eq_Cons_conv)
qed

end
