(* ===== verification/Spec2Isabelle.thy ===== *)
theory Spec2Isabelle
  imports WalletReconciliation WalletRuns TransferLaws CasinoGateway LuckyProperties WithdrawalProperties
    CallProperties BackpackLaws TreasureChampions GiftSamples AttendanceStreak
begin

text \<open>
  The core of the Soulzaa backend (NestJS over PostgreSQL and Redis): the wallet and the modules
  whose correctness is what they do to it, and the calls between users with the privacy rules that
  gate them. Paths below are under src/src/modules unless they begin with src/.

  How the program is put together. Every module that moves coins calls \<open>WALLET_SERVICE\<close> (\<open>debit\<close>,
  \<open>credit\<close>) with an idempotency key of its own, keeps its own tables, and serialises its operations
  by Redis locks (\<open>LockService.withLock\<close>). A wallet row has one column per currency; each movement
  writes a transaction header (unique key), an immutable ledger entry and the new balance in one
  database transaction. Calls keep one row each, moved by conditional updates (\<open>WHERE status IN ...\<close>) from
  requests, from delayed queue jobs and from a sweep that catches what the jobs missed; who may call
  whom is answered by the privacy module's check engine, through a cache over its tables.

  How the model is put together. A handler is an \<open>act\<close> (Prelude): a function from the state to a
  result - a value or an exception - and the state it leaves. The wallet's tables are the record
  \<open>wdb\<close>; each module extends it (\<open>casino_db\<close>, \<open>packet_db\<close>, \<open>wd_db\<close>, \<open>gift_db\<close>, \<open>att_db\<close>), so that its handlers run the wallet's
  own definitions on one state. What a handler reads of code that is not modelled is an argument:
  the treasury freeze and the feature flag (columns of \<open>wdb\<close> that steps may set), room membership
  (\<open>room_env\<close>), platform configuration (\<open>wd_env\<close>), time zones (\<open>att_env\<close>), the social graph (\<open>pv_env\<close>), the chat, notification, card
  and token services of a call (\<open>call_env\<close>), random draws, clocks. Row identifiers are numbers
  drawn from \<open>next_id\<close>; the model uses of their text only that it determines them and holds no colon.

  Theories, in the order of the imports:
  \<^item> Prelude: \<open>act\<close> and its combinators, the locale \<open>step_order\<close> (a reflexive, transitive property of
    state changes passes through the combinators), doubles, decimal identifiers.
  \<^item> WalletModel, WalletMovement: wallet/repositories/wallet.repository.ts, ledger.service.ts and
    wallet.service.ts (\<open>move\<close>, \<open>debit\<close>, \<open>credit\<close>, \<open>getOrCreateWallet\<close>, \<open>updateWalletStatus\<close>) with
    wallet-validation.service.ts. WalletLaws: what one movement does, and the interface every client
    uses, the locales \<open>movement_port\<close>, \<open>wallet_service\<close> and \<open>payout\<close>, interpreted on \<open>debit\<close> and \<open>credit\<close>.
  \<^item> WalletTransactions, WalletTransactionLaws, WalletRace: wallet-transaction.service.ts, each request
    split into its check and its commit, and every interleaving of them. TransferLaws: \<open>transferCoins\<close>.
  \<^item> WalletReservations: reservation.service.ts. WalletReconciliation: wallet-reconciliation.service.ts
    and balance.service.ts. WalletRuns: all wallet operations together, append-only and balanced.
  \<^item> Locks: src/src/infra/redis (lock.service.ts, distributed-lock.service.ts) over a store with
    expiry; mutual exclusion over all reachable states, and the retry loop of \<open>withLock\<close>.
  \<^item> CasinoEngines, CasinoService, CasinoLaws, CasinoBets: casino/engines, casino.service.ts and its
    repository: multipliers, outcome selection, bets, settlement and refunds. CasinoLoop,
    CasinoLoopLaws, CasinoRounds: casino-loop.service.ts, the leader's tick per game. CasinoGateway:
    the bet handler and the pool of casino.gateway.ts.
  \<^item> LuckyPackets, LuckyLaws, LuckyProperties: lucky-packets (service, repository, share computation).
  \<^item> Withdrawals, WithdrawalLaws, WithdrawalProperties: withdrawals (request, review, payout, statistics,
    history and the reads).
  \<^item> Privacy: privacy (service, repository, cache): settings, blocks, and the check engine over its
    cache; the locale \<open>access_gate\<close>, what a client may rely on when it asks before it acts, interpreted
    on the engine itself.
  \<^item> Calls: calls (service, repository, lifecycle worker, reaper, event listeners, token issue). The
    tables are \<open>call_db\<close>, which extends the privacy tables; the event bus awaits its listeners, so they are part
    of \<open>publish_call\<close>; the queue is the log of the jobs asked for. CallRace: each request cut at its
    reads and its writes into phases, and schedules of phases. CallLaws: what one operation may change.
    CallOutcome: the invariant of the rows and of the phases in flight, over every schedule. CallRuns: requests and deadlines
    one after the other, and the sweep. CallProperties: what this shows of calls and privacy.
  \<^item> Backpack, BackpackListing, BackpackLaws: backpack (service and repository): items granted, equipped, transferred,
    and the reads with the copy of the cosmetics and the clean-up that a listing runs.
  \<^item> Treasure, TreasureEvents: treasure-boxes: a room's daily session of five boxes, both engines that fill
    them, the rewards (wallet and backpack), the handler of a sent gift, and the life of a session. The record
    \<open>treasure_db\<close> extends the backpack's \<open>item_db\<close>. TreasureLaws: the boxes as one container (\<open>stands\<close>) and both engines
    as its operation. TreasureProperties, TreasureChampions: what this shows of sessions, gifts and rankings.
  \<^item> Gifts: gifts (repository, leaderboard service, registry) and the handlers of its contexts in audio-rooms and
    chat; \<open>gift_db\<close> extends \<open>treasure_db\<close>. GiftSend: gift.service.ts, a send in its three parts: the checks and the
    quote (\<open>send_check\<close>), the transaction (\<open>send_commit\<close>), and what follows it (\<open>afterSend\<close>). GiftLaws: what a settlement
    moves. GiftRooms: the locale \<open>gift_context\<close>, what the service relies on in a handler, interpreted on every
    handler modelled; for audio rooms that is what filling boxes may touch. GiftProperties, GiftLiveness: what
    this shows of gifts. GiftSamples: their witnesses.
  \<^item> Attendance: attendance (service, calendar, streak, repository, seeder), a claim cut at its reads
    (\<open>claim_begin\<close>), its transaction (\<open>claim_commit\<close>) and what follows (\<open>claim_finish\<close>). AttendanceLaws: the next
    midnight, and what overlapping claims keep. AttendanceStreak: a user who comes back every day, and the witnesses.

  What the properties show. For the wallet: a movement either has exactly its effect or none, a key
  takes effect once under every interleaving, no schedule overdraws a currency column - what is available falls
  below zero by at most what is reserved -, the ledger is ahead of the columns by exactly the requests in
  FREE, EARNINGS or no currency, along every run without those, transfers and reversals they agree, and the ledger
  only grows; the sweep's report has the drift of each currency with entries. For the
  casino: a tap is charged and recorded once, settlement pays exactly the winnings, an aborted
  settlement returns exactly the stakes it marks, the loop's state stays that of an existing round,
  while a leader's lock lasts no other instance ticks. For lucky packets: coins are conserved by every run, each
  member is paid once, and a sweep whose creators are all active refunds what is left. For withdrawals, one call after
  another: diamonds, holds and the holds lost with rows the database refused add up, and the recorded
  transitions are a walk of the status machine. For privacy: along every run the cached answer is the
  tables' answer. For calls: under every interleaving a row only moves forward, a settled row stays as
  it is and has the fields its status calls for; one request at a time no user is in two live calls; a retried
  placement answers the same call; a sweep settles what is overdue. For the backpack: one equipped item per
  type, along every run whose listings find the cosmetics that are on among the items that are on. For treasure boxes, while a
  session of today is open and not full: the five boxes are one container, each gift moves into it what still fits and gets
  the rest back, the two engines agree, and a gift is counted once. For gifts: a gift that can be paid goes
  through, moves exactly what its quote says - without the cost when its debit key was used before -, is charged once,
  and in an audio room with boxes to fill costs the sender what they take. For attendance: however claims overlap, a user has one claim per local date and has been paid
  the coins of the recorded claims; coming back every day climbs the thirty rungs, cycle after cycle; the next midnight is
  found to the minute. The same models show where the code leaves its
  contract; those theorems are named by the findings of the manifest: transfers that unbalance the
  ledger, a debit that spends reserved coins, a reservation released twice, consumed coins that come back, a lost read that loses all
  bets of a round, rounds abandoned at failover, a claim whose share is lost, a retried creation that
  mints a packet, a merged grant whose repetition adds again, a listing that equips two items and one that frees the default
  frame, engines that differ once a session is completed, one frozen creator that blocks all refunds, withdrawal identifiers that are no
  UUIDs, a cancellation that is paid and refunded, a block that a list read before it outlives in the
  cache, two overlapping calls that both ring, a failing notification that stops the sweep, and a token
  for the room of a call that has ended.

  Bounds. \<open>Number(bigint)\<close> is rounding to 53 bits (\<open>toNumber\<close>); theorems that need exactness bound
  the amounts by \<open>2 ^ 53\<close>, which the DTOs' own limits imply where they exist. Columns of the types Int and BigInt
  are unbounded integers: the errors of a value beyond 4 or 8 bytes are not modelled. The retry loops of
  the locks are total functions and the reconciliation sweep is a partial function shown to end; no fuel is used. The quotients in the share
  computation are exact: with ten million coins and 200 slots the double quotient has the same floor.

  One definition is one critical section when the code runs it under one lock or in one database
  transaction; where the code checks outside the transaction or under different locks (the wallet's
  requests, releases, withdrawals) the check and the commit are separate definitions, so that their
  interleavings are states of the model. The phases of a call take all reads of one check at once; the
  reads of the privacy cache are split where the code awaits the table (\<open>block_outlived_by_cache\<close>).

  Not modelled. Movement metadata, error texts beyond a short form, events other than those listed,
  HTTP controllers and guards, sockets, metrics, timers and logging; the clock, random numbers and the
  online counts are arguments; the service and the database read one clock (for a busy call, whose end the service
  reads before the database stamps the row, \<open>ce_insertDelay\<close> is the time between); Redis is a store with expiry whose operations are atomic; ticks of one
  casino instance are taken one at a time. Of the backpack the metadata and media URLs of items; of treasure boxes the rockets, the champions view with its cache, the configuration
  writes, the engines of video rooms, and \<open>handleContribution\<close>, which nothing calls; of gifts the catalogue's
  administration, inventories, lists, the retention of the leaderboards, and the handler of video rooms, which is an
  argument. \<open>String.trim\<close> is modelled on the white space of one byte. The
  remaining social features (audio and video rooms, chat, profiles, games, moderation, agencies,
  analytics) are listed in the manifest and not modelled.
\<close>

end
